(* ===== verification/Op_Prelude.thy ===== *)
theory Op_Prelude
  imports Main "HOL-Library.AList" "HOL-Library.List_Lexorder" "HOL-Library.Char_ord"
begin

text \<open>
  Shared vocabulary of the development: exceptions as sum values, sequences of guarded
  \<open>throw\<close> statements, JavaScript objects used as dictionaries, and the small regular
  expressions of the operation layer as executable predicates.

  Strings are \<^typ>\<open>string\<close>, so a JavaScript string is modelled on the code units
  below 256. Relational comparison of strings is the lexicographic order on code units
  (theories \<open>Char_ord\<close> and \<open>List_Lexorder\<close>), as JavaScript's \<open><\<close> is.
\<close>

named_theorems res_simps "rewriting of exception sequences"
named_theorems obj_simps "rewriting of dictionary objects"

section \<open>Exceptions\<close>

text \<open>
  An exception carries the class and, for \<open>OperationStateError\<close>, its \<open>code\<close>; for a
  \<open>TypeError\<close> its message. Human-readable messages of coded errors are not modelled.
  \<open>Untyped_record k\<close> is not an exception of the code: it marks the one place where the code
  accepts a record read from \<open>Object.prototype\<close> under the key \<open>k\<close>, which no typed value of
  the model can represent (\<open>Op_Receipt_Objects\<close> follows the code there).
\<close>

datatype js_error =
    OperationStateError string
  | TypeError string
  | Untyped_record string

type_synonym 'a res = "js_error + 'a"

text \<open>A statement that throws or falls through is an optional exception.\<close>

type_synonym check = "js_error option"

definition throw_if :: "bool \<Rightarrow> 'e \<Rightarrow> 'e option" where
  "throw_if b e = (if b then Some e else None)"

text \<open>A block of such statements: the first exception wins.\<close>

fun first_error :: "'e option list \<Rightarrow> 'e option" where
  "first_error [] = None"
| "first_error (c # cs) = (case c of None \<Rightarrow> first_error cs | Some e \<Rightarrow> Some e)"

text \<open>Statements followed by a \<open>return\<close>.\<close>

definition checked :: "'e option \<Rightarrow> 'a \<Rightarrow> 'e + 'a" where
  "checked c a = (case c of None \<Rightarrow> Inr a | Some e \<Rightarrow> Inl e)"

definition bind_res :: "'e + 'a \<Rightarrow> ('a \<Rightarrow> 'e + 'b) \<Rightarrow> 'e + 'b" where
  "bind_res r f = (case r of Inl e \<Rightarrow> Inl e | Inr a \<Rightarrow> f a)"

definition result_error :: "'e + 'a \<Rightarrow> 'e option" where
  "result_error r = (case r of Inl e \<Rightarrow> Some e | Inr _ \<Rightarrow> None)"

text \<open>A statement executed only when an optional value is present.\<close>

definition when_some :: "'a option \<Rightarrow> ('a \<Rightarrow> 'e option) \<Rightarrow> 'e option" where
  "when_some x f = (case x of None \<Rightarrow> None | Some a \<Rightarrow> f a)"

lemma throw_if_None [simp, res_simps]: "throw_if b e = None \<longleftrightarrow> \<not> b"
  by (simp add: throw_if_def)

lemma throw_if_Some [simp, res_simps]: "throw_if b e = Some e' \<longleftrightarrow> b \<and> e' = e"
  by (auto simp: throw_if_def)

lemma first_error_Cons_None [simp, res_simps]:
  "first_error (c # cs) = None \<longleftrightarrow> c = None \<and> first_error cs = None"
  by (cases c) auto

declare first_error.simps(2) [simp del]

lemma first_error_None_iff: "first_error cs = None \<longleftrightarrow> (\<forall>c\<in>set cs. c = None)"
  by (induction cs) auto

lemma first_error_append:
  "first_error (cs @ ds) = (case first_error cs of None \<Rightarrow> first_error ds | Some e \<Rightarrow> Some e)"
  by (induction cs) (auto simp: first_error.simps(2) split: option.splits)

lemma first_error_append_None [simp, res_simps]:
  "first_error (cs @ ds) = None \<longleftrightarrow> first_error cs = None \<and> first_error ds = None"
  by (auto simp: first_error_append split: option.splits)

lemma first_error_map_None [simp, res_simps]:
  "first_error (map f xs) = None \<longleftrightarrow> (\<forall>x\<in>set xs. f x = None)"
  by (simp add: first_error_None_iff)

lemma first_error_SomeD: "first_error cs = Some e \<Longrightarrow> Some e \<in> set cs"
  by (induction cs) (auto simp: first_error.simps(2) split: option.splits)

lemma checked_Inr [simp, res_simps]: "checked c a = Inr b \<longleftrightarrow> c = None \<and> b = a"
  by (auto simp: checked_def split: option.splits)

lemma checked_Inl [simp, res_simps]: "checked c a = Inl e \<longleftrightarrow> c = Some e"
  by (auto simp: checked_def split: option.splits)

lemma bind_res_Inr [res_simps]: "bind_res r f = Inr b \<longleftrightarrow> (\<exists>a. r = Inr a \<and> f a = Inr b)"
  by (auto simp: bind_res_def split: sum.splits)

lemma bind_res_simps [simp]: "bind_res (Inl e) f = Inl e" "bind_res (Inr a) f = f a"
  by (simp_all add: bind_res_def)

lemma result_error_None [res_simps]: "result_error r = None \<longleftrightarrow> (\<exists>a. r = Inr a)"
  by (auto simp: result_error_def split: sum.splits)

lemma result_error_simps [simp]: "result_error (Inl e) = Some e" "result_error (Inr a) = None"
  by (simp_all add: result_error_def)

lemma when_some_None_iff [simp, res_simps]: "when_some x f = None \<longleftrightarrow> (\<forall>a. x = Some a \<longrightarrow> f a = None)"
  by (auto simp: when_some_def split: option.splits)

lemma when_some_simps [simp]: "when_some None f = None" "when_some (Some a) f = f a"
  by (simp_all add: when_some_def)

text \<open>Evaluation of the second argument waits for the first.\<close>

declare bind_res_def [code_unfold] when_some_def [code_unfold]

section \<open>Dictionary objects\<close>

text \<open>
  A JavaScript object used as a dictionary, in own-property order. Assigning an existing
  key keeps its place, a new key is appended (\<^const>\<open>AList.update\<close>). The keys of the
  model's dictionaries are UUIDs, never array indices, so insertion order is the order
  of \<open>Object.values\<close>.
\<close>

type_synonym 'v obj = "(string \<times> 'v) list"

definition obj_get :: "'v obj \<Rightarrow> string \<Rightarrow> 'v option" where
  "obj_get ob k = map_of ob k"

definition obj_set :: "'v obj \<Rightarrow> string \<Rightarrow> 'v \<Rightarrow> 'v obj" where
  "obj_set ob k v = AList.update k v ob"

definition obj_keys :: "'v obj \<Rightarrow> string list" where
  "obj_keys ob = map fst ob"

definition obj_values :: "'v obj \<Rightarrow> 'v list" where
  "obj_values ob = map snd ob"

definition obj_wf :: "'v obj \<Rightarrow> bool" where
  "obj_wf ob \<longleftrightarrow> distinct (map fst ob)"

lemma obj_get_set [obj_simps, simp]:
  "obj_get (obj_set ob k v) k' = (if k' = k then Some v else obj_get ob k')"
  by (simp add: obj_get_def obj_set_def update_conv)

lemma obj_get_empty [obj_simps, simp]: "obj_get [] k = None"
  by (simp add: obj_get_def)

lemma obj_wf_empty [simp]: "obj_wf []"
  by (simp add: obj_wf_def)

lemma obj_wf_set [simp]: "obj_wf ob \<Longrightarrow> obj_wf (obj_set ob k v)"
  by (simp add: obj_wf_def obj_set_def distinct_update)

lemma obj_get_in: "obj_get ob k = Some v \<Longrightarrow> (k, v) \<in> set ob"
  by (simp add: obj_get_def map_of_SomeD)

lemma obj_in_get: "obj_wf ob \<Longrightarrow> (k, v) \<in> set ob \<longleftrightarrow> obj_get ob k = Some v"
  by (simp add: obj_get_def obj_wf_def)

lemma obj_values_iff: "obj_wf ob \<Longrightarrow> v \<in> set (obj_values ob) \<longleftrightarrow> (\<exists>k. obj_get ob k = Some v)"
  by (force simp: obj_values_def obj_in_get [symmetric])

lemma obj_set_new: "obj_get ob k = None \<Longrightarrow> obj_set ob k v = ob @ [(k, v)]"
  by (induction ob) (auto simp: obj_get_def obj_set_def split: if_splits)

lemma obj_values_set_new: "obj_get ob k = None \<Longrightarrow> obj_values (obj_set ob k v) = obj_values ob @ [v]"
  by (simp add: obj_set_new obj_values_def)

lemma obj_keys_set [simp]: "set (obj_keys (obj_set ob k v)) = insert k (set (obj_keys ob))"
  by (simp add: obj_keys_def obj_set_def dom_update)

lemma obj_get_None_keys: "obj_get ob k = None \<longleftrightarrow> k \<notin> set (obj_keys ob)"
  by (simp add: obj_get_def obj_keys_def map_of_eq_None_iff)

text \<open>
  A member expression \<open>ob[k]\<close> also reads the prototype: the names of \<open>Object.prototype\<close>
  are found in every dictionary, and so are they by the \<open>in\<close> operator.
\<close>

definition object_prototype_keys :: "string list" where
  "object_prototype_keys =
     [''constructor'', ''__defineGetter__'', ''__defineSetter__'', ''hasOwnProperty'',
      ''__lookupGetter__'', ''__lookupSetter__'', ''isPrototypeOf'', ''propertyIsEnumerable'',
      ''toString'', ''valueOf'', ''__proto__'', ''toLocaleString'']"

datatype 'v lookup = Absent | Inherited | Own 'v

definition dict_lookup :: "'v obj \<Rightarrow> string \<Rightarrow> 'v lookup" where
  "dict_lookup ob k = (case obj_get ob k of Some v \<Rightarrow> Own v
     | None \<Rightarrow> if k \<in> set object_prototype_keys then Inherited else Absent)"

lemma dict_lookup_Own [obj_simps, simp]: "dict_lookup ob k = Own v \<longleftrightarrow> obj_get ob k = Some v"
  by (auto simp: dict_lookup_def split: option.splits)

lemma dict_lookup_Absent:
  "dict_lookup ob k = Absent \<longleftrightarrow> obj_get ob k = None \<and> k \<notin> set object_prototype_keys"
  by (auto simp: dict_lookup_def split: option.splits)

lemma obj_set_idem: "obj_get ob k = Some v \<Longrightarrow> obj_set ob k v = ob"
  by (induction ob) (auto simp: obj_get_def obj_set_def split: if_splits)

lemma obj_values_set_subset: "set (obj_values (obj_set ob k v)) \<subseteq> insert v (set (obj_values ob))"
  by (induction ob) (auto simp: obj_set_def obj_values_def)

lemma length_filter_values_set_same:
  assumes "obj_get ob k = Some v" and "P v = P w"
  shows "length (filter P (obj_values (obj_set ob k w))) = length (filter P (obj_values ob))"
  using assms
  by (induction ob) (auto simp: obj_get_def obj_set_def obj_values_def split: if_splits)

lemma length_filter_values_set_new:
  assumes "obj_get ob k = None"
  shows "length (filter P (obj_values (obj_set ob k w)))
       = length (filter P (obj_values ob)) + (if P w then 1 else 0)"
  using assms by (simp add: obj_values_set_new)

section \<open>Numbers\<close>

text \<open>
  Numbers that reach the durable records are integers; \<open>Number.isSafeInteger\<close> is a range.
\<close>

definition MAX_SAFE_INTEGER :: int where
  "MAX_SAFE_INTEGER = 9007199254740991"

definition is_safe_integer :: "int \<Rightarrow> bool" where
  "is_safe_integer n \<longleftrightarrow> - MAX_SAFE_INTEGER \<le> n \<and> n \<le> MAX_SAFE_INTEGER"

section \<open>Character classes and regular expressions\<close>

definition in_range :: "char \<Rightarrow> char \<Rightarrow> char \<Rightarrow> bool" where
  "in_range lo hi c \<longleftrightarrow> (of_char lo :: nat) \<le> of_char c \<and> (of_char c :: nat) \<le> of_char hi"

definition is_digit :: "char \<Rightarrow> bool" where
  "is_digit c = in_range CHR ''0'' CHR ''9'' c"

definition is_lower :: "char \<Rightarrow> bool" where
  "is_lower c = in_range CHR ''a'' CHR ''z'' c"

definition is_upper :: "char \<Rightarrow> bool" where
  "is_upper c = in_range CHR ''A'' CHR ''Z'' c"

definition is_alnum :: "char \<Rightarrow> bool" where
  "is_alnum c \<longleftrightarrow> is_lower c \<or> is_upper c \<or> is_digit c"

definition is_lower_hex :: "char \<Rightarrow> bool" where
  "is_lower_hex c \<longleftrightarrow> is_digit c \<or> in_range CHR ''a'' CHR ''f'' c"

text \<open>\<open>[\u0000-\u001f\u007f]\<close>\<close>

definition is_control :: "char \<Rightarrow> bool" where
  "is_control c \<longleftrightarrow> (of_char c :: nat) \<le> 31 \<or> (of_char c :: nat) = 127"

text \<open>A pattern that fixes the class of every position.\<close>

definition matches_seq :: "(char \<Rightarrow> bool) list \<Rightarrow> string \<Rightarrow> bool" where
  "matches_seq ps s = list_all2 (\<lambda>p c. p c) ps s"

text \<open>\<open>^[head][tail]{0,n}$\<close>\<close>

definition matches_head_tail :: "(char \<Rightarrow> bool) \<Rightarrow> (char \<Rightarrow> bool) \<Rightarrow> nat \<Rightarrow> string \<Rightarrow> bool" where
  "matches_head_tail h t n s =
     (case s of [] \<Rightarrow> False | c # cs \<Rightarrow> h c \<and> list_all t cs \<and> length cs \<le> n)"

lemma matches_seq_length: "matches_seq ps s \<Longrightarrow> length s = length ps"
  by (auto simp: matches_seq_def dest: list_all2_lengthD)

lemma matches_head_tail_nonempty: "matches_head_tail h t n s \<Longrightarrow> s \<noteq> []"
  by (auto simp: matches_head_tail_def)

lemma matches_head_tail_length: "matches_head_tail h t n s \<Longrightarrow> length s \<le> Suc n"
  by (auto simp: matches_head_tail_def split: list.splits)

end
