(* ===== verification/Op_Types.thy ===== *)
theory Op_Types
  imports Op_Prelude
begin

text \<open>
  The data model of \<open>operations/types.ts\<close> and of the ownership evidence in
  \<open>operations/turn-ownership.ts\<close>. Every enumerated field has one constructor per
  member of its TypeScript union and a constructor \<open>Other_...\<close> for any other run-time
  string: durable records arrive as parsed JSON, and the code checks these fields at
  run time. Optional properties are \<^typ>\<open>'a option\<close>, dictionaries are
  \<^typ>\<open>'v obj\<close>. Field names carry a prefix per record.
\<close>

section \<open>Enumerations\<close>

datatype surface = Chat | Work | Other_surface string

datatype operation_phase =
    Prepared | Handoff_pending | Ready | Send_pending | Submitted
  | Generating | Capturing | Completed | Uncertain | Other_phase string

datatype mutation_boundary =
    No_mutation | Handoff_may_have_occurred | Send_may_have_occurred
  | Control_may_have_occurred | Other_boundary string

datatype repeat_policy =
    Read_only | Reconcile_set_to_value | Reconcile_local_effect
  | Observe_only_after_intent | Other_policy string

datatype action_kind =
    Status_read | Configuration_set | Tool_set | Composer_set | Power_discovery
  | Power_select | File_handoff | Send | Work_steer | Stop | Download
  | Local_output_commit | Clipboard_capture_restore | Other_kind string

datatype action_outcome = Satisfied | Not_satisfied | Outcome_uncertain | Other_outcome string

datatype requirement = Required | Not_available | Other_requirement string

datatype coordination_scope = Process_scope | Provider_scope | Other_scope string

datatype target_lifecycle = Fixed | New_pending | New_established | Other_lifecycle string

datatype response_content = Include | Metadata | Other_content string
datatype response_format = Markdown | Plain_text | Other_format string
datatype artifacts_policy = Receipt_only | Transfer | Other_artifacts string

datatype artifact_kind = File_artifact | Image_artifact | Other_artifact | Bad_artifact_kind string

datatype artifact_status =
    Artifact_available | Artifact_transferred | Artifact_partial | Artifact_blocked
  | Bad_artifact_status string

datatype turn_state = Turn_generating | Turn_terminal | Other_turn_state string

datatype unavailable_reason = Not_exposed | Not_observed | Redacted | Other_reason string

section \<open>Capture policies\<close>

text \<open>The request's policy (its members may be absent at run time) and the durable one.\<close>

record capture_request =
  cq_responseContent :: "response_content option"
  cq_responseFormat :: "response_format option"
  cq_artifacts :: "artifacts_policy option"
  cq_outputDirectory :: "string option"

record capture_policy =
  cp_responseContent :: response_content
  cp_responseFormat :: response_format
  cp_artifacts :: artifacts_policy

section \<open>Target binding\<close>

record evidence_profile =
  ep_providerIdentity :: requirement
  ep_stableTabId :: requirement
  ep_stableConversationId :: requirement
  ep_stableUserTurnId :: requirement
  ep_authoritativeTabClaim :: requirement
  ep_replacementTabRecovery :: bool

record target_establishment =
  te_targetBindingDigest :: string
  te_anchorDigest :: string
  te_causalSendActionId :: string
  te_conversationId :: string
  te_canonicalThreadUrl :: string
  te_userTurnId :: string
  te_userTurnEvidenceDigest :: string
  te_postSendDeltaDigest :: "string option"
  te_evidenceDigest :: string
  te_observedAt :: string

record target_binding =
  tb_providerId :: string
  tb_browserId :: string
  tb_tabId :: string
  tb_coordinationScope :: coordination_scope
  tb_tabClaimEvidenceDigest :: "string option"
  tb_canonicalThreadUrl :: "string option"
  tb_conversationId :: "string option"
  tb_userTurnBaselineDigest :: "string option"
  tb_assistantTurnBaselineDigest :: "string option"
  tb_configurationReceiptDigest :: "string option"
  tb_evidenceProfile :: evidence_profile
  tb_targetLifecycle :: "target_lifecycle option"
  tb_newTargetAnchorDigest :: "string option"
  tb_blankTaskEvidenceDigest :: "string option"
  tb_targetEstablishment :: "target_establishment option"

section \<open>Ownership evidence\<close>

datatype identity_evidence = Available string | Unavailable unavailable_reason

record ownership_target =
  ot_provider :: identity_evidence
  ot_browser :: identity_evidence
  ot_tab :: identity_evidence
  ot_thread :: identity_evidence
  ot_conversation :: identity_evidence
  ot_canonicalThreadUrl :: identity_evidence
  ot_authoritativeTabClaim :: identity_evidence
  ot_coordinationScope :: coordination_scope

record ownership_turn =
  tn_stableId :: "string option"
  tn_evidenceDigest :: string
  tn_structureDigest :: string
  tn_ordinal :: int
  tn_parentStableId :: "string option"
  tn_branchStableId :: "string option"
  tn_state :: "turn_state option"
  tn_artifactEvidenceDigests :: "string list option"

text \<open>The normalized pre-action snapshot (\<open>OwnershipBaseline\<close>).\<close>

record ownership_baseline =
  bl_schemaVersion :: string
  bl_snapshotDigest :: string
  bl_target :: ownership_target
  bl_userTurns :: "ownership_turn list"
  bl_assistantTurns :: "ownership_turn list"
  bl_completeness :: string

text \<open>Its durable wrapper (\<open>OperationOwnershipBaselineV1\<close>) and the post-action witness.\<close>

record operation_baseline =
  ob_schemaVersion :: string
  ob_operationId :: string
  ob_requestDigest :: string
  ob_targetBindingDigest :: string
  ob_actionId :: string
  ob_baseline :: ownership_baseline
  ob_observedAt :: string

record submission_witness =
  sw_schemaVersion :: string
  sw_actionId :: string
  sw_actionKind :: action_kind
  sw_targetBindingDigest :: string
  sw_baselineSnapshotDigest :: string
  sw_postSendDeltaDigest :: string
  sw_operationUserEvidenceDigest :: string
  sw_userTurnId :: "string option"
  sw_observedAt :: string

section \<open>Actions\<close>

record action_intent =
  ai_actionId :: string
  ai_kind :: action_kind
  ai_repeatPolicy :: repeat_policy
  ai_requestDigest :: string
  ai_parentActionId :: "string option"
  ai_targetDigest :: "string option"

record action_record =
  ar_actionId :: string
  ar_kind :: action_kind
  ar_repeatPolicy :: repeat_policy
  ar_requestDigest :: string
  ar_parentActionId :: "string option"
  ar_targetDigest :: "string option"
  ar_intentRevision :: int
  ar_intentAt :: string
  ar_outcome :: "action_outcome option"
  ar_receiptRevision :: "int option"
  ar_receiptAt :: "string option"
  ar_evidenceDigest :: "string option"
  ar_blockerCode :: "string option"

record action_receipt =
  rc_actionId :: string
  rc_outcome :: action_outcome
  rc_evidenceDigest :: "string option"
  rc_blockerCode :: "string option"
  rc_observedAt :: string

section \<open>Artifact transfers\<close>

record transfer_intent =
  ti_schemaVersion :: string
  ti_operationId :: string
  ti_requestDigest :: string
  ti_targetBindingDigest :: string
  ti_assistantTurnId :: string
  ti_sourceIdentityDigest :: string
  ti_kind :: artifact_kind
  ti_ordinal :: int
  ti_transferActionId :: string
  ti_destinationIdentityDigest :: string
  ti_actionKind :: action_kind
  ti_repeatPolicy :: repeat_policy
  ti_intentAt :: string

record transfer_receipt =
  tr_schemaVersion :: string
  tr_operationId :: string
  tr_requestDigest :: string
  tr_targetBindingDigest :: string
  tr_assistantTurnId :: string
  tr_sourceIdentityDigest :: string
  tr_kind :: artifact_kind
  tr_ordinal :: int
  tr_transferActionId :: string
  tr_destinationIdentityDigest :: string
  tr_outputKey :: "string option"
  tr_bytes :: "int option"
  tr_sha256 :: "string option"
  tr_status :: artifact_status
  tr_blockerCode :: "string option"
  tr_observedAt :: string

record transfer_state =
  ts_intent :: transfer_intent
  ts_receipt :: "transfer_receipt option"

section \<open>Receipts and blockers\<close>

record artifact_receipt =
  af_schemaVersion :: string
  af_operationId :: string
  af_artifactKey :: string
  af_assistantTurnId :: string
  af_sourceIdentityDigest :: string
  af_kind :: artifact_kind
  af_ordinal :: int
  af_outputKey :: "string option"
  af_mimeType :: "string option"
  af_bytes :: "int option"
  af_sha256 :: "string option"
  af_status :: artifact_status
  af_blockerCode :: "string option"

record operation_receipt =
  rp_schemaVersion :: string
  rp_operationId :: string
  rp_requestDigest :: string
  rp_targetBindingDigest :: string
  rp_userTurnId :: string
  rp_userTurnEvidenceDigest :: string
  rp_assistantTurnId :: string
  rp_ownershipEvidenceDigest :: string
  rp_responseDigest :: "string option"
  rp_responseBytes :: "int option"
  rp_responseFormat :: "response_format option"
  rp_finishReason :: string
  rp_contentAvailable :: bool
  rp_artifacts :: "artifact_receipt list"
  rp_completedAt :: string

record blocker_observation =
  bo_code :: string
  bo_messageDigest :: string
  bo_recoverable :: bool
  bo_observedAt :: string

section \<open>The materialized operation\<close>

record operation_state =
  st_schemaVersion :: string
  st_operationId :: string
  st_requestDigest :: string
  st_surface :: surface
  st_phase :: operation_phase
  st_mutationBoundary :: mutation_boundary
  st_revision :: int
  st_createdAt :: string
  st_updatedAt :: string
  st_capturePolicy :: "capture_policy option"
  st_responseFormat :: "response_format option"
  st_target :: "target_binding option"
  st_actions :: "action_record obj"
  st_ownershipBaseline :: "operation_baseline option"
  st_ownershipBaselines :: "operation_baseline obj option"
  st_artifactTransfers :: "transfer_state obj option"
  st_submissionWitnesses :: "submission_witness obj option"
  st_submissionWitness :: "submission_witness option"
  st_lastBlocker :: "blocker_observation option"
  st_receipt :: "operation_receipt option"

section \<open>Events\<close>

record created_event =
  ev_operationId :: string
  ev_requestDigest :: string
  ev_surface :: surface
  ev_createdAt :: string
  ev_capturePolicy :: "capture_policy option"

record phase_event =
  pe_from :: operation_phase
  pe_to :: operation_phase
  pe_mutationBoundary :: mutation_boundary
  pe_causeActionId :: "string option"
  pe_evidenceDigest :: "string option"
  pe_observedAt :: string

datatype operation_event =
    Operation_created created_event
  | Target_bound target_binding string
  | Target_established target_establishment
  | Ownership_baseline_event operation_baseline
  | Submission_witness_event submission_witness
  | Action_intent_event action_intent string
  | Action_prepared_event action_intent string operation_baseline
  | Artifact_transfer_intent_event transfer_intent
  | Artifact_transfer_receipt_event transfer_receipt
  | Action_receipt_event action_receipt
  | Phase_changed_event phase_event
  | Blocker_observed_event blocker_observation
  | Receipt_completed_event operation_receipt string
  | Content_availability_changed_event bool string

definition OPERATION_SCHEMA_VERSION :: string where
  "OPERATION_SCHEMA_VERSION = ''chatgpt.browser_control.operation.v1''"
definition OPERATION_RECEIPT_SCHEMA_VERSION :: string where
  "OPERATION_RECEIPT_SCHEMA_VERSION = ''chatgpt.browser_control.operation_receipt.v1''"
definition OPERATION_ARTIFACT_RECEIPT_SCHEMA_VERSION :: string where
  "OPERATION_ARTIFACT_RECEIPT_SCHEMA_VERSION = ''chatgpt.browser_control.operation_artifact_receipt.v1''"
definition OPERATION_SUBMISSION_WITNESS_SCHEMA_VERSION :: string where
  "OPERATION_SUBMISSION_WITNESS_SCHEMA_VERSION = ''chatgpt.browser_control.operation_submission_witness.v1''"
definition OPERATION_OWNERSHIP_BASELINE_SCHEMA_VERSION :: string where
  "OPERATION_OWNERSHIP_BASELINE_SCHEMA_VERSION = ''chatgpt.browser_control.operation_ownership_baseline.v1''"
definition OPERATION_ARTIFACT_TRANSFER_INTENT_SCHEMA_VERSION :: string where
  "OPERATION_ARTIFACT_TRANSFER_INTENT_SCHEMA_VERSION = ''chatgpt.browser_control.artifact_transfer_intent.v1''"
definition OPERATION_ARTIFACT_TRANSFER_RECEIPT_SCHEMA_VERSION :: string where
  "OPERATION_ARTIFACT_TRANSFER_RECEIPT_SCHEMA_VERSION = ''chatgpt.browser_control.artifact_transfer_receipt.v1''"
definition TURN_OWNERSHIP_SCHEMA_VERSION :: string where
  "TURN_OWNERSHIP_SCHEMA_VERSION = ''chatgpt.browser_control.turn_ownership.v1''"

end
