(* ===== verification/Canonical_Json.thy ===== *)
theory Canonical_Json
  imports Op_Prelude "HOL-Library.Multiset"
begin

text \<open>
  \<open>operations/canonical.ts\<close>: the bounded canonical JSON text of a JavaScript value, the
  keyed digest over it, and the digest of an operation request.

  A value is a finite tree; \<open>JAncestor\<close> stands for a reference back to an enclosing
  object. An object is \<open>JObj sym ps\<close>: \<open>ps\<close> are its own string-keyed properties in
  order, each a data property with its enumerable flag or an accessor, and \<open>sym\<close> is
  the number of its symbol keys. Dates and byte arrays carry a flag for extra own
  properties. Numbers are integers, \<open>-0\<close>, or not finite.
\<close>

section \<open>JavaScript values\<close>

datatype 'v jprop = Data bool 'v | Accessor

datatype jsv =
    JUndefined
  | JNull
  | JBool bool
  | JNum int
  | JNegZero
  | JNonFinite
  | JStr string
  | JUnsupported string
  | JAncestor
  | JArr "jsv list"
  | JOddArray bool
  | JDate bool "string option"
  | JBytes bool string
  | JExotic
  | JObj nat "(string \<times> jsv jprop) list"

text \<open>The graph built by \<open>canonicalValue\<close>, which \<open>JSON.stringify\<close> then prints.\<close>

datatype cjson =
    CNull
  | CBool bool
  | CNum int
  | CStr string
  | CArr "cjson list"
  | CObj "(string \<times> cjson) list"

section \<open>Bounds\<close>

definition MAX_CANONICAL_DEPTH :: nat where "MAX_CANONICAL_DEPTH = 32"
definition MAX_CANONICAL_NODES :: nat where "MAX_CANONICAL_NODES = 100000"
definition MAX_CANONICAL_PROPERTIES :: nat where "MAX_CANONICAL_PROPERTIES = 32768"
definition MAX_CANONICAL_ARRAY_LENGTH :: nat where "MAX_CANONICAL_ARRAY_LENGTH = 32768"
definition MAX_CANONICAL_BYTES :: nat where "MAX_CANONICAL_BYTES = 16 * 1024 * 1024"
definition MAX_CANONICAL_KEY_BYTES :: nat where "MAX_CANONICAL_KEY_BYTES = 4096"

definition SAFE_CANONICAL_ERROR :: string where
  "SAFE_CANONICAL_ERROR = ''Canonical JSON input could not be inspected safely.''"

definition RESERVED_CANONICAL_KEYS :: "string list" where
  "RESERVED_CANONICAL_KEYS = [''$undefined'', ''$date'', ''$bytes'']"

record canonical_budget =
  bg_nodes :: nat
  bg_properties :: nat
  bg_bytes :: nat

definition empty_budget :: canonical_budget where
  "empty_budget = \<lparr>bg_nodes = 0, bg_properties = 0, bg_bytes = 0\<rparr>"

text \<open>UTF-8 of a string of code units below 256 (\<open>Buffer.byteLength\<close> is its length).\<close>

definition utf8_char :: "char \<Rightarrow> string" where
  "utf8_char c = (let n = (of_char c :: nat) in
     if n < 128 then [c] else [char_of (192 + n div 64), char_of (128 + n mod 64)])"

definition utf8 :: "string \<Rightarrow> string" where
  "utf8 s = concat (map utf8_char s)"

definition byteLength :: "string \<Rightarrow> nat" where
  "byteLength s = sum_list (map (\<lambda>c. if (of_char c :: nat) < 128 then 1 else 2) s)"

definition consumeNode :: "nat \<Rightarrow> canonical_budget \<Rightarrow> canonical_budget res" where
  "consumeNode depth b =
     (if depth > MAX_CANONICAL_DEPTH \<or> Suc (bg_nodes b) > MAX_CANONICAL_NODES
      then Inl (TypeError ''Canonical JSON exceeds the bounded graph limit.'')
      else Inr (b\<lparr>bg_nodes := Suc (bg_nodes b)\<rparr>))"

definition consumeBytes :: "string \<Rightarrow> canonical_budget \<Rightarrow> canonical_budget res" where
  "consumeBytes v b =
     (let n = bg_bytes b + byteLength v in
      if n > MAX_CANONICAL_BYTES
      then Inl (TypeError ''Canonical JSON exceeds the bounded byte limit.'')
      else Inr (b\<lparr>bg_bytes := n\<rparr>))"

definition consumeProperty :: "string \<Rightarrow> canonical_budget \<Rightarrow> canonical_budget res" where
  "consumeProperty key b =
     (if Suc (bg_properties b) > MAX_CANONICAL_PROPERTIES
      then Inl (TypeError ''Canonical JSON exceeds the bounded property limit.'')
      else if byteLength key > MAX_CANONICAL_KEY_BYTES
      then Inl (TypeError ''Canonical JSON contains an oversized property name.'')
      else consumeBytes key (b\<lparr>bg_properties := Suc (bg_properties b)\<rparr>))"

section \<open>Decimal numerals, base64 and string literals\<close>

definition digit_char :: "nat \<Rightarrow> char" where
  "digit_char n = char_of (48 + n)"

fun nat_text :: "nat \<Rightarrow> string" where
  "nat_text n = (if n < 10 then [digit_char n] else nat_text (n div 10) @ [digit_char (n mod 10)])"

declare nat_text.simps [simp del]

definition int_text :: "int \<Rightarrow> string" where
  "int_text i = (if i < 0 then CHR ''-'' # nat_text (nat (- i)) else nat_text (nat i))"

definition base64_char :: "nat \<Rightarrow> char" where
  "base64_char n =
     ''ABCDEFGHIJKLMNOPQRSTUVWXYZabcdefghijklmnopqrstuvwxyz0123456789+/'' ! (n mod 64)"

fun base64 :: "string \<Rightarrow> string" where
  "base64 [] = []"
| "base64 [a] = (let x = (of_char a :: nat) in
     [base64_char (x div 4), base64_char (x mod 4 * 16), CHR ''='', CHR ''=''])"
| "base64 [a, b] = (let x = (of_char a :: nat); y = (of_char b :: nat) in
     [base64_char (x div 4), base64_char (x mod 4 * 16 + y div 16),
      base64_char (y mod 16 * 4), CHR ''=''])"
| "base64 (a # b # c # s) =
     (let x = (of_char a :: nat); y = (of_char b :: nat); z = (of_char c :: nat) in
      [base64_char (x div 4), base64_char (x mod 4 * 16 + y div 16),
       base64_char (y mod 16 * 4 + z div 64), base64_char (z mod 64)] @ base64 s)"

definition hex_char :: "nat \<Rightarrow> char" where
  "hex_char n = ''0123456789abcdef'' ! (n mod 16)"

text \<open>The escapes of \<open>JSON.stringify\<close>.\<close>

definition json_escape :: "char \<Rightarrow> string" where
  "json_escape c = (let n = (of_char c :: nat) in
     if c = CHR 0x22 then [CHR 0x5C, CHR 0x22]
     else if c = CHR 0x5C then [CHR 0x5C, CHR 0x5C]
     else if n = 8 then [CHR 0x5C, CHR ''b'']
     else if n = 9 then [CHR 0x5C, CHR ''t'']
     else if n = 10 then [CHR 0x5C, CHR ''n'']
     else if n = 12 then [CHR 0x5C, CHR ''f'']
     else if n = 13 then [CHR 0x5C, CHR ''r'']
     else if n < 32 then [CHR 0x5C, CHR ''u'', CHR ''0'', CHR ''0'', hex_char (n div 16), hex_char n]
     else [c])"

definition string_text :: "string \<Rightarrow> string" where
  "string_text s = CHR 0x22 # concat (map json_escape s) @ [CHR 0x22]"

section \<open>Printing\<close>

text \<open>
  \<open>JSON.stringify\<close> visits the own properties of an object in the engine's order: array
  indices first, ascending, then the other keys in insertion order.
\<close>

definition is_array_index :: "string \<Rightarrow> bool" where
  "is_array_index k \<longleftrightarrow> k \<noteq> [] \<and> list_all is_digit k \<and> (k = ''0'' \<or> hd k \<noteq> CHR ''0'')
     \<and> length k \<le> 10 \<and> foldl (\<lambda>n c. 10 * n + (of_char c - 48)) (0::nat) k \<le> 4294967294"

definition index_value :: "string \<Rightarrow> nat" where
  "index_value k = foldl (\<lambda>n c. 10 * n + (of_char c - 48)) 0 k"

definition enumeration_order :: "(string \<times> 'a) list \<Rightarrow> (string \<times> 'a) list" where
  "enumeration_order ps =
     sort_key (index_value \<circ> fst) (filter (is_array_index \<circ> fst) ps)
     @ filter (\<lambda>p. \<not> is_array_index (fst p)) ps"

definition join_with :: "string \<Rightarrow> string list \<Rightarrow> string" where
  "join_with sep ss = concat (case ss of [] \<Rightarrow> [] | x # xs \<Rightarrow> x # map (\<lambda>y. sep @ y) xs)"

fun json_text :: "cjson \<Rightarrow> string" where
  "json_text CNull = ''null''"
| "json_text (CBool b) = (if b then ''true'' else ''false'')"
| "json_text (CNum i) = int_text i"
| "json_text (CStr s) = string_text s"
| "json_text (CArr xs) = ''['' @ join_with '','' (map json_text xs) @ '']''"
| "json_text (CObj ps) =
     ''{'' @ join_with '','' (map (\<lambda>(k, t). string_text k @ '':'' @ t)
              (enumeration_order (map (\<lambda>(k, v). (k, json_text v)) ps))) @ ''}''"


section \<open>Canonicalization\<close>

definition type_error :: "string \<Rightarrow> 'a res" where
  "type_error m = Inl (TypeError m)"

text \<open>Tagged objects for values JSON cannot express.\<close>

definition marker :: "string \<Rightarrow> cjson \<Rightarrow> cjson" where
  "marker k v = CObj [(k, v)]"

definition canonicalDate :: "bool \<Rightarrow> string option \<Rightarrow> canonical_budget \<Rightarrow> (cjson \<times> canonical_budget) res" where
  "canonicalDate custom stamp b =
     (if custom then type_error ''Canonical JSON does not support custom date properties.''
      else case stamp of
        None \<Rightarrow> type_error ''Canonical JSON contains an invalid date.''
      | Some t \<Rightarrow> bind_res (consumeBytes t b) (\<lambda>b'. Inr (marker ''$date'' (CStr t), b')))"

fun consumeIndices :: "nat \<Rightarrow> nat \<Rightarrow> canonical_budget \<Rightarrow> canonical_budget res" where
  "consumeIndices i 0 b = Inr b"
| "consumeIndices i (Suc n) b = bind_res (consumeProperty (nat_text i) b) (consumeIndices (Suc i) n)"

definition canonicalBytes :: "bool \<Rightarrow> string \<Rightarrow> canonical_budget \<Rightarrow> (cjson \<times> canonical_budget) res" where
  "canonicalBytes custom bytes b =
     (if length bytes > MAX_CANONICAL_BYTES
      then type_error ''Canonical JSON contains an oversized byte array.''
      else if custom
      then type_error ''Canonical JSON does not support custom byte-array properties.''
      else bind_res (consumeIndices 0 (length bytes) b) (\<lambda>b1.
           bind_res (consumeBytes (base64 bytes) b1) (\<lambda>b2.
             Inr (marker ''$bytes'' (CStr (base64 bytes)), b2))))"

lemma size_list_sort_key [simp]: "size_list f (sort_key k xs) = size_list f xs"
proof -
  have "size_list f ys = sum_mset (image_mset f (mset ys)) + length ys" for ys
    by (induction ys) auto
  then show ?thesis by simp
qed

function canonicalValue :: "jsv \<Rightarrow> nat \<Rightarrow> canonical_budget \<Rightarrow> (cjson \<times> canonical_budget) res"
  and canonicalElements :: "jsv list \<Rightarrow> nat \<Rightarrow> nat \<Rightarrow> canonical_budget \<Rightarrow> (cjson list \<times> canonical_budget) res"
  and canonicalProperties ::
    "(string \<times> jsv jprop) list \<Rightarrow> nat \<Rightarrow> canonical_budget \<Rightarrow> ((string \<times> cjson) list \<times> canonical_budget) res"
where
  "canonicalValue v depth b0 = bind_res (consumeNode depth b0) (\<lambda>b. case v of
     JUndefined \<Rightarrow> Inr (marker ''$undefined'' (CBool True), b)
   | JNull \<Rightarrow> Inr (CNull, b)
   | JBool x \<Rightarrow> Inr (CBool x, b)
   | JStr s \<Rightarrow> bind_res (consumeBytes s b) (\<lambda>b'. Inr (CStr s, b'))
   | JNonFinite \<Rightarrow> type_error ''Canonical JSON does not support non-finite numbers.''
   | JNegZero \<Rightarrow> Inr (CNum 0, b)
   | JNum i \<Rightarrow> Inr (CNum i, b)
   | JUnsupported t \<Rightarrow> type_error (''Canonical JSON does not support '' @ t @ '' values.'')
   | JAncestor \<Rightarrow> type_error ''Canonical JSON does not support cyclic values.''
   | JOddArray subclass \<Rightarrow>
       (if subclass then type_error ''Canonical JSON supports only standard arrays.''
        else type_error ''Canonical JSON does not support sparse or custom arrays.'')
   | JArr vs \<Rightarrow>
       (if length vs > MAX_CANONICAL_ARRAY_LENGTH
        then type_error ''Canonical JSON contains an oversized array.''
        else bind_res (canonicalElements vs 0 depth b) (\<lambda>(cs, b'). Inr (CArr cs, b')))
   | JDate custom stamp \<Rightarrow> canonicalDate custom stamp b
   | JBytes custom bytes \<Rightarrow> canonicalBytes custom bytes b
   | JExotic \<Rightarrow>
       type_error ''Canonical JSON supports only plain objects, arrays, dates, and byte arrays.''
   | JObj symbols ps \<Rightarrow>
       (if length ps + symbols > MAX_CANONICAL_PROPERTIES
        then type_error ''Canonical JSON exceeds the bounded property limit.''
        else if symbols > 0
        then type_error ''Canonical JSON does not support symbol properties.''
        else bind_res (canonicalProperties (sort_key fst ps) depth b)
               (\<lambda>(cs, b'). Inr (CObj cs, b'))))"
| "canonicalElements [] i depth b = Inr ([], b)"
| "canonicalElements (v # vs) i depth b =
     bind_res (consumeProperty (nat_text i) b) (\<lambda>b1.
     bind_res (canonicalValue v (Suc depth) b1) (\<lambda>(c, b2).
     bind_res (canonicalElements vs (Suc i) depth b2) (\<lambda>(cs, b3). Inr (c # cs, b3))))"
| "canonicalProperties [] depth b = Inr ([], b)"
| "canonicalProperties ((k, p) # ps) depth b =
     (if k \<in> set RESERVED_CANONICAL_KEYS
      then type_error ''Canonical JSON contains a reserved marker key.''
      else case p of
        Accessor \<Rightarrow> type_error ''Canonical JSON supports only own data properties.''
      | Data enumerable v \<Rightarrow>
          if \<not> enumerable
          then type_error ''Canonical JSON supports only enumerable own data properties.''
          else bind_res (consumeProperty k b) (\<lambda>b1.
               bind_res (canonicalValue v (Suc depth) b1) (\<lambda>(c, b2).
               bind_res (canonicalProperties ps depth b2) (\<lambda>(cs, b3). Inr ((k, c) # cs, b3)))))"
  by pat_completeness auto
termination
  by (relation "measure (\<lambda>x. case x of
        Inl (v, _, _) \<Rightarrow> 2 * size v + 1
      | Inr (Inl (vs, _, _, _)) \<Rightarrow> 2 * size_list size vs
      | Inr (Inr (ps, _, _)) \<Rightarrow> 2 * size_list (size_prod (\<lambda>_. 0) (size_jprop size)) ps)") auto

definition canonicalJson :: "jsv \<Rightarrow> string res" where
  "canonicalJson v = bind_res (canonicalValue v 0 empty_budget) (\<lambda>(c, b).
     let t = json_text c in
     if byteLength t > MAX_CANONICAL_BYTES
     then type_error ''Canonical JSON exceeds the bounded byte limit.''
     else Inr t)"

end
