(* ===== verification/Op_Encode.thy ===== *)
theory Op_Encode
  imports Op_Types Canonical_Json
begin

text \<open>
  The durable records as JavaScript values: the object the code hands to
  \<open>canonicalJson\<close> and to its shape checks for each record of \<open>Op_Types\<close>. An absent
  optional property is an absent key.
\<close>

section \<open>Objects with optional members\<close>

definition enc_rec :: "(string \<times> jsv option) list \<Rightarrow> jsv" where
  "enc_rec ps = JObj 0 (concat (map (\<lambda>(k, x). case x of None \<Rightarrow> [] | Some v \<Rightarrow> [(k, Data True v)]) ps))"

definition enc_dict :: "('v \<Rightarrow> jsv) \<Rightarrow> 'v obj \<Rightarrow> jsv" where
  "enc_dict f ob = JObj 0 (map (\<lambda>(k, v). (k, Data True (f v))) ob)"

text \<open>Reading a property of a value: \<open>undefined\<close> when it is absent.\<close>

definition jget :: "jsv \<Rightarrow> string \<Rightarrow> jsv" where
  "jget v k = (case v of
     JObj _ ps \<Rightarrow> (case map_of ps k of Some (Data _ w) \<Rightarrow> w | _ \<Rightarrow> JUndefined)
   | _ \<Rightarrow> JUndefined)"

lemma enc_rec_Nil [simp]: "enc_rec [] = JObj 0 []"
  by (simp add: enc_rec_def)

lemma jget_enc_rec_Nil [simp]: "jget (JObj 0 []) k = JUndefined"
  by (simp add: jget_def)

lemma jget_enc_rec_None [simp]: "jget (enc_rec ((k', None) # ps)) k = jget (enc_rec ps) k"
  by (simp add: jget_def enc_rec_def)

lemma jget_enc_rec_Some [simp]:
  "jget (enc_rec ((k', Some v) # ps)) k = (if k = k' then v else jget (enc_rec ps) k)"
  by (simp add: jget_def enc_rec_def)

lemma jget_enc_rec_other [simp]: "k \<noteq> k' \<Longrightarrow> jget (enc_rec ((k', x) # ps)) k = jget (enc_rec ps) k"
  by (cases x) auto

lemma jget_enc_rec_opt:
  "k \<notin> set (map fst ps) \<Longrightarrow>
   jget (enc_rec ((k, x) # ps)) k = (case x of None \<Rightarrow> JUndefined | Some v \<Rightarrow> v)"
proof (cases x)
  case None
  assume "k \<notin> set (map fst ps)"
  then have "jget (enc_rec ps) k = JUndefined"
  proof (induction ps)
    case (Cons p ps)
    then show ?case by (cases p) auto
  qed simp
  with None show ?thesis by simp
qed simp

section \<open>Texts of the enumerations\<close>

fun surface_text :: "surface \<Rightarrow> string" where
  "surface_text Chat = ''chat''"
| "surface_text Work = ''work''"
| "surface_text (Other_surface s) = s"

fun phase_text :: "operation_phase \<Rightarrow> string" where
  "phase_text Prepared = ''prepared''"
| "phase_text Handoff_pending = ''handoff_pending''"
| "phase_text Ready = ''ready''"
| "phase_text Send_pending = ''send_pending''"
| "phase_text Submitted = ''submitted''"
| "phase_text Generating = ''generating''"
| "phase_text Capturing = ''capturing''"
| "phase_text Completed = ''completed''"
| "phase_text Uncertain = ''uncertain''"
| "phase_text (Other_phase s) = s"

fun boundary_text :: "mutation_boundary \<Rightarrow> string" where
  "boundary_text No_mutation = ''none''"
| "boundary_text Handoff_may_have_occurred = ''handoff_may_have_occurred''"
| "boundary_text Send_may_have_occurred = ''send_may_have_occurred''"
| "boundary_text Control_may_have_occurred = ''control_may_have_occurred''"
| "boundary_text (Other_boundary s) = s"

fun policy_text :: "repeat_policy \<Rightarrow> string" where
  "policy_text Read_only = ''read_only''"
| "policy_text Reconcile_set_to_value = ''reconcile_set_to_value''"
| "policy_text Reconcile_local_effect = ''reconcile_local_effect''"
| "policy_text Observe_only_after_intent = ''observe_only_after_intent''"
| "policy_text (Other_policy s) = s"

fun kind_text :: "action_kind \<Rightarrow> string" where
  "kind_text Status_read = ''status_read''"
| "kind_text Configuration_set = ''configuration_set''"
| "kind_text Tool_set = ''tool_set''"
| "kind_text Composer_set = ''composer_set''"
| "kind_text Power_discovery = ''power_discovery''"
| "kind_text Power_select = ''power_select''"
| "kind_text File_handoff = ''file_handoff''"
| "kind_text Send = ''send''"
| "kind_text Work_steer = ''work_steer''"
| "kind_text Stop = ''stop''"
| "kind_text Download = ''download''"
| "kind_text Local_output_commit = ''local_output_commit''"
| "kind_text Clipboard_capture_restore = ''clipboard_capture_restore''"
| "kind_text (Other_kind s) = s"

fun outcome_text :: "action_outcome \<Rightarrow> string" where
  "outcome_text Satisfied = ''satisfied''"
| "outcome_text Not_satisfied = ''not_satisfied''"
| "outcome_text Outcome_uncertain = ''uncertain''"
| "outcome_text (Other_outcome s) = s"

fun requirement_text :: "requirement \<Rightarrow> string" where
  "requirement_text Required = ''required''"
| "requirement_text Not_available = ''unavailable''"
| "requirement_text (Other_requirement s) = s"

fun scope_text :: "coordination_scope \<Rightarrow> string" where
  "scope_text Process_scope = ''process''"
| "scope_text Provider_scope = ''provider''"
| "scope_text (Other_scope s) = s"

fun lifecycle_text :: "target_lifecycle \<Rightarrow> string" where
  "lifecycle_text Fixed = ''fixed''"
| "lifecycle_text New_pending = ''new_pending''"
| "lifecycle_text New_established = ''new_established''"
| "lifecycle_text (Other_lifecycle s) = s"

fun content_text :: "response_content \<Rightarrow> string" where
  "content_text Include = ''include''"
| "content_text Metadata = ''metadata''"
| "content_text (Other_content s) = s"

fun format_text :: "response_format \<Rightarrow> string" where
  "format_text Markdown = ''markdown''"
| "format_text Plain_text = ''text''"
| "format_text (Other_format s) = s"

fun artifacts_text :: "artifacts_policy \<Rightarrow> string" where
  "artifacts_text Receipt_only = ''receipt_only''"
| "artifacts_text Transfer = ''transfer''"
| "artifacts_text (Other_artifacts s) = s"

fun artifact_kind_text :: "artifact_kind \<Rightarrow> string" where
  "artifact_kind_text File_artifact = ''file''"
| "artifact_kind_text Image_artifact = ''image''"
| "artifact_kind_text Other_artifact = ''other''"
| "artifact_kind_text (Bad_artifact_kind s) = s"

fun artifact_status_text :: "artifact_status \<Rightarrow> string" where
  "artifact_status_text Artifact_available = ''available''"
| "artifact_status_text Artifact_transferred = ''transferred''"
| "artifact_status_text Artifact_partial = ''partial''"
| "artifact_status_text Artifact_blocked = ''blocked''"
| "artifact_status_text (Bad_artifact_status s) = s"

fun turn_state_text :: "turn_state \<Rightarrow> string" where
  "turn_state_text Turn_generating = ''generating''"
| "turn_state_text Turn_terminal = ''terminal''"
| "turn_state_text (Other_turn_state s) = s"

fun reason_text :: "unavailable_reason \<Rightarrow> string" where
  "reason_text Not_exposed = ''not_exposed''"
| "reason_text Not_observed = ''not_observed''"
| "reason_text Redacted = ''redacted''"
| "reason_text (Other_reason s) = s"

section \<open>Records\<close>

definition js :: "string \<Rightarrow> jsv option" where "js s = Some (JStr s)"
definition jso :: "string option \<Rightarrow> jsv option" where "jso x = map_option JStr x"
definition jn :: "int \<Rightarrow> jsv option" where "jn n = Some (JNum n)"
definition jno :: "int option \<Rightarrow> jsv option" where "jno x = map_option JNum x"
definition jb :: "bool \<Rightarrow> jsv option" where "jb b = Some (JBool b)"

lemmas jfield_defs = js_def jso_def jn_def jno_def jb_def

definition enc_capture_policy :: "capture_policy \<Rightarrow> jsv" where
  "enc_capture_policy p = enc_rec
     [(''responseContent'', js (content_text (cp_responseContent p))),
      (''responseFormat'', js (format_text (cp_responseFormat p))),
      (''artifacts'', js (artifacts_text (cp_artifacts p)))]"

definition enc_profile :: "evidence_profile \<Rightarrow> jsv" where
  "enc_profile p = enc_rec
     [(''providerIdentity'', js (requirement_text (ep_providerIdentity p))),
      (''stableTabId'', js (requirement_text (ep_stableTabId p))),
      (''stableConversationId'', js (requirement_text (ep_stableConversationId p))),
      (''stableUserTurnId'', js (requirement_text (ep_stableUserTurnId p))),
      (''authoritativeTabClaim'', js (requirement_text (ep_authoritativeTabClaim p))),
      (''replacementTabRecovery'', jb (ep_replacementTabRecovery p))]"

definition enc_establishment :: "target_establishment \<Rightarrow> jsv" where
  "enc_establishment e = enc_rec
     [(''targetBindingDigest'', js (te_targetBindingDigest e)),
      (''anchorDigest'', js (te_anchorDigest e)),
      (''causalSendActionId'', js (te_causalSendActionId e)),
      (''conversationId'', js (te_conversationId e)),
      (''canonicalThreadUrl'', js (te_canonicalThreadUrl e)),
      (''userTurnId'', js (te_userTurnId e)),
      (''userTurnEvidenceDigest'', js (te_userTurnEvidenceDigest e)),
      (''postSendDeltaDigest'', jso (te_postSendDeltaDigest e)),
      (''evidenceDigest'', js (te_evidenceDigest e)),
      (''observedAt'', js (te_observedAt e))]"

definition enc_target :: "target_binding \<Rightarrow> jsv" where
  "enc_target t = enc_rec
     [(''providerId'', js (tb_providerId t)),
      (''browserId'', js (tb_browserId t)),
      (''tabId'', js (tb_tabId t)),
      (''coordinationScope'', js (scope_text (tb_coordinationScope t))),
      (''tabClaimEvidenceDigest'', jso (tb_tabClaimEvidenceDigest t)),
      (''canonicalThreadUrl'', jso (tb_canonicalThreadUrl t)),
      (''conversationId'', jso (tb_conversationId t)),
      (''userTurnBaselineDigest'', jso (tb_userTurnBaselineDigest t)),
      (''assistantTurnBaselineDigest'', jso (tb_assistantTurnBaselineDigest t)),
      (''configurationReceiptDigest'', jso (tb_configurationReceiptDigest t)),
      (''evidenceProfile'', Some (enc_profile (tb_evidenceProfile t))),
      (''targetLifecycle'', map_option (JStr \<circ> lifecycle_text) (tb_targetLifecycle t)),
      (''newTargetAnchorDigest'', jso (tb_newTargetAnchorDigest t)),
      (''blankTaskEvidenceDigest'', jso (tb_blankTaskEvidenceDigest t)),
      (''targetEstablishment'', map_option enc_establishment (tb_targetEstablishment t))]"

fun enc_identity :: "identity_evidence \<Rightarrow> jsv" where
  "enc_identity (Available v) = enc_rec [(''status'', js ''available''), (''value'', js v)]"
| "enc_identity (Unavailable r) =
     enc_rec [(''status'', js ''unavailable''), (''reason'', js (reason_text r))]"

definition enc_ownership_target :: "ownership_target \<Rightarrow> jsv" where
  "enc_ownership_target t = enc_rec
     [(''provider'', Some (enc_identity (ot_provider t))),
      (''browser'', Some (enc_identity (ot_browser t))),
      (''tab'', Some (enc_identity (ot_tab t))),
      (''thread'', Some (enc_identity (ot_thread t))),
      (''conversation'', Some (enc_identity (ot_conversation t))),
      (''canonicalThreadUrl'', Some (enc_identity (ot_canonicalThreadUrl t))),
      (''authoritativeTabClaim'', Some (enc_identity (ot_authoritativeTabClaim t))),
      (''coordinationScope'', js (scope_text (ot_coordinationScope t)))]"

definition enc_turn :: "ownership_turn \<Rightarrow> jsv" where
  "enc_turn t = enc_rec
     [(''stableId'', jso (tn_stableId t)),
      (''evidenceDigest'', js (tn_evidenceDigest t)),
      (''structureDigest'', js (tn_structureDigest t)),
      (''ordinal'', jn (tn_ordinal t)),
      (''parentStableId'', jso (tn_parentStableId t)),
      (''branchStableId'', jso (tn_branchStableId t)),
      (''state'', map_option (JStr \<circ> turn_state_text) (tn_state t)),
      (''artifactEvidenceDigests'', map_option (JArr \<circ> map JStr) (tn_artifactEvidenceDigests t))]"

definition enc_snapshot :: "ownership_baseline \<Rightarrow> jsv" where
  "enc_snapshot b = enc_rec
     [(''schemaVersion'', js (bl_schemaVersion b)),
      (''snapshotDigest'', js (bl_snapshotDigest b)),
      (''target'', Some (enc_ownership_target (bl_target b))),
      (''userTurns'', Some (JArr (map enc_turn (bl_userTurns b)))),
      (''assistantTurns'', Some (JArr (map enc_turn (bl_assistantTurns b)))),
      (''completeness'', js (bl_completeness b))]"

definition enc_baseline :: "operation_baseline \<Rightarrow> jsv" where
  "enc_baseline b = enc_rec
     [(''schemaVersion'', js (ob_schemaVersion b)),
      (''operationId'', js (ob_operationId b)),
      (''requestDigest'', js (ob_requestDigest b)),
      (''targetBindingDigest'', js (ob_targetBindingDigest b)),
      (''actionId'', js (ob_actionId b)),
      (''baseline'', Some (enc_snapshot (ob_baseline b))),
      (''observedAt'', js (ob_observedAt b))]"

definition enc_witness :: "submission_witness \<Rightarrow> jsv" where
  "enc_witness w = enc_rec
     [(''schemaVersion'', js (sw_schemaVersion w)),
      (''actionId'', js (sw_actionId w)),
      (''actionKind'', js (kind_text (sw_actionKind w))),
      (''targetBindingDigest'', js (sw_targetBindingDigest w)),
      (''baselineSnapshotDigest'', js (sw_baselineSnapshotDigest w)),
      (''postSendDeltaDigest'', js (sw_postSendDeltaDigest w)),
      (''operationUserEvidenceDigest'', js (sw_operationUserEvidenceDigest w)),
      (''userTurnId'', jso (sw_userTurnId w)),
      (''observedAt'', js (sw_observedAt w))]"

definition enc_action_intent :: "action_intent \<Rightarrow> jsv" where
  "enc_action_intent a = enc_rec
     [(''actionId'', js (ai_actionId a)),
      (''kind'', js (kind_text (ai_kind a))),
      (''repeatPolicy'', js (policy_text (ai_repeatPolicy a))),
      (''requestDigest'', js (ai_requestDigest a)),
      (''parentActionId'', jso (ai_parentActionId a)),
      (''targetDigest'', jso (ai_targetDigest a))]"

definition enc_action_record :: "action_record \<Rightarrow> jsv" where
  "enc_action_record a = enc_rec
     [(''actionId'', js (ar_actionId a)),
      (''kind'', js (kind_text (ar_kind a))),
      (''repeatPolicy'', js (policy_text (ar_repeatPolicy a))),
      (''requestDigest'', js (ar_requestDigest a)),
      (''parentActionId'', jso (ar_parentActionId a)),
      (''targetDigest'', jso (ar_targetDigest a)),
      (''intentRevision'', jn (ar_intentRevision a)),
      (''intentAt'', js (ar_intentAt a)),
      (''outcome'', map_option (JStr \<circ> outcome_text) (ar_outcome a)),
      (''receiptRevision'', jno (ar_receiptRevision a)),
      (''receiptAt'', jso (ar_receiptAt a)),
      (''evidenceDigest'', jso (ar_evidenceDigest a)),
      (''blockerCode'', jso (ar_blockerCode a))]"

definition enc_transfer_intent :: "transfer_intent \<Rightarrow> jsv" where
  "enc_transfer_intent i = enc_rec
     [(''schemaVersion'', js (ti_schemaVersion i)),
      (''operationId'', js (ti_operationId i)),
      (''requestDigest'', js (ti_requestDigest i)),
      (''targetBindingDigest'', js (ti_targetBindingDigest i)),
      (''assistantTurnId'', js (ti_assistantTurnId i)),
      (''sourceIdentityDigest'', js (ti_sourceIdentityDigest i)),
      (''kind'', js (artifact_kind_text (ti_kind i))),
      (''ordinal'', jn (ti_ordinal i)),
      (''transferActionId'', js (ti_transferActionId i)),
      (''destinationIdentityDigest'', js (ti_destinationIdentityDigest i)),
      (''actionKind'', js (kind_text (ti_actionKind i))),
      (''repeatPolicy'', js (policy_text (ti_repeatPolicy i))),
      (''intentAt'', js (ti_intentAt i))]"

definition enc_transfer_receipt :: "transfer_receipt \<Rightarrow> jsv" where
  "enc_transfer_receipt r = enc_rec
     [(''schemaVersion'', js (tr_schemaVersion r)),
      (''operationId'', js (tr_operationId r)),
      (''requestDigest'', js (tr_requestDigest r)),
      (''targetBindingDigest'', js (tr_targetBindingDigest r)),
      (''assistantTurnId'', js (tr_assistantTurnId r)),
      (''sourceIdentityDigest'', js (tr_sourceIdentityDigest r)),
      (''kind'', js (artifact_kind_text (tr_kind r))),
      (''ordinal'', jn (tr_ordinal r)),
      (''transferActionId'', js (tr_transferActionId r)),
      (''destinationIdentityDigest'', js (tr_destinationIdentityDigest r)),
      (''outputKey'', jso (tr_outputKey r)),
      (''bytes'', jno (tr_bytes r)),
      (''sha256'', jso (tr_sha256 r)),
      (''status'', js (artifact_status_text (tr_status r))),
      (''blockerCode'', jso (tr_blockerCode r)),
      (''observedAt'', js (tr_observedAt r))]"

definition enc_transfer_state :: "transfer_state \<Rightarrow> jsv" where
  "enc_transfer_state t = enc_rec
     [(''intent'', Some (enc_transfer_intent (ts_intent t))),
      (''receipt'', map_option enc_transfer_receipt (ts_receipt t))]"

definition enc_artifact_receipt :: "artifact_receipt \<Rightarrow> jsv" where
  "enc_artifact_receipt a = enc_rec
     [(''schemaVersion'', js (af_schemaVersion a)),
      (''operationId'', js (af_operationId a)),
      (''artifactKey'', js (af_artifactKey a)),
      (''assistantTurnId'', js (af_assistantTurnId a)),
      (''sourceIdentityDigest'', js (af_sourceIdentityDigest a)),
      (''kind'', js (artifact_kind_text (af_kind a))),
      (''ordinal'', jn (af_ordinal a)),
      (''outputKey'', jso (af_outputKey a)),
      (''mimeType'', jso (af_mimeType a)),
      (''bytes'', jno (af_bytes a)),
      (''sha256'', jso (af_sha256 a)),
      (''status'', js (artifact_status_text (af_status a))),
      (''blockerCode'', jso (af_blockerCode a))]"

definition enc_receipt :: "operation_receipt \<Rightarrow> jsv" where
  "enc_receipt r = enc_rec
     [(''schemaVersion'', js (rp_schemaVersion r)),
      (''operationId'', js (rp_operationId r)),
      (''requestDigest'', js (rp_requestDigest r)),
      (''targetBindingDigest'', js (rp_targetBindingDigest r)),
      (''userTurnId'', js (rp_userTurnId r)),
      (''userTurnEvidenceDigest'', js (rp_userTurnEvidenceDigest r)),
      (''assistantTurnId'', js (rp_assistantTurnId r)),
      (''ownershipEvidenceDigest'', js (rp_ownershipEvidenceDigest r)),
      (''responseDigest'', jso (rp_responseDigest r)),
      (''responseBytes'', jno (rp_responseBytes r)),
      (''responseFormat'', map_option (JStr \<circ> format_text) (rp_responseFormat r)),
      (''finishReason'', js (rp_finishReason r)),
      (''contentAvailable'', jb (rp_contentAvailable r)),
      (''artifacts'', Some (JArr (map enc_artifact_receipt (rp_artifacts r)))),
      (''completedAt'', js (rp_completedAt r))]"

definition enc_blocker :: "blocker_observation \<Rightarrow> jsv" where
  "enc_blocker b = enc_rec
     [(''code'', js (bo_code b)),
      (''messageDigest'', js (bo_messageDigest b)),
      (''recoverable'', jb (bo_recoverable b)),
      (''observedAt'', js (bo_observedAt b))]"

definition enc_state :: "operation_state \<Rightarrow> jsv" where
  "enc_state s = enc_rec
     [(''schemaVersion'', js (st_schemaVersion s)),
      (''operationId'', js (st_operationId s)),
      (''requestDigest'', js (st_requestDigest s)),
      (''surface'', js (surface_text (st_surface s))),
      (''phase'', js (phase_text (st_phase s))),
      (''mutationBoundary'', js (boundary_text (st_mutationBoundary s))),
      (''revision'', jn (st_revision s)),
      (''createdAt'', js (st_createdAt s)),
      (''updatedAt'', js (st_updatedAt s)),
      (''capturePolicy'', map_option enc_capture_policy (st_capturePolicy s)),
      (''responseFormat'', map_option (JStr \<circ> format_text) (st_responseFormat s)),
      (''target'', map_option enc_target (st_target s)),
      (''actions'', Some (enc_dict enc_action_record (st_actions s))),
      (''ownershipBaseline'', map_option enc_baseline (st_ownershipBaseline s)),
      (''ownershipBaselines'', map_option (enc_dict enc_baseline) (st_ownershipBaselines s)),
      (''artifactTransfers'', map_option (enc_dict enc_transfer_state) (st_artifactTransfers s)),
      (''submissionWitnesses'', map_option (enc_dict enc_witness) (st_submissionWitnesses s)),
      (''submissionWitness'', map_option enc_witness (st_submissionWitness s)),
      (''lastBlocker'', map_option enc_blocker (st_lastBlocker s)),
      (''receipt'', map_option enc_receipt (st_receipt s))]"

fun enc_event :: "operation_event \<Rightarrow> jsv" where
  "enc_event (Operation_created e) = enc_rec
     [(''type'', js ''operation_created''),
      (''operationId'', js (ev_operationId e)),
      (''requestDigest'', js (ev_requestDigest e)),
      (''surface'', js (surface_text (ev_surface e))),
      (''createdAt'', js (ev_createdAt e)),
      (''capturePolicy'', map_option enc_capture_policy (ev_capturePolicy e))]"
| "enc_event (Target_bound t at) = enc_rec
     [(''type'', js ''target_bound''), (''target'', Some (enc_target t)), (''observedAt'', js at)]"
| "enc_event (Target_established e) = enc_rec
     [(''type'', js ''target_established''), (''establishment'', Some (enc_establishment e))]"
| "enc_event (Ownership_baseline_event b) = enc_rec
     [(''type'', js ''ownership_baseline''), (''baseline'', Some (enc_baseline b))]"
| "enc_event (Submission_witness_event w) = enc_rec
     [(''type'', js ''submission_witness''), (''witness'', Some (enc_witness w))]"
| "enc_event (Action_intent_event a at) = enc_rec
     [(''type'', js ''action_intent''), (''action'', Some (enc_action_intent a)), (''intentAt'', js at)]"
| "enc_event (Action_prepared_event a at b) = enc_rec
     [(''type'', js ''action_prepared''), (''action'', Some (enc_action_intent a)),
      (''intentAt'', js at), (''baseline'', Some (enc_baseline b))]"
| "enc_event (Artifact_transfer_intent_event i) = enc_rec
     [(''type'', js ''artifact_transfer_intent''), (''intent'', Some (enc_transfer_intent i))]"
| "enc_event (Artifact_transfer_receipt_event r) = enc_rec
     [(''type'', js ''artifact_transfer_receipt''), (''receipt'', Some (enc_transfer_receipt r))]"
| "enc_event (Action_receipt_event r) = enc_rec
     [(''type'', js ''action_receipt''), (''actionId'', js (rc_actionId r)),
      (''outcome'', js (outcome_text (rc_outcome r))), (''evidenceDigest'', jso (rc_evidenceDigest r)),
      (''blockerCode'', jso (rc_blockerCode r)), (''observedAt'', js (rc_observedAt r))]"
| "enc_event (Phase_changed_event p) = enc_rec
     [(''type'', js ''phase_changed''), (''from'', js (phase_text (pe_from p))),
      (''to'', js (phase_text (pe_to p))), (''mutationBoundary'', js (boundary_text (pe_mutationBoundary p))),
      (''causeActionId'', jso (pe_causeActionId p)), (''evidenceDigest'', jso (pe_evidenceDigest p)),
      (''observedAt'', js (pe_observedAt p))]"
| "enc_event (Blocker_observed_event b) = enc_rec
     [(''type'', js ''blocker_observed''), (''blocker'', Some (enc_blocker b))]"
| "enc_event (Receipt_completed_event r at) = enc_rec
     [(''type'', js ''receipt_completed''), (''receipt'', Some (enc_receipt r)), (''observedAt'', js at)]"
| "enc_event (Content_availability_changed_event b at) = enc_rec
     [(''type'', js ''content_availability_changed''), (''available'', jb b), (''observedAt'', js at)]"

text \<open>Comparison of two records through their canonical text, which may itself throw.\<close>

definition assertSameCanonical :: "string \<Rightarrow> ('a \<Rightarrow> jsv) \<Rightarrow> 'a \<Rightarrow> 'a \<Rightarrow> check" where
  "assertSameCanonical code enc x y = (case canonicalJson (enc x) of
     Inl e \<Rightarrow> Some e
   | Inr t \<Rightarrow> (case canonicalJson (enc y) of
       Inl e \<Rightarrow> Some e
     | Inr u \<Rightarrow> if t \<noteq> u then Some (OperationStateError code) else None))"

lemma assertSameCanonical_None [simp]:
  "assertSameCanonical code enc x y = None \<longleftrightarrow>
     (\<exists>t. canonicalJson (enc x) = Inr t \<and> canonicalJson (enc y) = Inr t)"
  by (auto simp: assertSameCanonical_def split: sum.splits)

end
