(* ===== verification/Op_Patterns.thy ===== *)
theory Op_Patterns
  imports Op_Prelude
begin

text \<open>
  The lexical checks of \<open>operations/state-machine.ts\<close>: its regular expressions, the
  canonical identifiers, digests, timestamps and URLs of the durable records.
\<close>

section \<open>Regular expressions\<close>

definition UUID_PATTERN :: "string \<Rightarrow> bool" where
  "UUID_PATTERN = matches_seq
     (replicate 8 is_lower_hex @ [(=) CHR ''-''] @
      replicate 4 is_lower_hex @ [(=) CHR ''-''] @
      in_range CHR ''1'' CHR ''8'' # replicate 3 is_lower_hex @ [(=) CHR ''-''] @
      (\<lambda>c. c \<in> set ''89ab'') # replicate 3 is_lower_hex @ [(=) CHR ''-''] @
      replicate 12 is_lower_hex)"

definition DIGEST_PATTERN :: "string \<Rightarrow> bool" where
  "DIGEST_PATTERN = matches_seq (map (=) ''hmac-sha256:'' @ replicate 64 is_lower_hex)"

definition SHA256_PATTERN :: "string \<Rightarrow> bool" where
  "SHA256_PATTERN = matches_seq (replicate 64 is_lower_hex)"

definition CODE_PATTERN :: "string \<Rightarrow> bool" where
  "CODE_PATTERN = matches_head_tail is_lower (\<lambda>c. is_lower c \<or> is_digit c \<or> c = CHR ''_'') 63"

definition TRANSFER_OUTPUT_KEY_PATTERN :: "string \<Rightarrow> bool" where
  "TRANSFER_OUTPUT_KEY_PATTERN = matches_head_tail is_alnum (\<lambda>c. is_alnum c \<or> c \<in> set ''._-'') 127"

definition FINISH_REASON_PATTERN :: "string \<Rightarrow> bool" where
  "FINISH_REASON_PATTERN = matches_head_tail is_alnum (\<lambda>c. is_alnum c \<or> c \<in> set ''._:-'') 127"

definition ARTIFACT_KEY_PATTERN :: "string \<Rightarrow> bool" where
  "ARTIFACT_KEY_PATTERN = matches_head_tail is_alnum (\<lambda>c. is_alnum c \<or> c \<in> set ''._:-'') 127"

definition MIME_PATTERN :: "string \<Rightarrow> bool" where
  "MIME_PATTERN = matches_head_tail is_alnum (\<lambda>c. is_alnum c \<or> c \<in> set ''!#$&^_.+/-'') 126"

definition MAX_ARTIFACTS :: int where "MAX_ARTIFACTS = 32"
definition MAX_BASELINE_TURNS :: nat where "MAX_BASELINE_TURNS = 256"
definition MAX_BASELINE_ARTIFACTS_PER_TURN :: nat where "MAX_BASELINE_ARTIFACTS_PER_TURN = 32"
definition MAX_SUBMISSION_WITNESSES :: nat where "MAX_SUBMISSION_WITNESSES = 64"

section \<open>Assertions on strings\<close>

definition throw_state :: "bool \<Rightarrow> string \<Rightarrow> check" where
  "throw_state b code = throw_if b (OperationStateError code)"

lemma throw_state_None [simp, res_simps]: "throw_state b c = None \<longleftrightarrow> \<not> b"
  by (simp add: throw_state_def)

lemma throw_state_Some [simp, res_simps]:
  "throw_state b c = Some e \<longleftrightarrow> b \<and> e = OperationStateError c"
  by (auto simp: throw_state_def)

definition assertOperationId :: "string \<Rightarrow> check" where
  "assertOperationId v = throw_state (\<not> UUID_PATTERN v) ''invalid_operation_id''"

definition assertDigest :: "string \<Rightarrow> check" where
  "assertDigest v = throw_state (\<not> DIGEST_PATTERN v) ''invalid_digest''"

text \<open>
  \<open>assertTimestamp\<close>: the fixed layout \<open>YYYY-MM-DDTHH:MM:SS.mmmZ\<close>, and the round trip
  through \<open>Date.parse\<close> and \<open>toISOString\<close>, which holds exactly for the existing dates
  of the proleptic Gregorian calendar and the times of day below \<open>24:00\<close>.
\<close>

definition digit_val :: "char \<Rightarrow> nat" where
  "digit_val c = of_char c - 48"

fun digits_val :: "nat \<Rightarrow> string \<Rightarrow> nat" where
  "digits_val acc [] = acc"
| "digits_val acc (c # cs) = digits_val (10 * acc + digit_val c) cs"

definition ISO_PATTERN :: "string \<Rightarrow> bool" where
  "ISO_PATTERN = matches_seq
     (replicate 4 is_digit @ [(=) CHR ''-''] @ replicate 2 is_digit @ [(=) CHR ''-''] @
      replicate 2 is_digit @ [(=) CHR ''T''] @ replicate 2 is_digit @ [(=) CHR '':''] @
      replicate 2 is_digit @ [(=) CHR '':''] @ replicate 2 is_digit @ [(=) CHR ''.''] @
      replicate 3 is_digit @ [(=) CHR ''Z''])"

definition slice_num :: "nat \<Rightarrow> nat \<Rightarrow> string \<Rightarrow> nat" where
  "slice_num from len s = digits_val 0 (take len (drop from s))"

definition is_leap_year :: "nat \<Rightarrow> bool" where
  "is_leap_year y \<longleftrightarrow> (y mod 4 = 0 \<and> y mod 100 \<noteq> 0) \<or> y mod 400 = 0"

definition days_in_month :: "nat \<Rightarrow> nat \<Rightarrow> nat" where
  "days_in_month y m =
     (if m = 2 then (if is_leap_year y then 29 else 28)
      else if m \<in> {4, 6, 9, 11} then 30 else 31)"

definition is_canonical_timestamp :: "string \<Rightarrow> bool" where
  "is_canonical_timestamp s \<longleftrightarrow> ISO_PATTERN s \<and>
     (let y = slice_num 0 4 s; m = slice_num 5 2 s; d = slice_num 8 2 s in
        1 \<le> m \<and> m \<le> 12 \<and> 1 \<le> d \<and> d \<le> days_in_month y m \<and>
        slice_num 11 2 s \<le> 23 \<and> slice_num 14 2 s \<le> 59 \<and> slice_num 17 2 s \<le> 59)"

definition assertTimestamp :: "string \<Rightarrow> check" where
  "assertTimestamp v = throw_state (\<not> is_canonical_timestamp v) ''invalid_timestamp''"

definition assertTimestampNotBefore :: "string \<Rightarrow> string \<Rightarrow> check" where
  "assertTimestampNotBefore earlier later = throw_state (later < earlier) ''timestamp_regression''"

text \<open>White space that \<open>String.prototype.trim\<close> removes, below code unit 256.\<close>

definition is_js_space :: "char \<Rightarrow> bool" where
  "is_js_space c \<longleftrightarrow> (9 \<le> (of_char c :: nat) \<and> (of_char c :: nat) \<le> 13)
     \<or> (of_char c :: nat) = 32 \<or> (of_char c :: nat) = 160"

definition js_trim :: "string \<Rightarrow> string" where
  "js_trim s = rev (dropWhile is_js_space (rev (dropWhile is_js_space s)))"

definition is_stable_identifier :: "string \<Rightarrow> bool" where
  "is_stable_identifier v \<longleftrightarrow>
     js_trim v \<noteq> [] \<and> length v \<le> 512 \<and> \<not> list_ex is_control v"

definition assertStableIdentifier :: "string \<Rightarrow> check" where
  "assertStableIdentifier v = throw_state (\<not> is_stable_identifier v) ''invalid_target_binding''"

text \<open>
  The WHATWG parser behind \<open>new URL(...)\<close> belongs to the platform, so it is a parameter:
  \<open>None\<close> is its exception, otherwise the components the code reads.
\<close>

record parsed_url =
  url_protocol :: string
  url_username :: string
  url_password :: string
  url_search :: string
  url_hash :: string
  url_string :: string

type_synonym url_parser = "string \<Rightarrow> parsed_url option"

definition is_plain_https :: "parsed_url \<Rightarrow> bool" where
  "is_plain_https p \<longleftrightarrow> url_protocol p = ''https:'' \<and> url_username p = '''' \<and> url_password p = ''''
     \<and> url_search p = '''' \<and> url_hash p = ''''"

definition assertCanonicalThreadUrl :: "url_parser \<Rightarrow> string \<Rightarrow> check" where
  "assertCanonicalThreadUrl U v =
     first_error
       [throw_state (length v > 4096) ''invalid_target_url'',
        (case U v of
           None \<Rightarrow> Some (OperationStateError ''invalid_target_url'')
         | Some p \<Rightarrow> throw_state (\<not> is_plain_https p \<or> url_string p \<noteq> v) ''invalid_target_url'')]"

definition isSafeRelativeOutputKey :: "string \<Rightarrow> bool" where
  "isSafeRelativeOutputKey v \<longleftrightarrow>
     length v > 0 \<and> length v \<le> 128 \<and> matches_head_tail is_alnum (\<lambda>c. is_alnum c \<or> c \<in> set ''._-'') 127 v"

lemma assertOperationId_None [simp]: "assertOperationId v = None \<longleftrightarrow> UUID_PATTERN v"
  by (simp add: assertOperationId_def)

lemma assertDigest_None [simp]: "assertDigest v = None \<longleftrightarrow> DIGEST_PATTERN v"
  by (simp add: assertDigest_def)

lemma assertTimestamp_None [simp]: "assertTimestamp v = None \<longleftrightarrow> is_canonical_timestamp v"
  by (simp add: assertTimestamp_def)

lemma assertTimestampNotBefore_None [simp]: "assertTimestampNotBefore a b = None \<longleftrightarrow> \<not> b < a"
  by (simp add: assertTimestampNotBefore_def)

lemma assertStableIdentifier_None [simp]: "assertStableIdentifier v = None \<longleftrightarrow> is_stable_identifier v"
  by (simp add: assertStableIdentifier_def)

text \<open>A safe output key cannot name a parent directory, a sub-directory or an absolute path.\<close>

lemma safe_output_key_no_separator:
  "isSafeRelativeOutputKey v \<Longrightarrow> CHR ''/'' \<notin> set v \<and> CHR 0x5C \<notin> set v \<and> hd v \<noteq> CHR ''.''"
proof -
  assume "isSafeRelativeOutputKey v"
  then obtain c cs where v: "v = c # cs" and c: "is_alnum c"
    and cs: "\<forall>x\<in>set cs. is_alnum x \<or> x \<in> set ''._-''"
    by (auto simp: isSafeRelativeOutputKey_def matches_head_tail_def list_all_iff split: list.splits)
  have no: "\<not> is_alnum CHR ''/''" "\<not> is_alnum CHR 0x5C" "\<not> is_alnum CHR ''.''"
    by (simp_all add: is_alnum_def is_lower_def is_upper_def is_digit_def in_range_def)
  have m: "CHR ''/'' \<notin> set ''._-''" "CHR 0x5C \<notin> set ''._-''" by simp_all
  show ?thesis using v c cs no m by (metis list.sel(1) set_ConsD)
qed

end
