(* ===== verification/Op_Shape.thy ===== *)
theory Op_Shape
  imports Op_Encode Op_Patterns
begin

text \<open>
  The closed-shape checks of \<open>operations/state-machine.ts\<close>: which keys a durable record
  may and must have, and the lexical form of the members that the shape functions
  inspect. They run on untyped values.
\<close>

section \<open>Plain records\<close>

definition isPlainRecord :: "jsv \<Rightarrow> bool" where
  "isPlainRecord v = (case v of JObj _ _ \<Rightarrow> True | _ \<Rightarrow> False)"

text \<open>\<open>Object.keys\<close> (an accessor of the model is enumerable) and \<open>Object.hasOwn\<close>.\<close>

definition own_props :: "jsv \<Rightarrow> (string \<times> jsv jprop) list" where
  "own_props v = (case v of JObj _ ps \<Rightarrow> ps | _ \<Rightarrow> [])"

definition enumerable_props :: "jsv \<Rightarrow> (string \<times> jsv jprop) list" where
  "enumerable_props v =
     filter (\<lambda>p. case snd p of Accessor \<Rightarrow> True | Data e _ \<Rightarrow> e) (own_props v)"

definition has_accessor :: "jsv \<Rightarrow> bool" where
  "has_accessor v = list_ex (\<lambda>p. case snd p of Accessor \<Rightarrow> True | _ \<Rightarrow> False) (enumerable_props v)"

definition has_own :: "jsv \<Rightarrow> string \<Rightarrow> bool" where
  "has_own v k = (k \<in> set (map fst (own_props v)))"

definition assertExactRecord :: "jsv \<Rightarrow> string list \<Rightarrow> string list \<Rightarrow> bool \<Rightarrow> check" where
  "assertExactRecord v allowed required untilDispatch = first_error
     [throw_state (\<not> isPlainRecord v) ''invalid_operation_shape'',
      throw_state (has_accessor v) ''invalid_operation_shape'',
      throw_state (\<not> untilDispatch \<and> \<not> list_all (\<lambda>p. fst p \<in> set allowed) (enumerable_props v))
        ''unknown_operation_field'',
      throw_state (\<not> list_all (has_own v) required) ''missing_operation_field'']"

section \<open>Members of unknown type\<close>

text \<open>Each \<open>typeof\<close> test in front of a lexical check.\<close>

definition is_str :: "(string \<Rightarrow> bool) \<Rightarrow> jsv \<Rightarrow> bool" where
  "is_str P v = (case v of JStr s \<Rightarrow> P s | _ \<Rightarrow> False)"

definition is_nat_num :: "jsv \<Rightarrow> bool" where
  "is_nat_num v = (case v of JNum n \<Rightarrow> is_safe_integer n \<and> 0 \<le> n | JNegZero \<Rightarrow> True | _ \<Rightarrow> False)"

definition operationId_of :: "jsv \<Rightarrow> check" where
  "operationId_of v = throw_state (\<not> is_str UUID_PATTERN v) ''invalid_operation_id''"

definition digest_of :: "jsv \<Rightarrow> check" where
  "digest_of v = throw_state (\<not> is_str DIGEST_PATTERN v) ''invalid_digest''"

definition timestamp_of :: "jsv \<Rightarrow> check" where
  "timestamp_of v = throw_state (\<not> is_str is_canonical_timestamp v) ''invalid_timestamp''"

definition stableIdentifier_of :: "jsv \<Rightarrow> check" where
  "stableIdentifier_of v = throw_state (\<not> is_str is_stable_identifier v) ''invalid_target_binding''"

definition one_of :: "string list \<Rightarrow> jsv \<Rightarrow> bool" where
  "one_of ss v = is_str (\<lambda>s. s \<in> set ss) v"

definition optional_member :: "jsv \<Rightarrow> string \<Rightarrow> (jsv \<Rightarrow> check) \<Rightarrow> check" where
  "optional_member v k f = (if jget v k = JUndefined then None else f (jget v k))"

section \<open>Capture policy, target and establishment\<close>

definition assertDurableCapturePolicyShape :: "jsv \<Rightarrow> check" where
  "assertDurableCapturePolicyShape v = first_error
     [assertExactRecord v [''responseContent'', ''responseFormat'', ''artifacts'']
        [''responseContent'', ''responseFormat'', ''artifacts''] False,
      throw_state (\<not> one_of [''include'', ''metadata''] (jget v ''responseContent'')) ''invalid_capture_policy'',
      throw_state (\<not> one_of [''markdown'', ''text''] (jget v ''responseFormat'')) ''invalid_capture_policy'',
      throw_state (\<not> one_of [''receipt_only'', ''transfer''] (jget v ''artifacts'')) ''invalid_capture_policy'']"

definition assertTargetEstablishmentShape :: "jsv \<Rightarrow> check" where
  "assertTargetEstablishmentShape v = assertExactRecord v
     [''targetBindingDigest'', ''anchorDigest'', ''causalSendActionId'', ''conversationId'',
      ''canonicalThreadUrl'', ''userTurnId'', ''userTurnEvidenceDigest'', ''postSendDeltaDigest'',
      ''evidenceDigest'', ''observedAt'']
     [''targetBindingDigest'', ''anchorDigest'', ''causalSendActionId'', ''conversationId'',
      ''canonicalThreadUrl'', ''userTurnId'', ''userTurnEvidenceDigest'', ''evidenceDigest'',
      ''observedAt''] False"

definition profile_keys :: "string list" where
  "profile_keys = [''providerIdentity'', ''stableTabId'', ''stableConversationId'',
     ''stableUserTurnId'', ''authoritativeTabClaim'', ''replacementTabRecovery'']"

definition assertTargetShape :: "jsv \<Rightarrow> check" where
  "assertTargetShape v = first_error
     [assertExactRecord v
        [''providerId'', ''browserId'', ''tabId'', ''coordinationScope'', ''tabClaimEvidenceDigest'',
         ''canonicalThreadUrl'', ''conversationId'', ''userTurnBaselineDigest'',
         ''assistantTurnBaselineDigest'', ''configurationReceiptDigest'', ''evidenceProfile'',
         ''targetLifecycle'', ''newTargetAnchorDigest'', ''blankTaskEvidenceDigest'',
         ''targetEstablishment'']
        [''providerId'', ''browserId'', ''tabId'', ''coordinationScope'', ''evidenceProfile''] False,
      assertExactRecord (jget v ''evidenceProfile'') profile_keys profile_keys False,
      optional_member v ''targetEstablishment'' assertTargetEstablishmentShape]"

section \<open>Ownership baseline and submission witness\<close>

definition assertOwnershipIdentityEvidenceShape :: "url_parser \<Rightarrow> bool \<Rightarrow> jsv \<Rightarrow> check" where
  "assertOwnershipIdentityEvidenceShape U allowUrl v = first_error
     [throw_state (\<not> isPlainRecord v \<or> \<not> one_of [''available'', ''unavailable''] (jget v ''status''))
        ''invalid_ownership_baseline'',
      if jget v ''status'' = JStr ''available'' then first_error
        [assertExactRecord v [''status'', ''value''] [''status'', ''value''] False,
         throw_state (\<not> is_str (\<lambda>s. 1 \<le> length s \<and> length s \<le> (if allowUrl then 4096 else 512)
                               \<and> \<not> list_ex is_control s) (jget v ''value'')) ''invalid_ownership_baseline'',
         throw_state (allowUrl \<and> \<not> is_str (\<lambda>s. case U s of None \<Rightarrow> False | Some p \<Rightarrow> is_plain_https p)
                        (jget v ''value'')) ''invalid_ownership_baseline'']
      else first_error
        [assertExactRecord v [''status'', ''reason''] [''status'', ''reason''] False,
         throw_state (\<not> one_of [''not_exposed'', ''not_observed'', ''redacted''] (jget v ''reason''))
           ''invalid_ownership_baseline'']]"

definition ownership_target_keys :: "string list" where
  "ownership_target_keys = [''provider'', ''browser'', ''tab'', ''thread'', ''conversation'',
     ''canonicalThreadUrl'', ''authoritativeTabClaim'', ''coordinationScope'']"

definition assertOwnershipTargetEvidenceShape :: "url_parser \<Rightarrow> jsv \<Rightarrow> check" where
  "assertOwnershipTargetEvidenceShape U v = first_error
     [assertExactRecord v ownership_target_keys ownership_target_keys False,
      assertOwnershipIdentityEvidenceShape U False (jget v ''provider''),
      assertOwnershipIdentityEvidenceShape U False (jget v ''browser''),
      assertOwnershipIdentityEvidenceShape U False (jget v ''tab''),
      assertOwnershipIdentityEvidenceShape U False (jget v ''thread''),
      assertOwnershipIdentityEvidenceShape U False (jget v ''conversation''),
      assertOwnershipIdentityEvidenceShape U False (jget v ''authoritativeTabClaim''),
      assertOwnershipIdentityEvidenceShape U True (jget v ''canonicalThreadUrl''),
      throw_state (\<not> one_of [''process'', ''provider''] (jget v ''coordinationScope''))
        ''invalid_ownership_baseline'',
      throw_state (jget v ''coordinationScope'' = JStr ''provider''
           \<and> jget (jget v ''authoritativeTabClaim'') ''status'' \<noteq> JStr ''available'')
        ''invalid_ownership_baseline'']"

text \<open>Loops that collect a \<open>Set\<close>: a value seen before throws.\<close>

fun artifact_digests_loop :: "jsv list \<Rightarrow> jsv list \<Rightarrow> check" where
  "artifact_digests_loop seen [] = None"
| "artifact_digests_loop seen (a # as) = first_error
     [digest_of a,
      throw_state (a \<in> set seen) ''invalid_ownership_baseline'',
      artifact_digests_loop (a # seen) as]"

definition assertBaselineTurn :: "bool \<Rightarrow> int \<Rightarrow> jsv list \<Rightarrow> jsv list \<Rightarrow> jsv \<Rightarrow> check" where
  "assertBaselineTurn user index stableIds evidence t = first_error
     [assertExactRecord t
        [''stableId'', ''evidenceDigest'', ''structureDigest'', ''ordinal'', ''parentStableId'',
         ''branchStableId'', ''state'', ''artifactEvidenceDigests'']
        [''evidenceDigest'', ''structureDigest'', ''ordinal''] False,
      throw_state (\<not> (jget t ''ordinal'' = JNum index \<or> index = 0 \<and> jget t ''ordinal'' = JNegZero))
        ''invalid_ownership_baseline'',
      digest_of (jget t ''evidenceDigest''),
      digest_of (jget t ''structureDigest''),
      optional_member t ''stableId'' (\<lambda>v. first_error
        [stableIdentifier_of v, throw_state (v \<in> set stableIds) ''invalid_ownership_baseline'']),
      throw_state (user \<and> (jget t ''state'' \<noteq> JUndefined \<or> jget t ''parentStableId'' \<noteq> JUndefined
                           \<or> jget t ''branchStableId'' \<noteq> JUndefined)) ''invalid_ownership_baseline'',
      throw_state (\<not> user \<and> \<not> one_of [''generating'', ''terminal''] (jget t ''state''))
        ''invalid_ownership_baseline'',
      optional_member t ''parentStableId'' stableIdentifier_of,
      optional_member t ''branchStableId'' stableIdentifier_of,
      (case jget t ''artifactEvidenceDigests'' of
         JUndefined \<Rightarrow> None
       | JNull \<Rightarrow> None
       | JArr as \<Rightarrow> first_error
           [throw_state (length as > MAX_BASELINE_ARTIFACTS_PER_TURN) ''invalid_ownership_baseline'',
            artifact_digests_loop [] as]
       | _ \<Rightarrow> Some (OperationStateError ''invalid_ownership_baseline'')),
      throw_state (jget t ''stableId'' = JUndefined \<and> jget t ''evidenceDigest'' \<in> set evidence)
        ''invalid_ownership_baseline'']"

fun baseline_turns_loop :: "bool \<Rightarrow> int \<Rightarrow> jsv list \<Rightarrow> jsv list \<Rightarrow> jsv list \<Rightarrow> check" where
  "baseline_turns_loop user index stableIds evidence [] = None"
| "baseline_turns_loop user index stableIds evidence (t # ts) = first_error
     [assertBaselineTurn user index stableIds evidence t,
      baseline_turns_loop user (index + 1)
        (if jget t ''stableId'' = JUndefined then stableIds else jget t ''stableId'' # stableIds)
        (if jget t ''stableId'' = JUndefined then jget t ''evidenceDigest'' # evidence else evidence)
        ts]"

definition assertOwnershipTurnsShape :: "bool \<Rightarrow> jsv \<Rightarrow> check" where
  "assertOwnershipTurnsShape user v = (case v of
     JArr ts \<Rightarrow> first_error
       [throw_state (length ts > MAX_BASELINE_TURNS) ''invalid_ownership_baseline'',
        baseline_turns_loop user 0 [] [] ts]
   | _ \<Rightarrow> Some (OperationStateError ''invalid_ownership_baseline''))"

definition snapshot_keys :: "string list" where
  "snapshot_keys = [''schemaVersion'', ''snapshotDigest'', ''target'', ''userTurns'',
     ''assistantTurns'', ''completeness'']"

definition assertOwnershipBaselineSnapshotShape :: "url_parser \<Rightarrow> jsv \<Rightarrow> check" where
  "assertOwnershipBaselineSnapshotShape U v = first_error
     [assertExactRecord v snapshot_keys snapshot_keys False,
      throw_state (jget v ''schemaVersion'' \<noteq> JStr TURN_OWNERSHIP_SCHEMA_VERSION
                   \<or> jget v ''completeness'' \<noteq> JStr ''complete'') ''invalid_ownership_baseline'',
      digest_of (jget v ''snapshotDigest''),
      assertOwnershipTargetEvidenceShape U (jget v ''target''),
      assertOwnershipTurnsShape True (jget v ''userTurns''),
      assertOwnershipTurnsShape False (jget v ''assistantTurns'')]"

definition baseline_keys :: "string list" where
  "baseline_keys = [''schemaVersion'', ''operationId'', ''requestDigest'', ''targetBindingDigest'',
     ''actionId'', ''baseline'', ''observedAt'']"

definition assertOwnershipBaselineShape :: "url_parser \<Rightarrow> jsv \<Rightarrow> check" where
  "assertOwnershipBaselineShape U v = first_error
     [assertExactRecord v baseline_keys baseline_keys False,
      throw_state (jget v ''schemaVersion'' \<noteq> JStr OPERATION_OWNERSHIP_BASELINE_SCHEMA_VERSION)
        ''unsupported_ownership_baseline'',
      operationId_of (jget v ''operationId''),
      digest_of (jget v ''requestDigest''),
      digest_of (jget v ''targetBindingDigest''),
      operationId_of (jget v ''actionId''),
      timestamp_of (jget v ''observedAt''),
      assertOwnershipBaselineSnapshotShape U (jget v ''baseline'')]"

definition assertSubmissionWitnessShape :: "jsv \<Rightarrow> check" where
  "assertSubmissionWitnessShape v = assertExactRecord v
     [''schemaVersion'', ''actionId'', ''actionKind'', ''targetBindingDigest'',
      ''baselineSnapshotDigest'', ''postSendDeltaDigest'', ''operationUserEvidenceDigest'',
      ''userTurnId'', ''observedAt'']
     [''schemaVersion'', ''actionId'', ''actionKind'', ''targetBindingDigest'',
      ''baselineSnapshotDigest'', ''postSendDeltaDigest'', ''operationUserEvidenceDigest'',
      ''observedAt''] False"

section \<open>Actions, blockers and receipts\<close>

definition assertActionIntentShape :: "jsv \<Rightarrow> check" where
  "assertActionIntentShape v = assertExactRecord v
     [''actionId'', ''kind'', ''repeatPolicy'', ''requestDigest'', ''parentActionId'', ''targetDigest'']
     [''actionId'', ''kind'', ''repeatPolicy'', ''requestDigest''] False"

definition assertActionRecordShape :: "jsv \<Rightarrow> check" where
  "assertActionRecordShape v = assertExactRecord v
     [''actionId'', ''kind'', ''repeatPolicy'', ''requestDigest'', ''parentActionId'', ''targetDigest'',
      ''intentRevision'', ''intentAt'', ''outcome'', ''receiptRevision'', ''receiptAt'',
      ''evidenceDigest'', ''blockerCode'']
     [''actionId'', ''kind'', ''repeatPolicy'', ''requestDigest'', ''intentRevision'', ''intentAt''] False"

definition assertBlockerObservationShape :: "jsv \<Rightarrow> check" where
  "assertBlockerObservationShape v = assertExactRecord v
     [''code'', ''messageDigest'', ''recoverable'', ''observedAt'']
     [''code'', ''messageDigest'', ''recoverable'', ''observedAt''] False"

definition assertArtifactShape :: "jsv \<Rightarrow> check" where
  "assertArtifactShape v = assertExactRecord v
     [''schemaVersion'', ''operationId'', ''artifactKey'', ''assistantTurnId'', ''sourceIdentityDigest'',
      ''kind'', ''ordinal'', ''outputKey'', ''mimeType'', ''bytes'', ''sha256'', ''status'', ''blockerCode'']
     [''schemaVersion'', ''operationId'', ''artifactKey'', ''assistantTurnId'', ''sourceIdentityDigest'',
      ''kind'', ''ordinal'', ''status''] False"

definition assertReceiptShape :: "jsv \<Rightarrow> check" where
  "assertReceiptShape v = first_error
     [assertExactRecord v
        [''schemaVersion'', ''operationId'', ''requestDigest'', ''targetBindingDigest'', ''userTurnId'',
         ''userTurnEvidenceDigest'', ''assistantTurnId'', ''ownershipEvidenceDigest'', ''responseDigest'',
         ''responseBytes'', ''responseFormat'', ''finishReason'', ''contentAvailable'', ''artifacts'',
         ''completedAt'']
        [''schemaVersion'', ''operationId'', ''requestDigest'', ''targetBindingDigest'', ''userTurnId'',
         ''userTurnEvidenceDigest'', ''assistantTurnId'', ''ownershipEvidenceDigest'',
         ''finishReason'', ''contentAvailable'', ''artifacts'', ''completedAt''] False,
      optional_member v ''responseFormat'' (\<lambda>f.
        throw_state (\<not> one_of [''markdown'', ''text''] f) ''invalid_response_format''),
      (case jget v ''artifacts'' of
         JArr as \<Rightarrow> first_error (map assertArtifactShape as)
       | _ \<Rightarrow> Some (OperationStateError ''invalid_operation_receipt''))]"

section \<open>Artifact transfers\<close>

definition transfer_intent_keys :: "string list" where
  "transfer_intent_keys = [''schemaVersion'', ''operationId'', ''requestDigest'', ''targetBindingDigest'',
     ''assistantTurnId'', ''sourceIdentityDigest'', ''kind'', ''ordinal'', ''transferActionId'',
     ''destinationIdentityDigest'', ''actionKind'', ''repeatPolicy'', ''intentAt'']"

text \<open>The identity members both transfer records start with.\<close>

definition transfer_identity_checks :: "jsv \<Rightarrow> check list" where
  "transfer_identity_checks v =
     [operationId_of (jget v ''operationId''),
      digest_of (jget v ''requestDigest''),
      digest_of (jget v ''targetBindingDigest''),
      stableIdentifier_of (jget v ''assistantTurnId''),
      digest_of (jget v ''sourceIdentityDigest''),
      throw_state (\<not> one_of [''file'', ''image'', ''other''] (jget v ''kind'')) ''artifact_transfer_kind_invalid'',
      throw_state (\<not> is_nat_num (jget v ''ordinal'')) ''artifact_transfer_ordinal_invalid'',
      operationId_of (jget v ''transferActionId''),
      digest_of (jget v ''destinationIdentityDigest'')]"

definition assertArtifactTransferIntentShape :: "jsv \<Rightarrow> check" where
  "assertArtifactTransferIntentShape v = first_error (
     [assertExactRecord v transfer_intent_keys transfer_intent_keys False,
      throw_state (jget v ''schemaVersion'' \<noteq> JStr OPERATION_ARTIFACT_TRANSFER_INTENT_SCHEMA_VERSION)
        ''artifact_transfer_intent_schema_invalid'']
     @ transfer_identity_checks v @
     [throw_state (jget v ''actionKind'' \<noteq> JStr ''local_output_commit''
                   \<or> jget v ''repeatPolicy'' \<noteq> JStr ''reconcile_local_effect'')
        ''artifact_transfer_action_policy_invalid'',
      timestamp_of (jget v ''intentAt'')])"

definition assertArtifactTransferReceiptShape :: "jsv \<Rightarrow> check" where
  "assertArtifactTransferReceiptShape v = first_error (
     [assertExactRecord v
        [''schemaVersion'', ''operationId'', ''requestDigest'', ''targetBindingDigest'', ''assistantTurnId'',
         ''sourceIdentityDigest'', ''kind'', ''ordinal'', ''transferActionId'', ''destinationIdentityDigest'',
         ''outputKey'', ''bytes'', ''sha256'', ''status'', ''blockerCode'', ''observedAt'']
        [''schemaVersion'', ''operationId'', ''requestDigest'', ''targetBindingDigest'', ''assistantTurnId'',
         ''sourceIdentityDigest'', ''kind'', ''ordinal'', ''transferActionId'', ''destinationIdentityDigest'',
         ''status'', ''observedAt''] False,
      throw_state (jget v ''schemaVersion'' \<noteq> JStr OPERATION_ARTIFACT_TRANSFER_RECEIPT_SCHEMA_VERSION)
        ''artifact_transfer_receipt_schema_invalid'']
     @ transfer_identity_checks v @
     [optional_member v ''outputKey'' (\<lambda>x.
        throw_state (\<not> is_str TRANSFER_OUTPUT_KEY_PATTERN x) ''artifact_transfer_output_key_invalid''),
      optional_member v ''bytes'' (\<lambda>x. throw_state (\<not> is_nat_num x) ''artifact_transfer_bytes_invalid''),
      optional_member v ''sha256'' (\<lambda>x.
        throw_state (\<not> is_str SHA256_PATTERN x) ''artifact_transfer_sha256_invalid''),
      throw_state (\<not> one_of [''transferred'', ''partial'', ''blocked''] (jget v ''status''))
        ''artifact_transfer_status_invalid'',
      optional_member v ''blockerCode'' (\<lambda>x.
        throw_state (\<not> is_str CODE_PATTERN x) ''artifact_transfer_blocker_invalid''),
      timestamp_of (jget v ''observedAt''),
      throw_state (jget v ''status'' = JStr ''transferred'' \<and>
          (jget v ''outputKey'' = JUndefined \<or> jget v ''bytes'' = JUndefined
           \<or> jget v ''sha256'' = JUndefined \<or> jget v ''blockerCode'' \<noteq> JUndefined))
        ''artifact_transfer_receipt_incomplete'',
      throw_state (jget v ''status'' \<noteq> JStr ''transferred'' \<and> jget v ''blockerCode'' = JUndefined)
        ''artifact_transfer_blocker_missing''])"

text \<open>The dictionaries of the state, key by key.\<close>

definition assertArtifactTransfersStateShape :: "jsv \<Rightarrow> check" where
  "assertArtifactTransfersStateShape v = first_error
     (throw_state (\<not> isPlainRecord v) ''invalid_operation_state'' #
      map (\<lambda>(k, p). first_error
        [assertOperationId k,
         (case p of
            Accessor \<Rightarrow> Some (OperationStateError ''invalid_operation_shape'')
          | Data _ t \<Rightarrow> first_error
              [assertExactRecord t [''intent'', ''receipt''] [''intent''] False,
               assertArtifactTransferIntentShape (jget t ''intent''),
               optional_member t ''receipt'' assertArtifactTransferReceiptShape])])
        (enumerable_props v))"

definition assertSubmissionWitnessesMapShape :: "jsv \<Rightarrow> check" where
  "assertSubmissionWitnessesMapShape v = first_error
     (throw_state (\<not> isPlainRecord v) ''invalid_operation_state'' #
      throw_state (length (enumerable_props v) > MAX_SUBMISSION_WITNESSES) ''submission_witness_limit'' #
      map (\<lambda>(k, p). (case p of
          Accessor \<Rightarrow> Some (OperationStateError ''invalid_operation_shape'')
        | Data _ w \<Rightarrow> first_error [assertOperationId k, assertSubmissionWitnessShape w]))
        (enumerable_props v))"

section \<open>Events\<close>

definition assertOperationEventShape :: "url_parser \<Rightarrow> jsv \<Rightarrow> check" where
  "assertOperationEventShape U v = (case assertExactRecord v [''type''] [''type''] True of
     Some e \<Rightarrow> Some e
   | None \<Rightarrow>
     (let ty = jget v ''type'' in
      if ty = JStr ''operation_created'' then first_error
        [assertExactRecord v
           [''type'', ''operationId'', ''requestDigest'', ''surface'', ''createdAt'', ''capturePolicy'']
           [''type'', ''operationId'', ''requestDigest'', ''surface'', ''createdAt''] False,
         optional_member v ''capturePolicy'' assertDurableCapturePolicyShape]
      else if ty = JStr ''target_bound'' then first_error
        [assertExactRecord v [''type'', ''target'', ''observedAt''] [''type'', ''target'', ''observedAt''] False,
         assertTargetShape (jget v ''target'')]
      else if ty = JStr ''target_established'' then first_error
        [assertExactRecord v [''type'', ''establishment''] [''type'', ''establishment''] False,
         assertTargetEstablishmentShape (jget v ''establishment'')]
      else if ty = JStr ''ownership_baseline'' then first_error
        [assertExactRecord v [''type'', ''baseline''] [''type'', ''baseline''] False,
         assertOwnershipBaselineShape U (jget v ''baseline'')]
      else if ty = JStr ''submission_witness'' then first_error
        [assertExactRecord v [''type'', ''witness''] [''type'', ''witness''] False,
         assertSubmissionWitnessShape (jget v ''witness'')]
      else if ty = JStr ''action_intent'' then first_error
        [assertExactRecord v [''type'', ''action'', ''intentAt''] [''type'', ''action'', ''intentAt''] False,
         assertActionIntentShape (jget v ''action'')]
      else if ty = JStr ''action_prepared'' then first_error
        [assertExactRecord v [''type'', ''action'', ''intentAt'', ''baseline'']
           [''type'', ''action'', ''intentAt'', ''baseline''] False,
         assertActionIntentShape (jget v ''action''),
         assertOwnershipBaselineShape U (jget v ''baseline'')]
      else if ty = JStr ''artifact_transfer_intent'' then first_error
        [assertExactRecord v [''type'', ''intent''] [''type'', ''intent''] False,
         assertArtifactTransferIntentShape (jget v ''intent'')]
      else if ty = JStr ''artifact_transfer_receipt'' then first_error
        [assertExactRecord v [''type'', ''receipt''] [''type'', ''receipt''] False,
         assertArtifactTransferReceiptShape (jget v ''receipt'')]
      else if ty = JStr ''action_receipt'' then
        assertExactRecord v
          [''type'', ''actionId'', ''outcome'', ''evidenceDigest'', ''blockerCode'', ''observedAt'']
          [''type'', ''actionId'', ''outcome'', ''observedAt''] False
      else if ty = JStr ''phase_changed'' then
        assertExactRecord v
          [''type'', ''from'', ''to'', ''mutationBoundary'', ''causeActionId'', ''evidenceDigest'', ''observedAt'']
          [''type'', ''from'', ''to'', ''mutationBoundary'', ''observedAt''] False
      else if ty = JStr ''blocker_observed'' then first_error
        [assertExactRecord v [''type'', ''blocker''] [''type'', ''blocker''] False,
         assertBlockerObservationShape (jget v ''blocker'')]
      else if ty = JStr ''receipt_completed'' then first_error
        [assertExactRecord v [''type'', ''receipt'', ''observedAt''] [''type'', ''receipt'', ''observedAt''] False,
         assertReceiptShape (jget v ''receipt'')]
      else if ty = JStr ''content_availability_changed'' then
        assertExactRecord v [''type'', ''available'', ''observedAt''] [''type'', ''available'', ''observedAt''] False
      else Some (OperationStateError ''unknown_operation_event'')))"

section \<open>Shapes of the encoded records\<close>

text \<open>The encoding of a typed record has exactly the keys its type names.\<close>

lemma own_props_enc_rec:
  "own_props (enc_rec ps) = concat (map (\<lambda>(k, x). case x of None \<Rightarrow> [] | Some v \<Rightarrow> [(k, Data True v)]) ps)"
  by (simp add: own_props_def enc_rec_def)

lemma isPlainRecord_enc_rec [simp]: "isPlainRecord (enc_rec ps)"
  by (simp add: isPlainRecord_def enc_rec_def)

lemma has_accessor_enc_rec [simp]: "\<not> has_accessor (enc_rec ps)"
  by (auto simp: has_accessor_def enumerable_props_def own_props_enc_rec list_ex_iff
      split: option.splits jprop.splits)

lemma has_own_enc_rec:
  "has_own (enc_rec ps) k \<longleftrightarrow> (\<exists>v. (k, Some v) \<in> set ps)"
  by (force simp: has_own_def own_props_enc_rec split: option.splits)

lemma has_own_enc_rec_Cons [simp]:
  "has_own (enc_rec ((k', x) # ps)) k \<longleftrightarrow> (k = k' \<and> x \<noteq> None) \<or> has_own (enc_rec ps) k"
  by (auto simp: has_own_enc_rec)

lemma enumerable_keys_enc_rec:
  "fst ` set (enumerable_props (enc_rec ps)) \<subseteq> fst ` set ps"
  by (force simp: enumerable_props_def own_props_enc_rec split: option.splits)

lemma assertExactRecord_enc_rec:
  assumes "list_all (\<lambda>p. fst p \<in> set allowed) ps" and "list_all (has_own (enc_rec ps)) required"
  shows "assertExactRecord (enc_rec ps) allowed required d = None"
proof -
  have "list_all (\<lambda>p. fst p \<in> set allowed) (enumerable_props (enc_rec ps))"
    using assms(1) enumerable_keys_enc_rec [of ps] by (force simp: list_all_iff)
  then show ?thesis using assms(2) by (simp add: assertExactRecord_def)
qed

lemma is_str_JStr [simp]: "is_str P (JStr s) = P s"
  by (simp add: is_str_def)

lemma is_str_JUndefined [simp]: "\<not> is_str P JUndefined"
  by (simp add: is_str_def)

lemma one_of_JStr [simp]: "one_of ss (JStr s) \<longleftrightarrow> s \<in> set ss"
  by (simp add: one_of_def)

lemma of_checks_None [simp]:
  "operationId_of v = None \<longleftrightarrow> is_str UUID_PATTERN v"
  "digest_of v = None \<longleftrightarrow> is_str DIGEST_PATTERN v"
  "timestamp_of v = None \<longleftrightarrow> is_str is_canonical_timestamp v"
  "stableIdentifier_of v = None \<longleftrightarrow> is_str is_stable_identifier v"
  by (simp_all add: operationId_of_def digest_of_def timestamp_of_def stableIdentifier_of_def)

lemma optional_member_None: "optional_member v k f = None \<longleftrightarrow> jget v k = JUndefined \<or> f (jget v k) = None"
  by (simp add: optional_member_def)

lemmas shape_enc_defs = assertExactRecord_enc_rec jfield_defs assertDurableCapturePolicyShape_def
  enc_capture_policy_def assertTargetShape_def enc_target_def profile_keys_def enc_profile_def
  assertTargetEstablishmentShape_def enc_establishment_def assertSubmissionWitnessShape_def
  enc_witness_def assertActionIntentShape_def enc_action_intent_def assertActionRecordShape_def
  enc_action_record_def assertBlockerObservationShape_def enc_blocker_def assertArtifactShape_def
  enc_artifact_receipt_def

lemma target_establishment_shape [simp]: "assertTargetEstablishmentShape (enc_establishment e) = None"
  by (simp add: shape_enc_defs)

lemma target_shape [simp]: "assertTargetShape (enc_target t) = None"
proof -
  have e: "jget (enc_target t) ''targetEstablishment''
      = (case tb_targetEstablishment t of None \<Rightarrow> JUndefined | Some e \<Rightarrow> enc_establishment e)"
    by (simp add: enc_target_def jfield_defs split: option.split)
  have p: "jget (enc_target t) ''evidenceProfile'' = enc_profile (tb_evidenceProfile t)"
    by (simp add: enc_target_def jfield_defs)
  have "assertExactRecord (enc_profile p) profile_keys profile_keys False = None" for p
    by (simp add: shape_enc_defs)
  then show ?thesis
    unfolding assertTargetShape_def first_error_Cons_None optional_member_None e p
    by (auto simp: enc_target_def assertExactRecord_enc_rec jfield_defs split: option.split)
qed

lemma witness_shape [simp]: "assertSubmissionWitnessShape (enc_witness w) = None"
  by (simp add: shape_enc_defs)

lemma action_intent_shape [simp]: "assertActionIntentShape (enc_action_intent a) = None"
  by (simp add: shape_enc_defs)

lemma action_record_shape [simp]: "assertActionRecordShape (enc_action_record a) = None"
  by (simp add: shape_enc_defs)

lemma blocker_shape [simp]: "assertBlockerObservationShape (enc_blocker b) = None"
  by (simp add: shape_enc_defs)

lemma artifact_shape [simp]: "assertArtifactShape (enc_artifact_receipt a) = None"
  by (simp add: shape_enc_defs)

end
