(* ===== verification/Op_Shape_Typed.thy ===== *)
theory Op_Shape_Typed
  imports Op_Shape
begin

text \<open>
  What the closed-shape checks say of a typed record: the checks of \<open>Op_Shape\<close> on the
  encodings of \<open>Op_Encode\<close>, as conditions on the record's fields. These are the rewrite
  rules the reducer's proofs use.
\<close>

lemma enumerable_props_enc_dict [simp]:
  "enumerable_props (enc_dict f ob) = map (\<lambda>(k, v). (k, Data True (f v))) ob"
proof -
  have "list_all (\<lambda>p. case snd p of Accessor \<Rightarrow> True | Data e _ \<Rightarrow> e)
          (map (\<lambda>(k, v). (k, Data True (f v))) ob)"
    by (auto simp: list_all_iff)
  then show ?thesis
    by (simp add: enumerable_props_def own_props_def enc_dict_def list_all_iff filter_id_conv)
qed

lemma isPlainRecord_enc_dict [simp]: "isPlainRecord (enc_dict f ob)"
  by (simp add: isPlainRecord_def enc_dict_def)

lemma baseline_shape_iff:
  "assertOwnershipBaselineShape U (enc_baseline b) = None \<longleftrightarrow>
     ob_schemaVersion b = OPERATION_OWNERSHIP_BASELINE_SCHEMA_VERSION \<and>
     UUID_PATTERN (ob_operationId b) \<and> DIGEST_PATTERN (ob_requestDigest b) \<and>
     DIGEST_PATTERN (ob_targetBindingDigest b) \<and> UUID_PATTERN (ob_actionId b) \<and>
     is_canonical_timestamp (ob_observedAt b) \<and>
     assertOwnershipBaselineSnapshotShape U (enc_snapshot (ob_baseline b)) = None"
proof -
  have "assertExactRecord (enc_baseline b) baseline_keys baseline_keys False = None"
    by (simp add: enc_baseline_def baseline_keys_def assertExactRecord_enc_rec jfield_defs)
  then show ?thesis
    by (simp add: assertOwnershipBaselineShape_def) (auto simp: enc_baseline_def jfield_defs)
qed

lemma capture_policy_shape_iff:
  "assertDurableCapturePolicyShape (enc_capture_policy p) = None \<longleftrightarrow>
     content_text (cp_responseContent p) \<in> {''include'', ''metadata''} \<and>
     format_text (cp_responseFormat p) \<in> {''markdown'', ''text''} \<and>
     artifacts_text (cp_artifacts p) \<in> {''receipt_only'', ''transfer''}"
  by (simp add: assertDurableCapturePolicyShape_def enc_capture_policy_def jfield_defs
      assertExactRecord_enc_rec)

definition transfer_identity_ok ::
  "string \<Rightarrow> string \<Rightarrow> string \<Rightarrow> string \<Rightarrow> string \<Rightarrow> artifact_kind \<Rightarrow> int \<Rightarrow> string \<Rightarrow> string \<Rightarrow> bool" where
  "transfer_identity_ok opId rd td turn src kind ord act dest \<longleftrightarrow>
     UUID_PATTERN opId \<and> DIGEST_PATTERN rd \<and> DIGEST_PATTERN td \<and> is_stable_identifier turn \<and>
     DIGEST_PATTERN src \<and> artifact_kind_text kind \<in> {''file'', ''image'', ''other''} \<and>
     is_safe_integer ord \<and> 0 \<le> ord \<and> UUID_PATTERN act \<and> DIGEST_PATTERN dest"

lemma transfer_intent_shape_iff:
  "assertArtifactTransferIntentShape (enc_transfer_intent i) = None \<longleftrightarrow>
     ti_schemaVersion i = OPERATION_ARTIFACT_TRANSFER_INTENT_SCHEMA_VERSION \<and>
     transfer_identity_ok (ti_operationId i) (ti_requestDigest i) (ti_targetBindingDigest i)
       (ti_assistantTurnId i) (ti_sourceIdentityDigest i) (ti_kind i) (ti_ordinal i)
       (ti_transferActionId i) (ti_destinationIdentityDigest i) \<and>
     kind_text (ti_actionKind i) = ''local_output_commit'' \<and>
     policy_text (ti_repeatPolicy i) = ''reconcile_local_effect'' \<and>
     is_canonical_timestamp (ti_intentAt i)"
proof -
  have x: "assertExactRecord (enc_transfer_intent i) transfer_intent_keys transfer_intent_keys False = None"
    by (simp add: enc_transfer_intent_def transfer_intent_keys_def assertExactRecord_enc_rec jfield_defs)
  have g: "jget (enc_transfer_intent i) ''schemaVersion'' = JStr (ti_schemaVersion i)"
    "jget (enc_transfer_intent i) ''actionKind'' = JStr (kind_text (ti_actionKind i))"
    "jget (enc_transfer_intent i) ''repeatPolicy'' = JStr (policy_text (ti_repeatPolicy i))"
    "jget (enc_transfer_intent i) ''intentAt'' = JStr (ti_intentAt i)"
    by (simp_all add: enc_transfer_intent_def jfield_defs)
  have c: "(\<forall>c\<in>set (transfer_identity_checks (enc_transfer_intent i)). c = None) \<longleftrightarrow>
     transfer_identity_ok (ti_operationId i) (ti_requestDigest i) (ti_targetBindingDigest i)
       (ti_assistantTurnId i) (ti_sourceIdentityDigest i) (ti_kind i) (ti_ordinal i)
       (ti_transferActionId i) (ti_destinationIdentityDigest i)"
    by (simp add: transfer_identity_checks_def transfer_identity_ok_def enc_transfer_intent_def
        jfield_defs is_nat_num_def)
  show ?thesis
    unfolding assertArtifactTransferIntentShape_def first_error_append_None first_error_Cons_None
      first_error_None_iff [of "transfer_identity_checks _"] x g c by auto
qed

lemma transfer_receipt_shape_identity:
  assumes "assertArtifactTransferReceiptShape (enc_transfer_receipt r) = None"
  shows "transfer_identity_ok (tr_operationId r) (tr_requestDigest r) (tr_targetBindingDigest r)
       (tr_assistantTurnId r) (tr_sourceIdentityDigest r) (tr_kind r) (tr_ordinal r)
       (tr_transferActionId r) (tr_destinationIdentityDigest r)"
proof -
  have "first_error (transfer_identity_checks (enc_transfer_receipt r)) = None"
    using assms unfolding assertArtifactTransferReceiptShape_def first_error_append_None by blast
  then show ?thesis
    by (simp add: transfer_identity_checks_def transfer_identity_ok_def enc_transfer_receipt_def
        jfield_defs is_nat_num_def)
qed

lemma transfers_shape_iff:
  "assertArtifactTransfersStateShape (enc_dict enc_transfer_state ob) = None \<longleftrightarrow>
     (\<forall>(k, t)\<in>set ob. UUID_PATTERN k \<and>
        assertArtifactTransferIntentShape (enc_transfer_intent (ts_intent t)) = None \<and>
        (\<forall>r. ts_receipt t = Some r \<longrightarrow> assertArtifactTransferReceiptShape (enc_transfer_receipt r) = None))"
proof -
  have x: "assertExactRecord (enc_transfer_state t) [''intent'', ''receipt''] [''intent''] False = None" for t
    by (simp add: enc_transfer_state_def assertExactRecord_enc_rec)
  have g: "jget (enc_transfer_state t) ''intent'' = enc_transfer_intent (ts_intent t)" for t
    by (simp add: enc_transfer_state_def)
  have u: "enc_transfer_receipt r \<noteq> JUndefined" for r
    by (simp add: enc_transfer_receipt_def enc_rec_def)
  have o: "optional_member (enc_transfer_state t) ''receipt'' f = None \<longleftrightarrow>
      (\<forall>r. ts_receipt t = Some r \<longrightarrow> f (enc_transfer_receipt r) = None)" for t f
    by (cases "ts_receipt t") (simp_all add: optional_member_None enc_transfer_state_def u)
  show ?thesis
    by (simp add: assertArtifactTransfersStateShape_def first_error_map_None x g o)
      (auto simp: x g o)
qed

lemma witnesses_shape_iff:
  "assertSubmissionWitnessesMapShape (enc_dict enc_witness ob) = None \<longleftrightarrow>
     length ob \<le> MAX_SUBMISSION_WITNESSES \<and> (\<forall>(k, w)\<in>set ob. UUID_PATTERN k)"
  by (simp add: assertSubmissionWitnessesMapShape_def) auto

lemma receipt_shape_iff:
  "assertReceiptShape (enc_receipt r) = None \<longleftrightarrow>
     (\<forall>f. rp_responseFormat r = Some f \<longrightarrow> format_text f \<in> {''markdown'', ''text''})"
proof -
  have a: "jget (enc_receipt r) ''artifacts'' = JArr (map enc_artifact_receipt (rp_artifacts r))"
    by (simp add: enc_receipt_def jfield_defs)
  have f: "jget (enc_receipt r) ''responseFormat''
      = (case rp_responseFormat r of None \<Rightarrow> JUndefined | Some x \<Rightarrow> JStr (format_text x))"
    by (simp add: enc_receipt_def jfield_defs split: option.split)
  have x: "assertExactRecord (enc_receipt r)
        [''schemaVersion'', ''operationId'', ''requestDigest'', ''targetBindingDigest'', ''userTurnId'',
         ''userTurnEvidenceDigest'', ''assistantTurnId'', ''ownershipEvidenceDigest'', ''responseDigest'',
         ''responseBytes'', ''responseFormat'', ''finishReason'', ''contentAvailable'', ''artifacts'',
         ''completedAt'']
        [''schemaVersion'', ''operationId'', ''requestDigest'', ''targetBindingDigest'', ''userTurnId'',
         ''userTurnEvidenceDigest'', ''assistantTurnId'', ''ownershipEvidenceDigest'',
         ''finishReason'', ''contentAvailable'', ''artifacts'', ''completedAt''] False = None"
    by (simp add: enc_receipt_def assertExactRecord_enc_rec jfield_defs)
  show ?thesis
    unfolding assertReceiptShape_def first_error_Cons_None x optional_member_None a f
    by (simp split: option.split)
qed

section \<open>Events\<close>

lemma event_type [simp]: "jget (enc_rec ((''type'', Some ty) # ps)) ''type'' = ty"
  by simp

lemma event_record [simp]:
  "assertExactRecord (enc_rec ((''type'', Some ty) # ps)) [''type''] [''type''] True = None"
  by (simp add: assertExactRecord_def)

lemma event_shape_created:
  "assertOperationEventShape U (enc_event (Operation_created e)) = None \<longleftrightarrow>
     (\<forall>p. ev_capturePolicy e = Some p \<longrightarrow> assertDurableCapturePolicyShape (enc_capture_policy p) = None)"
proof -
  have u: "enc_capture_policy p \<noteq> JUndefined" for p
    by (simp add: enc_capture_policy_def enc_rec_def)
  show ?thesis
    by (cases "ev_capturePolicy e")
      (simp_all add: assertOperationEventShape_def assertExactRecord_enc_rec optional_member_None
        jfield_defs u)
qed

lemma event_shape_plain [simp]:
  "assertOperationEventShape U (enc_event (Target_bound t at)) = None"
  "assertOperationEventShape U (enc_event (Target_established e)) = None"
  "assertOperationEventShape U (enc_event (Submission_witness_event w)) = None"
  "assertOperationEventShape U (enc_event (Action_intent_event a at)) = None"
  "assertOperationEventShape U (enc_event (Action_receipt_event r)) = None"
  "assertOperationEventShape U (enc_event (Phase_changed_event p)) = None"
  "assertOperationEventShape U (enc_event (Blocker_observed_event b)) = None"
  "assertOperationEventShape U (enc_event (Content_availability_changed_event v at)) = None"
  by (simp_all add: assertOperationEventShape_def assertExactRecord_enc_rec jfield_defs)

lemma event_shape_checked:
  "assertOperationEventShape U (enc_event (Ownership_baseline_event b)) = None \<longleftrightarrow>
     assertOwnershipBaselineShape U (enc_baseline b) = None"
  "assertOperationEventShape U (enc_event (Action_prepared_event a at b)) = None \<longleftrightarrow>
     assertOwnershipBaselineShape U (enc_baseline b) = None"
  "assertOperationEventShape U (enc_event (Artifact_transfer_intent_event i)) = None \<longleftrightarrow>
     assertArtifactTransferIntentShape (enc_transfer_intent i) = None"
  "assertOperationEventShape U (enc_event (Artifact_transfer_receipt_event tr)) = None \<longleftrightarrow>
     assertArtifactTransferReceiptShape (enc_transfer_receipt tr) = None"
  "assertOperationEventShape U (enc_event (Receipt_completed_event r at)) = None \<longleftrightarrow>
     assertReceiptShape (enc_receipt r) = None"
  by (simp_all add: assertOperationEventShape_def assertExactRecord_enc_rec jfield_defs)

end
