(* ===== verification/Op_Actions.thy ===== *)
theory Op_Actions
  imports Op_Shape_Typed
begin

text \<open>
  The action ledger of an operation (\<open>operations/state-machine.ts\<close>): the tables that fix
  each action kind's repeat policy, legal phases and mutation boundary, and the two
  operations on the ledger, \<open>applyActionIntent\<close> and \<open>applyActionReceipt\<close>.
\<close>

section \<open>Tables\<close>

text \<open>\<open>BOUNDARY_RANK\<close>; a string that is not a key has no rank.\<close>

fun BOUNDARY_RANK :: "mutation_boundary \<Rightarrow> nat option" where
  "BOUNDARY_RANK No_mutation = Some 0"
| "BOUNDARY_RANK Handoff_may_have_occurred = Some 1"
| "BOUNDARY_RANK Send_may_have_occurred = Some 2"
| "BOUNDARY_RANK Control_may_have_occurred = Some 3"
| "BOUNDARY_RANK (Other_boundary _) = None"

text \<open>Comparisons with an undefined rank are false, as with \<open>NaN\<close>.\<close>

definition rank_less :: "mutation_boundary \<Rightarrow> mutation_boundary \<Rightarrow> bool" where
  "rank_less a b = (case (BOUNDARY_RANK a, BOUNDARY_RANK b) of (Some m, Some n) \<Rightarrow> m < n | _ \<Rightarrow> False)"

fun LEGAL_EDGES :: "operation_phase \<Rightarrow> operation_phase list option" where
  "LEGAL_EDGES Prepared = Some [Handoff_pending, Ready, Uncertain]"
| "LEGAL_EDGES Handoff_pending = Some [Ready, Uncertain]"
| "LEGAL_EDGES Ready = Some [Send_pending, Uncertain]"
| "LEGAL_EDGES Send_pending = Some [Submitted, Uncertain]"
| "LEGAL_EDGES Submitted = Some [Generating, Capturing, Uncertain]"
| "LEGAL_EDGES Generating = Some [Capturing, Uncertain]"
| "LEGAL_EDGES Capturing = Some [Uncertain]"
| "LEGAL_EDGES Completed = Some []"
| "LEGAL_EDGES Uncertain = Some [Ready, Submitted, Generating, Capturing]"
| "LEGAL_EDGES (Other_phase _) = None"

fun ACTION_POLICY :: "action_kind \<Rightarrow> repeat_policy option" where
  "ACTION_POLICY Status_read = Some Read_only"
| "ACTION_POLICY Configuration_set = Some Reconcile_set_to_value"
| "ACTION_POLICY Tool_set = Some Reconcile_set_to_value"
| "ACTION_POLICY Composer_set = Some Reconcile_set_to_value"
| "ACTION_POLICY Power_discovery = Some Read_only"
| "ACTION_POLICY Power_select = Some Reconcile_set_to_value"
| "ACTION_POLICY File_handoff = Some Observe_only_after_intent"
| "ACTION_POLICY Send = Some Observe_only_after_intent"
| "ACTION_POLICY Work_steer = Some Observe_only_after_intent"
| "ACTION_POLICY Stop = Some Observe_only_after_intent"
| "ACTION_POLICY Download = Some Reconcile_local_effect"
| "ACTION_POLICY Local_output_commit = Some Reconcile_local_effect"
| "ACTION_POLICY Clipboard_capture_restore = Some Reconcile_local_effect"
| "ACTION_POLICY (Other_kind _) = None"

fun ACTION_PHASES :: "action_kind \<Rightarrow> operation_phase list" where
  "ACTION_PHASES Status_read = [Prepared, Handoff_pending, Ready, Send_pending, Submitted,
     Generating, Capturing, Completed, Uncertain]"
| "ACTION_PHASES Configuration_set = [Prepared]"
| "ACTION_PHASES Tool_set = [Prepared]"
| "ACTION_PHASES Composer_set = [Prepared]"
| "ACTION_PHASES Power_discovery = [Prepared]"
| "ACTION_PHASES Power_select = [Prepared]"
| "ACTION_PHASES File_handoff = [Prepared]"
| "ACTION_PHASES Send = [Ready]"
| "ACTION_PHASES Work_steer = [Generating]"
| "ACTION_PHASES Stop = [Generating]"
| "ACTION_PHASES Download = [Capturing]"
| "ACTION_PHASES Local_output_commit = [Capturing]"
| "ACTION_PHASES Clipboard_capture_restore = [Capturing]"
| "ACTION_PHASES (Other_kind _) = []"

text \<open>
  The code's \<open>x in TABLE\<close> also finds the members of \<open>Object.prototype\<close>; \<open>requiredRepeatPolicy\<close>
  and \<open>ACTION_PHASES[kind]\<close> are only used once the repeat policy agrees, which no such
  member does.
\<close>

definition in_table :: "'a option \<Rightarrow> string \<Rightarrow> bool" where
  "in_table entry key \<longleftrightarrow> entry \<noteq> None \<or> key \<in> set object_prototype_keys"

definition known_kind :: "action_kind \<Rightarrow> bool" where
  "known_kind k = in_table (ACTION_POLICY k) (kind_text k)"

definition known_phase :: "operation_phase \<Rightarrow> bool" where
  "known_phase p = in_table (LEGAL_EDGES p) (phase_text p)"

definition known_boundary :: "mutation_boundary \<Rightarrow> bool" where
  "known_boundary b = in_table (BOUNDARY_RANK b) (boundary_text b)"

definition requiredRepeatPolicy :: "action_kind \<Rightarrow> repeat_policy option" where
  "requiredRepeatPolicy k = ACTION_POLICY k"

definition boundaryForAction :: "action_kind \<Rightarrow> mutation_boundary option" where
  "boundaryForAction k =
     (if k = File_handoff then Some Handoff_may_have_occurred
      else if k = Send then Some Send_may_have_occurred
      else if k = Work_steer \<or> k = Stop then Some Control_may_have_occurred
      else None)"

definition isSingleIntentKind :: "action_kind \<Rightarrow> bool" where
  "isSingleIntentKind k \<longleftrightarrow> k = File_handoff \<or> k = Send"

definition durableCapturePolicyFromRequest :: "capture_request option \<Rightarrow> capture_policy" where
  "durableCapturePolicyFromRequest c =
     \<lparr>cp_responseContent = (case c of None \<Rightarrow> Include
        | Some r \<Rightarrow> (case cq_responseContent r of None \<Rightarrow> Include | Some x \<Rightarrow> x)),
      cp_responseFormat = (case c of None \<Rightarrow> Markdown
        | Some r \<Rightarrow> (case cq_responseFormat r of None \<Rightarrow> Markdown | Some x \<Rightarrow> x)),
      cp_artifacts = (case c of None \<Rightarrow> Receipt_only
        | Some r \<Rightarrow> (case cq_artifacts r of None \<Rightarrow> Receipt_only | Some x \<Rightarrow> x))\<rparr>"

section \<open>Intents\<close>

definition record_of_intent :: "action_intent \<Rightarrow> int \<Rightarrow> string \<Rightarrow> action_record" where
  "record_of_intent a revision intentAt =
     \<lparr>ar_actionId = ai_actionId a, ar_kind = ai_kind a, ar_repeatPolicy = ai_repeatPolicy a,
      ar_requestDigest = ai_requestDigest a, ar_parentActionId = ai_parentActionId a,
      ar_targetDigest = ai_targetDigest a, ar_intentRevision = revision, ar_intentAt = intentAt,
      ar_outcome = None, ar_receiptRevision = None, ar_receiptAt = None,
      ar_evidenceDigest = None, ar_blockerCode = None\<rparr>"

definition raise_boundary :: "action_kind \<Rightarrow> mutation_boundary \<Rightarrow> mutation_boundary" where
  "raise_boundary k b = (case boundaryForAction k of
     None \<Rightarrow> b | Some b' \<Rightarrow> if rank_less b b' then b' else b)"

definition action_intent_check :: "operation_state \<Rightarrow> action_intent \<Rightarrow> check" where
  "action_intent_check s a = first_error
     [assertOperationId (ai_actionId a),
      assertDigest (ai_requestDigest a),
      throw_state (ai_kind a \<noteq> Stop \<and> ai_kind a \<noteq> Work_steer \<and> ai_requestDigest a \<noteq> st_requestDigest s)
        ''action_request_mismatch'',
      throw_state (\<not> known_kind (ai_kind a)) ''invalid_action_kind'',
      throw_state (obj_get (st_actions s) (ai_actionId a) \<noteq> None) ''duplicate_action_intent'',
      throw_state (requiredRepeatPolicy (ai_kind a) \<noteq> Some (ai_repeatPolicy a)) ''invalid_repeat_policy'',
      throw_state (st_phase s \<notin> set (ACTION_PHASES (ai_kind a))) ''action_phase_invalid'',
      throw_state (ai_kind a \<noteq> Status_read \<and> st_target s = None) ''target_not_bound'',
      when_some (ai_parentActionId a)
        (\<lambda>p. throw_state (dict_lookup (st_actions s) p = Absent) ''unknown_parent_action''),
      when_some (ai_parentActionId a) assertOperationId,
      throw_state (ai_kind a \<noteq> Status_read \<and> ai_targetDigest a = None) ''action_target_missing'',
      when_some (ai_targetDigest a) assertDigest,
      throw_state (isSingleIntentKind (ai_kind a) \<and>
          list_ex (\<lambda>r. ar_kind r = ai_kind a) (obj_values (st_actions s)))
        ''nonrepeatable_action_already_intended'']"

definition applyActionIntent ::
  "operation_state \<Rightarrow> action_intent \<Rightarrow> int \<Rightarrow> string \<Rightarrow> operation_state res" where
  "applyActionIntent s a revision intentAt = checked (action_intent_check s a)
     (s\<lparr>st_mutationBoundary := raise_boundary (ai_kind a) (st_mutationBoundary s),
        st_actions := obj_set (st_actions s) (ai_actionId a) (record_of_intent a revision intentAt)\<rparr>)"

section \<open>Receipts\<close>

definition outcome_ok :: "action_outcome \<Rightarrow> bool" where
  "outcome_ok x \<longleftrightarrow> x = Satisfied \<or> x = Not_satisfied \<or> x = Outcome_uncertain"

definition settled :: "action_record \<Rightarrow> action_receipt \<Rightarrow> int \<Rightarrow> action_record" where
  "settled a r revision = a
     \<lparr>ar_outcome := Some (rc_outcome r),
      ar_receiptRevision := Some revision,
      ar_receiptAt := Some (rc_observedAt r),
      ar_evidenceDigest := (case rc_evidenceDigest r of None \<Rightarrow> ar_evidenceDigest a | Some d \<Rightarrow> Some d),
      ar_blockerCode := (case rc_blockerCode r of None \<Rightarrow> ar_blockerCode a | Some c \<Rightarrow> Some c)\<rparr>"

text \<open>The checks after the lookup; \<open>prior\<close> is the record's \<open>intentAt\<close>, if it has one.\<close>

definition action_receipt_check :: "string option \<Rightarrow> action_receipt \<Rightarrow> check" where
  "action_receipt_check prior r = first_error
     [throw_state (\<not> outcome_ok (rc_outcome r)) ''invalid_action_outcome'',
      when_some prior (\<lambda>at. assertTimestampNotBefore at (rc_observedAt r)),
      throw_state (rc_outcome r = Satisfied \<and> rc_evidenceDigest r = None) ''action_evidence_missing'',
      when_some (rc_evidenceDigest r) assertDigest,
      when_some (rc_blockerCode r) (\<lambda>c. throw_state (\<not> CODE_PATTERN c) ''invalid_blocker_code'')]"

text \<open>
  \<open>event.actionId\<close> is not checked to be an operation id, so the lookup can find an inherited
  member. It has no \<open>outcome\<close> and no \<open>intentAt\<close>, hence passes both comparisons, and the code
  stores a record without an action kind: \<open>Untyped_record\<close>. \<open>Op_Receipt_Objects\<close> has this
  branch on the objects of the code.
\<close>

definition applyActionReceipt ::
  "operation_state \<Rightarrow> action_receipt \<Rightarrow> int \<Rightarrow> operation_state res" where
  "applyActionReceipt s r revision = (case dict_lookup (st_actions s) (rc_actionId r) of
     Absent \<Rightarrow> Inl (OperationStateError ''action_intent_missing'')
   | Inherited \<Rightarrow> (case action_receipt_check None r of
        Some e \<Rightarrow> Inl e | None \<Rightarrow> Inl (Untyped_record (rc_actionId r)))
   | Own a \<Rightarrow> checked (first_error
        [throw_state (ar_outcome a \<noteq> None) ''duplicate_action_receipt'',
         action_receipt_check (Some (ar_intentAt a)) r])
        (s\<lparr>st_actions := obj_set (st_actions s) (rc_actionId r) (settled a r revision)\<rparr>))"

section \<open>A persisted record\<close>

definition unsettled_record_check :: "action_record \<Rightarrow> check" where
  "unsettled_record_check a = throw_state
     (ar_receiptRevision a \<noteq> None \<or> ar_receiptAt a \<noteq> None \<or> ar_evidenceDigest a \<noteq> None
      \<or> ar_blockerCode a \<noteq> None) ''action_receipt_incomplete''"

definition settled_record_check :: "operation_state \<Rightarrow> action_record \<Rightarrow> action_outcome \<Rightarrow> check" where
  "settled_record_check s a x = (case (ar_receiptRevision a, ar_receiptAt a) of
     (Some rv, Some at) \<Rightarrow> first_error
       [throw_state (\<not> outcome_ok x) ''invalid_action_outcome'',
        throw_state (\<not> is_safe_integer rv \<or> rv \<le> ar_intentRevision a \<or> rv > st_revision s)
          ''action_receipt_incomplete'',
        assertTimestamp at,
        assertTimestampNotBefore (ar_intentAt a) at,
        assertTimestampNotBefore at (st_updatedAt s),
        when_some (ar_evidenceDigest a) assertDigest,
        throw_state (x = Satisfied \<and> ar_evidenceDigest a = None) ''action_evidence_missing'',
        when_some (ar_blockerCode a) (\<lambda>c. throw_state (\<not> CODE_PATTERN c) ''invalid_blocker_code'')]
   | _ \<Rightarrow> first_error
       [throw_state (\<not> outcome_ok x) ''invalid_action_outcome'',
        Some (OperationStateError ''action_receipt_incomplete'')])"

definition assertPersistedActionRecord :: "operation_state \<Rightarrow> action_record \<Rightarrow> check" where
  "assertPersistedActionRecord s a = first_error
     [assertOperationId (ar_actionId a),
      throw_state (\<not> known_kind (ar_kind a) \<or> requiredRepeatPolicy (ar_kind a) \<noteq> Some (ar_repeatPolicy a))
        ''invalid_repeat_policy'',
      assertDigest (ar_requestDigest a),
      throw_state (ar_kind a \<noteq> Stop \<and> ar_kind a \<noteq> Work_steer \<and> ar_requestDigest a \<noteq> st_requestDigest s)
        ''action_request_mismatch'',
      when_some (ar_parentActionId a) (\<lambda>p. first_error
        [assertOperationId p,
         throw_state (obj_get (st_actions s) p = None) ''unknown_parent_action'']),
      when_some (ar_targetDigest a) assertDigest,
      throw_state (ar_kind a \<noteq> Status_read \<and> (st_target s = None \<or> ar_targetDigest a = None))
        ''action_target_missing'',
      throw_state (\<not> is_safe_integer (ar_intentRevision a) \<or> ar_intentRevision a < 1
                   \<or> ar_intentRevision a > st_revision s) ''invalid_action_revision'',
      assertTimestamp (ar_intentAt a),
      assertTimestampNotBefore (ar_intentAt a) (st_updatedAt s),
      (case ar_outcome a of
         None \<Rightarrow> unsettled_record_check a
       | Some x \<Rightarrow> settled_record_check s a x)]"

section \<open>Facts\<close>

lemma known_kind_policy: "requiredRepeatPolicy k = Some p \<Longrightarrow> known_kind k"
  by (simp add: requiredRepeatPolicy_def known_kind_def in_table_def)

lemma rank_less_irrefl [simp]: "\<not> rank_less b b"
  by (simp add: rank_less_def split: option.splits)

definition boundary_rank :: "mutation_boundary \<Rightarrow> nat" where
  "boundary_rank b = (case BOUNDARY_RANK b of Some n \<Rightarrow> n | None \<Rightarrow> 0)"

text \<open>A known boundary, and the order of known boundaries.\<close>

definition real_boundary :: "mutation_boundary \<Rightarrow> bool" where
  "real_boundary b \<longleftrightarrow> BOUNDARY_RANK b \<noteq> None"

lemma boundaryForAction_real: "boundaryForAction k = Some b \<Longrightarrow> real_boundary b"
  by (auto simp: boundaryForAction_def real_boundary_def split: if_splits)

lemma rank_less_real:
  "real_boundary a \<Longrightarrow> real_boundary b \<Longrightarrow> rank_less a b \<longleftrightarrow> boundary_rank a < boundary_rank b"
  by (auto simp: rank_less_def real_boundary_def boundary_rank_def)

lemma boundary_rank_inj:
  "real_boundary a \<Longrightarrow> real_boundary b \<Longrightarrow> boundary_rank a = boundary_rank b \<Longrightarrow> a = b"
  by (cases a; cases b) (auto simp: real_boundary_def boundary_rank_def)

lemma raise_boundary_real [simp]: "real_boundary b \<Longrightarrow> real_boundary (raise_boundary k b)"
  by (auto simp: raise_boundary_def boundaryForAction_real split: option.splits)

lemma raise_boundary_mono: "real_boundary b \<Longrightarrow> boundary_rank b \<le> boundary_rank (raise_boundary k b)"
  by (auto simp: raise_boundary_def rank_less_real boundaryForAction_real split: option.splits)

lemma applyActionIntent_Inr:
  assumes "applyActionIntent s a rv at = Inr s'"
  shows "action_intent_check s a = None"
    and "s' = s\<lparr>st_mutationBoundary := raise_boundary (ai_kind a) (st_mutationBoundary s),
        st_actions := obj_set (st_actions s) (ai_actionId a) (record_of_intent a rv at)\<rparr>"
  using assms by (simp_all add: applyActionIntent_def)

lemma action_intent_new: "action_intent_check s a = None \<Longrightarrow> obj_get (st_actions s) (ai_actionId a) = None"
  by (simp add: action_intent_check_def)

lemma applyActionReceipt_Inr:
  assumes "applyActionReceipt s r rv = Inr s'"
  obtains a where "obj_get (st_actions s) (rc_actionId r) = Some a" "ar_outcome a = None"
    "action_receipt_check (Some (ar_intentAt a)) r = None"
    "s' = s\<lparr>st_actions := obj_set (st_actions s) (rc_actionId r) (settled a r rv)\<rparr>"
  using assms by (auto simp: applyActionReceipt_def split: lookup.splits option.splits)

lemma settled_fields [simp]:
  "ar_actionId (settled a r rv) = ar_actionId a"
  "ar_kind (settled a r rv) = ar_kind a"
  "ar_repeatPolicy (settled a r rv) = ar_repeatPolicy a"
  "ar_requestDigest (settled a r rv) = ar_requestDigest a"
  "ar_parentActionId (settled a r rv) = ar_parentActionId a"
  "ar_targetDigest (settled a r rv) = ar_targetDigest a"
  "ar_intentRevision (settled a r rv) = ar_intentRevision a"
  "ar_intentAt (settled a r rv) = ar_intentAt a"
  "ar_outcome (settled a r rv) = Some (rc_outcome r)"
  "ar_receiptRevision (settled a r rv) = Some rv"
  "ar_receiptAt (settled a r rv) = Some (rc_observedAt r)"
  by (simp_all add: settled_def)

lemma record_of_intent_fields [simp]:
  "ar_actionId (record_of_intent a rv at) = ai_actionId a"
  "ar_kind (record_of_intent a rv at) = ai_kind a"
  "ar_repeatPolicy (record_of_intent a rv at) = ai_repeatPolicy a"
  "ar_requestDigest (record_of_intent a rv at) = ai_requestDigest a"
  "ar_parentActionId (record_of_intent a rv at) = ai_parentActionId a"
  "ar_targetDigest (record_of_intent a rv at) = ai_targetDigest a"
  "ar_intentRevision (record_of_intent a rv at) = rv"
  "ar_intentAt (record_of_intent a rv at) = at"
  "ar_outcome (record_of_intent a rv at) = None"
  "ar_receiptRevision (record_of_intent a rv at) = None"
  "ar_receiptAt (record_of_intent a rv at) = None"
  "ar_evidenceDigest (record_of_intent a rv at) = None"
  "ar_blockerCode (record_of_intent a rv at) = None"
  by (simp_all add: record_of_intent_def)

end
