(* ===== verification/Op_Target.thy ===== *)
theory Op_Target
  imports Op_Shape_Typed
begin

text \<open>
  The target binding of an operation (\<open>validateTargetValues\<close>,
  \<open>validateTargetEstablishmentValues\<close>, \<open>validatedTarget\<close>, \<open>establishTarget\<close> of
  \<open>operations/state-machine.ts\<close>): a fixed target, or a new conversation that is bound as
  pending and established once, after the Send that creates it.
\<close>

definition lifecycle_of :: "target_binding \<Rightarrow> target_lifecycle" where
  "lifecycle_of t = (case tb_targetLifecycle t of None \<Rightarrow> Fixed | Some l \<Rightarrow> l)"

section \<open>Values of a target\<close>

definition validateTargetEstablishmentValues ::
  "url_parser \<Rightarrow> target_establishment \<Rightarrow> target_binding \<Rightarrow> check" where
  "validateTargetEstablishmentValues U e t = first_error
     [assertDigest (te_targetBindingDigest e),
      assertDigest (te_anchorDigest e),
      assertOperationId (te_causalSendActionId e),
      assertStableIdentifier (te_conversationId e),
      assertCanonicalThreadUrl U (te_canonicalThreadUrl e),
      assertStableIdentifier (te_userTurnId e),
      assertDigest (te_userTurnEvidenceDigest e),
      when_some (te_postSendDeltaDigest e) assertDigest,
      assertDigest (te_evidenceDigest e),
      assertTimestamp (te_observedAt e),
      throw_state (Some (te_anchorDigest e) \<noteq> tb_newTargetAnchorDigest t) ''new_target_anchor_mismatch'',
      throw_state (tb_conversationId t \<noteq> Some (te_conversationId e)
                   \<or> tb_canonicalThreadUrl t \<noteq> Some (te_canonicalThreadUrl e))
        ''new_target_identity_mismatch'']"

definition requirement_ok :: "requirement \<Rightarrow> bool" where
  "requirement_ok r \<longleftrightarrow> r = Required \<or> r = Not_available"

definition profile_ok :: "evidence_profile \<Rightarrow> bool" where
  "profile_ok p \<longleftrightarrow> requirement_ok (ep_providerIdentity p) \<and> requirement_ok (ep_stableTabId p)
     \<and> requirement_ok (ep_stableConversationId p) \<and> requirement_ok (ep_stableUserTurnId p)
     \<and> requirement_ok (ep_authoritativeTabClaim p)"

definition pending_target_checks :: "target_binding \<Rightarrow> check" where
  "pending_target_checks t = first_error
     [throw_state (tb_targetEstablishment t \<noteq> None) ''new_target_establishment_early'',
      throw_state (ep_stableConversationId (tb_evidenceProfile t) \<noteq> Not_available)
        ''new_target_conversation_profile'',
      throw_state (ep_stableUserTurnId (tb_evidenceProfile t) \<noteq> Not_available)
        ''new_target_user_profile'']"

definition established_target_checks :: "url_parser \<Rightarrow> target_binding \<Rightarrow> check" where
  "established_target_checks U t = (case tb_targetEstablishment t of
     None \<Rightarrow> Some (OperationStateError ''new_target_establishment_missing'')
   | Some e \<Rightarrow> first_error
       [validateTargetEstablishmentValues U e t,
        throw_state (ep_stableConversationId (tb_evidenceProfile t) \<noteq> Required
                     \<or> ep_stableUserTurnId (tb_evidenceProfile t) \<noteq> Required)
          ''new_target_established_profile''])"

definition validateTargetValues :: "url_parser \<Rightarrow> target_binding \<Rightarrow> check" where
  "validateTargetValues U t = (let p = tb_evidenceProfile t; lc = lifecycle_of t in first_error
     [assertStableIdentifier (tb_providerId t),
      assertStableIdentifier (tb_browserId t),
      assertStableIdentifier (tb_tabId t),
      when_some (tb_conversationId t) assertStableIdentifier,
      when_some (tb_userTurnBaselineDigest t) assertDigest,
      when_some (tb_assistantTurnBaselineDigest t) assertDigest,
      when_some (tb_configurationReceiptDigest t) assertDigest,
      throw_state (\<not> profile_ok p) ''invalid_target_evidence_profile'',
      throw_state (ep_stableConversationId p = Required \<and> tb_conversationId t = None)
        ''target_conversation_missing'',
      throw_state (tb_coordinationScope t \<noteq> Process_scope \<and> tb_coordinationScope t \<noteq> Provider_scope)
        ''invalid_coordination_scope'',
      when_some (tb_tabClaimEvidenceDigest t) assertDigest,
      throw_state (tb_coordinationScope t = Provider_scope \<and>
          (ep_authoritativeTabClaim p \<noteq> Required \<or> tb_tabClaimEvidenceDigest t = None))
        ''target_claim_evidence_missing'',
      when_some (tb_canonicalThreadUrl t) (assertCanonicalThreadUrl U),
      throw_state (lc \<noteq> Fixed \<and> lc \<noteq> New_pending \<and> lc \<noteq> New_established) ''invalid_target_lifecycle'',
      when_some (tb_newTargetAnchorDigest t) assertDigest,
      when_some (tb_blankTaskEvidenceDigest t) assertDigest,
      if lc = Fixed then
        throw_state (tb_newTargetAnchorDigest t \<noteq> None \<or> tb_blankTaskEvidenceDigest t \<noteq> None
                     \<or> tb_targetEstablishment t \<noteq> None) ''fixed_target_new_identity''
      else first_error
        [throw_state (tb_newTargetAnchorDigest t = None \<or> tb_blankTaskEvidenceDigest t = None)
           ''new_target_anchor_missing'',
         throw_state ((tb_canonicalThreadUrl t \<noteq> None \<or> tb_conversationId t \<noteq> None) \<and> lc = New_pending)
           ''new_target_identity_early'',
         if lc = New_pending then pending_target_checks t else established_target_checks U t]])"

section \<open>Binding and establishing\<close>

definition validatedTarget :: "url_parser \<Rightarrow> operation_state \<Rightarrow> target_binding \<Rightarrow> target_binding res" where
  "validatedTarget U s t = checked (first_error
     [validateTargetValues U t,
      throw_state (st_target s = None \<and> tb_targetLifecycle t = Some New_established)
        ''new_target_establishment_order'',
      (case st_target s of None \<Rightarrow> None
       | Some t0 \<Rightarrow> assertSameCanonical ''target_binding_mismatch'' enc_target t0 t)]) t"

definition established_target :: "target_binding \<Rightarrow> target_establishment \<Rightarrow> target_binding" where
  "established_target t e = t
     \<lparr>tb_targetLifecycle := Some New_established,
      tb_conversationId := Some (te_conversationId e),
      tb_canonicalThreadUrl := Some (te_canonicalThreadUrl e),
      tb_evidenceProfile := (tb_evidenceProfile t)
        \<lparr>ep_stableConversationId := Required, ep_stableUserTurnId := Required\<rparr>,
      tb_targetEstablishment := Some e\<rparr>"

definition establishTarget ::
  "url_parser \<Rightarrow> operation_state \<Rightarrow> target_establishment \<Rightarrow> target_binding res" where
  "establishTarget U s e = (case st_target s of
     None \<Rightarrow> Inl (OperationStateError ''target_not_bound'')
   | Some t \<Rightarrow> (let send = obj_get (st_actions s) (te_causalSendActionId e) in
      checked (first_error
        [throw_state (lifecycle_of t = Fixed) ''fixed_target_establishment'',
         throw_state (lifecycle_of t = New_established) ''target_already_established'',
         validateTargetEstablishmentValues U e (established_target t e),
         assertOperationId (te_causalSendActionId e),
         (case send of
            None \<Rightarrow> Some (OperationStateError ''target_establishment_send_missing'')
          | Some a \<Rightarrow> first_error
              [throw_state (ar_kind a \<noteq> Send) ''target_establishment_send_missing'',
               throw_state (ar_outcome a = Some Not_satisfied) ''target_establishment_send_rejected'',
               throw_state (ar_targetDigest a \<noteq> Some (te_targetBindingDigest e))
                 ''target_establishment_target_mismatch'',
               throw_state (te_observedAt e < ar_intentAt a) ''target_establishment_before_send'']),
         throw_state (st_phase s = Prepared \<or> st_phase s = Handoff_pending \<or> st_phase s = Completed)
           ''target_establishment_phase_invalid'',
         validateTargetValues U (established_target t e)])
        (established_target t e)))"

section \<open>Facts\<close>

lemma validatedTarget_Inr:
  "validatedTarget U s t = Inr t' \<Longrightarrow> t' = t \<and> validateTargetValues U t = None"
  by (simp add: validatedTarget_def)

lemma validatedTarget_first:
  "st_target s = None \<Longrightarrow> validatedTarget U s t = Inr t' \<Longrightarrow> tb_targetLifecycle t' \<noteq> Some New_established"
  by (simp add: validatedTarget_def)

lemma establishTarget_Inr:
  assumes "establishTarget U s e = Inr t'"
  obtains t a where "st_target s = Some t" "t' = established_target t e"
    "lifecycle_of t \<noteq> Fixed" "lifecycle_of t \<noteq> New_established"
    "obj_get (st_actions s) (te_causalSendActionId e) = Some a" "ar_kind a = Send"
    "ar_outcome a \<noteq> Some Not_satisfied" "ar_targetDigest a = Some (te_targetBindingDigest e)"
    "\<not> te_observedAt e < ar_intentAt a" "st_phase s \<notin> {Prepared, Handoff_pending, Completed}"
    "validateTargetValues U t' = None"
  using assms by (auto simp: establishTarget_def Let_def split: option.splits)

lemma established_target_fields [simp]:
  "tb_providerId (established_target t e) = tb_providerId t"
  "tb_browserId (established_target t e) = tb_browserId t"
  "tb_tabId (established_target t e) = tb_tabId t"
  "tb_coordinationScope (established_target t e) = tb_coordinationScope t"
  "tb_newTargetAnchorDigest (established_target t e) = tb_newTargetAnchorDigest t"
  "tb_targetLifecycle (established_target t e) = Some New_established"
  "tb_targetEstablishment (established_target t e) = Some e"
  "tb_conversationId (established_target t e) = Some (te_conversationId e)"
  "lifecycle_of (established_target t e) = New_established"
  by (simp_all add: established_target_def lifecycle_of_def)

lemma validateTarget_lifecycle:
  assumes "validateTargetValues U t = None"
  shows "lifecycle_of t \<in> {Fixed, New_pending, New_established}"
  using assms by (auto simp: validateTargetValues_def Let_def)

lemma validateTarget_fixed:
  assumes "validateTargetValues U t = None" "lifecycle_of t = Fixed"
  shows "tb_newTargetAnchorDigest t = None \<and> tb_targetEstablishment t = None"
  using assms by (simp add: validateTargetValues_def Let_def)

lemma validateTarget_pending:
  assumes "validateTargetValues U t = None" "lifecycle_of t = New_pending"
  shows "tb_conversationId t = None \<and> tb_canonicalThreadUrl t = None \<and> tb_targetEstablishment t = None
    \<and> (\<exists>d. tb_newTargetAnchorDigest t = Some d)"
  using assms by (auto simp: validateTargetValues_def pending_target_checks_def Let_def)

lemma validateTarget_established:
  assumes "validateTargetValues U t = None" "lifecycle_of t = New_established"
  obtains e where "tb_targetEstablishment t = Some e"
    "tb_newTargetAnchorDigest t = Some (te_anchorDigest e)"
    "tb_conversationId t = Some (te_conversationId e)"
    "tb_canonicalThreadUrl t = Some (te_canonicalThreadUrl e)"
  using assms
  by (auto simp: validateTargetValues_def established_target_checks_def
      validateTargetEstablishmentValues_def Let_def split: option.splits)

end
