(* ===== verification/Op_Ownership.thy ===== *)
theory Op_Ownership
  imports Op_Actions Op_Target
begin

text \<open>
  Ownership of the submitted turn (\<open>operations/state-machine.ts\<close>): the pre-action baseline,
  the post-action submission witness, their write-once ledgers with the compatibility
  projections of the original Send, and \<open>requireDurableOriginalSendOwnership\<close>, the proof
  an operation needs before it may claim a submitted turn.

  A lookup by an id that an earlier check has forced to be a UUID cannot reach
  \<open>Object.prototype\<close>, so it is \<^const>\<open>obj_get\<close>.
\<close>

section \<open>Baselines\<close>

fun identity_value :: "identity_evidence \<Rightarrow> string option" where
  "identity_value (Available v) = Some v"
| "identity_value (Unavailable _) = None"

definition canonicalThreadUrlMatches :: "action_kind \<Rightarrow> target_binding \<Rightarrow> identity_evidence \<Rightarrow> bool" where
  "canonicalThreadUrlMatches kind t url =
     (if lifecycle_of t \<noteq> Fixed then True
      else if kind = Work_steer \<and> url = Unavailable Redacted then True
      else case tb_canonicalThreadUrl t of
        Some u \<Rightarrow> url = Available u
      | None \<Rightarrow> kind \<noteq> Work_steer)"

definition baseline_target_agrees :: "action_kind \<Rightarrow> target_binding \<Rightarrow> ownership_target \<Rightarrow> bool" where
  "baseline_target_agrees kind t o' \<longleftrightarrow>
     identity_value (ot_provider o') = Some (tb_providerId t) \<and>
     identity_value (ot_browser o') = Some (tb_browserId t) \<and>
     identity_value (ot_tab o') = Some (tb_tabId t) \<and>
     ot_coordinationScope o' = tb_coordinationScope t \<and>
     \<not> (lifecycle_of t = Fixed \<and> tb_conversationId t \<noteq> None
        \<and> identity_value (ot_conversation o') \<noteq> tb_conversationId t) \<and>
     canonicalThreadUrlMatches kind t (ot_canonicalThreadUrl o')"

definition validateOwnershipBaselineValues :: "operation_baseline \<Rightarrow> operation_state \<Rightarrow> check" where
  "validateOwnershipBaselineValues b s =
     (if ob_operationId b \<noteq> st_operationId s \<or> ob_requestDigest b \<noteq> st_requestDigest s
      then Some (OperationStateError ''ownership_baseline_identity_mismatch'')
      else case obj_get (st_actions s) (ob_actionId b) of
        None \<Rightarrow> Some (OperationStateError ''ownership_baseline_action_missing'')
      | Some a \<Rightarrow> (if ar_kind a \<noteq> Send \<and> ar_kind a \<noteq> Work_steer
          then Some (OperationStateError ''ownership_baseline_action_missing'')
          else if ar_targetDigest a \<noteq> Some (ob_targetBindingDigest b)
          then Some (OperationStateError ''ownership_baseline_target_mismatch'')
          else case st_target s of
            None \<Rightarrow> Some (OperationStateError ''target_not_bound'')
          | Some t \<Rightarrow> first_error
              [throw_state (\<not> baseline_target_agrees (ar_kind a) t (bl_target (ob_baseline b)))
                 ''ownership_baseline_target_mismatch'',
               throw_state (ar_outcome a \<noteq> None \<and> ar_outcome a \<noteq> Some Satisfied
                   \<and> \<not> (ar_kind a = Work_steer \<and> ar_outcome a = Some Not_satisfied))
                 ''ownership_baseline_action_unproven'',
               throw_state (ob_observedAt b < ar_intentAt a) ''ownership_baseline_before_action'']))"

definition assertPreparedActionBaselineIdentity ::
  "action_intent \<Rightarrow> operation_baseline \<Rightarrow> operation_state \<Rightarrow> check" where
  "assertPreparedActionBaselineIdentity a b s = first_error
     [throw_state (ai_kind a \<noteq> Send \<and> ai_kind a \<noteq> Work_steer) ''action_prepared_kind_invalid'',
      throw_state (ob_actionId b \<noteq> ai_actionId a) ''action_prepared_action_mismatch'',
      throw_state (ob_operationId b \<noteq> st_operationId s \<or> ob_requestDigest b \<noteq> st_requestDigest s)
        ''ownership_baseline_identity_mismatch'',
      throw_state (ai_targetDigest a \<noteq> Some (ob_targetBindingDigest b))
        ''ownership_baseline_target_mismatch'']"

text \<open>\<open>state.ownershipBaselines ?? {}\<close> and its siblings.\<close>

definition or_empty :: "'v obj option \<Rightarrow> 'v obj" where
  "or_empty x = (case x of None \<Rightarrow> [] | Some ob \<Rightarrow> ob)"

definition baseline_of :: "operation_state \<Rightarrow> string \<Rightarrow> operation_baseline option" where
  "baseline_of s k = obj_get (or_empty (st_ownershipBaselines s)) k"

definition witness_of :: "operation_state \<Rightarrow> string \<Rightarrow> submission_witness option" where
  "witness_of s k = obj_get (or_empty (st_submissionWitnesses s)) k"

definition is_send_action :: "operation_state \<Rightarrow> string \<Rightarrow> bool" where
  "is_send_action s k = (case obj_get (st_actions s) k of Some a \<Rightarrow> ar_kind a = Send | None \<Rightarrow> False)"

definition applyOwnershipBaseline :: "operation_state \<Rightarrow> operation_baseline \<Rightarrow> operation_state res" where
  "applyOwnershipBaseline s b = checked (first_error
     [validateOwnershipBaselineValues b s,
      throw_state (baseline_of s (ob_actionId b) \<noteq> None) ''ownership_baseline_duplicate'',
      throw_state (is_send_action s (ob_actionId b) \<and> st_ownershipBaseline s \<noteq> None)
        ''ownership_baseline_duplicate''])
     (s\<lparr>st_ownershipBaselines := Some (obj_set (or_empty (st_ownershipBaselines s)) (ob_actionId b) b),
        st_ownershipBaseline :=
          (if is_send_action s (ob_actionId b) \<and> st_ownershipBaseline s = None
           then Some b else st_ownershipBaseline s)\<rparr>)"

section \<open>Witnesses\<close>

definition witness_baseline :: "operation_state \<Rightarrow> submission_witness \<Rightarrow> operation_baseline option" where
  "witness_baseline s w = (case st_ownershipBaselines s of
     None \<Rightarrow> (case st_ownershipBaseline s of
        Some b \<Rightarrow> if ob_actionId b = sw_actionId w then Some b else None
      | None \<Rightarrow> None)
   | Some ob \<Rightarrow> obj_get ob (sw_actionId w))"

definition witness_action_check :: "submission_witness \<Rightarrow> operation_state \<Rightarrow> check" where
  "witness_action_check w s = (case obj_get (st_actions s) (sw_actionId w) of
     None \<Rightarrow> Some (OperationStateError ''submission_witness_action_missing'')
   | Some a \<Rightarrow> first_error
       [throw_state (ar_kind a \<noteq> sw_actionKind w) ''submission_witness_action_missing'',
        throw_state (ar_targetDigest a \<noteq> Some (sw_targetBindingDigest w)) ''submission_witness_target_mismatch'',
        throw_state (ar_outcome a = Some Not_satisfied \<or> ar_outcome a = Some Outcome_uncertain)
          ''submission_witness_action_unproven'',
        throw_state (sw_observedAt w < ar_intentAt a) ''submission_witness_before_action''])"

definition witness_baseline_check :: "submission_witness \<Rightarrow> operation_state \<Rightarrow> check" where
  "witness_baseline_check w s = (case witness_baseline s w of
     None \<Rightarrow> Some (OperationStateError ''ownership_baseline_missing'')
   | Some b \<Rightarrow> throw_state
       (ob_operationId b \<noteq> st_operationId s \<or> ob_requestDigest b \<noteq> st_requestDigest s
        \<or> ob_targetBindingDigest b \<noteq> sw_targetBindingDigest w \<or> ob_actionId b \<noteq> sw_actionId w
        \<or> bl_snapshotDigest (ob_baseline b) \<noteq> sw_baselineSnapshotDigest w) ''ownership_baseline_mismatch'')"

definition witness_establishment_check :: "submission_witness \<Rightarrow> target_binding \<Rightarrow> check" where
  "witness_establishment_check w t = when_some (tb_targetEstablishment t) (\<lambda>e.
     throw_state (te_causalSendActionId e = sw_actionId w \<and>
       (te_targetBindingDigest e \<noteq> sw_targetBindingDigest w
        \<or> te_userTurnEvidenceDigest e \<noteq> sw_operationUserEvidenceDigest w
        \<or> te_postSendDeltaDigest e \<noteq> Some (sw_postSendDeltaDigest w)
        \<or> (sw_userTurnId w \<noteq> None \<and> Some (te_userTurnId e) \<noteq> sw_userTurnId w)))
       ''submission_witness_establishment_mismatch'')"

definition validateSubmissionWitnessValues :: "submission_witness \<Rightarrow> operation_state \<Rightarrow> check" where
  "validateSubmissionWitnessValues w s = first_error
     [throw_state (sw_schemaVersion w \<noteq> OPERATION_SUBMISSION_WITNESS_SCHEMA_VERSION)
        ''unsupported_submission_witness'',
      assertOperationId (sw_actionId w),
      throw_state (sw_actionKind w \<noteq> Send \<and> sw_actionKind w \<noteq> Work_steer) ''invalid_submission_witness'',
      assertDigest (sw_targetBindingDigest w),
      assertDigest (sw_baselineSnapshotDigest w),
      assertDigest (sw_postSendDeltaDigest w),
      assertDigest (sw_operationUserEvidenceDigest w),
      when_some (sw_userTurnId w) assertStableIdentifier,
      assertTimestamp (sw_observedAt w),
      witness_action_check w s,
      (case st_target s of
         None \<Rightarrow> Some (OperationStateError ''target_not_bound'')
       | Some t \<Rightarrow> first_error
           [witness_baseline_check w s,
            throw_state (tb_targetLifecycle t = Some New_pending) ''new_target_establishment_required'',
            witness_establishment_check w t])]"

definition witness_projection_check :: "operation_state \<Rightarrow> check" where
  "witness_projection_check s = when_some (st_submissionWitness s) (\<lambda>w. first_error
     [assertSubmissionWitnessShape (enc_witness w),
      throw_state (sw_actionKind w \<noteq> Send) ''submission_witness_projection_mismatch'',
      validateSubmissionWitnessValues w s,
      when_some (st_submissionWitnesses s) (\<lambda>ws. case obj_get ws (sw_actionId w) of
          None \<Rightarrow> Some (OperationStateError ''submission_witness_projection_mismatch'')
        | Some p \<Rightarrow> assertSameCanonical ''submission_witness_projection_mismatch'' enc_witness p w)])"

definition send_witness_check :: "operation_state \<Rightarrow> submission_witness obj \<Rightarrow> check" where
  "send_witness_check s ws = (case filter (\<lambda>w. sw_actionKind w = Send) (obj_values ws) of
     [] \<Rightarrow> None
   | [w] \<Rightarrow> (case st_submissionWitness s of
        None \<Rightarrow> Some (OperationStateError ''submission_witness_projection_mismatch'')
      | Some p \<Rightarrow> assertSameCanonical ''submission_witness_projection_mismatch'' enc_witness p w)
   | _ \<Rightarrow> Some (OperationStateError ''submission_witness_duplicate_send''))"

definition validateSubmissionWitnessCollection :: "operation_state \<Rightarrow> check" where
  "validateSubmissionWitnessCollection s = first_error
     [when_some (st_submissionWitnesses s) (\<lambda>ws. first_error
        (assertSubmissionWitnessesMapShape (enc_dict enc_witness ws) #
         map (\<lambda>(k, w). first_error
           [throw_state (sw_actionId w \<noteq> k) ''submission_witness_map_mismatch'',
            validateSubmissionWitnessValues w s]) ws)),
      witness_projection_check s,
      when_some (st_submissionWitnesses s) (send_witness_check s)]"

definition existing_witnesses :: "operation_state \<Rightarrow> submission_witness obj" where
  "existing_witnesses s = (case st_submissionWitnesses s of
     Some ws \<Rightarrow> ws
   | None \<Rightarrow> (case st_submissionWitness s of None \<Rightarrow> [] | Some w \<Rightarrow> [(sw_actionId w, w)]))"

text \<open>
  The witness's \<open>actionId\<close> is not yet checked when it is looked up: an inherited member is
  handed to \<open>canonicalJson\<close>, which rejects a function and \<open>Object.prototype\<close> alike.
\<close>

definition inherited_member_error :: "string \<Rightarrow> js_error" where
  "inherited_member_error k =
     (if k = ''__proto__''
      then TypeError ''Canonical JSON supports only enumerable own data properties.''
      else TypeError ''Canonical JSON does not support function values.'')"

definition add_witness ::
  "operation_state \<Rightarrow> submission_witness obj \<Rightarrow> submission_witness \<Rightarrow> operation_state res" where
  "add_witness s existing w =
     (let candidate = s\<lparr>st_submissionWitnesses := Some (obj_set existing (sw_actionId w) w)\<rparr> in
      checked (first_error
        [throw_state (length (obj_keys existing) \<ge> MAX_SUBMISSION_WITNESSES) ''submission_witness_limit'',
         validateSubmissionWitnessValues w candidate,
         (if sw_actionKind w = Send then when_some (st_submissionWitness s) (\<lambda>p.
            assertSameCanonical ''submission_witness_projection_mismatch'' enc_witness p w)
          else None)])
        (if sw_actionKind w = Send then candidate\<lparr>st_submissionWitness := Some w\<rparr> else candidate))"

definition applySubmissionWitness :: "operation_state \<Rightarrow> submission_witness \<Rightarrow> operation_state res" where
  "applySubmissionWitness s w =
     (let existing = existing_witnesses s in
      case first_error
        [assertSubmissionWitnessesMapShape (enc_dict enc_witness existing),
         validateSubmissionWitnessCollection (s\<lparr>st_submissionWitnesses := Some existing\<rparr>)] of
        Some e \<Rightarrow> Inl e
      | None \<Rightarrow> (case dict_lookup existing (sw_actionId w) of
          Inherited \<Rightarrow> Inl (inherited_member_error (sw_actionId w))
        | Own w0 \<Rightarrow> checked (assertSameCanonical ''submission_witness_conflict'' enc_witness w0 w)
            (s\<lparr>st_submissionWitnesses := Some existing\<rparr>)
        | Absent \<Rightarrow> add_witness s existing w))"

section \<open>The durable proof of the original Send\<close>

definition send_actions :: "operation_state \<Rightarrow> action_record list" where
  "send_actions s = filter (\<lambda>a. ar_kind a = Send) (obj_values (st_actions s))"

definition send_proof_mismatch ::
  "operation_state \<Rightarrow> action_record \<Rightarrow> operation_baseline \<Rightarrow> submission_witness \<Rightarrow> bool" where
  "send_proof_mismatch s a b w \<longleftrightarrow>
     ob_actionId b \<noteq> ar_actionId a \<or> ob_operationId b \<noteq> st_operationId s
     \<or> ob_requestDigest b \<noteq> st_requestDigest s \<or> Some (ob_targetBindingDigest b) \<noteq> ar_targetDigest a
     \<or> sw_actionId w \<noteq> ar_actionId a \<or> sw_actionKind w \<noteq> Send
     \<or> Some (sw_targetBindingDigest w) \<noteq> ar_targetDigest a
     \<or> sw_baselineSnapshotDigest w \<noteq> bl_snapshotDigest (ob_baseline b)"

definition send_projection_check ::
  "operation_state \<Rightarrow> operation_baseline \<Rightarrow> submission_witness \<Rightarrow> check" where
  "send_projection_check s b w = (case st_ownershipBaseline s of
     None \<Rightarrow> Some (OperationStateError ''submission_ownership_projection_mismatch'')
   | Some pb \<Rightarrow> first_error
       [assertSameCanonical ''submission_ownership_projection_mismatch'' enc_baseline pb b,
        (case st_submissionWitness s of
           None \<Rightarrow> Some (OperationStateError ''submission_ownership_projection_mismatch'')
         | Some pw \<Rightarrow> assertSameCanonical ''submission_ownership_projection_mismatch'' enc_witness pw w)])"

definition requireDurableOriginalSendOwnership :: "operation_state \<Rightarrow> check" where
  "requireDurableOriginalSendOwnership s = (case send_actions s of
     [a] \<Rightarrow>
       (if ar_outcome a \<noteq> Some Satisfied then Some (OperationStateError ''operation_state_inconsistent'')
        else case baseline_of s (ar_actionId a) of
          None \<Rightarrow> Some (OperationStateError ''ownership_baseline_missing'')
        | Some b \<Rightarrow> (case witness_of s (ar_actionId a) of
            None \<Rightarrow> Some (OperationStateError ''submission_witness_missing'')
          | Some w \<Rightarrow> first_error
              [throw_state (send_proof_mismatch s a b w) ''submission_ownership_mismatch'',
               send_projection_check s b w]))
   | _ \<Rightarrow> Some (OperationStateError ''operation_state_inconsistent''))"

section \<open>Facts\<close>

lemma or_empty_simps [simp]: "or_empty None = []" "or_empty (Some ob) = ob"
  by (simp_all add: or_empty_def)

lemma requireDurable_None:
  assumes "requireDurableOriginalSendOwnership s = None"
  obtains a b w where "send_actions s = [a]" "ar_outcome a = Some Satisfied"
    "baseline_of s (ar_actionId a) = Some b" "witness_of s (ar_actionId a) = Some w"
    "\<not> send_proof_mismatch s a b w" "send_projection_check s b w = None"
  using assms
  by (auto simp: requireDurableOriginalSendOwnership_def split: list.splits option.splits if_splits)

lemma validateOwnershipBaselineValues_None:
  assumes "validateOwnershipBaselineValues b s = None"
  obtains a t where "ob_operationId b = st_operationId s" "ob_requestDigest b = st_requestDigest s"
    "obj_get (st_actions s) (ob_actionId b) = Some a" "ar_kind a = Send \<or> ar_kind a = Work_steer"
    "ar_targetDigest a = Some (ob_targetBindingDigest b)" "st_target s = Some t"
    "baseline_target_agrees (ar_kind a) t (bl_target (ob_baseline b))"
    "ar_outcome a = None \<or> ar_outcome a = Some Satisfied \<or> ar_kind a = Work_steer \<and> ar_outcome a = Some Not_satisfied"
    "\<not> ob_observedAt b < ar_intentAt a"
  using assms
  by (auto simp: validateOwnershipBaselineValues_def split: option.splits if_splits)

lemma applyOwnershipBaseline_Inr:
  assumes "applyOwnershipBaseline s b = Inr s'"
  shows "validateOwnershipBaselineValues b s = None" "baseline_of s (ob_actionId b) = None"
    "is_send_action s (ob_actionId b) \<Longrightarrow> st_ownershipBaseline s = None"
    "s' = s\<lparr>st_ownershipBaselines := Some (obj_set (or_empty (st_ownershipBaselines s)) (ob_actionId b) b),
        st_ownershipBaseline :=
          (if is_send_action s (ob_actionId b) then Some b else st_ownershipBaseline s)\<rparr>"
  using assms by (auto simp: applyOwnershipBaseline_def)

lemma witness_values_None:
  assumes "validateSubmissionWitnessValues w s = None"
  obtains a t b where "obj_get (st_actions s) (sw_actionId w) = Some a" "ar_kind a = sw_actionKind w"
    "sw_actionKind w = Send \<or> sw_actionKind w = Work_steer"
    "ar_targetDigest a = Some (sw_targetBindingDigest w)"
    "ar_outcome a \<noteq> Some Not_satisfied" "ar_outcome a \<noteq> Some Outcome_uncertain"
    "\<not> sw_observedAt w < ar_intentAt a" "st_target s = Some t" "witness_baseline s w = Some b"
    "bl_snapshotDigest (ob_baseline b) = sw_baselineSnapshotDigest w"
    "tb_targetLifecycle t \<noteq> Some New_pending" "witness_establishment_check w t = None"
    "UUID_PATTERN (sw_actionId w)"
  using assms
  by (auto simp: validateSubmissionWitnessValues_def witness_action_check_def witness_baseline_check_def
      split: option.splits)

lemma applySubmissionWitness_cases:
  assumes "applySubmissionWitness s w = Inr s'"
  obtains (same) w0 where "obj_get (existing_witnesses s) (sw_actionId w) = Some w0"
      "assertSameCanonical ''submission_witness_conflict'' enc_witness w0 w = None"
      "s' = s\<lparr>st_submissionWitnesses := Some (existing_witnesses s)\<rparr>"
  | (new) "obj_get (existing_witnesses s) (sw_actionId w) = None"
      "length (obj_keys (existing_witnesses s)) < MAX_SUBMISSION_WITNESSES"
      "validateSubmissionWitnessValues w
         (s\<lparr>st_submissionWitnesses := Some (obj_set (existing_witnesses s) (sw_actionId w) w)\<rparr>) = None"
      "s' = s\<lparr>st_submissionWitnesses := Some (obj_set (existing_witnesses s) (sw_actionId w) w),
             st_submissionWitness := (if sw_actionKind w = Send then Some w else st_submissionWitness s)\<rparr>"
  using assms
  by (auto simp: applySubmissionWitness_def add_witness_def Let_def dict_lookup_Absent
      split: option.splits lookup.splits if_splits)

lemma applySubmissionWitness_checked:
  assumes "applySubmissionWitness s w = Inr s'"
  shows "validateSubmissionWitnessCollection (s\<lparr>st_submissionWitnesses := Some (existing_witnesses s)\<rparr>) = None"
  using assms by (auto simp: applySubmissionWitness_def Let_def split: option.splits)

end
