(* ===== verification/Op_Transfer.thy ===== *)
theory Op_Transfer
  imports Op_Ownership
begin

text \<open>
  Durable artifact transfers (\<open>operations/state-machine.ts\<close>): the intent and the receipt of
  one transfer, each with its generic \<open>local_output_commit\<close> action, and the validation of
  persisted transfer records.
\<close>

section \<open>Identity of a transfer\<close>

record transfer_identity =
  id_operationId :: string
  id_requestDigest :: string
  id_targetBindingDigest :: string
  id_assistantTurnId :: string
  id_sourceIdentityDigest :: string
  id_kind :: artifact_kind
  id_ordinal :: int
  id_transferActionId :: string
  id_destinationIdentityDigest :: string

definition identity_of_intent :: "transfer_intent \<Rightarrow> transfer_identity" where
  "identity_of_intent i =
     \<lparr>id_operationId = ti_operationId i, id_requestDigest = ti_requestDigest i,
      id_targetBindingDigest = ti_targetBindingDigest i, id_assistantTurnId = ti_assistantTurnId i,
      id_sourceIdentityDigest = ti_sourceIdentityDigest i, id_kind = ti_kind i,
      id_ordinal = ti_ordinal i, id_transferActionId = ti_transferActionId i,
      id_destinationIdentityDigest = ti_destinationIdentityDigest i\<rparr>"

definition identity_of_receipt :: "transfer_receipt \<Rightarrow> transfer_identity" where
  "identity_of_receipt r =
     \<lparr>id_operationId = tr_operationId r, id_requestDigest = tr_requestDigest r,
      id_targetBindingDigest = tr_targetBindingDigest r, id_assistantTurnId = tr_assistantTurnId r,
      id_sourceIdentityDigest = tr_sourceIdentityDigest r, id_kind = tr_kind r,
      id_ordinal = tr_ordinal r, id_transferActionId = tr_transferActionId r,
      id_destinationIdentityDigest = tr_destinationIdentityDigest r\<rparr>"

definition original_send_target :: "operation_state \<Rightarrow> string option" where
  "original_send_target s = (case send_actions s of [] \<Rightarrow> None | a # _ \<Rightarrow> ar_targetDigest a)"

definition artifact_kind_ok :: "artifact_kind \<Rightarrow> bool" where
  "artifact_kind_ok k \<longleftrightarrow> k = File_artifact \<or> k = Image_artifact \<or> k = Other_artifact"

definition natural :: "int \<Rightarrow> bool" where
  "natural n \<longleftrightarrow> is_safe_integer n \<and> 0 \<le> n"

definition validateArtifactTransferIdentityValues :: "transfer_identity \<Rightarrow> operation_state \<Rightarrow> check" where
  "validateArtifactTransferIdentityValues v s = first_error
     [throw_state (id_operationId v \<noteq> st_operationId s \<or> id_requestDigest v \<noteq> st_requestDigest s)
        ''artifact_transfer_identity_mismatch'',
      throw_state (st_target s = None) ''target_not_bound'',
      throw_state (original_send_target s \<noteq> Some (id_targetBindingDigest v))
        ''artifact_transfer_target_mismatch'',
      assertDigest (id_targetBindingDigest v),
      assertStableIdentifier (id_assistantTurnId v),
      assertDigest (id_sourceIdentityDigest v),
      throw_state (\<not> artifact_kind_ok (id_kind v)) ''artifact_transfer_kind_invalid'',
      throw_state (\<not> natural (id_ordinal v)) ''artifact_transfer_ordinal_invalid'',
      assertOperationId (id_transferActionId v),
      assertDigest (id_destinationIdentityDigest v)]"

section \<open>Values of the records\<close>

definition validateArtifactTransferIntentValues :: "transfer_intent \<Rightarrow> operation_state \<Rightarrow> check" where
  "validateArtifactTransferIntentValues i s = first_error
     [throw_state (ti_schemaVersion i \<noteq> OPERATION_ARTIFACT_TRANSFER_INTENT_SCHEMA_VERSION)
        ''artifact_transfer_intent_schema_invalid'',
      throw_state (ti_actionKind i \<noteq> Local_output_commit \<or> ti_repeatPolicy i \<noteq> Reconcile_local_effect)
        ''artifact_transfer_action_policy_invalid'',
      assertTimestamp (ti_intentAt i),
      validateArtifactTransferIdentityValues (identity_of_intent i) s]"

definition validateArtifactTransferReceiptValues ::
  "transfer_receipt \<Rightarrow> transfer_intent \<Rightarrow> operation_state \<Rightarrow> check" where
  "validateArtifactTransferReceiptValues r i s = first_error
     [throw_state (tr_schemaVersion r \<noteq> OPERATION_ARTIFACT_TRANSFER_RECEIPT_SCHEMA_VERSION)
        ''artifact_transfer_receipt_schema_invalid'',
      validateArtifactTransferIdentityValues (identity_of_receipt r) s,
      throw_state (identity_of_receipt r \<noteq> identity_of_intent i) ''artifact_transfer_identity_mismatch'',
      when_some (tr_outputKey r) (\<lambda>k. throw_state (\<not> TRANSFER_OUTPUT_KEY_PATTERN k)
        ''artifact_transfer_output_key_invalid''),
      when_some (tr_bytes r) (\<lambda>n. throw_state (\<not> natural n) ''artifact_transfer_bytes_invalid''),
      when_some (tr_sha256 r) (\<lambda>h. throw_state (\<not> SHA256_PATTERN h) ''artifact_transfer_sha256_invalid''),
      when_some (tr_blockerCode r) (\<lambda>c. throw_state (\<not> CODE_PATTERN c) ''artifact_transfer_blocker_invalid''),
      throw_state (tr_status r \<noteq> Artifact_transferred \<and> tr_status r \<noteq> Artifact_partial
                   \<and> tr_status r \<noteq> Artifact_blocked) ''artifact_transfer_status_invalid'',
      throw_state (tr_status r = Artifact_transferred \<and>
          (tr_outputKey r = None \<or> tr_bytes r = None \<or> tr_sha256 r = None \<or> tr_blockerCode r \<noteq> None))
        ''artifact_transfer_receipt_incomplete'',
      throw_state (tr_status r \<noteq> Artifact_transferred \<and> tr_blockerCode r = None)
        ''artifact_transfer_blocker_missing'']"

definition artifactTransferTuple :: "transfer_intent \<Rightarrow> string res" where
  "artifactTransferTuple i = canonicalJson (enc_rec
     [(''operationId'', js (ti_operationId i)),
      (''requestDigest'', js (ti_requestDigest i)),
      (''targetBindingDigest'', js (ti_targetBindingDigest i)),
      (''assistantTurnId'', js (ti_assistantTurnId i)),
      (''sourceIdentityDigest'', js (ti_sourceIdentityDigest i)),
      (''kind'', js (artifact_kind_text (ti_kind i))),
      (''ordinal'', jn (ti_ordinal i)),
      (''destinationIdentityDigest'', js (ti_destinationIdentityDigest i))])"

section \<open>Intent\<close>

text \<open>The loop over the earlier transfers.\<close>

definition tuple_check :: "string \<Rightarrow> transfer_state obj \<Rightarrow> check" where
  "tuple_check tuple ts = first_error (map (\<lambda>t. case artifactTransferTuple (ts_intent t) of
       Inl e \<Rightarrow> Some e
     | Inr u \<Rightarrow> throw_state (u = tuple) ''artifact_transfer_duplicate_tuple'') (obj_values ts))"

definition transfer_action :: "transfer_intent \<Rightarrow> action_intent" where
  "transfer_action i =
     \<lparr>ai_actionId = ti_transferActionId i, ai_kind = Local_output_commit,
      ai_repeatPolicy = Reconcile_local_effect, ai_requestDigest = ti_requestDigest i,
      ai_parentActionId = None, ai_targetDigest = Some (ti_targetBindingDigest i)\<rparr>"

definition artifacts_policy_of :: "operation_state \<Rightarrow> artifacts_policy option" where
  "artifacts_policy_of s = map_option cp_artifacts (st_capturePolicy s)"

definition applyArtifactTransferIntent ::
  "operation_state \<Rightarrow> transfer_intent \<Rightarrow> int \<Rightarrow> operation_state res" where
  "applyArtifactTransferIntent s i revision =
     (let ts = or_empty (st_artifactTransfers s) in
      case first_error
        [throw_state (artifacts_policy_of s \<noteq> Some Transfer) ''artifact_transfer_policy_mismatch'',
         throw_state (st_phase s \<noteq> Capturing) ''artifact_transfer_phase_invalid'',
         validateArtifactTransferIntentValues i s,
         assertArtifactTransfersStateShape (enc_dict enc_transfer_state ts),
         throw_state (obj_get ts (ti_transferActionId i) \<noteq> None) ''artifact_transfer_intent_duplicate''] of
        Some e \<Rightarrow> Inl e
      | None \<Rightarrow>
          bind_res (artifactTransferTuple i) (\<lambda>tuple.
          case tuple_check tuple ts of
            Some e \<Rightarrow> Inl e
          | None \<Rightarrow>
              bind_res (applyActionIntent s (transfer_action i) revision (ti_intentAt i)) (\<lambda>s1.
              Inr (s1\<lparr>st_artifactTransfers :=
                Some (obj_set ts (ti_transferActionId i) \<lparr>ts_intent = i, ts_receipt = None\<rparr>)\<rparr>))))"

section \<open>Receipt\<close>

definition transfer_outcome :: "transfer_receipt \<Rightarrow> action_outcome" where
  "transfer_outcome r =
     (if tr_status r = Artifact_transferred then Satisfied
      else if tr_status r = Artifact_blocked \<and> tr_blockerCode r = Some ''output_collision'' then Not_satisfied
      else Outcome_uncertain)"

definition transfer_action_receipt :: "transfer_receipt \<Rightarrow> action_receipt" where
  "transfer_action_receipt r =
     \<lparr>rc_actionId = tr_transferActionId r, rc_outcome = transfer_outcome r,
      rc_evidenceDigest = (if tr_status r = Artifact_transferred
        then Some (tr_destinationIdentityDigest r) else None),
      rc_blockerCode = tr_blockerCode r, rc_observedAt = tr_observedAt r\<rparr>"

definition applyArtifactTransferReceipt ::
  "operation_state \<Rightarrow> transfer_receipt \<Rightarrow> int \<Rightarrow> operation_state res" where
  "applyArtifactTransferReceipt s r revision =
     (let ts = or_empty (st_artifactTransfers s) in
      case first_error
        [throw_state (st_phase s \<noteq> Capturing) ''artifact_transfer_phase_invalid'',
         assertArtifactTransfersStateShape (enc_dict enc_transfer_state ts)] of
        Some e \<Rightarrow> Inl e
      | None \<Rightarrow> (case obj_get ts (tr_transferActionId r) of
          None \<Rightarrow> Inl (OperationStateError ''artifact_transfer_intent_missing'')
        | Some t \<Rightarrow> (case first_error
            [throw_state (ts_receipt t \<noteq> None) ''artifact_transfer_receipt_duplicate'',
             validateArtifactTransferReceiptValues r (ts_intent t) s,
             throw_state (tr_observedAt r < ti_intentAt (ts_intent t))
               ''artifact_transfer_timestamp_regression''] of
            Some e \<Rightarrow> Inl e
          | None \<Rightarrow>
              bind_res (applyActionReceipt s (transfer_action_receipt r) revision) (\<lambda>s1.
              Inr (s1\<lparr>st_artifactTransfers :=
                Some (obj_set ts (tr_transferActionId r)
                        \<lparr>ts_intent = ts_intent t, ts_receipt = Some r\<rparr>)\<rparr>)))))"

section \<open>A persisted transfer\<close>

definition transfer_receipt_record_check ::
  "transfer_receipt \<Rightarrow> transfer_intent \<Rightarrow> action_record \<Rightarrow> operation_state \<Rightarrow> check" where
  "transfer_receipt_record_check r i a s = first_error
     [validateArtifactTransferReceiptValues r i s,
      throw_state (tr_observedAt r < ti_intentAt i) ''artifact_transfer_timestamp_regression'',
      throw_state (ar_outcome a \<noteq> Some (transfer_outcome r) \<or> ar_receiptAt a \<noteq> Some (tr_observedAt r))
        ''artifact_transfer_action_mismatch'',
      throw_state (transfer_outcome r = Satisfied
          \<and> ar_evidenceDigest a \<noteq> Some (tr_destinationIdentityDigest r)) ''artifact_transfer_action_mismatch'',
      throw_state (transfer_outcome r \<noteq> Satisfied \<and> ar_blockerCode a \<noteq> tr_blockerCode r)
        ''artifact_transfer_action_mismatch'']"

definition transfer_action_agrees :: "transfer_intent \<Rightarrow> action_record \<Rightarrow> bool" where
  "transfer_action_agrees i a \<longleftrightarrow> ar_kind a = Local_output_commit
     \<and> ar_repeatPolicy a = Reconcile_local_effect \<and> ar_requestDigest a = ti_requestDigest i
     \<and> ar_targetDigest a = Some (ti_targetBindingDigest i) \<and> ar_intentAt a = ti_intentAt i"

definition validateArtifactTransferStateValues ::
  "string \<Rightarrow> transfer_state \<Rightarrow> operation_state \<Rightarrow> check" where
  "validateArtifactTransferStateValues k t s = first_error
     [throw_state (ti_transferActionId (ts_intent t) \<noteq> k) ''artifact_transfer_map_mismatch'',
      validateArtifactTransferIntentValues (ts_intent t) s,
      (case obj_get (st_actions s) k of
         None \<Rightarrow> Some (OperationStateError ''artifact_transfer_action_mismatch'')
       | Some a \<Rightarrow> first_error
           [throw_state (\<not> transfer_action_agrees (ts_intent t) a) ''artifact_transfer_action_mismatch'',
            (case ts_receipt t of
               None \<Rightarrow> throw_state (ar_outcome a \<noteq> None) ''artifact_transfer_action_mismatch''
             | Some r \<Rightarrow> transfer_receipt_record_check r (ts_intent t) a s)])]"

section \<open>Facts\<close>

lemma applyArtifactTransferIntent_Inr:
  assumes "applyArtifactTransferIntent s i rv = Inr s'"
  obtains s1 tuple where "artifacts_policy_of s = Some Transfer" "st_phase s = Capturing"
    "validateArtifactTransferIntentValues i s = None"
    "assertArtifactTransfersStateShape (enc_dict enc_transfer_state (or_empty (st_artifactTransfers s))) = None"
    "obj_get (or_empty (st_artifactTransfers s)) (ti_transferActionId i) = None"
    "artifactTransferTuple i = Inr tuple" "tuple_check tuple (or_empty (st_artifactTransfers s)) = None"
    "applyActionIntent s (transfer_action i) rv (ti_intentAt i) = Inr s1"
    "s' = s1\<lparr>st_artifactTransfers := Some (obj_set (or_empty (st_artifactTransfers s))
              (ti_transferActionId i) \<lparr>ts_intent = i, ts_receipt = None\<rparr>)\<rparr>"
  using assms
  by (auto simp: applyArtifactTransferIntent_def Let_def bind_res_Inr split: option.splits)

lemma applyArtifactTransferReceipt_Inr:
  assumes "applyArtifactTransferReceipt s r rv = Inr s'"
  obtains t s1 where "st_phase s = Capturing"
    "obj_get (or_empty (st_artifactTransfers s)) (tr_transferActionId r) = Some t" "ts_receipt t = None"
    "validateArtifactTransferReceiptValues r (ts_intent t) s = None"
    "\<not> tr_observedAt r < ti_intentAt (ts_intent t)"
    "applyActionReceipt s (transfer_action_receipt r) rv = Inr s1"
    "s' = s1\<lparr>st_artifactTransfers := Some (obj_set (or_empty (st_artifactTransfers s))
              (tr_transferActionId r) \<lparr>ts_intent = ts_intent t, ts_receipt = Some r\<rparr>)\<rparr>"
  using assms
  by (auto simp: applyArtifactTransferReceipt_def Let_def bind_res_Inr split: option.splits)

lemma transfer_action_fields [simp]:
  "ai_actionId (transfer_action i) = ti_transferActionId i"
  "ai_kind (transfer_action i) = Local_output_commit"
  by (simp_all add: transfer_action_def)

lemma transfer_action_receipt_fields [simp]:
  "rc_actionId (transfer_action_receipt r) = tr_transferActionId r"
  "rc_observedAt (transfer_action_receipt r) = tr_observedAt r"
  "rc_outcome (transfer_action_receipt r) = transfer_outcome r"
  "rc_blockerCode (transfer_action_receipt r) = tr_blockerCode r"
  by (simp_all add: transfer_action_receipt_def)

end
