(* ===== verification/Op_Receipt.thy ===== *)
theory Op_Receipt
  imports Op_Transfer
begin

text \<open>
  The terminal receipt (\<open>operations/state-machine.ts\<close>): \<open>validateReceiptValues\<close> with its loop
  over the artifact receipts, the reconciliation of the receipt with the durable transfers
  (\<open>validateTerminalArtifactCapturePolicy\<close>), \<open>applyCompletedReceipt\<close>, and
  \<open>validateBlockerObservation\<close>.
\<close>

definition validateBlockerObservation :: "blocker_observation \<Rightarrow> check" where
  "validateBlockerObservation b = first_error
     [throw_state (\<not> CODE_PATTERN (bo_code b)) ''invalid_blocker_code'',
      assertDigest (bo_messageDigest b),
      assertTimestamp (bo_observedAt b)]"

section \<open>Artifact receipts\<close>

definition artifact_status_ok :: "artifact_status \<Rightarrow> bool" where
  "artifact_status_ok x \<longleftrightarrow> x = Artifact_available \<or> x = Artifact_transferred
     \<or> x = Artifact_partial \<or> x = Artifact_blocked"

definition artifact_check ::
  "operation_receipt \<Rightarrow> string list \<Rightarrow> int list \<Rightarrow> artifact_receipt \<Rightarrow> check" where
  "artifact_check r keys ordinals a = first_error
     [throw_state (af_schemaVersion a \<noteq> OPERATION_ARTIFACT_RECEIPT_SCHEMA_VERSION)
        ''unsupported_artifact_receipt'',
      throw_state (af_operationId a \<noteq> rp_operationId r) ''artifact_operation_mismatch'',
      throw_state (af_assistantTurnId a \<noteq> rp_assistantTurnId r) ''artifact_turn_mismatch'',
      throw_state (\<not> ARTIFACT_KEY_PATTERN (af_artifactKey a) \<or> af_artifactKey a \<in> set keys)
        ''artifact_key_invalid'',
      assertDigest (af_sourceIdentityDigest a),
      throw_state (\<not> artifact_kind_ok (af_kind a)) ''artifact_kind_invalid'',
      throw_state (\<not> artifact_status_ok (af_status a)) ''artifact_status_invalid'',
      throw_state (\<not> is_safe_integer (af_ordinal a) \<or> af_ordinal a < 0
                   \<or> af_ordinal a \<ge> MAX_ARTIFACTS \<or> af_ordinal a \<in> set ordinals)
        ''artifact_ordinal_invalid'',
      when_some (af_outputKey a) (\<lambda>k. throw_state (\<not> isSafeRelativeOutputKey k)
        ''artifact_output_key_invalid''),
      when_some (af_mimeType a) (\<lambda>m. throw_state (\<not> MIME_PATTERN m) ''artifact_mime_type_invalid''),
      when_some (af_bytes a) (\<lambda>n. throw_state (\<not> natural n) ''artifact_bytes_invalid''),
      when_some (af_sha256 a) (\<lambda>h. throw_state (\<not> SHA256_PATTERN h) ''artifact_digest_invalid''),
      when_some (af_blockerCode a) (\<lambda>c. throw_state (\<not> CODE_PATTERN c) ''artifact_blocker_invalid''),
      throw_state (af_status a = Artifact_transferred \<and>
          (af_outputKey a = None \<or> af_bytes a = None \<or> af_sha256 a = None))
        ''artifact_transfer_receipt_incomplete'',
      throw_state ((af_status a = Artifact_partial \<or> af_status a = Artifact_blocked)
          \<and> af_blockerCode a = None) ''artifact_blocker_missing'',
      throw_state ((af_status a = Artifact_available \<or> af_status a = Artifact_transferred)
          \<and> af_blockerCode a \<noteq> None) ''artifact_blocker_unexpected'']"

fun artifacts_loop ::
  "operation_receipt \<Rightarrow> string list \<Rightarrow> int list \<Rightarrow> artifact_receipt list \<Rightarrow> check" where
  "artifacts_loop r keys ordinals [] = None"
| "artifacts_loop r keys ordinals (a # as) = first_error
     [artifact_check r keys ordinals a,
      artifacts_loop r (af_artifactKey a # keys) (af_ordinal a # ordinals) as]"

section \<open>Reconciliation with the durable transfers\<close>

definition artifact_identity :: "string \<Rightarrow> string \<Rightarrow> string \<Rightarrow> artifact_kind \<Rightarrow> int \<Rightarrow> string res" where
  "artifact_identity opId turn src kind ord = canonicalJson (enc_rec
     [(''operationId'', js opId), (''assistantTurnId'', js turn), (''sourceIdentityDigest'', js src),
      (''kind'', js (artifact_kind_text kind)), (''ordinal'', jn ord)])"

definition artifactReceiptIdentity :: "artifact_receipt \<Rightarrow> string res" where
  "artifactReceiptIdentity a = artifact_identity (af_operationId a) (af_assistantTurnId a)
     (af_sourceIdentityDigest a) (af_kind a) (af_ordinal a)"

definition artifactTransferArtifactIdentity :: "transfer_intent \<Rightarrow> string res" where
  "artifactTransferArtifactIdentity i = artifact_identity (ti_operationId i) (ti_assistantTurnId i)
     (ti_sourceIdentityDigest i) (ti_kind i) (ti_ordinal i)"

definition assertTerminalArtifactMatchesTransfer :: "artifact_receipt \<Rightarrow> transfer_receipt \<Rightarrow> check" where
  "assertTerminalArtifactMatchesTransfer a r = throw_state
     (af_status a \<noteq> tr_status r \<or> af_outputKey a \<noteq> tr_outputKey r \<or> af_bytes a \<noteq> tr_bytes r
      \<or> af_sha256 a \<noteq> tr_sha256 r \<or> af_blockerCode a \<noteq> tr_blockerCode r)
     ''artifact_transfer_receipt_mismatch''"

text \<open>The map \<open>transferByArtifact\<close>, built from the durable transfers.\<close>

fun transfer_map_loop :: "(string \<times> transfer_receipt) list \<Rightarrow> transfer_state list
    \<Rightarrow> (string \<times> transfer_receipt) list res" where
  "transfer_map_loop m [] = Inr m"
| "transfer_map_loop m (t # ts) = (case ts_receipt t of
     None \<Rightarrow> Inl (OperationStateError ''artifact_transfer_unsettled'')
   | Some r \<Rightarrow> bind_res (artifactTransferArtifactIdentity (ts_intent t)) (\<lambda>k.
       if map_of m k \<noteq> None then Inl (OperationStateError ''artifact_transfer_duplicate_artifact'')
       else transfer_map_loop (m @ [(k, r)]) ts))"

text \<open>The loop over the artifacts of the receipt; its value is the set of identities seen.\<close>

fun receipt_identities_loop :: "(string \<times> transfer_receipt) list \<Rightarrow> string list \<Rightarrow> artifact_receipt list
    \<Rightarrow> string list res" where
  "receipt_identities_loop m seen [] = Inr seen"
| "receipt_identities_loop m seen (a # as) =
     (if af_status a = Artifact_available
      then Inl (OperationStateError ''artifact_transfer_unsettled'')
      else bind_res (artifactReceiptIdentity a) (\<lambda>k.
        if k \<in> set seen then Inl (OperationStateError ''artifact_transfer_duplicate_artifact'')
        else case map_of m k of
          None \<Rightarrow> Inl (OperationStateError ''artifact_transfer_intent_missing'')
        | Some r \<Rightarrow> (case assertTerminalArtifactMatchesTransfer a r of
            Some e \<Rightarrow> Inl e
          | None \<Rightarrow> receipt_identities_loop m (k # seen) as)))"

definition validateTerminalArtifactCapturePolicy :: "operation_receipt \<Rightarrow> operation_state \<Rightarrow> check" where
  "validateTerminalArtifactCapturePolicy r s =
     (let ts = obj_values (or_empty (st_artifactTransfers s)) in
      case artifacts_policy_of s of
        None \<Rightarrow> None
      | Some Receipt_only \<Rightarrow> first_error
          [throw_state (ts \<noteq> []) ''artifact_transfer_policy_mismatch'',
           throw_state (list_ex (\<lambda>a. af_status a \<noteq> Artifact_available \<or> af_outputKey a \<noteq> None)
               (rp_artifacts r)) ''artifact_transfer_policy_mismatch'']
      | Some Transfer \<Rightarrow> result_error
          (bind_res (transfer_map_loop [] ts) (\<lambda>m.
           bind_res (receipt_identities_loop m [] (rp_artifacts r)) (\<lambda>seen.
             if length m \<noteq> length seen
             then Inl (OperationStateError ''artifact_transfer_extra'') else Inr ())))
      | Some (Other_artifacts _) \<Rightarrow> Some (OperationStateError ''invalid_capture_policy''))"

section \<open>The receipt\<close>

definition receipt_send_check :: "operation_receipt \<Rightarrow> operation_state \<Rightarrow> check" where
  "receipt_send_check r s = (case send_actions s of
     [] \<Rightarrow> Some (OperationStateError ''receipt_target_mismatch'')
   | a # _ \<Rightarrow> first_error
       [throw_state (ar_targetDigest a \<noteq> Some (rp_targetBindingDigest r)) ''receipt_target_mismatch'',
        throw_state (ar_outcome a \<noteq> Some Satisfied) ''receipt_submission_unproven''])"

definition validateReceiptValues :: "operation_receipt \<Rightarrow> operation_state \<Rightarrow> check" where
  "validateReceiptValues r s = first_error
     [throw_state (rp_schemaVersion r \<noteq> OPERATION_RECEIPT_SCHEMA_VERSION) ''unsupported_operation_receipt'',
      when_some (st_capturePolicy s) (\<lambda>p. throw_state (rp_responseFormat r \<noteq> Some (cp_responseFormat p))
        ''receipt_capture_policy_mismatch''),
      assertOperationId (rp_operationId r),
      throw_state (rp_operationId r \<noteq> st_operationId s \<or> rp_requestDigest r \<noteq> st_requestDigest s)
        ''receipt_identity_mismatch'',
      assertDigest (rp_requestDigest r),
      assertDigest (rp_targetBindingDigest r),
      assertDigest (rp_userTurnEvidenceDigest r),
      assertDigest (rp_ownershipEvidenceDigest r),
      assertStableIdentifier (rp_userTurnId r),
      assertStableIdentifier (rp_assistantTurnId r),
      throw_state (\<not> FINISH_REASON_PATTERN (rp_finishReason r)) ''receipt_finish_reason_invalid'',
      throw_state ((rp_responseDigest r \<noteq> None) \<noteq> (rp_responseBytes r \<noteq> None)
          \<or> (rp_contentAvailable r \<and> rp_responseDigest r = None)) ''receipt_response_metadata_incomplete'',
      when_some (rp_responseDigest r) assertDigest,
      when_some (rp_responseBytes r) (\<lambda>n. throw_state (\<not> natural n) ''receipt_response_bytes_invalid''),
      assertTimestamp (rp_completedAt r),
      assertTimestampNotBefore (st_createdAt s) (rp_completedAt r),
      (if st_phase s = Completed then assertTimestampNotBefore (rp_completedAt r) (st_updatedAt s) else None),
      receipt_send_check r s,
      throw_state (int (length (rp_artifacts r)) > MAX_ARTIFACTS) ''receipt_artifacts_invalid'',
      artifacts_loop r [] [] (rp_artifacts r),
      validateTerminalArtifactCapturePolicy r s]"

definition applyCompletedReceipt ::
  "operation_state \<Rightarrow> operation_receipt \<Rightarrow> string \<Rightarrow> operation_state res" where
  "applyCompletedReceipt s r observedAt = checked (first_error
     [throw_state (st_phase s \<noteq> Capturing \<and> st_phase s \<noteq> Uncertain) ''receipt_phase_invalid'',
      throw_state (rp_operationId r \<noteq> st_operationId s \<or> rp_requestDigest r \<noteq> st_requestDigest s)
        ''receipt_identity_mismatch'',
      throw_state (st_receipt s \<noteq> None) ''duplicate_terminal_receipt'',
      (case st_target s of
         None \<Rightarrow> Some (OperationStateError ''target_not_bound'')
       | Some t \<Rightarrow> throw_state (tb_targetLifecycle t = Some New_pending) ''new_target_not_established''),
      requireDurableOriginalSendOwnership s,
      validateReceiptValues r s,
      assertTimestampNotBefore (rp_completedAt r) observedAt])
     (s\<lparr>st_phase := Completed, st_receipt := Some r\<rparr>)"

section \<open>Facts\<close>

lemma applyCompletedReceipt_Inr:
  assumes "applyCompletedReceipt s r at = Inr s'"
  shows "st_phase s = Capturing \<or> st_phase s = Uncertain" "st_receipt s = None"
    "rp_operationId r = st_operationId s" "rp_requestDigest r = st_requestDigest s"
    "\<exists>t. st_target s = Some t \<and> tb_targetLifecycle t \<noteq> Some New_pending"
    "requireDurableOriginalSendOwnership s = None" "validateReceiptValues r s = None"
    "\<not> at < rp_completedAt r" "s' = s\<lparr>st_phase := Completed, st_receipt := Some r\<rparr>"
  using assms by (auto simp: applyCompletedReceipt_def split: option.splits)

lemma artifacts_loop_None:
  "artifacts_loop r keys ordinals as = None \<Longrightarrow>
     distinct (map af_artifactKey as) \<and> set (map af_artifactKey as) \<inter> set keys = {} \<and>
     distinct (map af_ordinal as) \<and> set (map af_ordinal as) \<inter> set ordinals = {} \<and>
     (\<forall>a\<in>set as. \<exists>ks os. artifact_check r ks os a = None)"
proof (induction as arbitrary: keys ordinals)
  case (Cons a as)
  have a: "artifact_check r keys ordinals a = None"
    and rest: "artifacts_loop r (af_artifactKey a # keys) (af_ordinal a # ordinals) as = None"
    using Cons.prems by simp_all
  have "af_artifactKey a \<notin> set keys" "af_ordinal a \<notin> set ordinals"
    using a by (simp_all add: artifact_check_def)
  with Cons.IH [OF rest] a show ?case by auto
qed simp

lemma transfer_map_loop_Inr:
  "transfer_map_loop m ts = Inr m' \<Longrightarrow> distinct (map fst m) \<Longrightarrow>
     distinct (map fst m') \<and> length m' = length m + length ts \<and> set m \<subseteq> set m' \<and>
     (\<forall>t\<in>set ts. \<exists>k r. ts_receipt t = Some r \<and> artifactTransferArtifactIdentity (ts_intent t) = Inr k
                    \<and> (k, r) \<in> set m') \<and>
     (\<forall>(k, r)\<in>set m'. (k, r) \<in> set m \<or> (\<exists>t\<in>set ts. ts_receipt t = Some r
                    \<and> artifactTransferArtifactIdentity (ts_intent t) = Inr k))"
proof (induction ts arbitrary: m)
  case (Cons t ts)
  from Cons.prems(1) obtain r k where r: "ts_receipt t = Some r"
    and k: "artifactTransferArtifactIdentity (ts_intent t) = Inr k"
    and new: "map_of m k = None" and rest: "transfer_map_loop (m @ [(k, r)]) ts = Inr m'"
    by (auto simp: bind_res_Inr split: option.splits if_splits)
  have "distinct (map fst (m @ [(k, r)]))"
    using new Cons.prems(2) by (auto simp: map_of_eq_None_iff)
  from Cons.IH [OF rest this] r k show ?case
    by (auto simp: ball_Un)
qed auto

lemma receipt_identities_loop_Inr:
  "receipt_identities_loop m seen as = Inr seen' \<Longrightarrow> distinct seen \<Longrightarrow>
     distinct seen' \<and> length seen' = length seen + length as \<and> set seen \<subseteq> set seen' \<and>
     set seen' \<subseteq> set seen \<union> fst ` set m \<and>
     (\<forall>a\<in>set as. \<exists>k r. artifactReceiptIdentity a = Inr k \<and> k \<in> set seen' \<and> map_of m k = Some r \<and>
        assertTerminalArtifactMatchesTransfer a r = None)"
proof (induction as arbitrary: seen)
  case (Cons a as)
  from Cons.prems(1) obtain k r where k: "artifactReceiptIdentity a = Inr k" and n: "k \<notin> set seen"
    and r: "map_of m k = Some r" and mt: "assertTerminalArtifactMatchesTransfer a r = None"
    and rest: "receipt_identities_loop m (k # seen) as = Inr seen'"
    by (auto simp: bind_res_Inr split: option.splits if_splits)
  have km: "k \<in> fst ` set m" using r by (force dest: map_of_SomeD)
  have "distinct (k # seen)" using n Cons.prems(2) by simp
  from Cons.IH [OF rest this] k r mt km show ?case by auto
qed auto

end
