(* ===== verification/Op_Reducer.thy ===== *)
theory Op_Reducer
  imports Op_Receipt
begin

text \<open>
  The event-sourcing reducer of \<open>operations/state-machine.ts\<close>: phase changes and their
  causes (\<open>applyPhaseChange\<close>, \<open>assertCausalTransition\<close>), one event (\<open>applyOperationEvent\<close>),
  and a whole log (\<open>reduceOperationEvents\<close>). The step relation \<open>op_step\<close> and the reachable
  states \<open>op_reachable\<close> are what a journal can contain.
\<close>

section \<open>Causes of a phase change\<close>

definition cause_kind :: "action_record lookup \<Rightarrow> action_kind option" where
  "cause_kind c = (case c of Own a \<Rightarrow> Some (ar_kind a) | _ \<Rightarrow> None)"

definition cause_outcome :: "action_record lookup \<Rightarrow> action_outcome option" where
  "cause_outcome c = (case c of Own a \<Rightarrow> ar_outcome a | _ \<Rightarrow> None)"

definition cause_evidence :: "action_record lookup \<Rightarrow> string option" where
  "cause_evidence c = (case c of Own a \<Rightarrow> ar_evidenceDigest a | _ \<Rightarrow> None)"

definition requireCause :: "action_record lookup \<Rightarrow> action_kind \<Rightarrow> action_outcome option \<Rightarrow> check" where
  "requireCause c k x = throw_state
     (cause_kind c \<noteq> Some k \<or> (x \<noteq> None \<and> cause_outcome c \<noteq> x)) ''invalid_transition_cause''"

definition requireUnreceiptedCause :: "action_record lookup \<Rightarrow> action_kind \<Rightarrow> check" where
  "requireUnreceiptedCause c k = first_error
     [requireCause c k None,
      throw_state (cause_outcome c \<noteq> None) ''transition_cause_already_settled'']"

definition requireBoundary :: "mutation_boundary \<Rightarrow> mutation_boundary \<Rightarrow> check" where
  "requireBoundary actual required = throw_state (rank_less actual required) ''mutation_boundary_missing''"

definition requireEvidence :: "string option \<Rightarrow> check" where
  "requireEvidence v = throw_state (v = None \<or> v = Some []) ''transition_evidence_missing''"

definition or_else :: "'a option \<Rightarrow> 'a option \<Rightarrow> 'a option" where
  "or_else x y = (case x of None \<Rightarrow> y | Some a \<Rightarrow> Some a)"

definition requireSatisfiedCause :: "action_record lookup \<Rightarrow> string option \<Rightarrow> check" where
  "requireSatisfiedCause c evidence = first_error
     [throw_state (cause_outcome c \<noteq> Some Satisfied) ''transition_cause_unproven'',
      requireEvidence (or_else evidence (cause_evidence c))]"

definition recovery_check :: "operation_phase \<Rightarrow> action_record lookup \<Rightarrow> string option \<Rightarrow> check" where
  "recovery_check to c evidence = first_error
     [throw_state (c = Absent \<or> cause_outcome c \<noteq> Some Satisfied) ''uncertain_recovery_unproven'',
      (if to = Ready then requireCause c File_handoff (Some Satisfied) else None),
      (if to = Generating \<or> to = Capturing then requireCause c Send (Some Satisfied) else None),
      requireEvidence (or_else evidence (cause_evidence c))]"

definition assertCausalTransition :: "operation_state \<Rightarrow> operation_phase \<Rightarrow> mutation_boundary
    \<Rightarrow> action_record lookup \<Rightarrow> string option \<Rightarrow> check" where
  "assertCausalTransition s to boundary c evidence = first_error
     [(if st_phase s = Uncertain then recovery_check to c evidence else None),
      (if to = Handoff_pending then first_error
         [requireUnreceiptedCause c File_handoff, requireBoundary boundary Handoff_may_have_occurred]
       else if to = Send_pending then first_error
         [requireUnreceiptedCause c Send, requireBoundary boundary Send_may_have_occurred]
       else if to = Submitted then first_error
         [throw_state (cause_kind c \<noteq> Some Send) ''invalid_transition_cause'',
          requireSatisfiedCause c evidence,
          requireDurableOriginalSendOwnership s]
       else if to = Ready \<and> st_phase s = Prepared then requireEvidence evidence
       else if to = Ready \<and> st_phase s = Handoff_pending then first_error
         [requireCause c File_handoff (Some Satisfied), requireEvidence evidence]
       else if to = Generating \<or> to = Capturing \<or> to = Completed then first_error
         [requireEvidence evidence, requireDurableOriginalSendOwnership s]
       else None)]"

text \<open>
  Without \<open>causeActionId\<close> the cause is undefined; with one, the lookup may also find an
  inherited member, which is defined but has neither kind nor outcome. A current phase
  that is no own key of \<open>LEGAL_EDGES\<close> but a member of \<open>Object.prototype\<close> yields a value
  without \<open>has\<close>.
\<close>

definition edge_check :: "operation_phase \<Rightarrow> operation_phase \<Rightarrow> check" where
  "edge_check from to = (case LEGAL_EDGES from of
     None \<Rightarrow> Some (TypeError ''LEGAL_EDGES[state.phase].has is not a function'')
   | Some tos \<Rightarrow> throw_state (to \<notin> set tos) ''illegal_phase_transition'')"

definition phase_cause :: "operation_state \<Rightarrow> phase_event \<Rightarrow> action_record lookup" where
  "phase_cause s e = (case pe_causeActionId e of
     None \<Rightarrow> Absent | Some k \<Rightarrow> dict_lookup (st_actions s) k)"

definition applyPhaseChange :: "operation_state \<Rightarrow> phase_event \<Rightarrow> operation_state res" where
  "applyPhaseChange s e = checked (first_error
     [throw_state (\<not> known_phase (pe_from e) \<or> \<not> known_phase (pe_to e)) ''invalid_operation_phase'',
      throw_state (\<not> known_boundary (pe_mutationBoundary e)) ''invalid_mutation_boundary'',
      when_some (pe_evidenceDigest e) assertDigest,
      throw_state (st_target s = None \<and> pe_to e \<noteq> Uncertain) ''target_not_bound'',
      when_some (st_target s) (\<lambda>t. throw_state (tb_targetLifecycle t = Some New_pending
          \<and> pe_to e \<in> {Submitted, Generating, Capturing, Completed}) ''new_target_not_established''),
      throw_state (pe_from e \<noteq> st_phase s) ''phase_mismatch'',
      edge_check (st_phase s) (pe_to e),
      throw_state (pe_mutationBoundary e \<noteq> st_mutationBoundary s) ''mutation_boundary_mismatch'',
      throw_state (pe_causeActionId e \<noteq> None \<and> phase_cause s e = Absent) ''transition_cause_missing'',
      assertCausalTransition s (pe_to e) (pe_mutationBoundary e) (phase_cause s e) (pe_evidenceDigest e)])
     (s\<lparr>st_phase := pe_to e, st_mutationBoundary := pe_mutationBoundary e\<rparr>)"

section \<open>One event\<close>

definition withRevision :: "int \<Rightarrow> string \<Rightarrow> operation_state \<Rightarrow> operation_state" where
  "withRevision revision at s = s\<lparr>st_revision := revision, st_updatedAt := at\<rparr>"

definition created_state :: "created_event \<Rightarrow> int \<Rightarrow> operation_state" where
  "created_state e revision =
     \<lparr>st_schemaVersion = OPERATION_SCHEMA_VERSION, st_operationId = ev_operationId e,
      st_requestDigest = ev_requestDigest e, st_surface = ev_surface e, st_phase = Prepared,
      st_mutationBoundary = No_mutation, st_revision = revision, st_createdAt = ev_createdAt e,
      st_updatedAt = ev_createdAt e, st_capturePolicy = ev_capturePolicy e,
      st_responseFormat = map_option cp_responseFormat (ev_capturePolicy e), st_target = None,
      st_actions = [], st_ownershipBaseline = None, st_ownershipBaselines = Some [],
      st_artifactTransfers = Some [], st_submissionWitnesses = None, st_submissionWitness = None,
      st_lastBlocker = None, st_receipt = None\<rparr>"

definition applyCreated ::
  "operation_state option \<Rightarrow> created_event \<Rightarrow> int \<Rightarrow> operation_state res" where
  "applyCreated s e revision = checked (first_error
     [throw_state (s \<noteq> None \<or> revision \<noteq> 1) ''duplicate_operation_created'',
      assertOperationId (ev_operationId e),
      assertDigest (ev_requestDigest e),
      assertTimestamp (ev_createdAt e),
      throw_state (ev_surface e \<noteq> Chat \<and> ev_surface e \<noteq> Work) ''invalid_operation_surface''])
     (created_state e revision)"

definition applyContentAvailability :: "operation_state \<Rightarrow> bool \<Rightarrow> operation_state res" where
  "applyContentAvailability s available = (case st_receipt s of
     None \<Rightarrow> Inl (OperationStateError ''receipt_missing'')
   | Some r \<Rightarrow> checked (first_error
       [throw_state (st_phase s \<noteq> Completed) ''receipt_phase_invalid'',
        throw_state (available \<or> \<not> rp_contentAvailable r) ''content_availability_not_monotonic''])
       (s\<lparr>st_receipt := Some (r\<lparr>rp_contentAvailable := available\<rparr>)\<rparr>))"

definition applyPrepared ::
  "operation_state \<Rightarrow> action_intent \<Rightarrow> string \<Rightarrow> operation_baseline \<Rightarrow> int \<Rightarrow> operation_state res" where
  "applyPrepared s a intentAt b revision = (case first_error
     [assertTimestamp (ob_observedAt b),
      assertTimestampNotBefore (st_updatedAt s) intentAt,
      throw_state (ob_observedAt b \<noteq> intentAt) ''action_prepared_timestamp_mismatch'',
      assertPreparedActionBaselineIdentity a b s] of
     Some e \<Rightarrow> Inl e
   | None \<Rightarrow> bind_res (applyActionIntent s a revision intentAt) (\<lambda>s1. applyOwnershipBaseline s1 b))"

text \<open>
  The time an event carries, and the state it leads to before \<open>withRevision\<close>. Every branch of
  the code's \<open>switch\<close> first checks this time against the state's \<open>updatedAt\<close>.
\<close>

fun event_time :: "operation_event \<Rightarrow> string" where
  "event_time (Operation_created e) = ev_createdAt e"
| "event_time (Target_bound t at) = at"
| "event_time (Target_established e) = te_observedAt e"
| "event_time (Ownership_baseline_event b) = ob_observedAt b"
| "event_time (Submission_witness_event w) = sw_observedAt w"
| "event_time (Action_intent_event a at) = at"
| "event_time (Action_prepared_event a at b) = at"
| "event_time (Artifact_transfer_intent_event i) = ti_intentAt i"
| "event_time (Artifact_transfer_receipt_event r) = tr_observedAt r"
| "event_time (Action_receipt_event r) = rc_observedAt r"
| "event_time (Phase_changed_event e) = pe_observedAt e"
| "event_time (Blocker_observed_event b) = bo_observedAt b"
| "event_time (Receipt_completed_event r at) = at"
| "event_time (Content_availability_changed_event b at) = at"

definition time_check :: "operation_state \<Rightarrow> string \<Rightarrow> check" where
  "time_check s at = first_error [assertTimestamp at, assertTimestampNotBefore (st_updatedAt s) at]"

definition after_time :: "operation_state \<Rightarrow> string \<Rightarrow> operation_state res \<Rightarrow> operation_state res" where
  "after_time s at r = (case time_check s at of Some e \<Rightarrow> Inl e | None \<Rightarrow> r)"

fun event_effect :: "url_parser \<Rightarrow> operation_state \<Rightarrow> operation_event \<Rightarrow> int \<Rightarrow> operation_state res" where
  "event_effect U s (Operation_created e) revision = Inl (OperationStateError ''duplicate_operation_created'')"
| "event_effect U s (Target_bound t at) revision = after_time s at
     (bind_res (validatedTarget U s t) (\<lambda>t'. Inr (s\<lparr>st_target := Some t'\<rparr>)))"
| "event_effect U s (Target_established e) revision = after_time s (te_observedAt e)
     (bind_res (establishTarget U s e) (\<lambda>t'. Inr (s\<lparr>st_target := Some t'\<rparr>)))"
| "event_effect U s (Ownership_baseline_event b) revision = after_time s (ob_observedAt b)
     (applyOwnershipBaseline s b)"
| "event_effect U s (Submission_witness_event w) revision = after_time s (sw_observedAt w)
     (applySubmissionWitness s w)"
| "event_effect U s (Action_intent_event a at) revision = after_time s at
     (applyActionIntent s a revision at)"
| "event_effect U s (Action_prepared_event a at b) revision =
     (case assertTimestamp at of Some e \<Rightarrow> Inl e | None \<Rightarrow> applyPrepared s a at b revision)"
| "event_effect U s (Artifact_transfer_intent_event i) revision = after_time s (ti_intentAt i)
     (applyArtifactTransferIntent s i revision)"
| "event_effect U s (Artifact_transfer_receipt_event r) revision = after_time s (tr_observedAt r)
     (applyArtifactTransferReceipt s r revision)"
| "event_effect U s (Action_receipt_event r) revision = after_time s (rc_observedAt r)
     (applyActionReceipt s r revision)"
| "event_effect U s (Phase_changed_event e) revision = after_time s (pe_observedAt e)
     (applyPhaseChange s e)"
| "event_effect U s (Blocker_observed_event b) revision = after_time s (bo_observedAt b)
     (checked (first_error [assertDigest (bo_messageDigest b), validateBlockerObservation b])
        (s\<lparr>st_lastBlocker := Some b\<rparr>))"
| "event_effect U s (Receipt_completed_event r at) revision = after_time s at
     (applyCompletedReceipt s r at)"
| "event_effect U s (Content_availability_changed_event b at) revision = after_time s at
     (applyContentAvailability s b)"

definition applyOperationEvent ::
  "url_parser \<Rightarrow> operation_state option \<Rightarrow> operation_event \<Rightarrow> int \<Rightarrow> operation_state res" where
  "applyOperationEvent U s ev revision = (case assertOperationEventShape U (enc_event ev) of
     Some e \<Rightarrow> Inl e
   | None \<Rightarrow> (case ev of
       Operation_created e \<Rightarrow> applyCreated s e revision
     | _ \<Rightarrow> (case s of
         None \<Rightarrow> Inl (OperationStateError ''missing_operation_created'')
       | Some st \<Rightarrow>
           if revision \<noteq> st_revision st + 1 then Inl (OperationStateError ''revision_gap'')
           else bind_res (event_effect U st ev revision) (\<lambda>st'.
             Inr (withRevision revision (event_time ev) st')))))"

section \<open>A log\<close>

fun reduce_loop :: "url_parser \<Rightarrow> operation_state option \<Rightarrow> int \<Rightarrow> operation_event list
    \<Rightarrow> operation_state option res" where
  "reduce_loop U s index [] = Inr s"
| "reduce_loop U s index (ev # evs) =
     bind_res (applyOperationEvent U s ev (index + 1)) (\<lambda>s'. reduce_loop U (Some s') (index + 1) evs)"

definition reduceOperationEvents :: "url_parser \<Rightarrow> operation_event list \<Rightarrow> operation_state res" where
  "reduceOperationEvents U evs = bind_res (reduce_loop U None 0 evs) (\<lambda>s. case s of
     None \<Rightarrow> Inl (OperationStateError ''empty_operation_log'') | Some st \<Rightarrow> Inr st)"

section \<open>Steps and reachable states\<close>

inductive op_step :: "url_parser \<Rightarrow> operation_state \<Rightarrow> operation_event \<Rightarrow> operation_state \<Rightarrow> bool"
  for U :: url_parser where
  step: "applyOperationEvent U (Some s) ev (st_revision s + 1) = Inr s' \<Longrightarrow> op_step U s ev s'"

inductive op_reachable :: "url_parser \<Rightarrow> operation_state \<Rightarrow> bool" for U :: url_parser where
  created: "applyOperationEvent U None ev 1 = Inr s \<Longrightarrow> op_reachable U s"
| extended: "op_reachable U s \<Longrightarrow> op_step U s ev s' \<Longrightarrow> op_reachable U s'"

inductive_simps op_step_iff: "op_step U s ev s'"
inductive_cases op_reachableE: "op_reachable U s"

lemma step_effect:
  assumes "op_step U s ev s'"
  obtains s1 where "event_effect U s ev (st_revision s + 1) = Inr s1"
    "s' = withRevision (st_revision s + 1) (event_time ev) s1"
    "assertOperationEventShape U (enc_event ev) = None"
    "\<And>e. ev \<noteq> Operation_created e"
  using assms
  by (cases ev) (auto simp: op_step_iff applyOperationEvent_def applyCreated_def bind_res_Inr
      split: option.splits)

lemma created_is_created:
  assumes "applyOperationEvent U None ev r = Inr s"
  obtains e where "ev = Operation_created e" "s = created_state e r" "r = 1"
    "UUID_PATTERN (ev_operationId e)" "DIGEST_PATTERN (ev_requestDigest e)"
    "is_canonical_timestamp (ev_createdAt e)" "ev_surface e = Chat \<or> ev_surface e = Work"
  using assms
  by (cases ev) (auto simp: applyOperationEvent_def applyCreated_def split: option.splits)

lemma withRevision_fields [simp]:
  "st_schemaVersion (withRevision r at s) = st_schemaVersion s"
  "st_operationId (withRevision r at s) = st_operationId s"
  "st_requestDigest (withRevision r at s) = st_requestDigest s"
  "st_surface (withRevision r at s) = st_surface s"
  "st_phase (withRevision r at s) = st_phase s"
  "st_mutationBoundary (withRevision r at s) = st_mutationBoundary s"
  "st_revision (withRevision r at s) = r"
  "st_createdAt (withRevision r at s) = st_createdAt s"
  "st_updatedAt (withRevision r at s) = at"
  "st_capturePolicy (withRevision r at s) = st_capturePolicy s"
  "st_responseFormat (withRevision r at s) = st_responseFormat s"
  "st_target (withRevision r at s) = st_target s"
  "st_actions (withRevision r at s) = st_actions s"
  "st_ownershipBaseline (withRevision r at s) = st_ownershipBaseline s"
  "st_ownershipBaselines (withRevision r at s) = st_ownershipBaselines s"
  "st_artifactTransfers (withRevision r at s) = st_artifactTransfers s"
  "st_submissionWitnesses (withRevision r at s) = st_submissionWitnesses s"
  "st_submissionWitness (withRevision r at s) = st_submissionWitness s"
  "st_lastBlocker (withRevision r at s) = st_lastBlocker s"
  "st_receipt (withRevision r at s) = st_receipt s"
  by (simp_all add: withRevision_def)

lemma time_check_None: "time_check s at = None \<longleftrightarrow> is_canonical_timestamp at \<and> \<not> at < st_updatedAt s"
  by (simp add: time_check_def)

lemma after_time_Inr [res_simps]:
  "after_time s at r = Inr s' \<longleftrightarrow> is_canonical_timestamp at \<and> \<not> at < st_updatedAt s \<and> r = Inr s'"
  unfolding time_check_None [symmetric] conj_assoc [symmetric]
  by (cases "time_check s at") (simp_all add: after_time_def)

text \<open>A log is accepted exactly when its events are accepted one after another.\<close>

lemma reduce_loop_append:
  "reduce_loop U s i (evs @ evs') =
     bind_res (reduce_loop U s i evs) (\<lambda>s'. reduce_loop U s' (i + int (length evs)) evs')"
proof (induction evs arbitrary: s i)
  case (Cons ev evs)
  then show ?case
    by (cases "applyOperationEvent U s ev (i + 1)") (simp_all add: algebra_simps)
qed simp

end
