(* ===== verification/Op_Invariants.thy ===== *)
theory Op_Invariants
  imports Op_Reducer
begin

text \<open>
  What one event can change, and the invariants of every reachable operation: the action
  ledger is keyed and write-once, the mutation boundary is the maximum of the ledger, no
  operation holds two Send or two file-handoff intents, and a state that claims a
  submitted turn carries the durable proof of the original Send.
\<close>

named_theorems op_inv "invariants of reachable operations"

section \<open>The effect of an event on the ledger\<close>

text \<open>The fields no event changes after creation.\<close>

definition same_identity :: "operation_state \<Rightarrow> operation_state \<Rightarrow> bool" where
  "same_identity s s' \<longleftrightarrow>
     st_schemaVersion s' = st_schemaVersion s \<and> st_operationId s' = st_operationId s \<and>
     st_requestDigest s' = st_requestDigest s \<and> st_surface s' = st_surface s \<and>
     st_createdAt s' = st_createdAt s \<and> st_capturePolicy s' = st_capturePolicy s \<and>
     st_responseFormat s' = st_responseFormat s"

lemma same_identity_refl [simp]: "same_identity s s"
  by (simp add: same_identity_def)

lemma same_identity_trans: "same_identity a b \<Longrightarrow> same_identity b c \<Longrightarrow> same_identity a c"
  by (simp add: same_identity_def)

text \<open>The ledger is untouched, or gets one new intent, or one open action is settled.\<close>

definition ledger_same :: "operation_state \<Rightarrow> operation_state \<Rightarrow> bool" where
  "ledger_same s s' \<longleftrightarrow> st_actions s' = st_actions s \<and> st_mutationBoundary s' = st_mutationBoundary s"

definition ledger_intent :: "operation_state \<Rightarrow> operation_state \<Rightarrow> int \<Rightarrow> action_intent \<Rightarrow> string \<Rightarrow> bool" where
  "ledger_intent s s' rv a at \<longleftrightarrow> action_intent_check s a = None \<and>
     st_mutationBoundary s' = raise_boundary (ai_kind a) (st_mutationBoundary s) \<and>
     st_actions s' = obj_set (st_actions s) (ai_actionId a) (record_of_intent a rv at)"

definition ledger_receipt :: "operation_state \<Rightarrow> operation_state \<Rightarrow> int \<Rightarrow> action_receipt \<Rightarrow> bool" where
  "ledger_receipt s s' rv r \<longleftrightarrow> st_mutationBoundary s' = st_mutationBoundary s \<and>
     (\<exists>a. obj_get (st_actions s) (rc_actionId r) = Some a \<and> ar_outcome a = None \<and>
        action_receipt_check (Some (ar_intentAt a)) r = None \<and>
        st_actions s' = obj_set (st_actions s) (rc_actionId r) (settled a r rv))"

lemma applyActionIntent_ledger:
  "applyActionIntent s a rv at = Inr s' \<Longrightarrow> ledger_intent s s' rv a at \<and> same_identity s s'"
  using applyActionIntent_Inr [of s a rv at s'] by (simp add: ledger_intent_def same_identity_def)

lemma applyActionReceipt_ledger:
  "applyActionReceipt s r rv = Inr s' \<Longrightarrow> ledger_receipt s s' rv r \<and> same_identity s s'"
  by (erule applyActionReceipt_Inr) (auto simp: ledger_receipt_def same_identity_def)

text \<open>Which parts of the state each handler leaves alone.\<close>

lemma applyOwnershipBaseline_frame:
  assumes "applyOwnershipBaseline s b = Inr s'"
  shows "st_actions s' = st_actions s" "st_mutationBoundary s' = st_mutationBoundary s"
    "st_phase s' = st_phase s" "st_target s' = st_target s" "st_receipt s' = st_receipt s"
    "st_submissionWitnesses s' = st_submissionWitnesses s"
    "st_submissionWitness s' = st_submissionWitness s"
    "st_artifactTransfers s' = st_artifactTransfers s" "same_identity s s'"
  using applyOwnershipBaseline_Inr(4) [OF assms] by (simp_all add: same_identity_def)

lemma applySubmissionWitness_frame:
  assumes "applySubmissionWitness s w = Inr s'"
  shows "st_actions s' = st_actions s" "st_mutationBoundary s' = st_mutationBoundary s"
    "st_phase s' = st_phase s" "st_target s' = st_target s" "st_receipt s' = st_receipt s"
    "st_ownershipBaselines s' = st_ownershipBaselines s"
    "st_ownershipBaseline s' = st_ownershipBaseline s"
    "st_artifactTransfers s' = st_artifactTransfers s" "same_identity s s'"
  using assms by (rule applySubmissionWitness_cases; simp add: same_identity_def)+

lemma applyPhaseChange_frame:
  assumes "applyPhaseChange s e = Inr s'"
  shows "st_actions s' = st_actions s" "st_mutationBoundary s' = st_mutationBoundary s"
    "st_phase s' = pe_to e" "st_target s' = st_target s" "st_receipt s' = st_receipt s"
    "st_ownershipBaselines s' = st_ownershipBaselines s"
    "st_ownershipBaseline s' = st_ownershipBaseline s"
    "st_submissionWitnesses s' = st_submissionWitnesses s"
    "st_submissionWitness s' = st_submissionWitness s"
    "st_artifactTransfers s' = st_artifactTransfers s" "same_identity s s'"
  using assms by (auto simp: applyPhaseChange_def same_identity_def)

lemma applyPrepared_Inr:
  assumes "applyPrepared s a at b rv = Inr s'"
  obtains s1 where "assertPreparedActionBaselineIdentity a b s = None" "\<not> at < st_updatedAt s"
    "ob_observedAt b = at" "applyActionIntent s a rv at = Inr s1" "applyOwnershipBaseline s1 b = Inr s'"
  using assms by (auto simp: applyPrepared_def bind_res_Inr split: option.splits)

lemma applyContentAvailability_Inr:
  assumes "applyContentAvailability s b = Inr s'"
  obtains r where "st_receipt s = Some r" "st_phase s = Completed" "rp_contentAvailable r"
    "s' = s\<lparr>st_receipt := Some (r\<lparr>rp_contentAvailable := False\<rparr>)\<rparr>"
  using assms by (auto simp: applyContentAvailability_def split: option.splits)

lemma effect_ledger:
  assumes "event_effect U s ev rv = Inr s'"
  shows "same_identity s s' \<and> (ledger_same s s' \<or> (\<exists>a at. ledger_intent s s' rv a at)
    \<or> (\<exists>r. ledger_receipt s s' rv r))"
proof (cases ev)
  case (Target_bound t at)
  with assms show ?thesis by (auto simp: res_simps ledger_same_def same_identity_def)
next
  case (Target_established e)
  with assms show ?thesis by (auto simp: res_simps ledger_same_def same_identity_def)
next
  case (Ownership_baseline_event b)
  with assms have "applyOwnershipBaseline s b = Inr s'" by (simp add: after_time_Inr)
  from applyOwnershipBaseline_frame [OF this] show ?thesis by (simp add: ledger_same_def)
next
  case (Submission_witness_event w)
  with assms have "applySubmissionWitness s w = Inr s'" by (simp add: after_time_Inr)
  from applySubmissionWitness_frame [OF this] show ?thesis by (simp add: ledger_same_def)
next
  case (Action_intent_event a at)
  with assms have "applyActionIntent s a rv at = Inr s'" by (simp add: after_time_Inr)
  from applyActionIntent_ledger [OF this] show ?thesis by blast
next
  case (Action_prepared_event a at b)
  with assms obtain s1 where 1: "applyActionIntent s a rv at = Inr s1"
    and 2: "applyOwnershipBaseline s1 b = Inr s'"
    by (auto elim: applyPrepared_Inr split: option.splits)
  have "ledger_intent s s' rv a at"
    using applyActionIntent_ledger [OF 1] applyOwnershipBaseline_frame [OF 2]
    by (simp add: ledger_intent_def)
  moreover have "same_identity s s'"
    using applyActionIntent_ledger [OF 1] applyOwnershipBaseline_frame [OF 2]
    by (blast intro: same_identity_trans)
  ultimately show ?thesis by blast
next
  case (Artifact_transfer_intent_event i)
  with assms have "applyArtifactTransferIntent s i rv = Inr s'" by (simp add: after_time_Inr)
  then obtain s1 ts where 1: "applyActionIntent s (transfer_action i) rv (ti_intentAt i) = Inr s1"
    and s': "s' = s1\<lparr>st_artifactTransfers := ts\<rparr>"
    by (rule applyArtifactTransferIntent_Inr) blast
  have "ledger_intent s s' rv (transfer_action i) (ti_intentAt i)" "same_identity s s'"
    using applyActionIntent_ledger [OF 1] s' by (simp_all add: ledger_intent_def same_identity_def)
  then show ?thesis by blast
next
  case (Artifact_transfer_receipt_event r)
  with assms have "applyArtifactTransferReceipt s r rv = Inr s'" by (simp add: after_time_Inr)
  then obtain s1 ts where 1: "applyActionReceipt s (transfer_action_receipt r) rv = Inr s1"
    and s': "s' = s1\<lparr>st_artifactTransfers := ts\<rparr>"
    by (rule applyArtifactTransferReceipt_Inr) blast
  have "ledger_receipt s s' rv (transfer_action_receipt r)" "same_identity s s'"
    using applyActionReceipt_ledger [OF 1] s' by (simp_all add: ledger_receipt_def same_identity_def)
  then show ?thesis by blast
next
  case (Action_receipt_event r)
  with assms have "applyActionReceipt s r rv = Inr s'" by (simp add: after_time_Inr)
  from applyActionReceipt_ledger [OF this] show ?thesis by blast
next
  case (Phase_changed_event e)
  with assms have "applyPhaseChange s e = Inr s'" by (simp add: after_time_Inr)
  from applyPhaseChange_frame [OF this] show ?thesis by (simp add: ledger_same_def)
next
  case (Blocker_observed_event b)
  with assms show ?thesis by (auto simp: after_time_Inr ledger_same_def same_identity_def)
next
  case (Receipt_completed_event r at)
  with assms have "applyCompletedReceipt s r at = Inr s'" by (simp add: after_time_Inr)
  from applyCompletedReceipt_Inr(9) [OF this] show ?thesis by (simp add: ledger_same_def same_identity_def)
next
  case (Content_availability_changed_event b at)
  with assms have "applyContentAvailability s b = Inr s'" by (simp add: after_time_Inr)
  then show ?thesis
    by (rule applyContentAvailability_Inr) (simp add: ledger_same_def same_identity_def)
qed (use assms in simp)

lemma step_ledger:
  assumes "op_step U s ev s'"
  obtains (same) "ledger_same s s'"
  | (intent) a at where "ledger_intent s s' (st_revision s + 1) a at"
  | (receipt) r where "ledger_receipt s s' (st_revision s + 1) r"
proof -
  obtain s1 where e: "event_effect U s ev (st_revision s + 1) = Inr s1"
    and s': "s' = withRevision (st_revision s + 1) (event_time ev) s1"
    using assms by (rule step_effect)
  have l: "ledger_same s s' = ledger_same s s1"
    "ledger_intent s s' r a at = ledger_intent s s1 r a at"
    "ledger_receipt s s' r rc = ledger_receipt s s1 r rc" for r a at rc
    by (simp_all add: s' ledger_same_def ledger_intent_def ledger_receipt_def)
  from effect_ledger [OF e] show thesis using that l by metis
qed

lemma event_time_ok:
  assumes "event_effect U s ev rv = Inr s'"
  shows "is_canonical_timestamp (event_time ev) \<and> \<not> event_time ev < st_updatedAt s"
  using assms by (cases ev) (auto simp: after_time_Inr elim: applyPrepared_Inr split: option.splits)

lemma step_frame:
  assumes "op_step U s ev s'"
  shows "same_identity s s'" "st_revision s' = st_revision s + 1" "\<not> st_updatedAt s' < st_updatedAt s"
    "is_canonical_timestamp (st_updatedAt s')"
proof -
  obtain s1 where e: "event_effect U s ev (st_revision s + 1) = Inr s1"
    and s': "s' = withRevision (st_revision s + 1) (event_time ev) s1"
    using assms by (rule step_effect)
  show "same_identity s s'" using effect_ledger [OF e] by (simp add: s' same_identity_def)
  show "st_revision s' = st_revision s + 1" by (simp add: s')
  show "\<not> st_updatedAt s' < st_updatedAt s" "is_canonical_timestamp (st_updatedAt s')"
    using event_time_ok [OF e] by (simp_all add: s')
qed

section \<open>The ledger\<close>

lemma map_values_set_same:
  assumes "obj_get ob k = Some v" and "f w = f v"
  shows "map f (obj_values (obj_set ob k w)) = map f (obj_values ob)"
  using assms
  by (induction ob) (auto simp: obj_get_def obj_set_def obj_values_def split: if_splits)

definition kinds :: "operation_state \<Rightarrow> action_kind list" where
  "kinds s = map ar_kind (obj_values (st_actions s))"

definition expected_boundary :: "action_kind list \<Rightarrow> mutation_boundary" where
  "expected_boundary ks = foldl (\<lambda>b k. raise_boundary k b) No_mutation ks"

lemma expected_boundary_real: "real_boundary (expected_boundary ks)"
proof (induction ks rule: rev_induct)
  case Nil
  then show ?case by (simp add: expected_boundary_def real_boundary_def)
next
  case (snoc k ks)
  then show ?case by (simp add: expected_boundary_def)
qed

lemma expected_boundary_snoc: "expected_boundary (ks @ [k]) = raise_boundary k (expected_boundary ks)"
  by (simp add: expected_boundary_def)

lemma expected_boundary_bound:
  "k \<in> set ks \<Longrightarrow> boundaryForAction k = Some b \<Longrightarrow> boundary_rank b \<le> boundary_rank (expected_boundary ks)"
proof (induction ks rule: rev_induct)
  case (snoc x ks)
  note r = expected_boundary_real [of ks] boundaryForAction_real [OF snoc.prems(2)]
  show ?case
  proof (cases "k = x")
    case True
    with snoc.prems(2) r show ?thesis
      by (auto simp: expected_boundary_snoc raise_boundary_def rank_less_real)
  next
    case False
    with snoc show ?thesis
      using raise_boundary_mono [OF r(1), of x] by (simp add: expected_boundary_snoc)
  qed
qed simp

lemma kinds_same: "ledger_same s s' \<Longrightarrow> kinds s' = kinds s"
  by (simp add: ledger_same_def kinds_def)

lemma kinds_intent: "ledger_intent s s' rv a at \<Longrightarrow> kinds s' = kinds s @ [ai_kind a]"
  by (auto simp: ledger_intent_def kinds_def obj_values_set_new dest: action_intent_new)

lemma kinds_receipt: "ledger_receipt s s' rv r \<Longrightarrow> kinds s' = kinds s"
  by (auto simp: ledger_receipt_def kinds_def map_values_set_same)

lemma created_kinds: "applyOperationEvent U None ev 1 = Inr s \<Longrightarrow> kinds s = [] \<and> st_mutationBoundary s = No_mutation"
  by (auto elim!: created_is_created simp: created_state_def kinds_def obj_values_def)

lemma reachable_boundary [op_inv]:
  "op_reachable U s \<Longrightarrow> st_mutationBoundary s = expected_boundary (kinds s)"
proof (induction rule: op_reachable.induct)
  case (created ev s)
  then show ?case using created_kinds [OF created] by (simp add: expected_boundary_def)
next
  case (extended s ev s')
  from extended.hyps(2) show ?case
  proof (cases rule: step_ledger)
    case same
    then show ?thesis using extended.IH kinds_same [OF same] by (simp add: ledger_same_def)
  next
    case (intent a at)
    then show ?thesis
      using extended.IH kinds_intent [OF intent] by (simp add: ledger_intent_def expected_boundary_snoc)
  next
    case (receipt r)
    then show ?thesis using extended.IH kinds_receipt [OF receipt] by (simp add: ledger_receipt_def)
  qed
qed

definition single_intents :: "action_kind list \<Rightarrow> bool" where
  "single_intents ks \<longleftrightarrow> (\<forall>k. isSingleIntentKind k \<longrightarrow> length (filter ((=) k) ks) \<le> 1)"

lemma action_intent_single:
  "action_intent_check s a = None \<Longrightarrow> isSingleIntentKind (ai_kind a) \<Longrightarrow> ai_kind a \<notin> set (kinds s)"
  by (auto simp: action_intent_check_def list_ex_iff kinds_def)

lemma single_intents_snoc:
  "single_intents ks \<Longrightarrow> (isSingleIntentKind k \<Longrightarrow> k \<notin> set ks) \<Longrightarrow> single_intents (ks @ [k])"
  by (auto simp: single_intents_def filter_empty_conv)

lemma reachable_single_intents [op_inv]: "op_reachable U s \<Longrightarrow> single_intents (kinds s)"
proof (induction rule: op_reachable.induct)
  case (created ev s)
  then show ?case using created_kinds [OF created] by (simp add: single_intents_def)
next
  case (extended s ev s')
  from extended.hyps(2) show ?case
  proof (cases rule: step_ledger)
    case same
    then show ?thesis using extended.IH kinds_same by simp
  next
    case (intent a at)
    then have "action_intent_check s a = None" by (simp add: ledger_intent_def)
    then show ?thesis
      using extended.IH kinds_intent [OF intent] action_intent_single single_intents_snoc by simp
  next
    case (receipt r)
    then show ?thesis using extended.IH kinds_receipt by simp
  qed
qed

text \<open>Every entry is stored under its own id, and the keys are distinct.\<close>

definition ledger_keyed :: "operation_state \<Rightarrow> bool" where
  "ledger_keyed s \<longleftrightarrow> obj_wf (st_actions s) \<and>
     (\<forall>k a. obj_get (st_actions s) k = Some a \<longrightarrow> ar_actionId a = k \<and> UUID_PATTERN k)"

lemma reachable_keyed [op_inv]: "op_reachable U s \<Longrightarrow> ledger_keyed s"
proof (induction rule: op_reachable.induct)
  case (created ev s)
  then show ?case by (auto elim!: created_is_created simp: created_state_def ledger_keyed_def)
next
  case (extended s ev s')
  from extended.hyps(2) show ?case
  proof (cases rule: step_ledger)
    case same
    then show ?thesis using extended.IH by (simp add: ledger_same_def ledger_keyed_def)
  next
    case (intent a at)
    then have "UUID_PATTERN (ai_actionId a)"
      and "st_actions s' = obj_set (st_actions s) (ai_actionId a) (record_of_intent a (st_revision s + 1) at)"
      by (simp_all add: ledger_intent_def action_intent_check_def)
    then show ?thesis using extended.IH by (simp add: ledger_keyed_def)
  next
    case (receipt r)
    then show ?thesis using extended.IH by (auto simp: ledger_receipt_def ledger_keyed_def split: if_splits)
  qed
qed

text \<open>An entry keeps its intent for ever, and once settled it does not change at all.\<close>

definition same_intent :: "action_record \<Rightarrow> action_record \<Rightarrow> bool" where
  "same_intent a b \<longleftrightarrow> ar_actionId b = ar_actionId a \<and> ar_kind b = ar_kind a
     \<and> ar_repeatPolicy b = ar_repeatPolicy a \<and> ar_requestDigest b = ar_requestDigest a
     \<and> ar_parentActionId b = ar_parentActionId a \<and> ar_targetDigest b = ar_targetDigest a
     \<and> ar_intentRevision b = ar_intentRevision a \<and> ar_intentAt b = ar_intentAt a"

lemma step_entry:
  assumes st: "op_step U s ev s'" and a: "obj_get (st_actions s) k = Some a"
  obtains b where "obj_get (st_actions s') k = Some b" "same_intent a b"
    "ar_outcome a \<noteq> None \<Longrightarrow> b = a"
  using st
proof (cases rule: step_ledger)
  case same
  with a that show ?thesis by (auto simp: ledger_same_def same_intent_def)
next
  case (intent i at)
  then have "obj_get (st_actions s) (ai_actionId i) = None"
    by (auto simp: ledger_intent_def dest: action_intent_new)
  with a have "k \<noteq> ai_actionId i" by auto
  with intent a that show ?thesis by (auto simp: ledger_intent_def same_intent_def)
next
  case (receipt r)
  with a that show ?thesis
    by (cases "k = rc_actionId r") (auto simp: ledger_receipt_def same_intent_def)
qed

lemma ledger_values:
  "ledger_keyed s \<Longrightarrow> a \<in> set (obj_values (st_actions s)) \<longleftrightarrow> obj_get (st_actions s) (ar_actionId a) = Some a"
  by (auto simp: ledger_keyed_def obj_values_iff)

lemma send_actions_iff:
  "ledger_keyed s \<Longrightarrow> a \<in> set (send_actions s) \<longleftrightarrow>
     obj_get (st_actions s) (ar_actionId a) = Some a \<and> ar_kind a = Send"
  by (auto simp: send_actions_def ledger_values)

lemma single_send:
  assumes "single_intents (kinds s)"
  shows "length (send_actions s) \<le> 1"
proof -
  have "length (send_actions s) = length (filter ((=) Send) (kinds s))"
    by (simp add: send_actions_def kinds_def filter_map comp_def eq_commute)
  then show ?thesis using assms by (simp add: single_intents_def isSingleIntentKind_def)
qed

lemma length_le_one_singleton: "length xs \<le> 1 \<Longrightarrow> x \<in> set xs \<Longrightarrow> xs = [x]"
  by (cases xs) auto

section \<open>Ownership evidence\<close>

definition same_ownership :: "operation_state \<Rightarrow> operation_state \<Rightarrow> bool" where
  "same_ownership s s' \<longleftrightarrow>
     st_ownershipBaselines s' = st_ownershipBaselines s \<and>
     st_ownershipBaseline s' = st_ownershipBaseline s \<and>
     st_submissionWitnesses s' = st_submissionWitnesses s \<and>
     st_submissionWitness s' = st_submissionWitness s"

lemma effect_ownership:
  assumes "event_effect U s ev rv = Inr s'"
  obtains (same) "same_ownership s s'"
  | (baseline) s1 b where "applyOwnershipBaseline s1 b = Inr s'" "same_ownership s s1"
      "ledger_same s s1 \<or> (\<exists>a at. ledger_intent s s1 rv a at)"
  | (witness) w where "applySubmissionWitness s w = Inr s'"
proof (cases ev)
  case (Ownership_baseline_event b)
  with assms have "applyOwnershipBaseline s b = Inr s'" by (simp add: after_time_Inr)
  then show thesis by (rule baseline) (simp_all add: same_ownership_def ledger_same_def)
next
  case (Submission_witness_event w)
  with assms have "applySubmissionWitness s w = Inr s'" by (simp add: after_time_Inr)
  then show thesis by (rule witness)
next
  case (Action_prepared_event a at b)
  with assms obtain s1 where 1: "applyActionIntent s a rv at = Inr s1"
    and 2: "applyOwnershipBaseline s1 b = Inr s'"
    by (auto elim: applyPrepared_Inr split: option.splits)
  have "same_ownership s s1"
    using applyActionIntent_Inr(2) [OF 1] by (simp add: same_ownership_def)
  with baseline [OF 2] applyActionIntent_ledger [OF 1] show thesis by blast
next
  case (Action_intent_event a at)
  with assms have "applyActionIntent s a rv at = Inr s'" by (simp add: after_time_Inr)
  from applyActionIntent_Inr(2) [OF this] same show thesis by (simp add: same_ownership_def)
next
  case (Artifact_transfer_intent_event i)
  with assms have "applyArtifactTransferIntent s i rv = Inr s'" by (simp add: after_time_Inr)
  then obtain s1 ts where 1: "applyActionIntent s (transfer_action i) rv (ti_intentAt i) = Inr s1"
    and s': "s' = s1\<lparr>st_artifactTransfers := ts\<rparr>"
    by (rule applyArtifactTransferIntent_Inr) blast
  from applyActionIntent_Inr(2) [OF 1] s' same show thesis by (simp add: same_ownership_def)
next
  case (Artifact_transfer_receipt_event r)
  with assms have "applyArtifactTransferReceipt s r rv = Inr s'" by (simp add: after_time_Inr)
  then obtain s1 ts where 1: "applyActionReceipt s (transfer_action_receipt r) rv = Inr s1"
    and s': "s' = s1\<lparr>st_artifactTransfers := ts\<rparr>"
    by (rule applyArtifactTransferReceipt_Inr) blast
  from 1 s' same show thesis by (auto elim!: applyActionReceipt_Inr simp: same_ownership_def)
next
  case (Action_receipt_event r)
  with assms have "applyActionReceipt s r rv = Inr s'" by (simp add: after_time_Inr)
  with same show thesis by (auto elim!: applyActionReceipt_Inr simp: same_ownership_def)
next
  case (Phase_changed_event e)
  with assms have "applyPhaseChange s e = Inr s'" by (simp add: after_time_Inr)
  from applyPhaseChange_frame [OF this] same show thesis by (simp add: same_ownership_def)
next
  case (Receipt_completed_event r at)
  with assms have "applyCompletedReceipt s r at = Inr s'" by (simp add: after_time_Inr)
  from applyCompletedReceipt_Inr(9) [OF this] same show thesis by (simp add: same_ownership_def)
next
  case (Content_availability_changed_event b at)
  with assms have "applyContentAvailability s b = Inr s'" by (simp add: after_time_Inr)
  with same show thesis by (auto elim!: applyContentAvailability_Inr simp: same_ownership_def)
qed (use assms same in \<open>auto simp: res_simps same_ownership_def\<close>)

lemma effect_baseline:
  assumes e: "event_effect U s ev rv = Inr s'" and b: "baseline_of s k = Some b"
  shows "baseline_of s' k = Some b"
  using e
proof (cases rule: effect_ownership)
  case same
  with b show ?thesis by (simp add: same_ownership_def baseline_of_def)
next
  case (baseline s1 b1)
  have s1: "baseline_of s1 k = Some b" using baseline(2) b by (simp add: same_ownership_def baseline_of_def)
  with applyOwnershipBaseline_Inr(2,4) [OF baseline(1)] show ?thesis
    by (auto simp: baseline_of_def)
next
  case (witness w)
  from applySubmissionWitness_frame(6) [OF witness] b show ?thesis by (simp add: baseline_of_def)
qed

lemma effect_projection:
  assumes e: "event_effect U s ev rv = Inr s'" and b: "st_ownershipBaseline s = Some b"
  shows "st_ownershipBaseline s' = Some b"
  using e
proof (cases rule: effect_ownership)
  case same
  with b show ?thesis by (simp add: same_ownership_def)
next
  case (baseline s1 b1)
  have s1: "st_ownershipBaseline s1 = Some b" using baseline(2) b by (simp add: same_ownership_def)
  with applyOwnershipBaseline_Inr(3,4) [OF baseline(1)] show ?thesis by auto
next
  case (witness w)
  from applySubmissionWitness_frame(7) [OF witness] b show ?thesis by simp
qed

lemma existing_witnesses_get:
  "witness_of s k = Some w \<Longrightarrow> obj_get (existing_witnesses s) k = Some w"
  by (cases "st_submissionWitnesses s") (simp_all add: witness_of_def existing_witnesses_def)

lemma effect_witness:
  assumes e: "event_effect U s ev rv = Inr s'" and w: "witness_of s k = Some w"
  shows "witness_of s' k = Some w"
  using e
proof (cases rule: effect_ownership)
  case same
  with w show ?thesis by (simp add: same_ownership_def witness_of_def)
next
  case (baseline s1 b1)
  with w applyOwnershipBaseline_frame(6) [OF baseline(1)] show ?thesis
    by (simp add: same_ownership_def witness_of_def)
next
  case (witness w')
  from witness show ?thesis
  proof (cases rule: applySubmissionWitness_cases)
    case (same w0)
    then show ?thesis using existing_witnesses_get [OF w] by (simp add: witness_of_def)
  next
    case new
    then show ?thesis using existing_witnesses_get [OF w] by (auto simp: witness_of_def)
  qed
qed

text \<open>The proof of the original Send is stable.\<close>

lemma durable_send_unique:
  assumes "ledger_keyed s" "send_actions s = [a]"
  shows "obj_get (st_actions s) (ar_actionId a) = Some a" "ar_kind a = Send"
    "\<And>k b. obj_get (st_actions s) k = Some b \<Longrightarrow> ar_kind b = Send \<Longrightarrow> b = a \<and> k = ar_actionId a"
proof -
  have "a \<in> set (send_actions s)" using assms(2) by simp
  then show "obj_get (st_actions s) (ar_actionId a) = Some a" "ar_kind a = Send"
    using assms(1) by (simp_all add: send_actions_iff)
  fix k b
  assume b: "obj_get (st_actions s) k = Some b" "ar_kind b = Send"
  moreover from b(1) assms(1) have "ar_actionId b = k" by (simp add: ledger_keyed_def)
  ultimately have "b \<in> set (send_actions s)" using assms(1) by (simp add: send_actions_iff)
  with assms(2) \<open>ar_actionId b = k\<close> show "b = a \<and> k = ar_actionId a" by auto
qed

lemma send_actions_intent:
  assumes "send_actions s = [a]" "ledger_intent s s' rv i at"
  shows "send_actions s' = [a]"
proof -
  have "a \<in> set (send_actions s)" using assms(1) by simp
  then have "Send \<in> set (kinds s)" by (force simp: send_actions_def kinds_def)
  moreover have "action_intent_check s i = None" using assms(2) by (simp add: ledger_intent_def)
  ultimately have "ai_kind i \<noteq> Send"
    using action_intent_single [of s i] by (auto simp: isSingleIntentKind_def)
  with assms show ?thesis
    by (auto simp: ledger_intent_def send_actions_def obj_values_set_new dest: action_intent_new)
qed

lemma filter_values_set_other:
  assumes "obj_get ob k = Some v" "\<not> P v" "\<not> P w"
  shows "filter P (obj_values (obj_set ob k w)) = filter P (obj_values ob)"
  using assms by (induction ob) (auto simp: obj_get_def obj_set_def obj_values_def split: if_splits)

lemma send_actions_receipt:
  assumes k: "ledger_keyed s" and a: "send_actions s = [a]" "ar_outcome a \<noteq> None"
    and r: "ledger_receipt s s' rv r"
  shows "send_actions s' = [a]"
proof -
  obtain b where b: "obj_get (st_actions s) (rc_actionId r) = Some b" "ar_outcome b = None"
    and s': "st_actions s' = obj_set (st_actions s) (rc_actionId r) (settled b r rv)"
    using r by (auto simp: ledger_receipt_def)
  have "ar_kind b \<noteq> Send" using durable_send_unique(3) [OF k a(1) b(1)] a(2) b(2) by auto
  with filter_values_set_other [OF b(1), of "\<lambda>x. ar_kind x = Send"] a(1)
  show ?thesis by (simp add: send_actions_def s')
qed

lemma ledger_send_actions:
  assumes "ledger_keyed s" "send_actions s = [a]" "ar_outcome a \<noteq> None"
    and "ledger_same s s' \<or> (\<exists>i at. ledger_intent s s' rv i at) \<or> (\<exists>r. ledger_receipt s s' rv r)"
  shows "send_actions s' = [a]"
  using assms send_actions_intent send_actions_receipt
  by (metis ledger_same_def send_actions_def)

lemma durable_effect:
  assumes k: "ledger_keyed s" and d: "requireDurableOriginalSendOwnership s = None"
    and e: "event_effect U s ev rv = Inr s'"
  shows "requireDurableOriginalSendOwnership s' = None"
proof -
  obtain a b w where a: "send_actions s = [a]" "ar_outcome a = Some Satisfied"
    and b: "baseline_of s (ar_actionId a) = Some b" and w: "witness_of s (ar_actionId a) = Some w"
    and m: "\<not> send_proof_mismatch s a b w" and p: "send_projection_check s b w = None"
    using d by (rule requireDurable_None)
  have idn: "same_identity s s'" and led: "ledger_same s s' \<or> (\<exists>i at. ledger_intent s s' rv i at)
      \<or> (\<exists>r. ledger_receipt s s' rv r)"
    using effect_ledger [OF e] by blast+
  have a': "send_actions s' = [a]" using ledger_send_actions [OF k a(1) _ led] a(2) by simp
  have b': "baseline_of s' (ar_actionId a) = Some b" by (rule effect_baseline [OF e b])
  have w': "witness_of s' (ar_actionId a) = Some w" by (rule effect_witness [OF e w])
  have m': "\<not> send_proof_mismatch s' a b w" using m idn by (simp add: send_proof_mismatch_def same_identity_def)
  obtain pb pw where pb: "st_ownershipBaseline s = Some pb" and pw: "st_submissionWitness s = Some pw"
    using p by (auto simp: send_projection_check_def split: option.splits)
  have pb': "st_ownershipBaseline s' = Some pb" by (rule effect_projection [OF e pb])
  have pw': "st_submissionWitness s' = Some pw"
    using e
  proof (cases rule: effect_ownership)
    case same
    with pw show ?thesis by (simp add: same_ownership_def)
  next
    case (baseline s1 b1)
    with pw applyOwnershipBaseline_frame(7) [OF baseline(1)] show ?thesis by (simp add: same_ownership_def)
  next
    case (witness w1)
    from witness show ?thesis
    proof (cases rule: applySubmissionWitness_cases)
      case (same w0)
      then show ?thesis using pw by simp
    next
      case new
      have "sw_actionKind w1 \<noteq> Send"
      proof
        assume "sw_actionKind w1 = Send"
        with new(3) obtain c where "obj_get (st_actions s) (sw_actionId w1) = Some c" "ar_kind c = Send"
          by (auto elim!: witness_values_None)
        then have "sw_actionId w1 = ar_actionId a" using durable_send_unique(3) [OF k a(1)] by blast
        with new(1) existing_witnesses_get [OF w] show False by simp
      qed
      with new(4) pw show ?thesis by simp
    qed
  qed
  have p': "send_projection_check s' b w = None"
    using p by (simp add: send_projection_check_def pb pw pb' pw')
  show ?thesis
    by (simp add: requireDurableOriginalSendOwnership_def a' a(2) b' w' m' p')
qed

end
