(* ===== verification/Op_Lifecycle.thy ===== *)
theory Op_Lifecycle
  imports Op_Invariants
begin

text \<open>
  The phases of a reachable operation: which phase changes happen, what they require of the
  original Send, and the terminal receipt. The lemmas of \<open>Op_Invariants\<close> say what an event
  leaves alone; here the phase and the receipt are followed.
\<close>

section \<open>Phase and receipt under one event\<close>

definition same_lifecycle :: "operation_state \<Rightarrow> operation_state \<Rightarrow> bool" where
  "same_lifecycle s s' \<longleftrightarrow> st_phase s' = st_phase s \<and> st_receipt s' = st_receipt s"

lemma effect_lifecycle:
  assumes "event_effect U s ev rv = Inr s'"
  obtains (same) "same_lifecycle s s'"
  | (phase) e where "ev = Phase_changed_event e" "applyPhaseChange s e = Inr s'"
  | (completed) r at where "ev = Receipt_completed_event r at" "applyCompletedReceipt s r at = Inr s'"
  | (content) r where "st_phase s = Completed" "st_receipt s = Some r" "rp_contentAvailable r"
      "s' = s\<lparr>st_receipt := Some (r\<lparr>rp_contentAvailable := False\<rparr>)\<rparr>"
proof (cases ev)
  case (Phase_changed_event e)
  with assms have "applyPhaseChange s e = Inr s'" by (simp add: after_time_Inr)
  with Phase_changed_event show thesis by (rule phase)
next
  case (Receipt_completed_event r at)
  with assms have "applyCompletedReceipt s r at = Inr s'" by (simp add: after_time_Inr)
  with Receipt_completed_event show thesis by (rule completed)
next
  case (Content_availability_changed_event b at)
  with assms have "applyContentAvailability s b = Inr s'" by (simp add: after_time_Inr)
  then show thesis by (rule applyContentAvailability_Inr) (rule content)
next
  case (Ownership_baseline_event b)
  with assms have "applyOwnershipBaseline s b = Inr s'" by (simp add: after_time_Inr)
  from applyOwnershipBaseline_frame [OF this] same show thesis by (simp add: same_lifecycle_def)
next
  case (Submission_witness_event w)
  with assms have "applySubmissionWitness s w = Inr s'" by (simp add: after_time_Inr)
  from applySubmissionWitness_frame [OF this] same show thesis by (simp add: same_lifecycle_def)
next
  case (Action_intent_event a at)
  with assms have "applyActionIntent s a rv at = Inr s'" by (simp add: after_time_Inr)
  from applyActionIntent_Inr(2) [OF this] same show thesis by (simp add: same_lifecycle_def)
next
  case (Action_prepared_event a at b)
  with assms obtain s1 where 1: "applyActionIntent s a rv at = Inr s1"
    and 2: "applyOwnershipBaseline s1 b = Inr s'"
    by (auto elim: applyPrepared_Inr split: option.splits)
  from applyActionIntent_Inr(2) [OF 1] applyOwnershipBaseline_frame [OF 2] same show thesis
    by (simp add: same_lifecycle_def)
next
  case (Artifact_transfer_intent_event i)
  with assms have "applyArtifactTransferIntent s i rv = Inr s'" by (simp add: after_time_Inr)
  then obtain s1 ts where 1: "applyActionIntent s (transfer_action i) rv (ti_intentAt i) = Inr s1"
    and s': "s' = s1\<lparr>st_artifactTransfers := ts\<rparr>"
    by (rule applyArtifactTransferIntent_Inr) blast
  from applyActionIntent_Inr(2) [OF 1] s' same show thesis by (simp add: same_lifecycle_def)
next
  case (Artifact_transfer_receipt_event r)
  with assms have "applyArtifactTransferReceipt s r rv = Inr s'" by (simp add: after_time_Inr)
  then obtain s1 ts where 1: "applyActionReceipt s (transfer_action_receipt r) rv = Inr s1"
    and s': "s' = s1\<lparr>st_artifactTransfers := ts\<rparr>"
    by (rule applyArtifactTransferReceipt_Inr) blast
  from 1 s' same show thesis by (auto elim!: applyActionReceipt_Inr simp: same_lifecycle_def)
next
  case (Action_receipt_event r)
  with assms have "applyActionReceipt s r rv = Inr s'" by (simp add: after_time_Inr)
  with same show thesis by (auto elim!: applyActionReceipt_Inr simp: same_lifecycle_def)
next
  case (Target_bound t at)
  with assms have "same_lifecycle s s'" by (auto simp: res_simps same_lifecycle_def)
  then show thesis by (rule same)
next
  case (Target_established e)
  with assms have "same_lifecycle s s'" by (auto simp: res_simps same_lifecycle_def)
  then show thesis by (rule same)
next
  case (Blocker_observed_event b)
  with assms have "same_lifecycle s s'" by (auto simp: after_time_Inr same_lifecycle_def)
  then show thesis by (rule same)
qed (use assms in simp)

section \<open>Legal edges and their causes\<close>

lemma applyPhaseChange_edge:
  assumes "applyPhaseChange s e = Inr s'"
  obtains tos where "LEGAL_EDGES (st_phase s) = Some tos" "pe_to e \<in> set tos"
    "assertCausalTransition s (pe_to e) (st_mutationBoundary s) (phase_cause s e) (pe_evidenceDigest e) = None"
    "pe_to e \<noteq> Uncertain \<Longrightarrow> st_target s \<noteq> None"
    "\<And>t. st_target s = Some t \<Longrightarrow> tb_targetLifecycle t = Some New_pending \<Longrightarrow>
        pe_to e \<notin> {Submitted, Generating, Capturing, Completed}"
  using assms by (auto simp: applyPhaseChange_def edge_check_def split: option.splits)

lemma legal_edge_cases:
  "LEGAL_EDGES p = Some tos \<Longrightarrow> q \<in> set tos \<Longrightarrow>
     p \<noteq> Completed \<and> q \<noteq> Completed \<and> q \<noteq> Prepared \<and> (\<forall>x. q \<noteq> Other_phase x) \<and> (\<forall>x. p \<noteq> Other_phase x)"
  by (cases p) auto

definition owned_phase :: "operation_phase \<Rightarrow> bool" where
  "owned_phase p \<longleftrightarrow> p \<in> {Submitted, Generating, Capturing, Completed}"

lemma causal_owned:
  "assertCausalTransition s to b c ev = None \<Longrightarrow> owned_phase to \<Longrightarrow>
     requireDurableOriginalSendOwnership s = None"
  by (auto simp: assertCausalTransition_def owned_phase_def)

lemma effect_durable:
  assumes k: "ledger_keyed s" and i: "owned_phase (st_phase s) \<Longrightarrow> requireDurableOriginalSendOwnership s = None"
    and e: "event_effect U s ev rv = Inr s'" and o': "owned_phase (st_phase s')"
  shows "requireDurableOriginalSendOwnership s' = None"
proof -
  have "requireDurableOriginalSendOwnership s = None"
    using e
  proof (cases rule: effect_lifecycle)
    case same
    with i o' show ?thesis by (simp add: same_lifecycle_def)
  next
    case (phase x)
    from phase(2) show ?thesis
    proof (rule applyPhaseChange_edge)
      assume "assertCausalTransition s (pe_to x) (st_mutationBoundary s) (phase_cause s x) (pe_evidenceDigest x) = None"
      then show ?thesis
        using o' applyPhaseChange_frame(3) [OF phase(2)] by (intro causal_owned) simp_all
    qed
  next
    case (completed r at)
    then show ?thesis using applyCompletedReceipt_Inr(6) by blast
  next
    case (content r)
    with i o' show ?thesis by simp
  qed
  then show ?thesis by (rule durable_effect [OF k _ e])
qed

lemma durable_cong:
  assumes "st_actions s' = st_actions s" "st_operationId s' = st_operationId s"
    "st_requestDigest s' = st_requestDigest s" "st_ownershipBaselines s' = st_ownershipBaselines s"
    "st_ownershipBaseline s' = st_ownershipBaseline s"
    "st_submissionWitnesses s' = st_submissionWitnesses s" "st_submissionWitness s' = st_submissionWitness s"
  shows "requireDurableOriginalSendOwnership s' = requireDurableOriginalSendOwnership s"
proof -
  have "baseline_of s' = baseline_of s" "witness_of s' = witness_of s"
    "send_proof_mismatch s' = send_proof_mismatch s" "send_projection_check s' = send_projection_check s"
    by (intro ext; simp add: assms baseline_of_def witness_of_def send_proof_mismatch_def
        send_projection_check_def cong: option.case_cong)+
  moreover have "send_actions s' = send_actions s" by (simp add: send_actions_def assms)
  ultimately show ?thesis by (simp only: requireDurableOriginalSendOwnership_def)
qed

lemma durable_withRevision [simp]:
  "requireDurableOriginalSendOwnership (withRevision r at s) = requireDurableOriginalSendOwnership s"
  by (rule durable_cong) simp_all

lemma reachable_owned [op_inv]:
  "op_reachable U s \<Longrightarrow> owned_phase (st_phase s) \<Longrightarrow> requireDurableOriginalSendOwnership s = None"
proof (induction rule: op_reachable.induct)
  case (created ev s)
  then show ?case by (auto elim!: created_is_created simp: created_state_def owned_phase_def)
next
  case (extended s ev s')
  from extended.hyps(2) obtain s1 where e: "event_effect U s ev (st_revision s + 1) = Inr s1"
    and s': "s' = withRevision (st_revision s + 1) (event_time ev) s1"
    by (rule step_effect)
  have "requireDurableOriginalSendOwnership s1 = None"
    using effect_durable [OF reachable_keyed [OF extended.hyps(1)] extended.IH e] extended.prems s' by simp
  then show ?case by (simp add: s')
qed

text \<open>A receipt is present exactly in the completed phase.\<close>

lemma reachable_receipt [op_inv]: "op_reachable U s \<Longrightarrow> st_receipt s \<noteq> None \<longleftrightarrow> st_phase s = Completed"
proof (induction rule: op_reachable.induct)
  case (created ev s)
  then show ?case by (auto elim!: created_is_created simp: created_state_def)
next
  case (extended s ev s')
  from extended.hyps(2) obtain s1 where e: "event_effect U s ev (st_revision s + 1) = Inr s1"
    and s': "s' = withRevision (st_revision s + 1) (event_time ev) s1"
    by (rule step_effect)
  from e have "st_receipt s1 \<noteq> None \<longleftrightarrow> st_phase s1 = Completed"
  proof (cases rule: effect_lifecycle)
    case same
    with extended.IH show ?thesis by (simp add: same_lifecycle_def)
  next
    case (phase x)
    from phase(2) obtain tos where "LEGAL_EDGES (st_phase s) = Some tos" "pe_to x \<in> set tos"
      by (rule applyPhaseChange_edge)
    then show ?thesis
      using legal_edge_cases extended.IH applyPhaseChange_frame [OF phase(2)] by auto
  next
    case (completed r at)
    from applyCompletedReceipt_Inr(9) [OF completed(2)] show ?thesis by simp
  next
    case (content r)
    then show ?thesis by simp
  qed
  then show ?case by (simp add: s')
qed

text \<open>A completed operation stays completed and keeps its receipt, up to its availability flag.\<close>

lemma step_completed:
  assumes st: "op_step U s ev s'" and c: "st_phase s = Completed" and r: "st_receipt s = Some r"
  shows "st_phase s' = Completed \<and> (st_receipt s' = Some r \<or>
     rp_contentAvailable r \<and> st_receipt s' = Some (r\<lparr>rp_contentAvailable := False\<rparr>))"
proof -
  from st obtain s1 where e: "event_effect U s ev (st_revision s + 1) = Inr s1"
    and s': "s' = withRevision (st_revision s + 1) (event_time ev) s1"
    by (rule step_effect)
  from e show ?thesis
  proof (cases rule: effect_lifecycle)
    case same
    with c r show ?thesis by (simp add: same_lifecycle_def s')
  next
    case (phase x)
    from phase(2) obtain tos where "LEGAL_EDGES (st_phase s) = Some tos" "pe_to x \<in> set tos"
      by (rule applyPhaseChange_edge)
    then show ?thesis using legal_edge_cases c by blast
  next
    case (completed r at)
    from applyCompletedReceipt_Inr(1) [OF completed(2)] c show ?thesis by simp
  next
    case (content r')
    with c r show ?thesis by (simp add: s')
  qed
qed

lemma step_phase:
  assumes "op_step U s ev s'"
  shows "st_phase s' = st_phase s \<or>
     (\<exists>e tos. ev = Phase_changed_event e \<and> LEGAL_EDGES (st_phase s) = Some tos \<and> st_phase s' \<in> set tos) \<or>
     (\<exists>r at. ev = Receipt_completed_event r at \<and> st_phase s \<in> {Capturing, Uncertain} \<and> st_phase s' = Completed)"
proof -
  from assms obtain s1 where e: "event_effect U s ev (st_revision s + 1) = Inr s1"
    and s': "s' = withRevision (st_revision s + 1) (event_time ev) s1"
    by (rule step_effect)
  from e show ?thesis
  proof (cases rule: effect_lifecycle)
    case same
    then show ?thesis by (simp add: same_lifecycle_def s')
  next
    case (phase x)
    from phase(2) obtain tos where "LEGAL_EDGES (st_phase s) = Some tos" "pe_to x \<in> set tos"
      by (rule applyPhaseChange_edge)
    then show ?thesis using applyPhaseChange_frame(3) [OF phase(2)] phase(1) s' by auto
  next
    case (completed r at)
    then show ?thesis using applyCompletedReceipt_Inr(1,9) [OF completed(2)] s' by auto
  next
    case (content r)
    then show ?thesis by (simp add: s')
  qed
qed

end
