(* ===== verification/Canonical_Total.thy ===== *)
theory Canonical_Total
  imports Canonical_Json
begin

text \<open>
  \<open>canonicalJson\<close> succeeds on every plain JSON tree within four declarative bounds (height,
  properties, key length, weight of the text), which replace the budget that the code
  threads through the traversal.
\<close>

declare canonicalValue.simps [simp del]

section \<open>Measures of a tree\<close>

primrec prop_sum :: "nat jprop \<Rightarrow> nat" where
  "prop_sum (Data _ n) = n"
| "prop_sum Accessor = 0"

primrec prop_safe :: "bool jprop \<Rightarrow> bool" where
  "prop_safe (Data e b) = (e \<and> b)"
| "prop_safe Accessor = False"

primrec vprops :: "jsv \<Rightarrow> nat" where
  "vprops JUndefined = 0" | "vprops JNull = 0" | "vprops (JBool _) = 0" | "vprops (JNum _) = 0"
| "vprops JNegZero = 0" | "vprops JNonFinite = 0" | "vprops (JStr _) = 0"
| "vprops (JUnsupported _) = 0" | "vprops JAncestor = 0" | "vprops (JOddArray _) = 0"
| "vprops (JDate _ _) = 0" | "vprops (JBytes _ _) = 0" | "vprops JExotic = 0"
| "vprops (JArr vs) = sum_list (map Suc (map vprops vs))"
| "vprops (JObj n ps) = sum_list (map (\<lambda>(k, p). Suc (prop_sum p)) (map (map_prod id (map_jprop vprops)) ps))"

primrec vheight :: "jsv \<Rightarrow> nat" where
  "vheight JUndefined = 0" | "vheight JNull = 0" | "vheight (JBool _) = 0" | "vheight (JNum _) = 0"
| "vheight JNegZero = 0" | "vheight JNonFinite = 0" | "vheight (JStr _) = 0"
| "vheight (JUnsupported _) = 0" | "vheight JAncestor = 0" | "vheight (JOddArray _) = 0"
| "vheight (JDate _ _) = 0" | "vheight (JBytes _ _) = 0" | "vheight JExotic = 0"
| "vheight (JArr vs) = foldr (\<lambda>h m. max (Suc h) m) (map vheight vs) 0"
| "vheight (JObj n ps) =
     foldr (\<lambda>(k, p) m. max (Suc (prop_sum p)) m) (map (map_prod id (map_jprop vheight)) ps) 0"

text \<open>An upper bound of the bytes of the printed text and of the budgeted bytes.\<close>

primrec vweight :: "jsv \<Rightarrow> nat" where
  "vweight JUndefined = 0" | "vweight JNull = 4" | "vweight (JBool _) = 5" | "vweight (JNum _) = 34"
| "vweight JNegZero = 34" | "vweight JNonFinite = 0" | "vweight (JStr s) = byteLength (string_text s)"
| "vweight (JUnsupported _) = 0" | "vweight JAncestor = 0" | "vweight (JOddArray _) = 0"
| "vweight (JDate _ _) = 0" | "vweight (JBytes _ _) = 0" | "vweight JExotic = 0"
| "vweight (JArr vs) = 2 + sum_list (map (\<lambda>w. w + 10) (map vweight vs))"
| "vweight (JObj n ps) = 2 + sum_list (map (\<lambda>(k, p). prop_sum p + byteLength (string_text k) + 2)
                                (map (map_prod id (map_jprop vweight)) ps))"

primrec vsafe :: "jsv \<Rightarrow> bool" where
  "vsafe JUndefined = False" | "vsafe JNull = True" | "vsafe (JBool _) = True"
| "vsafe (JNum n) = is_safe_integer n"
| "vsafe JNegZero = True" | "vsafe JNonFinite = False" | "vsafe (JStr s) = True"
| "vsafe (JUnsupported _) = False" | "vsafe JAncestor = False" | "vsafe (JOddArray _) = False"
| "vsafe (JDate _ _) = False" | "vsafe (JBytes _ _) = False" | "vsafe JExotic = False"
| "vsafe (JArr vs) = list_all id (map vsafe vs)"
| "vsafe (JObj n ps) = (n = 0 \<and> list_all (\<lambda>(k, p). prop_safe p \<and> byteLength k \<le> MAX_CANONICAL_KEY_BYTES
        \<and> k \<notin> set RESERVED_CANONICAL_KEYS) (map (map_prod id (map_jprop vsafe)) ps))"

section \<open>Lengths of texts\<close>

lemma byteLength_append [simp]: "byteLength (s @ t) = byteLength s + byteLength t"
  by (simp add: byteLength_def)

lemma byteLength_Nil [simp]: "byteLength [] = 0"
  by (simp add: byteLength_def)

lemma byteLength_Cons: "byteLength (c # s) = (if (of_char c :: nat) < 128 then 1 else 2) + byteLength s"
  by (simp add: byteLength_def)

lemma byteLength_le: "byteLength s \<le> 2 * length s"
  by (induction s) (auto simp: byteLength_Cons)

lemma length_nat_text: "0 < k \<Longrightarrow> n < 10 ^ k \<Longrightarrow> length (nat_text n) \<le> k"
proof (induction k arbitrary: n)
  case (Suc k)
  show ?case
  proof (cases "n < 10")
    case True
    then show ?thesis by (simp add: nat_text.simps [of n])
  next
    case False
    then have k: "0 < k" using Suc.prems(2) by (cases k) auto
    have "n div 10 < 10 ^ k" using Suc.prems(2) by (simp add: less_mult_imp_div_less mult.commute)
    from Suc.IH [OF k this] False show ?thesis by (simp add: nat_text.simps [of n])
  qed
qed simp

lemma int_text_weight: "is_safe_integer i \<Longrightarrow> byteLength (int_text i) \<le> 34"
proof -
  assume i: "is_safe_integer i"
  have "\<bar>i\<bar> < 10 ^ 16" using i by (simp add: is_safe_integer_def MAX_SAFE_INTEGER_def abs_less_iff)
  then have "nat \<bar>i\<bar> < 10 ^ 16" by (simp add: nat_less_iff)
  then have "length (nat_text (nat \<bar>i\<bar>)) \<le> 16" by (rule length_nat_text [rotated]) simp
  then have "length (int_text i) \<le> 17"
    by (cases "i < 0") (simp_all add: int_text_def)
  then show ?thesis using byteLength_le [of "int_text i"] by linarith
qed

lemma index_bytes: "i < 100000 \<Longrightarrow> byteLength (nat_text i) \<le> 10"
  using byteLength_le [of "nat_text i"] length_nat_text [of 5 i] by simp

lemma byteLength_escape: "byteLength [c] \<le> byteLength (json_escape c)"
  by (auto simp: json_escape_def Let_def byteLength_def)

lemma byteLength_string_text: "byteLength s \<le> byteLength (string_text s)"
proof -
  have "byteLength s \<le> byteLength (concat (map json_escape s))"
  proof (induction s)
    case (Cons c s)
    then show ?case using byteLength_escape [of c] by (simp add: byteLength_Cons)
  qed simp
  then show ?thesis by (simp add: string_text_def byteLength_Cons)
qed

lemma byteLength_concat: "byteLength (concat ss) = sum_list (map byteLength ss)"
  by (induction ss) simp_all

lemma byteLength_join: "byteLength (join_with '','' ss) \<le> sum_list (map (\<lambda>s. byteLength s + 1) ss)"
  by (cases ss) (simp_all add: join_with_def byteLength_concat comp_def byteLength_Cons)

lemma mset_enumeration_order: "mset (enumeration_order ps) = mset ps"
proof -
  have "filter (\<lambda>p. \<not> is_array_index (fst p)) ps = filter (Not \<circ> (is_array_index \<circ> fst)) ps"
    by (simp add: comp_def)
  then show ?thesis
    by (simp add: enumeration_order_def)
qed

lemma sum_enumeration_order: "sum_list (map f (enumeration_order ps)) = (sum_list (map f ps) :: nat)"
  using mset_enumeration_order [of ps] by (metis mset_map sum_mset_sum_list)

lemma sum_sort_key: "sum_list (map f (sort_key k ps)) = (sum_list (map f ps) :: nat)"
  by (metis mset_map mset_sort sum_mset_sum_list)


section \<open>The budgeted traversal\<close>

definition fits :: "nat \<Rightarrow> nat \<Rightarrow> nat \<Rightarrow> nat \<Rightarrow> canonical_budget \<Rightarrow> bool" where
  "fits height nodes properties bytes b \<longleftrightarrow> height \<le> MAX_CANONICAL_DEPTH \<and>
     bg_nodes b + nodes \<le> MAX_CANONICAL_NODES \<and>
     bg_properties b + properties \<le> MAX_CANONICAL_PROPERTIES \<and>
     bg_bytes b + bytes \<le> MAX_CANONICAL_BYTES"

definition spends :: "nat \<Rightarrow> nat \<Rightarrow> nat \<Rightarrow> canonical_budget \<Rightarrow> canonical_budget \<Rightarrow> bool" where
  "spends nodes properties bytes b b' \<longleftrightarrow> bg_nodes b' = bg_nodes b + nodes \<and>
     bg_properties b' = bg_properties b + properties \<and> bg_bytes b' \<le> bg_bytes b + bytes"

definition prints :: "jsv \<Rightarrow> bool" where
  "prints v \<longleftrightarrow> (\<forall>d b. vsafe v \<and> fits (d + vheight v) (vprops v + 1) (vprops v) (vweight v) b \<longrightarrow>
     (\<exists>c b'. canonicalValue v d b = Inr (c, b') \<and> spends (vprops v + 1) (vprops v) (vweight v) b b' \<and>
        byteLength (json_text c) \<le> vweight v))"

lemma consumeNode_ok:
  "fits d (Suc n) p y b \<Longrightarrow> consumeNode d b = Inr (b\<lparr>bg_nodes := Suc (bg_nodes b)\<rparr>)"
  by (simp add: consumeNode_def fits_def)

lemma consumeBytes_ok:
  "bg_bytes b + byteLength s \<le> MAX_CANONICAL_BYTES \<Longrightarrow>
     consumeBytes s b = Inr (b\<lparr>bg_bytes := bg_bytes b + byteLength s\<rparr>)"
  by (simp add: consumeBytes_def Let_def)

lemma consumeProperty_ok:
  "fits h n (Suc p) (byteLength k) b \<Longrightarrow> byteLength k \<le> MAX_CANONICAL_KEY_BYTES \<Longrightarrow>
     consumeProperty k b = Inr (b\<lparr>bg_properties := Suc (bg_properties b), bg_bytes := bg_bytes b + byteLength k\<rparr>)"
  by (simp add: consumeProperty_def consumeBytes_ok fits_def)

definition elem_props :: "jsv list \<Rightarrow> nat" where "elem_props vs = sum_list (map (\<lambda>v. Suc (vprops v)) vs)"
definition elem_weight :: "jsv list \<Rightarrow> nat" where "elem_weight vs = sum_list (map (\<lambda>v. vweight v + 10) vs)"

lemma elements_print:
  assumes "\<forall>v\<in>set vs. prints v \<and> vsafe v \<and> Suc d + vheight v \<le> MAX_CANONICAL_DEPTH"
    and "fits d (elem_props vs) (elem_props vs) (elem_weight vs) b" and "i + length vs \<le> 100000"
  shows "\<exists>cs b'. canonicalElements vs i d b = Inr (cs, b') \<and>
     spends (elem_props vs) (elem_props vs) (elem_weight vs) b b' \<and>
     sum_list (map (\<lambda>c. byteLength (json_text c) + 1) cs) \<le> elem_weight vs"
  using assms
proof (induction vs arbitrary: i b)
  case Nil
  then show ?case by (simp add: canonicalValue.simps spends_def elem_props_def elem_weight_def)
next
  case (Cons v vs)
  have k: "byteLength (nat_text i) \<le> 10" using Cons.prems(3) by (intro index_bytes) simp
  let ?b1 = "b\<lparr>bg_properties := Suc (bg_properties b), bg_bytes := bg_bytes b + byteLength (nat_text i)\<rparr>"
  have 1: "consumeProperty (nat_text i) b = Inr ?b1"
    using Cons.prems(2) k
    by (intro consumeProperty_ok [where h = d and n = 0 and p = 0])
      (simp_all add: fits_def elem_props_def elem_weight_def MAX_CANONICAL_KEY_BYTES_def)
  have "fits (Suc d + vheight v) (vprops v + 1) (vprops v) (vweight v) ?b1"
    using Cons.prems k by (simp add: fits_def elem_props_def elem_weight_def)
  then obtain c b2 where 2: "canonicalValue v (Suc d) ?b1 = Inr (c, b2)"
    and s2: "spends (vprops v + 1) (vprops v) (vweight v) ?b1 b2"
    and t2: "byteLength (json_text c) \<le> vweight v"
    using Cons.prems(1) unfolding prints_def by fastforce
  have "fits d (elem_props vs) (elem_props vs) (elem_weight vs) b2"
    using Cons.prems(2) s2 k by (simp add: fits_def spends_def elem_props_def elem_weight_def)
  from Cons.IH [OF _ this, of "Suc i"] Cons.prems(1,3)
  obtain cs b3 where 3: "canonicalElements vs (Suc i) d b2 = Inr (cs, b3)"
    and s3: "spends (elem_props vs) (elem_props vs) (elem_weight vs) b2 b3"
    and t3: "sum_list (map (\<lambda>c. byteLength (json_text c) + 1) cs) \<le> elem_weight vs"
    by auto
  show ?case
    using 1 2 3 s2 s3 t2 t3 k
    by (auto simp: canonicalValue.simps spends_def elem_props_def elem_weight_def)
qed

text \<open>An object's properties, already sorted.\<close>

definition field_safe :: "nat \<Rightarrow> string \<times> jsv jprop \<Rightarrow> bool" where
  "field_safe d x = (case x of (k, Data e v) \<Rightarrow> e \<and> prints v \<and> vsafe v
       \<and> Suc d + vheight v \<le> MAX_CANONICAL_DEPTH \<and> byteLength k \<le> MAX_CANONICAL_KEY_BYTES
       \<and> k \<notin> set RESERVED_CANONICAL_KEYS
     | _ \<Rightarrow> False)"

definition field_props :: "string \<times> jsv jprop \<Rightarrow> nat" where
  "field_props x = (case x of (k, Data e v) \<Rightarrow> Suc (vprops v) | _ \<Rightarrow> 1)"

definition field_weight :: "string \<times> jsv jprop \<Rightarrow> nat" where
  "field_weight x = (case x of (k, Data e v) \<Rightarrow> vweight v + byteLength (string_text k) + 2
     | (k, Accessor) \<Rightarrow> byteLength (string_text k) + 2)"

definition text_weight :: "(string \<times> cjson) list \<Rightarrow> nat" where
  "text_weight cs = sum_list (map (\<lambda>(k, c). byteLength (json_text c) + byteLength (string_text k) + 2) cs)"

lemma properties_print:
  assumes "\<forall>x\<in>set ps. field_safe d x"
    and "fits d (sum_list (map field_props ps)) (sum_list (map field_props ps)) (sum_list (map field_weight ps)) b"
  shows "\<exists>cs b'. canonicalProperties ps d b = Inr (cs, b') \<and>
     spends (sum_list (map field_props ps)) (sum_list (map field_props ps)) (sum_list (map field_weight ps)) b b' \<and>
     text_weight cs \<le> sum_list (map field_weight ps)"
  using assms
proof (induction ps arbitrary: b)
  case Nil
  then show ?case by (simp add: canonicalValue.simps spends_def text_weight_def)
next
  case (Cons x ps)
  obtain k v where x: "x = (k, Data True v)"
    using Cons.prems(1) by (auto simp: field_safe_def split: prod.splits jprop.splits)
  have v: "prints v" "vsafe v" "Suc d + vheight v \<le> MAX_CANONICAL_DEPTH"
    and kb: "byteLength k \<le> MAX_CANONICAL_KEY_BYTES" and kr: "k \<notin> set RESERVED_CANONICAL_KEYS"
    using Cons.prems(1) by (simp_all add: x field_safe_def)
  note kt = byteLength_string_text [of k]
  have fp: "field_props x = Suc (vprops v)"
    and fw: "field_weight x = vweight v + byteLength (string_text k) + 2"
    by (simp_all add: x field_props_def field_weight_def)
  let ?b1 = "b\<lparr>bg_properties := Suc (bg_properties b), bg_bytes := bg_bytes b + byteLength k\<rparr>"
  have 1: "consumeProperty k b = Inr ?b1"
    using Cons.prems(2) kb kt
    by (intro consumeProperty_ok [where h = d and n = 0 and p = 0])
      (simp_all add: fits_def fp fw)
  have "fits (Suc d + vheight v) (vprops v + 1) (vprops v) (vweight v) ?b1"
    using Cons.prems(2) v(3) kt by (simp add: fits_def fp fw)
  then obtain c b2 where 2: "canonicalValue v (Suc d) ?b1 = Inr (c, b2)"
    and s2: "spends (vprops v + 1) (vprops v) (vweight v) ?b1 b2"
    and t2: "byteLength (json_text c) \<le> vweight v"
    using v unfolding prints_def by fastforce
  have "fits d (sum_list (map field_props ps)) (sum_list (map field_props ps)) (sum_list (map field_weight ps)) b2"
    using Cons.prems(2) s2 kt by (simp add: fits_def spends_def fp fw)
  from Cons.IH [OF _ this] Cons.prems(1)
  obtain cs b3 where 3: "canonicalProperties ps d b2 = Inr (cs, b3)"
    and s3: "spends (sum_list (map field_props ps)) (sum_list (map field_props ps)) (sum_list (map field_weight ps)) b2 b3"
    and t3: "text_weight cs \<le> sum_list (map field_weight ps)"
    by auto
  show ?case
    using 1 2 3 s2 s3 t2 t3 kt kr fp fw
    by (auto simp: canonicalValue.simps spends_def x text_weight_def)
qed


section \<open>Every safe tree within the bounds prints\<close>

lemma foldr_max_le: "foldr (\<lambda>h m. max (Suc h) m) hs 0 \<le> (n::nat) \<longleftrightarrow> (\<forall>h\<in>set hs. Suc h \<le> n)"
  by (induction hs) auto

lemma foldr_max_prop_le:
  "foldr (\<lambda>(k, p) m. max (Suc (prop_sum p)) m) hs 0 \<le> n \<longleftrightarrow> (\<forall>(k, p)\<in>set hs. Suc (prop_sum p) \<le> n)"
  by (induction hs) auto

lemma sum_length: "length vs \<le> elem_props vs"
  by (induction vs) (simp_all add: elem_props_def)

lemma prints_JArr:
  assumes "\<And>v. v \<in> set vs \<Longrightarrow> prints v"
  shows "prints (JArr vs)"
  unfolding prints_def
proof (intro allI impI)
  fix d b
  assume a: "vsafe (JArr vs) \<and> fits (d + vheight (JArr vs)) (vprops (JArr vs) + 1) (vprops (JArr vs)) (vweight (JArr vs)) b"
  have p: "vprops (JArr vs) = elem_props vs" and w: "vweight (JArr vs) = 2 + elem_weight vs"
    by (simp_all add: elem_props_def elem_weight_def comp_def)
  let ?b = "b\<lparr>bg_nodes := Suc (bg_nodes b)\<rparr>"
  have n: "consumeNode d b = Inr ?b"
    using a unfolding p by (intro consumeNode_ok [where n = 0 and p = 0 and y = 0]) (simp add: fits_def)
  have h: "\<forall>v\<in>set vs. prints v \<and> vsafe v \<and> Suc d + vheight v \<le> MAX_CANONICAL_DEPTH"
  proof
    fix v assume v: "v \<in> set vs"
    have "foldr (\<lambda>h m. max (Suc h) m) (map vheight vs) 0 \<le> MAX_CANONICAL_DEPTH - d"
      and "d \<le> MAX_CANONICAL_DEPTH"
      using a by (auto simp: fits_def)
    then have "Suc (vheight v) \<le> MAX_CANONICAL_DEPTH - d" using v unfolding foldr_max_le by simp
    with a v assms show "prints v \<and> vsafe v \<and> Suc d + vheight v \<le> MAX_CANONICAL_DEPTH"
      by (simp add: list_all_iff)
  qed
  have l: "length vs \<le> MAX_CANONICAL_ARRAY_LENGTH"
    using a sum_length [of vs] unfolding p
    by (simp add: fits_def MAX_CANONICAL_PROPERTIES_def MAX_CANONICAL_ARRAY_LENGTH_def)
  have f: "fits d (elem_props vs) (elem_props vs) (elem_weight vs) ?b"
    using a unfolding p w by (simp add: fits_def)
  obtain cs b' where e: "canonicalElements vs 0 d ?b = Inr (cs, b')"
    and s: "spends (elem_props vs) (elem_props vs) (elem_weight vs) ?b b'"
    and t: "sum_list (map (\<lambda>c. byteLength (json_text c) + 1) cs) \<le> elem_weight vs"
    using elements_print [OF h f, of 0] l by (auto simp: MAX_CANONICAL_ARRAY_LENGTH_def)
  have "byteLength (json_text (CArr cs)) \<le> 2 + elem_weight vs"
    using t byteLength_join [of "map json_text cs"] by (simp add: byteLength_Cons comp_def)
  with n l e s show "\<exists>c b'. canonicalValue (JArr vs) d b = Inr (c, b') \<and>
      spends (vprops (JArr vs) + 1) (vprops (JArr vs)) (vweight (JArr vs)) b b' \<and>
      byteLength (json_text c) \<le> vweight (JArr vs)"
    unfolding p w by (auto simp: canonicalValue.simps spends_def)
qed

lemma prints_JObj:
  assumes "\<And>k e v. (k, Data e v) \<in> set ps \<Longrightarrow> prints v"
  shows "prints (JObj n ps)"
  unfolding prints_def
proof (intro allI impI)
  fix d b
  assume a: "vsafe (JObj n ps) \<and> fits (d + vheight (JObj n ps)) (vprops (JObj n ps) + 1) (vprops (JObj n ps)) (vweight (JObj n ps)) b"
  have fp: "(\<lambda>x. case map_prod id (map_jprop vprops) x of (k, p) \<Rightarrow> Suc (prop_sum p)) = field_props"
    by (rule ext) (auto simp: field_props_def split: jprop.splits prod.splits)
  have p: "vprops (JObj n ps) = sum_list (map field_props ps)"
    by (simp add: comp_def fp)
  have fw: "(\<lambda>x. case map_prod id (map_jprop vweight) x of (k, p) \<Rightarrow> prop_sum p + byteLength (string_text k) + 2) = field_weight"
    by (rule ext) (auto simp: field_weight_def split: jprop.splits prod.splits)
  have w: "vweight (JObj n ps) = 2 + sum_list (map field_weight ps)"
    using fw by (simp add: comp_def)
  let ?b = "b\<lparr>bg_nodes := Suc (bg_nodes b)\<rparr>"
  let ?ps = "sort_key fst ps"
  have sp: "sum_list (map field_props ?ps) = sum_list (map field_props ps)"
    and sw: "sum_list (map field_weight ?ps) = sum_list (map field_weight ps)"
    by (simp_all add: sum_sort_key)
  have nd: "consumeNode d b = Inr ?b"
    using a unfolding p by (intro consumeNode_ok [where n = 0 and p = 0 and y = 0]) (simp add: fits_def)
  have h: "\<forall>x\<in>set ?ps. field_safe d x"
  proof
    fix x assume "x \<in> set ?ps"
    then have xp: "x \<in> set ps" by simp
    obtain k q where x: "x = (k, q)" by (cases x)
    have sf: "prop_safe (map_jprop vsafe q) \<and> byteLength k \<le> MAX_CANONICAL_KEY_BYTES
        \<and> k \<notin> set RESERVED_CANONICAL_KEYS"
      using a xp x by (auto simp: list_all_iff)
    then obtain v where q: "q = Data True v" "vsafe v" by (cases q) auto
    have "foldr (\<lambda>(k, p) m. max (Suc (prop_sum p)) m) (map (map_prod id (map_jprop vheight)) ps) 0
        \<le> MAX_CANONICAL_DEPTH - d" and "d \<le> MAX_CANONICAL_DEPTH"
      using a by (auto simp: fits_def)
    then have "Suc (vheight v) \<le> MAX_CANONICAL_DEPTH - d"
      using xp unfolding foldr_max_prop_le x q by force
    with \<open>d \<le> MAX_CANONICAL_DEPTH\<close> sf q assms [of k True v] xp x show "field_safe d x"
      by (simp add: field_safe_def)
  qed
  have l: "length ps + n \<le> MAX_CANONICAL_PROPERTIES" "n = 0"
  proof -
    have "length ps \<le> sum_list (map field_props ps)"
      by (induction ps) (auto simp: field_props_def split: prod.splits jprop.splits)
    then show "length ps + n \<le> MAX_CANONICAL_PROPERTIES" "n = 0"
      using a unfolding p by (simp_all add: fits_def)
  qed
  have f: "fits d (sum_list (map field_props ?ps)) (sum_list (map field_props ?ps)) (sum_list (map field_weight ?ps)) ?b"
    using a unfolding p w sp sw by (simp add: fits_def)
  obtain cs b' where e: "canonicalProperties ?ps d ?b = Inr (cs, b')"
    and s: "spends (sum_list (map field_props ps)) (sum_list (map field_props ps)) (sum_list (map field_weight ps)) ?b b'"
    and t: "text_weight cs \<le> sum_list (map field_weight ps)"
    using properties_print [OF h f] unfolding sp sw by blast
  have "byteLength (json_text (CObj cs)) \<le> 2 + text_weight cs"
  proof -
    let ?f = "\<lambda>(k, t). string_text k @ '':'' @ t"
    let ?qs = "map (\<lambda>(k, v). (k, json_text v)) cs"
    have "byteLength (join_with '','' (map ?f (enumeration_order ?qs)))
        \<le> sum_list (map (\<lambda>x. byteLength (?f x) + 1) (enumeration_order ?qs))"
      using byteLength_join [of "map ?f (enumeration_order ?qs)"] by (simp add: comp_def)
    also have "\<dots> = sum_list (map (\<lambda>x. byteLength (?f x) + 1) ?qs)" by (rule sum_enumeration_order)
    also have "\<dots> = text_weight cs"
      unfolding text_weight_def map_map
      by (rule arg_cong [where f = sum_list], rule map_cong [OF refl]) (auto simp: byteLength_Cons)
    finally show ?thesis by (simp add: byteLength_Cons)
  qed
  with nd l e s t show "\<exists>c b'. canonicalValue (JObj n ps) d b = Inr (c, b') \<and>
      spends (vprops (JObj n ps) + 1) (vprops (JObj n ps)) (vweight (JObj n ps)) b b' \<and>
      byteLength (json_text c) \<le> vweight (JObj n ps)"
    unfolding p w by (auto simp: canonicalValue.simps spends_def)
qed

lemma prints_all: "prints v"
proof (induction v)
  case (JStr s)
  have "byteLength s \<le> byteLength (string_text s)" by (rule byteLength_string_text)
  then show ?case
    by (auto simp: prints_def canonicalValue.simps consumeNode_def consumeBytes_ok fits_def spends_def)
next
  case (JArr vs)
  then show ?case by (rule prints_JArr)
next
  case (JObj n ps)
  show ?case by (rule prints_JObj) (force intro: JObj)
next
  case (JNum n)
  then show ?case
    by (auto simp: prints_def canonicalValue.simps consumeNode_def fits_def spends_def int_text_weight)
next
  case JNegZero
  have "is_safe_integer 0" by (simp add: is_safe_integer_def MAX_SAFE_INTEGER_def)
  then show ?case using int_text_weight [of 0]
    by (auto simp: prints_def canonicalValue.simps consumeNode_def fits_def spends_def)
qed (auto simp: prints_def canonicalValue.simps consumeNode_def fits_def spends_def byteLength_def)

lemma canonicalJson_total:
  assumes "vsafe v" "vheight v \<le> MAX_CANONICAL_DEPTH" "vprops v \<le> MAX_CANONICAL_PROPERTIES"
    and "vweight v \<le> MAX_CANONICAL_BYTES"
  obtains t where "canonicalJson v = Inr t"
proof -
  have "fits (0 + vheight v) (vprops v + 1) (vprops v) (vweight v) empty_budget"
    using assms(2-4)
    by (simp add: fits_def empty_budget_def MAX_CANONICAL_NODES_def MAX_CANONICAL_PROPERTIES_def)
  then obtain c b' where "canonicalValue v 0 empty_budget = Inr (c, b')" "byteLength (json_text c) \<le> vweight v"
    using prints_all [of v] assms(1) unfolding prints_def by blast
  then show thesis using that assms(4) by (simp add: canonicalJson_def Let_def)
qed

end
