(* ===== verification/Op_Canonical.thy ===== *)
theory Op_Canonical
  imports Op_Shape_Typed Canonical_Total
begin

text \<open>
  The canonical text of an encoded record exists: the measures of \<open>Canonical_Total\<close> on the
  encodings of \<open>Op_Encode\<close>.
\<close>

section \<open>Measures of an encoded record\<close>

definition enc_fields :: "(string \<times> jsv option) list \<Rightarrow> (string \<times> jsv jprop) list" where
  "enc_fields ps = concat (map (\<lambda>(k, x). case x of None \<Rightarrow> [] | Some v \<Rightarrow> [(k, Data True v)]) ps)"

lemma enc_rec_fields: "enc_rec ps = JObj 0 (enc_fields ps)"
  by (simp add: enc_rec_def enc_fields_def)

lemma enc_fields_simps [simp]:
  "enc_fields [] = []"
  "enc_fields ((k, None) # ps) = enc_fields ps"
  "enc_fields ((k, Some v) # ps) = (k, Data True v) # enc_fields ps"
  by (simp_all add: enc_fields_def)

text \<open>A field's share, none when the field is absent.\<close>

definition opt_sum :: "(jsv \<Rightarrow> nat) \<Rightarrow> jsv option \<Rightarrow> nat" where
  "opt_sum f x = (case x of None \<Rightarrow> 0 | Some v \<Rightarrow> f v)"

lemma opt_sum_simps [simp]: "opt_sum f None = 0" "opt_sum f (Some v) = f v"
  by (simp_all add: opt_sum_def)

lemma vprops_enc_rec:
  "vprops (enc_rec ps) = sum_list (map (\<lambda>(k, x). opt_sum (\<lambda>v. Suc (vprops v)) x) ps)"
  unfolding enc_rec_fields
proof (induction ps)
  case (Cons p ps)
  then show ?case by (cases p; cases "snd p") auto
qed simp

lemma vheight_enc_rec:
  "vheight (enc_rec ps) = foldr (\<lambda>(k, x) m. max (opt_sum (\<lambda>v. Suc (vheight v)) x) m) ps 0"
  unfolding enc_rec_fields
proof (induction ps)
  case (Cons p ps)
  then show ?case by (cases p; cases "snd p") auto
qed simp

lemma vweight_enc_rec:
  "vweight (enc_rec ps) =
     2 + sum_list (map (\<lambda>(k, x). opt_sum (\<lambda>v. vweight v + byteLength (string_text k) + 2) x) ps)"
  unfolding enc_rec_fields
proof (induction ps)
  case (Cons p ps)
  then show ?case by (cases p; cases "snd p") auto
qed simp

lemma vsafe_enc_rec:
  "vsafe (enc_rec ps) = list_all (\<lambda>(k, x). case x of None \<Rightarrow> True
     | Some v \<Rightarrow> vsafe v \<and> byteLength k \<le> MAX_CANONICAL_KEY_BYTES \<and> k \<notin> set RESERVED_CANONICAL_KEYS) ps"
  unfolding enc_rec_fields
proof (induction ps)
  case (Cons p ps)
  then show ?case by (cases p; cases "snd p") auto
qed simp

lemmas enc_measures = vprops_enc_rec vheight_enc_rec vweight_enc_rec vsafe_enc_rec

lemma byteLength_text_plain:
  "\<not> list_ex is_control s \<Longrightarrow> byteLength (string_text s) \<le> 2 * length s + 2"
proof -
  assume s: "\<not> list_ex is_control s"
  have "byteLength (json_escape c) \<le> 2" if "\<not> is_control c" for c
    using that by (auto simp: json_escape_def Let_def byteLength_def is_control_def)
  with s have "byteLength (concat (map json_escape s)) \<le> 2 * length s"
    by (induction s) fastforce+
  then show ?thesis by (simp add: string_text_def byteLength_Cons)
qed

end
