(* ===== verification/Op_Example.thy ===== *)
theory Op_Example
  imports Op_Lifecycle Op_Canonical
begin

text \<open>
  A concrete operation: a fixed target, one Send with its baseline and witness, capture and
  completion. The witnesses of the reducer's properties run it.
\<close>

definition ex_digest :: "char \<Rightarrow> string" where
  "ex_digest c = ''hmac-sha256:'' @ replicate 64 c"

definition ex_time :: "char \<Rightarrow> string" where
  "ex_time c = ''2026-01-01T00:00:0'' @ [c] @ ''.000Z''"

definition ex_op :: string where "ex_op = ''11111111-1111-4111-8111-111111111111''"
definition ex_send :: string where "ex_send = ''22222222-2222-4222-8222-222222222222''"
definition ex_steer :: string where "ex_steer = ''33333333-3333-4333-8333-333333333333''"

text \<open>A URL parser for the example: it accepts every absolute https URL as it stands.\<close>

definition ex_url :: url_parser where
  "ex_url v = (if take 8 v = ''https://'' then Some
     \<lparr>url_protocol = ''https:'', url_username = '''', url_password = '''', url_search = '''',
      url_hash = '''', url_string = v\<rparr> else None)"

definition ex_created :: created_event where
  "ex_created = \<lparr>ev_operationId = ex_op, ev_requestDigest = ex_digest CHR ''1'', ev_surface = Work,
     ev_createdAt = ex_time CHR ''0'',
     ev_capturePolicy = Some \<lparr>cp_responseContent = Include, cp_responseFormat = Markdown,
                         cp_artifacts = Receipt_only\<rparr>\<rparr>"

definition ex_target :: target_binding where
  "ex_target = \<lparr>tb_providerId = ''p'', tb_browserId = ''b'', tb_tabId = ''t'',
     tb_coordinationScope = Process_scope, tb_tabClaimEvidenceDigest = None,
     tb_canonicalThreadUrl = Some ''https://x/c'', tb_conversationId = Some ''c'',
     tb_userTurnBaselineDigest = None, tb_assistantTurnBaselineDigest = None,
     tb_configurationReceiptDigest = None,
     tb_evidenceProfile = \<lparr>ep_providerIdentity = Required, ep_stableTabId = Required,
       ep_stableConversationId = Required, ep_stableUserTurnId = Required,
       ep_authoritativeTabClaim = Not_available, ep_replacementTabRecovery = False\<rparr>,
     tb_targetLifecycle = None, tb_newTargetAnchorDigest = None, tb_blankTaskEvidenceDigest = None,
     tb_targetEstablishment = None\<rparr>"

definition ex_baseline :: "string \<Rightarrow> identity_evidence \<Rightarrow> char \<Rightarrow> operation_baseline" where
  "ex_baseline action url t =
     \<lparr>ob_schemaVersion = OPERATION_OWNERSHIP_BASELINE_SCHEMA_VERSION, ob_operationId = ex_op,
      ob_requestDigest = ex_digest CHR ''1'', ob_targetBindingDigest = ex_digest CHR ''2'',
      ob_actionId = action,
      ob_baseline = \<lparr>bl_schemaVersion = TURN_OWNERSHIP_SCHEMA_VERSION,
        bl_snapshotDigest = ex_digest CHR ''3'',
        bl_target = \<lparr>ot_provider = Available ''p'', ot_browser = Available ''b'', ot_tab = Available ''t'',
          ot_thread = Unavailable Not_exposed, ot_conversation = Available ''c'',
          ot_canonicalThreadUrl = url,
          ot_authoritativeTabClaim = Unavailable Not_exposed, ot_coordinationScope = Process_scope\<rparr>,
        bl_userTurns = [], bl_assistantTurns = [], bl_completeness = ''complete''\<rparr>,
      ob_observedAt = ex_time t\<rparr>"

definition ex_intent :: "string \<Rightarrow> action_kind \<Rightarrow> action_intent" where
  "ex_intent action kind = \<lparr>ai_actionId = action, ai_kind = kind,
     ai_repeatPolicy = Observe_only_after_intent, ai_requestDigest = ex_digest CHR ''1'',
     ai_parentActionId = None, ai_targetDigest = Some (ex_digest CHR ''2'')\<rparr>"

definition ex_witness :: submission_witness where
  "ex_witness = \<lparr>sw_schemaVersion = OPERATION_SUBMISSION_WITNESS_SCHEMA_VERSION, sw_actionId = ex_send,
     sw_actionKind = Send, sw_targetBindingDigest = ex_digest CHR ''2'',
     sw_baselineSnapshotDigest = ex_digest CHR ''3'', sw_postSendDeltaDigest = ex_digest CHR ''4'',
     sw_operationUserEvidenceDigest = ex_digest CHR ''5'', sw_userTurnId = Some ''u'',
     sw_observedAt = ex_time CHR ''5''\<rparr>"

definition ex_pe :: "operation_phase \<Rightarrow> operation_phase \<Rightarrow> mutation_boundary \<Rightarrow> string option \<Rightarrow> char \<Rightarrow> phase_event" where
  "ex_pe from to boundary cause t =
     \<lparr>pe_from = from, pe_to = to, pe_mutationBoundary = boundary, pe_causeActionId = cause,
      pe_evidenceDigest = Some (ex_digest CHR ''6''), pe_observedAt = ex_time t\<rparr>"

definition ex_phase :: "operation_phase \<Rightarrow> operation_phase \<Rightarrow> mutation_boundary \<Rightarrow> string option \<Rightarrow> char \<Rightarrow> operation_event" where
  "ex_phase from to boundary cause t = Phase_changed_event (ex_pe from to boundary cause t)"

definition ex_receipt :: operation_receipt where
  "ex_receipt = \<lparr>rp_schemaVersion = OPERATION_RECEIPT_SCHEMA_VERSION, rp_operationId = ex_op,
     rp_requestDigest = ex_digest CHR ''1'', rp_targetBindingDigest = ex_digest CHR ''2'',
     rp_userTurnId = ''u'', rp_userTurnEvidenceDigest = ex_digest CHR ''5'', rp_assistantTurnId = ''a'',
     rp_ownershipEvidenceDigest = ex_digest CHR ''7'', rp_responseDigest = Some (ex_digest CHR ''8''),
     rp_responseBytes = Some 12, rp_responseFormat = Some Markdown, rp_finishReason = ''stop'',
     rp_contentAvailable = True, rp_artifacts = [], rp_completedAt = ex_time CHR ''8''\<rparr>"

definition ex_events :: "operation_event list" where
  "ex_events =
    [Operation_created ex_created,
     Target_bound ex_target (ex_time CHR ''0''),
     ex_phase Prepared Ready No_mutation None CHR ''1'',
     Action_prepared_event (ex_intent ex_send Send) (ex_time CHR ''2'')
       (ex_baseline ex_send (Available ''https://x/c'') CHR ''2''),
     ex_phase Ready Send_pending Send_may_have_occurred (Some ex_send) CHR ''3'',
     Action_receipt_event \<lparr>rc_actionId = ex_send, rc_outcome = Satisfied,
       rc_evidenceDigest = Some (ex_digest CHR ''6''), rc_blockerCode = None, rc_observedAt = ex_time CHR ''4''\<rparr>,
     Submission_witness_event ex_witness,
     ex_phase Send_pending Submitted Send_may_have_occurred (Some ex_send) CHR ''6'',
     ex_phase Submitted Capturing Send_may_have_occurred None CHR ''7'',
     Receipt_completed_event ex_receipt (ex_time CHR ''8''),
     Content_availability_changed_event False (ex_time CHR ''9'')]"

text \<open>The states the first events lead to.\<close>

definition ex_s1 :: operation_state where "ex_s1 = created_state ex_created 1"
definition ex_s2 :: operation_state where
  "ex_s2 = withRevision 2 (ex_time CHR ''0'') (ex_s1\<lparr>st_target := Some ex_target\<rparr>)"
definition ex_s3 :: operation_state where
  "ex_s3 = withRevision 3 (ex_time CHR ''1'') (ex_s2\<lparr>st_phase := Ready\<rparr>)"

definition ex_send_baseline :: operation_baseline where
  "ex_send_baseline = ex_baseline ex_send (Available ''https://x/c'') CHR ''2''"

definition ex_s4 :: operation_state where
  "ex_s4 = withRevision 4 (ex_time CHR ''2'') (ex_s3
     \<lparr>st_mutationBoundary := Send_may_have_occurred,
      st_actions := [(ex_send, record_of_intent (ex_intent ex_send Send) 4 (ex_time CHR ''2''))],
      st_ownershipBaselines := Some [(ex_send, ex_send_baseline)],
      st_ownershipBaseline := Some ex_send_baseline\<rparr>)"

definition ex_s5 :: operation_state where
  "ex_s5 = withRevision 5 (ex_time CHR ''3'') (ex_s4\<lparr>st_phase := Send_pending\<rparr>)"

definition ex_send_receipt :: action_receipt where
  "ex_send_receipt = \<lparr>rc_actionId = ex_send, rc_outcome = Satisfied,
     rc_evidenceDigest = Some (ex_digest CHR ''6''), rc_blockerCode = None, rc_observedAt = ex_time CHR ''4''\<rparr>"

definition ex_send_record :: action_record where
  "ex_send_record = settled (record_of_intent (ex_intent ex_send Send) 4 (ex_time CHR ''2'')) ex_send_receipt 6"

definition ex_s6 :: operation_state where
  "ex_s6 = withRevision 6 (ex_time CHR ''4'') (ex_s5\<lparr>st_actions := [(ex_send, ex_send_record)]\<rparr>)"

definition ex_s7 :: operation_state where
  "ex_s7 = withRevision 7 (ex_time CHR ''5'') (ex_s6
     \<lparr>st_submissionWitnesses := Some [(ex_send, ex_witness)], st_submissionWitness := Some ex_witness\<rparr>)"

definition ex_s8 :: operation_state where
  "ex_s8 = withRevision 8 (ex_time CHR ''6'') (ex_s7\<lparr>st_phase := Submitted\<rparr>)"
definition ex_s9 :: operation_state where
  "ex_s9 = withRevision 9 (ex_time CHR ''7'') (ex_s8\<lparr>st_phase := Capturing\<rparr>)"
definition ex_s10 :: operation_state where
  "ex_s10 = withRevision 10 (ex_time CHR ''8'') (ex_s9\<lparr>st_phase := Completed, st_receipt := Some ex_receipt\<rparr>)"
definition ex_s11 :: operation_state where
  "ex_s11 = withRevision 11 (ex_time CHR ''9'')
     (ex_s10\<lparr>st_receipt := Some (ex_receipt\<lparr>rp_contentAvailable := False\<rparr>)\<rparr>)"

lemma ex_step1: "applyOperationEvent ex_url None (ex_events ! 0) 1 = Inr ex_s1"
  by code_simp

lemma ex_step2: "applyOperationEvent ex_url (Some ex_s1) (ex_events ! 1) 2 = Inr ex_s2"
  by code_simp

lemma ex_step3: "applyOperationEvent ex_url (Some ex_s2) (ex_events ! 2) 3 = Inr ex_s3"
  by code_simp

lemma ex_step4: "applyOperationEvent ex_url (Some ex_s3) (ex_events ! 3) 4 = Inr ex_s4"
  by code_simp

lemma ex_step5: "applyOperationEvent ex_url (Some ex_s4) (ex_events ! 4) 5 = Inr ex_s5"
  by code_simp

lemma ex_step6: "applyOperationEvent ex_url (Some ex_s5) (ex_events ! 5) 6 = Inr ex_s6"
  by code_simp

lemma ex_step7: "applyOperationEvent ex_url (Some ex_s6) (ex_events ! 6) 7 = Inr ex_s7"
  by code_simp

lemma ex_baseline_canonical: "\<exists>t. canonicalJson (enc_baseline ex_send_baseline) = Inr t"
proof -
  have "vsafe (enc_baseline ex_send_baseline)" by code_simp
  moreover have "vheight (enc_baseline ex_send_baseline) \<le> 10" by code_simp
  moreover have "vprops (enc_baseline ex_send_baseline) \<le> 100" by code_simp
  moreover have "vweight (enc_baseline ex_send_baseline) \<le> 2000" by code_simp
  ultimately show ?thesis
    using canonicalJson_total [of "enc_baseline ex_send_baseline"]
    by (fastforce simp: MAX_CANONICAL_DEPTH_def MAX_CANONICAL_PROPERTIES_def MAX_CANONICAL_BYTES_def)
qed

lemma ex_witness_canonical: "\<exists>t. canonicalJson (enc_witness ex_witness) = Inr t"
proof -
  have "vsafe (enc_witness ex_witness)" by code_simp
  moreover have "vheight (enc_witness ex_witness) \<le> 10" by code_simp
  moreover have "vprops (enc_witness ex_witness) \<le> 100" by code_simp
  moreover have "vweight (enc_witness ex_witness) \<le> 2000" by code_simp
  ultimately show ?thesis
    using canonicalJson_total [of "enc_witness ex_witness"]
    by (fastforce simp: MAX_CANONICAL_DEPTH_def MAX_CANONICAL_PROPERTIES_def MAX_CANONICAL_BYTES_def)
qed

lemma ex_durable: "requireDurableOriginalSendOwnership ex_s7 = None"
proof -
  have a: "send_actions ex_s7 = [ex_send_record]" by code_simp
  have k: "ar_actionId ex_send_record = ex_send" "ar_outcome ex_send_record = Some Satisfied"
    by code_simp+
  have b: "baseline_of ex_s7 ex_send = Some ex_send_baseline" by code_simp
  have w: "witness_of ex_s7 ex_send = Some ex_witness" by code_simp
  have m: "\<not> send_proof_mismatch ex_s7 ex_send_record ex_send_baseline ex_witness" by code_simp
  have p: "st_ownershipBaseline ex_s7 = Some ex_send_baseline" "st_submissionWitness ex_s7 = Some ex_witness"
    by code_simp+
  show ?thesis
    using ex_baseline_canonical ex_witness_canonical
    by (auto simp: requireDurableOriginalSendOwnership_def a k b w m send_projection_check_def p)
qed

lemma ex_durable_later:
  "requireDurableOriginalSendOwnership ex_s8 = None" "requireDurableOriginalSendOwnership ex_s9 = None"
proof -
  have "requireDurableOriginalSendOwnership ex_s8 = requireDurableOriginalSendOwnership ex_s7"
    by (rule durable_cong) (simp_all add: ex_s8_def)
  moreover have "requireDurableOriginalSendOwnership ex_s9 = requireDurableOriginalSendOwnership ex_s7"
    by (rule durable_cong) (simp_all add: ex_s8_def ex_s9_def)
  ultimately show "requireDurableOriginalSendOwnership ex_s8 = None"
    "requireDurableOriginalSendOwnership ex_s9 = None" using ex_durable by simp_all
qed

text \<open>The owned phases: the causes are evaluated, the durable proof is \<open>ex_durable\<close>.\<close>

lemma ex_phase_step:
  assumes "st_target s = Some ex_target" "st_phase s = p" "st_mutationBoundary s = bd"
    and "r = st_revision s + 1" "time_check s (ex_time t) = None"
    and "LEGAL_EDGES p = Some tos" "p' \<in> set tos" "known_phase p" "known_phase p'" "known_boundary bd"
    and c: "c = (case cause of None \<Rightarrow> Absent | Some k \<Rightarrow> dict_lookup (st_actions s) k)"
    and "cause = None \<or> c \<noteq> Absent"
    and "assertCausalTransition s p' bd c (Some (ex_digest CHR ''6'')) = None"
  shows "applyOperationEvent ex_url (Some s) (ex_phase p p' bd cause t) r
    = Inr (withRevision r (ex_time t) (s\<lparr>st_phase := p'\<rparr>))"
proof -
  let ?e = "ex_pe p p' bd cause t"
  have d: "DIGEST_PATTERN (ex_digest CHR ''6'')" by code_simp
  have t: "tb_targetLifecycle ex_target = None" by (simp add: ex_target_def)
  have pc: "phase_cause s ?e = c" by (simp add: phase_cause_def c ex_pe_def)
  have s: "s\<lparr>st_phase := p', st_mutationBoundary := bd\<rparr> = s\<lparr>st_phase := p'\<rparr>"
    using assms(3) by simp
  have f: "pe_from ?e = p" "pe_to ?e = p'" "pe_mutationBoundary ?e = bd" "pe_causeActionId ?e = cause"
    "pe_evidenceDigest ?e = Some (ex_digest CHR ''6'')" "pe_observedAt ?e = ex_time t"
    by (simp_all add: ex_pe_def)
  have a: "applyPhaseChange s ?e = Inr (s\<lparr>st_phase := p'\<rparr>)"
    using assms d t by (simp add: applyPhaseChange_def edge_check_def f pc s)
  have sh: "assertOperationEventShape ex_url (enc_event (Phase_changed_event ?e)) = None"
    by (rule event_shape_plain)
  have "event_effect ex_url s (Phase_changed_event ?e) r = Inr (s\<lparr>st_phase := p'\<rparr>)"
    using a assms(5) by (simp add: after_time_def f)
  then show ?thesis
    unfolding ex_phase_def applyOperationEvent_def sh
    using assms(4) by (simp add: f del: event_effect.simps)
qed

lemma ex_fields:
  "st_target ex_s7 = Some ex_target" "st_phase ex_s7 = Send_pending"
  "st_mutationBoundary ex_s7 = Send_may_have_occurred" "st_revision ex_s7 = 7"
  "st_target ex_s8 = Some ex_target" "st_phase ex_s8 = Submitted"
  "st_mutationBoundary ex_s8 = Send_may_have_occurred" "st_revision ex_s8 = 8"
  by (simp_all add: ex_s8_def ex_s7_def ex_s6_def ex_s5_def ex_s4_def ex_s3_def ex_s2_def)

definition ex_cause8 :: "action_record lookup" where
  "ex_cause8 = dict_lookup (st_actions ex_s7) ex_send"

lemma ex_step8: "applyOperationEvent ex_url (Some ex_s7) (ex_events ! 7) 8 = Inr ex_s8"
proof -
  have c: "cause_kind ex_cause8 = Some Send" "requireSatisfiedCause ex_cause8 (Some (ex_digest CHR ''6'')) = None"
    "ex_cause8 \<noteq> Absent"
    by code_simp+
  have "assertCausalTransition ex_s7 Submitted Send_may_have_occurred ex_cause8 (Some (ex_digest CHR ''6'')) = None"
    by (simp add: assertCausalTransition_def ex_fields c ex_durable)
  moreover have "time_check ex_s7 (ex_time CHR ''6'') = None" by code_simp
  ultimately show ?thesis
    using c(3) ex_phase_step [OF ex_fields(1-3), of 8 "CHR ''6''" "[Submitted, Uncertain]" Submitted
        ex_cause8 "Some ex_send"]
    by (simp add: ex_events_def ex_s8_def ex_fields known_phase_def known_boundary_def in_table_def
        ex_cause8_def)
qed

lemma ex_step9: "applyOperationEvent ex_url (Some ex_s8) (ex_events ! 8) 9 = Inr ex_s9"
proof -
  have "requireEvidence (Some (ex_digest CHR ''6'')) = None" by (simp add: requireEvidence_def ex_digest_def)
  then have "assertCausalTransition ex_s8 Capturing Send_may_have_occurred Absent (Some (ex_digest CHR ''6'')) = None"
    by (simp add: assertCausalTransition_def ex_fields ex_durable_later)
  moreover have "time_check ex_s8 (ex_time CHR ''7'') = None" by code_simp
  ultimately show ?thesis
    using ex_phase_step [OF ex_fields(5-7), of 9 "CHR ''7''" "[Generating, Capturing, Uncertain]"
        Capturing Absent None]
    by (simp add: ex_events_def ex_s9_def ex_fields known_phase_def known_boundary_def in_table_def)
qed

lemma ex_step10: "applyOperationEvent ex_url (Some ex_s9) (ex_events ! 9) 10 = Inr ex_s10"
proof -
  have v: "validateReceiptValues ex_receipt ex_s9 = None" by code_simp
  have f: "st_phase ex_s9 = Capturing" "st_receipt ex_s9 = None" "st_target ex_s9 = Some ex_target"
    "tb_targetLifecycle ex_target = None" "rp_operationId ex_receipt = st_operationId ex_s9"
    "rp_requestDigest ex_receipt = st_requestDigest ex_s9" "st_revision ex_s9 = 9"
    "rp_completedAt ex_receipt = ex_time CHR ''8''"
    by code_simp+
  have "applyCompletedReceipt ex_s9 ex_receipt (ex_time CHR ''8'')
      = Inr (ex_s9\<lparr>st_phase := Completed, st_receipt := Some ex_receipt\<rparr>)"
    by (simp add: applyCompletedReceipt_def f v ex_durable_later)
  moreover have "time_check ex_s9 (ex_time CHR ''8'') = None" by code_simp
  moreover have "assertOperationEventShape ex_url (enc_event (Receipt_completed_event ex_receipt (ex_time CHR ''8''))) = None"
    by (simp add: event_shape_checked receipt_shape_iff ex_receipt_def del: enc_event.simps)
  ultimately show ?thesis
    by (simp add: ex_events_def ex_s10_def applyOperationEvent_def after_time_def f del: enc_event.simps)
qed

lemma ex_step11: "applyOperationEvent ex_url (Some ex_s10) (ex_events ! 10) 11 = Inr ex_s11"
proof -
  have f: "st_phase ex_s10 = Completed" "st_receipt ex_s10 = Some ex_receipt" "st_revision ex_s10 = 10"
    "rp_contentAvailable ex_receipt"
    by code_simp+
  have "applyContentAvailability ex_s10 False = Inr (ex_s10\<lparr>st_receipt := Some (ex_receipt\<lparr>rp_contentAvailable := False\<rparr>)\<rparr>)"
    by (simp add: applyContentAvailability_def f)
  moreover have "time_check ex_s10 (ex_time CHR ''9'') = None" by code_simp
  ultimately show ?thesis
    by (simp add: ex_events_def ex_s11_def applyOperationEvent_def after_time_def f del: enc_event.simps)
qed

text \<open>Every state of the example is reachable.\<close>

lemma ex_op_steps:
  "op_step ex_url ex_s6 (ex_events ! 6) ex_s7" "op_step ex_url ex_s7 (ex_events ! 7) ex_s8"
  "op_step ex_url ex_s8 (ex_events ! 8) ex_s9" "op_step ex_url ex_s9 (ex_events ! 9) ex_s10"
  "op_step ex_url ex_s10 (ex_events ! 10) ex_s11" "op_step ex_url ex_s5 (ex_events ! 5) ex_s6"
  "op_step ex_url ex_s4 (ex_events ! 4) ex_s5" "op_step ex_url ex_s3 (ex_events ! 3) ex_s4"
  "op_step ex_url ex_s2 (ex_events ! 2) ex_s3" "op_step ex_url ex_s1 (ex_events ! 1) ex_s2"
proof -
  have r: "st_revision ex_s1 = 1" "st_revision ex_s2 = 2" "st_revision ex_s3 = 3" "st_revision ex_s4 = 4"
    "st_revision ex_s5 = 5" "st_revision ex_s6 = 6" "st_revision ex_s9 = 9" "st_revision ex_s10 = 10"
    by (simp_all add: ex_s1_def created_state_def ex_s2_def ex_s3_def ex_s4_def ex_s5_def ex_s6_def
        ex_s9_def ex_s10_def)
  note st = op_step.step [where U = ex_url]
  show "op_step ex_url ex_s6 (ex_events ! 6) ex_s7" by (rule st) (use r ex_step7 in simp)
  show "op_step ex_url ex_s7 (ex_events ! 7) ex_s8" by (rule st) (use ex_fields ex_step8 in simp)
  show "op_step ex_url ex_s8 (ex_events ! 8) ex_s9" by (rule st) (use ex_fields ex_step9 in simp)
  show "op_step ex_url ex_s9 (ex_events ! 9) ex_s10" by (rule st) (use r ex_step10 in simp)
  show "op_step ex_url ex_s10 (ex_events ! 10) ex_s11" by (rule st) (use r ex_step11 in simp)
  show "op_step ex_url ex_s5 (ex_events ! 5) ex_s6" by (rule st) (use r ex_step6 in simp)
  show "op_step ex_url ex_s4 (ex_events ! 4) ex_s5" by (rule st) (use r ex_step5 in simp)
  show "op_step ex_url ex_s3 (ex_events ! 3) ex_s4" by (rule st) (use r ex_step4 in simp)
  show "op_step ex_url ex_s2 (ex_events ! 2) ex_s3" by (rule st) (use r ex_step3 in simp)
  show "op_step ex_url ex_s1 (ex_events ! 1) ex_s2" by (rule st) (use r ex_step2 in simp)
qed

lemma ex_reachable:
  "op_reachable ex_url ex_s1" "op_reachable ex_url ex_s2" "op_reachable ex_url ex_s3"
  "op_reachable ex_url ex_s4" "op_reachable ex_url ex_s5" "op_reachable ex_url ex_s6"
  "op_reachable ex_url ex_s7" "op_reachable ex_url ex_s8" "op_reachable ex_url ex_s9"
  "op_reachable ex_url ex_s10" "op_reachable ex_url ex_s11"
proof -
  note x = op_reachable.extended
  show 1: "op_reachable ex_url ex_s1" by (rule op_reachable.created [OF ex_step1])
  show 2: "op_reachable ex_url ex_s2" by (rule x [OF 1 ex_op_steps(10)])
  show 3: "op_reachable ex_url ex_s3" by (rule x [OF 2 ex_op_steps(9)])
  show 4: "op_reachable ex_url ex_s4" by (rule x [OF 3 ex_op_steps(8)])
  show 5: "op_reachable ex_url ex_s5" by (rule x [OF 4 ex_op_steps(7)])
  show 6: "op_reachable ex_url ex_s6" by (rule x [OF 5 ex_op_steps(6)])
  show 7: "op_reachable ex_url ex_s7" by (rule x [OF 6 ex_op_steps(1)])
  show 8: "op_reachable ex_url ex_s8" by (rule x [OF 7 ex_op_steps(2)])
  show 9: "op_reachable ex_url ex_s9" by (rule x [OF 8 ex_op_steps(3)])
  show 10: "op_reachable ex_url ex_s10" by (rule x [OF 9 ex_op_steps(4)])
  show "op_reachable ex_url ex_s11" by (rule x [OF 10 ex_op_steps(5)])
qed

end
