(* ===== verification/Op_Log.thy ===== *)
theory Op_Log
  imports Op_Lifecycle
begin

text \<open>
  Continuations of an operation, and a log as a sequence of continuations: the state a log is
  reduced to is reachable, and a longer log continues the operation of the shorter one.
\<close>

section \<open>Continuations\<close>

inductive op_steps :: "url_parser \<Rightarrow> operation_state \<Rightarrow> operation_state \<Rightarrow> bool" for U :: url_parser where
  none: "op_steps U s s"
| more: "op_steps U s s1 \<Longrightarrow> op_step U s1 ev s' \<Longrightarrow> op_steps U s s'"

lemma op_steps_reachable: "op_steps U s s' \<Longrightarrow> op_reachable U s \<Longrightarrow> op_reachable U s'"
  by (induction rule: op_steps.induct) (auto intro: op_reachable.extended)

lemma steps_frame:
  "op_steps U s s' \<Longrightarrow> same_identity s s' \<and> st_revision s \<le> st_revision s' \<and> \<not> st_updatedAt s' < st_updatedAt s"
proof (induction rule: op_steps.induct)
  case (more s s1 ev s')
  have "\<not> st_updatedAt s' < st_updatedAt s"
    using more.IH step_frame(3) [OF more.hyps(2)] by (meson dual_order.strict_trans2 leI)
  then show ?case
    using more.IH step_frame [OF more.hyps(2)] by (auto intro: same_identity_trans)
qed simp

section \<open>Logs\<close>

lemma reduce_loop_reachable:
  "reduce_loop U s i evs = Inr s' \<Longrightarrow>
     (case s of None \<Rightarrow> i = 0 | Some st \<Rightarrow> op_reachable U st \<and> st_revision st = i) \<Longrightarrow>
     (case s' of None \<Rightarrow> s = None \<and> evs = []
      | Some st \<Rightarrow> op_reachable U st \<and> st_revision st = i + int (length evs))"
proof (induction evs arbitrary: s i)
  case Nil
  then show ?case by (auto split: option.splits)
next
  case (Cons ev evs)
  from Cons.prems(1) obtain s1 where s1: "applyOperationEvent U s ev (i + 1) = Inr s1"
    and rest: "reduce_loop U (Some s1) (i + 1) evs = Inr s'"
    by (auto simp: bind_res_Inr)
  have "op_reachable U s1 \<and> st_revision s1 = i + 1"
  proof (cases s)
    case None
    with s1 Cons.prems(2) have c: "applyOperationEvent U None ev 1 = Inr s1" by simp
    moreover from c have "st_revision s1 = 1" by (rule created_is_created) (simp add: created_state_def)
    ultimately show ?thesis using None Cons.prems(2) by (simp add: op_reachable.created)
  next
    case (Some st)
    with s1 Cons.prems(2) have "op_step U st ev s1" by (simp add: op_step_iff)
    then show ?thesis using Some Cons.prems(2) step_frame(2) op_reachable.extended by fastforce
  qed
  with Cons.IH [OF rest] show ?case by (auto split: option.splits)
qed

lemma reduce_reachable:
  "reduceOperationEvents U evs = Inr s \<Longrightarrow> op_reachable U s \<and> st_revision s = int (length evs)"
  using reduce_loop_reachable [of U None 0 evs]
  by (auto simp: reduceOperationEvents_def bind_res_Inr split: option.splits)

text \<open>One more event is one more step.\<close>

lemma reduce_snoc:
  assumes "reduceOperationEvents U evs = Inr s" "reduceOperationEvents U (evs @ [ev]) = Inr s'"
  shows "op_step U s ev s'"
proof -
  have "reduce_loop U None 0 evs = Inr (Some s)" using assms(1)
    by (auto simp: reduceOperationEvents_def bind_res_Inr split: option.splits)
  moreover have "st_revision s = int (length evs)" using reduce_reachable [OF assms(1)] by simp
  ultimately show ?thesis using assms(2)
    by (auto simp: reduceOperationEvents_def reduce_loop_append bind_res_Inr op_step_iff split: option.splits)
qed

lemma reduce_prefix:
  assumes "reduceOperationEvents U (evs @ [ev]) = Inr s'" "evs \<noteq> []"
  obtains s where "reduceOperationEvents U evs = Inr s" "op_step U s ev s'"
proof -
  obtain x where x: "reduce_loop U None 0 evs = Inr x" using assms(1)
    by (auto simp: reduceOperationEvents_def reduce_loop_append bind_res_Inr)
  then obtain s where "x = Some s" using reduce_loop_reachable [OF x] assms(2) by (cases x) auto
  with x have "reduceOperationEvents U evs = Inr s" by (simp add: reduceOperationEvents_def)
  with that reduce_snoc [OF this assms(1)] show ?thesis by blast
qed

end
