(* ===== verification/Op_Receipt_Objects.thy ===== *)
theory Op_Receipt_Objects
  imports Op_Invariants
begin

text \<open>
  \<open>applyActionReceipt\<close> of \<open>operations/state-machine.ts\<close> on JavaScript objects. The typed reducer has
  no value for the record the code builds when the action id is the name of an \<open>Object.prototype\<close>
  member; here the state, its ledger and the record are the objects the code handles, with the member
  lookup through the prototype and the object spreads written out.
\<close>

section \<open>Lookup and spread\<close>

text \<open>\<open>v[k]\<close> on a plain object: an own member, an inherited one, or \<open>undefined\<close>.\<close>

definition js_member :: "jsv \<Rightarrow> string \<Rightarrow> jsv lookup" where
  "js_member v k = (if has_own v k then Own (jget v k)
     else if k \<in> set object_prototype_keys then Inherited else Absent)"

text \<open>\<open>{ ...v, k: w, ... }\<close> followed by conditional assignments; an absent value is an assignment that
  is not made. An existing key keeps its place.\<close>

definition assign_props :: "(string \<times> jsv option) list \<Rightarrow> (string \<times> jsv jprop) list \<Rightarrow> (string \<times> jsv jprop) list" where
  "assign_props kvs = fold (\<lambda>(k, x) ps. case x of None \<Rightarrow> ps | Some w \<Rightarrow> AList.update k (Data True w) ps) kvs"

definition spread_with :: "jsv \<Rightarrow> (string \<times> jsv option) list \<Rightarrow> jsv" where
  "spread_with v kvs = JObj 0 (assign_props kvs (enumerable_props v))"

section \<open>The receipt\<close>

definition receipt_members :: "action_receipt \<Rightarrow> int \<Rightarrow> (string \<times> jsv option) list" where
  "receipt_members r revision =
     [(''outcome'', js (outcome_text (rc_outcome r))), (''receiptRevision'', jn revision),
      (''receiptAt'', js (rc_observedAt r)), (''evidenceDigest'', jso (rc_evidenceDigest r)),
      (''blockerCode'', jso (rc_blockerCode r))]"

text \<open>An inherited member (a function, or \<open>Object.prototype\<close> itself) has no \<open>outcome\<close>, no
  \<open>intentAt\<close> and no own enumerable member, as the empty object.\<close>

definition found_action :: "jsv lookup \<Rightarrow> jsv option" where
  "found_action x = (case x of Absent \<Rightarrow> None | Inherited \<Rightarrow> Some (JObj 0 []) | Own a \<Rightarrow> Some a)"

definition applyActionReceipt_value :: "jsv \<Rightarrow> action_receipt \<Rightarrow> int \<Rightarrow> jsv res" where
  "applyActionReceipt_value v r revision = (case found_action (js_member (jget v ''actions'') (rc_actionId r)) of
     None \<Rightarrow> Inl (OperationStateError ''action_intent_missing'')
   | Some a \<Rightarrow> checked (first_error
       [throw_state (jget a ''outcome'' \<noteq> JUndefined) ''duplicate_action_receipt'',
        action_receipt_check (case jget a ''intentAt'' of JStr s \<Rightarrow> Some s | _ \<Rightarrow> None) r])
       (spread_with v [(''actions'', Some (spread_with (jget v ''actions'')
          [(rc_actionId r, Some (spread_with a (receipt_members r revision)))]))]))"

section \<open>Encoded records\<close>

lemma enumerable_enc_rec: "enumerable_props (enc_rec ps) =
    concat (map (\<lambda>(k, x). case x of None \<Rightarrow> [] | Some v \<Rightarrow> [(k, Data True v)]) ps)"
  by (induction ps) (auto simp: enumerable_props_def own_props_def enc_rec_def split: option.splits)

lemma update_skip [simp]:
  "k \<noteq> k' \<Longrightarrow> AList.update k w ((case x of None \<Rightarrow> [] | Some v \<Rightarrow> [(k', Data True v)]) @ ps) =
     (case x of None \<Rightarrow> [] | Some v \<Rightarrow> [(k', Data True v)]) @ AList.update k w ps"
  "k \<noteq> k' \<Longrightarrow> AList.update k w ((case y of None \<Rightarrow> [] | Some z \<Rightarrow> ((\<lambda>v. [(k', Data True v)]) \<circ> f) z) @ ps) =
     (case y of None \<Rightarrow> [] | Some z \<Rightarrow> ((\<lambda>v. [(k', Data True v)]) \<circ> f) z) @ AList.update k w ps"
  by (cases x; simp) (cases y; simp)

lemma js_member_dict: "js_member (enc_dict f ob) k = map_lookup f (dict_lookup ob k)"
proof -
  have "has_own (enc_dict f ob) k \<longleftrightarrow> obj_get ob k \<noteq> None"
    by (induction ob) (auto simp: has_own_def own_props_def enc_dict_def obj_get_def)
  moreover have "jget (enc_dict f ob) k = f a" if "obj_get ob k = Some a" for a
    using that by (induction ob) (auto simp: jget_def enc_dict_def obj_get_def)
  ultimately show ?thesis by (auto simp: js_member_def dict_lookup_def split: option.split)
qed

lemma spread_dict: "spread_with (enc_dict f ob) [(k, Some (f a))] = enc_dict f (obj_set ob k a)"
proof -
  have "AList.update k (Data True (f a)) (map (\<lambda>(k, v). (k, Data True (f v))) ob) =
      map (\<lambda>(k, v). (k, Data True (f v))) (AList.update k a ob)"
    by (induction ob) auto
  then show ?thesis by (simp add: spread_with_def assign_props_def enc_dict_def obj_set_def enumerable_props_def own_props_def
        filter_map comp_def case_prod_beta)
qed

lemma spread_dict_new:
  assumes "obj_get ob k = None"
  shows "own_props (spread_with (enc_dict f ob) [(k, Some w)]) = own_props (enc_dict f ob) @ [(k, Data True w)]"
proof -
  have "AList.update k (Data True w) (map (\<lambda>(k, v). (k, Data True (f v))) ob) =
      map (\<lambda>(k, v). (k, Data True (f v))) ob @ [(k, Data True w)]"
    using assms by (induction ob) (auto simp: obj_get_def split: if_splits)
  then show ?thesis by (simp add: spread_with_def assign_props_def enc_dict_def enumerable_props_def own_props_def
        filter_map comp_def case_prod_beta)
qed

lemma state_actions: "jget (enc_state s) ''actions'' = enc_dict enc_action_record (st_actions s)"
  by (simp add: enc_state_def jfield_defs)

lemma spread_state:
  "spread_with (enc_state s) [(''actions'', Some (enc_dict enc_action_record as))] = enc_state (s\<lparr>st_actions := as\<rparr>)"
  by (simp add: spread_with_def assign_props_def enc_state_def enumerable_enc_rec) (simp add: enc_rec_def)

lemma spread_record:
  assumes "ar_outcome a = None" "ar_receiptRevision a = None" "ar_receiptAt a = None"
    "ar_evidenceDigest a = None" "ar_blockerCode a = None"
  shows "spread_with (enc_action_record a) (receipt_members r rv) = enc_action_record (settled a r rv)"
  using assms
  by (simp add: spread_with_def assign_props_def enc_action_record_def enumerable_enc_rec receipt_members_def
      settled_def jfield_defs split: option.split) (simp add: enc_rec_def)

section \<open>Reachable ledgers\<close>

definition unsettled_clean :: "operation_state \<Rightarrow> bool" where
  "unsettled_clean s \<longleftrightarrow> (\<forall>k a. obj_get (st_actions s) k = Some a \<longrightarrow> ar_outcome a = None \<longrightarrow>
     ar_receiptRevision a = None \<and> ar_receiptAt a = None \<and> ar_evidenceDigest a = None \<and> ar_blockerCode a = None)"

lemma reachable_unsettled: "op_reachable U s \<Longrightarrow> unsettled_clean s"
proof (induction rule: op_reachable.induct)
  case (created ev s)
  then show ?case by (auto elim!: created_is_created simp: created_state_def unsettled_clean_def)
next
  case (extended s ev s')
  from extended.hyps(2) show ?case
  proof (cases rule: step_ledger)
    case same
    then show ?thesis using extended.IH by (simp add: ledger_same_def unsettled_clean_def)
  next
    case (intent a at)
    then show ?thesis using extended.IH by (auto simp: ledger_intent_def unsettled_clean_def record_of_intent_def)
  next
    case (receipt r)
    then show ?thesis using extended.IH by (auto simp: ledger_receipt_def unsettled_clean_def settled_def split: if_splits)
  qed
qed

section \<open>Typed and untyped receipts\<close>

text \<open>Unless the lookup finds an inherited member, the typed receipt is the receipt on objects.\<close>

lemma map_checked: "map_sum id f (checked c x) = checked c (f x)"
  by (cases c) (simp_all add: checked_def)

lemma receipt_value_typed:
  assumes "unsettled_clean s" "dict_lookup (st_actions s) (rc_actionId r) \<noteq> Inherited"
  shows "applyActionReceipt_value (enc_state s) r rv = map_sum id enc_state (applyActionReceipt s r rv)"
proof (cases "dict_lookup (st_actions s) (rc_actionId r)")
  case (Own a)
  let ?c = "first_error [throw_state (ar_outcome a \<noteq> None) ''duplicate_action_receipt'',
     action_receipt_check (Some (ar_intentAt a)) r]"
  have "jget (enc_action_record a) ''intentAt'' = JStr (ar_intentAt a)"
    "jget (enc_action_record a) ''outcome'' = JUndefined \<longleftrightarrow> ar_outcome a = None"
    by (cases "ar_outcome a"; simp add: enc_action_record_def jfield_defs)+
  then have v: "applyActionReceipt_value (enc_state s) r rv = checked ?c
      (spread_with (enc_state s) [(''actions'', Some (spread_with (enc_dict enc_action_record (st_actions s))
        [(rc_actionId r, Some (spread_with (enc_action_record a) (receipt_members r rv)))]))])"
    unfolding applyActionReceipt_value_def state_actions js_member_dict Own by (simp add: found_action_def)
  have t: "map_sum id enc_state (applyActionReceipt s r rv) = checked ?c
      (enc_state (s\<lparr>st_actions := obj_set (st_actions s) (rc_actionId r) (settled a r rv)\<rparr>))"
    unfolding applyActionReceipt_def Own by (simp add: map_checked)
  show ?thesis
  proof (cases "ar_outcome a")
    case None
    have "ar_receiptRevision a = None \<and> ar_receiptAt a = None \<and> ar_evidenceDigest a = None \<and> ar_blockerCode a = None"
      using assms(1) Own None by (simp add: unsettled_clean_def)
    then show ?thesis unfolding v t by (simp add: None spread_record spread_dict spread_state)
  next
    case (Some x)
    then have "?c = Some (OperationStateError ''duplicate_action_receipt'')"
      by (simp add: throw_state_def throw_if_def first_error.simps(2))
    then show ?thesis unfolding v t by (simp add: checked_def)
  qed
next
  case Absent
  then show ?thesis
    unfolding applyActionReceipt_value_def applyActionReceipt_def state_actions js_member_dict by (simp add: found_action_def)
qed (use assms(2) in simp)

text \<open>An inherited member with a receipt that fails its checks is refused the same way by both.\<close>

lemma receipt_value_agrees:
  assumes "unsettled_clean s"
    and "\<not> (dict_lookup (st_actions s) (rc_actionId r) = Inherited \<and> action_receipt_check None r = None)"
  shows "applyActionReceipt_value (enc_state s) r rv = map_sum id enc_state (applyActionReceipt s r rv)"
proof (cases "dict_lookup (st_actions s) (rc_actionId r) = Inherited")
  case True
  then obtain e where "action_receipt_check None r = Some e" using assms(2) by auto
  then show ?thesis
    unfolding applyActionReceipt_value_def applyActionReceipt_def state_actions js_member_dict True
    by (simp add: found_action_def jget_def checked_def throw_state_def throw_if_def first_error.simps(2))
qed (rule receipt_value_typed [OF assms(1)])

text \<open>The record that is stored under an inherited name.\<close>

definition kindless_record :: "action_receipt \<Rightarrow> int \<Rightarrow> jsv" where
  "kindless_record r revision = JObj 0 (assign_props (receipt_members r revision) [])"

lemma kindless_props:
  "own_props (kindless_record r rv) = [(''outcome'', Data True (JStr (outcome_text (rc_outcome r)))),
     (''receiptRevision'', Data True (JNum rv)), (''receiptAt'', Data True (JStr (rc_observedAt r)))] @
     (case rc_evidenceDigest r of None \<Rightarrow> [] | Some d \<Rightarrow> [(''evidenceDigest'', Data True (JStr d))]) @
     (case rc_blockerCode r of None \<Rightarrow> [] | Some c \<Rightarrow> [(''blockerCode'', Data True (JStr c))])"
  by (simp add: kindless_record_def own_props_def assign_props_def receipt_members_def jfield_defs split: option.split)

lemma kindless_fields:
  "jget (kindless_record r rv) ''outcome'' = JStr (outcome_text (rc_outcome r))"
  "jget (kindless_record r rv) ''receiptRevision'' = JNum rv"
  "\<not> has_own (kindless_record r rv) ''kind''"
  using kindless_props [of r rv]
  by (cases "rc_evidenceDigest r"; cases "rc_blockerCode r";
      simp add: has_own_def jget_def kindless_record_def own_props_def)+

lemma kindless_refused: "assertActionRecordShape (kindless_record r rv) = Some (OperationStateError ''missing_operation_field'')"
proof -
  have p: "isPlainRecord (kindless_record r rv)" by (simp add: kindless_record_def isPlainRecord_def)
  have a: "\<not> has_accessor (kindless_record r rv)" "\<not> has_own (kindless_record r rv) ''kind''"
    by (cases "rc_evidenceDigest r"; cases "rc_blockerCode r";
        simp add: has_accessor_def has_own_def enumerable_props_def kindless_props)+
  have k: "list_all (\<lambda>p. fst p \<in> set [''actionId'', ''kind'', ''repeatPolicy'', ''requestDigest'', ''parentActionId'',
      ''targetDigest'', ''intentRevision'', ''intentAt'', ''outcome'', ''receiptRevision'', ''receiptAt'',
      ''evidenceDigest'', ''blockerCode'']) (enumerable_props (kindless_record r rv))"
    by (simp add: enumerable_props_def kindless_props split: option.split)
  show ?thesis
    unfolding assertActionRecordShape_def assertExactRecord_def
    using p a k by (simp add: throw_state_def throw_if_def first_error.simps(2))
qed

lemma receipt_value_inherited:
  assumes "dict_lookup (st_actions s) (rc_actionId r) = Inherited" "action_receipt_check None r = None"
  shows "applyActionReceipt_value (enc_state s) r rv = Inr (spread_with (enc_state s)
     [(''actions'', Some (spread_with (enc_dict enc_action_record (st_actions s)) [(rc_actionId r, Some (kindless_record r rv))]))])"
proof -
  have "enumerable_props (JObj 0 []) = []" by (simp add: enumerable_props_def own_props_def)
  then show ?thesis
    unfolding applyActionReceipt_value_def state_actions js_member_dict assms(1)
    using assms(2) by (simp add: found_action_def jget_def spread_with_def kindless_record_def)
qed

lemma jget_spread:
  "jget (spread_with v [(k, Some w)]) m = (if m = k then w else jget (JObj 0 (enumerable_props v)) m)"
  by (simp add: jget_def spread_with_def assign_props_def update_conv)

lemma enumerable_state: "JObj 0 (enumerable_props (enc_state s)) = enc_state s"
  unfolding enc_state_def enumerable_enc_rec by (simp add: enc_rec_def)

lemma inherited_not_uuid:
  assumes "k \<in> set object_prototype_keys"
  shows "\<not> UUID_PATTERN k"
proof
  assume "UUID_PATTERN k"
  then have "length k = 36" by (auto simp: UUID_PATTERN_def dest!: matches_seq_length)
  then show False using assms by (auto simp: object_prototype_keys_def)
qed

end
