(* ===== verification/Op_Properties.thy ===== *)
theory Op_Properties
  imports Op_Example Op_Log Op_Receipt_Objects
begin

text \<open>
  The properties of the reducer: what holds of every operation a journal can contain, and of
  every continuation of it. Each is followed by a witness on the operation of \<open>Op_Example\<close>.
\<close>

section \<open>Continuations\<close>

lemma ex_steps: "op_steps ex_url ex_s6 ex_s8" "op_steps ex_url ex_s10 ex_s11"
proof -
  have 7: "op_steps ex_url ex_s6 ex_s7" by (rule op_steps.more [OF op_steps.none ex_op_steps(1)])
  show "op_steps ex_url ex_s6 ex_s8" by (rule op_steps.more [OF 7 ex_op_steps(2)])
  show "op_steps ex_url ex_s10 ex_s11" by (rule op_steps.more [OF op_steps.none ex_op_steps(5)])
qed

lemma same_intent_refl: "same_intent a a"
  by (simp add: same_intent_def)

lemma steps_entry:
  "op_steps U s s' \<Longrightarrow> obj_get (st_actions s) k = Some a \<Longrightarrow>
     \<exists>b. obj_get (st_actions s') k = Some b \<and> same_intent a b \<and> (ar_outcome a \<noteq> None \<longrightarrow> b = a)"
proof (induction rule: op_steps.induct)
  case none
  then show ?case by (auto simp: same_intent_refl)
next
  case (more s s1 ev s')
  then obtain b where b: "obj_get (st_actions s1) k = Some b" "same_intent a b" "ar_outcome a \<noteq> None \<Longrightarrow> b = a"
    by blast
  from more.hyps(2) b(1) obtain c where "obj_get (st_actions s') k = Some c" "same_intent b c"
    "ar_outcome b \<noteq> None \<Longrightarrow> c = b"
    by (rule step_entry) blast
  with b show ?case by (auto simp: same_intent_def)
qed

lemma steps_evidence:
  "op_steps U s s' \<Longrightarrow> (\<forall>k b. baseline_of s k = Some b \<longrightarrow> baseline_of s' k = Some b) \<and>
     (\<forall>k w. witness_of s k = Some w \<longrightarrow> witness_of s' k = Some w)"
proof (induction rule: op_steps.induct)
  case (more s s1 ev s')
  from more.hyps(2) obtain s2 where e: "event_effect U s1 ev (st_revision s1 + 1) = Inr s2"
    and s': "s' = withRevision (st_revision s1 + 1) (event_time ev) s2"
    by (rule step_effect)
  have "baseline_of s' k = baseline_of s2 k" "witness_of s' k = witness_of s2 k" for k
    by (simp_all add: s' baseline_of_def witness_of_def)
  with more.IH effect_baseline [OF e] effect_witness [OF e] show ?case by simp
qed simp

lemma steps_completed:
  "op_steps U s s' \<Longrightarrow> st_phase s = Completed \<Longrightarrow> st_receipt s = Some r \<Longrightarrow>
     st_phase s' = Completed \<and> (st_receipt s' = Some r \<or>
       rp_contentAvailable r \<and> st_receipt s' = Some (r\<lparr>rp_contentAvailable := False\<rparr>))"
proof (induction rule: op_steps.induct)
  case (more s s1 ev s')
  then have c: "st_phase s1 = Completed" by blast
  from more consider "st_receipt s1 = Some r"
    | "rp_contentAvailable r" "st_receipt s1 = Some (r\<lparr>rp_contentAvailable := False\<rparr>)"
    by blast
  then show ?case
  proof cases
    case 1
    from step_completed [OF more.hyps(2) c 1] show ?thesis .
  next
    case 2
    from step_completed [OF more.hyps(2) c 2(2)] 2(1) show ?thesis by simp
  qed
qed simp

section \<open>Submit once\<close>

text \<open>C1: in every reachable state the action ledger holds at most one original Send and at
  most one file handoff, so a journal can never record a second non-repeatable submission.\<close>

theorem at_most_one_send:
  assumes "op_reachable U s"
  shows "length (send_actions s) \<le> 1 \<and>
    length (filter (\<lambda>a. ar_kind a = File_handoff) (obj_values (st_actions s))) \<le> 1"
proof
  have i: "single_intents (kinds s)" by (rule reachable_single_intents [OF assms])
  show "length (send_actions s) \<le> 1" by (rule single_send [OF i])
  have "length (filter (\<lambda>a. ar_kind a = File_handoff) (obj_values (st_actions s)))
      = length (filter ((=) File_handoff) (kinds s))"
    by (simp add: kinds_def filter_map comp_def eq_commute)
  then show "length (filter (\<lambda>a. ar_kind a = File_handoff) (obj_values (st_actions s))) \<le> 1"
    using i by (simp add: single_intents_def isSingleIntentKind_def)
qed

theorem at_most_one_send_witness: "length (send_actions ex_s7) \<le> 1 \<and> send_actions ex_s7 = [ex_send_record]"
proof -
  have "send_actions ex_s7 = [ex_send_record]" by code_simp
  with at_most_one_send [OF ex_reachable(7)] show ?thesis by blast
qed

lemma apply_effectD:
  "applyOperationEvent U (Some s) ev r = Inr s' \<Longrightarrow> \<exists>s1. event_effect U s ev r = Inr s1"
  by (cases ev) (auto simp: applyOperationEvent_def applyCreated_def bind_res_Inr
      simp del: event_effect.simps enc_event.simps split: option.splits if_splits)

lemma not_Inr_Inl: "(\<And>s'. r \<noteq> Inr s') \<Longrightarrow> \<exists>e. r = Inl e"
  by (cases r) auto

text \<open>C2: a second Send or file-handoff intent is refused whatever else it carries, by the
  plain intent event and by the atomic preparation event alike; the state is not advanced.\<close>

theorem repeated_intent_refused:
  assumes "b \<in> set (obj_values (st_actions s))" "ar_kind b = ai_kind a" "ai_kind a = Send \<or> ai_kind a = File_handoff"
  shows "(\<exists>e. applyOperationEvent U (Some s) (Action_intent_event a at) rv = Inl e) \<and>
    (\<exists>e. applyOperationEvent U (Some s) (Action_prepared_event a at bl) rv = Inl e)"
proof -
  have "action_intent_check s a \<noteq> None"
    using assms by (auto simp: action_intent_check_def isSingleIntentKind_def list_ex_iff)
  then have i: "applyActionIntent s a rv at \<noteq> Inr s'" for s'
    by (simp add: applyActionIntent_def)
  have "event_effect U s (Action_intent_event a at) rv \<noteq> Inr s'" for s'
    using i by (simp add: after_time_Inr)
  moreover have "event_effect U s (Action_prepared_event a at bl) rv \<noteq> Inr s'" for s'
    using i by (auto elim!: applyPrepared_Inr split: option.splits)
  ultimately show ?thesis using apply_effectD by (intro conjI not_Inr_Inl) blast+
qed

theorem repeated_intent_refused_witness:
  "\<exists>e. applyOperationEvent ex_url (Some ex_s6) (Action_intent_event (ex_intent ex_steer Send) (ex_time CHR ''5'')) 7 = Inl e"
proof -
  have "ex_send_record \<in> set (obj_values (st_actions ex_s6))"
    "ar_kind ex_send_record = ai_kind (ex_intent ex_steer Send)"
    "ai_kind (ex_intent ex_steer Send) = Send \<or> ai_kind (ex_intent ex_steer Send) = File_handoff"
    by code_simp+
  from repeated_intent_refused [OF this] show ?thesis by blast
qed

section \<open>The mutation boundary\<close>

text \<open>C3: the durable mutation boundary is exactly the highest boundary of the intents in the
  ledger: it is what \<open>validateStateCoherence\<close> recomputes, it is a known boundary, and it covers
  every recorded action.\<close>

theorem boundary_covers_ledger:
  assumes "op_reachable U s"
  shows "st_mutationBoundary s = expected_boundary (kinds s) \<and> real_boundary (st_mutationBoundary s) \<and>
    (\<forall>a\<in>set (obj_values (st_actions s)). \<forall>b. boundaryForAction (ar_kind a) = Some b \<longrightarrow>
       boundary_rank b \<le> boundary_rank (st_mutationBoundary s))"
proof -
  have e: "st_mutationBoundary s = expected_boundary (kinds s)" by (rule reachable_boundary [OF assms])
  have "\<forall>a\<in>set (obj_values (st_actions s)). \<forall>b. boundaryForAction (ar_kind a) = Some b \<longrightarrow>
      boundary_rank b \<le> boundary_rank (expected_boundary (kinds s))"
    by (auto intro!: expected_boundary_bound simp: kinds_def)
  with e expected_boundary_real show ?thesis by simp
qed

theorem boundary_covers_ledger_witness:
  "st_mutationBoundary ex_s7 = expected_boundary (kinds ex_s7) \<and> st_mutationBoundary ex_s7 = Send_may_have_occurred"
  using boundary_covers_ledger [OF ex_reachable(7)] ex_fields(3) by blast

lemma step_boundary_mono:
  assumes "op_step U s ev s'" "real_boundary (st_mutationBoundary s)"
  shows "boundary_rank (st_mutationBoundary s) \<le> boundary_rank (st_mutationBoundary s')"
  using assms(1)
proof (cases rule: step_ledger)
  case same
  then show ?thesis by (simp add: ledger_same_def)
next
  case (intent a at)
  with assms(2) show ?thesis by (simp add: ledger_intent_def raise_boundary_mono)
next
  case (receipt r)
  then show ?thesis by (simp add: ledger_receipt_def)
qed

text \<open>The boundary never goes back, whatever is appended to the journal.\<close>

lemma boundary_monotone:
  assumes "op_reachable U s" "op_steps U s s'"
  shows "boundary_rank (st_mutationBoundary s) \<le> boundary_rank (st_mutationBoundary s')"
  using assms(2,1)
proof (induction rule: op_steps.induct)
  case (more s s1 ev s')
  have "real_boundary (st_mutationBoundary s1)"
    using reachable_boundary [OF op_steps_reachable [OF more.hyps(1) more.prems]] expected_boundary_real by simp
  then have "boundary_rank (st_mutationBoundary s1) \<le> boundary_rank (st_mutationBoundary s')"
    by (rule step_boundary_mono [OF more.hyps(2)])
  with more.IH more.prems show ?case by simp
qed simp

section \<open>Ownership\<close>

text \<open>C4: an operation that reports a submitted, generating, capturing or completed turn holds
  exactly one Send action, satisfied, with its keyed pre-Send baseline and its keyed
  submission witness, all bound to the same action, target digest and snapshot.\<close>

theorem owned_turn_is_proved:
  assumes "op_reachable U s" "st_phase s \<in> {Submitted, Generating, Capturing, Completed}"
  shows "\<exists>a b w. send_actions s = [a] \<and> ar_outcome a = Some Satisfied \<and>
    baseline_of s (ar_actionId a) = Some b \<and> witness_of s (ar_actionId a) = Some w \<and>
    ob_operationId b = st_operationId s \<and> ob_requestDigest b = st_requestDigest s \<and>
    ar_targetDigest a = Some (ob_targetBindingDigest b) \<and>
    ar_targetDigest a = Some (sw_targetBindingDigest w) \<and> sw_actionKind w = Send \<and>
    sw_baselineSnapshotDigest w = bl_snapshotDigest (ob_baseline b)"
proof -
  have "requireDurableOriginalSendOwnership s = None"
    using reachable_owned [OF assms(1)] assms(2) by (simp add: owned_phase_def)
  then show ?thesis
    by (rule requireDurable_None) (auto simp: send_proof_mismatch_def)
qed

theorem owned_turn_is_proved_witness:
  "\<exists>a b w. send_actions ex_s8 = [a] \<and> ar_outcome a = Some Satisfied \<and>
    baseline_of ex_s8 (ar_actionId a) = Some b \<and> witness_of ex_s8 (ar_actionId a) = Some w"
proof -
  have "st_phase ex_s8 \<in> {Submitted, Generating, Capturing, Completed}" using ex_fields(6) by simp
  from owned_turn_is_proved [OF ex_reachable(8) this] show ?thesis by blast
qed

text \<open>C5: the ledger is append-only and the evidence is write-once: an action keeps its intent
  (kind, policy, request and target digest, revision, time), a settled action never changes
  again, and a recorded baseline or witness is never replaced or removed.\<close>

theorem evidence_is_write_once:
  assumes "op_steps U s s'"
  shows "(\<forall>k a. obj_get (st_actions s) k = Some a \<longrightarrow>
      (\<exists>b. obj_get (st_actions s') k = Some b \<and> same_intent a b \<and> (ar_outcome a \<noteq> None \<longrightarrow> b = a))) \<and>
    (\<forall>k b. baseline_of s k = Some b \<longrightarrow> baseline_of s' k = Some b) \<and>
    (\<forall>k w. witness_of s k = Some w \<longrightarrow> witness_of s' k = Some w)"
  using steps_entry [OF assms] steps_evidence [OF assms] by blast

theorem evidence_is_write_once_witness:
  "obj_get (st_actions ex_s8) ex_send = Some ex_send_record \<and> baseline_of ex_s8 ex_send = Some ex_send_baseline"
proof -
  have "obj_get (st_actions ex_s6) ex_send = Some ex_send_record" "ar_outcome ex_send_record \<noteq> None"
    "baseline_of ex_s6 ex_send = Some ex_send_baseline"
    by code_simp+
  with evidence_is_write_once [OF ex_steps(1)] show ?thesis by blast
qed

text \<open>The identity of an operation (its id, request digest, surface, capture policy and
  creation time) is fixed at creation; the revision never decreases and time never goes back.\<close>

lemma identity_is_fixed:
  assumes "op_steps U s s'"
  shows "st_operationId s' = st_operationId s \<and> st_requestDigest s' = st_requestDigest s \<and>
    st_surface s' = st_surface s \<and> st_capturePolicy s' = st_capturePolicy s \<and>
    st_responseFormat s' = st_responseFormat s \<and> st_createdAt s' = st_createdAt s \<and>
    st_revision s \<le> st_revision s' \<and> \<not> st_updatedAt s' < st_updatedAt s"
  using steps_frame [OF assms] by (simp add: same_identity_def)

section \<open>Phases and the terminal receipt\<close>

text \<open>C6: completion is terminal: once completed, no event changes the phase, and the receipt
  stays as it is except that its content may become unavailable, once.\<close>

theorem completion_is_terminal:
  assumes "st_phase s = Completed" "st_receipt s = Some r" "op_steps U s s'"
  shows "st_phase s' = Completed \<and> (st_receipt s' = Some r \<or>
    rp_contentAvailable r \<and> st_receipt s' = Some (r\<lparr>rp_contentAvailable := False\<rparr>))"
  by (rule steps_completed [OF assms(3,1,2)])

theorem completion_is_terminal_witness:
  "st_phase ex_s11 = Completed \<and> st_receipt ex_s11 \<noteq> Some ex_receipt"
proof -
  have "st_phase ex_s10 = Completed" "st_receipt ex_s10 = Some ex_receipt" by code_simp+
  from completion_is_terminal [OF this ex_steps(2)] have "st_phase ex_s11 = Completed" by blast
  moreover have "st_receipt ex_s11 \<noteq> Some ex_receipt" by code_simp
  ultimately show ?thesis by blast
qed

text \<open>A reachable state has a terminal receipt exactly when it is completed.\<close>

lemma receipt_iff_completed:
  assumes "op_reachable U s"
  shows "st_receipt s \<noteq> None \<longleftrightarrow> st_phase s = Completed"
  by (rule reachable_receipt [OF assms])

text \<open>The phase moves only along the edges of \<open>LEGAL_EDGES\<close>, by a phase event, or to
  completed, by a receipt event, from capturing or from recovered uncertainty.\<close>

lemma phase_moves_along_edges:
  assumes "op_step U s ev s'"
  shows "st_phase s' = st_phase s \<or>
    (\<exists>e tos. ev = Phase_changed_event e \<and> LEGAL_EDGES (st_phase s) = Some tos \<and> st_phase s' \<in> set tos) \<or>
    (\<exists>r at. ev = Receipt_completed_event r at \<and> st_phase s \<in> {Capturing, Uncertain} \<and> st_phase s' = Completed)"
  by (rule step_phase [OF assms])

section \<open>Logs\<close>

text \<open>Folding a log event by event yields a reachable state whose revision is the number
  of events; an empty log is refused.\<close>

lemma log_revision:
  "reduceOperationEvents U [] = Inl (OperationStateError ''empty_operation_log'') \<and>
   (reduceOperationEvents U evs = Inr s \<longrightarrow> op_reachable U s \<and> st_revision s = int (length evs))"
proof
  show "reduceOperationEvents U [] = Inl (OperationStateError ''empty_operation_log'')"
    by (simp add: reduceOperationEvents_def)
  show "reduceOperationEvents U evs = Inr s \<longrightarrow> op_reachable U s \<and> st_revision s = int (length evs)"
    using reduce_loop_reachable [of U None 0 evs]
    by (auto simp: reduceOperationEvents_def bind_res_Inr split: option.splits)
qed

section \<open>An unchecked key\<close>

text \<open>
  C7. An action receipt on objects. For a reachable state the receipt the code applies to its objects
  is the receipt of the typed reducer, with the same errors, unless the action id is the name of a
  member that the ledger inherits from \<open>Object.prototype\<close> and the receipt is otherwise well formed.
  Then the code accepts the event: it returns the state with one more ledger entry, under that name,
  which holds the members of the receipt alone. Nothing else changes, and no reader accepts the result:
  the key is not an operation id and the entry has no action kind, so the shape check of a persisted
  action refuses it.
\<close>

theorem action_receipt_on_objects:
  assumes "op_reachable U s"
  shows "if dict_lookup (st_actions s) (rc_actionId r) = Inherited \<and> action_receipt_check None r = None
    then \<exists>v a. applyActionReceipt_value (enc_state s) r rv = Inr v \<and>
      own_props (jget v ''actions'') = own_props (enc_dict enc_action_record (st_actions s)) @ [(rc_actionId r, Data True a)] \<and>
      (\<forall>m. m \<noteq> ''actions'' \<longrightarrow> jget v m = jget (enc_state s) m) \<and>
      jget a ''outcome'' = JStr (outcome_text (rc_outcome r)) \<and> jget a ''receiptRevision'' = JNum rv \<and>
      \<not> has_own a ''kind'' \<and> operationId_of (JStr (rc_actionId r)) = Some (OperationStateError ''invalid_operation_id'') \<and>
      assertActionRecordShape a = Some (OperationStateError ''missing_operation_field'')
    else applyActionReceipt_value (enc_state s) r rv = map_sum id enc_state (applyActionReceipt s r rv)"
proof (cases "dict_lookup (st_actions s) (rc_actionId r) = Inherited \<and> action_receipt_check None r = None")
  case True
  let ?k = "rc_actionId r" and ?a = "kindless_record r rv"
  have k: "obj_get (st_actions s) ?k = None" "?k \<in> set object_prototype_keys"
    using True by (auto simp: dict_lookup_def split: option.splits if_splits)
  have "operationId_of (JStr ?k) = Some (OperationStateError ''invalid_operation_id'')"
    using inherited_not_uuid [OF k(2)] by (simp add: operationId_of_def throw_state_def throw_if_def)
  then show ?thesis
    using True receipt_value_inherited [of s r rv] spread_dict_new [OF k(1), of enc_action_record ?a]
    by (auto simp: jget_spread enumerable_state kindless_fields kindless_refused)
next
  case False
  show ?thesis
    unfolding if_not_P [OF False] by (rule receipt_value_agrees [OF reachable_unsettled [OF assms] False])
qed

theorem action_receipt_on_objects_witness:
  "\<exists>v. applyActionReceipt_value (enc_state ex_s3) \<lparr>rc_actionId = ''toString'', rc_outcome = Outcome_uncertain,
      rc_evidenceDigest = None, rc_blockerCode = None, rc_observedAt = ex_time CHR ''4''\<rparr> 4 = Inr v \<and>
    has_own (jget v ''actions'') ''toString''"
proof -
  let ?r = "\<lparr>rc_actionId = ''toString'', rc_outcome = Outcome_uncertain, rc_evidenceDigest = None,
      rc_blockerCode = None, rc_observedAt = ex_time CHR ''4''\<rparr>"
  have "dict_lookup (st_actions ex_s3) ''toString'' = Inherited" by code_simp
  moreover have "action_receipt_check None ?r = None" by (simp add: action_receipt_check_def outcome_ok_def)
  ultimately show ?thesis
    using action_receipt_on_objects [OF ex_reachable(3), of ?r 4] by (auto simp: has_own_def)
qed

end
