(* ===== verification/Op_Snapshot.thy ===== *)
theory Op_Snapshot
  imports Op_Lifecycle Op_Canonical
begin

text \<open>
  The validator of a persisted snapshot (\<open>operations/state-machine.ts\<close>):
  \<open>assertOperationStateShape\<close> and \<open>validateStateCoherence\<close>. Compaction writes a snapshot
  only if it passes, and a reader refuses one that does not.
\<close>

section \<open>Coherence\<close>

text \<open>The loop over the ledger; its value is the boundary the ledger implies.\<close>

fun coherence_loop :: "int list \<Rightarrow> action_kind list \<Rightarrow> mutation_boundary \<Rightarrow> action_record list
    \<Rightarrow> mutation_boundary res" where
  "coherence_loop revisions singles expected [] = Inr expected"
| "coherence_loop revisions singles expected (a # as) =
     (if ar_intentRevision a \<in> set revisions
         \<or> (case ar_receiptRevision a of None \<Rightarrow> False | Some r \<Rightarrow> r \<in> set revisions)
      then Inl (OperationStateError ''duplicate_action_revision'')
      else if isSingleIntentKind (ar_kind a) \<and> ar_kind a \<in> set singles
      then Inl (OperationStateError ''nonrepeatable_action_already_intended'')
      else coherence_loop
        ((case ar_receiptRevision a of None \<Rightarrow> [] | Some r \<Rightarrow> [r]) @ ar_intentRevision a # revisions)
        (if isSingleIntentKind (ar_kind a) then ar_kind a # singles else singles)
        (raise_boundary (ar_kind a) expected) as)"

definition baseline_entry_check :: "operation_state \<Rightarrow> string \<times> operation_baseline \<Rightarrow> check" where
  "baseline_entry_check s x = (case x of (k, b) \<Rightarrow> (case obj_get (st_actions s) k of
     None \<Rightarrow> Some (OperationStateError ''ownership_baseline_action_missing'')
   | Some a \<Rightarrow> first_error
       [throw_state (ar_kind a \<noteq> Send \<and> ar_kind a \<noteq> Work_steer) ''ownership_baseline_action_missing'',
        throw_state (ob_actionId b \<noteq> k) ''ownership_baseline_map_mismatch'',
        (if ar_kind a = Send then (case st_ownershipBaseline s of
            None \<Rightarrow> Some (OperationStateError ''ownership_baseline_projection_mismatch'')
          | Some p \<Rightarrow> assertSameCanonical ''ownership_baseline_projection_mismatch'' enc_baseline p b)
         else None)]))"

definition baseline_projection_check :: "operation_state \<Rightarrow> check" where
  "baseline_projection_check s = when_some (st_ownershipBaseline s) (\<lambda>p.
     when_some (baseline_of s (ob_actionId p)) (\<lambda>b.
       assertSameCanonical ''ownership_baseline_projection_mismatch'' enc_baseline b p))"

fun transfer_tuples_loop :: "operation_state \<Rightarrow> string list \<Rightarrow> (string \<times> transfer_state) list \<Rightarrow> check" where
  "transfer_tuples_loop s seen [] = None"
| "transfer_tuples_loop s seen ((k, t) # ts) = (case validateArtifactTransferStateValues k t s of
     Some e \<Rightarrow> Some e
   | None \<Rightarrow> (case artifactTransferTuple (ts_intent t) of
       Inl e \<Rightarrow> Some e
     | Inr u \<Rightarrow> if u \<in> set seen then Some (OperationStateError ''artifact_transfer_duplicate_tuple'')
         else transfer_tuples_loop s (u # seen) ts))"

definition transfers_coherence :: "operation_state \<Rightarrow> check" where
  "transfers_coherence s = when_some (st_artifactTransfers s) (\<lambda>ts. first_error
     [assertArtifactTransfersStateShape (enc_dict enc_transfer_state ts),
      throw_state (ts \<noteq> [] \<and> artifacts_policy_of s \<noteq> Some Transfer) ''artifact_transfer_policy_mismatch'',
      transfer_tuples_loop s [] ts])"

definition establishment_coherence :: "operation_state \<Rightarrow> check" where
  "establishment_coherence s = when_some (st_target s) (\<lambda>t.
     if tb_targetLifecycle t \<noteq> Some New_established then None
     else case (tb_targetEstablishment t, send_actions s) of
       (Some e, [a]) \<Rightarrow> throw_state (te_causalSendActionId e \<noteq> ar_actionId a
            \<or> ar_targetDigest a \<noteq> Some (te_targetBindingDigest e))
          ''new_target_establishment_target_mismatch''
     | _ \<Rightarrow> Some (OperationStateError ''new_target_establishment_send_missing''))"

definition validateStateCoherence :: "operation_state \<Rightarrow> check" where
  "validateStateCoherence s = first_error
     [when_some (st_target s) (\<lambda>t. throw_state
        (tb_targetLifecycle t = Some New_pending \<and> st_phase s \<in> {Submitted, Generating, Capturing, Completed})
        ''new_target_not_established''),
      (case coherence_loop [] [] No_mutation (obj_values (st_actions s)) of
         Inl e \<Rightarrow> Some e
       | Inr b \<Rightarrow> throw_state (st_mutationBoundary s \<noteq> b) ''mutation_boundary_inconsistent''),
      validateSubmissionWitnessCollection s,
      first_error (map (baseline_entry_check s) (or_empty (st_ownershipBaselines s))),
      baseline_projection_check s,
      transfers_coherence s,
      establishment_coherence s,
      throw_state (st_phase s = Handoff_pending \<and>
          \<not> list_ex (\<lambda>a. ar_kind a = File_handoff) (obj_values (st_actions s))) ''operation_state_inconsistent'',
      throw_state (st_phase s = Send_pending \<and> send_actions s = []) ''operation_state_inconsistent'',
      (if st_phase s \<in> {Submitted, Generating, Capturing, Completed}
       then requireDurableOriginalSendOwnership s else None)]"

section \<open>The snapshot\<close>

definition state_keys :: "string list" where
  "state_keys = [''schemaVersion'', ''operationId'', ''requestDigest'', ''surface'', ''phase'',
     ''mutationBoundary'', ''revision'', ''createdAt'', ''updatedAt'', ''capturePolicy'', ''responseFormat'',
     ''target'', ''actions'', ''ownershipBaseline'', ''ownershipBaselines'', ''artifactTransfers'',
     ''submissionWitnesses'', ''submissionWitness'', ''lastBlocker'', ''receipt'']"

definition required_state_keys :: "string list" where
  "required_state_keys = [''schemaVersion'', ''operationId'', ''requestDigest'', ''surface'', ''phase'',
     ''mutationBoundary'', ''revision'', ''createdAt'', ''updatedAt'', ''actions'']"

definition response_format_ok :: "response_format \<Rightarrow> bool" where
  "response_format_ok f \<longleftrightarrow> format_text f = ''markdown'' \<or> format_text f = ''text''"

definition state_header_checks :: "operation_state \<Rightarrow> check list" where
  "state_header_checks s =
     [assertExactRecord (enc_state s) state_keys required_state_keys False,
      throw_state (st_schemaVersion s \<noteq> OPERATION_SCHEMA_VERSION) ''unsupported_operation_state'',
      assertOperationId (st_operationId s),
      assertDigest (st_requestDigest s),
      throw_state (st_surface s \<noteq> Chat \<and> st_surface s \<noteq> Work) ''invalid_operation_surface'',
      throw_state (\<not> known_phase (st_phase s)) ''invalid_operation_phase'',
      throw_state (\<not> known_boundary (st_mutationBoundary s)) ''invalid_mutation_boundary'',
      throw_state (\<not> is_safe_integer (st_revision s) \<or> st_revision s < 1) ''invalid_operation_revision'',
      assertTimestamp (st_createdAt s),
      assertTimestamp (st_updatedAt s),
      assertTimestampNotBefore (st_createdAt s) (st_updatedAt s),
      when_some (st_responseFormat s) (\<lambda>f. throw_state (\<not> response_format_ok f) ''invalid_response_format''),
      when_some (st_capturePolicy s) (\<lambda>p. first_error
        [assertDurableCapturePolicyShape (enc_capture_policy p),
         when_some (st_responseFormat s) (\<lambda>f.
           throw_state (f \<noteq> cp_responseFormat p) ''capture_policy_format_mismatch'')]),
      when_some (st_target s) (\<lambda>t. assertTargetShape (enc_target t))]"

definition action_entry_check :: "operation_state \<Rightarrow> string \<times> action_record \<Rightarrow> check" where
  "action_entry_check s x = (case x of (k, a) \<Rightarrow> first_error
     [assertOperationId k,
      assertActionRecordShape (enc_action_record a),
      throw_state (ar_actionId a \<noteq> k) ''invalid_operation_state'',
      assertPersistedActionRecord s a])"

definition stored_baseline_check :: "url_parser \<Rightarrow> operation_state \<Rightarrow> string \<times> operation_baseline \<Rightarrow> check" where
  "stored_baseline_check U s x = (case x of (k, b) \<Rightarrow> first_error
     [assertOperationId k,
      assertOwnershipBaselineShape U (enc_baseline b),
      throw_state (ob_actionId b \<noteq> k) ''invalid_operation_state'',
      validateOwnershipBaselineValues b s])"

definition state_content_checks :: "url_parser \<Rightarrow> operation_state \<Rightarrow> check list" where
  "state_content_checks U s =
     [first_error (map (action_entry_check s) (st_actions s)),
      when_some (st_target s) (validateTargetValues U),
      when_some (st_ownershipBaseline s) (\<lambda>b. first_error
        [assertOwnershipBaselineShape U (enc_baseline b), validateOwnershipBaselineValues b s]),
      when_some (st_ownershipBaselines s) (\<lambda>ob. first_error (map (stored_baseline_check U s) ob)),
      when_some (st_artifactTransfers s) (\<lambda>ts. first_error
        (assertArtifactTransfersStateShape (enc_dict enc_transfer_state ts) #
         map (\<lambda>(k, t). validateArtifactTransferStateValues k t s) ts)),
      validateSubmissionWitnessCollection s,
      when_some (st_lastBlocker s) (\<lambda>b. first_error
        [assertBlockerObservationShape (enc_blocker b), validateBlockerObservation b]),
      when_some (st_receipt s) (\<lambda>r. first_error
        [assertReceiptShape (enc_receipt r), validateReceiptValues r s]),
      throw_state (st_phase s = Completed \<and> st_receipt s = None) ''receipt_missing'',
      throw_state (st_phase s \<noteq> Completed \<and> st_receipt s \<noteq> None) ''receipt_phase_invalid'',
      validateStateCoherence s]"

definition assertOperationStateShape :: "url_parser \<Rightarrow> operation_state \<Rightarrow> check" where
  "assertOperationStateShape U s = first_error (state_header_checks s @ state_content_checks U s)"

section \<open>Facts\<close>

lemma state_shape [simp]: "assertExactRecord (enc_state s) state_keys required_state_keys False = None"
  unfolding enc_state_def
  by (rule assertExactRecord_enc_rec) (simp_all add: state_keys_def required_state_keys_def jfield_defs)

lemma coherence_loop_boundary:
  "coherence_loop revs singles b as = Inr b' \<Longrightarrow> b' = foldl (\<lambda>b k. raise_boundary k b) b (map ar_kind as)"
  by (induction as arbitrary: revs singles b) (auto split: if_splits)

end
