(* ===== verification/Json_Text.thy ===== *)
theory Json_Text
  imports Canonical_Json
begin

text \<open>
  Reading JSON text: \<open>JSON.parse\<close> as the journal uses it, on texts of code units below 256, with
  integers as the only numbers. The parser reads back what \<open>JSON.stringify\<close> prints; with it the
  canonical text determines the value it was printed from.
\<close>

section \<open>Reading\<close>

definition json_space :: "char \<Rightarrow> bool" where
  "json_space c \<longleftrightarrow> c = CHR 0x20 \<or> c = CHR 0x09 \<or> c = CHR 0x0A \<or> c = CHR 0x0D"

definition skip_space :: "string \<Rightarrow> string" where
  "skip_space s = dropWhile json_space s"

definition unescape :: "char \<Rightarrow> char option" where
  "unescape c = (if c = CHR 0x22 \<or> c = CHR 0x5C \<or> c = CHR ''/'' then Some c
     else if c = CHR ''b'' then Some (CHR 0x08) else if c = CHR ''f'' then Some (CHR 0x0C)
     else if c = CHR ''n'' then Some (CHR 0x0A) else if c = CHR ''r'' then Some (CHR 0x0D)
     else if c = CHR ''t'' then Some (CHR 0x09) else None)"

definition hex_value :: "char \<Rightarrow> nat option" where
  "hex_value c = (let n = (of_char c :: nat) in
     if 48 \<le> n \<and> n \<le> 57 then Some (n - 48)
     else if 97 \<le> n \<and> n \<le> 102 then Some (n - 87)
     else if 65 \<le> n \<and> n \<le> 70 then Some (n - 55) else None)"

text \<open>Four hexadecimal digits; the model has the code units below 256.\<close>

definition read_unit :: "char \<Rightarrow> char \<Rightarrow> char \<Rightarrow> char \<Rightarrow> char option" where
  "read_unit a b c d = (case (hex_value a, hex_value b, hex_value c, hex_value d) of
     (Some w, Some x, Some y, Some z) \<Rightarrow> if w = 0 \<and> x = 0 then Some (char_of (16 * y + z)) else None
   | _ \<Rightarrow> None)"

text \<open>The rest of a string literal after its opening quote.\<close>

fun read_string :: "string \<Rightarrow> (string \<times> string) option" where
  "read_string [] = None"
| "read_string (c # s) =
     (if c = CHR 0x22 then Some ([], s)
      else if c = CHR 0x5C then (case s of [] \<Rightarrow> None
        | d # s1 \<Rightarrow>
          if d = CHR ''u'' then (case s1 of
              h1 # h2 # h3 # h4 # s2 \<Rightarrow> (case read_unit h1 h2 h3 h4 of None \<Rightarrow> None
                | Some x \<Rightarrow> map_option (\<lambda>(t, r). (x # t, r)) (read_string s2))
            | _ \<Rightarrow> None)
          else (case unescape d of None \<Rightarrow> None
            | Some x \<Rightarrow> map_option (\<lambda>(t, r). (x # t, r)) (read_string s1)))
      else if (of_char c :: nat) < 32 then None
      else map_option (\<lambda>(t, r). (c # t, r)) (read_string s))"

definition read_number :: "string \<Rightarrow> (int \<times> string) option" where
  "read_number s = (let neg = (s \<noteq> [] \<and> hd s = CHR ''-''); s1 = (if neg then tl s else s);
       ds = takeWhile is_digit s1; r = dropWhile is_digit s1
     in if ds = [] \<or> (hd ds = CHR ''0'' \<and> tl ds \<noteq> []) then None
        else if r \<noteq> [] \<and> hd r \<in> {CHR ''.'', CHR ''e'', CHR ''E''} then None
        else Some (if neg then - int (index_value ds) else int (index_value ds), r))"

definition read_word :: "string \<Rightarrow> 'a \<Rightarrow> string \<Rightarrow> ('a \<times> string) option" where
  "read_word w x s = (if take (length w) s = w then Some (x, drop (length w) s) else None)"

definition read_scalar :: "string \<Rightarrow> (cjson \<times> string) option" where
  "read_scalar s = (case read_word ''null'' CNull s of Some x \<Rightarrow> Some x | None \<Rightarrow>
     (case read_word ''true'' (CBool True) s of Some x \<Rightarrow> Some x | None \<Rightarrow>
     (case read_word ''false'' (CBool False) s of Some x \<Rightarrow> Some x | None \<Rightarrow>
        map_option (\<lambda>(i, r). (CNum i, r)) (read_number s))))"

text \<open>A repeated member name keeps its first place and its last value.\<close>

definition object_of :: "(string \<times> cjson) list \<Rightarrow> cjson" where
  "object_of ps = CObj (foldl (\<lambda>ob (k, v). obj_set ob k v) [] ps)"

text \<open>The recursive descent; the fuel bounds its depth.\<close>

fun read_value :: "nat \<Rightarrow> string \<Rightarrow> (cjson \<times> string) option"
  and read_elements :: "nat \<Rightarrow> string \<Rightarrow> (cjson list \<times> string) option"
  and read_members :: "nat \<Rightarrow> string \<Rightarrow> ((string \<times> cjson) list \<times> string) option"
where
  "read_value 0 s0 = None"
| "read_value (Suc n) s0 = (case skip_space s0 of [] \<Rightarrow> None
   | c # s \<Rightarrow>
     if c = CHR 0x22 then map_option (\<lambda>(x, r). (CStr x, r)) (read_string s)
     else if c = CHR ''['' then
       (case skip_space s of [] \<Rightarrow> None | d # r \<Rightarrow>
          if d = CHR '']'' then Some (CArr [], r)
          else map_option (\<lambda>(xs, r). (CArr xs, r)) (read_elements n s))
     else if c = CHR ''{'' then
       (case skip_space s of [] \<Rightarrow> None | d # r \<Rightarrow>
          if d = CHR ''}'' then Some (CObj [], r)
          else map_option (\<lambda>(ps, r). (object_of ps, r)) (read_members n s))
     else read_scalar (c # s))"
| "read_elements 0 s0 = None"
| "read_elements (Suc n) s0 = (case read_value n s0 of None \<Rightarrow> None
   | Some (x, r0) \<Rightarrow> (case skip_space r0 of [] \<Rightarrow> None
     | c # r \<Rightarrow>
       if c = CHR '','' then map_option (\<lambda>(xs, r). (x # xs, r)) (read_elements n r)
       else if c = CHR '']'' then Some ([x], r) else None))"
| "read_members 0 s0 = None"
| "read_members (Suc n) s0 = (case skip_space s0 of [] \<Rightarrow> None
   | q # s \<Rightarrow> if q \<noteq> CHR 0x22 then None else (case read_string s of None \<Rightarrow> None
     | Some (k, r0) \<Rightarrow> (case skip_space r0 of [] \<Rightarrow> None
       | c # r1 \<Rightarrow> if c \<noteq> CHR '':'' then None else (case read_value n r1 of None \<Rightarrow> None
         | Some (v, r2) \<Rightarrow> (case skip_space r2 of [] \<Rightarrow> None
           | d # r3 \<Rightarrow>
             if d = CHR '','' then map_option (\<lambda>(ps, r). ((k, v) # ps, r)) (read_members n r3)
             else if d = CHR ''}'' then Some ([(k, v)], r3) else None)))))"

definition json_parse :: "string \<Rightarrow> cjson option" where
  "json_parse s = (case read_value (Suc (length s)) s of None \<Rightarrow> None
     | Some (x, r) \<Rightarrow> if skip_space r = [] then Some x else None)"


section \<open>The value a text denotes\<close>

text \<open>Properties are read back in the order they are printed.\<close>

fun printed :: "cjson \<Rightarrow> cjson" where
  "printed (CArr xs) = CArr (map printed xs)"
| "printed (CObj ps) = CObj (enumeration_order (map (\<lambda>(k, v). (k, printed v)) ps))"
| "printed c = c"

fun distinct_keys :: "cjson \<Rightarrow> bool" where
  "distinct_keys (CArr xs) \<longleftrightarrow> list_all distinct_keys xs"
| "distinct_keys (CObj ps) \<longleftrightarrow> distinct (map fst ps) \<and> list_all (\<lambda>(k, v). distinct_keys v) ps"
| "distinct_keys c \<longleftrightarrow> True"

text \<open>Fuel that suffices for the text of a value.\<close>

fun cweight :: "cjson \<Rightarrow> nat" where
  "cweight (CArr xs) = Suc (sum_list (map (\<lambda>x. Suc (cweight x)) xs))"
| "cweight (CObj ps) = Suc (sum_list (map (\<lambda>(k, v). Suc (cweight v)) ps))"
| "cweight c = 1"

subsection \<open>Enumeration order\<close>

lemma insort_key_map: "insort_key f (h x) (map h xs) = map h (insort_key (f \<circ> h) x xs)"
  by (induction xs) auto

lemma sort_key_map: "sort_key f (map h xs) = map h (sort_key (f \<circ> h) xs)"
  by (induction xs) (simp_all add: insort_key_map comp_def)

lemma enumeration_order_map:
  "enumeration_order (map (\<lambda>(k, v). (k, f v)) ps) = map (\<lambda>(k, v). (k, f v)) (enumeration_order ps)"
proof -
  have c: "(index_value \<circ> fst) \<circ> (\<lambda>(k, v). (k, f v)) = index_value \<circ> fst"
    "(is_array_index \<circ> fst) \<circ> (\<lambda>(k, v). (k, f v)) = is_array_index \<circ> fst"
    "(\<lambda>p. \<not> is_array_index (fst p)) \<circ> (\<lambda>(k, v). (k, f v)) = (\<lambda>p. \<not> is_array_index (fst p))"
    by (auto simp: fun_eq_iff)
  show ?thesis by (simp only: enumeration_order_def filter_map sort_key_map map_append c)
qed

lemma mset_enumeration: "mset (enumeration_order ps) = mset ps"
  by (simp add: enumeration_order_def comp_def)

lemma set_enumeration [simp]: "set (enumeration_order ps) = set ps"
  by (metis mset_enumeration set_mset_mset)

lemma distinct_enumeration [simp]: "distinct (map fst (enumeration_order ps)) \<longleftrightarrow> distinct (map fst ps)"
proof -
  have "mset (map fst (enumeration_order ps)) = mset (map fst ps)" by (simp add: mset_enumeration)
  then show ?thesis by (rule mset_eq_imp_distinct_iff)
qed

lemma sum_enumeration:
  fixes f :: "_ \<Rightarrow> nat"
  shows "sum_list (map f (enumeration_order ps)) = sum_list (map f ps)"
  using arg_cong [OF mset_enumeration [of ps], of "\<lambda>m. sum_mset (image_mset f m)"]
  by (simp flip: mset_map add: sum_mset_sum_list)

subsection \<open>Scalars\<close>

lemma is_digit_nat: "is_digit c \<longleftrightarrow> 48 \<le> (of_char c :: nat) \<and> (of_char c :: nat) \<le> 57"
  by (simp add: is_digit_def in_range_def)

lemma digit_char_digit: "n < 10 \<Longrightarrow> is_digit (digit_char n)" "n < 10 \<Longrightarrow> of_char (digit_char n) - 48 = (n :: nat)"
  by (simp_all add: digit_char_def is_digit_nat)

lemma index_value_snoc: "index_value (s @ [c]) = 10 * index_value s + (of_char c - 48)"
  by (simp add: index_value_def)

lemma nat_text_props:
  "list_all is_digit (nat_text n) \<and> nat_text n \<noteq> [] \<and> index_value (nat_text n) = n \<and>
   (hd (nat_text n) = CHR ''0'' \<longrightarrow> n = 0)"
proof (induction n rule: nat_text.induct)
  case (1 n)
  show ?case
  proof (cases "n < 10")
    case True
    have "digit_char n = CHR ''0'' \<Longrightarrow> n = 0"
      using digit_char_digit(2) [OF True] by simp
    with True show ?thesis
      by (simp add: nat_text.simps [of n] digit_char_digit index_value_def)
  next
    case False
    with 1 show ?thesis
      by (auto simp: nat_text.simps [of n] digit_char_digit index_value_snoc)
  qed
qed

definition ends_number :: "string \<Rightarrow> bool" where
  "ends_number r \<longleftrightarrow> r = [] \<or> (\<not> is_digit (hd r) \<and> hd r \<notin> {CHR ''.'', CHR ''e'', CHR ''E''})"

lemma ends_number_simps [simp]: "ends_number []" "ends_number (CHR '','' # r)" "ends_number (CHR '']'' # r)"
  "ends_number (CHR ''}'' # r)" "ends_number (CHR 0x0A # r)"
  by (simp_all add: ends_number_def is_digit_nat)

lemma takeWhile_stops:
  assumes "list_all P a" "r = [] \<or> \<not> P (hd r)"
  shows "takeWhile P (a @ r) = a" "dropWhile P (a @ r) = r"
  using assms by (induction a; cases r; simp)+

lemma read_number_text:
  assumes "ends_number r" shows "read_number (int_text i @ r) = Some (i, r)"
proof -
  have split: "takeWhile is_digit (nat_text n @ r) = nat_text n" "dropWhile is_digit (nat_text n @ r) = r" for n
    using takeWhile_stops [of is_digit "nat_text n" r] nat_text_props [of n] assms by (auto simp: ends_number_def)
  have lead: "\<not> (hd (nat_text n) = CHR ''0'' \<and> tl (nat_text n) \<noteq> [])" for n
  proof
    assume h: "hd (nat_text n) = CHR ''0'' \<and> tl (nat_text n) \<noteq> []"
    then have "n = 0" using nat_text_props [of n] by blast
    with h show False by (simp add: nat_text.simps)
  qed
  have neg: "hd (nat_text n @ r) \<noteq> CHR ''-''" for n
    using nat_text_props [of n] by (cases "nat_text n") (auto simp: is_digit_nat)
  have fin: "\<not> (r \<noteq> [] \<and> hd r \<in> {CHR ''.'', CHR ''e'', CHR ''E''})" using assms by (auto simp: ends_number_def)
  have nz: "nat_text n \<noteq> []" "index_value (nat_text n) = n" for n using nat_text_props [of n] by auto
  show ?thesis
    unfolding read_number_def int_text_def Let_def
    using neg fin lead by (cases "i < 0") (simp_all add: split nz)
qed

lemma of_char_nat_eqD: "(of_char c :: nat) = of_char d \<Longrightarrow> c = d"
  by simp

lemma hex_value_char: "hex_value (hex_char n) = Some (n mod 16)"
proof -
  have "\<forall>k \<in> set [0..<16]. hex_value (hex_char k) = Some k" by code_simp
  then have "hex_value (hex_char (n mod 16)) = Some (n mod 16)" by simp
  then show ?thesis by (simp add: hex_char_def)
qed

lemma hex_digits:
  assumes "n < 32"
  shows "read_unit (CHR ''0'') (CHR ''0'') (hex_char (n div 16)) (hex_char n) = Some (char_of n)"
proof -
  have "hex_value (CHR ''0'') = Some 0" by (simp add: hex_value_def)
  moreover have "n div 16 mod 16 = n div 16" using assms by simp
  ultimately show ?thesis by (simp add: read_unit_def hex_value_char)
qed

lemma read_string_escape:
  "read_string (json_escape c @ s) = map_option (\<lambda>(t, r). (c # t, r)) (read_string s)"
proof -
  let ?n = "of_char c :: nat"
  have sp: "?n = 8 \<Longrightarrow> c = CHR 0x08" "?n = 9 \<Longrightarrow> c = CHR 0x09" "?n = 10 \<Longrightarrow> c = CHR 0x0A"
    "?n = 12 \<Longrightarrow> c = CHR 0x0C" "?n = 13 \<Longrightarrow> c = CHR 0x0D"
    by (rule of_char_nat_eqD; simp)+
  show ?thesis
  proof (cases "c \<in> {CHR 0x22, CHR 0x5C, CHR 0x08, CHR 0x09, CHR 0x0A, CHR 0x0C, CHR 0x0D}")
    case True
    then show ?thesis by (auto simp: json_escape_def unescape_def)
  next
    case False
    then have n: "c \<noteq> CHR 0x22" "c \<noteq> CHR 0x5C" "?n \<noteq> 8" "?n \<noteq> 9" "?n \<noteq> 10" "?n \<noteq> 12" "?n \<noteq> 13"
      using sp by blast+
    show ?thesis
    proof (cases "?n < 32")
      case True
      with n hex_digits [OF True] show ?thesis by (simp add: json_escape_def Let_def)
    next
      case False
      with n show ?thesis by (simp add: json_escape_def)
    qed
  qed
qed

lemma read_string_text: "read_string (concat (map json_escape s) @ CHR 0x22 # r) = Some (s, r)"
  by (induction s) (simp_all add: read_string_escape)


subsection \<open>Values\<close>

definition starts_value :: "string \<Rightarrow> bool" where
  "starts_value s \<longleftrightarrow> s \<noteq> [] \<and> \<not> json_space (hd s) \<and> hd s \<noteq> CHR '']'' \<and> hd s \<noteq> CHR ''}''"

lemma skip_starts: "starts_value s \<Longrightarrow> skip_space (s @ r) = s @ r"
  by (cases s) (simp_all add: starts_value_def skip_space_def)

lemma skip_space_simps [simp]: "skip_space (CHR '','' # r) = CHR '','' # r"
  "skip_space (CHR '']'' # r) = CHR '']'' # r" "skip_space (CHR ''}'' # r) = CHR ''}'' # r"
  "skip_space (CHR '':'' # r) = CHR '':'' # r" "skip_space (CHR 0x22 # r) = CHR 0x22 # r" "skip_space [] = []"
  "skip_space (CHR 0x0A # r) = skip_space r"
  by (simp_all add: skip_space_def json_space_def)

lemma int_text_starts: "starts_value (int_text i) \<and> hd (int_text i) \<notin> {CHR 0x22, CHR ''['', CHR ''{'', CHR ''n'', CHR ''t'', CHR ''f''}"
proof -
  obtain h t where "nat_text (nat i) = h # t" "is_digit h"
    using nat_text_props [of "nat i"] by (cases "nat_text (nat i)") auto
  then show ?thesis
    by (auto simp: int_text_def starts_value_def json_space_def is_digit_nat)
qed

lemma json_text_starts: "starts_value (json_text c)"
  using int_text_starts by (cases c) (auto simp: starts_value_def json_space_def string_text_def)

lemma read_scalar_number:
  assumes "ends_number r" shows "read_scalar (int_text i @ r) = Some (CNum i, r)"
proof -
  obtain h t where h: "int_text i = h # t" "h \<notin> {CHR ''n'', CHR ''t'', CHR ''f''}"
    using int_text_starts [of i] by (cases "int_text i") (auto simp: starts_value_def)
  have "read_word ''null'' CNull (int_text i @ r) = None" "read_word ''true'' (CBool True) (int_text i @ r) = None"
    "read_word ''false'' (CBool False) (int_text i @ r) = None"
    using h by (auto simp: read_word_def)
  then show ?thesis using assms by (simp add: read_scalar_def read_number_text)
qed

lemma read_scalar_words [simp]:
  "read_scalar (CHR ''n'' # CHR ''u'' # CHR ''l'' # CHR ''l'' # r) = Some (CNull, r)"
  "read_scalar (CHR ''t'' # CHR ''r'' # CHR ''u'' # CHR ''e'' # r) = Some (CBool True, r)"
  "read_scalar (CHR ''f'' # CHR ''a'' # CHR ''l'' # CHR ''s'' # CHR ''e'' # r) = Some (CBool False, r)"
  by (simp_all add: read_scalar_def read_word_def)

lemma object_of_distinct:
  assumes "distinct (map fst ps)" shows "object_of ps = CObj ps"
proof -
  have "foldl (\<lambda>ob (k, v). obj_set ob k v) ob ps = ob @ ps"
    if "distinct (map fst (ob @ ps))" for ob
    using that
  proof (induction ps arbitrary: ob)
    case (Cons p ps)
    obtain k v where p: "p = (k, v)" by fastforce
    have "obj_set ob k v = ob @ [(k, v)]"
      using Cons.prems by (intro obj_set_new) (auto simp: obj_get_None_keys obj_keys_def p)
    with Cons.IH [of "ob @ [(k, v)]"] Cons.prems show ?case by (simp add: p)
  qed simp
  from this [of "[]"] assms show ?thesis by (simp add: object_of_def)
qed

text \<open>What the recursion has to establish for one value.\<close>

definition reads :: "cjson \<Rightarrow> bool" where
  "reads c \<longleftrightarrow> (\<forall>n r. cweight c \<le> n \<longrightarrow> ends_number r \<longrightarrow> read_value n (json_text c @ r) = Some (printed c, r))"

lemma readsD: "reads c \<Longrightarrow> cweight c \<le> n \<Longrightarrow> ends_number r \<Longrightarrow> read_value n (json_text c @ r) = Some (printed c, r)"
  by (simp add: reads_def)

lemma join_with_Cons: "join_with sep (x # y # ys) = x @ sep @ join_with sep (y # ys)"
  by (simp add: join_with_def)

lemma join_with_single [simp]: "join_with sep [x] = x"
  by (simp add: join_with_def)

lemma read_elements_text:
  assumes "\<And>x. x \<in> set xs \<Longrightarrow> reads x" "xs \<noteq> []" "sum_list (map (\<lambda>x. Suc (cweight x)) xs) \<le> n"
  shows "read_elements n (join_with '','' (map json_text xs) @ CHR '']'' # r) = Some (map printed xs, r)"
  using assms
proof (induction xs arbitrary: n)
  case (Cons x xs)
  obtain m where n: "n = Suc m" using Cons.prems(3) by (cases n) auto
  have x: "reads x" "cweight x \<le> m" using Cons.prems(1,3) n by auto
  show ?case
  proof (cases xs)
    case Nil
    then show ?thesis using readsD [OF x, of "CHR '']'' # r"] by (simp add: n)
  next
    case (Cons y ys)
    have "read_elements m (join_with '','' (map json_text xs) @ CHR '']'' # r) = Some (map printed xs, r)"
      using Cons.IH [of m] Cons Cons.prems n by simp
    then show ?thesis
      using readsD [OF x, of "CHR '','' # join_with '','' (map json_text xs) @ CHR '']'' # r"] Cons
      by (simp add: n join_with_Cons)
  qed
qed simp

lemma read_members_text:
  assumes "\<And>k v. (k, v) \<in> set ps \<Longrightarrow> reads v" "ps \<noteq> []" "sum_list (map (\<lambda>(k, v). Suc (cweight v)) ps) \<le> n"
  shows "read_members n (join_with '','' (map (\<lambda>(k, v). string_text k @ '':'' @ json_text v) ps) @ CHR ''}'' # r) =
    Some (map (\<lambda>(k, v). (k, printed v)) ps, r)"
  using assms
proof (induction ps arbitrary: n)
  case (Cons p ps)
  obtain k v where p: "p = (k, v)" by fastforce
  obtain m where n: "n = Suc m" using Cons.prems(3) by (cases n) (auto simp: p)
  have x: "reads v" "cweight v \<le> m" using Cons.prems(1,3) n by (auto simp: p)
  show ?case
  proof (cases ps)
    case Nil
    then show ?thesis using readsD [OF x, of "CHR ''}'' # r"]
      by (simp add: n p string_text_def read_string_text)
  next
    case (Cons q qs)
    let ?j = "join_with '','' (map (\<lambda>(k, v). string_text k @ '':'' @ json_text v) ps) @ CHR ''}'' # r"
    have "read_members m ?j = Some (map (\<lambda>(k, v). (k, printed v)) ps, r)"
      by (rule Cons.IH) (use Cons Cons.prems n in \<open>auto simp: p\<close>)
    then show ?thesis
      using readsD [OF x, of "CHR '','' # ?j"] Cons
      by (simp add: n p string_text_def read_string_text join_with_Cons)
  qed
qed simp

lemma members_start:
  assumes "ps \<noteq> []"
  shows "starts_value (join_with '','' (map (\<lambda>(k, v). string_text k @ '':'' @ json_text v) ps))"
  using assms by (cases ps; cases "tl ps") (auto simp: join_with_Cons string_text_def starts_value_def json_space_def split: prod.splits)

lemma elements_start:
  assumes "xs \<noteq> []" shows "starts_value (join_with '','' (map json_text xs))"
proof -
  obtain x ys where xs: "xs = x # ys" using assms by (cases xs) auto
  have "join_with '','' (map json_text xs) = json_text x @ concat (map (\<lambda>y. '','' @ json_text y) ys)"
    by (simp add: xs join_with_def comp_def)
  then show ?thesis using json_text_starts [of x] by (auto simp: starts_value_def)
qed

lemma json_text_object: "json_text (CObj ps) =
   CHR ''{'' # join_with '','' (map (\<lambda>(k, v). string_text k @ '':'' @ json_text v) (enumeration_order ps)) @ ''}''"
  by (simp only: json_text.simps enumeration_order_map) (simp add: comp_def split_def)

theorem reads_text: "distinct_keys c \<Longrightarrow> reads c"
proof (induction c)
  case CNull
  show ?case unfolding reads_def by (auto simp: skip_space_def json_space_def Suc_le_eq dest!: gr0_implies_Suc)
next
  case (CBool b)
  show ?case unfolding reads_def by (auto simp: skip_space_def json_space_def Suc_le_eq dest!: gr0_implies_Suc)
next
  case (CNum i)
  have "read_value n (int_text i @ r) = Some (CNum i, r)" if "1 \<le> n" "ends_number r" for n r
  proof -
    obtain m where "n = Suc m" using \<open>1 \<le> n\<close> by (cases n) auto
    moreover obtain h t where "int_text i = h # t" "h \<notin> {CHR 0x22, CHR ''['', CHR ''{''}"
      using int_text_starts [of i] by (cases "int_text i") (auto simp: starts_value_def)
    ultimately show ?thesis using skip_starts [of "int_text i" r] int_text_starts [of i] read_scalar_number [OF that(2), of i]
      by simp
  qed
  then show ?case by (simp add: reads_def)
next
  case (CStr s)
  show ?case unfolding reads_def
    by (auto simp: string_text_def read_string_text Suc_le_eq dest!: gr0_implies_Suc)
next
  case (CArr xs)
  have h: "\<And>x. x \<in> set xs \<Longrightarrow> reads x" using CArr by (auto simp: list_all_iff)
  have "read_value n (json_text (CArr xs) @ r) = Some (printed (CArr xs), r)" if n: "cweight (CArr xs) \<le> n" for n r
  proof -
    obtain m where m: "n = Suc m" "sum_list (map (\<lambda>x. Suc (cweight x)) xs) \<le> m" using n by (cases n) auto
    show ?thesis
    proof (cases "xs = []")
      case True
      then show ?thesis by (simp add: m skip_space_def json_space_def join_with_def)
    next
      case False
      obtain d u where d: "join_with '','' (map json_text xs) = d # u" "d \<noteq> CHR '']''"
        using elements_start [OF False] by (cases "join_with '','' (map json_text xs)") (auto simp: starts_value_def)
      show ?thesis
        using skip_starts [OF elements_start [OF False], of "CHR '']'' # r"] read_elements_text [OF h False m(2), of r] d
        by (simp add: m(1) skip_space_def json_space_def)
    qed
  qed
  then show ?case by (simp add: reads_def)
next
  case (CObj ps)
  let ?qs = "enumeration_order ps"
  have h: "\<And>k v. (k, v) \<in> set ?qs \<Longrightarrow> reads v" using CObj by (fastforce simp: list_all_iff)
  have obj: "object_of (map (\<lambda>(k, v). (k, printed v)) ?qs) = printed (CObj ps)"
  proof -
    have "map fst (map (\<lambda>(k, v). (k, printed v)) ?qs) = map fst ?qs" by (simp add: split_def comp_def)
    then have "distinct (map fst (map (\<lambda>(k, v). (k, printed v)) ?qs))" using CObj.prems by (simp only: distinct_keys.simps distinct_enumeration)
    from object_of_distinct [OF this] show ?thesis by (simp add: enumeration_order_map)
  qed
  have "read_value n (json_text (CObj ps) @ r) = Some (printed (CObj ps), r)" if n: "cweight (CObj ps) \<le> n" for n r
  proof -
    obtain m where m: "n = Suc m" "sum_list (map (\<lambda>(k, v). Suc (cweight v)) ?qs) \<le> m"
      using n by (cases n) (auto simp: sum_enumeration)
    show ?thesis
    proof (cases "?qs = []")
      case True
      then have "ps = []" using set_enumeration [of ps] by simp
      then show ?thesis by (simp add: m(1) skip_space_def json_space_def join_with_def enumeration_order_def)
    next
      case False
      let ?j = "join_with '','' (map (\<lambda>(k, v). string_text k @ '':'' @ json_text v) ?qs)"
      obtain d u where d: "?j = d # u" "d \<noteq> CHR ''}''"
        using members_start [OF False] by (cases ?j) (auto simp: starts_value_def)
      show ?thesis
        unfolding json_text_object using skip_starts [OF members_start [OF False], where r = "CHR ''}'' # r"]
          read_members_text [OF h False m(2), where r = r] d obj
        by (simp add: m(1) skip_space_def json_space_def)
    qed
  qed
  then show ?case by (simp add: reads_def)
qed


lemma cweight_scalar_le: "cweight c \<le> length (json_text c)"
proof (induction c)
  case (CNum i)
  show ?case using int_text_starts [of i] by (cases "int_text i") (auto simp: starts_value_def)
next
  case (CArr xs)
  have "sum_list (map (\<lambda>x. Suc (cweight x)) xs) \<le> Suc (length (join_with '','' (map json_text xs)))"
    using CArr
  proof (induction xs)
    case (Cons x ys)
    then have "sum_list (map (\<lambda>x. Suc (cweight x)) ys) \<le> Suc (length (join_with '','' (map json_text ys)))"
      "cweight x \<le> length (json_text x)" by auto
    then show ?case by (cases ys) (auto simp: join_with_Cons)
  qed simp
  then show ?case by simp
next
  case (CObj ps)
  let ?t = "\<lambda>(k, v). string_text k @ '':'' @ json_text v" let ?qs = "enumeration_order ps"
  have "sum_list (map (\<lambda>(k, v). Suc (cweight v)) qs) \<le> Suc (length (join_with '','' (map ?t qs)))"
    if "set qs \<subseteq> set ps" for qs
    using that
  proof (induction qs)
    case (Cons q rs)
    obtain k v where q: "q = (k, v)" by fastforce
    have "cweight v \<le> length (json_text v)" using CObj Cons.prems by (fastforce simp: q)
    with Cons show ?case by (cases rs) (auto simp: join_with_Cons q)
  qed simp
  from this [of ?qs] sum_enumeration [of "\<lambda>(k, v). Suc (cweight v)" ps] show ?case
    unfolding json_text_object cweight.simps by simp
qed (auto simp: string_text_def)

theorem json_parse_text:
  assumes "distinct_keys c" "skip_space w = []" "ends_number w"
  shows "json_parse (json_text c @ w) = Some (printed c)"
proof -
  have "cweight c \<le> Suc (length (json_text c @ w))" using cweight_scalar_le [of c] by simp
  from readsD [OF reads_text [OF assms(1)] this assms(3)] assms(2) show ?thesis by (simp add: json_parse_def)
qed

lemmas json_parse_plain = json_parse_text [where w = "[]", simplified]

end
