(* ===== verification/Json_Values.thy ===== *)
theory Json_Values
  imports Json_Text
begin

text \<open>
  Parsed JSON as JavaScript values, \<open>JSON.parse (JSON.stringify v)\<close>, and the canonical text seen as
  a function of the parsed value: it does not depend on the order of properties, and it determines
  the canonical graph it was printed from.
\<close>

section \<open>Values\<close>

fun jsv_of :: "cjson \<Rightarrow> jsv" where
  "jsv_of CNull = JNull"
| "jsv_of (CBool b) = JBool b"
| "jsv_of (CNum i) = JNum i"
| "jsv_of (CStr s) = JStr s"
| "jsv_of (CArr xs) = JArr (map jsv_of xs)"
| "jsv_of (CObj ps) = JObj 0 (map (\<lambda>(k, v). (k, Data True (jsv_of v))) ps)"

text \<open>
  What \<open>JSON.stringify\<close> makes of a value: \<open>Inr None\<close> is \<open>undefined\<close>. Arrays with holes, exotic objects
  and getters carry no content in the model.
\<close>

fun stringified :: "jsv \<Rightarrow> cjson option res" where
  "stringified JUndefined = Inr None"
| "stringified JNull = Inr (Some CNull)"
| "stringified (JBool b) = Inr (Some (CBool b))"
| "stringified (JNum i) = Inr (Some (CNum i))"
| "stringified JNegZero = Inr (Some (CNum 0))"
| "stringified JNonFinite = Inr (Some CNull)"
| "stringified (JStr s) = Inr (Some (CStr s))"
| "stringified (JUnsupported t) = (if t = ''bigint'' then Inl (TypeError ''Do not know how to serialize a BigInt'') else Inr None)"
| "stringified JAncestor = Inl (TypeError ''Converting circular structure to JSON'')"
| "stringified (JArr vs) = bind_res (foldr (\<lambda>v acc. bind_res (stringified v) (\<lambda>x.
       bind_res acc (\<lambda>xs. Inr ((case x of None \<Rightarrow> CNull | Some c \<Rightarrow> c) # xs)))) vs (Inr []))
     (\<lambda>xs. Inr (Some (CArr xs)))"
| "stringified (JOddArray b) = Inl (Untyped_record ''array'')"
| "stringified (JDate b stamp) = Inr (Some (case stamp of None \<Rightarrow> CNull | Some t \<Rightarrow> CStr t))"
| "stringified (JBytes b bytes) = Inr (Some (CObj (map (\<lambda>(i, x). (nat_text i, CNum (of_char x)))
       (enumerate 0 bytes))))"
| "stringified JExotic = Inl (Untyped_record ''object'')"
| "stringified (JObj syms ps) = bind_res (foldr (\<lambda>(k, p) acc. (case p of
       Accessor \<Rightarrow> Inl (Untyped_record k)
     | Data enumerable v \<Rightarrow> if \<not> enumerable then acc
         else bind_res (stringified v) (\<lambda>x. bind_res acc (\<lambda>qs. Inr (case x of None \<Rightarrow> qs | Some c \<Rightarrow> (k, c) # qs)))))
       ps (Inr []))
     (\<lambda>qs. Inr (Some (CObj qs)))"

section \<open>Order of properties\<close>

fun sorted_value :: "cjson \<Rightarrow> cjson" where
  "sorted_value (CArr xs) = CArr (map sorted_value xs)"
| "sorted_value (CObj ps) = CObj (sort_key fst (map (\<lambda>(k, v). (k, sorted_value v)) ps))"
| "sorted_value c = c"

lemma sort_key_map_snd:
  fixes ps :: "('a :: linorder \<times> 'b) list"
  shows "sort_key fst (map (\<lambda>(k, v). (k, f v)) ps) = map (\<lambda>(k, v). (k, f v)) (sort_key fst ps)"
proof -
  have "fst \<circ> (\<lambda>(k :: 'a, v :: 'b). (k, f v)) = fst" by auto
  then show ?thesis by (simp add: sort_key_map)
qed

lemma filter_enumeration: "filter (\<lambda>p. fst p = k) (enumeration_order ps) = filter (\<lambda>p. fst p = k) ps"
proof -
  have s: "filter (\<lambda>p. fst p = k) (sort_key g xs) = filter (\<lambda>p. fst p = k) xs"
    if "g = index_value \<circ> fst" for xs :: "(string \<times> 'a) list" and g
  proof -
    have "filter (\<lambda>p. fst p = k) (sort_key g xs) =
      filter (\<lambda>p. fst p = k) (filter (\<lambda>p. g p = index_value k) (sort_key g xs))"
      by (auto simp: that intro: filter_cong)
    also have "\<dots> = filter (\<lambda>p. fst p = k) (filter (\<lambda>p. g p = index_value k) xs)"
      by (simp only: sort_key_stable)
    also have "\<dots> = filter (\<lambda>p. fst p = k) xs"
      by (auto simp: that intro: filter_cong)
    finally show ?thesis .
  qed
  have "filter (\<lambda>p. is_array_index (fst p) \<and> fst p = k) ps =
      (if is_array_index k then filter (\<lambda>p. fst p = k) ps else [])"
    "filter (\<lambda>p. \<not> is_array_index (fst p) \<and> fst p = k) ps =
      (if is_array_index k then [] else filter (\<lambda>p. fst p = k) ps)"
    by (induction ps) auto
  then show ?thesis by (simp add: enumeration_order_def s comp_def)
qed

lemma map_of_filter: "map_of (filter (\<lambda>p. fst p = k) ps) k = map_of ps k"
  by (induction ps) auto

lemma map_of_enumeration [simp]: "map_of (enumeration_order ps) k = map_of ps k"
  using map_of_filter [of k "enumeration_order ps"] map_of_filter [of k ps] by (simp add: filter_enumeration)

lemma map_of_sort [simp]: "map_of (sort_key fst ps) k = map_of ps k"
  using map_of_filter [of k "sort_key fst ps"] map_of_filter [of k ps] by (simp add: sort_key_stable)

lemma filter_eq_commute: "filter (\<lambda>p. k = fst p) ps = filter (\<lambda>p. fst p = k) ps"
  by (rule filter_cong) auto

lemma sort_enumeration [simp]: "sort_key fst (enumeration_order ps) = sort_key fst ps"
proof (rule properties_for_sort_key)
  show "mset (sort_key fst ps) = mset (enumeration_order ps)" by (simp add: mset_enumeration)
  show "filter (\<lambda>x. fst q = fst x) (sort_key fst ps) = filter (\<lambda>x. fst q = fst x) (enumeration_order ps)" for q
    by (simp only: filter_eq_commute filter_enumeration sort_key_stable)
qed simp

lemma sorted_printed [simp]: "sorted_value (printed c) = sorted_value c"
proof (induction c)
  case (CObj ps)
  have "map (\<lambda>(k, v). (k, sorted_value (printed v))) ps = map (\<lambda>(k, v). (k, sorted_value v)) ps"
    using CObj by (auto intro: map_cong)
  moreover have "map (\<lambda>(k, v). (k, sorted_value v)) (enumeration_order (map (\<lambda>(k, v). (k, printed v)) ps)) =
    enumeration_order (map (\<lambda>(k, v). (k, sorted_value (printed v))) ps)"
    by (simp only: flip: enumeration_order_map) (simp add: comp_def split_def)
  ultimately show ?case by (simp only: sorted_value.simps printed.simps sort_enumeration)
qed simp_all


section \<open>The canonical graph\<close>

lemma props_of: "map (\<lambda>(k, v). (k, Data True (jsv_of v))) (map (\<lambda>(k, v). (k, f v)) ps) =
  map (\<lambda>(k, v). (k, Data True (jsv_of (f v)))) ps"
  by (simp add: comp_def split_def)

declare canonicalValue.simps [simp del]

lemma canonicalElements_cong:
  assumes "\<And>x i d b. x \<in> set xs \<Longrightarrow> canonicalValue (f x) d b = canonicalValue (g x) d b"
  shows "canonicalElements (map f xs) i d b = canonicalElements (map g xs) i d b"
  using assms by (induction xs arbitrary: i b) simp_all

lemma canonicalProperties_cong:
  assumes "\<And>k v d b. (k, v) \<in> set ps \<Longrightarrow> canonicalValue (f v) d b = canonicalValue (g v) d b"
  shows "canonicalProperties (map (\<lambda>(k, v). (k, Data True (f v))) ps) d b =
    canonicalProperties (map (\<lambda>(k, v). (k, Data True (g v))) ps) d b"
  using assms
proof (induction ps arbitrary: b)
  case (Cons p ps)
  obtain k v where p: "p = (k, v)" by fastforce
  have "canonicalValue (f v) (Suc d) b' = canonicalValue (g v) (Suc d) b'" for b'
    using Cons.prems by (auto simp: p)
  moreover have "canonicalProperties (map (\<lambda>(k, v). (k, Data True (f v))) ps) d b' =
    canonicalProperties (map (\<lambda>(k, v). (k, Data True (g v))) ps) d b'" for b'
    by (rule Cons.IH) (use Cons.prems in auto)
  ultimately show ?case by (simp add: p)
qed simp

lemma canonicalValue_unfold:
  "canonicalValue (JArr vs) d b0 = bind_res (consumeNode d b0) (\<lambda>b.
     if length vs > MAX_CANONICAL_ARRAY_LENGTH then type_error ''Canonical JSON contains an oversized array.''
     else bind_res (canonicalElements vs 0 d b) (\<lambda>(cs, b'). Inr (CArr cs, b')))"
  "canonicalValue (JObj n ps) d b0 = bind_res (consumeNode d b0) (\<lambda>b.
     if length ps + n > MAX_CANONICAL_PROPERTIES then type_error ''Canonical JSON exceeds the bounded property limit.''
     else if n > 0 then type_error ''Canonical JSON does not support symbol properties.''
     else bind_res (canonicalProperties (sort_key fst ps) d b) (\<lambda>(cs, b'). Inr (CObj cs, b')))"
  by (simp_all only: canonicalValue.simps jsv.case)

lemma canonicalValue_sorted: "canonicalValue (jsv_of (sorted_value c)) d b = canonicalValue (jsv_of c) d b"
proof (induction c arbitrary: d b)
  case (CArr xs)
  have "canonicalElements (map (jsv_of \<circ> sorted_value) xs) i d b = canonicalElements (map jsv_of xs) i d b" for i d b
    by (rule canonicalElements_cong) (simp add: CArr)
  then show ?case by (simp only: sorted_value.simps jsv_of.simps canonicalValue_unfold map_map length_map)
next
  case (CObj ps)
  let ?qs = "sort_key fst ps"
  have "canonicalProperties (map (\<lambda>(k, v). (k, Data True (jsv_of (sorted_value v)))) ?qs) d b =
    canonicalProperties (map (\<lambda>(k, v). (k, Data True (jsv_of v))) ?qs) d b" for d b
    by (rule canonicalProperties_cong) (use CObj in auto)
  moreover have "sort_key fst (map (\<lambda>(k, v). (k, Data True (jsv_of v))) (sort_key fst (map (\<lambda>(k, v). (k, sorted_value v)) ps))) =
    map (\<lambda>(k, v). (k, Data True (jsv_of (sorted_value v)))) ?qs"
    by (simp only: sort_key_map_snd props_of) (simp add: sort_key_id_if_sorted sort_key_map_snd)
  ultimately show ?case
    by (simp only: sorted_value.simps jsv_of.simps canonicalValue_unfold sort_key_map_snd length_map length_sort)
qed simp_all

theorem canonicalValue_printed: "canonicalValue (jsv_of (printed c)) d b = canonicalValue (jsv_of c) d b"
  using canonicalValue_sorted [of "printed c" d b] canonicalValue_sorted [of c d b] by simp


text \<open>Own property names are distinct, as those of an object are.\<close>

fun distinct_props :: "jsv \<Rightarrow> bool" where
  "distinct_props (JArr vs) \<longleftrightarrow> list_all distinct_props vs"
| "distinct_props (JObj n ps) \<longleftrightarrow> distinct (map fst ps) \<and>
     list_all (\<lambda>(k, p). case p of Accessor \<Rightarrow> True | Data e v \<Rightarrow> distinct_props v) ps"
| "distinct_props v \<longleftrightarrow> True"

definition canonical :: "cjson \<Rightarrow> bool" where
  "canonical c \<longleftrightarrow> distinct_keys c \<and> sorted_value c = c"

lemma map_same_iff: "map f xs = xs \<longleftrightarrow> (\<forall>x\<in>set xs. f x = x)"
  by (induction xs) auto

lemma canonical_simps [simp]: "canonical CNull" "canonical (CBool b)" "canonical (CNum i)" "canonical (CStr s)"
  "canonical (marker k (CBool b))" "canonical (marker k (CStr s))"
  "canonical (CArr xs) \<longleftrightarrow> list_all canonical xs"
  by (auto simp: canonical_def marker_def list_all_iff map_same_iff)

lemma canonical_object:
  assumes "distinct (map fst ps)" "sorted (map fst ps)" "list_all (\<lambda>(k, v). canonical v) ps"
  shows "canonical (CObj ps)"
proof -
  have "map (\<lambda>(k, v). (k, sorted_value v)) ps = ps"
    using assms(3) by (auto simp: canonical_def list_all_iff intro!: map_idI)
  moreover have "sort_key fst ps = ps" using assms(2) by (rule sort_key_id_if_sorted)
  moreover have "list_all (\<lambda>(k, v). distinct_keys v) ps" using assms(3) by (auto simp: canonical_def list_all_iff)
  ultimately show ?thesis using assms(1) by (simp add: canonical_def)
qed

lemma distinct_sorted_keys [simp]: "distinct (map fst (sort_key fst ps)) \<longleftrightarrow> distinct (map fst ps)"
proof -
  have "mset (map fst (sort_key fst ps)) = mset (map fst ps)" by simp
  then show ?thesis by (rule mset_eq_imp_distinct_iff)
qed

lemma canonical_result:
  "canonicalValue v d b = Inr (c, b') \<Longrightarrow> distinct_props v \<Longrightarrow> canonical c"
  "canonicalElements vs i d b = Inr (cs, b') \<Longrightarrow> list_all distinct_props vs \<Longrightarrow> list_all canonical cs"
  "canonicalProperties ps d b = Inr (qs, b') \<Longrightarrow>
     list_all (\<lambda>(k, p). case p of Accessor \<Rightarrow> True | Data e v \<Rightarrow> distinct_props v) ps \<Longrightarrow>
     map fst qs = map fst ps \<and> list_all (\<lambda>(k, v). canonical v) qs"
proof (induction v d b and vs i d b and ps d b arbitrary: c b' and cs b' and qs b'
    rule: canonicalValue_canonicalElements_canonicalProperties.induct)
  case (1 v depth b0)
  obtain b1 where b1: "consumeNode depth b0 = Inr b1"
    using 1(3) by (subst (asm) canonicalValue.simps) (auto simp: bind_res_Inr)
  show ?case
  proof (cases v)
    case (JArr vs)
    then show ?thesis using 1(3,4) 1(1) [OF JArr]
      by (subst (asm) canonicalValue.simps) (auto simp: b1 bind_res_Inr type_error_def split: if_splits)
  next
    case (JObj n ps)
    obtain cs where "c = CObj cs" "canonicalProperties (sort_key fst ps) depth b1 = Inr (cs, b')" "n = 0"
      "length ps \<le> MAX_CANONICAL_PROPERTIES"
      using 1(3) by (subst (asm) canonicalValue.simps) (auto simp: b1 JObj bind_res_Inr type_error_def split: if_splits)
    then show ?thesis using 1(2) [OF JObj] 1(4) by (auto simp: JObj list_all_iff intro!: canonical_object)
  qed (use 1(3) in \<open>auto simp: canonicalValue.simps b1 bind_res_Inr type_error_def canonicalDate_def canonicalBytes_def split: if_splits option.splits\<close>)
next
  case (3 v vs i depth b)
  then show ?case by (auto simp: bind_res_Inr)
next
  case (5 k p ps depth b)
  then show ?case by (cases p) (fastforce simp: bind_res_Inr type_error_def split: if_splits)+
qed (auto simp: bind_res_Inr)


lemma jsv_of_result:
  assumes "canonicalValue (jsv_of c) d b = Inr (c', b')" shows "c' = sorted_value c"
  using assms
proof (induction c arbitrary: d b c' b')
  case (CArr xs)
  have el: "canonicalElements (map jsv_of ys) i d b = Inr (cs, b') \<Longrightarrow> cs = map sorted_value ys"
    if "set ys \<subseteq> set xs" for ys i d b cs b'
    using that by (induction ys arbitrary: i b cs b') (auto simp: bind_res_Inr dest: CArr.IH)
  from CArr.prems el [of xs] show ?case by (auto simp: canonicalValue_unfold bind_res_Inr type_error_def split: if_splits)
next
  case (CObj ps)
  have pr: "canonicalProperties (map (\<lambda>(k, v). (k, Data True (jsv_of v))) qs) d b = Inr (cs, b') \<Longrightarrow>
      cs = map (\<lambda>(k, v). (k, sorted_value v)) qs"
    if "set qs \<subseteq> set ps" for qs d b cs b'
    using that by (induction qs arbitrary: b cs b')
      (fastforce simp: bind_res_Inr type_error_def split: if_splits dest: CObj.IH)+
  from CObj.prems pr [of "sort_key fst ps"] show ?case
    by (auto simp: canonicalValue_unfold sort_key_map_snd bind_res_Inr type_error_def split: if_splits)
qed (auto simp: canonicalValue.simps bind_res_Inr)

lemma canonicalJson_Inr: "canonicalJson v = Inr t \<longleftrightarrow> (\<exists>c b. canonicalValue v 0 empty_budget = Inr (c, b) \<and>
    t = json_text c \<and> byteLength t \<le> MAX_CANONICAL_BYTES)"
  by (cases "canonicalValue v 0 empty_budget") (auto simp: canonicalJson_def type_error_def Let_def split: if_splits)

theorem canonicalJson_printed: "canonicalJson (jsv_of (printed c)) = canonicalJson (jsv_of c)"
  by (simp add: canonicalJson_def canonicalValue_printed)

theorem canonicalJson_parse:
  assumes "canonicalJson v = Inr t" "distinct_props v" "skip_space w = []" "ends_number w"
  obtains c b where "canonicalValue v 0 empty_budget = Inr (c, b)" "t = json_text c" "canonical c"
    "json_parse (t @ w) = Some (printed c)"
proof -
  obtain c b where c: "canonicalValue v 0 empty_budget = Inr (c, b)" "t = json_text c"
    using assms(1) by (auto simp: canonicalJson_Inr)
  have "canonical c" using canonical_result(1) [OF c(1) assms(2)] .
  with c json_parse_text [of c w] assms(3,4) that show ?thesis by (simp add: canonical_def)
qed

theorem canonicalJson_inject:
  assumes "canonicalJson v = Inr t" "canonicalJson w = Inr t" "distinct_props v" "distinct_props w"
  obtains c b b' where "canonicalValue v 0 empty_budget = Inr (c, b)" "canonicalValue w 0 empty_budget = Inr (c, b')"
proof -
  obtain c b where c: "canonicalValue v 0 empty_budget = Inr (c, b)" "canonical c" "json_parse t = Some (printed c)"
    by (rule canonicalJson_parse [OF assms(1,3), of "[]"]) simp_all
  obtain c' b' where c': "canonicalValue w 0 empty_budget = Inr (c', b')" "canonical c'" "json_parse t = Some (printed c')"
    by (rule canonicalJson_parse [OF assms(2,4), of "[]"]) simp_all
  have "sorted_value (printed c) = sorted_value (printed c')" using c(3) c'(3) by simp
  then have "c = c'" using c(2) c'(2) by (simp add: canonical_def)
  with c(1) c'(1) that show ?thesis by blast
qed

lemma distinct_props_jsv_of [simp]: "distinct_props (jsv_of c) \<longleftrightarrow> distinct_keys c"
proof (induction c)
  case (CObj ps)
  have "map fst (map (\<lambda>(k, v). (k, Data True (jsv_of v))) ps) = map fst ps" by (simp add: split_def comp_def)
  with CObj show ?case by (auto simp: list_all_iff simp del: map_map)
qed (auto simp: list_all_iff)

end
