(* ===== verification/Keyed_Digest.thy ===== *)
theory Keyed_Digest
  imports Json_Values Op_Patterns
begin

text \<open>
  The keyed digests of \<open>operations/canonical.ts\<close>. The keyed hash (HMAC-SHA-256 of Node's crypto
  module under the journal key, as hexadecimal text) is the parameter \<open>H\<close> on bytes. A hash has
  collisions, so no property assumes that \<open>H\<close> is injective: where it matters the hypothesis is that
  the messages that were in fact hashed do not collide.
\<close>

section \<open>UTF-8\<close>

text \<open>Decoding, on the code points below 256.\<close>

fun utf8_decode :: "string \<Rightarrow> string option" where
  "utf8_decode [] = Some []"
| "utf8_decode (c # s) = (let n = (of_char c :: nat) in
     if n < 128 then map_option (Cons c) (utf8_decode s)
     else if n = 194 \<or> n = 195 then (case s of [] \<Rightarrow> None
       | d # s' \<Rightarrow> let m = (of_char d :: nat) in
           if 128 \<le> m \<and> m < 192 then map_option (Cons (char_of ((n - 192) * 64 + (m - 128)))) (utf8_decode s') else None)
     else None)"

lemma utf8_decode_char: "utf8_decode (utf8_char c @ s) = map_option (Cons c) (utf8_decode s)"
proof (cases "(of_char c :: nat) < 128")
  case True
  then show ?thesis by (simp add: utf8_char_def)
next
  case False
  define n where "n = (of_char c :: nat)"
  have c: "c = char_of n" by (simp add: n_def)
  have n: "128 \<le> n" "n < 256" using False nat_of_char_less_256 [of c] by (simp_all add: n_def)
  have "2 \<le> n div 64" using n by (simp add: less_eq_div_iff_mult_less_eq)
  moreover have "n div 64 < 4" using n by (simp add: less_mult_imp_div_less)
  ultimately have d: "n div 64 = 2 \<or> n div 64 = 3" by linarith
  have b: "(of_char (char_of (128 + n mod 64) :: char) :: nat) = 128 + n mod 64"
    "(of_char (char_of (192 + n div 64) :: char) :: nat) = 192 + n div 64"
    using d by (auto simp: of_char_of)
  have e: "(192 + n div 64 - 192) * 64 + (128 + n mod 64 - 128) = n" by simp
  have u: "utf8_char c = [char_of (192 + n div 64), char_of (128 + n mod 64)]"
    using False by (simp add: utf8_char_def n_def Let_def)
  have r: "\<not> 192 + n div 64 < 128" "192 + n div 64 = 194 \<or> 192 + n div 64 = 195" "128 + n mod 64 < 192"
    using d by auto
  show ?thesis unfolding u by (simp only: append.simps utf8_decode.simps Let_def b e list.case c) (use r in simp)
qed

lemma utf8_append: "utf8 (s @ t) = utf8 s @ utf8 t"
  by (simp add: utf8_def)

lemma utf8_decode_utf8 [simp]: "utf8_decode (utf8 s) = Some s"
  by (induction s) (simp_all add: utf8_def utf8_decode_char)

lemma utf8_inject [simp]: "utf8 s = utf8 t \<longleftrightarrow> s = t"
  by (metis option.inject utf8_decode_utf8)

section \<open>The keyed digest\<close>

type_synonym keyed_hash = "string \<Rightarrow> string"

definition DIGEST_PREFIX :: string where "DIGEST_PREFIX = ''hmac-sha256:''"

text \<open>The bytes that are hashed for a value with canonical text \<open>t\<close>.\<close>

definition hmac_message :: "string \<Rightarrow> string \<Rightarrow> string" where
  "hmac_message domain t = utf8 (domain @ CHR 0x00 # t)"

definition hmacDigest :: "keyed_hash \<Rightarrow> string \<Rightarrow> jsv \<Rightarrow> string res" where
  "hmacDigest H domain v = bind_res (canonicalJson v) (\<lambda>t.
     Inr (DIGEST_PREFIX @ H (hmac_message domain t)))"

lemma hmacDigest_Inr: "hmacDigest H D v = Inr d \<longleftrightarrow>
   (\<exists>t. canonicalJson v = Inr t \<and> d = DIGEST_PREFIX @ H (hmac_message D t))"
  by (auto simp: hmacDigest_def bind_res_Inr)

lemma nul_free_split:
  assumes "D @ CHR 0x00 # t = E @ CHR 0x00 # u" "CHR 0x00 \<notin> set D" "CHR 0x00 \<notin> set E"
  shows "D = E \<and> t = u"
  using assms by (induction D arbitrary: E) (case_tac E; force)+

lemma hmac_message_eqD:
  assumes "hmac_message D t = hmac_message E u" "CHR 0x00 \<notin> set D" "CHR 0x00 \<notin> set E"
  shows "D = E \<and> t = u"
  using nul_free_split [of D t E u] assms by (simp add: hmac_message_def)

text \<open>Equal digests of messages that do not collide come from equal domains and equal canonical texts.\<close>

lemma hmacDigest_eqD:
  assumes "hmacDigest H D v = Inr d" "hmacDigest H E w = Inr d" "CHR 0x00 \<notin> set D" "CHR 0x00 \<notin> set E"
    and "canonicalJson v = Inr t" "canonicalJson w = Inr u"
    and "inj_on H M" "hmac_message D t \<in> M" "hmac_message E u \<in> M"
  shows "D = E \<and> t = u"
proof -
  have "H (hmac_message D t) = H (hmac_message E u)" using assms(1,2,5,6) by (auto simp: hmacDigest_def)
  then have "hmac_message D t = hmac_message E u" using assms(7-9) by (meson inj_onD)
  then show ?thesis using hmac_message_eqD assms(3,4) by blast
qed

text \<open>The keyed hash yields 64 lowercase hexadecimal digits, as HMAC-SHA-256 in hexadecimal does.\<close>

definition hex_hash :: "keyed_hash \<Rightarrow> bool" where
  "hex_hash H \<longleftrightarrow> (\<forall>m. DIGEST_PATTERN (DIGEST_PREFIX @ H m))"

lemma hex_hash_digest: "hex_hash H \<Longrightarrow> hmacDigest H D v = Inr d \<Longrightarrow> DIGEST_PATTERN d"
  by (auto simp: hmacDigest_Inr hex_hash_def)

section \<open>The digest of a request\<close>

text \<open>Reading the closed records of the request without invoking accessors.\<close>

fun record_keys_check :: "string list \<Rightarrow> (string \<times> jsv jprop) list \<Rightarrow> check" where
  "record_keys_check allowed [] = None"
| "record_keys_check allowed ((k, p) # ps) =
     (if k \<notin> set allowed then Some (TypeError ''Canonical JSON contains an unsupported field.'')
      else case p of
        Accessor \<Rightarrow> Some (TypeError ''Canonical JSON supports only own data properties.'')
      | Data enumerable v \<Rightarrow> if \<not> enumerable then Some (TypeError SAFE_CANONICAL_ERROR)
          else record_keys_check allowed ps)"

definition safeRecordValues :: "jsv \<Rightarrow> string list \<Rightarrow> (string \<Rightarrow> jsv) res" where
  "safeRecordValues v allowed = (case v of
     JObj syms ps \<Rightarrow> (case record_keys_check allowed (enumeration_order ps) of
       Some e \<Rightarrow> Inl e
     | None \<Rightarrow> if syms > 0 then Inl (TypeError ''Canonical JSON does not support symbol properties.'')
         else Inr (\<lambda>k. case map_of ps k of Some (Data e w) \<Rightarrow> w | _ \<Rightarrow> JUndefined))
   | _ \<Rightarrow> Inl (TypeError SAFE_CANONICAL_ERROR))"

definition safeArrayElements :: "jsv \<Rightarrow> jsv list res" where
  "safeArrayElements v = (case v of
     JArr vs \<Rightarrow> if length vs > MAX_CANONICAL_ARRAY_LENGTH then Inl (TypeError SAFE_CANONICAL_ERROR) else Inr vs
   | _ \<Rightarrow> Inl (TypeError SAFE_CANONICAL_ERROR))"

text \<open>\<open>toLowerCase\<close> on code units below 256; \<open>normalize("NFC")\<close> does not change them.\<close>

definition lower_char :: "char \<Rightarrow> char" where
  "lower_char c = (let n = (of_char c :: nat) in
     if (65 \<le> n \<and> n \<le> 90) \<or> (192 \<le> n \<and> n \<le> 222 \<and> n \<noteq> 215) then char_of (n + 32) else c)"

definition plain_object :: "(string \<times> jsv) list \<Rightarrow> jsv" where
  "plain_object ps = JObj 0 (map (\<lambda>(k, v). (k, Data True v)) ps)"

definition canonicalFileProjection :: "keyed_hash \<Rightarrow> jsv \<Rightarrow> jsv res" where
  "canonicalFileProjection H value = bind_res (safeRecordValues value [''displayName'', ''bytes'', ''contentSha256''])
     (\<lambda>f. case (f ''displayName'', f ''bytes'', f ''contentSha256'') of
        (JStr name, bytes, JStr sha) \<Rightarrow>
          if (case bytes of JNum i \<Rightarrow> is_safe_integer i | JNegZero \<Rightarrow> True | _ \<Rightarrow> False) then
            bind_res (hmacDigest H ''codex-chatgpt-control/file-display-name/v1'' (JStr name)) (\<lambda>d1.
            bind_res (hmacDigest H ''codex-chatgpt-control/file-content-sha256/v1'' (JStr (map lower_char sha))) (\<lambda>d2.
              Inr (plain_object [(''displayNameDigest'', JStr d1), (''bytes'', bytes), (''contentDigest'', JStr d2)])))
          else Inl (TypeError SAFE_CANONICAL_ERROR)
      | _ \<Rightarrow> Inl (TypeError SAFE_CANONICAL_ERROR))"

definition nullish :: "jsv \<Rightarrow> string \<Rightarrow> jsv" where
  "nullish v d = (if v = JUndefined \<or> v = JNull then JStr d else v)"

definition canonicalCapturePolicy :: "jsv \<Rightarrow> jsv res" where
  "canonicalCapturePolicy value =
     (if value = JUndefined then Inr (plain_object [(''responseContent'', JStr ''include''),
        (''responseFormat'', JStr ''markdown''), (''artifacts'', JStr ''receipt_only'')])
      else bind_res (safeRecordValues value [''responseContent'', ''responseFormat'', ''artifacts'', ''outputDirectory''])
        (\<lambda>f. Inr (plain_object [(''responseContent'', nullish (f ''responseContent'') ''include''),
          (''responseFormat'', nullish (f ''responseFormat'') ''markdown''),
          (''artifacts'', nullish (f ''artifacts'') ''receipt_only'')])))"

fun map_res :: "('a \<Rightarrow> 'b res) \<Rightarrow> 'a list \<Rightarrow> 'b list res" where
  "map_res f [] = Inr []"
| "map_res f (x # xs) = bind_res (f x) (\<lambda>y. bind_res (map_res f xs) (\<lambda>ys. Inr (y # ys)))"

definition REQUEST_DOMAIN :: string where "REQUEST_DOMAIN = ''codex-chatgpt-control/operation-request/v1''"
definition PROMPT_DOMAIN :: string where "PROMPT_DOMAIN = ''codex-chatgpt-control/prompt/v1''"

text \<open>The identity that is digested, from the values of the request.\<close>

definition request_identity :: "(string \<Rightarrow> jsv) \<Rightarrow> string \<Rightarrow> string \<Rightarrow> jsv list \<Rightarrow> jsv \<Rightarrow> jsv" where
  "request_identity f prompt promptDigest files policy = plain_object
     [(''schemaVersion'', JStr ''chatgpt.browser_control.operation_request_identity.v1''),
      (''operationId'', f ''operationId''), (''surface'', f ''surface''), (''target'', f ''target''),
      (''prompt'', plain_object [(''digest'', JStr promptDigest), (''bytes'', JNum (int (byteLength prompt)))]),
      (''configuration'', f ''configuration''), (''tools'', f ''tools''), (''files'', JArr files),
      (''capturePolicy'', policy), (''behavior'', f ''behavior'')]"

definition operationRequestDigest :: "keyed_hash \<Rightarrow> jsv \<Rightarrow> string res" where
  "operationRequestDigest H input = bind_res (safeRecordValues input
       [''operationId'', ''surface'', ''target'', ''prompt'', ''configuration'', ''tools'', ''files'', ''capturePolicy'', ''behavior''])
     (\<lambda>f. case f ''prompt'' of
        JStr prompt \<Rightarrow>
          bind_res (if f ''files'' = JUndefined then Inr [] else bind_res (safeArrayElements (f ''files''))
              (map_res (canonicalFileProjection H))) (\<lambda>files.
          bind_res (hmacDigest H PROMPT_DOMAIN (JStr prompt)) (\<lambda>d.
          bind_res (canonicalCapturePolicy (f ''capturePolicy'')) (\<lambda>policy.
            hmacDigest H REQUEST_DOMAIN (request_identity f prompt d files policy))))
      | _ \<Rightarrow> Inl (TypeError SAFE_CANONICAL_ERROR))"

end
