(* ===== verification/Op_Decode.thy ===== *)
theory Op_Decode
  imports Op_Encode Json_Values "HOL-Library.Monad_Syntax"
begin

text \<open>
  The typed reading of parsed JSON. The code casts a parsed record to its TypeScript type and checks
  the shape afterwards; here a record that is not of the type (a missing or an unknown member, a
  member of another type) has no reading, which is where the closed-shape checks would refuse it.
  The order of members does not matter.
\<close>

section \<open>Readers\<close>

definition fields :: "string list \<Rightarrow> cjson \<Rightarrow> (string \<Rightarrow> cjson option) option" where
  "fields ks j = (case j of
     CObj ps \<Rightarrow> if list_all (\<lambda>k. k \<in> set ks) (map fst ps) then Some (map_of ps) else None
   | _ \<Rightarrow> None)"

definition d_str :: "cjson option \<Rightarrow> string option" where
  "d_str x = (case x of Some (CStr s) \<Rightarrow> Some s | _ \<Rightarrow> None)"

definition d_int :: "cjson option \<Rightarrow> int option" where
  "d_int x = (case x of Some (CNum i) \<Rightarrow> Some i | _ \<Rightarrow> None)"

definition d_bool :: "cjson option \<Rightarrow> bool option" where
  "d_bool x = (case x of Some (CBool b) \<Rightarrow> Some b | _ \<Rightarrow> None)"

definition d_enum :: "(string \<Rightarrow> 'a) \<Rightarrow> cjson option \<Rightarrow> 'a option" where
  "d_enum f x = map_option f (d_str x)"

text \<open>A required member, an optional one, an array and a dictionary of typed values.\<close>

definition d_req :: "(cjson \<Rightarrow> 'a option) \<Rightarrow> cjson option \<Rightarrow> 'a option" where
  "d_req dec x = Option.bind x dec"

definition d_opt :: "(cjson \<Rightarrow> 'a option) \<Rightarrow> cjson option \<Rightarrow> 'a option option" where
  "d_opt dec x = (case x of None \<Rightarrow> Some None | Some j \<Rightarrow> map_option Some (dec j))"

definition d_list :: "(cjson \<Rightarrow> 'a option) \<Rightarrow> cjson \<Rightarrow> 'a list option" where
  "d_list dec j = (case j of CArr xs \<Rightarrow> those (map dec xs) | _ \<Rightarrow> None)"

definition d_dict :: "(cjson \<Rightarrow> 'a option) \<Rightarrow> cjson \<Rightarrow> 'a obj option" where
  "d_dict dec j = (case j of
     CObj ps \<Rightarrow> those (map (\<lambda>(k, v). map_option (Pair k) (dec v)) ps) | _ \<Rightarrow> None)"

section \<open>Enumerations\<close>

definition surface_of :: "string \<Rightarrow> surface" where
  "surface_of s = (if s = ''chat'' then Chat
     else if s = ''work'' then Work
     else Other_surface s)"

definition phase_of :: "string \<Rightarrow> operation_phase" where
  "phase_of s = (if s = ''prepared'' then Prepared
     else if s = ''handoff_pending'' then Handoff_pending
     else if s = ''ready'' then Ready
     else if s = ''send_pending'' then Send_pending
     else if s = ''submitted'' then Submitted
     else if s = ''generating'' then Generating
     else if s = ''capturing'' then Capturing
     else if s = ''completed'' then Completed
     else if s = ''uncertain'' then Uncertain
     else Other_phase s)"

definition boundary_of :: "string \<Rightarrow> mutation_boundary" where
  "boundary_of s = (if s = ''none'' then No_mutation
     else if s = ''handoff_may_have_occurred'' then Handoff_may_have_occurred
     else if s = ''send_may_have_occurred'' then Send_may_have_occurred
     else if s = ''control_may_have_occurred'' then Control_may_have_occurred
     else Other_boundary s)"

definition policy_of :: "string \<Rightarrow> repeat_policy" where
  "policy_of s = (if s = ''read_only'' then Read_only
     else if s = ''reconcile_set_to_value'' then Reconcile_set_to_value
     else if s = ''reconcile_local_effect'' then Reconcile_local_effect
     else if s = ''observe_only_after_intent'' then Observe_only_after_intent
     else Other_policy s)"

definition kind_of :: "string \<Rightarrow> action_kind" where
  "kind_of s = (if s = ''status_read'' then Status_read
     else if s = ''configuration_set'' then Configuration_set
     else if s = ''tool_set'' then Tool_set
     else if s = ''composer_set'' then Composer_set
     else if s = ''power_discovery'' then Power_discovery
     else if s = ''power_select'' then Power_select
     else if s = ''file_handoff'' then File_handoff
     else if s = ''send'' then Send
     else if s = ''work_steer'' then Work_steer
     else if s = ''stop'' then Stop
     else if s = ''download'' then Download
     else if s = ''local_output_commit'' then Local_output_commit
     else if s = ''clipboard_capture_restore'' then Clipboard_capture_restore
     else Other_kind s)"

definition outcome_of :: "string \<Rightarrow> action_outcome" where
  "outcome_of s = (if s = ''satisfied'' then Satisfied
     else if s = ''not_satisfied'' then Not_satisfied
     else if s = ''uncertain'' then Outcome_uncertain
     else Other_outcome s)"

definition requirement_of :: "string \<Rightarrow> requirement" where
  "requirement_of s = (if s = ''required'' then Required
     else if s = ''unavailable'' then Not_available
     else Other_requirement s)"

definition scope_of :: "string \<Rightarrow> coordination_scope" where
  "scope_of s = (if s = ''process'' then Process_scope
     else if s = ''provider'' then Provider_scope
     else Other_scope s)"

definition lifecycle_of :: "string \<Rightarrow> target_lifecycle" where
  "lifecycle_of s = (if s = ''fixed'' then Fixed
     else if s = ''new_pending'' then New_pending
     else if s = ''new_established'' then New_established
     else Other_lifecycle s)"

definition content_of :: "string \<Rightarrow> response_content" where
  "content_of s = (if s = ''include'' then Include
     else if s = ''metadata'' then Metadata
     else Other_content s)"

definition format_of :: "string \<Rightarrow> response_format" where
  "format_of s = (if s = ''markdown'' then Markdown
     else if s = ''text'' then Plain_text
     else Other_format s)"

definition artifacts_of :: "string \<Rightarrow> artifacts_policy" where
  "artifacts_of s = (if s = ''receipt_only'' then Receipt_only
     else if s = ''transfer'' then Transfer
     else Other_artifacts s)"

definition artifact_kind_of :: "string \<Rightarrow> artifact_kind" where
  "artifact_kind_of s = (if s = ''file'' then File_artifact
     else if s = ''image'' then Image_artifact
     else if s = ''other'' then Other_artifact
     else Bad_artifact_kind s)"

definition artifact_status_of :: "string \<Rightarrow> artifact_status" where
  "artifact_status_of s = (if s = ''available'' then Artifact_available
     else if s = ''transferred'' then Artifact_transferred
     else if s = ''partial'' then Artifact_partial
     else if s = ''blocked'' then Artifact_blocked
     else Bad_artifact_status s)"

definition turn_state_of :: "string \<Rightarrow> turn_state" where
  "turn_state_of s = (if s = ''generating'' then Turn_generating
     else if s = ''terminal'' then Turn_terminal
     else Other_turn_state s)"

definition reason_of :: "string \<Rightarrow> unavailable_reason" where
  "reason_of s = (if s = ''not_exposed'' then Not_exposed
     else if s = ''not_observed'' then Not_observed
     else if s = ''redacted'' then Redacted
     else Other_reason s)"


section \<open>Records\<close>

definition dec_capture_policy :: "cjson \<Rightarrow> capture_policy option" where
  "dec_capture_policy j = Option.bind (fields
     [''responseContent'', ''responseFormat'', ''artifacts''] j) (\<lambda>f. do {
       responseContent' \<leftarrow> d_enum content_of (f ''responseContent'');
       responseFormat' \<leftarrow> d_enum format_of (f ''responseFormat'');
       artifacts' \<leftarrow> d_enum artifacts_of (f ''artifacts'');
       Some \<lparr>cp_responseContent = responseContent', cp_responseFormat = responseFormat',
         cp_artifacts = artifacts'\<rparr> })"

definition dec_profile :: "cjson \<Rightarrow> evidence_profile option" where
  "dec_profile j = Option.bind (fields
     [''providerIdentity'', ''stableTabId'', ''stableConversationId'', ''stableUserTurnId'',
      ''authoritativeTabClaim'', ''replacementTabRecovery''] j) (\<lambda>f. do {
       providerIdentity' \<leftarrow> d_enum requirement_of (f ''providerIdentity'');
       stableTabId' \<leftarrow> d_enum requirement_of (f ''stableTabId'');
       stableConversationId' \<leftarrow> d_enum requirement_of (f ''stableConversationId'');
       stableUserTurnId' \<leftarrow> d_enum requirement_of (f ''stableUserTurnId'');
       authoritativeTabClaim' \<leftarrow> d_enum requirement_of (f ''authoritativeTabClaim'');
       replacementTabRecovery' \<leftarrow> d_bool (f ''replacementTabRecovery'');
       Some \<lparr>ep_providerIdentity = providerIdentity', ep_stableTabId = stableTabId',
         ep_stableConversationId = stableConversationId', ep_stableUserTurnId = stableUserTurnId',
         ep_authoritativeTabClaim = authoritativeTabClaim',
         ep_replacementTabRecovery = replacementTabRecovery'\<rparr> })"

definition dec_establishment :: "cjson \<Rightarrow> target_establishment option" where
  "dec_establishment j = Option.bind (fields
     [''targetBindingDigest'', ''anchorDigest'', ''causalSendActionId'', ''conversationId'',
      ''canonicalThreadUrl'', ''userTurnId'', ''userTurnEvidenceDigest'',
      ''postSendDeltaDigest'', ''evidenceDigest'', ''observedAt''] j) (\<lambda>f. do {
       targetBindingDigest' \<leftarrow> d_str (f ''targetBindingDigest'');
       anchorDigest' \<leftarrow> d_str (f ''anchorDigest'');
       causalSendActionId' \<leftarrow> d_str (f ''causalSendActionId'');
       conversationId' \<leftarrow> d_str (f ''conversationId'');
       canonicalThreadUrl' \<leftarrow> d_str (f ''canonicalThreadUrl'');
       userTurnId' \<leftarrow> d_str (f ''userTurnId'');
       userTurnEvidenceDigest' \<leftarrow> d_str (f ''userTurnEvidenceDigest'');
       postSendDeltaDigest' \<leftarrow> d_opt (d_str \<circ> Some) (f ''postSendDeltaDigest'');
       evidenceDigest' \<leftarrow> d_str (f ''evidenceDigest'');
       observedAt' \<leftarrow> d_str (f ''observedAt'');
       Some \<lparr>te_targetBindingDigest = targetBindingDigest', te_anchorDigest = anchorDigest',
         te_causalSendActionId = causalSendActionId', te_conversationId = conversationId',
         te_canonicalThreadUrl = canonicalThreadUrl', te_userTurnId = userTurnId',
         te_userTurnEvidenceDigest = userTurnEvidenceDigest',
         te_postSendDeltaDigest = postSendDeltaDigest', te_evidenceDigest = evidenceDigest',
         te_observedAt = observedAt'\<rparr> })"

definition dec_target :: "cjson \<Rightarrow> target_binding option" where
  "dec_target j = Option.bind (fields
     [''providerId'', ''browserId'', ''tabId'', ''coordinationScope'',
      ''tabClaimEvidenceDigest'', ''canonicalThreadUrl'', ''conversationId'',
      ''userTurnBaselineDigest'', ''assistantTurnBaselineDigest'',
      ''configurationReceiptDigest'', ''evidenceProfile'', ''targetLifecycle'',
      ''newTargetAnchorDigest'', ''blankTaskEvidenceDigest'', ''targetEstablishment''] j) (\<lambda>f. do {
       providerId' \<leftarrow> d_str (f ''providerId'');
       browserId' \<leftarrow> d_str (f ''browserId'');
       tabId' \<leftarrow> d_str (f ''tabId'');
       coordinationScope' \<leftarrow> d_enum scope_of (f ''coordinationScope'');
       tabClaimEvidenceDigest' \<leftarrow> d_opt (d_str \<circ> Some) (f ''tabClaimEvidenceDigest'');
       canonicalThreadUrl' \<leftarrow> d_opt (d_str \<circ> Some) (f ''canonicalThreadUrl'');
       conversationId' \<leftarrow> d_opt (d_str \<circ> Some) (f ''conversationId'');
       userTurnBaselineDigest' \<leftarrow> d_opt (d_str \<circ> Some) (f ''userTurnBaselineDigest'');
       assistantTurnBaselineDigest' \<leftarrow> d_opt (d_str \<circ> Some) (f ''assistantTurnBaselineDigest'');
       configurationReceiptDigest' \<leftarrow> d_opt (d_str \<circ> Some) (f ''configurationReceiptDigest'');
       evidenceProfile' \<leftarrow> d_req dec_profile (f ''evidenceProfile'');
       targetLifecycle' \<leftarrow> d_opt (d_enum lifecycle_of \<circ> Some) (f ''targetLifecycle'');
       newTargetAnchorDigest' \<leftarrow> d_opt (d_str \<circ> Some) (f ''newTargetAnchorDigest'');
       blankTaskEvidenceDigest' \<leftarrow> d_opt (d_str \<circ> Some) (f ''blankTaskEvidenceDigest'');
       targetEstablishment' \<leftarrow> d_opt dec_establishment (f ''targetEstablishment'');
       Some \<lparr>tb_providerId = providerId', tb_browserId = browserId', tb_tabId = tabId',
         tb_coordinationScope = coordinationScope',
         tb_tabClaimEvidenceDigest = tabClaimEvidenceDigest',
         tb_canonicalThreadUrl = canonicalThreadUrl', tb_conversationId = conversationId',
         tb_userTurnBaselineDigest = userTurnBaselineDigest',
         tb_assistantTurnBaselineDigest = assistantTurnBaselineDigest',
         tb_configurationReceiptDigest = configurationReceiptDigest',
         tb_evidenceProfile = evidenceProfile', tb_targetLifecycle = targetLifecycle',
         tb_newTargetAnchorDigest = newTargetAnchorDigest',
         tb_blankTaskEvidenceDigest = blankTaskEvidenceDigest',
         tb_targetEstablishment = targetEstablishment'\<rparr> })"

definition dec_identity :: "cjson \<Rightarrow> identity_evidence option" where
  "dec_identity j = Option.bind (fields [''status'', ''value'', ''reason''] j) (\<lambda>f. do {
       status' \<leftarrow> d_str (f ''status'');
       if status' = ''available'' \<and> f ''reason'' = None then map_option Available (d_str (f ''value''))
       else if status' = ''unavailable'' \<and> f ''value'' = None
       then map_option Unavailable (d_enum reason_of (f ''reason''))
       else None })"

definition dec_ownership_target :: "cjson \<Rightarrow> ownership_target option" where
  "dec_ownership_target j = Option.bind (fields
     [''provider'', ''browser'', ''tab'', ''thread'', ''conversation'', ''canonicalThreadUrl'',
      ''authoritativeTabClaim'', ''coordinationScope''] j) (\<lambda>f. do {
       provider' \<leftarrow> d_req dec_identity (f ''provider'');
       browser' \<leftarrow> d_req dec_identity (f ''browser'');
       tab' \<leftarrow> d_req dec_identity (f ''tab'');
       thread' \<leftarrow> d_req dec_identity (f ''thread'');
       conversation' \<leftarrow> d_req dec_identity (f ''conversation'');
       canonicalThreadUrl' \<leftarrow> d_req dec_identity (f ''canonicalThreadUrl'');
       authoritativeTabClaim' \<leftarrow> d_req dec_identity (f ''authoritativeTabClaim'');
       coordinationScope' \<leftarrow> d_enum scope_of (f ''coordinationScope'');
       Some \<lparr>ot_provider = provider', ot_browser = browser', ot_tab = tab', ot_thread = thread',
         ot_conversation = conversation', ot_canonicalThreadUrl = canonicalThreadUrl',
         ot_authoritativeTabClaim = authoritativeTabClaim',
         ot_coordinationScope = coordinationScope'\<rparr> })"

definition dec_turn :: "cjson \<Rightarrow> ownership_turn option" where
  "dec_turn j = Option.bind (fields
     [''stableId'', ''evidenceDigest'', ''structureDigest'', ''ordinal'', ''parentStableId'',
      ''branchStableId'', ''state'', ''artifactEvidenceDigests''] j) (\<lambda>f. do {
       stableId' \<leftarrow> d_opt (d_str \<circ> Some) (f ''stableId'');
       evidenceDigest' \<leftarrow> d_str (f ''evidenceDigest'');
       structureDigest' \<leftarrow> d_str (f ''structureDigest'');
       ordinal' \<leftarrow> d_int (f ''ordinal'');
       parentStableId' \<leftarrow> d_opt (d_str \<circ> Some) (f ''parentStableId'');
       branchStableId' \<leftarrow> d_opt (d_str \<circ> Some) (f ''branchStableId'');
       state' \<leftarrow> d_opt (d_enum turn_state_of \<circ> Some) (f ''state'');
       artifactEvidenceDigests' \<leftarrow> d_opt (d_list (d_str \<circ> Some)) (f ''artifactEvidenceDigests'');
       Some \<lparr>tn_stableId = stableId', tn_evidenceDigest = evidenceDigest',
         tn_structureDigest = structureDigest', tn_ordinal = ordinal',
         tn_parentStableId = parentStableId', tn_branchStableId = branchStableId',
         tn_state = state', tn_artifactEvidenceDigests = artifactEvidenceDigests'\<rparr> })"

definition dec_snapshot :: "cjson \<Rightarrow> ownership_baseline option" where
  "dec_snapshot j = Option.bind (fields
     [''schemaVersion'', ''snapshotDigest'', ''target'', ''userTurns'', ''assistantTurns'',
      ''completeness''] j) (\<lambda>f. do {
       schemaVersion' \<leftarrow> d_str (f ''schemaVersion'');
       snapshotDigest' \<leftarrow> d_str (f ''snapshotDigest'');
       target' \<leftarrow> d_req dec_ownership_target (f ''target'');
       userTurns' \<leftarrow> d_req (d_list dec_turn) (f ''userTurns'');
       assistantTurns' \<leftarrow> d_req (d_list dec_turn) (f ''assistantTurns'');
       completeness' \<leftarrow> d_str (f ''completeness'');
       Some \<lparr>bl_schemaVersion = schemaVersion', bl_snapshotDigest = snapshotDigest',
         bl_target = target', bl_userTurns = userTurns', bl_assistantTurns = assistantTurns',
         bl_completeness = completeness'\<rparr> })"

definition dec_baseline :: "cjson \<Rightarrow> operation_baseline option" where
  "dec_baseline j = Option.bind (fields
     [''schemaVersion'', ''operationId'', ''requestDigest'', ''targetBindingDigest'',
      ''actionId'', ''baseline'', ''observedAt''] j) (\<lambda>f. do {
       schemaVersion' \<leftarrow> d_str (f ''schemaVersion'');
       operationId' \<leftarrow> d_str (f ''operationId'');
       requestDigest' \<leftarrow> d_str (f ''requestDigest'');
       targetBindingDigest' \<leftarrow> d_str (f ''targetBindingDigest'');
       actionId' \<leftarrow> d_str (f ''actionId'');
       baseline' \<leftarrow> d_req dec_snapshot (f ''baseline'');
       observedAt' \<leftarrow> d_str (f ''observedAt'');
       Some \<lparr>ob_schemaVersion = schemaVersion', ob_operationId = operationId',
         ob_requestDigest = requestDigest', ob_targetBindingDigest = targetBindingDigest',
         ob_actionId = actionId', ob_baseline = baseline', ob_observedAt = observedAt'\<rparr> })"

definition dec_witness :: "cjson \<Rightarrow> submission_witness option" where
  "dec_witness j = Option.bind (fields
     [''schemaVersion'', ''actionId'', ''actionKind'', ''targetBindingDigest'',
      ''baselineSnapshotDigest'', ''postSendDeltaDigest'', ''operationUserEvidenceDigest'',
      ''userTurnId'', ''observedAt''] j) (\<lambda>f. do {
       schemaVersion' \<leftarrow> d_str (f ''schemaVersion'');
       actionId' \<leftarrow> d_str (f ''actionId'');
       actionKind' \<leftarrow> d_enum kind_of (f ''actionKind'');
       targetBindingDigest' \<leftarrow> d_str (f ''targetBindingDigest'');
       baselineSnapshotDigest' \<leftarrow> d_str (f ''baselineSnapshotDigest'');
       postSendDeltaDigest' \<leftarrow> d_str (f ''postSendDeltaDigest'');
       operationUserEvidenceDigest' \<leftarrow> d_str (f ''operationUserEvidenceDigest'');
       userTurnId' \<leftarrow> d_opt (d_str \<circ> Some) (f ''userTurnId'');
       observedAt' \<leftarrow> d_str (f ''observedAt'');
       Some \<lparr>sw_schemaVersion = schemaVersion', sw_actionId = actionId', sw_actionKind = actionKind',
         sw_targetBindingDigest = targetBindingDigest',
         sw_baselineSnapshotDigest = baselineSnapshotDigest',
         sw_postSendDeltaDigest = postSendDeltaDigest',
         sw_operationUserEvidenceDigest = operationUserEvidenceDigest',
         sw_userTurnId = userTurnId', sw_observedAt = observedAt'\<rparr> })"

definition dec_action_intent :: "cjson \<Rightarrow> action_intent option" where
  "dec_action_intent j = Option.bind (fields
     [''actionId'', ''kind'', ''repeatPolicy'', ''requestDigest'', ''parentActionId'',
      ''targetDigest''] j) (\<lambda>f. do {
       actionId' \<leftarrow> d_str (f ''actionId'');
       kind' \<leftarrow> d_enum kind_of (f ''kind'');
       repeatPolicy' \<leftarrow> d_enum policy_of (f ''repeatPolicy'');
       requestDigest' \<leftarrow> d_str (f ''requestDigest'');
       parentActionId' \<leftarrow> d_opt (d_str \<circ> Some) (f ''parentActionId'');
       targetDigest' \<leftarrow> d_opt (d_str \<circ> Some) (f ''targetDigest'');
       Some \<lparr>ai_actionId = actionId', ai_kind = kind', ai_repeatPolicy = repeatPolicy',
         ai_requestDigest = requestDigest', ai_parentActionId = parentActionId',
         ai_targetDigest = targetDigest'\<rparr> })"

definition dec_action_record :: "cjson \<Rightarrow> action_record option" where
  "dec_action_record j = Option.bind (fields
     [''actionId'', ''kind'', ''repeatPolicy'', ''requestDigest'', ''parentActionId'',
      ''targetDigest'', ''intentRevision'', ''intentAt'', ''outcome'', ''receiptRevision'',
      ''receiptAt'', ''evidenceDigest'', ''blockerCode''] j) (\<lambda>f. do {
       actionId' \<leftarrow> d_str (f ''actionId'');
       kind' \<leftarrow> d_enum kind_of (f ''kind'');
       repeatPolicy' \<leftarrow> d_enum policy_of (f ''repeatPolicy'');
       requestDigest' \<leftarrow> d_str (f ''requestDigest'');
       parentActionId' \<leftarrow> d_opt (d_str \<circ> Some) (f ''parentActionId'');
       targetDigest' \<leftarrow> d_opt (d_str \<circ> Some) (f ''targetDigest'');
       intentRevision' \<leftarrow> d_int (f ''intentRevision'');
       intentAt' \<leftarrow> d_str (f ''intentAt'');
       outcome' \<leftarrow> d_opt (d_enum outcome_of \<circ> Some) (f ''outcome'');
       receiptRevision' \<leftarrow> d_opt (d_int \<circ> Some) (f ''receiptRevision'');
       receiptAt' \<leftarrow> d_opt (d_str \<circ> Some) (f ''receiptAt'');
       evidenceDigest' \<leftarrow> d_opt (d_str \<circ> Some) (f ''evidenceDigest'');
       blockerCode' \<leftarrow> d_opt (d_str \<circ> Some) (f ''blockerCode'');
       Some \<lparr>ar_actionId = actionId', ar_kind = kind', ar_repeatPolicy = repeatPolicy',
         ar_requestDigest = requestDigest', ar_parentActionId = parentActionId',
         ar_targetDigest = targetDigest', ar_intentRevision = intentRevision',
         ar_intentAt = intentAt', ar_outcome = outcome', ar_receiptRevision = receiptRevision',
         ar_receiptAt = receiptAt', ar_evidenceDigest = evidenceDigest',
         ar_blockerCode = blockerCode'\<rparr> })"

definition dec_transfer_intent :: "cjson \<Rightarrow> transfer_intent option" where
  "dec_transfer_intent j = Option.bind (fields
     [''schemaVersion'', ''operationId'', ''requestDigest'', ''targetBindingDigest'',
      ''assistantTurnId'', ''sourceIdentityDigest'', ''kind'', ''ordinal'',
      ''transferActionId'', ''destinationIdentityDigest'', ''actionKind'', ''repeatPolicy'',
      ''intentAt''] j) (\<lambda>f. do {
       schemaVersion' \<leftarrow> d_str (f ''schemaVersion'');
       operationId' \<leftarrow> d_str (f ''operationId'');
       requestDigest' \<leftarrow> d_str (f ''requestDigest'');
       targetBindingDigest' \<leftarrow> d_str (f ''targetBindingDigest'');
       assistantTurnId' \<leftarrow> d_str (f ''assistantTurnId'');
       sourceIdentityDigest' \<leftarrow> d_str (f ''sourceIdentityDigest'');
       kind' \<leftarrow> d_enum artifact_kind_of (f ''kind'');
       ordinal' \<leftarrow> d_int (f ''ordinal'');
       transferActionId' \<leftarrow> d_str (f ''transferActionId'');
       destinationIdentityDigest' \<leftarrow> d_str (f ''destinationIdentityDigest'');
       actionKind' \<leftarrow> d_enum kind_of (f ''actionKind'');
       repeatPolicy' \<leftarrow> d_enum policy_of (f ''repeatPolicy'');
       intentAt' \<leftarrow> d_str (f ''intentAt'');
       Some \<lparr>ti_schemaVersion = schemaVersion', ti_operationId = operationId',
         ti_requestDigest = requestDigest', ti_targetBindingDigest = targetBindingDigest',
         ti_assistantTurnId = assistantTurnId', ti_sourceIdentityDigest = sourceIdentityDigest',
         ti_kind = kind', ti_ordinal = ordinal', ti_transferActionId = transferActionId',
         ti_destinationIdentityDigest = destinationIdentityDigest', ti_actionKind = actionKind',
         ti_repeatPolicy = repeatPolicy', ti_intentAt = intentAt'\<rparr> })"

definition dec_transfer_receipt :: "cjson \<Rightarrow> transfer_receipt option" where
  "dec_transfer_receipt j = Option.bind (fields
     [''schemaVersion'', ''operationId'', ''requestDigest'', ''targetBindingDigest'',
      ''assistantTurnId'', ''sourceIdentityDigest'', ''kind'', ''ordinal'',
      ''transferActionId'', ''destinationIdentityDigest'', ''outputKey'', ''bytes'',
      ''sha256'', ''status'', ''blockerCode'', ''observedAt''] j) (\<lambda>f. do {
       schemaVersion' \<leftarrow> d_str (f ''schemaVersion'');
       operationId' \<leftarrow> d_str (f ''operationId'');
       requestDigest' \<leftarrow> d_str (f ''requestDigest'');
       targetBindingDigest' \<leftarrow> d_str (f ''targetBindingDigest'');
       assistantTurnId' \<leftarrow> d_str (f ''assistantTurnId'');
       sourceIdentityDigest' \<leftarrow> d_str (f ''sourceIdentityDigest'');
       kind' \<leftarrow> d_enum artifact_kind_of (f ''kind'');
       ordinal' \<leftarrow> d_int (f ''ordinal'');
       transferActionId' \<leftarrow> d_str (f ''transferActionId'');
       destinationIdentityDigest' \<leftarrow> d_str (f ''destinationIdentityDigest'');
       outputKey' \<leftarrow> d_opt (d_str \<circ> Some) (f ''outputKey'');
       bytes' \<leftarrow> d_opt (d_int \<circ> Some) (f ''bytes'');
       sha256' \<leftarrow> d_opt (d_str \<circ> Some) (f ''sha256'');
       status' \<leftarrow> d_enum artifact_status_of (f ''status'');
       blockerCode' \<leftarrow> d_opt (d_str \<circ> Some) (f ''blockerCode'');
       observedAt' \<leftarrow> d_str (f ''observedAt'');
       Some \<lparr>tr_schemaVersion = schemaVersion', tr_operationId = operationId',
         tr_requestDigest = requestDigest', tr_targetBindingDigest = targetBindingDigest',
         tr_assistantTurnId = assistantTurnId', tr_sourceIdentityDigest = sourceIdentityDigest',
         tr_kind = kind', tr_ordinal = ordinal', tr_transferActionId = transferActionId',
         tr_destinationIdentityDigest = destinationIdentityDigest', tr_outputKey = outputKey',
         tr_bytes = bytes', tr_sha256 = sha256', tr_status = status',
         tr_blockerCode = blockerCode', tr_observedAt = observedAt'\<rparr> })"

definition dec_transfer_state :: "cjson \<Rightarrow> transfer_state option" where
  "dec_transfer_state j = Option.bind (fields
     [''intent'', ''receipt''] j) (\<lambda>f. do {
       intent' \<leftarrow> d_req dec_transfer_intent (f ''intent'');
       receipt' \<leftarrow> d_opt dec_transfer_receipt (f ''receipt'');
       Some \<lparr>ts_intent = intent', ts_receipt = receipt'\<rparr> })"

definition dec_artifact_receipt :: "cjson \<Rightarrow> artifact_receipt option" where
  "dec_artifact_receipt j = Option.bind (fields
     [''schemaVersion'', ''operationId'', ''artifactKey'', ''assistantTurnId'',
      ''sourceIdentityDigest'', ''kind'', ''ordinal'', ''outputKey'', ''mimeType'', ''bytes'',
      ''sha256'', ''status'', ''blockerCode''] j) (\<lambda>f. do {
       schemaVersion' \<leftarrow> d_str (f ''schemaVersion'');
       operationId' \<leftarrow> d_str (f ''operationId'');
       artifactKey' \<leftarrow> d_str (f ''artifactKey'');
       assistantTurnId' \<leftarrow> d_str (f ''assistantTurnId'');
       sourceIdentityDigest' \<leftarrow> d_str (f ''sourceIdentityDigest'');
       kind' \<leftarrow> d_enum artifact_kind_of (f ''kind'');
       ordinal' \<leftarrow> d_int (f ''ordinal'');
       outputKey' \<leftarrow> d_opt (d_str \<circ> Some) (f ''outputKey'');
       mimeType' \<leftarrow> d_opt (d_str \<circ> Some) (f ''mimeType'');
       bytes' \<leftarrow> d_opt (d_int \<circ> Some) (f ''bytes'');
       sha256' \<leftarrow> d_opt (d_str \<circ> Some) (f ''sha256'');
       status' \<leftarrow> d_enum artifact_status_of (f ''status'');
       blockerCode' \<leftarrow> d_opt (d_str \<circ> Some) (f ''blockerCode'');
       Some \<lparr>af_schemaVersion = schemaVersion', af_operationId = operationId',
         af_artifactKey = artifactKey', af_assistantTurnId = assistantTurnId',
         af_sourceIdentityDigest = sourceIdentityDigest', af_kind = kind', af_ordinal = ordinal',
         af_outputKey = outputKey', af_mimeType = mimeType', af_bytes = bytes',
         af_sha256 = sha256', af_status = status', af_blockerCode = blockerCode'\<rparr> })"

definition dec_receipt :: "cjson \<Rightarrow> operation_receipt option" where
  "dec_receipt j = Option.bind (fields
     [''schemaVersion'', ''operationId'', ''requestDigest'', ''targetBindingDigest'',
      ''userTurnId'', ''userTurnEvidenceDigest'', ''assistantTurnId'',
      ''ownershipEvidenceDigest'', ''responseDigest'', ''responseBytes'', ''responseFormat'',
      ''finishReason'', ''contentAvailable'', ''artifacts'', ''completedAt''] j) (\<lambda>f. do {
       schemaVersion' \<leftarrow> d_str (f ''schemaVersion'');
       operationId' \<leftarrow> d_str (f ''operationId'');
       requestDigest' \<leftarrow> d_str (f ''requestDigest'');
       targetBindingDigest' \<leftarrow> d_str (f ''targetBindingDigest'');
       userTurnId' \<leftarrow> d_str (f ''userTurnId'');
       userTurnEvidenceDigest' \<leftarrow> d_str (f ''userTurnEvidenceDigest'');
       assistantTurnId' \<leftarrow> d_str (f ''assistantTurnId'');
       ownershipEvidenceDigest' \<leftarrow> d_str (f ''ownershipEvidenceDigest'');
       responseDigest' \<leftarrow> d_opt (d_str \<circ> Some) (f ''responseDigest'');
       responseBytes' \<leftarrow> d_opt (d_int \<circ> Some) (f ''responseBytes'');
       responseFormat' \<leftarrow> d_opt (d_enum format_of \<circ> Some) (f ''responseFormat'');
       finishReason' \<leftarrow> d_str (f ''finishReason'');
       contentAvailable' \<leftarrow> d_bool (f ''contentAvailable'');
       artifacts' \<leftarrow> d_req (d_list dec_artifact_receipt) (f ''artifacts'');
       completedAt' \<leftarrow> d_str (f ''completedAt'');
       Some \<lparr>rp_schemaVersion = schemaVersion', rp_operationId = operationId',
         rp_requestDigest = requestDigest', rp_targetBindingDigest = targetBindingDigest',
         rp_userTurnId = userTurnId', rp_userTurnEvidenceDigest = userTurnEvidenceDigest',
         rp_assistantTurnId = assistantTurnId',
         rp_ownershipEvidenceDigest = ownershipEvidenceDigest',
         rp_responseDigest = responseDigest', rp_responseBytes = responseBytes',
         rp_responseFormat = responseFormat', rp_finishReason = finishReason',
         rp_contentAvailable = contentAvailable', rp_artifacts = artifacts',
         rp_completedAt = completedAt'\<rparr> })"

definition dec_blocker :: "cjson \<Rightarrow> blocker_observation option" where
  "dec_blocker j = Option.bind (fields
     [''code'', ''messageDigest'', ''recoverable'', ''observedAt''] j) (\<lambda>f. do {
       code' \<leftarrow> d_str (f ''code'');
       messageDigest' \<leftarrow> d_str (f ''messageDigest'');
       recoverable' \<leftarrow> d_bool (f ''recoverable'');
       observedAt' \<leftarrow> d_str (f ''observedAt'');
       Some \<lparr>bo_code = code', bo_messageDigest = messageDigest', bo_recoverable = recoverable',
         bo_observedAt = observedAt'\<rparr> })"

definition dec_state :: "cjson \<Rightarrow> operation_state option" where
  "dec_state j = Option.bind (fields
     [''schemaVersion'', ''operationId'', ''requestDigest'', ''surface'', ''phase'',
      ''mutationBoundary'', ''revision'', ''createdAt'', ''updatedAt'', ''capturePolicy'',
      ''responseFormat'', ''target'', ''actions'', ''ownershipBaseline'',
      ''ownershipBaselines'', ''artifactTransfers'', ''submissionWitnesses'',
      ''submissionWitness'', ''lastBlocker'', ''receipt''] j) (\<lambda>f. do {
       schemaVersion' \<leftarrow> d_str (f ''schemaVersion'');
       operationId' \<leftarrow> d_str (f ''operationId'');
       requestDigest' \<leftarrow> d_str (f ''requestDigest'');
       surface' \<leftarrow> d_enum surface_of (f ''surface'');
       phase' \<leftarrow> d_enum phase_of (f ''phase'');
       mutationBoundary' \<leftarrow> d_enum boundary_of (f ''mutationBoundary'');
       revision' \<leftarrow> d_int (f ''revision'');
       createdAt' \<leftarrow> d_str (f ''createdAt'');
       updatedAt' \<leftarrow> d_str (f ''updatedAt'');
       capturePolicy' \<leftarrow> d_opt dec_capture_policy (f ''capturePolicy'');
       responseFormat' \<leftarrow> d_opt (d_enum format_of \<circ> Some) (f ''responseFormat'');
       target' \<leftarrow> d_opt dec_target (f ''target'');
       actions' \<leftarrow> d_req (d_dict dec_action_record) (f ''actions'');
       ownershipBaseline' \<leftarrow> d_opt dec_baseline (f ''ownershipBaseline'');
       ownershipBaselines' \<leftarrow> d_opt (d_dict dec_baseline) (f ''ownershipBaselines'');
       artifactTransfers' \<leftarrow> d_opt (d_dict dec_transfer_state) (f ''artifactTransfers'');
       submissionWitnesses' \<leftarrow> d_opt (d_dict dec_witness) (f ''submissionWitnesses'');
       submissionWitness' \<leftarrow> d_opt dec_witness (f ''submissionWitness'');
       lastBlocker' \<leftarrow> d_opt dec_blocker (f ''lastBlocker'');
       receipt' \<leftarrow> d_opt dec_receipt (f ''receipt'');
       Some \<lparr>st_schemaVersion = schemaVersion', st_operationId = operationId',
         st_requestDigest = requestDigest', st_surface = surface', st_phase = phase',
         st_mutationBoundary = mutationBoundary', st_revision = revision',
         st_createdAt = createdAt', st_updatedAt = updatedAt', st_capturePolicy = capturePolicy',
         st_responseFormat = responseFormat', st_target = target', st_actions = actions',
         st_ownershipBaseline = ownershipBaseline', st_ownershipBaselines = ownershipBaselines',
         st_artifactTransfers = artifactTransfers', st_submissionWitnesses = submissionWitnesses',
         st_submissionWitness = submissionWitness', st_lastBlocker = lastBlocker',
         st_receipt = receipt'\<rparr> })"

section \<open>Events\<close>

definition event_kind :: "cjson \<Rightarrow> string option" where
  "event_kind j = (case j of CObj ps \<Rightarrow> d_str (map_of ps ''type'') | _ \<Rightarrow> None)"

definition dec_event :: "cjson \<Rightarrow> operation_event option" where
  "dec_event j = Option.bind (event_kind j) (\<lambda>kind'.
     if kind' = ''operation_created'' then Option.bind (fields [''type'', ''operationId'', ''requestDigest'', ''surface'', ''createdAt'', ''capturePolicy''] j) (\<lambda>f. do {
         a \<leftarrow> d_str (f ''operationId'');
         b \<leftarrow> d_str (f ''requestDigest'');
         c \<leftarrow> d_enum surface_of (f ''surface'');
         d \<leftarrow> d_str (f ''createdAt'');
         e \<leftarrow> d_opt dec_capture_policy (f ''capturePolicy'');
         Some (Operation_created \<lparr>ev_operationId = a, ev_requestDigest = b, ev_surface = c, ev_createdAt = d, ev_capturePolicy = e\<rparr>) })
     else
     if kind' = ''target_bound'' then Option.bind (fields [''type'', ''target'', ''observedAt''] j) (\<lambda>f. do {
         a \<leftarrow> d_req dec_target (f ''target'');
         b \<leftarrow> d_str (f ''observedAt'');
         Some (Target_bound a b) })
     else
     if kind' = ''target_established'' then Option.bind (fields [''type'', ''establishment''] j) (\<lambda>f. do {
         a \<leftarrow> d_req dec_establishment (f ''establishment'');
         Some (Target_established a) })
     else
     if kind' = ''ownership_baseline'' then Option.bind (fields [''type'', ''baseline''] j) (\<lambda>f. do {
         a \<leftarrow> d_req dec_baseline (f ''baseline'');
         Some (Ownership_baseline_event a) })
     else
     if kind' = ''submission_witness'' then Option.bind (fields [''type'', ''witness''] j) (\<lambda>f. do {
         a \<leftarrow> d_req dec_witness (f ''witness'');
         Some (Submission_witness_event a) })
     else
     if kind' = ''action_intent'' then Option.bind (fields [''type'', ''action'', ''intentAt''] j) (\<lambda>f. do {
         a \<leftarrow> d_req dec_action_intent (f ''action'');
         b \<leftarrow> d_str (f ''intentAt'');
         Some (Action_intent_event a b) })
     else
     if kind' = ''action_prepared'' then Option.bind (fields [''type'', ''action'', ''intentAt'', ''baseline''] j) (\<lambda>f. do {
         a \<leftarrow> d_req dec_action_intent (f ''action'');
         b \<leftarrow> d_str (f ''intentAt'');
         c \<leftarrow> d_req dec_baseline (f ''baseline'');
         Some (Action_prepared_event a b c) })
     else
     if kind' = ''artifact_transfer_intent'' then Option.bind (fields [''type'', ''intent''] j) (\<lambda>f. do {
         a \<leftarrow> d_req dec_transfer_intent (f ''intent'');
         Some (Artifact_transfer_intent_event a) })
     else
     if kind' = ''artifact_transfer_receipt'' then Option.bind (fields [''type'', ''receipt''] j) (\<lambda>f. do {
         a \<leftarrow> d_req dec_transfer_receipt (f ''receipt'');
         Some (Artifact_transfer_receipt_event a) })
     else
     if kind' = ''action_receipt'' then Option.bind (fields [''type'', ''actionId'', ''outcome'', ''evidenceDigest'', ''blockerCode'', ''observedAt''] j) (\<lambda>f. do {
         a \<leftarrow> d_str (f ''actionId'');
         b \<leftarrow> d_enum outcome_of (f ''outcome'');
         c \<leftarrow> d_opt (d_str \<circ> Some) (f ''evidenceDigest'');
         d \<leftarrow> d_opt (d_str \<circ> Some) (f ''blockerCode'');
         e \<leftarrow> d_str (f ''observedAt'');
         Some (Action_receipt_event \<lparr>rc_actionId = a, rc_outcome = b, rc_evidenceDigest = c, rc_blockerCode = d, rc_observedAt = e\<rparr>) })
     else
     if kind' = ''phase_changed'' then Option.bind (fields [''type'', ''from'', ''to'', ''mutationBoundary'', ''causeActionId'', ''evidenceDigest'', ''observedAt''] j) (\<lambda>f. do {
         a \<leftarrow> d_enum phase_of (f ''from'');
         b \<leftarrow> d_enum phase_of (f ''to'');
         c \<leftarrow> d_enum boundary_of (f ''mutationBoundary'');
         d \<leftarrow> d_opt (d_str \<circ> Some) (f ''causeActionId'');
         e \<leftarrow> d_opt (d_str \<circ> Some) (f ''evidenceDigest'');
         g \<leftarrow> d_str (f ''observedAt'');
         Some (Phase_changed_event \<lparr>pe_from = a, pe_to = b, pe_mutationBoundary = c, pe_causeActionId = d, pe_evidenceDigest = e, pe_observedAt = g\<rparr>) })
     else
     if kind' = ''blocker_observed'' then Option.bind (fields [''type'', ''blocker''] j) (\<lambda>f. do {
         a \<leftarrow> d_req dec_blocker (f ''blocker'');
         Some (Blocker_observed_event a) })
     else
     if kind' = ''receipt_completed'' then Option.bind (fields [''type'', ''receipt'', ''observedAt''] j) (\<lambda>f. do {
         a \<leftarrow> d_req dec_receipt (f ''receipt'');
         b \<leftarrow> d_str (f ''observedAt'');
         Some (Receipt_completed_event a b) })
     else
     if kind' = ''content_availability_changed'' then Option.bind (fields [''type'', ''available'', ''observedAt''] j) (\<lambda>f. do {
         a \<leftarrow> d_bool (f ''available'');
         b \<leftarrow> d_str (f ''observedAt'');
         Some (Content_availability_changed_event a b) })
     else None)"

section \<open>The order of members\<close>

text \<open>
  A reordering permutes the members of the objects in a value. Printing and canonicalization both
  do; no reader of an event sees the difference.
\<close>

named_theorems reader_simps "a reader does not see the order of members"

definition orderless :: "(cjson \<Rightarrow> cjson) \<Rightarrow> (cjson \<Rightarrow> 'a) \<Rightarrow> bool" where
  "orderless re dec \<longleftrightarrow> (\<forall>j. dec (re j) = dec j)"

locale reordering =
  fixes re :: "cjson \<Rightarrow> cjson"
  assumes re_scalar: "re CNull = CNull" "re (CBool b) = CBool b" "re (CNum i) = CNum i" "re (CStr s) = CStr s"
    and re_array: "re (CArr xs) = CArr (map re xs)"
    and re_object: "\<exists>qs. re (CObj ps) = CObj qs \<and> (\<forall>k. map_of qs k = map_option re (map_of ps k)) \<and>
      fst ` set qs = fst ` set ps \<and> length qs = length ps"
begin

lemma fields_re: "fields ks (re j) = map_option (\<lambda>f. map_option re \<circ> f) (fields ks j)"
proof (cases j)
  case (CObj ps)
  obtain qs where q: "re (CObj ps) = CObj qs" "\<And>k. map_of qs k = map_option re (map_of ps k)" "fst ` set qs = fst ` set ps"
    using re_object [of ps] by blast
  then have "map_of qs = map_option re \<circ> map_of ps" by (simp add: fun_eq_iff)
  with q show ?thesis by (simp add: CObj fields_def list_all_iff flip: ball_simps(9))
qed (simp_all add: fields_def re_scalar re_array)

lemma d_scalar_re [reader_simps]:
  "d_str (map_option re x) = d_str x" "d_int (map_option re x) = d_int x"
  "d_bool (map_option re x) = d_bool x" "d_enum g (map_option re x) = d_enum g x"
proof -
  have "d_str (map_option re x) = d_str x \<and> d_int (map_option re x) = d_int x \<and>
    d_bool (map_option re x) = d_bool x" for x
  proof (cases x)
    case (Some j)
    show ?thesis
    proof (cases j)
      case (CObj ps)
      with re_object [of ps] Some show ?thesis by (auto simp: d_str_def d_int_def d_bool_def)
    qed (simp_all add: Some d_str_def d_int_def d_bool_def re_scalar re_array)
  qed (simp add: d_str_def d_int_def d_bool_def)
  then show "d_str (map_option re x) = d_str x" "d_int (map_option re x) = d_int x"
    "d_bool (map_option re x) = d_bool x" "d_enum g (map_option re x) = d_enum g x"
    by (simp_all add: d_enum_def)
qed

lemma d_req_re [reader_simps]: "orderless re dec \<Longrightarrow> d_req dec (map_option re x) = d_req dec x"
  by (cases x) (simp_all add: d_req_def orderless_def)

lemma d_opt_re [reader_simps]: "orderless re dec \<Longrightarrow> d_opt dec (map_option re x) = d_opt dec x"
  by (cases x) (simp_all add: d_opt_def orderless_def)

lemma orderless_scalar [reader_simps]:
  "orderless re (d_str \<circ> Some)" "orderless re (d_int \<circ> Some)" "orderless re (d_enum g \<circ> Some)"
  by (simp_all add: orderless_def) (metis d_scalar_re option.map(2))+

lemma orderless_list [reader_simps]: "orderless re dec \<Longrightarrow> orderless re (d_list dec)"
proof -
  assume o: "orderless re dec"
  have "d_list dec (re j) = d_list dec j" for j
  proof (cases j)
    case (CObj ps)
    with re_object [of ps] show ?thesis by (auto simp: d_list_def)
  qed (use o in \<open>simp_all add: d_list_def orderless_def comp_def re_scalar re_array\<close>)
  then show ?thesis by (simp add: orderless_def)
qed

lemma bind_fields_re:
  "(\<And>f. g (map_option re \<circ> f) = g f) \<Longrightarrow> Option.bind (fields ks (re j)) g = Option.bind (fields ks j) g"
  by (cases "fields ks j") (simp_all add: fields_re)

lemma orderless_fields:
  "(\<And>f. g (map_option re \<circ> f) = g f) \<Longrightarrow> orderless re (\<lambda>j. Option.bind (fields ks j) g)"
  by (simp add: orderless_def bind_fields_re)

lemma orderless_capture_policy [reader_simps]: "orderless re dec_capture_policy"
  unfolding dec_capture_policy_def by (rule orderless_fields) (simp add: reader_simps)

lemma orderless_profile [reader_simps]: "orderless re dec_profile"
  unfolding dec_profile_def by (rule orderless_fields) (simp add: reader_simps)

lemma orderless_establishment [reader_simps]: "orderless re dec_establishment"
  unfolding dec_establishment_def by (rule orderless_fields) (simp add: reader_simps)

lemma orderless_target [reader_simps]: "orderless re dec_target"
  unfolding dec_target_def by (rule orderless_fields) (simp add: reader_simps)

lemma orderless_identity [reader_simps]: "orderless re dec_identity"
  unfolding dec_identity_def by (rule orderless_fields) (simp add: reader_simps cong: if_cong)

lemma orderless_ownership_target [reader_simps]: "orderless re dec_ownership_target"
  unfolding dec_ownership_target_def by (rule orderless_fields) (simp add: reader_simps)

lemma orderless_turn [reader_simps]: "orderless re dec_turn"
  unfolding dec_turn_def by (rule orderless_fields) (simp add: reader_simps)

lemma orderless_snapshot [reader_simps]: "orderless re dec_snapshot"
  unfolding dec_snapshot_def by (rule orderless_fields) (simp add: reader_simps)

lemma orderless_baseline [reader_simps]: "orderless re dec_baseline"
  unfolding dec_baseline_def by (rule orderless_fields) (simp add: reader_simps)

lemma orderless_witness [reader_simps]: "orderless re dec_witness"
  unfolding dec_witness_def by (rule orderless_fields) (simp add: reader_simps)

lemma orderless_action_intent [reader_simps]: "orderless re dec_action_intent"
  unfolding dec_action_intent_def by (rule orderless_fields) (simp add: reader_simps)

lemma orderless_transfer_intent [reader_simps]: "orderless re dec_transfer_intent"
  unfolding dec_transfer_intent_def by (rule orderless_fields) (simp add: reader_simps)

lemma orderless_transfer_receipt [reader_simps]: "orderless re dec_transfer_receipt"
  unfolding dec_transfer_receipt_def by (rule orderless_fields) (simp add: reader_simps)

lemma orderless_artifact_receipt [reader_simps]: "orderless re dec_artifact_receipt"
  unfolding dec_artifact_receipt_def by (rule orderless_fields) (simp add: reader_simps)

lemma orderless_receipt [reader_simps]: "orderless re dec_receipt"
  unfolding dec_receipt_def by (rule orderless_fields) (simp add: reader_simps)

lemma orderless_blocker [reader_simps]: "orderless re dec_blocker"
  unfolding dec_blocker_def by (rule orderless_fields) (simp add: reader_simps)

lemma event_kind_re: "event_kind (re j) = event_kind j"
proof (cases j)
  case (CObj ps)
  obtain qs where "re (CObj ps) = CObj qs" "\<And>k. map_of qs k = map_option re (map_of ps k)"
    using re_object [of ps] by blast
  then show ?thesis by (simp add: CObj event_kind_def reader_simps)
qed (simp_all add: event_kind_def re_scalar re_array)

lemma dec_event_re: "dec_event (re j) = dec_event j"
  unfolding dec_event_def event_kind_re by (simp add: bind_fields_re reader_simps cong: if_cong)

end

lemma map_of_map_snd: "map_of (map (\<lambda>(k, v). (k, f v)) ps) k = map_option f (map_of ps k)"
  by (simp add: map_of_map)

lemma fst_image_map_snd: "fst ` set (map (\<lambda>(k, v). (k, f v)) ps) = fst ` set ps"
  by (simp add: image_image split_def)

lemma length_enumeration [simp]: "length (enumeration_order ps) = length ps"
  by (metis mset_enumeration size_mset)

interpretation printed: reordering printed
  by unfold_locales (auto simp: map_of_map_snd fst_image_map_snd simp del: set_map)

interpretation sorted: reordering sorted_value
  by unfold_locales (auto simp: map_of_map_snd fst_image_map_snd simp del: set_map)

lemmas dec_event_reordered = printed.dec_event_re sorted.dec_event_re
lemmas event_kind_reordered = printed.event_kind_re sorted.event_kind_re

end
