(* ===== verification/Journal_Log.thy ===== *)
theory Journal_Log
  imports Keyed_Digest Op_Decode Op_Reducer
begin

text \<open>
  The event log of \<open>operations/journal.ts\<close>: one file of newline-terminated canonical JSON envelopes
  per operation, each chained to its predecessor by a keyed digest. A file is a string of bytes. The
  crash model of an append is the list of contents the file can have when the process stops.
\<close>

declare canonicalValue.simps [simp del]

section \<open>Errors and constants\<close>

text \<open>An \<open>OperationJournalError\<close> with its code, or an error thrown by a validator below.\<close>

datatype journal_error = Journal_error string | Js_error js_error

type_synonym 'a jres = "journal_error + 'a"

definition journal_throw :: "string \<Rightarrow> 'a jres" where
  "journal_throw code = Inl (Journal_error code)"

abbreviation corrupt :: "'a jres" where
  "corrupt \<equiv> journal_throw ''journal_corrupt''"

text \<open>An exception of the operation layer that the journal lets through.\<close>

definition lift_js :: "'a res \<Rightarrow> 'a jres" where
  "lift_js r = (case r of Inl e \<Rightarrow> Inl (Js_error e) | Inr x \<Rightarrow> Inr x)"

definition lift_check :: "check \<Rightarrow> unit jres" where
  "lift_check c = (case c of None \<Rightarrow> Inr () | Some e \<Rightarrow> Inl (Js_error e))"

definition require :: "bool \<Rightarrow> string \<Rightarrow> unit jres" where
  "require b code = (if b then Inr () else journal_throw code)"

definition NEWLINE :: char where "NEWLINE = CHR 0x0A"

definition OPERATION_EVENT_SCHEMA_VERSION :: string where
  "OPERATION_EVENT_SCHEMA_VERSION = ''chatgpt.browser_control.operation_event.v1''"

definition GENESIS_EVENT_DIGEST :: string where
  "GENESIS_EVENT_DIGEST = ''hmac-sha256:'' @ replicate 64 (CHR ''0'')"

definition MAX_SINGLE_RECORD_FILE_BYTES :: nat where
  "MAX_SINGLE_RECORD_FILE_BYTES = 64 * 1024 * 1024"

definition EVENT_DOMAIN :: string where "EVENT_DOMAIN = ''codex-chatgpt-control/operation-event/v1''"

section \<open>Envelopes\<close>

record envelope =
  en_revision :: nat
  en_previousEventDigest :: string
  en_eventDigest :: string
  en_event :: cjson

definition isDigest :: "cjson option \<Rightarrow> bool" where
  "isDigest v = (case v of Some (CStr s) \<Rightarrow> DIGEST_PATTERN s | _ \<Rightarrow> False)"

definition hasExactKeys :: "(string \<times> cjson) list \<Rightarrow> string list \<Rightarrow> bool" where
  "hasExactKeys ps expected \<longleftrightarrow> length ps = length expected \<and> list_all (\<lambda>k. map_of ps k \<noteq> None) expected"

definition ENVELOPE_KEYS :: "string list" where
  "ENVELOPE_KEYS = [''schemaVersion'', ''revision'', ''previousEventDigest'', ''eventDigest'', ''event'']"

definition assertEnvelope :: "cjson \<Rightarrow> nat \<Rightarrow> envelope jres" where
  "assertEnvelope value expectedRevision = (case value of
     CObj ps \<Rightarrow>
       if \<not> hasExactKeys ps ENVELOPE_KEYS
          \<or> map_of ps ''schemaVersion'' \<noteq> Some (CStr OPERATION_EVENT_SCHEMA_VERSION)
          \<or> map_of ps ''revision'' \<noteq> Some (CNum (int expectedRevision))
          \<or> \<not> isDigest (map_of ps ''previousEventDigest'') \<or> \<not> isDigest (map_of ps ''eventDigest'')
       then corrupt
       else (case (d_str (map_of ps ''previousEventDigest''), d_str (map_of ps ''eventDigest''), map_of ps ''event'') of
         (Some previous, Some digest, Some event) \<Rightarrow>
           if event_kind event = None then corrupt
           else Inr \<lparr>en_revision = expectedRevision, en_previousEventDigest = previous,
                  en_eventDigest = digest, en_event = event\<rparr>
       | _ \<Rightarrow> corrupt)
   | _ \<Rightarrow> corrupt)"

definition event_material :: "nat \<Rightarrow> string \<Rightarrow> cjson \<Rightarrow> jsv" where
  "event_material revision previous event = plain_object
     [(''schemaVersion'', JStr OPERATION_EVENT_SCHEMA_VERSION), (''revision'', JNum (int revision)),
      (''previousEventDigest'', JStr previous), (''event'', jsv_of event)]"

definition journalEventDigest :: "keyed_hash \<Rightarrow> nat \<Rightarrow> string \<Rightarrow> cjson \<Rightarrow> string res" where
  "journalEventDigest H revision previous event = hmacDigest H EVENT_DOMAIN (event_material revision previous event)"

definition enc_envelope :: "envelope \<Rightarrow> jsv" where
  "enc_envelope e = plain_object
     [(''schemaVersion'', JStr OPERATION_EVENT_SCHEMA_VERSION), (''revision'', JNum (int (en_revision e))),
      (''previousEventDigest'', JStr (en_previousEventDigest e)), (''eventDigest'', JStr (en_eventDigest e)),
      (''event'', jsv_of (en_event e))]"

section \<open>Reduction of parsed events\<close>

definition reduceSafely :: "url_parser \<Rightarrow> cjson list \<Rightarrow> operation_state jres" where
  "reduceSafely U events = (case those (map dec_event events) of
     None \<Rightarrow> corrupt
   | Some evs \<Rightarrow> (case reduceOperationEvents U evs of Inl e \<Rightarrow> corrupt | Inr s \<Rightarrow> Inr s))"

text \<open>\<open>JSON.parse (JSON.stringify v)\<close>.\<close>

definition jsonRoundTrip :: "jsv \<Rightarrow> cjson jres" where
  "jsonRoundTrip v = (case stringified v of
     Inl e \<Rightarrow> Inl (Js_error e)
   | Inr None \<Rightarrow> journal_throw ''event_not_serializable''
   | Inr (Some c) \<Rightarrow> Inr (printed c))"

section \<open>Reading\<close>

record parsed_log =
  pl_exists :: bool
  pl_envelopes :: "envelope list"
  pl_committedBytes :: nat
  pl_partialTailBytes :: nat

definition no_log :: parsed_log where
  "no_log = \<lparr>pl_exists = False, pl_envelopes = [], pl_committedBytes = 0, pl_partialTailBytes = 0\<rparr>"

text \<open>The bytes up to and including the last newline.\<close>

definition committed_part :: "string \<Rightarrow> string" where
  "committed_part bytes = rev (dropWhile (\<lambda>c. c \<noteq> NEWLINE) (rev bytes))"

fun split_lines :: "string \<Rightarrow> string list" where
  "split_lines [] = [[]]"
| "split_lines (c # s) = (if c = NEWLINE then [] # split_lines s
     else (case split_lines s of [] \<Rightarrow> [[c]] | l # ls \<Rightarrow> (c # l) # ls))"

definition committed_lines :: "string \<Rightarrow> string list" where
  "committed_lines committedText = (if committedText = [] then [] else split_lines (butlast committedText))"

fun readLines :: "keyed_hash \<Rightarrow> string \<Rightarrow> nat \<Rightarrow> string list \<Rightarrow> envelope list jres" where
  "readLines H expectedPrevious index [] = Inr []"
| "readLines H expectedPrevious index (line # ls) =
     (if line = [] then corrupt
      else case json_parse line of None \<Rightarrow> corrupt
      | Some value \<Rightarrow> bind_res (assertEnvelope value (index + 1)) (\<lambda>e.
          if en_previousEventDigest e \<noteq> expectedPrevious then corrupt
          else bind_res (lift_js (journalEventDigest H (en_revision e) (en_previousEventDigest e) (en_event e))) (\<lambda>d.
          if en_eventDigest e \<noteq> d then corrupt
          else bind_res (readLines H (en_eventDigest e) (index + 1) ls) (\<lambda>es. Inr (e # es)))))"

definition readLog :: "url_parser \<Rightarrow> keyed_hash \<Rightarrow> string option \<Rightarrow> bool \<Rightarrow> parsed_log jres" where
  "readLog U H file allowMissing = (case file of
     None \<Rightarrow> if allowMissing then Inr no_log else journal_throw ''operation_not_found''
   | Some bytes \<Rightarrow>
       if length bytes > MAX_SINGLE_RECORD_FILE_BYTES then journal_throw ''journal_log_too_large''
       else let committed = committed_part bytes in
         (case utf8_decode committed of None \<Rightarrow> corrupt
          | Some committedText \<Rightarrow> bind_res (readLines H GENESIS_EVENT_DIGEST 0 (committed_lines committedText)) (\<lambda>envelopes.
              bind_res (if envelopes = [] then Inr () else bind_res (reduceSafely U (map en_event envelopes)) (\<lambda>_. Inr ())) (\<lambda>_.
                Inr \<lparr>pl_exists = True, pl_envelopes = envelopes, pl_committedBytes = length committed,
                  pl_partialTailBytes = length bytes - length committed\<rparr>))))"

section \<open>Appending\<close>

text \<open>
  The contents the log file goes through while \<open>appendRecord\<close> runs: the exclusive creation of an
  empty file, the truncation of a torn tail, and each prefix of the written record, the last of them
  the complete record. Stopping between two of them leaves one of them.
\<close>

definition appendRecord :: "string option \<Rightarrow> parsed_log \<Rightarrow> string \<Rightarrow> string list \<times> unit jres" where
  "appendRecord file parsed encoded = (let old = (case file of None \<Rightarrow> [] | Some b \<Rightarrow> b);
       created = (if file = None then [[]] else [])
     in if (file = None) = pl_exists parsed
        then ([], journal_throw (if file = None then ''ENOENT'' else ''revision_conflict''))
        else if length old \<noteq> pl_committedBytes parsed + pl_partialTailBytes parsed
        then (created, journal_throw ''revision_conflict'')
        else if pl_committedBytes parsed + length encoded > MAX_SINGLE_RECORD_FILE_BYTES
        then (created, journal_throw ''journal_log_too_large'')
        else let committed = take (pl_committedBytes parsed) old in
          (created @ (if pl_partialTailBytes parsed > 0 then [committed] else []) @
             map (\<lambda>k. committed @ take k encoded) [1..<Suc (length encoded)], Inr ()))"

end
