(* ===== verification/Journal_Io.thy ===== *)
theory Journal_Io
  imports Journal_Log
begin

text \<open>
  The durable side of \<open>operations/journal.ts\<close>: the files under the state root, the effects on them
  and the quota counter that is written around every mutation. An effect is its result together with
  every durable store it goes through; a crash leaves one of these.
\<close>

section \<open>Stores and effects\<close>

text \<open>
  The tracked files by path, the quota counter file, and a stamp that stands for the metadata of the
  tracked directories: it changes whenever an entry appears or disappears.
\<close>

record quota_counter =
  qc_revision :: int
  qc_totalBytes :: int
  qc_entryCount :: int
  qc_dirty :: bool
  qc_directories :: nat

record jstore =
  js_files :: "string obj"
  js_quota :: "quota_counter option"
  js_stamp :: nat

type_synonym 'a io = "jstore \<Rightarrow> jstore list \<times> 'a jres"

text \<open>The store after a list of durable stores.\<close>

definition store_after :: "jstore \<Rightarrow> jstore list \<Rightarrow> jstore" where
  "store_after s tr = (if tr = [] then s else last tr)"

definition io_ret :: "'a \<Rightarrow> 'a io" where
  "io_ret x s = ([], Inr x)"

definition io_res :: "'a jres \<Rightarrow> 'a io" where
  "io_res r s = ([], r)"

definition io_get :: "(jstore \<Rightarrow> 'a) \<Rightarrow> 'a io" where
  "io_get f s = ([], Inr (f s))"

definition io_put :: "(jstore \<Rightarrow> jstore) \<Rightarrow> unit io" where
  "io_put f s = ([f s], Inr ())"

definition io_bind :: "'a io \<Rightarrow> ('a \<Rightarrow> 'b io) \<Rightarrow> 'b io" where
  "io_bind m f s = (case m s of (tr, r) \<Rightarrow> (case r of
     Inl e \<Rightarrow> (tr, Inl e)
   | Inr x \<Rightarrow> (case f x (store_after s tr) of (tr', r') \<Rightarrow> (tr @ tr', r'))))"

text \<open>A \<open>catch\<close> block.\<close>

definition io_catch :: "'a io \<Rightarrow> (journal_error \<Rightarrow> 'a io) \<Rightarrow> 'a io" where
  "io_catch m f s = (case m s of (tr, r) \<Rightarrow> (case r of
     Inr x \<Rightarrow> (tr, Inr x)
   | Inl e \<Rightarrow> (case f e (store_after s tr) of (tr', r') \<Rightarrow> (tr @ tr', r'))))"

definition io_throw :: "string \<Rightarrow> 'a io" where
  "io_throw code = io_res (journal_throw code)"

section \<open>Files\<close>

definition file_at :: "jstore \<Rightarrow> string \<Rightarrow> string option" where
  "file_at s p = obj_get (js_files s) p"

definition pathExists :: "string \<Rightarrow> bool io" where
  "pathExists p = io_get (\<lambda>s. file_at s p \<noteq> None)"

definition write_file :: "string \<Rightarrow> string \<Rightarrow> jstore \<Rightarrow> jstore" where
  "write_file p bytes s = s\<lparr>js_files := obj_set (js_files s) p bytes,
     js_stamp := (if file_at s p = None then Suc (js_stamp s) else js_stamp s)\<rparr>"

definition delete_file :: "string \<Rightarrow> jstore \<Rightarrow> jstore" where
  "delete_file p s = s\<lparr>js_files := AList.delete p (js_files s), js_stamp := Suc (js_stamp s)\<rparr>"

text \<open>
  Renaming or linking the finished temporary file is one durable step: the bytes appear complete or
  not at all.
\<close>

definition writeAtomicJson :: "string \<Rightarrow> (string \<times> cjson) list \<Rightarrow> bool \<Rightarrow> unit io" where
  "writeAtomicJson path ps replaceExisting = io_bind (io_res (lift_js (canonicalJson (jsv_of (CObj ps))))) (\<lambda>t.
     io_bind (pathExists path) (\<lambda>present.
       if present \<and> \<not> replaceExisting then io_throw ''durable_record_conflict''
       else io_put (\<lambda>s. (write_file path (utf8 (t @ [NEWLINE])) s)\<lparr>js_stamp := Suc (js_stamp s)\<rparr>)))"

definition withoutField :: "(string \<times> cjson) list \<Rightarrow> string \<Rightarrow> (string \<times> cjson) list" where
  "withoutField ps f = filter (\<lambda>p. fst p \<noteq> f) ps"

definition writeAuthenticatedAtomic ::
  "keyed_hash \<Rightarrow> string \<Rightarrow> (string \<times> cjson) list \<Rightarrow> string \<Rightarrow> string \<Rightarrow> bool \<Rightarrow> unit io" where
  "writeAuthenticatedAtomic H path ps domain digestField replaceExisting =
     io_bind (io_res (lift_js (hmacDigest H domain (jsv_of (CObj (withoutField ps digestField)))))) (\<lambda>d.
       writeAtomicJson path (obj_set ps digestField (CStr d)) replaceExisting)"

definition readAuthenticatedFile ::
  "keyed_hash \<Rightarrow> string option \<Rightarrow> string \<Rightarrow> string \<Rightarrow> string \<Rightarrow> (string \<times> cjson) list jres" where
  "readAuthenticatedFile H file domain digestField errorCode = (case file of
     None \<Rightarrow> journal_throw ''operation_not_found''
   | Some bytes \<Rightarrow>
       if length bytes > MAX_SINGLE_RECORD_FILE_BYTES then journal_throw errorCode
       else case Option.bind (utf8_decode bytes) json_parse of
         Some (CObj ps) \<Rightarrow> (case d_str (map_of ps digestField) of
             None \<Rightarrow> journal_throw errorCode
           | Some digest \<Rightarrow> bind_res (lift_js (hmacDigest H domain (jsv_of (CObj (withoutField ps digestField)))))
               (\<lambda>expected. if digest \<noteq> expected then journal_throw errorCode else Inr ps))
       | _ \<Rightarrow> journal_throw errorCode)"

section \<open>The quota counter\<close>

definition MAX_QUOTA_SCAN_ENTRIES :: int where "MAX_QUOTA_SCAN_ENTRIES = 65536"

definition MAX_QUOTA_SCAN_BYTES :: int where "MAX_QUOTA_SCAN_BYTES = 256 * 1024 * 1024"

definition total_bytes :: "jstore \<Rightarrow> int" where
  "total_bytes s = sum_list (map (int \<circ> length \<circ> snd) (js_files s))"

definition entry_count :: "jstore \<Rightarrow> int" where
  "entry_count s = int (length (js_files s))"

definition nextQuotaRevision :: "int \<Rightarrow> int jres" where
  "nextQuotaRevision revision = (if \<not> is_safe_integer revision \<or> revision < 0 \<or> revision \<ge> MAX_SAFE_INTEGER
     then journal_throw ''journal_quota_counter_corrupt'' else Inr (revision + 1))"

definition scanStateUsage :: "jstore \<Rightarrow> (int \<times> int) jres" where
  "scanStateUsage s = (if entry_count s > MAX_QUOTA_SCAN_ENTRIES \<or> total_bytes s > MAX_QUOTA_SCAN_BYTES
     then journal_throw ''journal_scan_limit'' else Inr (total_bytes s, entry_count s))"

definition writeQuotaCounter :: "quota_counter \<Rightarrow> unit io" where
  "writeQuotaCounter c = io_put (\<lambda>s. s\<lparr>js_quota := Some c\<rparr>)"

definition rebuildQuotaCounter :: "int \<Rightarrow> quota_counter io" where
  "rebuildQuotaCounter revision = io_bind (io_get (\<lambda>s. s)) (\<lambda>s.
     io_bind (io_res (scanStateUsage s)) (\<lambda>(bytes, entries).
       let c = \<lparr>qc_revision = revision, qc_totalBytes = bytes, qc_entryCount = entries, qc_dirty = False,
          qc_directories = js_stamp s\<rparr>
       in io_bind (writeQuotaCounter c) (\<lambda>_. io_ret c)))"

definition loadCurrentQuotaCounter :: "quota_counter io" where
  "loadCurrentQuotaCounter = io_bind (io_get (\<lambda>s. (js_quota s, js_stamp s))) (\<lambda>(quota, stamp). case quota of
     None \<Rightarrow> rebuildQuotaCounter 1
   | Some c \<Rightarrow> if qc_dirty c \<or> qc_directories c \<noteq> stamp
       then io_bind (io_res (nextQuotaRevision (qc_revision c))) rebuildQuotaCounter
       else io_ret c)"

definition assertQuotaForNewOperation :: "int \<Rightarrow> quota_counter \<Rightarrow> int \<Rightarrow> unit jres" where
  "assertQuotaForNewOperation maxStateBytes c additionalBytes =
     (if qc_entryCount c > MAX_QUOTA_SCAN_ENTRIES \<or> qc_totalBytes c > MAX_QUOTA_SCAN_BYTES
         \<or> \<not> is_safe_integer additionalBytes \<or> additionalBytes < 0
         \<or> additionalBytes > MAX_QUOTA_SCAN_BYTES - qc_totalBytes c
      then journal_throw ''journal_scan_limit''
      else if qc_totalBytes c + additionalBytes > maxStateBytes then journal_throw ''journal_quota_exceeded''
      else Inr ())"

text \<open>A mutation returns its value and what it did to the bytes and the entries of the store.\<close>

definition assertQuotaDelta :: "int \<Rightarrow> unit jres" where
  "assertQuotaDelta v = require (is_safe_integer v) ''journal_quota_counter_corrupt''"

definition account_mutation :: "quota_counter \<Rightarrow> ('a \<times> int \<times> int) io \<Rightarrow> 'a io" where
  "account_mutation dirty mutation = io_bind mutation (\<lambda>(value, byteDelta, entryDelta).
     io_bind (io_res (assertQuotaDelta byteDelta)) (\<lambda>_.
     io_bind (io_res (assertQuotaDelta entryDelta)) (\<lambda>_.
       let totalBytes = qc_totalBytes dirty + byteDelta; entryCount = qc_entryCount dirty + entryDelta in
       if \<not> is_safe_integer totalBytes \<or> totalBytes < 0 \<or> \<not> is_safe_integer entryCount \<or> entryCount < 0
       then io_throw ''journal_quota_counter_corrupt''
       else io_bind (io_res (nextQuotaRevision (qc_revision dirty))) (\<lambda>revision.
            io_bind (io_get js_stamp) (\<lambda>stamp.
            io_bind (writeQuotaCounter \<lparr>qc_revision = revision, qc_totalBytes = totalBytes,
               qc_entryCount = entryCount, qc_dirty = False, qc_directories = stamp\<rparr>) (\<lambda>_. io_ret value))))))"

text \<open>A failed rebuild leaves the dirty counter and the original failure.\<close>

definition rebuild_after_failure :: "quota_counter \<Rightarrow> unit io" where
  "rebuild_after_failure dirty = io_catch
     (io_bind (io_res (nextQuotaRevision (qc_revision dirty))) (\<lambda>revision.
        io_bind (rebuildQuotaCounter revision) (\<lambda>_. io_ret ())))
     (\<lambda>_. io_ret ())"

definition mutateQuotaTrackedState :: "('a \<times> int \<times> int) io \<Rightarrow> (quota_counter \<Rightarrow> unit jres) \<Rightarrow> 'a io" where
  "mutateQuotaTrackedState mutation preflight = io_bind loadCurrentQuotaCounter (\<lambda>counter.
     io_bind (io_res (preflight counter)) (\<lambda>_.
     io_bind (io_res (nextQuotaRevision (qc_revision counter))) (\<lambda>revision.
     let dirty = counter\<lparr>qc_revision := revision, qc_dirty := True\<rparr> in
     io_bind (writeQuotaCounter dirty) (\<lambda>_.
       io_catch (account_mutation dirty mutation)
         (\<lambda>e. io_bind (rebuild_after_failure dirty) (\<lambda>_. io_res (Inl e)))))))"

definition no_preflight :: "quota_counter \<Rightarrow> unit jres" where
  "no_preflight c = Inr ()"

definition removeQuotaTrackedFile :: "string \<Rightarrow> int io" where
  "removeQuotaTrackedFile p = mutateQuotaTrackedState
     (io_bind (io_get (\<lambda>s. file_at s p)) (\<lambda>file. case file of
        None \<Rightarrow> io_ret (0, 0, 0)
      | Some bytes \<Rightarrow> io_bind (io_put (delete_file p)) (\<lambda>_. io_ret (int (length bytes), - int (length bytes), -1))))
     no_preflight"

text \<open>The mutation around an atomically written record file.\<close>

definition record_mutation :: "string \<Rightarrow> unit io \<Rightarrow> (unit \<times> int \<times> int) io" where
  "record_mutation path write = io_bind (io_get (\<lambda>s. file_at s path)) (\<lambda>before.
     io_bind write (\<lambda>_. io_bind (io_get (\<lambda>s. file_at s path)) (\<lambda>after. case after of
        None \<Rightarrow> io_throw ''ENOENT''
      | Some bytes \<Rightarrow> io_ret ((), int (length bytes) - (case before of None \<Rightarrow> 0 | Some b \<Rightarrow> int (length b)),
          (if before = None then 1 else 0)))))"

end
