(* ===== verification/Journal_Store.thy ===== *)
theory Journal_Store
  imports Journal_Io Op_Snapshot
begin

text \<open>
  The operations of \<open>operations/journal.ts\<close> on the durable records of one operation: the event log,
  the terminal record that replaces the log of a completed operation, the tombstone that replaces a
  pruned terminal, and the snapshot cache. Each runs under the operation's lock, so an operation is
  one effect; \<open>U\<close> is the URL parser and \<open>H\<close> the keyed hash of the open journal.
\<close>

section \<open>Paths\<close>

definition PATH_DOMAIN :: string where "PATH_DOMAIN = ''codex-chatgpt-control/operation-path/v1''"

definition operationStem :: "keyed_hash \<Rightarrow> string \<Rightarrow> string jres" where
  "operationStem H operationId = bind_res (lift_js (hmacDigest H PATH_DOMAIN (JStr operationId)))
     (\<lambda>d. Inr (drop (length DIGEST_PREFIX) d))"

definition log_path :: "string \<Rightarrow> string" where "log_path stem = ''logs/'' @ stem @ ''.jsonl''"

definition terminal_path :: "string \<Rightarrow> string" where
  "terminal_path stem = ''terminals/'' @ stem @ ''.terminal.json''"

definition snapshot_path :: "string \<Rightarrow> string" where
  "snapshot_path stem = ''snapshots/'' @ stem @ ''.snapshot.json''"

definition tombstone_path :: "string \<Rightarrow> string" where
  "tombstone_path stem = ''tombstones/'' @ stem @ ''.tombstone.json''"

section \<open>Terminal records\<close>

definition TERMINAL_SCHEMA_VERSION :: string where
  "TERMINAL_SCHEMA_VERSION = ''chatgpt.browser_control.operation_terminal.v1''"
definition TOMBSTONE_SCHEMA_VERSION :: string where
  "TOMBSTONE_SCHEMA_VERSION = ''chatgpt.browser_control.operation_tombstone.v1''"
definition TERMINAL_DOMAIN :: string where "TERMINAL_DOMAIN = ''codex-chatgpt-control/operation-terminal/v1''"
definition SNAPSHOT_DOMAIN :: string where "SNAPSHOT_DOMAIN = ''codex-chatgpt-control/operation-snapshot/v1''"
definition TOMBSTONE_DOMAIN :: string where "TOMBSTONE_DOMAIN = ''codex-chatgpt-control/operation-tombstone/v1''"

text \<open>The record as it is read: the state both as parsed and in its typed reading.\<close>

record terminal_record =
  tm_operationId :: string
  tm_requestDigest :: string
  tm_revision :: int
  tm_lastEventDigest :: string
  tm_value :: cjson
  tm_state :: operation_state

definition assertCompletedState :: "operation_state \<Rightarrow> string \<Rightarrow> unit jres" where
  "assertCompletedState s operationId =
     (if st_operationId s \<noteq> operationId then corrupt
      else case st_receipt s of
        None \<Rightarrow> journal_throw ''operation_not_compactable''
      | Some r \<Rightarrow> if st_phase s \<noteq> Completed then journal_throw ''operation_not_compactable''
          else if rp_operationId r \<noteq> operationId \<or> rp_requestDigest r \<noteq> st_requestDigest s then corrupt
          else if rp_schemaVersion r \<noteq> OPERATION_RECEIPT_SCHEMA_VERSION then corrupt
          else Inr ())"

definition witness_digests :: "submission_witness \<Rightarrow> string list" where
  "witness_digests w = [sw_baselineSnapshotDigest w, sw_postSendDeltaDigest w, sw_operationUserEvidenceDigest w]"

definition baseline_digests :: "operation_baseline \<Rightarrow> string list" where
  "baseline_digests b = [ob_targetBindingDigest b, bl_snapshotDigest (ob_baseline b)]"

definition option_list :: "'a option \<Rightarrow> 'a list" where
  "option_list x = (case x of None \<Rightarrow> [] | Some a \<Rightarrow> [a])"

definition terminalOwnershipEvidenceDigests :: "operation_state \<Rightarrow> string list jres" where
  "terminalOwnershipEvidenceDigests s = (case st_receipt s of
     None \<Rightarrow> corrupt
   | Some r \<Rightarrow> Inr (sort (remdups (
       [rp_userTurnEvidenceDigest r, rp_ownershipEvidenceDigest r] @
       concat (map witness_digests (obj_values (or_empty (st_submissionWitnesses s)) @ option_list (st_submissionWitness s))) @
       concat (map baseline_digests (obj_values (or_empty (st_ownershipBaselines s)) @ option_list (st_ownershipBaseline s))) @
       concat (map (option_list \<circ> ar_evidenceDigest) (obj_values (st_actions s)))))))"

definition object_members :: "cjson \<Rightarrow> (string \<times> cjson) list" where
  "object_members c = (case c of CObj ps \<Rightarrow> ps | _ \<Rightarrow> [])"

text \<open>The record without its checksum; a receipt always has its artifacts.\<close>

definition makeTerminalRecord :: "operation_state \<Rightarrow> string \<Rightarrow> (string \<times> cjson) list jres" where
  "makeTerminalRecord s lastEventDigest = bind_res (assertCompletedState s (st_operationId s)) (\<lambda>_.
     case st_receipt s of None \<Rightarrow> corrupt | Some r \<Rightarrow>
       bind_res (jsonRoundTrip (enc_receipt r)) (\<lambda>receipt.
       bind_res (terminalOwnershipEvidenceDigests s) (\<lambda>digests.
       bind_res (jsonRoundTrip (enc_state s)) (\<lambda>state.
       bind_res (jsonRoundTrip (case map_of (object_members receipt) ''artifacts'' of
           None \<Rightarrow> JUndefined | Some c \<Rightarrow> jsv_of c)) (\<lambda>manifest.
         Inr [(''schemaVersion'', CStr TERMINAL_SCHEMA_VERSION), (''operationId'', CStr (st_operationId s)),
           (''requestDigest'', CStr (st_requestDigest s)), (''revision'', CNum (st_revision s)),
           (''lastEventDigest'', CStr lastEventDigest), (''state'', state), (''receipt'', receipt),
           (''artifactManifest'', manifest), (''ownershipEvidenceDigests'', CArr (map CStr digests)),
           (''terminalDigest'', CStr [])])))))"

definition TERMINAL_KEYS :: "string list" where
  "TERMINAL_KEYS = [''schemaVersion'', ''operationId'', ''requestDigest'', ''revision'', ''lastEventDigest'', ''state'',
     ''receipt'', ''artifactManifest'', ''ownershipEvidenceDigests'', ''terminalDigest'']"

text \<open>\<open>canonicalJson (a) !== canonicalJson (b)\<close>.\<close>

definition same_text :: "jsv \<Rightarrow> jsv \<Rightarrow> bool jres" where
  "same_text v w = bind_res (lift_js (canonicalJson v)) (\<lambda>t. bind_res (lift_js (canonicalJson w)) (\<lambda>u. Inr (t = u)))"

definition require_same_text :: "jsv \<Rightarrow> jsv \<Rightarrow> unit jres" where
  "require_same_text v w = bind_res (same_text v w) (\<lambda>b. require b ''journal_corrupt'')"

definition is_object :: "cjson option \<Rightarrow> bool" where
  "is_object x = (case x of Some (CObj ps) \<Rightarrow> True | _ \<Rightarrow> False)"

definition is_array :: "cjson option \<Rightarrow> bool" where
  "is_array x = (case x of Some (CArr xs) \<Rightarrow> True | _ \<Rightarrow> False)"

definition member_value :: "cjson option \<Rightarrow> jsv" where
  "member_value x = (case x of None \<Rightarrow> JUndefined | Some c \<Rightarrow> jsv_of c)"

text \<open>The checks of a typed state against the record that carries it.\<close>

definition terminal_state_checks ::
  "url_parser \<Rightarrow> (string \<times> cjson) list \<Rightarrow> terminal_record \<Rightarrow> unit jres" where
  "terminal_state_checks U ps t = (let s = tm_state t in
     if assertOperationStateShape U s \<noteq> None then corrupt
     else if st_schemaVersion s \<noteq> OPERATION_SCHEMA_VERSION then corrupt
     else bind_res (assertCompletedState s (tm_operationId t)) (\<lambda>_.
       if st_requestDigest s \<noteq> tm_requestDigest t \<or> st_revision s \<noteq> tm_revision t then corrupt
       else let receipt = map_of (object_members (tm_value t)) ''receipt'' in
       bind_res (require_same_text (member_value receipt) (member_value (map_of ps ''receipt''))) (\<lambda>_.
       bind_res (require_same_text
          (member_value (map_of (object_members (case receipt of None \<Rightarrow> CNull | Some c \<Rightarrow> c)) ''artifacts''))
          (member_value (map_of ps ''artifactManifest''))) (\<lambda>_.
       case map_of ps ''ownershipEvidenceDigests'' of
         Some (CArr ds) \<Rightarrow> if \<not> list_all (isDigest \<circ> Some) ds then corrupt
           else bind_res (terminalOwnershipEvidenceDigests s) (\<lambda>expected.
             require_same_text (jsv_of (CArr ds)) (JArr (map JStr expected)))
       | _ \<Rightarrow> corrupt))))"

definition readTerminal :: "url_parser \<Rightarrow> keyed_hash \<Rightarrow> string option \<Rightarrow> terminal_record jres" where
  "readTerminal U H file =
     bind_res (readAuthenticatedFile H file TERMINAL_DOMAIN ''terminalDigest'' ''journal_terminal_corrupt'') (\<lambda>ps.
     if \<not> hasExactKeys ps TERMINAL_KEYS \<or> map_of ps ''schemaVersion'' \<noteq> Some (CStr TERMINAL_SCHEMA_VERSION)
        \<or> \<not> isDigest (map_of ps ''lastEventDigest'') \<or> \<not> is_object (map_of ps ''state'')
        \<or> \<not> is_object (map_of ps ''receipt'') \<or> \<not> is_array (map_of ps ''artifactManifest'')
        \<or> \<not> is_array (map_of ps ''ownershipEvidenceDigests'')
     then corrupt
     else case (d_str (map_of ps ''operationId''), d_str (map_of ps ''requestDigest''), d_int (map_of ps ''revision''),
         d_str (map_of ps ''lastEventDigest''), map_of ps ''state'') of
       (Some operationId, Some requestDigest, Some revision, Some lastEventDigest, Some value) \<Rightarrow>
         if \<not> is_safe_integer revision \<or> revision \<le> 0 then corrupt
         else bind_res (lift_check (assertOperationId operationId)) (\<lambda>_.
           if \<not> DIGEST_PATTERN requestDigest then corrupt
           else case dec_state value of None \<Rightarrow> corrupt | Some s \<Rightarrow>
             let t = \<lparr>tm_operationId = operationId, tm_requestDigest = requestDigest, tm_revision = revision,
                 tm_lastEventDigest = lastEventDigest, tm_value = value, tm_state = s\<rparr>
             in bind_res (terminal_state_checks U ps t) (\<lambda>_. Inr t))
     | _ \<Rightarrow> corrupt)"

section \<open>Tombstones\<close>

record tombstone =
  tb_operationId :: string
  tb_requestDigest :: string

definition TOMBSTONE_KEYS :: "string list" where
  "TOMBSTONE_KEYS = [''schemaVersion'', ''operationId'', ''requestDigest'', ''tombstoneDigest'']"

definition readTombstone :: "keyed_hash \<Rightarrow> string option \<Rightarrow> tombstone jres" where
  "readTombstone H file =
     bind_res (readAuthenticatedFile H file TOMBSTONE_DOMAIN ''tombstoneDigest'' ''journal_tombstone_corrupt'') (\<lambda>ps.
     if \<not> hasExactKeys ps TOMBSTONE_KEYS \<or> map_of ps ''schemaVersion'' \<noteq> Some (CStr TOMBSTONE_SCHEMA_VERSION)
        \<or> \<not> isDigest (map_of ps ''requestDigest'')
     then corrupt
     else case (d_str (map_of ps ''operationId''), d_str (map_of ps ''requestDigest'')) of
       (Some operationId, Some requestDigest) \<Rightarrow>
         bind_res (lift_check (assertOperationId operationId)) (\<lambda>_.
           Inr \<lparr>tb_operationId = operationId, tb_requestDigest = requestDigest\<rparr>)
     | _ \<Rightarrow> corrupt)"

definition assertSameIdentity :: "string \<Rightarrow> string \<Rightarrow> string \<Rightarrow> string \<Rightarrow> unit jres" where
  "assertSameIdentity leftId leftDigest rightId rightDigest =
     require (leftId = rightId \<and> leftDigest = rightDigest) ''journal_corrupt''"

end
