(* ===== verification/Journal.thy ===== *)
theory Journal
  imports Journal_Store
begin

text \<open>
  The public operations of \<open>OperationJournal\<close> (\<open>operations/journal.ts\<close>): append, create, load,
  snapshots, compaction, pruning and purging.
\<close>

section \<open>Loading\<close>

record loaded =
  ld_state :: operation_state
  ld_envelopes :: "envelope list"
  ld_committedBytes :: nat
  ld_partialTailBytes :: nat
  ld_lastEventDigest :: string

definition parsed_state :: "url_parser \<Rightarrow> parsed_log \<Rightarrow> operation_state jres" where
  "parsed_state U pl = reduceSafely U (map en_event (pl_envelopes pl))"

definition terminalLoaded :: "terminal_record \<Rightarrow> loaded" where
  "terminalLoaded t = \<lparr>ld_state = tm_state t, ld_envelopes = [], ld_committedBytes = 0, ld_partialTailBytes = 0,
     ld_lastEventDigest = tm_lastEventDigest t\<rparr>"

definition loaded_of :: "parsed_log \<Rightarrow> operation_state \<Rightarrow> string \<Rightarrow> loaded" where
  "loaded_of pl s digest = \<lparr>ld_state = s, ld_envelopes = pl_envelopes pl, ld_committedBytes = pl_committedBytes pl,
     ld_partialTailBytes = pl_partialTailBytes pl, ld_lastEventDigest = digest\<rparr>"

definition reconcileTerminalWithLog :: "url_parser \<Rightarrow> terminal_record \<Rightarrow> parsed_log \<Rightarrow> string \<Rightarrow> unit jres" where
  "reconcileTerminalWithLog U t pl operationId =
     (if pl_envelopes pl = [] then corrupt
      else bind_res (parsed_state U pl) (\<lambda>s.
        bind_res (assertCompletedState s operationId) (\<lambda>_.
          if tm_operationId t \<noteq> st_operationId s \<or> tm_requestDigest t \<noteq> st_requestDigest s
             \<or> tm_revision t \<noteq> st_revision s \<or> tm_lastEventDigest t \<noteq> en_eventDigest (last (pl_envelopes pl))
          then corrupt else require_same_text (jsv_of (tm_value t)) (enc_state s))))"

definition expected_digest :: "string option \<Rightarrow> string \<Rightarrow> unit jres" where
  "expected_digest expected d =
     (case expected of None \<Rightarrow> Inr () | Some e \<Rightarrow> require (d = e) ''operation_request_mismatch'')"

text \<open>A log beside a tombstone must be of the pruned operation.\<close>

definition tombstone_log_check :: "url_parser \<Rightarrow> keyed_hash \<Rightarrow> string option \<Rightarrow> string \<Rightarrow> tombstone \<Rightarrow> unit jres" where
  "tombstone_log_check U H file operationId tomb = (if file = None then Inr ()
     else bind_res (readLog U H file False) (\<lambda>pl. bind_res (parsed_state U pl) (\<lambda>s.
       bind_res (assertCompletedState s operationId) (\<lambda>_.
         require (st_requestDigest s = tb_requestDigest tomb) ''journal_corrupt''))))"

definition tombstone_terminal_check :: "url_parser \<Rightarrow> keyed_hash \<Rightarrow> string option \<Rightarrow> tombstone \<Rightarrow> unit jres" where
  "tombstone_terminal_check U H file tomb = (if file = None then Inr ()
     else bind_res (readTerminal U H file) (\<lambda>t.
       assertSameIdentity (tb_operationId tomb) (tb_requestDigest tomb) (tm_operationId t) (tm_requestDigest t)))"

definition load_log :: "url_parser \<Rightarrow> keyed_hash \<Rightarrow> string option \<Rightarrow> string \<Rightarrow> string option \<Rightarrow> loaded jres" where
  "load_log U H file operationId expected = bind_res (readLog U H file False) (\<lambda>pl.
     if pl_envelopes pl = [] then journal_throw ''operation_not_found''
     else bind_res (parsed_state U pl) (\<lambda>s.
       bind_res (require (st_operationId s = operationId) ''operation_binding_mismatch'') (\<lambda>_.
       bind_res (expected_digest expected (st_requestDigest s)) (\<lambda>_.
         Inr (loaded_of pl s (en_eventDigest (last (pl_envelopes pl))))))))"

definition load_terminal ::
  "url_parser \<Rightarrow> keyed_hash \<Rightarrow> string option \<Rightarrow> string option \<Rightarrow> string \<Rightarrow> string option \<Rightarrow> loaded jres" where
  "load_terminal U H terminal log operationId expected = bind_res (readTerminal U H terminal) (\<lambda>t.
     bind_res (require (tm_operationId t = operationId) ''journal_corrupt'') (\<lambda>_.
     bind_res (expected_digest expected (tm_requestDigest t)) (\<lambda>_.
       if log = None then Inr (terminalLoaded t)
       else bind_res (readLog U H log False) (\<lambda>pl.
         bind_res (reconcileTerminalWithLog U t pl operationId) (\<lambda>_.
           Inr (loaded_of pl (tm_state t) (tm_lastEventDigest t)))))))"

definition loadLocked :: "url_parser \<Rightarrow> keyed_hash \<Rightarrow> string \<Rightarrow> string \<Rightarrow> string option \<Rightarrow> jstore \<Rightarrow> loaded jres" where
  "loadLocked U H stem operationId expected s =
     (let log = file_at s (log_path stem); terminal = file_at s (terminal_path stem);
          tombstone = file_at s (tombstone_path stem) in
      if tombstone \<noteq> None then bind_res (readTombstone H tombstone) (\<lambda>tomb.
        bind_res (expected_digest expected (tb_requestDigest tomb)) (\<lambda>_.
        bind_res (tombstone_terminal_check U H terminal tomb) (\<lambda>_.
        bind_res (tombstone_log_check U H log operationId tomb) (\<lambda>_.
          journal_throw ''operation_receipt_expired''))))
      else if terminal \<noteq> None then load_terminal U H terminal log operationId expected
      else load_log U H log operationId expected)"

definition journal_load :: "url_parser \<Rightarrow> keyed_hash \<Rightarrow> string \<Rightarrow> string option \<Rightarrow> jstore \<Rightarrow> loaded jres" where
  "journal_load U H operationId expected s = bind_res (lift_check (assertOperationId operationId)) (\<lambda>_.
     bind_res (operationStem H operationId) (\<lambda>stem. loadLocked U H stem operationId expected s))"

section \<open>Appending\<close>

definition assertNoTerminalOrTombstoneForAppend ::
  "url_parser \<Rightarrow> keyed_hash \<Rightarrow> string \<Rightarrow> int \<Rightarrow> jstore \<Rightarrow> unit jres" where
  "assertNoTerminalOrTombstoneForAppend U H stem expectedRevision s =
     (if file_at s (tombstone_path stem) \<noteq> None then journal_throw ''operation_receipt_expired''
      else if file_at s (terminal_path stem) = None then Inr ()
      else bind_res (readTerminal U H (file_at s (terminal_path stem))) (\<lambda>_.
        journal_throw (if expectedRevision = 0 then ''revision_conflict'' else ''operation_compacted'')))"

definition creation_check :: "string \<Rightarrow> int \<Rightarrow> operation_event \<Rightarrow> unit jres" where
  "creation_check operationId expectedRevision event = (case event of
     Operation_created e \<Rightarrow>
       if expectedRevision = 0 then require (ev_operationId e = operationId) ''creation_event_required''
       else journal_throw ''duplicate_operation_created''
   | _ \<Rightarrow> require (expectedRevision \<noteq> 0) ''creation_event_required'')"

text \<open>The record an append writes: the envelope, its bytes and the state after it.\<close>

definition next_record ::
  "url_parser \<Rightarrow> keyed_hash \<Rightarrow> string \<Rightarrow> int \<Rightarrow> operation_event \<Rightarrow> parsed_log
     \<Rightarrow> (envelope \<times> string \<times> operation_state) jres" where
  "next_record U H operationId expectedRevision event pl =
     bind_res (require (int (length (pl_envelopes pl)) = expectedRevision) ''revision_conflict'') (\<lambda>_.
     bind_res (creation_check operationId expectedRevision event) (\<lambda>_.
     bind_res (jsonRoundTrip (enc_event event)) (\<lambda>storedEvent.
     if assertOperationEventShape U (jsv_of storedEvent) \<noteq> None then journal_throw ''invalid_operation_event''
     else bind_res (reduceSafely U (map en_event (pl_envelopes pl) @ [storedEvent])) (\<lambda>nextState.
     bind_res (require (st_operationId nextState = operationId) ''operation_binding_mismatch'') (\<lambda>_.
     let revision = Suc (length (pl_envelopes pl));
       previous = (if pl_envelopes pl = [] then GENESIS_EVENT_DIGEST else en_eventDigest (last (pl_envelopes pl))) in
     bind_res (lift_js (journalEventDigest H revision previous storedEvent)) (\<lambda>eventDigest.
     let e = \<lparr>en_revision = revision, en_previousEventDigest = previous, en_eventDigest = eventDigest,
       en_event = storedEvent\<rparr> in
     bind_res (lift_js (canonicalJson (enc_envelope e))) (\<lambda>t.
       Inr (e, utf8 (t @ [NEWLINE]), nextState))))))))"

definition append_file :: "string \<Rightarrow> parsed_log \<Rightarrow> string \<Rightarrow> unit io" where
  "append_file path pl encoded s = (case appendRecord (file_at s path) pl encoded of
     (contents, r) \<Rightarrow> (map (\<lambda>c. write_file path c s) contents, r))"

definition journal_append ::
  "url_parser \<Rightarrow> keyed_hash \<Rightarrow> int \<Rightarrow> string \<Rightarrow> int \<Rightarrow> operation_event \<Rightarrow> loaded io" where
  "journal_append U H maxStateBytes operationId expectedRevision event =
     io_bind (io_res (lift_check (assertOperationId operationId))) (\<lambda>_.
     if \<not> is_safe_integer expectedRevision \<or> expectedRevision < 0 then io_throw ''invalid_expected_revision''
     else io_bind (io_res (operationStem H operationId)) (\<lambda>stem.
     io_bind (io_get (\<lambda>s. s)) (\<lambda>s.
     io_bind (io_res (assertNoTerminalOrTombstoneForAppend U H stem expectedRevision s)) (\<lambda>_.
     io_bind (io_res (readLog U H (file_at s (log_path stem)) True)) (\<lambda>pl.
     io_bind (io_res (next_record U H operationId expectedRevision event pl)) (\<lambda>(e, encoded, nextState).
     let byteDelta = int (length encoded) - int (pl_partialTailBytes pl) in
     io_bind (mutateQuotaTrackedState
        (io_bind (append_file (log_path stem) pl encoded) (\<lambda>_. io_ret ((), byteDelta, if pl_exists pl then 0 else 1)))
        (if expectedRevision = 0 then (\<lambda>c. assertQuotaForNewOperation maxStateBytes c (max 0 byteDelta)) else no_preflight)) (\<lambda>_.
     io_ret \<lparr>ld_state = nextState, ld_envelopes = pl_envelopes pl @ [e],
       ld_committedBytes = pl_committedBytes pl + length encoded, ld_partialTailBytes = 0,
       ld_lastEventDigest = en_eventDigest e\<rparr>)))))))"

text \<open>Creation is idempotent: a conflicting creation is a load under the same request digest.\<close>

definition journal_create :: "url_parser \<Rightarrow> keyed_hash \<Rightarrow> int \<Rightarrow> created_event \<Rightarrow> loaded io" where
  "journal_create U H maxStateBytes e =
     io_catch (journal_append U H maxStateBytes (ev_operationId e) 0 (Operation_created e))
       (\<lambda>err. if err = Journal_error ''revision_conflict''
         then io_bind (io_get (journal_load U H (ev_operationId e) (Some (ev_requestDigest e)))) io_res
         else io_res (Inl err))"

section \<open>Compaction\<close>

datatype compaction_status = Compacted | Already_compacted

record compaction_result =
  cr_status :: compaction_status
  cr_operationId :: string
  cr_requestDigest :: string
  cr_revision :: int
  cr_lastEventDigest :: string
  cr_deletedLogBytes :: int

definition compaction_of :: "compaction_status \<Rightarrow> terminal_record \<Rightarrow> int \<Rightarrow> compaction_result" where
  "compaction_of status t bytes = \<lparr>cr_status = status, cr_operationId = tm_operationId t,
     cr_requestDigest = tm_requestDigest t, cr_revision = tm_revision t, cr_lastEventDigest = tm_lastEventDigest t,
     cr_deletedLogBytes = bytes\<rparr>"

text \<open>A terminal that is already there: a log beside it is reconciled and removed.\<close>

definition finish_compaction :: "url_parser \<Rightarrow> keyed_hash \<Rightarrow> string \<Rightarrow> string \<Rightarrow> compaction_result io" where
  "finish_compaction U H stem operationId = io_bind (io_get (\<lambda>s. s)) (\<lambda>s.
     io_bind (io_res (readTerminal U H (file_at s (terminal_path stem)))) (\<lambda>t.
     if file_at s (log_path stem) \<noteq> None
     then io_bind (io_res (readLog U H (file_at s (log_path stem)) False)) (\<lambda>pl.
       io_bind (io_res (reconcileTerminalWithLog U t pl operationId)) (\<lambda>_.
       io_bind (removeQuotaTrackedFile (log_path stem)) (\<lambda>bytes.
         io_ret (compaction_of Already_compacted t bytes))))
     else io_bind (io_res (assertCompletedState (tm_state t) operationId)) (\<lambda>_.
       io_ret (compaction_of Already_compacted t 0))))"

definition start_compaction :: "url_parser \<Rightarrow> keyed_hash \<Rightarrow> string \<Rightarrow> string \<Rightarrow> compaction_result io" where
  "start_compaction U H stem operationId = io_bind (io_get (\<lambda>s. s)) (\<lambda>s.
     io_bind (io_res (readLog U H (file_at s (log_path stem)) False)) (\<lambda>pl.
     if pl_envelopes pl = [] then io_throw ''operation_not_found''
     else io_bind (io_res (parsed_state U pl)) (\<lambda>state.
     io_bind (io_res (assertCompletedState state operationId)) (\<lambda>_.
     io_bind (io_res (makeTerminalRecord state (en_eventDigest (last (pl_envelopes pl))))) (\<lambda>terminal.
     io_bind (mutateQuotaTrackedState (record_mutation (terminal_path stem)
        (writeAuthenticatedAtomic H (terminal_path stem) terminal TERMINAL_DOMAIN ''terminalDigest'' False)) no_preflight) (\<lambda>_.
     io_bind (io_get (\<lambda>s. file_at s (terminal_path stem))) (\<lambda>durable.
     io_bind (io_res (readTerminal U H durable)) (\<lambda>t.
     io_bind (io_res (reconcileTerminalWithLog U t pl operationId)) (\<lambda>_.
     io_bind (removeQuotaTrackedFile (log_path stem)) (\<lambda>bytes.
       io_ret (compaction_of Compacted t bytes)))))))))))"

definition compactCompletedLocked :: "url_parser \<Rightarrow> keyed_hash \<Rightarrow> string \<Rightarrow> string \<Rightarrow> compaction_result io" where
  "compactCompletedLocked U H stem operationId = io_bind (pathExists (tombstone_path stem)) (\<lambda>pruned.
     if pruned then io_throw ''operation_receipt_expired''
     else io_bind (pathExists (terminal_path stem)) (\<lambda>compacted.
       if compacted then finish_compaction U H stem operationId else start_compaction U H stem operationId))"

definition compactCompleted :: "url_parser \<Rightarrow> keyed_hash \<Rightarrow> string \<Rightarrow> compaction_result io" where
  "compactCompleted U H operationId = io_bind (io_res (lift_check (assertOperationId operationId))) (\<lambda>_.
     io_bind (io_res (operationStem H operationId)) (\<lambda>stem. compactCompletedLocked U H stem operationId))"

section \<open>Pruning and purging\<close>

record prune_result =
  pr_already :: bool
  pr_operationId :: string
  pr_requestDigest :: string
  pr_deletedTerminalBytes :: int
  pr_deletedSnapshotBytes :: int

text \<open>A tombstone that is already there: what a crash left beside it is removed.\<close>

definition finish_prune :: "url_parser \<Rightarrow> keyed_hash \<Rightarrow> string \<Rightarrow> prune_result io" where
  "finish_prune U H stem = io_bind (io_get (\<lambda>s. s)) (\<lambda>s.
     io_bind (io_res (readTombstone H (file_at s (tombstone_path stem)))) (\<lambda>tomb.
     io_bind (if file_at s (terminal_path stem) = None then io_ret 0
       else io_bind (io_res (tombstone_terminal_check U H (file_at s (terminal_path stem)) tomb))
         (\<lambda>_. removeQuotaTrackedFile (terminal_path stem))) (\<lambda>terminalBytes.
     io_bind (removeQuotaTrackedFile (snapshot_path stem)) (\<lambda>snapshotBytes.
       io_ret \<lparr>pr_already = True, pr_operationId = tb_operationId tomb, pr_requestDigest = tb_requestDigest tomb,
         pr_deletedTerminalBytes = terminalBytes, pr_deletedSnapshotBytes = snapshotBytes\<rparr>))))"

definition tombstone_value :: "terminal_record \<Rightarrow> (string \<times> cjson) list" where
  "tombstone_value t = [(''schemaVersion'', CStr TOMBSTONE_SCHEMA_VERSION),
     (''operationId'', CStr (tm_operationId t)), (''requestDigest'', CStr (tm_requestDigest t)),
     (''tombstoneDigest'', CStr [])]"

definition start_prune :: "url_parser \<Rightarrow> keyed_hash \<Rightarrow> string \<Rightarrow> prune_result io" where
  "start_prune U H stem = io_bind (io_get (\<lambda>s. s)) (\<lambda>s.
     io_bind (io_res (readTerminal U H (file_at s (terminal_path stem)))) (\<lambda>t.
     io_bind (io_res (lift_js (hmacDigest H TOMBSTONE_DOMAIN
        (jsv_of (CObj (withoutField (tombstone_value t) ''tombstoneDigest'')))))) (\<lambda>d.
     io_bind (mutateQuotaTrackedState (record_mutation (tombstone_path stem)
        (writeAtomicJson (tombstone_path stem) (obj_set (tombstone_value t) ''tombstoneDigest'' (CStr d)) False)) no_preflight) (\<lambda>_.
     io_bind (removeQuotaTrackedFile (terminal_path stem)) (\<lambda>terminalBytes.
     io_bind (removeQuotaTrackedFile (snapshot_path stem)) (\<lambda>snapshotBytes.
       io_ret \<lparr>pr_already = False, pr_operationId = tm_operationId t, pr_requestDigest = tm_requestDigest t,
         pr_deletedTerminalBytes = terminalBytes, pr_deletedSnapshotBytes = snapshotBytes\<rparr>))))))"

definition pruneReceipt :: "url_parser \<Rightarrow> keyed_hash \<Rightarrow> string \<Rightarrow> prune_result io" where
  "pruneReceipt U H operationId =
     io_bind (io_catch (io_bind (compactCompleted U H operationId) (\<lambda>_. io_ret ()))
       (\<lambda>e. if e = Journal_error ''operation_receipt_expired'' then io_ret () else io_res (Inl e))) (\<lambda>_.
     io_bind (io_res (operationStem H operationId)) (\<lambda>stem.
     io_bind (pathExists (tombstone_path stem)) (\<lambda>pruned.
       if pruned then finish_prune U H stem else start_prune U H stem)))"

record purge_result =
  pg_operationId :: string
  pg_requestDigest :: string
  pg_deleted :: "string list"
  pg_deletedBytes :: int

text \<open>The deletions, in the order of the list.\<close>

fun purge_files :: "(string \<times> string) list \<Rightarrow> string list \<Rightarrow> int \<Rightarrow> (string list \<times> int) io" where
  "purge_files [] deleted bytes = io_ret (deleted, bytes)"
| "purge_files ((kind, path) # paths) deleted bytes = io_bind (removeQuotaTrackedFile path) (\<lambda>n.
     if n > 0 then purge_files paths (deleted @ [kind]) (bytes + n) else purge_files paths deleted bytes)"

definition purge_paths :: "string \<Rightarrow> (string \<times> string) list" where
  "purge_paths stem = [(''tombstone'', tombstone_path stem), (''terminal'', terminal_path stem),
     (''snapshot'', snapshot_path stem), (''log'', log_path stem)]"

definition purgeTombstone :: "url_parser \<Rightarrow> keyed_hash \<Rightarrow> string \<Rightarrow> bool \<Rightarrow> purge_result io" where
  "purgeTombstone U H operationId acknowledge =
     io_bind (io_res (lift_check (assertOperationId operationId))) (\<lambda>_.
     if \<not> acknowledge then io_throw ''journal_purge_ack_required''
     else io_bind (io_res (operationStem H operationId)) (\<lambda>stem.
     io_bind (io_get (\<lambda>s. s)) (\<lambda>s.
     io_bind (io_res (readTombstone H (file_at s (tombstone_path stem)))) (\<lambda>tomb.
     io_bind (io_res (tombstone_terminal_check U H (file_at s (terminal_path stem)) tomb)) (\<lambda>_.
     io_bind (io_res (tombstone_log_check U H (file_at s (log_path stem)) operationId tomb)) (\<lambda>_.
     io_bind (purge_files (purge_paths stem) [] 0) (\<lambda>(deleted, bytes).
       io_ret \<lparr>pg_operationId = tb_operationId tomb, pg_requestDigest = tb_requestDigest tomb,
         pg_deleted = deleted, pg_deletedBytes = bytes\<rparr>)))))))"

section \<open>The snapshot cache\<close>

record journal_snapshot =
  sn_lastEventDigest :: string
  sn_state :: cjson

definition refreshSnapshot :: "url_parser \<Rightarrow> keyed_hash \<Rightarrow> string \<Rightarrow> journal_snapshot io" where
  "refreshSnapshot U H operationId = io_bind (io_res (lift_check (assertOperationId operationId))) (\<lambda>_.
     io_bind (io_res (operationStem H operationId)) (\<lambda>stem.
     io_bind (io_get (loadLocked U H stem operationId None)) (\<lambda>r. io_bind (io_res r) (\<lambda>l.
     io_bind (io_res (jsonRoundTrip (enc_state (ld_state l)))) (\<lambda>state.
     io_bind (mutateQuotaTrackedState (record_mutation (snapshot_path stem)
        (writeAuthenticatedAtomic H (snapshot_path stem) [(''schemaVersion'', CStr OPERATION_SCHEMA_VERSION),
           (''lastEventDigest'', CStr (ld_lastEventDigest l)), (''state'', state)]
           SNAPSHOT_DOMAIN ''snapshotDigest'' True)) no_preflight) (\<lambda>_.
       io_ret \<lparr>sn_lastEventDigest = ld_lastEventDigest l, sn_state = state\<rparr>))))))"

definition SNAPSHOT_KEYS :: "string list" where
  "SNAPSHOT_KEYS = [''schemaVersion'', ''lastEventDigest'', ''state'', ''snapshotDigest'']"

definition readSnapshot :: "url_parser \<Rightarrow> keyed_hash \<Rightarrow> string \<Rightarrow> jstore \<Rightarrow> journal_snapshot jres" where
  "readSnapshot U H operationId s = bind_res (lift_check (assertOperationId operationId)) (\<lambda>_.
     bind_res (operationStem H operationId) (\<lambda>stem.
     bind_res (readAuthenticatedFile H (file_at s (snapshot_path stem)) SNAPSHOT_DOMAIN ''snapshotDigest''
        ''journal_snapshot_corrupt'') (\<lambda>ps.
     if \<not> hasExactKeys ps SNAPSHOT_KEYS \<or> map_of ps ''schemaVersion'' \<noteq> Some (CStr OPERATION_SCHEMA_VERSION)
        \<or> \<not> isDigest (map_of ps ''lastEventDigest'')
     then journal_throw ''journal_snapshot_corrupt''
     else case (d_str (map_of ps ''lastEventDigest''), map_of ps ''state'') of
       (Some digest, Some (CObj qs)) \<Rightarrow>
         if map_of qs ''operationId'' \<noteq> Some (CStr operationId)
            \<or> (case d_int (map_of qs ''revision'') of None \<Rightarrow> True | Some r \<Rightarrow> \<not> is_safe_integer r)
         then journal_throw ''journal_snapshot_corrupt''
         else (case dec_state (CObj qs) of None \<Rightarrow> journal_throw ''journal_snapshot_corrupt''
           | Some st \<Rightarrow> if assertOperationStateShape U st \<noteq> None then journal_throw ''journal_snapshot_corrupt''
               else Inr \<lparr>sn_lastEventDigest = digest, sn_state = CObj qs\<rparr>)
     | _ \<Rightarrow> journal_throw ''journal_snapshot_corrupt'')))"

section \<open>Evidence digests\<close>

definition EVIDENCE_DOMAIN_PATTERN :: "string \<Rightarrow> bool" where
  "EVIDENCE_DOMAIN_PATTERN s \<longleftrightarrow> (case s of [] \<Rightarrow> False | c # r \<Rightarrow>
     CHR ''a'' \<le> c \<and> c \<le> CHR ''z'' \<and> length r \<le> 63 \<and>
     list_all (\<lambda>c. (CHR ''a'' \<le> c \<and> c \<le> CHR ''z'') \<or> is_digit c \<or> c = CHR ''-'') r)"

definition MAX_EVIDENCE_MATERIAL_BYTES :: nat where "MAX_EVIDENCE_MATERIAL_BYTES = 8 * 1024 * 1024"

definition evidenceDigest :: "keyed_hash \<Rightarrow> string \<Rightarrow> jsv \<Rightarrow> string jres" where
  "evidenceDigest H domain material = (if \<not> EVIDENCE_DOMAIN_PATTERN domain then journal_throw ''invalid_evidence_domain''
     else case canonicalJson material of
       Inl e \<Rightarrow> journal_throw ''invalid_evidence_material''
     | Inr t \<Rightarrow> if byteLength t > MAX_EVIDENCE_MATERIAL_BYTES then journal_throw ''evidence_material_too_large''
         else lift_js (hmacDigest H (''codex-chatgpt-control/operation-evidence/'' @ domain @ ''/v1'') material))"

end
