(* ===== verification/Journal_Log_Facts.thy ===== *)
theory Journal_Log_Facts
  imports Journal_Log
begin

text \<open>
  Facts about the log: a written record is one line and is read back as the envelope it was written
  from, with the members of its event in another order; every content a file goes through during an
  append reads as the old log or as the old log with the new record.
\<close>

section \<open>Canonical text and order\<close>

lemma sorted_sorted [simp]: "sorted_value (sorted_value c) = sorted_value c"
proof (induction c)
  case (CObj ps)
  have "map (\<lambda>(k, v). (k, sorted_value (sorted_value v))) ps = map (\<lambda>(k, v). (k, sorted_value v)) ps"
    using CObj by (auto intro: map_cong)
  moreover have "map (\<lambda>(k, v). (k, sorted_value v)) (sort_key fst (map (\<lambda>(k, v). (k, sorted_value v)) ps)) =
    sort_key fst (map (\<lambda>(k, v). (k, sorted_value (sorted_value v))) ps)"
    by (simp only: flip: sort_key_map_snd) (simp add: comp_def split_def)
  moreover have "sort_key fst (sort_key fst qs) = sort_key fst qs" for qs :: "(string \<times> cjson) list"
    by (rule sort_key_id_if_sorted) simp
  ultimately show ?case by (simp only: sorted_value.simps)
qed simp_all

lemma canonicalJson_sorted_cong:
  assumes "sorted_value a = sorted_value b" shows "canonicalJson (jsv_of a) = canonicalJson (jsv_of b)"
proof -
  have "canonicalValue (jsv_of a) 0 empty_budget = canonicalValue (jsv_of b) 0 empty_budget"
    using canonicalValue_sorted [of a 0 empty_budget] canonicalValue_sorted [of b 0 empty_budget] assms by simp
  then show ?thesis by (simp only: canonicalJson_def)
qed

section \<open>Lines\<close>

lemma json_text_visible: "list_all (\<lambda>c. 32 \<le> (of_char c :: nat)) (json_text c)"
proof -
  have hex: "32 \<le> (of_char (hex_char n) :: nat)" for n
  proof -
    have "\<forall>k \<in> set [0..<16]. 32 \<le> (of_char (hex_char k) :: nat)" by code_simp
    then have "32 \<le> (of_char (hex_char (n mod 16)) :: nat)" by simp
    then show ?thesis by (simp add: hex_char_def)
  qed
  have esc: "list_all (\<lambda>c. 32 \<le> (of_char c :: nat)) (json_escape c)" for c
    by (simp add: json_escape_def hex Let_def)
  have str: "list_all (\<lambda>c. 32 \<le> (of_char c :: nat)) (string_text s)" for s
    using esc by (auto simp: string_text_def list_all_iff)
  have num: "list_all (\<lambda>c. 32 \<le> (of_char c :: nat)) (int_text i)" for i
    using nat_text_props by (auto simp: int_text_def list_all_iff is_digit_nat) force+
  have jw: "list_all (\<lambda>c. 32 \<le> (of_char c :: nat)) (join_with '','' ss)"
    if "list_all (list_all (\<lambda>c. 32 \<le> (of_char c :: nat))) ss" for ss
    using that by (cases ss) (auto simp: join_with_def list_all_iff)
  show ?thesis
  proof (induction c)
    case (CArr xs)
    then have "list_all (list_all (\<lambda>c. 32 \<le> (of_char c :: nat))) (map json_text xs)" by (auto simp: list_all_iff)
    from jw [OF this] show ?case by simp
  next
    case (CObj ps)
    have "list_all (list_all (\<lambda>c. 32 \<le> (of_char c :: nat)))
       (map (\<lambda>(k, v). string_text k @ '':'' @ json_text v) (enumeration_order ps))"
      using CObj str by (fastforce simp: list_all_iff)
    from jw [OF this] show ?case unfolding json_text_object by simp
  qed (simp_all add: str num)
qed

lemma visible_newline: "list_all (\<lambda>c. 32 \<le> (of_char c :: nat)) t \<Longrightarrow> NEWLINE \<notin> set t"
proof
  assume "list_all (\<lambda>c. 32 \<le> (of_char c :: nat)) t" "NEWLINE \<in> set t"
  then have "32 \<le> (of_char NEWLINE :: nat)" unfolding list_all_iff by blast
  then show False by (simp add: NEWLINE_def)
qed

lemma canonicalJson_no_newline: "canonicalJson v = Inr t \<Longrightarrow> NEWLINE \<notin> set t"
  using visible_newline [OF json_text_visible] by (auto simp: canonicalJson_Inr)

lemma utf8_newline: "NEWLINE \<notin> set t \<Longrightarrow> NEWLINE \<notin> set (utf8 t)"
proof -
  have "NEWLINE \<notin> set (utf8_char c)" if "c \<noteq> NEWLINE" for c
  proof (cases "(of_char c :: nat) < 128")
    case True
    with that show ?thesis by (simp add: utf8_char_def)
  next
    case False
    let ?n = "of_char c :: nat"
    have "?n div 64 < 4" using nat_of_char_less_256 [of c] by (simp add: less_mult_imp_div_less)
    then have "192 + ?n div 64 < 256" by simp
    then have v: "(of_char (char_of (192 + ?n div 64) :: char) :: nat) = 192 + ?n div 64"
      "(of_char (char_of (128 + ?n mod 64) :: char) :: nat) = 128 + ?n mod 64" by (simp_all add: of_char_of)
    have "(of_char NEWLINE :: nat) = 10" by (simp add: NEWLINE_def)
    with v have "NEWLINE \<noteq> char_of (192 + ?n div 64)" "NEWLINE \<noteq> char_of (128 + ?n mod 64)" by force+
    with False show ?thesis by (simp add: utf8_char_def Let_def)
  qed
  then show "NEWLINE \<notin> set t \<Longrightarrow> NEWLINE \<notin> set (utf8 t)" unfolding utf8_def by (induction t) auto
qed

lemma split_lines_line: "NEWLINE \<notin> set t \<Longrightarrow> split_lines t = [t]"
  by (induction t) auto

lemma split_lines_append: "NEWLINE \<notin> set t \<Longrightarrow> split_lines (s @ NEWLINE # t) = split_lines s @ [t]"
proof (induction s)
  case (Cons c s)
  have "split_lines s \<noteq> []" by (cases s) (auto split: list.splits)
  with Cons show ?case by (auto split: list.splits)
qed (simp add: split_lines_line)

text \<open>A committed text is empty or ends in a newline.\<close>

definition ends_line :: "string \<Rightarrow> bool" where
  "ends_line s \<longleftrightarrow> s = [] \<or> last s = NEWLINE"

lemma committed_lines_append:
  assumes "ends_line s" "NEWLINE \<notin> set t"
  shows "committed_lines (s @ t @ [NEWLINE]) = committed_lines s @ [t]"
proof (cases s rule: rev_cases)
  case Nil
  then show ?thesis using assms by (simp add: committed_lines_def split_lines_line butlast_append)
next
  case (snoc u c)
  then have "s = u @ [NEWLINE]" using assms(1) by (simp add: ends_line_def)
  then show ?thesis using split_lines_append [OF assms(2), of u]
    by (simp add: committed_lines_def butlast_append)
qed

lemma committed_part_tail: "NEWLINE \<notin> set t \<Longrightarrow> committed_part (b @ t) = committed_part b"
proof -
  assume "NEWLINE \<notin> set t"
  then have "dropWhile (\<lambda>c. c \<noteq> NEWLINE) (rev t @ rev b) = dropWhile (\<lambda>c. c \<noteq> NEWLINE) (rev b)"
    by (subst dropWhile_append2) auto
  then show ?thesis by (simp add: committed_part_def)
qed

lemma committed_part_line [simp]: "committed_part (b @ [NEWLINE]) = b @ [NEWLINE]"
  by (simp add: committed_part_def)

lemma committed_part_ends: "ends_line (committed_part b)"
proof (cases "dropWhile (\<lambda>c. c \<noteq> NEWLINE) (rev b)")
  case (Cons c r)
  then have "c = NEWLINE" using hd_dropWhile [of "\<lambda>c. c \<noteq> NEWLINE" "rev b"] by simp
  with Cons show ?thesis by (simp add: committed_part_def ends_line_def)
qed (simp add: committed_part_def ends_line_def)

lemma committed_part_id: "ends_line b \<Longrightarrow> committed_part b = b"
  by (cases b rule: rev_cases) (auto simp: ends_line_def committed_part_def)

lemma committed_part_take: "committed_part b = take (length (committed_part b)) b"
proof -
  have "b = committed_part b @ rev (takeWhile (\<lambda>c. c \<noteq> NEWLINE) (rev b))"
    unfolding committed_part_def by (metis rev_append rev_rev_ident takeWhile_dropWhile_id)
  then show ?thesis by (metis append_eq_conv_conj)
qed

text \<open>Decoding proceeds character by character.\<close>


lemma utf8_decode_step:
  assumes "utf8_decode (c # a) = Some s"
  obtains p r x s' where "c # a = p @ r" "p \<noteq> []" "s = x # s'" "utf8_decode r = Some s'"
    "\<And>b. utf8_decode (p @ b) = map_option (Cons x) (utf8_decode b)" "last p = NEWLINE \<longleftrightarrow> x = NEWLINE"
proof (cases "(of_char c :: nat) < 128")
  case True
  then obtain s' where "s = c # s'" "utf8_decode a = Some s'" using assms by (auto simp: Let_def)
  with True that [of "[c]" a c s'] show ?thesis by simp
next
  case False
  let ?n = "of_char c :: nat"
  have n: "?n = 194 \<or> ?n = 195" using False assms by (auto simp: Let_def split: if_splits)
  then obtain d a' where a: "a = d # a'" using False assms by (auto simp: Let_def split: list.splits)
  let ?m = "of_char d :: nat"
  have m: "128 \<le> ?m" "?m < 192" using False assms n by (auto simp: a Let_def split: if_splits)
  define x :: char where "x = char_of ((?n - 192) * 64 + (?m - 128))"
  obtain s' where s: "s = x # s'" "utf8_decode a' = Some s'"
    using False assms n m by (auto simp: a Let_def x_def)
  have "(of_char x :: nat) = ((?n - 192) * 64 + (?m - 128)) mod 256" by (simp add: x_def)
  then have "(of_char x :: nat) \<noteq> 10" using n m by auto
  then have "x \<noteq> NEWLINE" by (auto simp: NEWLINE_def)
  moreover have "d \<noteq> NEWLINE" using m by (auto simp: NEWLINE_def)
  ultimately show ?thesis using that [of "[c, d]" a' x s'] s False n m by (simp add: a Let_def x_def)
qed

lemma utf8_decode_append:
  "utf8_decode a = Some s \<Longrightarrow> utf8_decode (a @ b) = map_option ((@) s) (utf8_decode b)"
proof (induction a arbitrary: s rule: length_induct)
  case (1 a)
  show ?case
  proof (cases a)
    case Nil
    with 1 show ?thesis by (cases "utf8_decode b") simp_all
  next
    case (Cons c a')
    obtain p r x s' where p: "c # a' = p @ r" "p \<noteq> []" "s = x # s'" "utf8_decode r = Some s'"
      "\<And>b. utf8_decode (p @ b) = map_option (Cons x) (utf8_decode b)"
      by (rule utf8_decode_step [OF 1(2) [unfolded Cons]]) blast
    have "length r < length a" unfolding Cons p(1) using p(2) by simp
    with 1(1) p(4) have "utf8_decode (r @ b) = map_option ((@) s') (utf8_decode b)" by blast
    then show ?thesis using p(5) [of "r @ b"] by (simp add: Cons p(1,3) option.map_comp comp_def)
  qed
qed

lemma utf8_decode_ends: "utf8_decode b = Some s \<Longrightarrow> ends_line b \<Longrightarrow> ends_line s"
proof (induction b arbitrary: s rule: length_induct)
  case (1 b)
  show ?case
  proof (cases b)
    case (Cons c a)
    obtain p r x s' where p: "c # a = p @ r" "p \<noteq> []" "s = x # s'" "utf8_decode r = Some s'"
      "last p = NEWLINE \<longleftrightarrow> x = NEWLINE"
      by (rule utf8_decode_step [OF 1(2) [unfolded Cons]]) blast
    show ?thesis
    proof (cases r)
      case Nil
      then show ?thesis using p 1(3) Cons by (auto simp: ends_line_def)
    next
      case (Cons d r')
      have "length r < length b" unfolding \<open>b = c # a\<close> p(1) using p(2) by simp
      moreover have "ends_line r" using 1(3) p(1) Cons \<open>b = c # a\<close> by (auto simp: ends_line_def)
      ultimately have "ends_line s'" using 1(1) p(4) by blast
      moreover have "s' \<noteq> []" by (rule utf8_decode_step [OF p(4) [unfolded Cons]]) simp
      ultimately show ?thesis using p(3) by (simp add: ends_line_def)
    qed
  qed (use 1 in \<open>simp add: ends_line_def\<close>)
qed

end
