(* ===== verification/Journal_Records.thy ===== *)
theory Journal_Records
  imports Journal_Log_Facts
begin

text \<open>
  A record of the log and its line: the line of an envelope is read back as the envelope, with the
  members of its event reordered, and the chain of digests does not see the reordering.
\<close>

section \<open>The parsed value of a line\<close>

definition envelope_value :: "envelope \<Rightarrow> cjson" where
  "envelope_value e = CObj
     [(''schemaVersion'', CStr OPERATION_EVENT_SCHEMA_VERSION), (''revision'', CNum (int (en_revision e))),
      (''previousEventDigest'', CStr (en_previousEventDigest e)), (''eventDigest'', CStr (en_eventDigest e)),
      (''event'', en_event e)]"

definition material_value :: "nat \<Rightarrow> string \<Rightarrow> cjson \<Rightarrow> cjson" where
  "material_value revision previous event = CObj
     [(''schemaVersion'', CStr OPERATION_EVENT_SCHEMA_VERSION), (''revision'', CNum (int revision)),
      (''previousEventDigest'', CStr previous), (''event'', event)]"

lemma enc_envelope_value: "enc_envelope e = jsv_of (envelope_value e)"
  by (simp add: enc_envelope_def envelope_value_def plain_object_def)

lemma event_material_value: "event_material r p ev = jsv_of (material_value r p ev)"
  by (simp add: event_material_def material_value_def plain_object_def)

lemma distinct_envelope_value [simp]: "distinct_keys (envelope_value e) \<longleftrightarrow> distinct_keys (en_event e)"
  by (simp add: envelope_value_def)

lemma distinct_material_value [simp]: "distinct_keys (material_value r p ev) \<longleftrightarrow> distinct_keys ev"
  by (simp add: material_value_def)

text \<open>What the file holds of an envelope.\<close>

definition stored :: "cjson \<Rightarrow> cjson" where
  "stored c = printed (sorted_value c)"

lemma sorted_stored [simp]: "sorted_value (stored c) = sorted_value c"
  by (simp add: stored_def)

lemma stored_reads [simp]: "dec_event (stored c) = dec_event c" "event_kind (stored c) = event_kind c"
  by (simp_all add: stored_def dec_event_reordered event_kind_reordered)

lemma sorted_material:
  "sorted_value ev = sorted_value ev' \<Longrightarrow> sorted_value (material_value r p ev) = sorted_value (material_value r p ev')"
  by (simp add: material_value_def)

lemma digest_sorted_cong:
  assumes "sorted_value ev = sorted_value ev'"
  shows "journalEventDigest H r p ev = journalEventDigest H r p ev'"
  using canonicalJson_sorted_cong [OF sorted_material [OF assms]]
  by (simp add: journalEventDigest_def hmacDigest_def event_material_value)

context reordering
begin

lemma hasExactKeys_re:
  assumes "re (CObj ps) = CObj qs" shows "hasExactKeys qs ks = hasExactKeys ps ks"
  using assms re_object [of ps] by (auto simp: hasExactKeys_def list_all_iff)

lemma isDigest_re: "isDigest (map_option re x) = isDigest x"
proof (cases x)
  case (Some j)
  show ?thesis
  proof (cases j)
    case (CObj ps)
    with re_object [of ps] Some show ?thesis by (auto simp: isDigest_def)
  qed (simp_all add: Some isDigest_def re_scalar re_array)
qed (simp add: isDigest_def)

lemma re_eq_scalar: "re j = CStr s \<longleftrightarrow> j = CStr s" "re j = CNum i \<longleftrightarrow> j = CNum i"
proof -
  have "(re j = CStr s \<longleftrightarrow> j = CStr s) \<and> (re j = CNum i \<longleftrightarrow> j = CNum i)"
  proof (cases j)
    case (CObj ps)
    with re_object [of ps] show ?thesis by auto
  qed (simp_all add: re_scalar re_array)
  then show "re j = CStr s \<longleftrightarrow> j = CStr s" "re j = CNum i \<longleftrightarrow> j = CNum i" by simp_all
qed

lemma assertEnvelope_re:
  "assertEnvelope (re v) n = (case assertEnvelope v n of Inl e \<Rightarrow> Inl e
     | Inr e \<Rightarrow> Inr (e\<lparr>en_event := re (en_event e)\<rparr>))"
proof (cases v)
  case (CObj ps)
  obtain qs where q: "re (CObj ps) = CObj qs" "\<And>k. map_of qs k = map_option re (map_of ps k)"
    using re_object [of ps] by blast
  show ?thesis
    unfolding CObj q(1)
    by (simp add: assertEnvelope_def q(2) hasExactKeys_re [OF q(1)] isDigest_re re_eq_scalar d_scalar_re
        event_kind_re journal_throw_def split: option.splits)
qed (simp_all add: assertEnvelope_def re_scalar re_array journal_throw_def)

end

text \<open>An envelope that may be written: it carries digests and a typed event.\<close>

definition wf_envelope :: "envelope \<Rightarrow> bool" where
  "wf_envelope e \<longleftrightarrow> DIGEST_PATTERN (en_previousEventDigest e) \<and> DIGEST_PATTERN (en_eventDigest e) \<and>
     event_kind (en_event e) \<noteq> None \<and> distinct_keys (en_event e)"

lemma assertEnvelope_value:
  "wf_envelope e \<Longrightarrow> assertEnvelope (envelope_value e) (en_revision e) = Inr e"
  by (auto simp: assertEnvelope_def envelope_value_def hasExactKeys_def ENVELOPE_KEYS_def isDigest_def
      wf_envelope_def d_str_def split: option.splits)

lemma envelope_line:
  assumes "wf_envelope e" "canonicalJson (enc_envelope e) = Inr t"
  obtains v where "json_parse t = Some v"
    "assertEnvelope v (en_revision e) = Inr (e\<lparr>en_event := stored (en_event e)\<rparr>)"
proof -
  have "distinct_props (enc_envelope e)" using assms(1) by (simp add: enc_envelope_value wf_envelope_def)
  then obtain c b where c: "canonicalValue (enc_envelope e) 0 empty_budget = Inr (c, b)"
    "json_parse t = Some (printed c)"
    by (rule canonicalJson_parse [OF assms(2), of "[]"]) simp_all
  have "c = sorted_value (envelope_value e)" using jsv_of_result c(1) by (simp add: enc_envelope_value)
  with c(2) that show ?thesis using assertEnvelope_value [OF assms(1)]
    by (simp add: stored_def printed.assertEnvelope_re sorted.assertEnvelope_re)
qed

lemma assertEnvelope_Inr:
  assumes "assertEnvelope v n = Inr e"
  obtains ps where "v = CObj ps" "map_of ps ''event'' = Some (en_event e)" "en_revision e = n"
    "DIGEST_PATTERN (en_previousEventDigest e)" "DIGEST_PATTERN (en_eventDigest e)" "event_kind (en_event e) \<noteq> None"
  using assms
  by (auto simp: assertEnvelope_def journal_throw_def isDigest_def d_str_def split: cjson.splits if_splits option.splits)

section \<open>Chains\<close>

text \<open>A parsed object has every member once.\<close>

lemma object_members_distinct:
  assumes "list_all (\<lambda>(k, v). distinct_keys v) ps" shows "distinct_keys (object_of ps)"
proof -
  have "distinct (map fst ob) \<and> list_all (\<lambda>(k, v). distinct_keys v) ob \<Longrightarrow>
    distinct_keys (CObj (foldl (\<lambda>ob (k, v). obj_set ob k v) ob ps))" for ob
    using assms
  proof (induction ps arbitrary: ob)
    case (Cons p ps)
    obtain k v where p: "p = (k, v)" by fastforce
    have "set (obj_set ob k v) \<subseteq> insert (k, v) (set ob)"
      unfolding obj_set_def by (induction ob) auto
    moreover have "distinct (map fst (obj_set ob k v))"
      using Cons.prems by (simp add: obj_set_def distinct_update)
    ultimately have "distinct (map fst (obj_set ob k v)) \<and> list_all (\<lambda>(k, v). distinct_keys v) (obj_set ob k v)"
      using Cons.prems by (auto simp: p list_all_iff)
    then show ?case using Cons by (simp add: p)
  qed simp
  then show ?thesis by (simp add: object_of_def)
qed

lemma read_distinct:
  "read_value n s = Some (c, r) \<Longrightarrow> distinct_keys c"
  "read_elements n s = Some (cs, r) \<Longrightarrow> list_all distinct_keys cs"
  "read_members n s = Some (ps, r) \<Longrightarrow> list_all (\<lambda>(k, v). distinct_keys v) ps"
proof (induction n s and n s and n s arbitrary: c r and cs r and ps r
    rule: read_value_read_elements_read_members.induct)
  case (2 n s0)
  then show ?case
    by (auto simp: read_scalar_def read_word_def object_members_distinct
        split: list.splits if_splits option.splits)
next
  case (4 n s0)
  then show ?case by (auto split: list.splits if_splits option.splits)
next
  case (6 n s0)
  then show ?case by (auto split: list.splits if_splits option.splits)
qed simp_all

lemma json_parse_distinct: "json_parse s = Some c \<Longrightarrow> distinct_keys c"
  by (auto simp: json_parse_def simp del: read_value.simps dest: read_distinct(1) split: option.splits if_splits)

text \<open>The envelopes of a well-chained log, from the predecessor's digest and index.\<close>

fun log_chain :: "keyed_hash \<Rightarrow> string \<Rightarrow> nat \<Rightarrow> envelope list \<Rightarrow> bool" where
  "log_chain H p i [] \<longleftrightarrow> True"
| "log_chain H p i (e # es) \<longleftrightarrow> wf_envelope e \<and> en_revision e = i + 1 \<and> en_previousEventDigest e = p \<and>
     journalEventDigest H (i + 1) p (en_event e) = Inr (en_eventDigest e) \<and> log_chain H (en_eventDigest e) (i + 1) es"

text \<open>The digest after a list of envelopes.\<close>

fun last_digest :: "string \<Rightarrow> envelope list \<Rightarrow> string" where
  "last_digest p [] = p"
| "last_digest p (e # es) = last_digest (en_eventDigest e) es"

lemma last_digest_append [simp]: "last_digest p (es @ fs) = last_digest (last_digest p es) fs"
  by (induction es arbitrary: p) simp_all

lemma last_digest_last: "es \<noteq> [] \<Longrightarrow> last_digest p es = en_eventDigest (last es)"
  by (induction es arbitrary: p) auto

lemma log_chain_append [simp]:
  "log_chain H p i (es @ fs) \<longleftrightarrow> log_chain H p i es \<and> log_chain H (last_digest p es) (i + length es) fs"
  by (induction es arbitrary: p i) auto

lemma lift_js_Inr [simp]: "lift_js r = Inr x \<longleftrightarrow> r = Inr x"
  by (cases r) (simp_all add: lift_js_def)

lemma lift_js_simps [simp]: "lift_js (Inr x) = Inr x" "lift_js (Inl e) = Inl (Js_error e)"
  by (simp_all add: lift_js_def)

lemma readLines_chain: "readLines H p i ls = Inr es \<Longrightarrow> log_chain H p i es \<and> length es = length ls"
proof (induction ls arbitrary: p i es)
  case (Cons l ls)
  obtain v e d es' where e: "json_parse l = Some v" "assertEnvelope v (i + 1) = Inr e" "en_previousEventDigest e = p"
    "journalEventDigest H (en_revision e) (en_previousEventDigest e) (en_event e) = Inr d" "en_eventDigest e = d"
    "readLines H (en_eventDigest e) (i + 1) ls = Inr es'" "es = e # es'"
    using Cons.prems by (auto simp: journal_throw_def bind_res_Inr split: if_splits option.splits)
  obtain ps where ps: "v = CObj ps" "map_of ps ''event'' = Some (en_event e)" "en_revision e = i + 1"
    "DIGEST_PATTERN (en_previousEventDigest e)" "DIGEST_PATTERN (en_eventDigest e)" "event_kind (en_event e) \<noteq> None"
    by (rule assertEnvelope_Inr [OF e(2)])
  have "distinct_keys (en_event e)"
    using json_parse_distinct [OF e(1)] ps(1) map_of_SomeD [OF ps(2)] by (auto simp: list_all_iff)
  with e ps Cons.IH [OF e(6)] show ?case by (simp add: wf_envelope_def)
qed simp

lemma readLines_append:
  "readLines H p i (ls @ ms) = bind_res (readLines H p i ls) (\<lambda>es.
     bind_res (readLines H (last_digest p es) (i + length ls) ms) (\<lambda>fs. Inr (es @ fs)))"
proof (induction ls arbitrary: p i)
  case Nil
  show ?case by (cases "readLines H p i ms") simp_all
next
  case (Cons l ls)
  show ?case
    by (auto simp: Cons.IH bind_res_def journal_throw_def split: option.splits sum.splits)
qed

text \<open>The line of a new record extends the chain.\<close>

lemma readLines_line:
  assumes "wf_envelope e" "canonicalJson (enc_envelope e) = Inr t" "en_revision e = i + 1"
    "en_previousEventDigest e = p" "journalEventDigest H (i + 1) p (en_event e) = Inr (en_eventDigest e)"
  shows "readLines H p i [t] = Inr [e\<lparr>en_event := stored (en_event e)\<rparr>]"
proof -
  obtain v where v: "json_parse t = Some v"
    "assertEnvelope v (i + 1) = Inr (e\<lparr>en_event := stored (en_event e)\<rparr>)"
    using envelope_line [OF assms(1,2)] assms(3) by auto
  have "t \<noteq> []" using v(1) by (auto simp: json_parse_def skip_space_def)
  moreover have "journalEventDigest H (i + 1) p (stored (en_event e)) = Inr (en_eventDigest e)"
    using digest_sorted_cong [OF sorted_stored] assms(5) by metis
  ultimately show ?thesis using v assms(3,4) by simp
qed

end
