(* ===== verification/Journal_Effects.thy ===== *)
theory Journal_Effects
  imports Journal Journal_Records
begin

text \<open>
  Reasoning about effects: which files the durable stores of an operation hold. The quota counter is
  written around every mutation; what is loaded depends on the files alone.
\<close>

section \<open>Traces\<close>

lemma store_after_simps [simp]: "store_after s [] = s" "store_after s (tr @ [t]) = t" "store_after s [t] = t"
  by (simp_all add: store_after_def)

lemma store_after_append [simp]: "store_after s (tr @ tr') = store_after (store_after s tr) tr'"
  by (simp add: store_after_def)

lemma store_after_in: "store_after s tr = s \<or> store_after s tr \<in> set tr"
  by (simp add: store_after_def)

lemma io_simps [simp]:
  "io_bind (io_ret x) f s = f x s" "io_bind (io_get g) f s = f (g s) s"
  "io_res r s = ([], r)" "io_ret x s = ([], Inr x)" "io_throw code s = ([], journal_throw code)"
  "io_get g s = ([], Inr (g s))" "io_put h s = ([h s], Inr ())"
  by (simp_all add: fun_eq_iff io_bind_def io_ret_def io_get_def io_res_def io_throw_def io_put_def)

lemma io_bind_res: "io_bind (io_res r) f s = (case r of Inl e \<Rightarrow> ([], Inl e) | Inr x \<Rightarrow> f x s)"
  by (simp add: io_bind_def split: sum.split)

lemma io_bind_Inl: "m s = (tr, Inl e) \<Longrightarrow> io_bind m f s = (tr, Inl e)"
  by (simp add: io_bind_def)

lemma io_bind_Inr: "m s = (tr, Inr x) \<Longrightarrow> f x (store_after s tr) = (tr', r) \<Longrightarrow> io_bind m f s = (tr @ tr', r)"
  by (simp add: io_bind_def)

lemma io_bind_cases:
  assumes "io_bind m f s = (tr, r)"
  obtains (fails) e where "m s = (tr, Inl e)" "r = Inl e"
  | (continues) tr1 x tr2 where "m s = (tr1, Inr x)" "f x (store_after s tr1) = (tr2, r)" "tr = tr1 @ tr2"
  using assms by (auto simp: io_bind_def split: prod.splits sum.splits)

section \<open>Invariants of effects\<close>

text \<open>Every durable store of the effect satisfies \<open>P\<close> if the store before it does.\<close>

definition io_keeps :: "(jstore \<Rightarrow> bool) \<Rightarrow> 'a io \<Rightarrow> bool" where
  "io_keeps P m \<longleftrightarrow> (\<forall>s. P s \<longrightarrow> (\<forall>t \<in> set (fst (m s)). P t))"

named_theorems keeps "effects that keep an invariant"

lemma keeps_after: "io_keeps P m \<Longrightarrow> P s \<Longrightarrow> m s = (tr, r) \<Longrightarrow> P (store_after s tr)"
  using store_after_in [of s tr] by (auto simp: io_keeps_def)

lemma keeps_pure [keeps]: "io_keeps P (io_res r)" "io_keeps P (io_ret x)" "io_keeps P (io_get g)" "io_keeps P (io_throw c)"
  by (simp_all add: io_keeps_def)

lemma keeps_put [keeps]: "(\<And>s. P s \<Longrightarrow> P (h s)) \<Longrightarrow> io_keeps P (io_put h)"
  by (simp add: io_keeps_def)

lemma keeps_bind [keeps]:
  assumes "io_keeps P m" "\<And>x. io_keeps P (f x)" shows "io_keeps P (io_bind m f)"
  unfolding io_keeps_def
proof (intro allI impI ballI)
  fix s t assume s: "P s" and t: "t \<in> set (fst (io_bind m f s))"
  obtain tr r where b: "io_bind m f s = (tr, r)" by fastforce
  then show "P t"
  proof (cases rule: io_bind_cases)
    case (fails e)
    then have "t \<in> set (fst (m s))" using t b by simp
    then show ?thesis using assms(1) s unfolding io_keeps_def by blast
  next
    case (continues tr1 x tr2)
    then have "t \<in> set (fst (m s)) \<or> t \<in> set (fst (f x (store_after s tr1)))" using t b by simp
    moreover have "P (store_after s tr1)" by (rule keeps_after [OF assms(1) s continues(1)])
    ultimately show ?thesis using assms s unfolding io_keeps_def by blast
  qed
qed

lemma keeps_catch [keeps]:
  assumes "io_keeps P m" "\<And>x. io_keeps P (f x)" shows "io_keeps P (io_catch m f)"
  unfolding io_keeps_def
proof (intro allI impI ballI)
  fix s t assume s: "P s" and t: "t \<in> set (fst (io_catch m f s))"
  obtain tr r where m: "m s = (tr, r)" by fastforce
  have "t \<in> set (fst (m s)) \<or> (\<exists>e. t \<in> set (fst (f e (store_after s tr))))"
    using t by (auto simp: io_catch_def m split: sum.splits prod.splits) (metis fst_conv)
  moreover have "P (store_after s tr)" by (rule keeps_after [OF assms(1) s m])
  ultimately show "P t" using assms s unfolding io_keeps_def by blast
qed

lemma keeps_branches [keeps]:
  "io_keeps P a \<Longrightarrow> io_keeps P b \<Longrightarrow> io_keeps P (if c then a else b)"
  "io_keeps P a \<Longrightarrow> (\<And>x. io_keeps P (g x)) \<Longrightarrow> io_keeps P (case y of None \<Rightarrow> a | Some x \<Rightarrow> g x)"
  "(\<And>x y. io_keeps P (h x y)) \<Longrightarrow> io_keeps P (case p of (x, y) \<Rightarrow> h x y)"
  "io_keeps P (k v) \<Longrightarrow> io_keeps P (let x = v in k x)"
  by (auto split: option.split prod.split)

text \<open>The files an effect sees and leaves do not depend on the quota counter.\<close>

definition same_files :: "jstore \<Rightarrow> jstore \<Rightarrow> bool" where
  "same_files s t \<longleftrightarrow> js_files s = js_files t"

definition quota_blind :: "'a io \<Rightarrow> bool" where
  "quota_blind m \<longleftrightarrow> (\<forall>s t. js_files s = js_files t \<longrightarrow>
     map js_files (fst (m s)) = map js_files (fst (m t)) \<and> snd (m s) = snd (m t))"

lemma quota_keeps_files [keeps]:
  "io_keeps (\<lambda>s. js_files s = fs) (writeQuotaCounter c)"
  "io_keeps (\<lambda>s. js_files s = fs) (rebuildQuotaCounter r)"
  "io_keeps (\<lambda>s. js_files s = fs) loadCurrentQuotaCounter"
  "io_keeps (\<lambda>s. js_files s = fs) (rebuild_after_failure d)"
proof -
  show w: "io_keeps (\<lambda>s. js_files s = fs) (writeQuotaCounter c)" for c
    unfolding writeQuotaCounter_def by (rule keeps_put) simp
  show r: "io_keeps (\<lambda>s. js_files s = fs) (rebuildQuotaCounter r)" for r
    unfolding rebuildQuotaCounter_def by (intro keeps w)
  show "io_keeps (\<lambda>s. js_files s = fs) loadCurrentQuotaCounter"
    unfolding loadCurrentQuotaCounter_def by (intro keeps r)
  show "io_keeps (\<lambda>s. js_files s = fs) (rebuild_after_failure d)"
    unfolding rebuild_after_failure_def by (intro keeps r)
qed

text \<open>An effect that leaves the files alone.\<close>

definition quiet :: "'a io \<Rightarrow> bool" where
  "quiet m \<longleftrightarrow> (\<forall>s. \<forall>t \<in> set (fst (m s)). js_files t = js_files s)"

lemma quietI: "(\<And>fs. io_keeps (\<lambda>s. js_files s = fs) m) \<Longrightarrow> quiet m"
  unfolding quiet_def io_keeps_def by blast

lemma quiet_after: "quiet m \<Longrightarrow> m s = (tr, r) \<Longrightarrow> js_files (store_after s tr) = js_files s"
  using store_after_in [of s tr] unfolding quiet_def by (metis fst_conv)

lemma quiet_quota: "quiet (writeQuotaCounter c)" "quiet (rebuildQuotaCounter r)" "quiet loadCurrentQuotaCounter"
  "quiet (rebuild_after_failure d)"
  by (auto intro!: quietI quota_keeps_files)

text \<open>The file systems an effect goes through, the first included.\<close>

definition files_seen :: "'a io \<Rightarrow> jstore \<Rightarrow> string obj set" where
  "files_seen m s = insert (js_files s) (js_files ` set (fst (m s)))"

lemma files_seen_after: "js_files (store_after s (fst (m s))) \<in> files_seen m s"
  using store_after_in [of s "fst (m s)"] by (auto simp: files_seen_def)

lemma blind_seen:
  assumes "quota_blind m" "js_files s = js_files t"
  shows "files_seen m s = files_seen m t" "snd (m s) = snd (m t)"
    "js_files (store_after s (fst (m s))) = js_files (store_after t (fst (m t)))"
proof -
  have m: "map js_files (fst (m s)) = map js_files (fst (m t))" and r: "snd (m s) = snd (m t)"
    using assms unfolding quota_blind_def by blast+
  show "snd (m s) = snd (m t)" by (rule r)
  have "js_files ` set (fst (m s)) = js_files ` set (fst (m t))" using m by (metis list.set_map)
  then show "files_seen m s = files_seen m t" by (simp add: files_seen_def assms(2))
  have "fst (m s) = [] \<longleftrightarrow> fst (m t) = []" using m by (metis map_is_Nil_conv)
  then show "js_files (store_after s (fst (m s))) = js_files (store_after t (fst (m t)))"
    using m assms(2) by (simp add: store_after_def) (metis last_map)
qed

lemma bind_quiet_after:
  assumes "\<And>x. quiet (f x)" "io_bind m f s = (tr, r)"
  shows "\<forall>t \<in> set tr. js_files t \<in> files_seen m s"
    "js_files (store_after s tr) = js_files (store_after s (fst (m s)))"
    "r = Inr v \<Longrightarrow> \<exists>x s'. snd (m s) = Inr x \<and> snd (f x s') = Inr v"
proof -
  have "(\<forall>t \<in> set tr. js_files t \<in> files_seen m s) \<and>
    js_files (store_after s tr) = js_files (store_after s (fst (m s))) \<and>
    (r = Inr v \<longrightarrow> (\<exists>x s'. snd (m s) = Inr x \<and> snd (f x s') = Inr v))"
    using assms(2)
  proof (cases rule: io_bind_cases)
    case (fails e)
    then show ?thesis by (auto simp: files_seen_def)
  next
    case (continues tr1 x tr2)
    have "js_files t = js_files (store_after s tr1)" if "t \<in> set tr2" for t
      using assms(1) that continues(2) unfolding quiet_def by (metis fst_conv)
    moreover have "js_files (store_after s tr1) \<in> files_seen m s" using files_seen_after [of s m] continues(1) by simp
    moreover have "js_files (store_after (store_after s tr1) tr2) = js_files (store_after s tr1)"
      by (rule quiet_after [OF assms(1) continues(2)])
    moreover have "\<exists>s'. snd (f x s') = r" using continues(2) by (metis snd_conv)
    ultimately show ?thesis using continues by (auto simp: files_seen_def)
  qed
  then show "\<forall>t \<in> set tr. js_files t \<in> files_seen m s"
    "js_files (store_after s tr) = js_files (store_after s (fst (m s)))"
    "r = Inr v \<Longrightarrow> \<exists>x s'. snd (m s) = Inr x \<and> snd (f x s') = Inr v" by blast+
qed

text \<open>Around a mutation the files go through what the mutation makes of them, and through nothing else.\<close>

lemma account_files:
  assumes "account_mutation d m s = (tr, r)"
  shows "\<forall>t \<in> set tr. js_files t \<in> files_seen m s"
    "js_files (store_after s tr) = js_files (store_after s (fst (m s)))"
    "r = Inr v \<Longrightarrow> \<exists>b e. snd (m s) = Inr (v, b, e)"
proof -
  define f where "f = (\<lambda>(value :: 'a, byteDelta, entryDelta).
     io_bind (io_res (assertQuotaDelta byteDelta)) (\<lambda>_.
     io_bind (io_res (assertQuotaDelta entryDelta)) (\<lambda>_.
       let totalBytes = qc_totalBytes d + byteDelta; entryCount = qc_entryCount d + entryDelta in
       if \<not> is_safe_integer totalBytes \<or> totalBytes < 0 \<or> \<not> is_safe_integer entryCount \<or> entryCount < 0
       then io_throw ''journal_quota_counter_corrupt''
       else io_bind (io_res (nextQuotaRevision (qc_revision d))) (\<lambda>revision.
            io_bind (io_get js_stamp) (\<lambda>stamp.
            io_bind (writeQuotaCounter \<lparr>qc_revision = revision, qc_totalBytes = totalBytes,
               qc_entryCount = entryCount, qc_dirty = False, qc_directories = stamp\<rparr>) (\<lambda>_. io_ret value))))))"
  have b: "io_bind m f s = (tr, r)" using assms by (simp add: account_mutation_def f_def)
  have q: "quiet (f x)" for x unfolding f_def by (rule quietI) (intro keeps)
  have v: "w = v" if "snd (f (w, b, e) s') = Inr v" for w b e s'
    using that by (auto simp: f_def io_bind_res Let_def journal_throw_def writeQuotaCounter_def io_bind_def io_put_def
        split: sum.splits if_splits)
  show "\<forall>t \<in> set tr. js_files t \<in> files_seen m s"
    "js_files (store_after s tr) = js_files (store_after s (fst (m s)))"
    using bind_quiet_after(1,2) [OF q b] by blast+
  show "r = Inr v \<Longrightarrow> \<exists>b e. snd (m s) = Inr (v, b, e)"
    using bind_quiet_after(3) [OF q b] v by (metis prod_cases3)
qed

definition failing :: "'a io \<Rightarrow> bool" where
  "failing m \<longleftrightarrow> (\<forall>s v. snd (m s) \<noteq> Inr v)"

lemma catch_quiet_after:
  assumes "\<And>e. quiet (h e)" "\<And>e. failing (h e)" "io_catch m h s = (tr, r)"
  shows "\<forall>t \<in> set tr. js_files t \<in> files_seen m s"
    "js_files (store_after s tr) = js_files (store_after s (fst (m s)))"
    "r = Inr v \<Longrightarrow> snd (m s) = Inr v"
proof -
  obtain tr1 r1 where m: "m s = (tr1, r1)" by fastforce
  have "(\<forall>t \<in> set tr. js_files t \<in> files_seen m s) \<and>
    js_files (store_after s tr) = js_files (store_after s (fst (m s))) \<and> (r = Inr v \<longrightarrow> snd (m s) = Inr v)"
  proof (cases r1)
    case (Inr x)
    then show ?thesis using assms(3) m by (auto simp: io_catch_def files_seen_def)
  next
    case (Inl e)
    obtain tr2 r2 where h: "h e (store_after s tr1) = (tr2, r2)" by fastforce
    have t: "tr = tr1 @ tr2" "r = r2" using assms(3) by (simp_all add: io_catch_def m Inl h)
    have "js_files t = js_files (store_after s tr1)" if "t \<in> set tr2" for t
      using assms(1) that h unfolding quiet_def by (metis fst_conv)
    moreover have "js_files (store_after s tr1) \<in> files_seen m s" using files_seen_after [of s m] m by simp
    moreover have "js_files (store_after (store_after s tr1) tr2) = js_files (store_after s tr1)"
      by (rule quiet_after [OF assms(1) h])
    moreover have "r \<noteq> Inr v" using assms(2) h t(2) unfolding failing_def by (metis snd_conv)
    ultimately show ?thesis using t(1) m by (auto simp: files_seen_def)
  qed
  then show "\<forall>t \<in> set tr. js_files t \<in> files_seen m s"
    "js_files (store_after s tr) = js_files (store_after s (fst (m s)))"
    "r = Inr v \<Longrightarrow> snd (m s) = Inr v" by blast+
qed

lemma mutate_cases:
  assumes "mutateQuotaTrackedState m pre s = (tr, r)"
  obtains (refused) e where "\<forall>t \<in> set tr. js_files t = js_files s" "r = Inl e"
  | (mutated) d s1 tr1 tr2 where "\<forall>t \<in> set tr1. js_files t = js_files s" "js_files s1 = js_files s"
      "s1 = store_after s tr1" "tr = tr1 @ tr2" "qc_dirty d" "js_quota s1 = Some d"
      "io_catch (account_mutation d m) (\<lambda>e. io_bind (rebuild_after_failure d) (\<lambda>_. io_res (Inl e))) s1 = (tr2, r)"
  using assms unfolding mutateQuotaTrackedState_def
proof (cases rule: io_bind_cases)
  case (fails e)
  then show ?thesis using refused quiet_quota(3) unfolding quiet_def by (metis fst_conv)
next
  case (continues tr1 c tr2)
  let ?s = "store_after s tr1"
  have q: "\<forall>t \<in> set tr1. js_files t = js_files s" "js_files ?s = js_files s"
    using quiet_quota(3) continues(1) quiet_after [OF quiet_quota(3) continues(1)] unfolding quiet_def by (metis fst_conv)+
  show ?thesis
  proof (cases "pre c")
    case (Inl e)
    then have "tr2 = []" "r = Inl e" using continues(2) by (simp_all add: io_bind_res)
    then show ?thesis using continues(3) refused q by simp
  next
    case (Inr u)
    show ?thesis
    proof (cases "nextQuotaRevision (qc_revision c)")
      case (Inl e)
      then have "tr2 = []" "r = Inl e" using continues(2) by (simp_all add: io_bind_res Inr)
      then show ?thesis using continues(3) refused q by simp
    next
      case revision: (Inr n)
      let ?d = "c\<lparr>qc_revision := n, qc_dirty := True\<rparr>"
      let ?t = "?s\<lparr>js_quota := Some ?d\<rparr>"
      obtain tr3 r3 where t: "io_catch (account_mutation ?d m) (\<lambda>e. io_bind (rebuild_after_failure ?d) (\<lambda>_. io_res (Inl e))) ?t = (tr3, r3)"
        by fastforce
      have "tr2 = ?t # tr3" "r = r3" using continues(2) t
        by (simp_all add: io_bind_res Inr revision Let_def writeQuotaCounter_def io_bind_def)
      then show ?thesis using mutated [of "tr1 @ [?t]" ?t tr3 ?d] q t continues(3) by simp
    qed
  qed
qed

lemma mutate_files:
  assumes "quota_blind m" "mutateQuotaTrackedState m pre s = (tr, r)"
  shows "\<forall>t \<in> set tr. js_files t \<in> files_seen m s"
    "r = Inr v \<Longrightarrow> js_files (store_after s tr) = js_files (store_after s (fst (m s))) \<and> (\<exists>b e. snd (m s) = Inr (v, b, e))"
proof -
  have "(\<forall>t \<in> set tr. js_files t \<in> files_seen m s) \<and> (r = Inr v \<longrightarrow>
    js_files (store_after s tr) = js_files (store_after s (fst (m s))) \<and> (\<exists>b e. snd (m s) = Inr (v, b, e)))"
    using assms(2)
  proof (cases rule: mutate_cases)
    case (refused e)
    then show ?thesis by (auto simp: files_seen_def)
  next
    case (mutated d s1 tr1 tr2)
    let ?h = "\<lambda>e. io_bind (rebuild_after_failure d) (\<lambda>_. io_res (Inl e))"
    have q: "quiet (?h e)" for e by (rule quietI) (intro keeps)
    have f: "failing (?h e)" for e by (auto simp: failing_def io_bind_def split: prod.splits sum.splits)
    obtain tr3 r3 where a: "account_mutation d m s1 = (tr3, r3)" by fastforce
    note c = catch_quiet_after [OF q f mutated(7), simplified a fst_conv snd_conv]
    note b = blind_seen [OF assms(1) mutated(2)]
    have "files_seen (account_mutation d m) s1 \<subseteq> files_seen m s1"
      using account_files(1) [OF a] by (auto simp: files_seen_def [of "account_mutation d m"] a) (simp add: files_seen_def)
    then have "\<forall>t \<in> set tr2. js_files t \<in> files_seen m s" using c(1) b(1) by blast
    moreover have "r = Inr v \<longrightarrow> js_files (store_after s tr) = js_files (store_after s (fst (m s))) \<and> (\<exists>b e. snd (m s) = Inr (v, b, e))"
      using c(2,3) account_files(2,3) [OF a] b(2,3) mutated(3,4) by simp
    ultimately show ?thesis using mutated(1,4) by (auto simp: files_seen_def)
  qed
  then show "\<forall>t \<in> set tr. js_files t \<in> files_seen m s"
    "r = Inr v \<Longrightarrow> js_files (store_after s tr) = js_files (store_after s (fst (m s))) \<and> (\<exists>b e. snd (m s) = Inr (v, b, e))"
    by blast+
qed

end
