(* ===== verification/Op_Plain.thy ===== *)
theory Op_Plain
  imports Op_Decode Op_Canonical
begin

text \<open>
  The encoded records are plain JSON: \<open>JSON.stringify\<close> prints all of their content, and every member
  name once.
\<close>

definition is_plain :: "jsv \<Rightarrow> bool" where
  "is_plain v \<longleftrightarrow> (\<exists>c. v = jsv_of c \<and> distinct_keys c)"

named_theorems plain_simps "encodings are plain JSON"

lemma plain_scalar [plain_simps]: "is_plain JNull" "is_plain (JBool b)" "is_plain (JNum i)" "is_plain (JStr s)"
  unfolding is_plain_def by (metis jsv_of.simps distinct_keys.simps)+

lemma plain_list_of:
  assumes "list_all is_plain vs" obtains cs where "vs = map jsv_of cs" "list_all distinct_keys cs"
proof -
  have "\<exists>cs. vs = map jsv_of cs \<and> list_all distinct_keys cs" using assms
  proof (induction vs)
    case (Cons v vs)
    then obtain c cs where "v = jsv_of c" "distinct_keys c" "vs = map jsv_of cs" "list_all distinct_keys cs"
      by (auto simp: is_plain_def)
    then have "v # vs = map jsv_of (c # cs) \<and> list_all distinct_keys (c # cs)" by simp
    then show ?case by (rule exI)
  qed simp
  then show thesis using that by blast
qed

lemma plain_array [plain_simps]: "list_all is_plain vs \<Longrightarrow> is_plain (JArr vs)"
  by (metis is_plain_def plain_list_of jsv_of.simps(5) distinct_keys.simps(1))

lemma plain_map [plain_simps]: "(\<And>x. is_plain (f x)) \<Longrightarrow> list_all is_plain (map f xs)"
  by (simp add: list_all_iff)

definition plain_props :: "(string \<times> jsv jprop) list \<Rightarrow> bool" where
  "plain_props ps \<longleftrightarrow> (\<exists>qs. ps = map (\<lambda>(k, v). (k, Data True (jsv_of v))) qs \<and>
     list_all (\<lambda>(k, v). distinct_keys v) qs)"

lemma plain_props_Nil [simp]: "plain_props []"
  by (simp add: plain_props_def)

lemma plain_props_Cons: "is_plain v \<Longrightarrow> plain_props ps \<Longrightarrow> plain_props ((k, Data True v) # ps)"
proof -
  assume "is_plain v" "plain_props ps"
  then obtain c qs where "v = jsv_of c" "distinct_keys c" "ps = map (\<lambda>(k, v). (k, Data True (jsv_of v))) qs"
    "list_all (\<lambda>(k, v). distinct_keys v) qs" by (auto simp: is_plain_def plain_props_def)
  then have "(k, Data True v) # ps = map (\<lambda>(k, v). (k, Data True (jsv_of v))) ((k, c) # qs) \<and>
    list_all (\<lambda>(k, v). distinct_keys v) ((k, c) # qs)" by simp
  then show ?thesis unfolding plain_props_def by (rule exI)
qed

lemma plain_object:
  assumes "plain_props ps" "distinct (map fst ps)" shows "is_plain (JObj 0 ps)"
proof -
  obtain qs where qs: "ps = map (\<lambda>(k, v). (k, Data True (jsv_of v))) qs" "list_all (\<lambda>(k, v). distinct_keys v) qs"
    using assms(1) by (auto simp: plain_props_def)
  have "map fst ps = map fst qs" by (simp add: qs(1) split_def comp_def)
  then have "distinct (map fst qs)" using assms(2) by metis
  then have "JObj 0 ps = jsv_of (CObj qs) \<and> distinct_keys (CObj qs)" using qs by simp
  then show ?thesis unfolding is_plain_def by (rule exI)
qed

definition plain_fields :: "(string \<times> jsv option) list \<Rightarrow> bool" where
  "plain_fields ps \<longleftrightarrow> list_all (\<lambda>(k, x). pred_option is_plain x) ps"

lemma plain_fields_simps [plain_simps]:
  "plain_fields []" "plain_fields ((k, x) # ps) \<longleftrightarrow> pred_option is_plain x \<and> plain_fields ps"
  by (simp_all add: plain_fields_def)

lemma plain_optional [plain_simps]: "(\<And>a. is_plain (f a)) \<Longrightarrow> pred_option is_plain (map_option f x)"
  by (cases x) simp_all

lemma plain_rec [plain_simps]:
  assumes "distinct (map fst ps)" "plain_fields ps" shows "is_plain (enc_rec ps)"
proof -
  have "plain_props (enc_fields ps) \<and> distinct (map fst (enc_fields ps)) \<and>
    fst ` set (enc_fields ps) \<subseteq> fst ` set ps" using assms
  proof (induction ps)
    case (Cons p ps)
    obtain k x where p: "p = (k, x)" by fastforce
    have IH: "plain_props (enc_fields ps)" "distinct (map fst (enc_fields ps))"
      "fst ` set (enc_fields ps) \<subseteq> fst ` set ps"
      using Cons by (simp_all add: p plain_fields_def)
    show ?case
    proof (cases x)
      case None
      then show ?thesis using IH by (simp add: p subset_insertI2)
    next
      case (Some v)
      have "k \<notin> fst ` set (enc_fields ps)" using IH(3) Cons.prems(1) by (auto simp: p)
      moreover have "is_plain v" using Cons.prems(2) by (simp add: p Some plain_fields_def)
      ultimately show ?thesis using IH plain_props_Cons [OF _ IH(1), of v k] by (simp add: p Some subset_insertI2)
    qed
  qed simp
  then show ?thesis unfolding enc_rec_fields using plain_object by blast
qed

lemma plain_dict [plain_simps]:
  assumes "obj_wf ob" "\<And>v. is_plain (f v)" shows "is_plain (enc_dict f ob)"
proof -
  have "plain_props (map (\<lambda>(k, v). (k, Data True (f v))) ob)"
    by (induction ob) (auto intro: plain_props_Cons assms(2))
  moreover have "map fst (map (\<lambda>(k, v). (k, Data True (f v))) ob) = map fst ob" by (simp add: split_def comp_def)
  ultimately show ?thesis unfolding enc_dict_def using plain_object assms(1) unfolding obj_wf_def by metis
qed

section \<open>The records\<close>

lemma plain_texts [plain_simps]: "is_plain ((JStr \<circ> f) a)" "is_plain ((JArr \<circ> map JStr) ss)"
  by (auto simp: plain_simps)

lemma plain_parts [plain_simps]:
  "is_plain (enc_capture_policy p)" "is_plain (enc_profile q)" "is_plain (enc_establishment e)"
  by (simp_all add: enc_capture_policy_def enc_profile_def enc_establishment_def plain_simps jfield_defs)

lemma plain_target [plain_simps]: "is_plain (enc_target t)"
  by (simp add: enc_target_def plain_simps jfield_defs)

lemma plain_identity [plain_simps]: "is_plain (enc_identity i)"
  by (cases i) (simp_all add: plain_simps jfield_defs)

lemma plain_ownership_target [plain_simps]: "is_plain (enc_ownership_target t)"
  by (simp add: enc_ownership_target_def plain_simps jfield_defs)

lemma plain_turn [plain_simps]: "is_plain (enc_turn t)"
  by (simp add: enc_turn_def plain_simps jfield_defs)

lemma plain_snapshot [plain_simps]: "is_plain (enc_snapshot b)"
  by (simp add: enc_snapshot_def plain_simps jfield_defs)

lemma plain_records [plain_simps]:
  "is_plain (enc_baseline b)" "is_plain (enc_witness w)" "is_plain (enc_action_intent a)"
  "is_plain (enc_action_record r)" "is_plain (enc_transfer_intent i)" "is_plain (enc_transfer_receipt q)"
  "is_plain (enc_artifact_receipt ar)" "is_plain (enc_blocker bo)"
  by (simp_all add: enc_baseline_def enc_witness_def enc_action_intent_def enc_action_record_def
      enc_transfer_intent_def enc_transfer_receipt_def enc_artifact_receipt_def enc_blocker_def plain_simps jfield_defs)

lemma plain_transfer_state [plain_simps]: "is_plain (enc_transfer_state t)"
  by (simp add: enc_transfer_state_def plain_simps)

lemma plain_receipt [plain_simps]: "is_plain (enc_receipt r)"
  by (simp add: enc_receipt_def plain_simps jfield_defs)

theorem plain_event: "is_plain (enc_event ev)"
  by (cases ev) (simp_all add: plain_simps jfield_defs)

text \<open>The dictionaries of a state hold every key once.\<close>

definition state_wf :: "operation_state \<Rightarrow> bool" where
  "state_wf s \<longleftrightarrow> obj_wf (st_actions s) \<and> pred_option obj_wf (st_ownershipBaselines s) \<and>
     pred_option obj_wf (st_artifactTransfers s) \<and> pred_option obj_wf (st_submissionWitnesses s)"

theorem plain_state: "state_wf s \<Longrightarrow> is_plain (enc_state s)"
proof -
  assume wf: "state_wf s"
  have d: "pred_option is_plain (map_option (enc_dict f) x)" if "pred_option obj_wf x" "\<And>v. is_plain (f v)"
    for f :: "'x \<Rightarrow> jsv" and x
    using that plain_dict by (cases x) auto
  show ?thesis using wf by (simp add: enc_state_def state_wf_def plain_simps d jfield_defs)
qed

section \<open>Printing\<close>

lemma stringified_plain: "stringified (jsv_of c) = Inr (Some c)"
proof (induction c)
  case (CArr xs)
  then have "foldr (\<lambda>v acc. bind_res (stringified v) (\<lambda>x. bind_res acc (\<lambda>xs.
     Inr ((case x of None \<Rightarrow> CNull | Some c \<Rightarrow> c) # xs)))) (map jsv_of xs) (Inr []) = Inr xs"
    by (induction xs) simp_all
  then show ?case by simp
next
  case (CObj ps)
  have "foldr (\<lambda>(k, p) acc. (case p of
       Accessor \<Rightarrow> Inl (Untyped_record k)
     | Data enumerable v \<Rightarrow> if \<not> enumerable then acc
         else bind_res (stringified v) (\<lambda>x. bind_res acc (\<lambda>qs. Inr (case x of None \<Rightarrow> qs | Some c \<Rightarrow> (k, c) # qs)))))
       (map (\<lambda>(k, v). (k, Data True (jsv_of v))) qs) (Inr []) = Inr qs"
    if "set qs \<subseteq> set ps" for qs using that
  proof (induction qs)
    case (Cons q qs)
    obtain k v where q: "q = (k, v)" by fastforce
    have "stringified (jsv_of v) = Inr (Some v)" using CObj [of "(k, v)" v] Cons.prems by (simp add: q)
    with Cons show ?case by (simp add: q)
  qed simp
  then show ?case by simp
qed simp_all

end
