(* ===== verification/Journal_Append.thy ===== *)
theory Journal_Append
  imports Journal_Effects Op_Plain
begin

text \<open>
  Appending: whatever content the log file has when an append stops, it reads as the old log or as
  the old log with the new record.
\<close>

section \<open>Reading a log\<close>

lemma readLog_Some: "readLog U H (Some b) allow = Inr pl \<longleftrightarrow> length b \<le> MAX_SINGLE_RECORD_FILE_BYTES \<and>
   (\<exists>u0 es. utf8_decode (committed_part b) = Some u0 \<and>
     readLines H GENESIS_EVENT_DIGEST 0 (committed_lines u0) = Inr es \<and>
     (es \<noteq> [] \<longrightarrow> (\<exists>s. reduceSafely U (map en_event es) = Inr s)) \<and>
     pl = \<lparr>pl_exists = True, pl_envelopes = es, pl_committedBytes = length (committed_part b),
       pl_partialTailBytes = length b - length (committed_part b)\<rparr>)"
proof (cases "length b \<le> MAX_SINGLE_RECORD_FILE_BYTES")
  case False
  then show ?thesis by (simp add: readLog_def journal_throw_def)
next
  case small: True
  show ?thesis
  proof (cases "utf8_decode (committed_part b)")
    case None
    with small show ?thesis by (simp add: readLog_def Let_def journal_throw_def)
  next
    case (Some u0)
    show ?thesis
    proof (cases "readLines H GENESIS_EVENT_DIGEST 0 (committed_lines u0)")
      case (Inl e)
      with small Some show ?thesis by (simp add: readLog_def Let_def)
    next
      case (Inr es)
      show ?thesis
        by (cases "reduceSafely U (map en_event es)"; cases "es = []")
          (use small in \<open>auto simp: readLog_def Let_def Some Inr\<close>)
    qed
  qed
qed

lemma readLog_chain:
  assumes "readLog U H f allow = Inr pl"
  shows "log_chain H GENESIS_EVENT_DIGEST 0 (pl_envelopes pl)"
proof (cases f)
  case None
  then show ?thesis using assms by (auto simp: readLog_def no_log_def journal_throw_def split: if_splits)
next
  case (Some b)
  then show ?thesis using assms readLines_chain by (auto simp: readLog_Some)
qed

text \<open>The content of a file, and the old content of a log that is not there.\<close>

definition old_bytes :: "string option \<Rightarrow> string" where
  "old_bytes f = (case f of None \<Rightarrow> [] | Some b \<Rightarrow> b)"

lemma committed_part_empty [simp]: "committed_part [] = []"
  by (simp add: committed_part_def)

lemma readLog_old:
  assumes "readLog U H f True = Inr pl"
  shows "readLog U H (Some (old_bytes f)) False = Inr (pl\<lparr>pl_exists := True\<rparr>)"
    "pl_committedBytes pl = length (committed_part (old_bytes f))" "pl_exists pl \<longleftrightarrow> f \<noteq> None"
proof -
  have "readLog U H (Some (old_bytes f)) False = Inr (pl\<lparr>pl_exists := True\<rparr>) \<and>
    pl_committedBytes pl = length (committed_part (old_bytes f)) \<and> (pl_exists pl \<longleftrightarrow> f \<noteq> None)"
  proof (cases f)
    case None
    then have "pl = no_log" using assms by (simp add: readLog_def)
    then show ?thesis
      by (simp add: None old_bytes_def readLog_Some no_log_def committed_lines_def)
  next
    case (Some b)
    then show ?thesis using assms by (auto simp: old_bytes_def readLog_Some)
  qed
  then show "readLog U H (Some (old_bytes f)) False = Inr (pl\<lparr>pl_exists := True\<rparr>)"
    "pl_committedBytes pl = length (committed_part (old_bytes f))" "pl_exists pl \<longleftrightarrow> f \<noteq> None" by blast+
qed

text \<open>A torn tail is invisible.\<close>

lemma readLog_tail:
  assumes "readLog U H (Some b) a = Inr pl" "NEWLINE \<notin> set t"
    "length (committed_part b) + length t \<le> MAX_SINGLE_RECORD_FILE_BYTES"
  shows "readLog U H (Some (committed_part b @ t)) a' = Inr (pl\<lparr>pl_partialTailBytes := length t\<rparr>)"
proof -
  have "committed_part (committed_part b @ t) = committed_part b"
    by (simp add: committed_part_tail assms(2) committed_part_id committed_part_ends)
  then show ?thesis using assms(1,3) by (auto simp: readLog_Some)
qed

text \<open>A complete record extends the log.\<close>

definition stored_envelope :: "envelope \<Rightarrow> envelope" where
  "stored_envelope e = e\<lparr>en_event := stored (en_event e)\<rparr>"

lemma reduce_stored: "reduceSafely U (map en_event (es @ [stored_envelope e])) = reduceSafely U (map en_event es @ [en_event e])"
  "reduceSafely U (map en_event es @ [en_event (stored_envelope e)]) = reduceSafely U (map en_event es @ [en_event e])"
  by (simp_all add: reduceSafely_def stored_envelope_def)

lemma readLog_record:
  assumes "readLog U H (Some b) a = Inr pl" "wf_envelope e" "canonicalJson (enc_envelope e) = Inr t"
    "en_revision e = length (pl_envelopes pl) + 1" "en_previousEventDigest e = last_digest GENESIS_EVENT_DIGEST (pl_envelopes pl)"
    "journalEventDigest H (en_revision e) (en_previousEventDigest e) (en_event e) = Inr (en_eventDigest e)"
    "reduceSafely U (map en_event (pl_envelopes pl) @ [en_event e]) = Inr s"
    "length (committed_part b) + length (utf8 (t @ [NEWLINE])) \<le> MAX_SINGLE_RECORD_FILE_BYTES"
  shows "readLog U H (Some (committed_part b @ utf8 (t @ [NEWLINE]))) a' =
    Inr \<lparr>pl_exists = True, pl_envelopes = pl_envelopes pl @ [stored_envelope e],
      pl_committedBytes = length (committed_part b) + length (utf8 (t @ [NEWLINE])), pl_partialTailBytes = 0\<rparr>"
proof -
  let ?new = "committed_part b @ utf8 (t @ [NEWLINE])"
  obtain u0 es where es: "utf8_decode (committed_part b) = Some u0"
    "readLines H GENESIS_EVENT_DIGEST 0 (committed_lines u0) = Inr es" "pl_envelopes pl = es"
    using assms(1) unfolding readLog_Some by (elim conjE exE) simp
  have nl: "NEWLINE \<notin> set t" by (rule canonicalJson_no_newline [OF assms(3)])
  have u: "utf8 (t @ [NEWLINE]) = utf8 t @ [NEWLINE]"
    by (simp add: utf8_append) (simp add: utf8_def utf8_char_def NEWLINE_def)
  have c: "committed_part ?new = ?new" unfolding u by (metis append_assoc committed_part_line)
  have "utf8_decode ?new = Some (u0 @ t @ [NEWLINE])" by (simp add: utf8_decode_append [OF es(1)])
  moreover have "ends_line u0" by (rule utf8_decode_ends [OF es(1) committed_part_ends])
  then have "committed_lines (u0 @ t @ [NEWLINE]) = committed_lines u0 @ [t]"
    by (rule committed_lines_append [OF _ nl])
  moreover have "readLines H GENESIS_EVENT_DIGEST 0 (committed_lines u0 @ [t]) = Inr (es @ [stored_envelope e])"
  proof -
    have "length es = length (committed_lines u0)" using readLines_chain [OF es(2)] by simp
    then have "readLines H (last_digest GENESIS_EVENT_DIGEST es) (0 + length (committed_lines u0)) [t] = Inr [stored_envelope e]"
      using readLines_line [OF assms(2,3), of "length es" _ H] assms(4-6) es(3) by (simp add: stored_envelope_def)
    then show ?thesis by (simp add: readLines_append es(2))
  qed
  ultimately show ?thesis using assms(7,8) es(3) unfolding readLog_Some
    by (simp add: c reduce_stored)
qed

section \<open>The next record\<close>

lemma genesis_digest: "DIGEST_PATTERN GENESIS_EVENT_DIGEST"
  by code_simp

lemma chain_last_digest: "log_chain H p i es \<Longrightarrow> DIGEST_PATTERN p \<Longrightarrow> DIGEST_PATTERN (last_digest p es)"
  by (induction es arbitrary: p i) (auto simp: wf_envelope_def)

lemma require_Inr [simp]: "require b c = Inr u \<longleftrightarrow> b"
  by (simp add: require_def journal_throw_def)

lemma jsonRoundTrip_plain: "jsonRoundTrip (jsv_of c) = Inr (printed c)"
  by (simp add: jsonRoundTrip_def stringified_plain)

lemma distinct_printed: "distinct_keys c \<Longrightarrow> distinct_keys (printed c)"
proof (induction c)
  case (CObj ps)
  let ?qs = "map (\<lambda>(k, v). (k, printed v)) ps"
  have "mset (map fst (enumeration_order ?qs)) = mset (map fst ?qs)" by (simp only: mset_map mset_enumeration)
  moreover have "map fst ?qs = map fst ps" by (simp add: split_def comp_def)
  ultimately have "distinct (map fst (enumeration_order ?qs))" using CObj.prems
    by (metis distinct_keys.simps(2) mset_eq_imp_distinct_iff)
  then show ?case using CObj by (auto simp: list_all_iff set_enumeration)
qed (auto simp: list_all_iff)

lemma jsonRoundTrip_event: "jsonRoundTrip (enc_event ev) = Inr c \<Longrightarrow> distinct_keys c"
  using plain_event [of ev] by (auto simp: is_plain_def jsonRoundTrip_plain distinct_printed)

lemma those_snoc: "those (xs @ [y]) = Some zs \<Longrightarrow> y \<noteq> None"
  by (induction xs arbitrary: zs) (auto split: option.splits)

lemma dec_event_kind: "event_kind c = None \<Longrightarrow> dec_event c = None"
  by (simp add: dec_event_def)

lemma reduce_event_kind: "reduceSafely U (es @ [c]) = Inr s \<Longrightarrow> event_kind c \<noteq> None"
proof
  assume r: "reduceSafely U (es @ [c]) = Inr s" and "event_kind c = None"
  then have "dec_event c = None" by (simp add: dec_event_kind)
  moreover obtain evs where "those (map dec_event es @ [dec_event c]) = Some evs"
    using r by (auto simp: reduceSafely_def journal_throw_def split: option.splits)
  ultimately show False using those_snoc by blast
qed

lemma next_record_Inr:
  assumes "next_record U H operationId r ev pl = Inr (e, enc, s)" "hex_hash H" "log_chain H GENESIS_EVENT_DIGEST 0 (pl_envelopes pl)"
  obtains t where "enc = utf8 (t @ [NEWLINE])" "canonicalJson (enc_envelope e) = Inr t" "wf_envelope e"
    "en_revision e = length (pl_envelopes pl) + 1" "en_previousEventDigest e = last_digest GENESIS_EVENT_DIGEST (pl_envelopes pl)"
    "journalEventDigest H (en_revision e) (en_previousEventDigest e) (en_event e) = Inr (en_eventDigest e)"
    "reduceSafely U (map en_event (pl_envelopes pl) @ [en_event e]) = Inr s" "st_operationId s = operationId"
    "r = int (length (pl_envelopes pl))"
proof -
  let ?p = "if pl_envelopes pl = [] then GENESIS_EVENT_DIGEST else en_eventDigest (last (pl_envelopes pl))"
  let ?n = "Suc (length (pl_envelopes pl))"
  obtain c d t where c: "jsonRoundTrip (enc_event ev) = Inr c" "reduceSafely U (map en_event (pl_envelopes pl) @ [c]) = Inr s"
    "journalEventDigest H ?n ?p c = Inr d"
    "e = \<lparr>en_revision = ?n, en_previousEventDigest = ?p, en_eventDigest = d, en_event = c\<rparr>"
    "canonicalJson (enc_envelope e) = Inr t" "enc = utf8 (t @ [NEWLINE])" "st_operationId s = operationId"
    "r = int (length (pl_envelopes pl))"
    using assms(1) by (auto simp: next_record_def bind_res_Inr Let_def journal_throw_def split: if_splits)
  have p: "?p = last_digest GENESIS_EVENT_DIGEST (pl_envelopes pl)" by (simp add: last_digest_last)
  have "DIGEST_PATTERN ?p" unfolding p by (rule chain_last_digest [OF assms(3) genesis_digest])
  moreover have "DIGEST_PATTERN d" using hex_hash_digest [OF assms(2)] c(3) by (simp add: journalEventDigest_def)
  moreover have "distinct_keys c" by (rule jsonRoundTrip_event [OF c(1)])
  moreover have "event_kind c \<noteq> None" by (rule reduce_event_kind [OF c(2)])
  ultimately have "wf_envelope e" by (simp add: wf_envelope_def c(4))
  with c p that show ?thesis by simp
qed

section \<open>The contents of the file during an append\<close>

lemma append_contents:
  assumes "appendRecord f pl enc = (cs, r)" "pl_committedBytes pl = length (committed_part (old_bytes f))"
  shows "c \<in> set cs \<Longrightarrow> \<exists>k \<le> length enc. c = committed_part (old_bytes f) @ take k enc \<and>
      (c = [] \<or> length (committed_part (old_bytes f)) + length enc \<le> MAX_SINGLE_RECORD_FILE_BYTES)"
    "r = Inr () \<Longrightarrow> enc \<noteq> [] \<Longrightarrow> cs \<noteq> [] \<and> last cs = committed_part (old_bytes f) @ enc \<and>
      length (committed_part (old_bytes f)) + length enc \<le> MAX_SINGLE_RECORD_FILE_BYTES"
proof -
  let ?b = "old_bytes f" let ?c = "committed_part ?b"
  let ?writes = "map (\<lambda>k. ?c @ take k enc) [1..<Suc (length enc)]"
  have old: "(case f of None \<Rightarrow> [] | Some b \<Rightarrow> b) = ?b" by (simp add: old_bytes_def)
  have take: "take (length ?c) ?b = ?c" by (rule committed_part_take [symmetric])
  have new: "?c = []" if "f = None" using that by (simp add: old_bytes_def)
  let ?created = "if f = None then [[]] else []"
  have "appendRecord f pl enc = (if (f = None) = pl_exists pl
        then ([], journal_throw (if f = None then ''ENOENT'' else ''revision_conflict''))
        else if length ?b \<noteq> pl_committedBytes pl + pl_partialTailBytes pl
        then (?created, journal_throw ''revision_conflict'')
        else if length ?c + length enc > MAX_SINGLE_RECORD_FILE_BYTES
        then (?created, journal_throw ''journal_log_too_large'')
        else (?created @ (if pl_partialTailBytes pl > 0 then [?c] else []) @ ?writes, Inr ()))"
    by (simp only: appendRecord_def Let_def old assms(2) take)
  note eq = this [unfolded assms(1)]
  consider (refused) "r \<noteq> Inr ()" "set cs \<subseteq> {[]}" "f = None \<or> cs = []"
    | (written) "r = Inr ()" "length ?c + length enc \<le> MAX_SINGLE_RECORD_FILE_BYTES"
      "cs = (if f = None then [[]] else []) @ (if pl_partialTailBytes pl > 0 then [?c] else []) @ ?writes"
    using eq by (simp only: split: if_splits) (auto simp: journal_throw_def simp del: upt_Suc)
  then have "(c \<in> set cs \<longrightarrow> (\<exists>k \<le> length enc. c = ?c @ take k enc \<and>
      (c = [] \<or> length ?c + length enc \<le> MAX_SINGLE_RECORD_FILE_BYTES))) \<and>
    (r = Inr () \<longrightarrow> enc \<noteq> [] \<longrightarrow> cs \<noteq> [] \<and> last cs = ?c @ enc \<and>
      length ?c + length enc \<le> MAX_SINGLE_RECORD_FILE_BYTES)"
  proof cases
    case refused
    then show ?thesis using new by (auto intro!: exI [of _ 0])
  next
    case written
    have "\<exists>k \<le> length enc. c = ?c @ take k enc" if m: "c \<in> set cs"
    proof -
      consider "f = None" "c = []" | "c = ?c" | "c \<in> set ?writes"
        using m unfolding written(3) by (auto split: if_splits simp del: upt_Suc set_map)
      then show ?thesis
      proof cases
        case 3
        then obtain k where "k < Suc (length enc)" "c = ?c @ take k enc" by (auto simp del: upt_Suc)
        then show ?thesis by (intro exI [of _ k]) simp
      qed (use new in \<open>auto intro: exI [of _ 0]\<close>)
    qed
    moreover have "last ?writes = ?c @ enc" if "enc \<noteq> []" using that by (cases enc) (simp_all add: last_map)
    moreover have "?writes \<noteq> []" if "enc \<noteq> []" using that by (cases enc) simp_all
    ultimately show ?thesis using written(2) unfolding written(3) by (simp add: last_append)
  qed
  then show "c \<in> set cs \<Longrightarrow> \<exists>k \<le> length enc. c = ?c @ take k enc \<and>
      (c = [] \<or> length ?c + length enc \<le> MAX_SINGLE_RECORD_FILE_BYTES)"
    "r = Inr () \<Longrightarrow> enc \<noteq> [] \<Longrightarrow> cs \<noteq> [] \<and> last cs = ?c @ enc \<and>
      length ?c + length enc \<le> MAX_SINGLE_RECORD_FILE_BYTES" by blast+
qed

text \<open>What a file reads as after the record.\<close>

definition extended_log :: "parsed_log \<Rightarrow> envelope \<Rightarrow> string \<Rightarrow> parsed_log" where
  "extended_log pl e enc = \<lparr>pl_exists = True, pl_envelopes = pl_envelopes pl @ [stored_envelope e],
     pl_committedBytes = pl_committedBytes pl + length enc, pl_partialTailBytes = 0\<rparr>"

lemma append_reads:
  assumes "readLog U H f True = Inr pl" "next_record U H operationId n ev pl = Inr (e, enc, s)" "hex_hash H"
    "appendRecord f pl enc = (cs, r)"
  shows "c \<in> set cs \<Longrightarrow> (\<exists>k. readLog U H (Some c) False = Inr (pl\<lparr>pl_exists := True, pl_partialTailBytes := k\<rparr>)) \<or>
      readLog U H (Some c) False = Inr (extended_log pl e enc)"
    "r = Inr () \<Longrightarrow> cs \<noteq> [] \<and> readLog U H (Some (last cs)) False = Inr (extended_log pl e enc)"
proof -
  let ?b = "old_bytes f" let ?c = "committed_part ?b"
  note old = readLog_old [OF assms(1)]
  have chain: "log_chain H GENESIS_EVENT_DIGEST 0 (pl_envelopes pl)" by (rule readLog_chain [OF assms(1)])
  obtain t where t: "enc = utf8 (t @ [NEWLINE])" "canonicalJson (enc_envelope e) = Inr t" "wf_envelope e"
    "en_revision e = length (pl_envelopes pl) + 1" "en_previousEventDigest e = last_digest GENESIS_EVENT_DIGEST (pl_envelopes pl)"
    "journalEventDigest H (en_revision e) (en_previousEventDigest e) (en_event e) = Inr (en_eventDigest e)"
    "reduceSafely U (map en_event (pl_envelopes pl) @ [en_event e]) = Inr s"
    by (rule next_record_Inr [OF assms(2,3) chain])
  have nl: "NEWLINE \<notin> set (utf8 t)" by (rule utf8_newline [OF canonicalJson_no_newline [OF t(2)]])
  have u: "enc = utf8 t @ [NEWLINE]" unfolding t(1)
    by (simp add: utf8_append) (simp add: utf8_def utf8_char_def NEWLINE_def)
  have full: "readLog U H (Some (?c @ enc)) False = Inr (extended_log pl e enc)"
    if "length ?c + length enc \<le> MAX_SINGLE_RECORD_FILE_BYTES"
    using readLog_record [OF old(1) t(3,2), of s False] t(4-7) that old(2) by (simp add: t(1) extended_log_def)
  show "c \<in> set cs \<Longrightarrow> (\<exists>k. readLog U H (Some c) False = Inr (pl\<lparr>pl_exists := True, pl_partialTailBytes := k\<rparr>)) \<or>
      readLog U H (Some c) False = Inr (extended_log pl e enc)"
  proof -
    assume "c \<in> set cs"
    then obtain k where k: "k \<le> length enc" "c = ?c @ take k enc"
      "c = [] \<or> length ?c + length enc \<le> MAX_SINGLE_RECORD_FILE_BYTES"
      using append_contents(1) [OF assms(4) old(2)] by blast
    show ?thesis
    proof (cases "k = length enc \<and> c \<noteq> []")
      case True
      then have "c = ?c @ enc" "length ?c + length enc \<le> MAX_SINGLE_RECORD_FILE_BYTES" using k by auto
      then show ?thesis using full by simp
    next
      case False
      have n: "NEWLINE \<notin> set (take k enc)"
      proof (cases "c = []")
        case True
        then have "take k enc = []" using k(2) by (metis append_is_Nil_conv)
        then show ?thesis by (metis empty_iff list.set(1))
      next
        case c: False
        then have "k \<le> length (utf8 t)" using False k(1) u by auto
        then show ?thesis using nl u set_take_subset [of k "utf8 t"] by auto
      qed
      have l: "length ?c + length (take k enc) \<le> MAX_SINGLE_RECORD_FILE_BYTES" using k by auto
      show ?thesis using readLog_tail [OF old(1) n l, of False] k(2) by auto
    qed
  qed
  have "enc \<noteq> []" by (simp add: u)
  then show "r = Inr () \<Longrightarrow> cs \<noteq> [] \<and> readLog U H (Some (last cs)) False = Inr (extended_log pl e enc)"
    using append_contents(2) [OF assms(4) old(2)] full by simp
qed

end
