(* ===== verification/Journal_Facts.thy ===== *)
theory Journal_Facts
  imports Journal_Append Op_Log
begin

text \<open>
  The operations of the journal, seen by a later load: which durable stores each of them goes
  through, and what is loaded from these.
\<close>

section \<open>Files\<close>

lemma paths_distinct [simp]:
  "log_path a \<noteq> terminal_path b" "terminal_path b \<noteq> log_path a" "log_path a \<noteq> snapshot_path b"
  "snapshot_path b \<noteq> log_path a" "log_path a \<noteq> tombstone_path b" "tombstone_path b \<noteq> log_path a"
  "terminal_path a \<noteq> snapshot_path b" "snapshot_path b \<noteq> terminal_path a" "terminal_path a \<noteq> tombstone_path b"
  "tombstone_path b \<noteq> terminal_path a" "snapshot_path a \<noteq> tombstone_path b" "tombstone_path b \<noteq> snapshot_path a"
  by (simp_all add: log_path_def terminal_path_def snapshot_path_def tombstone_path_def)

lemma paths_inject [simp]:
  "log_path a = log_path b \<longleftrightarrow> a = b" "terminal_path a = terminal_path b \<longleftrightarrow> a = b"
  "snapshot_path a = snapshot_path b \<longleftrightarrow> a = b" "tombstone_path a = tombstone_path b \<longleftrightarrow> a = b"
  by (simp_all add: log_path_def terminal_path_def snapshot_path_def tombstone_path_def)

lemma write_file_files [simp]: "js_files (write_file p b s) = obj_set (js_files s) p b"
  by (simp add: write_file_def)

lemma delete_file_files [simp]: "js_files (delete_file p s) = AList.delete p (js_files s)"
  by (simp add: delete_file_def)

lemma file_at_cong: "js_files s = js_files t \<Longrightarrow> file_at s p = file_at t p"
  by (simp add: file_at_def)

lemma load_files_cong: "js_files s = js_files t \<Longrightarrow> journal_load U H i x s = journal_load U H i x t"
  by (simp add: journal_load_def loadLocked_def file_at_def)

text \<open>A load that finds neither a tombstone nor a terminal reads the log.\<close>

lemma load_from_log:
  assumes "assertOperationId i = None" "operationStem H i = Inr stem"
    "file_at s (tombstone_path stem) = None" "file_at s (terminal_path stem) = None"
  shows "journal_load U H i x s = load_log U H (file_at s (log_path stem)) i x"
proof -
  have "lift_check (assertOperationId i) = Inr ()" unfolding assms(1) by (simp add: lift_check_def)
  then show ?thesis using assms(2-4) by (simp add: journal_load_def loadLocked_def)
qed

section \<open>Appending\<close>

lemma append_file_blind: "quota_blind (append_file p pl enc)"
  by (auto simp: quota_blind_def append_file_def file_at_def split: prod.splits)

lemma quota_blind_bind:
  assumes "quota_blind m" "\<And>x. quota_blind (f x)" shows "quota_blind (io_bind m f)"
  unfolding quota_blind_def
proof (intro allI impI)
  fix s t :: jstore assume st: "js_files s = js_files t"
  obtain tr r where m: "m s = (tr, r)" by fastforce
  obtain tr' r' where m': "m t = (tr', r')" by fastforce
  have eq: "map js_files tr = map js_files tr'" "r = r'"
    using assms(1) st m m' unfolding quota_blind_def by (metis fst_conv snd_conv)+
  have after: "js_files (store_after s tr) = js_files (store_after t tr')"
    using blind_seen(3) [OF assms(1) st] m m' by simp
  show "map js_files (fst (io_bind m f s)) = map js_files (fst (io_bind m f t)) \<and>
      snd (io_bind m f s) = snd (io_bind m f t)"
  proof (cases r)
    case (Inl e)
    then show ?thesis using eq m m' by (simp add: io_bind_def)
  next
    case (Inr x)
    then show ?thesis using eq m m' assms(2) [of x] after unfolding quota_blind_def
      by (simp add: io_bind_def split: prod.split) (metis fst_conv snd_conv)
  qed
qed

lemma quota_blind_pure [simp]: "quota_blind (io_ret x)" "quota_blind (io_res r)" "quota_blind (io_throw c)"
  "quota_blind (io_get (\<lambda>s. file_at s p))"
  by (auto simp: quota_blind_def file_at_def)

text \<open>The append up to its mutation.\<close>

lemma append_elim:
  assumes "journal_append U H mx i n ev s = (tr, r)"
  obtains (refused) e where "tr = []" "r = Inl e"
  | (runs) stem pl e enc st where "assertOperationId i = None" "operationStem H i = Inr stem"
      "file_at s (tombstone_path stem) = None" "file_at s (terminal_path stem) = None"
      "readLog U H (file_at s (log_path stem)) True = Inr pl"
      "next_record U H i n ev pl = Inr (e, enc, st)"
      "\<forall>t \<in> set tr. js_files t \<in> files_seen (append_file (log_path stem) pl enc) s"
      "\<And>l. r = Inr l \<Longrightarrow> l = \<lparr>ld_state = st, ld_envelopes = pl_envelopes pl @ [e],
         ld_committedBytes = pl_committedBytes pl + length enc, ld_partialTailBytes = 0,
         ld_lastEventDigest = en_eventDigest e\<rparr> \<and>
         snd (append_file (log_path stem) pl enc s) = Inr () \<and>
         js_files (store_after s tr) = js_files (store_after s (fst (append_file (log_path stem) pl enc s)))"
proof (cases "\<exists>e. tr = [] \<and> r = Inl e")
  case True
  then show ?thesis using refused by blast
next
  case False
  then obtain stem pl e enc st where ok: "assertOperationId i = None" "operationStem H i = Inr stem"
    "assertNoTerminalOrTombstoneForAppend U H stem n s = Inr ()"
    "readLog U H (file_at s (log_path stem)) True = Inr pl" "next_record U H i n ev pl = Inr (e, enc, st)"
    using assms unfolding journal_append_def
    by (auto simp: io_bind_res journal_throw_def lift_check_def split: sum.splits option.splits if_splits)
  have none: "file_at s (tombstone_path stem) = None" "file_at s (terminal_path stem) = None"
    using ok(3) by (auto simp: assertNoTerminalOrTombstoneForAppend_def journal_throw_def bind_res_Inr split: if_splits)
  let ?d = "int (length enc) - int (pl_partialTailBytes pl)"
  let ?m = "io_bind (append_file (log_path stem) pl enc) (\<lambda>_. io_ret ((), ?d, if pl_exists pl then 0 else (1 :: int)))"
  let ?pre = "if n = 0 then (\<lambda>c. assertQuotaForNewOperation mx c (max 0 ?d)) else no_preflight"
  let ?l = "\<lparr>ld_state = st, ld_envelopes = pl_envelopes pl @ [e], ld_committedBytes = pl_committedBytes pl + length enc,
     ld_partialTailBytes = 0, ld_lastEventDigest = en_eventDigest e\<rparr>"
  have run: "io_bind (mutateQuotaTrackedState ?m ?pre) (\<lambda>_. io_ret ?l) s = (tr, r)"
    using assms False ok unfolding journal_append_def
    by (auto simp: io_bind_res journal_throw_def lift_check_def Let_def split: if_splits)
  have blind: "quota_blind ?m" by (intro quota_blind_bind append_file_blind quota_blind_pure)
  obtain tr1 r1 where q: "mutateQuotaTrackedState ?m ?pre s = (tr1, r1)" by fastforce
  have m: "fst (?m s) = fst (append_file (log_path stem) pl enc s)"
    "snd (?m s) = Inr v \<Longrightarrow> snd (append_file (log_path stem) pl enc s) = Inr ()" for v
    by (simp_all add: io_bind_def split: prod.splits sum.splits)
  have seen: "files_seen ?m s = files_seen (append_file (log_path stem) pl enc) s" by (simp add: files_seen_def m(1))
  have tr: "tr = tr1" "r = (case r1 of Inl e \<Rightarrow> Inl e | Inr _ \<Rightarrow> Inr ?l)"
    using run q by (simp_all add: io_bind_def split: sum.splits)
  have "\<forall>t \<in> set tr. js_files t \<in> files_seen (append_file (log_path stem) pl enc) s"
    using mutate_files(1) [OF blind q] by (simp add: tr(1) seen)
  moreover have "l = ?l \<and> snd (append_file (log_path stem) pl enc s) = Inr () \<and>
      js_files (store_after s tr) = js_files (store_after s (fst (append_file (log_path stem) pl enc s)))"
    if l: "r = Inr l" for l
  proof -
    obtain v where v: "r1 = Inr v" "l = ?l" using l tr(2) by (auto split: sum.splits)
    have "js_files (store_after s tr1) = js_files (store_after s (fst (?m s))) \<and> (\<exists>b e. snd (?m s) = Inr (v, b, e))"
      by (rule mutate_files(2) [OF blind q v(1)])
    then show ?thesis using m v(2) tr(1) by auto
  qed
  ultimately show ?thesis using runs ok none by blast
qed

text \<open>The result of a load, apart from the length of a torn tail that the next append removes.\<close>

definition loaded_view :: "loaded jres \<Rightarrow> loaded jres" where
  "loaded_view r = (case r of Inl e \<Rightarrow> Inl e | Inr l \<Rightarrow> Inr (l\<lparr>ld_partialTailBytes := 0\<rparr>))"

text \<open>A loaded log that holds one more event than a list of envelopes: the given one, as it is stored.\<close>

definition appends_event :: "url_parser \<Rightarrow> operation_event \<Rightarrow> envelope list \<Rightarrow> loaded \<Rightarrow> bool" where
  "appends_event U ev es l \<longleftrightarrow> (\<exists>e c. ld_envelopes l = es @ [e] \<and> jsonRoundTrip (enc_event ev) = Inr c \<and>
     sorted_value (en_event e) = sorted_value c \<and> dec_event (en_event e) = dec_event c \<and>
     ld_lastEventDigest l = en_eventDigest e \<and> reduceSafely U (map en_event (ld_envelopes l)) = Inr (ld_state l))"

definition loaded_envelopes :: "loaded jres \<Rightarrow> envelope list" where
  "loaded_envelopes r = (case r of Inl e \<Rightarrow> [] | Inr l \<Rightarrow> ld_envelopes l)"

lemma those_append: "those (xs @ ys) = Some zs \<Longrightarrow> \<exists>as bs. those xs = Some as \<and> those ys = Some bs \<and> zs = as @ bs"
  by (induction xs arbitrary: zs) (auto split: option.splits)

lemma reduceSafely_Inr: "reduceSafely U es = Inr s \<longleftrightarrow>
   (\<exists>evs. those (map dec_event es) = Some evs \<and> reduceOperationEvents U evs = Inr s)"
  by (auto simp: reduceSafely_def journal_throw_def split: option.splits sum.splits)

lemma reduce_identity:
  assumes "reduceSafely U (es @ [c]) = Inr s'" "es \<noteq> []"
  obtains s where "reduceSafely U es = Inr s" "st_operationId s = st_operationId s'" "st_requestDigest s = st_requestDigest s'"
proof -
  obtain evs where evs: "those (map dec_event es @ map dec_event [c]) = Some evs" "reduceOperationEvents U evs = Inr s'"
    using assms(1) by (auto simp: reduceSafely_Inr)
  obtain as bs where ab: "those (map dec_event es) = Some as" "those (map dec_event [c]) = Some bs" "evs = as @ bs"
    using those_append [OF evs(1)] by blast
  obtain ev where "bs = [ev]" using ab(2) by (auto split: option.splits)
  moreover have "as \<noteq> []" using ab(1) assms(2) by (cases es) (auto split: option.splits)
  ultimately obtain s where s: "reduceOperationEvents U as = Inr s" "op_step U s ev s'"
    using reduce_prefix evs(2) ab(3) by blast
  have "same_identity s s'" using step_frame(1) [OF s(2)] .
  with s(1) ab(1) that show ?thesis by (auto simp: reduceSafely_Inr same_identity_def)
qed

lemma load_log_of:
  assumes "readLog U H f False = Inr pl" "pl_envelopes pl = es" "es \<noteq> []"
    "reduceSafely U (map en_event es) = Inr s" "st_operationId s = i"
  shows "load_log U H f i None = Inr (loaded_of pl s (en_eventDigest (last es)))"
  using assms by (simp add: load_log_def parsed_state_def expected_digest_def require_def)

text \<open>What is loaded from the old log, with or without a torn tail.\<close>

lemma load_old:
  assumes "readLog U H f True = Inr pl" "reduceSafely U (map en_event (pl_envelopes pl) @ [c]) = Inr s" "st_operationId s = i"
  shows "loaded_envelopes (load_log U H f i None) = pl_envelopes pl"
    "readLog U H g False = Inr (pl\<lparr>pl_exists := True, pl_partialTailBytes := k\<rparr>) \<Longrightarrow>
      loaded_view (load_log U H g i None) = loaded_view (load_log U H f i None)"
proof -
  have "loaded_envelopes (load_log U H f i None) = pl_envelopes pl \<and>
    (readLog U H g False = Inr (pl\<lparr>pl_exists := True, pl_partialTailBytes := k\<rparr>) \<longrightarrow>
      loaded_view (load_log U H g i None) = loaded_view (load_log U H f i None))"
  proof (cases "pl_envelopes pl = []")
    case True
    have "load_log U H f i None = journal_throw ''operation_not_found''"
      using assms(1) True by (cases f) (simp_all add: load_log_def readLog_def journal_throw_def Let_def)
    then show ?thesis using True by (simp add: load_log_def loaded_envelopes_def loaded_view_def journal_throw_def)
  next
    case False
    obtain s0 where s0: "reduceSafely U (map en_event (pl_envelopes pl)) = Inr s0" "st_operationId s0 = i"
      using reduce_identity [OF assms(2)] False assms(3) by auto
    have f: "f \<noteq> None" using assms(1) False by (cases f) (auto simp: readLog_def no_log_def)
    then have "readLog U H f False = Inr pl" using assms(1) by (auto simp: readLog_Some)
    from load_log_of [OF this refl False s0] load_log_of [of U H g _ "pl_envelopes pl", OF _ _ False s0] show ?thesis
      by (simp add: loaded_envelopes_def loaded_view_def loaded_of_def)
  qed
  then show "loaded_envelopes (load_log U H f i None) = pl_envelopes pl"
    "readLog U H g False = Inr (pl\<lparr>pl_exists := True, pl_partialTailBytes := k\<rparr>) \<Longrightarrow>
      loaded_view (load_log U H g i None) = loaded_view (load_log U H f i None)" by blast+
qed

text \<open>One file of a store after a write to another or the same path.\<close>

lemma seen_append_file:
  assumes "js_files t \<in> files_seen (append_file p pl enc) s"
  obtains "js_files t = js_files s"
  | cs r c where "appendRecord (file_at s p) pl enc = (cs, r)" "c \<in> set cs" "js_files t = obj_set (js_files s) p c"
  using assms by (auto simp: files_seen_def append_file_def split: prod.splits)

lemma file_at_set:
  "js_files t = obj_set (js_files s) p c \<Longrightarrow> file_at t q = (if q = p then Some c else file_at s q)"
  by (simp add: file_at_def)

lemma load_extended:
  assumes "readLog U H g False = Inr (extended_log pl e enc)" "next_record U H i n ev pl = Inr (e, enc, s)" "hex_hash H"
    "log_chain H GENESIS_EVENT_DIGEST 0 (pl_envelopes pl)"
  shows "load_log U H g i None = Inr (loaded_of (extended_log pl e enc) s (en_eventDigest e))"
    "appends_event U ev (pl_envelopes pl) (loaded_of (extended_log pl e enc) s (en_eventDigest e))"
proof -
  let ?es = "pl_envelopes pl @ [stored_envelope e]"
  obtain t where t: "reduceSafely U (map en_event (pl_envelopes pl) @ [en_event e]) = Inr s" "st_operationId s = i"
    by (rule next_record_Inr [OF assms(2-4)])
  have r: "reduceSafely U (map en_event ?es) = Inr s" using t(1) by (simp add: reduce_stored)
  show "load_log U H g i None = Inr (loaded_of (extended_log pl e enc) s (en_eventDigest e))"
    using load_log_of [OF assms(1) _ _ r t(2)] by (simp add: extended_log_def stored_envelope_def)
  have "jsonRoundTrip (enc_event ev) = Inr (en_event e)"
    using assms(2) by (auto simp: next_record_def bind_res_Inr Let_def journal_throw_def split: if_splits)
  then show "appends_event U ev (pl_envelopes pl) (loaded_of (extended_log pl e enc) s (en_eventDigest e))"
    unfolding appends_event_def using r
    by (intro exI [of _ "stored_envelope e"] exI [of _ "en_event e"])
      (simp add: loaded_of_def extended_log_def stored_envelope_def)
qed

lemma append_stores:
  assumes "hex_hash H" "journal_append U H mx i n ev s = (tr, r)" "t \<in> set tr"
  shows "loaded_view (journal_load U H i None t) = loaded_view (journal_load U H i None s) \<or>
    (\<exists>l. journal_load U H i None t = Inr l \<and> appends_event U ev (loaded_envelopes (journal_load U H i None s)) l)"
  using assms(2)
proof (cases rule: append_elim)
  case (refused e)
  then show ?thesis using assms(3) by simp
next
  case (runs stem pl e enc st)
  let ?p = "log_path stem"
  have chain: "log_chain H GENESIS_EVENT_DIGEST 0 (pl_envelopes pl)" by (rule readLog_chain [OF runs(5)])
  obtain u where u: "reduceSafely U (map en_event (pl_envelopes pl) @ [en_event e]) = Inr st" "st_operationId st = i"
    by (rule next_record_Inr [OF runs(6) assms(1) chain])
  note old = load_from_log [OF runs(1-4), of U None]
  have "js_files t \<in> files_seen (append_file ?p pl enc) s" using runs(7) assms(3) by blast
  then show ?thesis
  proof (cases rule: seen_append_file)
    case 1
    then show ?thesis using load_files_cong [OF 1, of U H i None] by simp
  next
    case (2 cs rr c)
    note at = file_at_set [OF 2(3)]
    have new: "journal_load U H i None t = load_log U H (Some c) i None"
      using load_from_log [OF runs(1,2), of t U None] runs(3,4) by (simp add: at)
    show ?thesis using append_reads(1) [OF runs(5,6) assms(1) 2(1,2)]
    proof
      assume "\<exists>k. readLog U H (Some c) False = Inr (pl\<lparr>pl_exists := True, pl_partialTailBytes := k\<rparr>)"
      then show ?thesis using load_old(2) [OF runs(5) u] by (auto simp: new old)
    next
      assume x: "readLog U H (Some c) False = Inr (extended_log pl e enc)"
      show ?thesis using load_extended [OF x runs(6) assms(1) chain] load_old(1) [OF runs(5) u] by (auto simp: new old)
    qed
  qed
qed

lemma append_result:
  assumes "hex_hash H" "journal_append U H mx i n ev s = (tr, Inr l)"
  obtains l' where "journal_load U H i None (store_after s tr) = Inr l'" "ld_state l' = ld_state l"
    "ld_lastEventDigest l' = ld_lastEventDigest l" "ld_committedBytes l' = ld_committedBytes l" "ld_partialTailBytes l' = 0"
    "map (\<lambda>e. e\<lparr>en_event := sorted_value (en_event e)\<rparr>) (ld_envelopes l') =
       map (\<lambda>e. e\<lparr>en_event := sorted_value (en_event e)\<rparr>) (ld_envelopes l)"
  using assms(2)
proof (cases rule: append_elim)
  case (refused e)
  then show ?thesis by simp
next
  case (runs stem pl e enc st)
  let ?p = "log_path stem" let ?t = "store_after s tr"
  have chain: "log_chain H GENESIS_EVENT_DIGEST 0 (pl_envelopes pl)" by (rule readLog_chain [OF runs(5)])
  obtain cs r where a: "appendRecord (file_at s ?p) pl enc = (cs, r)" by fastforce
  have l: "l = \<lparr>ld_state = st, ld_envelopes = pl_envelopes pl @ [e], ld_committedBytes = pl_committedBytes pl + length enc,
      ld_partialTailBytes = 0, ld_lastEventDigest = en_eventDigest e\<rparr>"
    "snd (append_file ?p pl enc s) = Inr ()"
    "js_files ?t = js_files (store_after s (fst (append_file ?p pl enc s)))"
    using runs(8) [OF refl] by blast+
  have "r = Inr ()" using l(2) by (simp add: append_file_def a)
  then have c: "cs \<noteq> []" "readLog U H (Some (last cs)) False = Inr (extended_log pl e enc)"
    using append_reads(2) [OF runs(5,6) assms(1) a] by blast+
  have "js_files ?t = obj_set (js_files s) ?p (last cs)"
    using l(3) c(1) by (simp add: append_file_def a store_after_def last_map)
  note at = file_at_set [OF this]
  have new: "journal_load U H i None ?t = load_log U H (Some (last cs)) i None"
    using load_from_log [OF runs(1,2), of ?t U None] runs(3,4) by (simp add: at)
  show ?thesis using that load_extended(1) [OF c(2) runs(6) assms(1) chain]
    by (simp add: new l(1) loaded_of_def extended_log_def stored_envelope_def)
qed

end
