(* ===== verification/Journal_Chain.thy ===== *)
theory Journal_Chain
  imports Journal_Facts
begin

text \<open>
  What the final digest of a log commits to, and the revision check of an append.
\<close>

declare canonicalValue.simps [simp del]

section \<open>The digest commits to the log\<close>

text \<open>The message that is hashed for a record.\<close>

definition record_message :: "envelope \<Rightarrow> string" where
  "record_message e = (case canonicalJson (event_material (en_revision e) (en_previousEventDigest e) (en_event e)) of
     Inl _ \<Rightarrow> [] | Inr t \<Rightarrow> hmac_message EVENT_DOMAIN t)"

definition sorted_envelope :: "envelope \<Rightarrow> envelope" where
  "sorted_envelope e = e\<lparr>en_event := sorted_value (en_event e)\<rparr>"

lemma event_domain_nul: "CHR 0x00 \<notin> set EVENT_DOMAIN"
  by (simp add: EVENT_DOMAIN_def)

lemma material_inject:
  "sorted_value (material_value r p ev) = sorted_value (material_value r' p' ev') \<Longrightarrow>
     r = r' \<and> p = p' \<and> sorted_value ev = sorted_value ev'"
  by (simp add: material_value_def)

lemma digest_commits:
  assumes "journalEventDigest H (en_revision e) (en_previousEventDigest e) (en_event e) = Inr (en_eventDigest e)"
    "journalEventDigest H (en_revision e') (en_previousEventDigest e') (en_event e') = Inr (en_eventDigest e')"
    "en_eventDigest e = en_eventDigest e'" "distinct_keys (en_event e)" "distinct_keys (en_event e')"
    "inj_on H M" "record_message e \<in> M" "record_message e' \<in> M"
  shows "sorted_envelope e = sorted_envelope e'"
proof -
  let ?m = "\<lambda>e. material_value (en_revision e) (en_previousEventDigest e) (en_event e)"
  obtain t t' where t: "canonicalJson (jsv_of (?m e)) = Inr t" "canonicalJson (jsv_of (?m e')) = Inr t'"
    using assms(1,2) by (auto simp: journalEventDigest_def hmacDigest_Inr event_material_value)
  have "EVENT_DOMAIN = EVENT_DOMAIN \<and> t = t'"
  proof (rule hmacDigest_eqD [OF _ _ event_domain_nul event_domain_nul t assms(6)])
    show "hmacDigest H EVENT_DOMAIN (jsv_of (?m e)) = Inr (en_eventDigest e)"
      "hmacDigest H EVENT_DOMAIN (jsv_of (?m e')) = Inr (en_eventDigest e)"
      using assms(1-3) by (simp_all add: journalEventDigest_def event_material_value)
    show "hmac_message EVENT_DOMAIN t \<in> M" "hmac_message EVENT_DOMAIN t' \<in> M"
      using assms(7,8) t by (simp_all add: record_message_def event_material_value)
  qed
  then have "canonicalJson (jsv_of (?m e')) = Inr t" using t(2) by simp
  then obtain c b b' where "canonicalValue (jsv_of (?m e)) 0 empty_budget = Inr (c, b)"
    "canonicalValue (jsv_of (?m e')) 0 empty_budget = Inr (c, b')"
    by (rule canonicalJson_inject [OF t(1)]) (use assms(4,5) in simp_all)
  then have "c = sorted_value (?m e)" "c = sorted_value (?m e')" by (auto dest: jsv_of_result)
  then have "sorted_value (?m e) = sorted_value (?m e')" by simp
  from material_inject [OF this] show ?thesis using assms(3) by (simp add: sorted_envelope_def)
qed

lemma chain_commits:
  assumes "log_chain H p 0 es" "log_chain H p 0 fs" "es \<noteq> []" "fs \<noteq> []" "last_digest p es = last_digest p fs"
    "inj_on H M" "record_message ` set es \<subseteq> M" "record_message ` set fs \<subseteq> M"
  shows "map sorted_envelope es = map sorted_envelope fs"
  using assms(1-5,7,8)
proof (induction es arbitrary: fs rule: rev_induct)
  case (snoc e es)
  obtain fs' f where fs: "fs = fs' @ [f]" using snoc.prems(4) by (metis rev_exhaust)
  have e: "wf_envelope e" "en_revision e = length es + 1" "en_previousEventDigest e = last_digest p es"
    "journalEventDigest H (en_revision e) (en_previousEventDigest e) (en_event e) = Inr (en_eventDigest e)"
    using snoc.prems(1) by auto
  have f: "wf_envelope f" "en_revision f = length fs' + 1" "en_previousEventDigest f = last_digest p fs'"
    "journalEventDigest H (en_revision f) (en_previousEventDigest f) (en_event f) = Inr (en_eventDigest f)"
    using snoc.prems(2) by (auto simp: fs)
  have "sorted_envelope e = sorted_envelope f"
    using digest_commits [OF e(4) f(4) _ _ _ assms(6)] e(1) f(1) snoc.prems(5-7) by (auto simp: fs wf_envelope_def)
  moreover from this have "en_revision e = en_revision f" "en_previousEventDigest e = en_previousEventDigest f"
    by (simp_all add: sorted_envelope_def) (metis envelope.ext_inject envelope.surjective envelope.update_convs(4))+
  moreover have "map sorted_envelope es = map sorted_envelope fs'"
  proof (cases "es = []")
    case True
    then show ?thesis using e(2) f(2) \<open>en_revision e = en_revision f\<close> by simp
  next
    case False
    moreover have "fs' \<noteq> []" using False e(2) f(2) \<open>en_revision e = en_revision f\<close> by auto
    ultimately show ?thesis using snoc.IH [of fs'] snoc.prems e(3) f(3) \<open>en_previousEventDigest e = en_previousEventDigest f\<close>
      by (auto simp: fs)
  qed
  ultimately show ?case by (simp add: fs)
qed simp

text \<open>Two logs that end in the same digest are the same log.\<close>

lemma log_commits:
  assumes "readLog U H (Some b) x = Inr pl" "readLog U H (Some b') x' = Inr pl'"
    "pl_envelopes pl \<noteq> []" "pl_envelopes pl' \<noteq> []"
    "en_eventDigest (last (pl_envelopes pl)) = en_eventDigest (last (pl_envelopes pl'))"
    "inj_on H (set (map record_message (pl_envelopes pl @ pl_envelopes pl')))"
  shows "map sorted_envelope (pl_envelopes pl) = map sorted_envelope (pl_envelopes pl')"
    "parsed_state U pl = parsed_state U pl'"
proof -
  show eq: "map sorted_envelope (pl_envelopes pl) = map sorted_envelope (pl_envelopes pl')"
    by (rule chain_commits [OF readLog_chain [OF assms(1)] readLog_chain [OF assms(2)] assms(3,4) _ assms(6)])
      (use assms(3-5) in \<open>auto simp: last_digest_last\<close>)
  have "map dec_event (map en_event es) = map (dec_event \<circ> en_event \<circ> sorted_envelope) es" for es
    by (simp add: sorted_envelope_def dec_event_reordered)
  then have "map dec_event (map en_event (pl_envelopes pl)) = map dec_event (map en_event (pl_envelopes pl'))"
    using eq by (metis map_map)
  then show "parsed_state U pl = parsed_state U pl'" by (simp add: parsed_state_def reduceSafely_def)
qed

section \<open>The revision check\<close>

lemma loaded_revision:
  assumes "reduceSafely U (map en_event es) = Inr s" shows "st_revision s = int (length es)"
proof -
  have "those xs = Some ys \<Longrightarrow> length ys = length xs" for xs :: "operation_event option list" and ys
    by (induction xs arbitrary: ys) (auto split: option.splits)
  then show ?thesis using assms reduce_reachable by (fastforce simp: reduceSafely_Inr)
qed

lemma append_checks:
  assumes "assertOperationId i = None" "operationStem H i = Inr stem" "is_safe_integer n" "0 \<le> n"
  shows "journal_append U H mx i n ev s = (case assertNoTerminalOrTombstoneForAppend U H stem n s of
     Inl e \<Rightarrow> ([], Inl e)
   | Inr _ \<Rightarrow> (case readLog U H (file_at s (log_path stem)) True of
       Inl e \<Rightarrow> ([], Inl e)
     | Inr pl \<Rightarrow> if int (length (pl_envelopes pl)) \<noteq> n then ([], journal_throw ''revision_conflict'')
         else journal_append U H mx i n ev s))"
proof -
  have c: "lift_check (assertOperationId i) = Inr ()" unfolding assms(1) by (simp add: lift_check_def)
  have "next_record U H i n ev pl = journal_throw ''revision_conflict''" if "int (length (pl_envelopes pl)) \<noteq> n" for pl
    using that by (simp add: next_record_def require_def journal_throw_def)
  then show ?thesis using assms(2-4)
    by (auto simp: journal_append_def io_bind_res c journal_throw_def split: sum.splits)
qed

lemma stale_append:
  assumes "journal_load U H i None s = Inr l" "is_safe_integer n" "0 \<le> n" "n \<noteq> st_revision (ld_state l)"
  shows "\<exists>c. journal_append U H mx i n ev s = ([], Inl (Journal_error c)) \<and> (c = ''revision_conflict'' \<or> c = ''operation_compacted'')"
proof -
  obtain stem where st: "assertOperationId i = None" "operationStem H i = Inr stem" "loadLocked U H stem i None s = Inr l"
    using assms(1) by (auto simp: journal_load_def bind_res_Inr lift_check_def split: option.splits)
  have tomb: "file_at s (tombstone_path stem) = None"
    using st(3) by (auto simp: loadLocked_def Let_def bind_res_Inr journal_throw_def split: if_splits)
  show ?thesis
  proof (cases "file_at s (terminal_path stem) = None")
    case True
    then have l: "load_log U H (file_at s (log_path stem)) i None = Inr l" using st(3) tomb by (simp add: loadLocked_def)
    obtain pl st' where pl: "readLog U H (file_at s (log_path stem)) False = Inr pl" "parsed_state U pl = Inr st'"
      "ld_state l = st'"
      using l by (auto simp: load_log_def bind_res_Inr loaded_of_def journal_throw_def split: if_splits)
    have "readLog U H (file_at s (log_path stem)) True = Inr pl"
      using pl(1) by (cases "file_at s (log_path stem)") (auto simp: readLog_def journal_throw_def)
    moreover have "int (length (pl_envelopes pl)) \<noteq> n" using loaded_revision [OF pl(2) [unfolded parsed_state_def]] pl(3) assms(4) by simp
    moreover have "assertNoTerminalOrTombstoneForAppend U H stem n s = Inr ()"
      using tomb True by (simp add: assertNoTerminalOrTombstoneForAppend_def)
    ultimately show ?thesis using append_checks [OF st(1,2) assms(2,3), of U mx ev s] by (simp add: journal_throw_def)
  next
    case False
    then obtain t where "readTerminal U H (file_at s (terminal_path stem)) = Inr t"
      using st(3) tomb by (auto simp: loadLocked_def load_terminal_def Let_def bind_res_Inr)
    then have "assertNoTerminalOrTombstoneForAppend U H stem n s =
        journal_throw (if n = 0 then ''revision_conflict'' else ''operation_compacted'')"
      using tomb False by (auto simp add: assertNoTerminalOrTombstoneForAppend_def)
    then show ?thesis using append_checks [OF st(1,2) assms(2,3), of U mx ev s] by (simp add: journal_throw_def)
  qed
qed

end
