(* ===== verification/Op_Faithful.thy ===== *)
theory Op_Faithful
  imports Op_Plain
begin

text \<open>
  Reading a record and encoding it again gives the value it was read from, up to the order of
  members: the typed reading loses nothing of a persisted record.
\<close>

declare canonicalValue.simps [simp del]

section \<open>Values that agree up to the order of members\<close>

definition reads_as :: "cjson \<Rightarrow> jsv \<Rightarrow> bool" where
  "reads_as c v \<longleftrightarrow> (\<exists>c'. v = jsv_of c' \<and> sorted_value c' = sorted_value c)"

definition faithful :: "('a \<Rightarrow> jsv) \<Rightarrow> (cjson \<Rightarrow> 'a option) \<Rightarrow> bool" where
  "faithful enc dec \<longleftrightarrow> (\<forall>c x. dec c = Some x \<longrightarrow> distinct_keys c \<longrightarrow> reads_as c (enc x))"

lemma faithfulD: "faithful enc dec \<Longrightarrow> dec c = Some x \<Longrightarrow> distinct_keys c \<Longrightarrow> reads_as c (enc x)"
  by (simp add: faithful_def)

lemma reads_as_refl: "reads_as c (jsv_of c)"
  unfolding reads_as_def by (rule exI [of _ c]) simp

text \<open>Two objects with distinct members are equal up to order when they agree member by member.\<close>

lemma sorted_object_cong:
  assumes "distinct (map fst ps)" "distinct (map fst qs)"
    "\<And>k. map_option sorted_value (map_of ps k) = map_option sorted_value (map_of qs k)"
  shows "sorted_value (CObj ps) = sorted_value (CObj qs)"
proof -
  let ?f = "map (\<lambda>(k, v). (k, sorted_value v))"
  have keys: "map fst (?f xs) = map fst xs" for xs :: "(string \<times> cjson) list" by (simp add: split_def comp_def)
  have "map_of (?f ps) = map_of (?f qs)" using assms(3) by (auto simp: map_of_map_snd fun_eq_iff)
  then have "set (?f ps) = set (?f qs)"
    using map_of_inject_set assms(1,2) keys by metis
  then have "set (sort_key fst (?f ps)) = set (sort_key fst (?f qs))" by simp
  moreover have "distinct (map fst (sort_key fst (?f xs)))" if "distinct (map fst xs)" for xs :: "(string \<times> cjson) list"
    using that keys [of xs] by (metis distinct_sorted_keys)
  moreover have "distinct (map fst (?f ps))" using assms(1) by (simp only: keys)
  then have "inj_on fst (set (?f ps))" by (simp only: distinct_map)
  then have "inj_on fst (set (sort_key fst (?f ps)) \<union> set (sort_key fst (?f qs)))"
    by (simp only: set_sort \<open>set (?f ps) = set (?f qs)\<close> Un_absorb)
  ultimately have "sort_key fst (?f ps) = sort_key fst (?f qs)"
    using assms(1,2) by (intro map_sorted_distinct_set_unique [of fst]) auto
  then show ?thesis by (simp only: sorted_value.simps)
qed

section \<open>Fields\<close>

text \<open>An encoded field against the member it was read from.\<close>

definition field_ok :: "(string \<Rightarrow> cjson option) \<Rightarrow> string \<Rightarrow> jsv option \<Rightarrow> bool" where
  "field_ok f k y \<longleftrightarrow> (case f k of None \<Rightarrow> y = None | Some c \<Rightarrow> (\<exists>v. y = Some v \<and> reads_as c v))"

definition fields_ok :: "(string \<Rightarrow> cjson option) \<Rightarrow> (string \<times> jsv option) list \<Rightarrow> bool" where
  "fields_ok f ps \<longleftrightarrow> list_all (\<lambda>(k, y). field_ok f k y) ps"

lemma fields_ok_simps: "fields_ok f []" "fields_ok f ((k, y) # ps) \<longleftrightarrow> field_ok f k y \<and> fields_ok f ps"
  by (simp_all add: fields_ok_def)

definition members_distinct :: "(string \<Rightarrow> cjson option) \<Rightarrow> bool" where
  "members_distinct f \<longleftrightarrow> (\<forall>k c. f k = Some c \<longrightarrow> distinct_keys c)"

lemma enc_fields_members:
  assumes "fields_ok f ps" "distinct (map fst ps)"
  obtains qs where "enc_fields ps = map (\<lambda>(k, v). (k, Data True (jsv_of v))) qs" "distinct (map fst qs)"
    "\<forall>k. map_option sorted_value (map_of qs k) = (if k \<in> fst ` set ps then map_option sorted_value (f k) else None)"
proof -
  have "\<exists>qs. enc_fields ps = map (\<lambda>(k, v). (k, Data True (jsv_of v))) qs \<and> distinct (map fst qs) \<and>
    (\<forall>k. map_option sorted_value (map_of qs k) = (if k \<in> fst ` set ps then map_option sorted_value (f k) else None))"
    using assms
  proof (induction ps)
    case (Cons p ps)
    obtain k y where p: "p = (k, y)" by fastforce
    obtain qs where qs: "enc_fields ps = map (\<lambda>(k, v). (k, Data True (jsv_of v))) qs" "distinct (map fst qs)"
      "\<forall>k. map_option sorted_value (map_of qs k) = (if k \<in> fst ` set ps then map_option sorted_value (f k) else None)"
      using Cons by (auto simp: p fields_ok_simps)
    have k: "k \<notin> fst ` set ps" using Cons.prems(2) by (simp add: p)
    then have "map_of qs k = None" using qs(3) by (metis option.map_disc_iff)
    then have kq: "k \<notin> fst ` set qs" by (simp add: map_of_eq_None_iff)
    have ok: "field_ok f k y" using Cons.prems(1) by (simp add: p fields_ok_simps)
    show ?case
    proof (cases "f k")
      case None
      then have "y = None" using ok by (simp add: field_ok_def)
      then show ?thesis using qs k None by (intro exI [of _ qs]) (auto simp: p)
    next
      case (Some c)
      then obtain c' where "y = Some (jsv_of c')" "sorted_value c' = sorted_value c"
        using ok by (auto simp: field_ok_def reads_as_def)
      then show ?thesis using qs k kq Some by (intro exI [of _ "(k, c') # qs"]) (auto simp: p)
    qed
  qed simp
  then obtain qs where "enc_fields ps = map (\<lambda>(k, v). (k, Data True (jsv_of v))) qs" "distinct (map fst qs)"
    "\<forall>k. map_option sorted_value (map_of qs k) = (if k \<in> fst ` set ps then map_option sorted_value (f k) else None)"
    by (elim exE conjE)
  then show ?thesis by (rule that)
qed

lemma faithful_rec:
  assumes "Op_Decode.fields ks c = Some f" "distinct_keys c" "fields_ok f ps" "distinct (map fst ps)" "set ks \<subseteq> fst ` set ps"
  shows "reads_as c (enc_rec ps)"
proof -
  obtain cs where c: "c = CObj cs" "f = map_of cs" "set (map fst cs) \<subseteq> set ks"
    using assms(1) by (auto simp: Op_Decode.fields_def list_all_iff split: cjson.splits if_splits)
  obtain qs where qs: "enc_fields ps = map (\<lambda>(k, v). (k, Data True (jsv_of v))) qs" "distinct (map fst qs)"
    "\<forall>k. map_option sorted_value (map_of qs k) = (if k \<in> fst ` set ps then map_option sorted_value (f k) else None)"
    by (rule enc_fields_members [OF assms(3,4)])
  have "enc_rec ps = jsv_of (CObj qs)" by (simp add: enc_rec_fields qs(1))
  moreover have "sorted_value (CObj qs) = sorted_value (CObj cs)"
  proof (rule sorted_object_cong [OF qs(2)])
    show "distinct (map fst cs)" using assms(2) by (simp add: c(1))
    fix k
    show "map_option sorted_value (map_of qs k) = map_option sorted_value (map_of cs k)"
    proof (cases "k \<in> fst ` set ps")
      case False
      then have "k \<notin> fst ` set cs" using c(3) assms(5) by auto
      then have "map_of cs k = None" by (simp add: map_of_eq_None_iff)
      then show ?thesis using spec [OF qs(3), of k] False by simp
    qed (use qs(3) in \<open>simp add: c(2)\<close>)
  qed
  ultimately show ?thesis unfolding reads_as_def c(1) by blast
qed

lemma fields_distinct: "Op_Decode.fields ks c = Some f \<Longrightarrow> distinct_keys c \<Longrightarrow> members_distinct f"
  by (auto simp: Op_Decode.fields_def members_distinct_def list_all_iff split: cjson.splits if_splits dest!: map_of_SomeD)

named_theorems field_intros "encoded fields agree with what they were read from"

lemma field_scalar [field_intros]:
  "d_str (f k) = Some a \<Longrightarrow> field_ok f k (js a)" "d_int (f k) = Some i \<Longrightarrow> field_ok f k (jn i)"
  "d_bool (f k) = Some b \<Longrightarrow> field_ok f k (jb b)"
  using reads_as_refl [of "CStr a"] reads_as_refl [of "CNum i"] reads_as_refl [of "CBool b"]
  by (auto simp: field_ok_def d_str_def d_int_def d_bool_def jfield_defs split: option.splits cjson.splits)

lemma field_req:
  "faithful enc dec \<Longrightarrow> d_req dec (f k) = Some a \<Longrightarrow> members_distinct f \<Longrightarrow> field_ok f k (Some (enc a))"
  by (cases "f k") (auto simp: field_ok_def d_req_def members_distinct_def dest: faithfulD)

lemma field_opt:
  "faithful enc dec \<Longrightarrow> d_opt dec (f k) = Some x \<Longrightarrow> members_distinct f \<Longrightarrow> field_ok f k (map_option enc x)"
  by (auto simp: field_ok_def d_opt_def members_distinct_def dest: faithfulD split: option.splits)

lemma d_opt_scalar:
  "d_opt (d_str \<circ> Some) x = Some y \<Longrightarrow> (case x of None \<Rightarrow> y = None | Some c \<Rightarrow> \<exists>s. c = CStr s \<and> y = Some s)"
  "d_opt (d_int \<circ> Some) x = Some z \<Longrightarrow> (case x of None \<Rightarrow> z = None | Some c \<Rightarrow> \<exists>i. c = CNum i \<and> z = Some i)"
  by (auto simp: d_opt_def d_str_def d_int_def split: option.splits cjson.splits)

lemma field_opt_scalar [field_intros]:
  "d_opt (d_str \<circ> Some) (f k) = Some y \<Longrightarrow> field_ok f k (jso y)"
  "d_opt (d_int \<circ> Some) (f k) = Some z \<Longrightarrow> field_ok f k (jno z)"
  using d_opt_scalar [of "f k"] reads_as_refl [of "CStr _"] reads_as_refl [of "CNum _"]
  by (auto simp: field_ok_def jfield_defs split: option.splits)

lemma field_opt_enum [field_intros]:
  "d_opt (d_enum g \<circ> Some) (f k) = Some y \<Longrightarrow> (\<And>s. text (g s) = s) \<Longrightarrow> field_ok f k (map_option (JStr \<circ> text) y)"
  using reads_as_refl [of "CStr _"]
  by (auto simp: field_ok_def d_opt_def d_enum_def d_str_def split: option.splits cjson.splits)

text \<open>Arrays and dictionaries.\<close>

lemma those_Cons: "those (x # xs) = Some ys \<longleftrightarrow> (\<exists>a as. x = Some a \<and> those xs = Some as \<and> ys = a # as)"
  by (auto split: option.splits)

lemma faithful_list: "faithful enc dec \<Longrightarrow> faithful (JArr \<circ> map enc) (d_list dec)"
proof -
  assume e: "faithful enc dec"
  have el: "\<exists>cs'. map enc ys = map jsv_of cs' \<and> map sorted_value cs' = map sorted_value cs"
    if "those (map dec cs) = Some ys" "list_all distinct_keys cs" for cs ys
    using that
  proof (induction cs arbitrary: ys)
    case (Cons c cs)
    obtain a as where a: "dec c = Some a" "those (map dec cs) = Some as" "ys = a # as"
      using Cons.prems(1) by (auto simp: those_Cons simp del: those.simps)
    obtain c' where "enc a = jsv_of c'" "sorted_value c' = sorted_value c"
      using faithfulD [OF e a(1)] Cons.prems(2) by (auto simp: reads_as_def)
    moreover obtain cs' where "map enc as = map jsv_of cs'" "map sorted_value cs' = map sorted_value cs"
      using Cons.IH [OF a(2)] Cons.prems(2) by auto
    ultimately show ?case by (intro exI [of _ "c' # cs'"]) (simp add: a(3))
  qed simp
  show ?thesis unfolding faithful_def
  proof (intro allI impI)
    fix c ys assume "d_list dec c = Some ys" "distinct_keys c"
    then obtain cs where c: "c = CArr cs" "those (map dec cs) = Some ys" "list_all distinct_keys cs"
      by (auto simp: d_list_def split: cjson.splits)
    obtain cs' where "map enc ys = map jsv_of cs'" "map sorted_value cs' = map sorted_value cs" using el [OF c(2,3)] by blast
    then show "reads_as c ((JArr \<circ> map enc) ys)" unfolding reads_as_def c(1) by (intro exI [of _ "CArr cs'"]) simp
  qed
qed

lemma faithful_dict: "faithful enc dec \<Longrightarrow> faithful (enc_dict enc) (d_dict dec)"
proof -
  assume e: "faithful enc dec"
  have el: "\<exists>qs. map (\<lambda>(k, v). (k, Data True (enc v))) ob = map (\<lambda>(k, v). (k, Data True (jsv_of v))) qs \<and>
      map fst qs = map fst ps \<and> map (\<lambda>(k, v). (k, sorted_value v)) qs = map (\<lambda>(k, v). (k, sorted_value v)) ps"
    if "those (map (\<lambda>(k, v). map_option (Pair k) (dec v)) ps) = Some ob" "list_all (\<lambda>(k, v). distinct_keys v) ps" for ps ob
    using that
  proof (induction ps arbitrary: ob)
    case (Cons p ps)
    obtain k c where p: "p = (k, c)" by fastforce
    obtain a as where a: "dec c = Some a" "those (map (\<lambda>(k, v). map_option (Pair k) (dec v)) ps) = Some as" "ob = (k, a) # as"
      using Cons.prems(1) by (auto simp: those_Cons p simp del: those.simps)
    obtain c' where "enc a = jsv_of c'" "sorted_value c' = sorted_value c"
      using faithfulD [OF e a(1)] Cons.prems(2) by (auto simp: reads_as_def p)
    moreover obtain qs where "map (\<lambda>(k, v). (k, Data True (enc v))) as = map (\<lambda>(k, v). (k, Data True (jsv_of v))) qs"
      "map fst qs = map fst ps" "map (\<lambda>(k, v). (k, sorted_value v)) qs = map (\<lambda>(k, v). (k, sorted_value v)) ps"
      using Cons.IH [OF a(2)] Cons.prems(2) by auto
    ultimately show ?case by (intro exI [of _ "(k, c') # qs"]) (simp add: a(3) p)
  qed simp
  show ?thesis unfolding faithful_def
  proof (intro allI impI)
    fix c ob assume "d_dict dec c = Some ob" "distinct_keys c"
    then obtain ps where c: "c = CObj ps" "those (map (\<lambda>(k, v). map_option (Pair k) (dec v)) ps) = Some ob"
      "list_all (\<lambda>(k, v). distinct_keys v) ps"
      by (auto simp: d_dict_def split: cjson.splits)
    obtain qs where "map (\<lambda>(k, v). (k, Data True (enc v))) ob = map (\<lambda>(k, v). (k, Data True (jsv_of v))) qs"
      "map (\<lambda>(k, v). (k, sorted_value v)) qs = map (\<lambda>(k, v). (k, sorted_value v)) ps" using el [OF c(2,3)] by blast
    then show "reads_as c (enc_dict enc ob)" unfolding reads_as_def c(1) enc_dict_def
      by (intro exI [of _ "CObj qs"]) simp
  qed
qed

lemma faithful_strings: "faithful JStr (d_str \<circ> Some)"
  using reads_as_refl [of "CStr _"] by (auto simp: faithful_def d_str_def split: cjson.splits)

section \<open>The records\<close>

lemma texts_of [simp]:
  "surface_text (surface_of s) = s" "phase_text (phase_of s) = s" "boundary_text (boundary_of s) = s"
  "policy_text (policy_of s) = s" "kind_text (kind_of s) = s" "outcome_text (outcome_of s) = s"
  "requirement_text (requirement_of s) = s" "scope_text (scope_of s) = s" "lifecycle_text (lifecycle_of s) = s"
  "content_text (content_of s) = s" "format_text (format_of s) = s" "artifacts_text (artifacts_of s) = s"
  "artifact_kind_text (artifact_kind_of s) = s" "artifact_status_text (artifact_status_of s) = s"
  "turn_state_text (turn_state_of s) = s" "reason_text (reason_of s) = s"
  by (simp_all add: surface_of_def phase_of_def boundary_of_def policy_of_def kind_of_def outcome_of_def
      requirement_of_def scope_of_def lifecycle_of_def content_of_def format_of_def artifacts_of_def
      artifact_kind_of_def artifact_status_of_def turn_state_of_def reason_of_def)

lemma faithfulI:
  assumes "\<And>c f x. Op_Decode.fields ks c = Some f \<Longrightarrow> distinct_keys c \<Longrightarrow> members_distinct f \<Longrightarrow> g f = Some x \<Longrightarrow>
      \<exists>ps. enc x = enc_rec ps \<and> fields_ok f ps \<and> distinct (map fst ps) \<and> set ks \<subseteq> fst ` set ps"
  shows "faithful enc (\<lambda>c. Option.bind (Op_Decode.fields ks c) g)"
  unfolding faithful_def
proof (intro allI impI)
  fix c x assume "Option.bind (Op_Decode.fields ks c) g = Some x" and d: "distinct_keys c"
  then obtain f where f: "Op_Decode.fields ks c = Some f" "g f = Some x" by (auto simp: Option.bind_eq_Some_conv)
  obtain ps where "enc x = enc_rec ps" "fields_ok f ps" "distinct (map fst ps)" "set ks \<subseteq> fst ` set ps"
    using assms [OF f(1) d fields_distinct [OF f(1) d] f(2)] by blast
  then show "reads_as c (enc x)" using faithful_rec [OF f(1) d] by simp
qed

lemma d_enum_text: "d_enum g x = Some a \<Longrightarrow> (\<And>s. text (g s) = s) \<Longrightarrow> d_str x = Some (text a)"
  by (auto simp: d_enum_def)

lemma enum_dests:
  "d_enum surface_of x = Some a0 \<Longrightarrow> d_str x = Some (surface_text a0)"
  "d_enum phase_of x = Some a1 \<Longrightarrow> d_str x = Some (phase_text a1)"
  "d_enum boundary_of x = Some a2 \<Longrightarrow> d_str x = Some (boundary_text a2)"
  "d_enum policy_of x = Some a3 \<Longrightarrow> d_str x = Some (policy_text a3)"
  "d_enum kind_of x = Some a4 \<Longrightarrow> d_str x = Some (kind_text a4)"
  "d_enum outcome_of x = Some a5 \<Longrightarrow> d_str x = Some (outcome_text a5)"
  "d_enum requirement_of x = Some a6 \<Longrightarrow> d_str x = Some (requirement_text a6)"
  "d_enum scope_of x = Some a7 \<Longrightarrow> d_str x = Some (scope_text a7)"
  "d_enum lifecycle_of x = Some a8 \<Longrightarrow> d_str x = Some (lifecycle_text a8)"
  "d_enum content_of x = Some a9 \<Longrightarrow> d_str x = Some (content_text a9)"
  "d_enum format_of x = Some a10 \<Longrightarrow> d_str x = Some (format_text a10)"
  "d_enum artifacts_of x = Some a11 \<Longrightarrow> d_str x = Some (artifacts_text a11)"
  "d_enum artifact_kind_of x = Some a12 \<Longrightarrow> d_str x = Some (artifact_kind_text a12)"
  "d_enum artifact_status_of x = Some a13 \<Longrightarrow> d_str x = Some (artifact_status_text a13)"
  "d_enum turn_state_of x = Some a14 \<Longrightarrow> d_str x = Some (turn_state_text a14)"
  "d_enum reason_of x = Some a15 \<Longrightarrow> d_str x = Some (reason_text a15)"
  by (auto simp: d_enum_def)

lemma field_list: "faithful enc dec \<Longrightarrow> d_req (d_list dec) (f k) = Some xs \<Longrightarrow> members_distinct f \<Longrightarrow>
    field_ok f k (Some (JArr (map enc xs)))"
  using field_req [OF faithful_list, of enc dec f k xs] by simp

lemma field_strings [field_intros]: "d_opt (d_list (d_str \<circ> Some)) (f k) = Some y \<Longrightarrow> members_distinct f \<Longrightarrow>
    field_ok f k (map_option (JArr \<circ> map JStr) y)"
  by (rule field_opt [OF faithful_list [OF faithful_strings]])

lemma faithful_identity: "faithful enc_identity dec_identity"
  unfolding dec_identity_def [abs_def]
proof (rule faithfulI)
  fix f :: "string \<Rightarrow> cjson option" and x
  assume "(d_str (f ''status'') \<bind> (\<lambda>status'.
      if status' = ''available'' \<and> f ''reason'' = None then map_option Available (d_str (f ''value''))
      else if status' = ''unavailable'' \<and> f ''value'' = None then map_option Unavailable (d_enum reason_of (f ''reason''))
      else None)) = Some x"
  then consider v where "x = Available v" "d_str (f ''status'') = Some ''available''" "f ''reason'' = None" "d_str (f ''value'') = Some v"
    | r where "x = Unavailable r" "d_str (f ''status'') = Some ''unavailable''" "f ''value'' = None" "d_str (f ''reason'') = Some (reason_text r)"
    by (auto simp: Option.bind_eq_Some_conv split: if_splits dest: enum_dests)
  then show "\<exists>ps. enc_identity x = enc_rec ps \<and> fields_ok f ps \<and> distinct (map fst ps) \<and>
      set [''status'', ''value'', ''reason''] \<subseteq> fst ` set ps"
  proof cases
    case 1
    then show ?thesis
      by (intro exI [of _ "[(''status'', js ''available''), (''value'', js v), (''reason'', None)]"])
        (auto simp: fields_ok_simps enc_rec_def field_ok_def [of f "''reason''"] jfield_defs intro!: field_scalar(1) [unfolded jfield_defs])
  next
    case 2
    then show ?thesis
      by (intro exI [of _ "[(''status'', js ''unavailable''), (''reason'', js (reason_text r)), (''value'', None)]"])
        (auto simp: fields_ok_simps enc_rec_def field_ok_def [of f "''value''"] jfield_defs intro!: field_scalar(1) [unfolded jfield_defs])
  qed
qed

lemmas identity_fields [field_intros] = faithful_identity [THEN field_req]

lemma faithful_leaves:
  "faithful enc_capture_policy dec_capture_policy"
  "faithful enc_profile dec_profile"
  "faithful enc_establishment dec_establishment"
  "faithful enc_turn dec_turn"
  "faithful enc_witness dec_witness"
  "faithful enc_action_intent dec_action_intent"
  "faithful enc_action_record dec_action_record"
  "faithful enc_transfer_intent dec_transfer_intent"
  "faithful enc_transfer_receipt dec_transfer_receipt"
  "faithful enc_artifact_receipt dec_artifact_receipt"
  "faithful enc_blocker dec_blocker"
  unfolding dec_capture_policy_def [abs_def] dec_profile_def [abs_def] dec_establishment_def [abs_def] dec_turn_def [abs_def] dec_witness_def [abs_def] dec_action_intent_def [abs_def] dec_action_record_def [abs_def] dec_transfer_intent_def [abs_def] dec_transfer_receipt_def [abs_def] dec_artifact_receipt_def [abs_def] dec_blocker_def [abs_def]
  by (rule faithfulI, clarsimp simp: Option.bind_eq_Some_conv enc_capture_policy_def enc_profile_def enc_establishment_def enc_turn_def enc_witness_def enc_action_intent_def enc_action_record_def enc_transfer_intent_def enc_transfer_receipt_def enc_artifact_receipt_def enc_blocker_def,
      rule exI, rule conjI, rule refl, auto simp: fields_ok_simps intro!: field_intros dest: enum_dests)+

lemmas faithful_leaves_fields [field_intros] = faithful_leaves [THEN field_req] faithful_leaves [THEN field_opt]
lemmas list_fields [field_intros] = faithful_leaves [THEN field_list]

lemma faithful_parts:
  "faithful enc_target dec_target"
  "faithful enc_ownership_target dec_ownership_target"
  "faithful enc_transfer_state dec_transfer_state"
  "faithful enc_receipt dec_receipt"
  unfolding dec_target_def [abs_def] dec_ownership_target_def [abs_def] dec_transfer_state_def [abs_def] dec_receipt_def [abs_def]
  by (rule faithfulI, clarsimp simp: Option.bind_eq_Some_conv enc_target_def enc_ownership_target_def enc_transfer_state_def enc_receipt_def,
      rule exI, rule conjI, rule refl, auto simp: fields_ok_simps intro!: field_intros dest: enum_dests)+

lemmas faithful_parts_fields [field_intros] = faithful_parts [THEN field_req] faithful_parts [THEN field_opt]

lemma faithful_snapshot:
  "faithful enc_snapshot dec_snapshot"
  unfolding dec_snapshot_def [abs_def]
  by (rule faithfulI, clarsimp simp: Option.bind_eq_Some_conv enc_snapshot_def,
      rule exI, rule conjI, rule refl, auto simp: fields_ok_simps intro!: field_intros dest: enum_dests)+

lemmas faithful_snapshot_fields [field_intros] = faithful_snapshot [THEN field_req] faithful_snapshot [THEN field_opt]

lemma faithful_baseline:
  "faithful enc_baseline dec_baseline"
  unfolding dec_baseline_def [abs_def]
  by (rule faithfulI, clarsimp simp: Option.bind_eq_Some_conv enc_baseline_def,
      rule exI, rule conjI, rule refl, auto simp: fields_ok_simps intro!: field_intros dest: enum_dests)+

lemmas faithful_baseline_fields [field_intros] = faithful_baseline [THEN field_req] faithful_baseline [THEN field_opt]

lemmas dict_fields [field_intros] = faithful_leaves [THEN faithful_dict, THEN field_req] faithful_leaves [THEN faithful_dict, THEN field_opt]
  faithful_parts [THEN faithful_dict, THEN field_opt] faithful_baseline [THEN faithful_dict, THEN field_opt]

theorem faithful_state: "faithful enc_state dec_state"
  unfolding dec_state_def [abs_def]
  by (rule faithfulI, clarsimp simp: Option.bind_eq_Some_conv enc_state_def,
      rule exI, rule conjI, rule refl, auto simp: fields_ok_simps intro!: field_intros dest: enum_dests)+

lemma state_text:
  assumes "dec_state c = Some s" "distinct_keys c"
  shows "canonicalJson (enc_state s) = canonicalJson (jsv_of c)"
proof -
  obtain c' where c': "enc_state s = jsv_of c'" "sorted_value c' = sorted_value c"
    using faithfulD [OF faithful_state assms] by (auto simp: reads_as_def)
  have "canonicalValue (jsv_of c') 0 empty_budget = canonicalValue (jsv_of c) 0 empty_budget"
    using canonicalValue_sorted [of c' 0 empty_budget] canonicalValue_sorted [of c 0 empty_budget] c'(2) by simp
  then show ?thesis by (simp only: canonicalJson_def c'(1))
qed

end
