(* ===== verification/Journal_Compaction.thy ===== *)
theory Journal_Compaction
  imports Journal_Chain Op_Faithful
begin

text \<open>
  Compaction: the terminal record is written beside the log, read back and reconciled with it, and
  only then the log is removed. At each of these points a load finds the same operation.
\<close>

declare canonicalValue.simps [simp del]

section \<open>Record files\<close>

lemma withoutField_distinct: "distinct (map fst ps) \<Longrightarrow> distinct (map fst (withoutField ps f))"
  unfolding withoutField_def by (induction ps) auto

lemma readAuthenticatedFile_Inr:
  assumes "readAuthenticatedFile H f D field code = Inr ps"
  obtains b where "f = Some b" "distinct_keys (CObj ps)"
  using assms
  by (auto simp: readAuthenticatedFile_def journal_throw_def bind_res_Inr Option.bind_eq_Some_conv
      dest: json_parse_distinct split: option.splits if_splits cjson.splits)

lemma completed_Inr:
  assumes "assertCompletedState s i = Inr u"
  shows "st_operationId s = i" "st_phase s = Completed" "st_receipt s \<noteq> None"
  using assms by (auto simp: assertCompletedState_def journal_throw_def split: if_splits option.splits)

lemma readTerminal_Inr:
  assumes "readTerminal U H f = Inr t"
  shows "f \<noteq> None" "dec_state (tm_value t) = Some (tm_state t)" "distinct_keys (tm_value t)"
    "st_requestDigest (tm_state t) = tm_requestDigest t" "st_revision (tm_state t) = tm_revision t"
    "assertCompletedState (tm_state t) (tm_operationId t) = Inr ()"
proof -
  obtain ps where ps: "readAuthenticatedFile H f TERMINAL_DOMAIN ''terminalDigest'' ''journal_terminal_corrupt'' = Inr ps"
    "map_of ps ''state'' = Some (tm_value t)" "dec_state (tm_value t) = Some (tm_state t)"
    "terminal_state_checks U ps t = Inr ()"
    using assms by (auto simp: readTerminal_def journal_throw_def bind_res_Inr Let_def split: if_splits option.splits)
  obtain b where b: "f = Some b" "distinct_keys (CObj ps)" by (rule readAuthenticatedFile_Inr [OF ps(1)])
  show "f \<noteq> None" "dec_state (tm_value t) = Some (tm_state t)" using b ps by simp_all
  show "distinct_keys (tm_value t)" using b(2) map_of_SomeD [OF ps(2)] by (auto simp: list_all_iff)
  show "st_requestDigest (tm_state t) = tm_requestDigest t" "st_revision (tm_state t) = tm_revision t"
    "assertCompletedState (tm_state t) (tm_operationId t) = Inr ()"
    using ps(4) by (auto simp: terminal_state_checks_def Let_def journal_throw_def bind_res_Inr split: if_splits)
qed

lemma require_same_text_Inr: "require_same_text v w = Inr u \<longleftrightarrow> (\<exists>t. canonicalJson v = Inr t \<and> canonicalJson w = Inr t)"
  by (auto simp: require_same_text_def same_text_def bind_res_Inr require_def journal_throw_def)

lemma reconcile_Inr:
  assumes "reconcileTerminalWithLog U t pl i = Inr u"
  obtains s x where "pl_envelopes pl \<noteq> []" "parsed_state U pl = Inr s" "assertCompletedState s i = Inr ()"
    "tm_operationId t = st_operationId s" "tm_requestDigest t = st_requestDigest s" "tm_revision t = st_revision s"
    "tm_lastEventDigest t = en_eventDigest (last (pl_envelopes pl))"
    "canonicalJson (jsv_of (tm_value t)) = Inr x" "canonicalJson (enc_state s) = Inr x"
  using assms by (auto simp: reconcileTerminalWithLog_def bind_res_Inr journal_throw_def require_same_text_Inr split: if_splits)

text \<open>Two loads of the same operation: the canonical text of the state and the final digest agree.\<close>

definition same_operation :: "loaded \<Rightarrow> loaded \<Rightarrow> bool" where
  "same_operation l l' \<longleftrightarrow> ld_lastEventDigest l' = ld_lastEventDigest l \<and>
     st_operationId (ld_state l') = st_operationId (ld_state l) \<and>
     st_requestDigest (ld_state l') = st_requestDigest (ld_state l) \<and>
     st_revision (ld_state l') = st_revision (ld_state l) \<and>
     canonicalJson (enc_state (ld_state l')) = canonicalJson (enc_state (ld_state l))"

lemma same_operation_refl [simp]: "same_operation l l"
  by (simp add: same_operation_def)

text \<open>The loads of a log and of the terminal it is reconciled with.\<close>

lemma reconciled_loads:
  assumes "readTerminal U H f = Inr t" "readLog U H g False = Inr pl" "reconcileTerminalWithLog U t pl i = Inr ()"
  obtains l where "load_log U H g i None = Inr l" "same_operation l l"
    "load_terminal U H f g i None = Inr (loaded_of pl (tm_state t) (tm_lastEventDigest t))"
    "same_operation l (loaded_of pl (tm_state t) (tm_lastEventDigest t))"
    "load_terminal U H f None i None = Inr (terminalLoaded t)" "same_operation l (terminalLoaded t)"
    "ld_lastEventDigest l = tm_lastEventDigest t"
proof -
  note t = readTerminal_Inr [OF assms(1)]
  obtain s x where s: "pl_envelopes pl \<noteq> []" "parsed_state U pl = Inr s" "assertCompletedState s i = Inr ()"
    "tm_operationId t = st_operationId s" "tm_requestDigest t = st_requestDigest s" "tm_revision t = st_revision s"
    "tm_lastEventDigest t = en_eventDigest (last (pl_envelopes pl))"
    "canonicalJson (jsv_of (tm_value t)) = Inr x" "canonicalJson (enc_state s) = Inr x"
    by (rule reconcile_Inr [OF assms(3)])
  note c = completed_Inr [OF s(3)] and d = completed_Inr [OF t(6)]
  have canon: "canonicalJson (enc_state (tm_state t)) = Inr x" using state_text [OF t(2,3)] s(8) by simp
  have i: "tm_operationId t = i" using s(4) c(1) by simp
  have g: "g \<noteq> None" using assms(2) by (cases g) (auto simp: readLog_def journal_throw_def)
  let ?l = "loaded_of pl s (en_eventDigest (last (pl_envelopes pl)))"
  have "load_log U H g i None = Inr ?l"
    using assms(2) s(1,2) c(1) by (simp add: load_log_def expected_digest_def require_def)
  moreover have "load_terminal U H f g i None = Inr (loaded_of pl (tm_state t) (tm_lastEventDigest t))"
    "load_terminal U H f None i None = Inr (terminalLoaded t)"
    using assms g i by (auto simp: load_terminal_def expected_digest_def require_def)
  moreover have "same_operation ?l ?l" "same_operation ?l (loaded_of pl (tm_state t) (tm_lastEventDigest t))"
    "same_operation ?l (terminalLoaded t)" "ld_lastEventDigest ?l = tm_lastEventDigest t"
    using s t d i c canon by (simp_all add: same_operation_def loaded_of_def terminalLoaded_def)
  ultimately show ?thesis using that by blast
qed

section \<open>The effects of compaction\<close>

lemma blind_get: "(\<And>x. quota_blind (f x)) \<Longrightarrow> quota_blind (io_bind (io_get (\<lambda>s. file_at s p)) f)"
  by (rule quota_blind_bind [OF quota_blind_pure(4)])

lemma quota_blind_exists: "quota_blind (pathExists p)"
  by (auto simp: quota_blind_def pathExists_def file_at_def)

lemma blind_exists: "(\<And>x. quota_blind (f x)) \<Longrightarrow> quota_blind (io_bind (pathExists p) f)"
  by (rule quota_blind_bind [OF quota_blind_exists])

lemma blind_put: "(\<And>s t. js_files s = js_files t \<Longrightarrow> js_files (h s) = js_files (h t)) \<Longrightarrow> quota_blind (io_put h)"
  unfolding quota_blind_def io_simps fst_conv snd_conv list.map by blast

lemma blind_branches:
  "quota_blind a \<Longrightarrow> quota_blind b \<Longrightarrow> quota_blind (if c then a else b)"
  "quota_blind a \<Longrightarrow> (\<And>x. quota_blind (g x)) \<Longrightarrow> quota_blind (case y of None \<Rightarrow> a | Some x \<Rightarrow> g x)"
  by (auto split: option.split)

lemma blind_write: "quota_blind (writeAtomicJson p ps b)"
  unfolding writeAtomicJson_def
  by (intro quota_blind_bind quota_blind_pure quota_blind_exists blind_branches blind_put) simp

lemma blind_record: "quota_blind w \<Longrightarrow> quota_blind (record_mutation p w)"
  unfolding record_mutation_def by (intro quota_blind_bind quota_blind_pure blind_branches)

lemma write_trace:
  assumes "writeAtomicJson p ps b s = (tr, r)"
  obtains e where "tr = []" "r = Inl e"
  | w t where "tr = [w]" "r = Inr ()" "canonicalJson (jsv_of (CObj ps)) = Inr t" "file_at s p = None \<or> b"
      "js_files w = obj_set (js_files s) p (utf8 (t @ [NEWLINE]))"
  using assms
  by (auto simp: writeAtomicJson_def io_bind_res pathExists_def journal_throw_def lift_js_def split: sum.splits if_splits)

lemma authenticated_trace:
  assumes "writeAuthenticatedAtomic H p ps D field b s = (tr, r)"
  obtains e where "tr = []" "r = Inl e"
  | w c where "tr = [w]" "r = Inr ()" "file_at s p = None \<or> b" "js_files w = obj_set (js_files s) p c"
  using assms unfolding writeAuthenticatedAtomic_def
  by (auto simp: io_bind_res split: sum.splits elim!: write_trace)

text \<open>A record mutation goes through the files without and with the new record.\<close>

definition record_files :: "string \<Rightarrow> unit io \<Rightarrow> bool \<Rightarrow> bool" where
  "record_files p w b \<longleftrightarrow> quota_blind w \<and> (\<forall>s tr r. w s = (tr, r) \<longrightarrow>
     (tr = [] \<and> (\<exists>e. r = Inl e)) \<or>
     (\<exists>x c. tr = [x] \<and> r = Inr () \<and> (file_at s p = None \<or> b) \<and> js_files x = obj_set (js_files s) p c))"

lemma record_files_write: "record_files p (writeAtomicJson p ps b) b"
  unfolding record_files_def using blind_write write_trace by metis

lemma blind_authenticated: "quota_blind (writeAuthenticatedAtomic H p ps D field b)"
  unfolding writeAuthenticatedAtomic_def by (intro quota_blind_bind quota_blind_pure blind_write)

lemma record_files_authenticated: "record_files p (writeAuthenticatedAtomic H p ps D field b) b"
  unfolding record_files_def using blind_authenticated authenticated_trace by metis

lemma record_trace:
  assumes "record_files p w b" "mutateQuotaTrackedState (record_mutation p w) pre s = (tr, r)"
  shows "\<forall>t \<in> set tr. js_files t = js_files s \<or> ((file_at s p = None \<or> b) \<and> (\<exists>c. js_files t = obj_set (js_files s) p c))"
    "r = Inr () \<Longrightarrow> \<exists>c. js_files (store_after s tr) = obj_set (js_files s) p c \<and> (file_at s p = None \<or> b) \<and>
       (\<forall>t \<in> set tr. js_files t = js_files s \<or> js_files t = obj_set (js_files s) p c)"
proof -
  have blind: "quota_blind (record_mutation p w)" using assms(1) blind_record by (simp add: record_files_def)
  obtain tr' r' where w: "w s = (tr', r')" by fastforce
  have m: "fst (record_mutation p w s) = tr'"
    by (auto simp: record_mutation_def io_bind_def io_get_def w journal_throw_def split: sum.splits option.splits)
  have ok: "snd (record_mutation p w s) = Inr v \<Longrightarrow> r' = Inr ()" for v
    by (auto simp: record_mutation_def io_bind_def io_get_def w split: sum.splits)
  have seen: "\<forall>t \<in> set tr. js_files t \<in> insert (js_files s) (js_files ` set tr')"
    using mutate_files(1) [OF blind assms(2)] by (simp add: files_seen_def m)
  consider e where "tr' = []" "r' = Inl e"
    | x c where "tr' = [x]" "r' = Inr ()" "file_at s p = None \<or> b" "js_files x = obj_set (js_files s) p c"
    using assms(1) w unfolding record_files_def by blast
  then have "(\<forall>t \<in> set tr. js_files t = js_files s \<or> ((file_at s p = None \<or> b) \<and> (\<exists>c. js_files t = obj_set (js_files s) p c))) \<and>
    (r = Inr () \<longrightarrow> (\<exists>c. js_files (store_after s tr) = obj_set (js_files s) p c \<and> (file_at s p = None \<or> b) \<and>
       (\<forall>t \<in> set tr. js_files t = js_files s \<or> js_files t = obj_set (js_files s) p c)))"
  proof cases
    case (1 e)
    have "r \<noteq> Inr ()" using mutate_files(2) [OF blind assms(2)] ok 1(2) by auto
    then show ?thesis using seen 1 by auto
  next
    case (2 x c)
    have "js_files (store_after s tr) = obj_set (js_files s) p c" if "r = Inr ()"
      using mutate_files(2) [OF blind assms(2) that] by (simp add: m 2)
    then show ?thesis using seen 2 by auto
  qed
  then show "\<forall>t \<in> set tr. js_files t = js_files s \<or> ((file_at s p = None \<or> b) \<and> (\<exists>c. js_files t = obj_set (js_files s) p c))"
    "r = Inr () \<Longrightarrow> \<exists>c. js_files (store_after s tr) = obj_set (js_files s) p c \<and> (file_at s p = None \<or> b) \<and>
       (\<forall>t \<in> set tr. js_files t = js_files s \<or> js_files t = obj_set (js_files s) p c)" by blast+
qed

lemma remove_trace:
  assumes "removeQuotaTrackedFile p s = (tr, r)"
  shows "\<forall>t \<in> set tr. js_files t = js_files s \<or> js_files t = AList.delete p (js_files s)"
    "r = Inr n \<Longrightarrow> js_files (store_after s tr) = AList.delete p (js_files s)"
proof -
  let ?m = "io_bind (io_get (\<lambda>s. file_at s p)) (\<lambda>file. case file of
        None \<Rightarrow> io_ret (0 :: int, 0 :: int, 0 :: int)
      | Some bytes \<Rightarrow> io_bind (io_put (delete_file p)) (\<lambda>_. io_ret (int (length bytes), - int (length bytes), -1)))"
  have blind: "quota_blind ?m"
    by (intro quota_blind_bind quota_blind_pure blind_branches blind_put) simp
  have m: "mutateQuotaTrackedState ?m no_preflight s = (tr, r)" using assms by (simp add: removeQuotaTrackedFile_def)
  have absent: "AList.delete p (js_files s) = js_files s" if "file_at s p = None"
    using that by (simp add: file_at_def obj_get_def delete_notin_dom map_of_eq_None_iff)
  have f: "files_seen ?m s = {js_files s, AList.delete p (js_files s)}"
    "js_files (store_after s (fst (?m s))) = AList.delete p (js_files s)"
    using absent by (auto simp: files_seen_def io_bind_def io_put_def split: option.split)
  show "\<forall>t \<in> set tr. js_files t = js_files s \<or> js_files t = AList.delete p (js_files s)"
    using mutate_files(1) [OF blind m] by (simp add: f)
  show "r = Inr n \<Longrightarrow> js_files (store_after s tr) = AList.delete p (js_files s)"
    using mutate_files(2) [OF blind m] f(2) by simp
qed

section \<open>What a compaction goes through\<close>

text \<open>Files around a compaction: the log, then the log and the terminal, then the terminal.\<close>

definition compaction_files :: "string obj \<Rightarrow> string \<Rightarrow> string \<Rightarrow> string obj set" where
  "compaction_files fs stem c = {fs, obj_set fs (terminal_path stem) c,
     AList.delete (log_path stem) (obj_set fs (terminal_path stem) c)}"

lemma remove_then_return:
  assumes "io_bind (removeQuotaTrackedFile p) (\<lambda>n. io_ret (g n)) s = (tr, Inr x)"
  shows "\<forall>t \<in> set tr. js_files t = js_files s \<or> js_files t = AList.delete p (js_files s)"
    "js_files (store_after s tr) = AList.delete p (js_files s)" "\<exists>n. x = g n"
proof -
  obtain n where n: "removeQuotaTrackedFile p s = (tr, Inr n)" "x = g n"
    using assms by (auto elim!: io_bind_cases)
  show "\<forall>t \<in> set tr. js_files t = js_files s \<or> js_files t = AList.delete p (js_files s)"
    "js_files (store_after s tr) = AList.delete p (js_files s)" "\<exists>n. x = g n"
    using remove_trace [OF n(1)] n(2) by auto
qed

lemma start_compaction_Inr:
  assumes "start_compaction U H stem i s = (tr, Inr res)"
  obtains pl t c where "readLog U H (file_at s (log_path stem)) False = Inr pl" "readTerminal U H (Some c) = Inr t"
    "reconcileTerminalWithLog U t pl i = Inr ()" "\<forall>x \<in> set tr. js_files x \<in> compaction_files (js_files s) stem c"
    "js_files (store_after s tr) = AList.delete (log_path stem) (obj_set (js_files s) (terminal_path stem) c)"
    "\<exists>n. res = compaction_of Compacted t n"
proof -
  let ?p = "terminal_path stem"
  let ?w = "\<lambda>terminal. writeAuthenticatedAtomic H ?p terminal TERMINAL_DOMAIN ''terminalDigest'' False"
  obtain pl state terminal where pl: "readLog U H (file_at s (log_path stem)) False = Inr pl"
    and run: "io_bind (mutateQuotaTrackedState (record_mutation ?p (?w terminal)) no_preflight) (\<lambda>_.
       io_bind (io_get (\<lambda>s. file_at s ?p)) (\<lambda>durable.
       io_bind (io_res (readTerminal U H durable)) (\<lambda>t.
       io_bind (io_res (reconcileTerminalWithLog U t pl i)) (\<lambda>_.
       io_bind (removeQuotaTrackedFile (log_path stem)) (\<lambda>bytes.
         io_ret (compaction_of Compacted t bytes)))))) s = (tr, Inr res)"
    using assms unfolding start_compaction_def
    by (auto simp: io_bind_res journal_throw_def split: sum.splits if_splits)
  from run show ?thesis
  proof (cases rule: io_bind_cases)
    case (continues tr1 u tr2)
    have "u = ()" by simp
    then obtain c where c: "js_files (store_after s tr1) = obj_set (js_files s) ?p c"
      "\<forall>t \<in> set tr1. js_files t = js_files s \<or> js_files t = obj_set (js_files s) ?p c"
      using record_trace(2) [OF record_files_authenticated] continues(1) by (metis (no_types, lifting))
    let ?s1 = "store_after s tr1"
    have f: "file_at ?s1 ?p = Some c" using file_at_set [OF c(1)] by simp
    obtain t where t: "readTerminal U H (Some c) = Inr t" "reconcileTerminalWithLog U t pl i = Inr ()"
      "io_bind (removeQuotaTrackedFile (log_path stem)) (\<lambda>bytes. io_ret (compaction_of Compacted t bytes)) ?s1 = (tr2, Inr res)"
      using continues(2) by (auto simp: io_bind_res f split: sum.splits)
    note r = remove_then_return [OF t(3)]
    have "\<forall>x \<in> set tr. js_files x \<in> compaction_files (js_files s) stem c"
      using c r(1) continues(3) by (auto simp: compaction_files_def)
    then show ?thesis using that pl t(1,2) r(2,3) c(1) continues(3) by simp
  qed simp
qed

lemma finish_compaction_Inr:
  assumes "finish_compaction U H stem i s = (tr, Inr res)" "file_at s (terminal_path stem) = Some c"
  obtains t where "readTerminal U H (Some c) = Inr t" "tm_operationId t = i"
    "\<forall>x \<in> set tr. js_files x = js_files s \<or> js_files x = AList.delete (log_path stem) (js_files s)"
    "js_files (store_after s tr) = AList.delete (log_path stem) (js_files s)"
    "file_at s (log_path stem) \<noteq> None \<Longrightarrow> \<exists>pl. readLog U H (file_at s (log_path stem)) False = Inr pl \<and>
       reconcileTerminalWithLog U t pl i = Inr ()"
    "\<exists>n. res = compaction_of Already_compacted t n"
proof (cases "file_at s (log_path stem)")
  case None
  then obtain t where t: "readTerminal U H (Some c) = Inr t" "assertCompletedState (tm_state t) i = Inr ()"
    "tr = []" "res = compaction_of Already_compacted t 0"
    using assms by (auto simp: finish_compaction_def io_bind_res split: sum.splits)
  have "tm_operationId t = i" using completed_Inr(1) t(2) readTerminal_Inr(6) [OF t(1)] by metis
  moreover have "AList.delete (log_path stem) (js_files s) = js_files s"
    using None by (simp add: file_at_def obj_get_def delete_notin_dom map_of_eq_None_iff)
  ultimately show ?thesis using that t None by auto
next
  case (Some b)
  then obtain t pl where t: "readTerminal U H (Some c) = Inr t" "readLog U H (Some b) False = Inr pl"
    "reconcileTerminalWithLog U t pl i = Inr ()"
    "io_bind (removeQuotaTrackedFile (log_path stem)) (\<lambda>bytes. io_ret (compaction_of Already_compacted t bytes)) s = (tr, Inr res)"
    using assms by (auto simp: finish_compaction_def io_bind_res split: sum.splits)
  have "tm_operationId t = i" using reconcile_Inr [OF t(3)] completed_Inr(1) by metis
  then show ?thesis using that t(1-3) remove_then_return [OF t(4)] Some by auto
qed

section \<open>A compaction does not change what is loaded\<close>

lemma load_at:
  assumes "assertOperationId i = None" "operationStem H i = Inr stem" "file_at x (tombstone_path stem) = None"
  shows "journal_load U H i None x = (if file_at x (terminal_path stem) = None
     then load_log U H (file_at x (log_path stem)) i None
     else load_terminal U H (file_at x (terminal_path stem)) (file_at x (log_path stem)) i None)"
proof -
  have "lift_check (assertOperationId i) = Inr ()" unfolding assms(1) by (simp add: lift_check_def)
  then show ?thesis using assms(2,3) by (simp add: journal_load_def loadLocked_def)
qed

lemma file_at_delete:
  "js_files x = AList.delete p fs \<Longrightarrow> file_at x q = (if q = p then None else obj_get fs q)"
  by (simp add: file_at_def obj_get_def delete_conv)

theorem compaction_loads:
  assumes "compactCompleted U H i s = (tr, Inr res)"
  obtains l where "journal_load U H i None s = Inr l"
    "\<And>x. x \<in> set tr \<Longrightarrow> \<exists>l'. journal_load U H i None x = Inr l' \<and> same_operation l l'"
    "\<exists>l'. journal_load U H i None (store_after s tr) = Inr l' \<and> same_operation l l' \<and> ld_envelopes l' = []"
    "cr_lastEventDigest res = ld_lastEventDigest l"
proof -
  obtain stem where st: "assertOperationId i = None" "operationStem H i = Inr stem" "file_at s (tombstone_path stem) = None"
    and run: "(if file_at s (terminal_path stem) \<noteq> None then finish_compaction U H stem i else start_compaction U H stem i) s = (tr, Inr res)"
    using assms unfolding compactCompleted_def compactCompletedLocked_def pathExists_def
    by (auto simp: io_bind_res lift_check_def journal_throw_def split: sum.splits option.splits if_splits)
  note at = load_at [OF st(1,2), of _ U]
  show ?thesis
  proof (cases "file_at s (terminal_path stem)")
    case None
    then have "start_compaction U H stem i s = (tr, Inr res)" using run by simp
    then obtain pl t c where c: "readLog U H (file_at s (log_path stem)) False = Inr pl" "readTerminal U H (Some c) = Inr t"
      "reconcileTerminalWithLog U t pl i = Inr ()" "\<forall>x \<in> set tr. js_files x \<in> compaction_files (js_files s) stem c"
      "js_files (store_after s tr) = AList.delete (log_path stem) (obj_set (js_files s) (terminal_path stem) c)"
      "\<exists>n. res = compaction_of Compacted t n"
      by (rule start_compaction_Inr)
    obtain l where l: "load_log U H (file_at s (log_path stem)) i None = Inr l" "same_operation l l"
      "load_terminal U H (Some c) (file_at s (log_path stem)) i None = Inr (loaded_of pl (tm_state t) (tm_lastEventDigest t))"
      "same_operation l (loaded_of pl (tm_state t) (tm_lastEventDigest t))"
      "load_terminal U H (Some c) None i None = Inr (terminalLoaded t)" "same_operation l (terminalLoaded t)"
      "ld_lastEventDigest l = tm_lastEventDigest t"
      by (rule reconciled_loads [OF c(2,1,3)])
    have final: "journal_load U H i None x = Inr (terminalLoaded t)"
      if "js_files x = AList.delete (log_path stem) (obj_set (js_files s) (terminal_path stem) c)" for x
      using at [of x] file_at_delete [OF that] l(5) st(3) by (simp add: file_at_def)
    have "\<exists>l'. journal_load U H i None x = Inr l' \<and> same_operation l l'" if x: "x \<in> set tr" for x
    proof -
      consider "js_files x = js_files s" | "js_files x = obj_set (js_files s) (terminal_path stem) c"
        | "js_files x = AList.delete (log_path stem) (obj_set (js_files s) (terminal_path stem) c)"
        using c(4) x by (auto simp: compaction_files_def)
      then show ?thesis
      proof cases
        case 1
        then show ?thesis using at [of s] load_files_cong [OF 1, of U H i None] st(3) None l(1,2) by simp
      next
        case 2
        then show ?thesis using at [of x] file_at_set [OF 2] st(3) l(3,4) by simp
      next
        case 3
        then show ?thesis using final [OF 3] l(6) by simp
      qed
    qed
    then show ?thesis using that [of l] at [of s] st(3) None l final [OF c(5)] c(6)
      by (auto simp: compaction_of_def terminalLoaded_def)
  next
    case (Some c)
    then have "finish_compaction U H stem i s = (tr, Inr res)" using run by simp
    then obtain t where t: "readTerminal U H (Some c) = Inr t" "tm_operationId t = i"
      "\<forall>x \<in> set tr. js_files x = js_files s \<or> js_files x = AList.delete (log_path stem) (js_files s)"
      "js_files (store_after s tr) = AList.delete (log_path stem) (js_files s)"
      "file_at s (log_path stem) \<noteq> None \<Longrightarrow> \<exists>pl. readLog U H (file_at s (log_path stem)) False = Inr pl \<and>
         reconcileTerminalWithLog U t pl i = Inr ()"
      "\<exists>n. res = compaction_of Already_compacted t n"
      using finish_compaction_Inr [OF _ Some] by blast
    have tl: "load_terminal U H (Some c) None i None = Inr (terminalLoaded t)"
      using t(1,2) by (simp add: load_terminal_def expected_digest_def require_def)
    have final: "journal_load U H i None x = Inr (terminalLoaded t)"
      if "js_files x = AList.delete (log_path stem) (js_files s)" for x
      using at [of x] file_at_delete [OF that] tl st(3) Some by (simp add: file_at_def)
    obtain l where l: "journal_load U H i None s = Inr l" "same_operation l l" "same_operation l (terminalLoaded t)"
      "ld_lastEventDigest l = tm_lastEventDigest t"
    proof (cases "file_at s (log_path stem)")
      case None
      then have "AList.delete (log_path stem) (js_files s) = js_files s"
        by (simp add: file_at_def obj_get_def delete_notin_dom map_of_eq_None_iff)
      then have "journal_load U H i None s = Inr (terminalLoaded t)" using final by metis
      then show ?thesis using that by (simp add: terminalLoaded_def)
    next
      case (Some b)
      then obtain pl where pl: "readLog U H (file_at s (log_path stem)) False = Inr pl" "reconcileTerminalWithLog U t pl i = Inr ()"
        using t(5) by auto
      obtain l0 where l0: "same_operation l0 l0"
        "load_terminal U H (Some c) (file_at s (log_path stem)) i None = Inr (loaded_of pl (tm_state t) (tm_lastEventDigest t))"
        "same_operation l0 (loaded_of pl (tm_state t) (tm_lastEventDigest t))" "same_operation l0 (terminalLoaded t)"
        "ld_lastEventDigest l0 = tm_lastEventDigest t"
        by (rule reconciled_loads [OF t(1) pl])
      then show ?thesis using that [of "loaded_of pl (tm_state t) (tm_lastEventDigest t)"] at [of s] st(3) \<open>file_at s (terminal_path stem) = Some c\<close>
        by (auto simp: same_operation_def loaded_of_def)
    qed
    have "\<exists>l'. journal_load U H i None x = Inr l' \<and> same_operation l l'" if x: "x \<in> set tr" for x
      using t(3) x final load_files_cong [of x s U H i None] l by metis
    then show ?thesis using that [of l] l final [OF t(4)] t(6) by (auto simp: compaction_of_def terminalLoaded_def)
  qed
qed

end
