(* ===== verification/Journal_Quota.thy ===== *)
theory Journal_Quota
  imports Journal_System
begin

text \<open>
  The quota counter: at every durable point of every run it is marked dirty, or was taken of other
  directory entries, or counts the bytes and the entries of the tracked files exactly. The next
  admission rescans the directories in the first two cases.
\<close>

section \<open>Sizes\<close>

lemma total_obj_set:
  assumes "obj_wf fs"
  shows "sum_list (map (int \<circ> length \<circ> snd) (obj_set fs p c)) =
      sum_list (map (int \<circ> length \<circ> snd) fs) + int (length c) - (case obj_get fs p of None \<Rightarrow> 0 | Some b \<Rightarrow> int (length b))"
    "int (length (obj_set fs p c)) = int (length fs) + (if obj_get fs p = None then 1 else 0)"
proof -
  have "sum_list (map (int \<circ> length \<circ> snd) (AList.update p c fs)) =
      sum_list (map (int \<circ> length \<circ> snd) fs) + int (length c) - (case map_of fs p of None \<Rightarrow> 0 | Some b \<Rightarrow> int (length b)) \<and>
    int (length (AList.update p c fs)) = int (length fs) + (if map_of fs p = None then 1 else 0)"
    by (induction fs) (auto split: option.split)
  then show "sum_list (map (int \<circ> length \<circ> snd) (obj_set fs p c)) =
      sum_list (map (int \<circ> length \<circ> snd) fs) + int (length c) - (case obj_get fs p of None \<Rightarrow> 0 | Some b \<Rightarrow> int (length b))"
    "int (length (obj_set fs p c)) = int (length fs) + (if obj_get fs p = None then 1 else 0)"
    by (auto simp: obj_set_def obj_get_def)
qed

lemma delete_absent: "obj_get fs p = None \<Longrightarrow> AList.delete p fs = fs"
  by (simp add: obj_get_def delete_notin_dom map_of_eq_None_iff)

lemma total_delete:
  assumes "obj_wf fs" "obj_get fs p = Some b"
  shows "sum_list (map (int \<circ> length \<circ> snd) (AList.delete p fs)) = sum_list (map (int \<circ> length \<circ> snd) fs) - int (length b)"
    "int (length (AList.delete p fs)) = int (length fs) - 1"
proof -
  have "sum_list (map (int \<circ> length \<circ> snd) (AList.delete p fs)) = sum_list (map (int \<circ> length \<circ> snd) fs) - int (length b) \<and>
      int (length (AList.delete p fs)) = int (length fs) - 1"
    using assms unfolding obj_wf_def obj_get_def
  proof (induction fs)
    case (Cons q fs)
    then show ?case by (cases "fst q = p") (auto simp: delete_notin_dom)
  qed simp
  then show "sum_list (map (int \<circ> length \<circ> snd) (AList.delete p fs)) = sum_list (map (int \<circ> length \<circ> snd) fs) - int (length b)"
    "int (length (AList.delete p fs)) = int (length fs) - 1" by blast+
qed

section \<open>The invariant\<close>

definition counter_exact :: "quota_counter \<Rightarrow> jstore \<Rightarrow> bool" where
  "counter_exact c s \<longleftrightarrow> qc_totalBytes c = total_bytes s \<and> qc_entryCount c = entry_count s"

definition quota_ok :: "jstore \<Rightarrow> bool" where
  "quota_ok s \<longleftrightarrow> obj_wf (js_files s) \<and> (case js_quota s of None \<Rightarrow> True
     | Some c \<Rightarrow> qc_dirty c \<or> qc_directories c \<noteq> js_stamp s \<or> counter_exact c s)"

lemma exact_files: "js_files s = js_files t \<Longrightarrow> counter_exact c s = counter_exact c t"
  by (simp add: counter_exact_def total_bytes_def entry_count_def)

text \<open>Writing a counter that is dirty or exact.\<close>

lemma write_counter_trace: "writeQuotaCounter c s = ([s\<lparr>js_quota := Some c\<rparr>], Inr ())"
  by (simp add: writeQuotaCounter_def)

lemma quota_ok_write: "obj_wf (js_files s) \<Longrightarrow> qc_dirty c \<or> counter_exact c s \<Longrightarrow> quota_ok (s\<lparr>js_quota := Some c\<rparr>)"
  by (auto simp: quota_ok_def counter_exact_def total_bytes_def entry_count_def)

lemma rebuild_trace:
  assumes "rebuildQuotaCounter rv s = (tr, r)"
  obtains e where "tr = []" "r = Inl e"
  | c where "tr = [s\<lparr>js_quota := Some c\<rparr>]" "r = Inr c" "counter_exact c s"
  using assms
  by (auto simp: rebuildQuotaCounter_def io_bind_res scanStateUsage_def Let_def io_bind_def [of "writeQuotaCounter _"]
      write_counter_trace journal_throw_def counter_exact_def split: if_splits)

lemma load_counter:
  assumes "loadCurrentQuotaCounter s = (tr, r)" "quota_ok s"
  shows "\<forall>t \<in> set tr. quota_ok t" "r = Inr c \<Longrightarrow> counter_exact c s"
proof -
  have wf: "obj_wf (js_files s)" using assms(2) by (simp add: quota_ok_def)
  have rebuild: "(\<forall>t \<in> set tr. quota_ok t) \<and> (r = Inr c \<longrightarrow> counter_exact c s)"
    if "rebuildQuotaCounter rv s = (tr, r)" for rv
    using that by (rule rebuild_trace) (auto intro: quota_ok_write wf)
  have "(\<forall>t \<in> set tr. quota_ok t) \<and> (r = Inr c \<longrightarrow> counter_exact c s)"
  proof (cases "js_quota s")
    case None
    then have "rebuildQuotaCounter 1 s = (tr, r)" using assms(1) by (simp add: loadCurrentQuotaCounter_def)
    then show ?thesis by (rule rebuild)
  next
    case (Some d)
    show ?thesis
    proof (cases "qc_dirty d \<or> qc_directories d \<noteq> js_stamp s")
      case True
      then show ?thesis using rebuild assms(1) Some
        by (auto simp: loadCurrentQuotaCounter_def io_bind_res split: sum.splits)
    next
      case False
      then show ?thesis using assms Some by (auto simp: loadCurrentQuotaCounter_def quota_ok_def)
    qed
  qed
  then show "\<forall>t \<in> set tr. quota_ok t" "r = Inr c \<Longrightarrow> counter_exact c s" by blast+
qed

text \<open>A mutation that keeps the books: it leaves the counter alone and reports what it did.\<close>

definition accounted :: "('a \<times> int \<times> int) io \<Rightarrow> bool" where
  "accounted m \<longleftrightarrow> (\<forall>s tr r. obj_wf (js_files s) \<longrightarrow> m s = (tr, r) \<longrightarrow>
     (\<forall>t \<in> set tr. obj_wf (js_files t) \<and> js_quota t = js_quota s) \<and>
     (\<forall>v b e. r = Inr (v, b, e) \<longrightarrow> total_bytes (store_after s tr) = total_bytes s + b \<and>
        entry_count (store_after s tr) = entry_count s + e))"

lemma accounted_mutation:
  assumes "accounted m" "account_mutation d m s = (tr, r)" "obj_wf (js_files s)" "js_quota s = Some d" "qc_dirty d"
    "counter_exact d s"
  shows "\<forall>t \<in> set tr. quota_ok t" "obj_wf (js_files (store_after s tr))"
proof -
  obtain tr1 r1 where m: "m s = (tr1, r1)" by fastforce
  have t1: "\<forall>t \<in> set tr1. obj_wf (js_files t) \<and> js_quota t = Some d"
    and total: "\<And>v b e. r1 = Inr (v, b, e) \<Longrightarrow> total_bytes (store_after s tr1) = total_bytes s + b \<and>
        entry_count (store_after s tr1) = entry_count s + e"
    using assms(1,3,4) m unfolding accounted_def by (metis, metis)
  have ok1: "\<forall>t \<in> set tr1. quota_ok t" using t1 assms(5) by (simp add: quota_ok_def)
  have wf: "obj_wf (js_files (store_after s tr1))" using store_after_in [of s tr1] t1 assms(3) by metis
  have "(\<forall>t \<in> set tr. quota_ok t) \<and> obj_wf (js_files (store_after s tr))"
  proof (cases r1)
    case (Inl e)
    then have "tr = tr1" using assms(2) m by (simp add: account_mutation_def io_bind_def)
    then show ?thesis using ok1 wf by simp
  next
    case (Inr x)
    obtain v b e where x: "x = (v, b, e)" by (cases x)
    let ?s = "store_after s tr1"
    consider "tr = tr1" | c where "tr = tr1 @ [?s\<lparr>js_quota := Some c\<rparr>]" "qc_totalBytes c = qc_totalBytes d + b"
        "qc_entryCount c = qc_entryCount d + e"
      using assms(2) unfolding account_mutation_def
      by (auto simp: io_bind_def [of m] m Inr x io_bind_res Let_def io_bind_def [of "writeQuotaCounter _"] write_counter_trace
          split: if_splits sum.splits)
    then show ?thesis
    proof cases
      case (2 c)
      then have "counter_exact c ?s" using total [of v b e] Inr x assms(6) by (simp add: counter_exact_def)
      then show ?thesis using 2(1) ok1 quota_ok_write [OF wf] wf by simp
    qed (use ok1 wf in simp)
  qed
  then show "\<forall>t \<in> set tr. quota_ok t" "obj_wf (js_files (store_after s tr))" by blast+
qed

lemma rebuild_after_failure_ok: "obj_wf (js_files s) \<Longrightarrow> t \<in> set (fst (rebuild_after_failure d s)) \<Longrightarrow> quota_ok t"
proof -
  assume wf: "obj_wf (js_files s)" and t: "t \<in> set (fst (rebuild_after_failure d s))"
  show "quota_ok t"
  proof (cases "nextQuotaRevision (qc_revision d)")
    case (Inl e)
    then show ?thesis using t by (simp add: rebuild_after_failure_def io_catch_def io_bind_res)
  next
    case (Inr n)
    obtain tr r where b: "rebuildQuotaCounter n s = (tr, r)" by fastforce
    then have "t \<in> set tr" using t Inr
      by (auto simp: rebuild_after_failure_def io_catch_def io_bind_res io_bind_def split: sum.splits)
    with b show ?thesis by (elim rebuild_trace) (auto intro: quota_ok_write wf)
  qed
qed

lemma quota_ok_mutate:
  assumes "accounted m" shows "io_keeps quota_ok (mutateQuotaTrackedState m pre)"
  unfolding io_keeps_def
proof (intro allI impI ballI)
  fix s t assume ok: "quota_ok s" and t: "t \<in> set (fst (mutateQuotaTrackedState m pre s))"
  obtain tr1 r1 where l: "loadCurrentQuotaCounter s = (tr1, r1)" by fastforce
  note load = load_counter [OF l ok]
  have same: "js_files (store_after s tr1) = js_files s" by (rule quiet_after [OF quiet_quota(3) l])
  have wf: "obj_wf (js_files s)" using ok by (simp add: quota_ok_def)
  show "quota_ok t"
  proof (cases "t \<in> set tr1")
    case False
    then obtain c n where c: "r1 = Inr c" "nextQuotaRevision (qc_revision c) = Inr n"
      using t l by (auto simp: mutateQuotaTrackedState_def io_bind_def [of loadCurrentQuotaCounter] io_bind_res
          split: sum.splits prod.splits)
    let ?d = "c\<lparr>qc_revision := n, qc_dirty := True\<rparr>"
    let ?s = "(store_after s tr1)\<lparr>js_quota := Some ?d\<rparr>"
    have files: "js_files ?s = js_files s" by (simp add: same)
    have "counter_exact c ?s" using load(2) [OF c(1)] exact_files [OF files, of c] by simp
    then have exact: "counter_exact ?d ?s" by (simp add: counter_exact_def)
    have wf': "obj_wf (js_files ?s)" using wf files by simp
    have d: "quota_ok ?s" using wf' by (simp add: quota_ok_def)
    obtain tr2 r2 where a: "account_mutation ?d m ?s = (tr2, r2)" by fastforce
    have acc: "\<forall>t \<in> set tr2. quota_ok t" "obj_wf (js_files (store_after ?s tr2))"
      using accounted_mutation [OF assms a wf' _ _ exact] by simp_all
    have "t = ?s \<or> t \<in> set tr2 \<or> t \<in> set (fst (rebuild_after_failure ?d (store_after ?s tr2)))"
      using t l c False
      by (auto simp: mutateQuotaTrackedState_def io_bind_def [of loadCurrentQuotaCounter] io_bind_res Let_def
          io_bind_def [of "writeQuotaCounter _"] write_counter_trace io_catch_def a io_bind_def [of "rebuild_after_failure _"]
          split: sum.splits prod.splits)
    then show ?thesis using d acc rebuild_after_failure_ok by blast
  qed (use load in blast)
qed

section \<open>The mutations of the journal keep the books\<close>

lemma total_write:
  assumes "obj_wf (js_files s)" "js_files t = obj_set (js_files s) p c"
  shows "obj_wf (js_files t)"
    "total_bytes t = total_bytes s + int (length c) - (case file_at s p of None \<Rightarrow> 0 | Some b \<Rightarrow> int (length b))"
    "entry_count t = entry_count s + (if file_at s p = None then 1 else 0)"
  using assms(1) total_obj_set [OF assms(1), of p c] by (simp_all add: total_bytes_def entry_count_def file_at_def assms(2))

lemma accounted_remove:
  "accounted (io_bind (io_get (\<lambda>s. file_at s p)) (\<lambda>file. case file of
      None \<Rightarrow> io_ret (0, 0, 0)
    | Some bytes \<Rightarrow> io_bind (io_put (delete_file p)) (\<lambda>_. io_ret (int (length bytes), - int (length bytes), -1))))"
  unfolding accounted_def
  by (auto simp: io_bind_def io_put_def total_bytes_def entry_count_def file_at_def total_delete obj_wf_def
      delete_file_def distinct_delete split: option.splits)

lemma accounted_record:
  assumes "record_files p w b" "\<And>s t. t \<in> set (fst (w s)) \<Longrightarrow> js_quota t = js_quota s" shows "accounted (record_mutation p w)"
  unfolding accounted_def
proof (intro allI impI)
  fix s tr r assume wf: "obj_wf (js_files s)" and m: "record_mutation p w s = (tr, r)"
  obtain tr' r' where w: "w s = (tr', r')" by fastforce
  consider e where "tr' = []" "r' = Inl e"
    | x c where "tr' = [x]" "r' = Inr ()" "js_files x = obj_set (js_files s) p c"
    using assms(1) w unfolding record_files_def by blast
  then show "(\<forall>t\<in>set tr. obj_wf (js_files t) \<and> js_quota t = js_quota s) \<and> (\<forall>v b e. r = Inr (v, b, e) \<longrightarrow>
      total_bytes (store_after s tr) = total_bytes s + b \<and> entry_count (store_after s tr) = entry_count s + e)"
  proof cases
    case (1 e)
    then show ?thesis using m by (auto simp: record_mutation_def io_bind_def io_get_def w)
  next
    case (2 x c)
    have q: "js_quota x = js_quota s" using assms(2) [of x s] w 2(1) by simp
    note t = total_write [OF wf 2(3)]
    have f: "file_at x p = Some c" using file_at_set [OF 2(3)] by simp
    show ?thesis using m t q by (auto simp: record_mutation_def io_bind_def io_get_def w 2 f)
  qed
qed

lemma write_quota: "t \<in> set (fst (writeAtomicJson p ps b s)) \<Longrightarrow> js_quota t = js_quota s"
  by (auto simp: writeAtomicJson_def io_bind_res pathExists_def write_file_def split: sum.splits if_splits)

lemma authenticated_quota: "t \<in> set (fst (writeAuthenticatedAtomic H p ps D f b s)) \<Longrightarrow> js_quota t = js_quota s"
  unfolding writeAuthenticatedAtomic_def by (auto simp: io_bind_res write_quota split: sum.splits)

lemma accounted_append:
  "accounted (io_bind (append_file p pl enc) (\<lambda>_. io_ret ((), int (length enc) - int (pl_partialTailBytes pl),
     if pl_exists pl then 0 else 1)))"
  unfolding accounted_def
proof (intro allI impI)
  let ?m = "io_bind (append_file p pl enc) (\<lambda>_. io_ret ((), int (length enc) - int (pl_partialTailBytes pl),
     if pl_exists pl then 0 else (1 :: int)))"
  fix s tr r assume wf: "obj_wf (js_files s)" and m: "?m s = (tr, r)"
  obtain cs x where a: "appendRecord (file_at s p) pl enc = (cs, x)" by fastforce
  have tr: "tr = map (\<lambda>c. write_file p c s) cs" and x: "r = Inr (v, b, e) \<Longrightarrow> x = Inr () \<and>
      b = int (length enc) - int (pl_partialTailBytes pl) \<and> e = (if pl_exists pl then 0 else 1)" for v b e
    using m by (auto simp: io_bind_def append_file_def a split: sum.splits)
  have "obj_wf (js_files t) \<and> js_quota t = js_quota s" if "t \<in> set tr" for t
    using that wf by (auto simp: tr write_file_def)
  moreover have "total_bytes (store_after s tr) = total_bytes s + b \<and> entry_count (store_after s tr) = entry_count s + e"
    if r: "r = Inr (v, b, e)" for v b e
  proof -
    let ?old = "case file_at s p of None \<Rightarrow> [] | Some b \<Rightarrow> b"
    let ?writes = "map (\<lambda>k. take (pl_committedBytes pl) ?old @ take k enc) [1..<Suc (length enc)]"
    have ok: "(file_at s p = None) \<noteq> pl_exists pl" "length ?old = pl_committedBytes pl + pl_partialTailBytes pl"
      "cs = (if file_at s p = None then [[]] else []) @
         (if pl_partialTailBytes pl > 0 then [take (pl_committedBytes pl) ?old] else []) @ ?writes"
      using a x [OF r] by (auto simp: appendRecord_def Let_def journal_throw_def simp del: upt_Suc split: if_splits)
    have last: "last cs = take (pl_committedBytes pl) ?old @ enc" if "enc \<noteq> []"
      using that unfolding ok(3) by (cases enc) (simp_all add: last_append last_map)
    show ?thesis
    proof (cases "cs = []")
      case True
      then have "enc = []" "pl_partialTailBytes pl = 0" "file_at s p \<noteq> None" using ok(3) by (auto split: if_splits simp del: upt_Suc)
      then show ?thesis using x [OF r] ok(1) True by (auto simp: tr)
    next
      case False
      have len: "int (length (last cs)) = int (length ?old) + (int (length enc) - int (pl_partialTailBytes pl))"
      proof (cases "enc = []")
        case True
        then show ?thesis using False ok(2,3) by (auto split: if_splits option.splits)
      next
        case False
        then show ?thesis using last ok(2) by simp
      qed
      have "js_files (store_after s tr) = obj_set (js_files s) p (last cs)"
        using False by (simp add: tr store_after_def last_map)
      note t = total_write [OF wf this]
      show ?thesis using t(2,3) len x [OF r] ok(1) by (auto split: option.splits)
    qed
  qed
  ultimately show "(\<forall>t\<in>set tr. obj_wf (js_files t) \<and> js_quota t = js_quota s) \<and> (\<forall>v b e. r = Inr (v, b, e) \<longrightarrow>
      total_bytes (store_after s tr) = total_bytes s + b \<and> entry_count (store_after s tr) = entry_count s + e)" by blast
qed

section \<open>Every run\<close>

lemma quota_remove: "io_keeps quota_ok (removeQuotaTrackedFile p)"
  unfolding removeQuotaTrackedFile_def by (rule quota_ok_mutate [OF accounted_remove])

lemma quota_record: "io_keeps quota_ok (mutateQuotaTrackedState (record_mutation p (writeAtomicJson p ps b)) pre)"
  by (rule quota_ok_mutate [OF accounted_record [OF record_files_write write_quota]])

lemma quota_authenticated:
  "io_keeps quota_ok (mutateQuotaTrackedState (record_mutation p (writeAuthenticatedAtomic H p ps D f b)) pre)"
  by (rule quota_ok_mutate [OF accounted_record [OF record_files_authenticated authenticated_quota]])

lemma quota_kept: "journal_keeps U H mx quota_ok"
proof -
  have append: "io_keeps quota_ok (journal_append U H mx i n ev)" for i n ev
    unfolding journal_append_def by (intro keeps quota_ok_mutate accounted_append)
  have compact: "io_keeps quota_ok (compactCompleted U H i)" for i
    unfolding compactCompleted_def compactCompletedLocked_def finish_compaction_def start_compaction_def pathExists_def
    by (intro keeps quota_authenticated quota_remove)
  have prune: "io_keeps quota_ok (pruneReceipt U H i)" for i
    unfolding pruneReceipt_def finish_prune_def start_prune_def pathExists_def
    by (intro keeps compact quota_record quota_remove)
  have refresh: "io_keeps quota_ok (refreshSnapshot U H i)" for i
    unfolding refreshSnapshot_def by (intro keeps quota_authenticated)
  show ?thesis using append compact prune refresh by (simp add: journal_keeps_def)
qed

lemma quota_purge_files: "io_keeps quota_ok (purge_files ps ds n)"
proof (induction ps arbitrary: ds n)
  case Nil
  show ?case unfolding purge_files.simps by (rule keeps_pure)
next
  case (Cons q ps)
  obtain k p where q: "q = (k, p)" by fastforce
  show ?case unfolding q purge_files.simps by (intro keeps quota_remove Cons.IH)
qed

lemma quota_purge: "io_keeps quota_ok (purgeTombstone U H i ack)"
  unfolding purgeTombstone_def by (intro keeps quota_purge_files)

lemma quota_run:
  assumes "journal_run U H mx allowed s t" "quota_ok s" shows "quota_ok t"
proof (rule run_invariant [where P = quota_ok, OF assms])
  fix c s t assume s: "quota_ok s" and t: "t \<in> set (command_stores U H mx c s)"
  show "quota_ok t"
  proof (cases "is_purge c")
    case True
    then obtain i a where "c = Purge_command i a" by (cases c) auto
    then have "t \<in> set (fst (purgeTombstone U H i a s))" using t by simp
    then show ?thesis using quota_purge s unfolding io_keeps_def by blast
  next
    case False
    then show ?thesis by (rule keeps_command [OF quota_kept _ s t])
  qed
qed

end
