(* ===== verification/Journal_Example.thy ===== *)
theory Journal_Example
  imports Journal_Quota Op_Example
begin

text \<open>
  A concrete journal: a hash with constant output, the empty store, and the creation of the example
  operation in it. The witnesses of the journal's properties run it.
\<close>

definition ex_hash :: keyed_hash where
  "ex_hash m = replicate 64 CHR ''0''"

definition ex_hashed :: string where "ex_hashed = DIGEST_PREFIX @ replicate 64 CHR ''0''"

definition ex_store :: jstore where
  "ex_store = \<lparr>js_files = [], js_quota = None, js_stamp = 0\<rparr>"

definition ex_stem :: string where "ex_stem = replicate 64 CHR ''0''"

definition ex_event :: cjson where
  "ex_event = CObj
    [(''type'', CStr ''operation_created''), (''operationId'', CStr ex_op),
     (''requestDigest'', CStr (ex_digest CHR ''1'')), (''surface'', CStr ''work''),
     (''createdAt'', CStr (ex_time CHR ''0'')),
     (''capturePolicy'', CObj [(''responseContent'', CStr ''include''),
        (''responseFormat'', CStr ''markdown''), (''artifacts'', CStr ''receipt_only'')])]"

definition ex_envelope :: envelope where
  "ex_envelope = \<lparr>en_revision = 1, en_previousEventDigest = GENESIS_EVENT_DIGEST, en_eventDigest = ex_hashed,
     en_event = ex_event\<rparr>"

lemma ex_hash: "hex_hash ex_hash"
proof -
  have "DIGEST_PATTERN ex_hashed" by code_simp
  then show ?thesis by (simp add: hex_hash_def ex_hash_def ex_hashed_def)
qed

lemma small_canonical:
  assumes "vsafe v" "vheight v \<le> 20" "vprops v \<le> 100" "vweight v \<le> 4000"
  obtains t where "canonicalJson v = Inr t"
  by (rule canonicalJson_total [of v])
    (use assms in \<open>simp_all add: MAX_CANONICAL_DEPTH_def MAX_CANONICAL_PROPERTIES_def MAX_CANONICAL_BYTES_def\<close>)

lemma length_utf8: "length (utf8 s) = byteLength s"
  by (induction s) (auto simp: utf8_def utf8_char_def byteLength_def Let_def)

lemma canonical_length: "canonicalJson v = Inr t \<Longrightarrow> length (utf8 t) \<le> MAX_CANONICAL_BYTES"
  by (auto simp: canonicalJson_def bind_res_Inr length_utf8 type_error_def Let_def split: if_splits prod.splits)

lemma ex_digest_of: "canonicalJson v = Inr t \<Longrightarrow> hmacDigest ex_hash D v = Inr ex_hashed"
  by (simp add: hmacDigest_def ex_hash_def ex_hashed_def)

lemma ex_round: "jsonRoundTrip (enc_event (Operation_created ex_created)) = Inr ex_event"
proof -
  have "stringified (enc_event (Operation_created ex_created)) = Inr (Some ex_event)" by code_simp
  moreover have "printed ex_event = ex_event" by code_simp
  ultimately show ?thesis by (simp add: jsonRoundTrip_def)
qed

lemma ex_decoded: "dec_event ex_event = Some (Operation_created ex_created)"
  by code_simp

lemma ex_shape: "assertOperationEventShape ex_url (jsv_of ex_event) = None"
  by code_simp

lemma ex_reduced: "reduceSafely ex_url [ex_event] = Inr ex_s1"
  using ex_step1 ex_decoded by (simp add: reduceSafely_def reduceOperationEvents_def ex_events_def)

lemma ex_digested: "journalEventDigest ex_hash 1 GENESIS_EVENT_DIGEST ex_event = Inr ex_hashed"
proof -
  let ?v = "event_material 1 GENESIS_EVENT_DIGEST ex_event"
  have "vsafe ?v" by code_simp
  moreover have "vheight ?v \<le> 20" by code_simp
  moreover have "vprops ?v \<le> 100" by code_simp
  moreover have "vweight ?v \<le> 4000" by code_simp
  ultimately show ?thesis by (rule small_canonical) (auto simp: journalEventDigest_def intro: ex_digest_of)
qed

lemma ex_line: obtains t where "canonicalJson (enc_envelope ex_envelope) = Inr t"
proof (rule small_canonical)
  show "vsafe (enc_envelope ex_envelope)" "vheight (enc_envelope ex_envelope) \<le> 20"
    "vprops (enc_envelope ex_envelope) \<le> 100" by code_simp+
  show "vweight (enc_envelope ex_envelope) \<le> 4000" by code_simp
qed

lemma ex_next:
  obtains enc where "next_record ex_url ex_hash ex_op 0 (Operation_created ex_created) no_log = Inr (ex_envelope, enc, ex_s1)"
    "length enc \<le> MAX_CANONICAL_BYTES + 1" "enc \<noteq> []"
proof (rule ex_line)
  fix t assume t: "canonicalJson (enc_envelope ex_envelope) = Inr t"
  have i: "st_operationId ex_s1 = ex_op" "ev_operationId ex_created = ex_op" by code_simp+
  show thesis
  proof (rule that)
    show "next_record ex_url ex_hash ex_op 0 (Operation_created ex_created) no_log
        = Inr (ex_envelope, utf8 (t @ [NEWLINE]), ex_s1)"
      using t ex_digested ex_round ex_shape ex_reduced i
      by (simp add: next_record_def no_log_def require_def creation_check_def lift_js_def ex_envelope_def Let_def)
    show "length (utf8 (t @ [NEWLINE])) \<le> MAX_CANONICAL_BYTES + 1" "utf8 (t @ [NEWLINE]) \<noteq> []"
      using canonical_length [OF t] by (auto simp: utf8_append length_utf8 NEWLINE_def byteLength_Cons) (simp add: utf8_def utf8_char_def)
  qed
qed

lemma ex_operation: "assertOperationId ex_op = None"
  by code_simp

lemma ex_stem_of: "operationStem ex_hash ex_op = Inr ex_stem"
proof -
  have "byteLength (string_text ex_op) \<le> 100"
    by (simp add: ex_op_def byteLength_Cons string_text_def json_escape_def)
  then obtain t where "canonicalJson (JStr ex_op) = Inr t" by (auto intro: small_canonical [of "JStr ex_op"])
  then have "hmacDigest ex_hash PATH_DOMAIN (JStr ex_op) = Inr ex_hashed" by (rule ex_digest_of)
  then show ?thesis by (simp add: operationStem_def lift_js_def ex_stem_def ex_hashed_def)
qed


text \<open>Creating the operation in the empty store.\<close>

definition ex_loaded :: "string \<Rightarrow> loaded" where
  "ex_loaded enc = \<lparr>ld_state = ex_s1, ld_envelopes = [ex_envelope], ld_committedBytes = length enc,
     ld_partialTailBytes = 0, ld_lastEventDigest = ex_hashed\<rparr>"

lemma ex_append_file:
  assumes "length enc \<le> 16777217" "enc \<noteq> []" "js_files s = []"
  shows "snd (append_file p no_log enc s) = Inr ()"
  using assms by (simp add: append_file_def appendRecord_def no_log_def file_at_def MAX_SINGLE_RECORD_FILE_BYTES_def)

text \<open>A mutation that succeeds between the two writes of the counter.\<close>

lemma mutate_succeeds:
  assumes "loadCurrentQuotaCounter s = (tr0, Inr c)" "pre c = Inr ()" "0 \<le> qc_revision c" "qc_revision c < 1000"
    "m ((store_after s tr0)\<lparr>js_quota := Some (c\<lparr>qc_revision := qc_revision c + 1, qc_dirty := True\<rparr>)\<rparr>) = (tr1, Inr (v, bd, ed))"
    "is_safe_integer bd" "is_safe_integer ed" "is_safe_integer (qc_totalBytes c + bd)" "0 \<le> qc_totalBytes c + bd"
    "is_safe_integer (qc_entryCount c + ed)" "0 \<le> qc_entryCount c + ed"
  shows "\<exists>tr. mutateQuotaTrackedState m pre s = (tr, Inr v) \<and> tr \<noteq> []"
proof -
  define d where "d = c\<lparr>qc_revision := qc_revision c + 1, qc_dirty := True\<rparr>"
  have r: "nextQuotaRevision (qc_revision c) = Inr (qc_revision c + 1)"
    "nextQuotaRevision (qc_revision c + 1) = Inr (qc_revision c + 2)"
    using assms(3,4) by (simp_all add: nextQuotaRevision_def is_safe_integer_def MAX_SAFE_INTEGER_def)
  have d: "qc_revision d = qc_revision c + 1" "qc_totalBytes d = qc_totalBytes c" "qc_entryCount d = qc_entryCount c"
    by (simp_all add: d_def)
  obtain tr2 where a: "account_mutation d m ((store_after s tr0)\<lparr>js_quota := Some d\<rparr>) = (tr1 @ tr2, Inr v)" "tr2 \<noteq> []"
    using assms(5-) d_def d r(2)
    by (simp add: account_mutation_def io_bind_def [of m] io_bind_res assertQuotaDelta_def require_def Let_def writeQuotaCounter_def
        io_bind_def [of "io_put _"] not_less [symmetric])
  show ?thesis using assms(1,2) r(1) a
    by (simp add: mutateQuotaTrackedState_def io_bind_def [of loadCurrentQuotaCounter] io_bind_res Let_def d_def [symmetric]
        writeQuotaCounter_def io_bind_def [of "io_put _"] io_catch_def)
qed

definition ex_counter :: quota_counter where
  "ex_counter = \<lparr>qc_revision = 1, qc_totalBytes = 0, qc_entryCount = 0, qc_dirty = False, qc_directories = 0\<rparr>"

lemma ex_counter_loaded: "loadCurrentQuotaCounter ex_store = ([ex_store\<lparr>js_quota := Some ex_counter\<rparr>], Inr ex_counter)"
  by (simp add: loadCurrentQuotaCounter_def ex_store_def rebuildQuotaCounter_def scanStateUsage_def entry_count_def
      total_bytes_def MAX_QUOTA_SCAN_ENTRIES_def MAX_QUOTA_SCAN_BYTES_def writeQuotaCounter_def ex_counter_def io_bind_res Let_def io_bind_def [of "io_put _"])

lemma ex_mutation:
  fixes enc :: string
  assumes "length enc \<le> 16777217" "enc \<noteq> []"
  shows "\<exists>tr. mutateQuotaTrackedState
     (io_bind (append_file p no_log enc) (\<lambda>_. io_ret ((), int (length enc), 1)))
     (\<lambda>c. assertQuotaForNewOperation 100000000 c (int (length enc))) ex_store = (tr, Inr ()) \<and> tr \<noteq> []"
proof -
  let ?s = "ex_store\<lparr>js_quota := Some (ex_counter\<lparr>qc_revision := qc_revision ex_counter + 1, qc_dirty := True\<rparr>)\<rparr>"
  obtain tr where a: "append_file p no_log enc ?s = (tr, Inr ())"
    using ex_append_file [OF assms, of ?s p] by (cases "append_file p no_log enc ?s") (simp add: ex_store_def)
  show ?thesis
  proof (rule mutate_succeeds [OF ex_counter_loaded])
    show "io_bind (append_file p no_log enc) (\<lambda>_. io_ret ((), int (length enc), 1))
      ((store_after ex_store [ex_store\<lparr>js_quota := Some ex_counter\<rparr>])
        \<lparr>js_quota := Some (ex_counter\<lparr>qc_revision := qc_revision ex_counter + 1, qc_dirty := True\<rparr>)\<rparr>) = (tr, Inr ((), int (length enc), 1))"
      using a by (simp add: io_bind_def)
  qed (use assms in \<open>simp_all add: ex_counter_def assertQuotaForNewOperation_def MAX_QUOTA_SCAN_ENTRIES_def
      MAX_QUOTA_SCAN_BYTES_def is_safe_integer_def MAX_SAFE_INTEGER_def\<close>)
qed

lemma ex_append:
  obtains tr enc where "journal_append ex_url ex_hash 100000000 ex_op 0 (Operation_created ex_created) ex_store
      = (tr, Inr (ex_loaded enc))" "tr \<noteq> []"
proof (rule ex_next)
  fix enc assume n: "next_record ex_url ex_hash ex_op 0 (Operation_created ex_created) no_log = Inr (ex_envelope, enc, ex_s1)"
    "length enc \<le> MAX_CANONICAL_BYTES + 1" "enc \<noteq> []"
  have l: "length enc \<le> 16777217" using n(2) by (simp add: MAX_CANONICAL_BYTES_def)
  obtain tr where m: "mutateQuotaTrackedState (io_bind (append_file (log_path ex_stem) no_log enc) (\<lambda>_. io_ret ((), int (length enc), 1)))
     (\<lambda>c. assertQuotaForNewOperation 100000000 c (int (length enc))) ex_store = (tr, Inr ())" "tr \<noteq> []"
    using ex_mutation [OF l n(3), of "log_path ex_stem"] by blast
  have f: "file_at ex_store p = None" for p by (simp add: file_at_def ex_store_def)
  have z: "pl_partialTailBytes no_log = 0" "\<not> pl_exists no_log" "pl_envelopes no_log = []" "pl_committedBytes no_log = 0"
    by (simp_all add: no_log_def)
  have "journal_append ex_url ex_hash 100000000 ex_op 0 (Operation_created ex_created) ex_store = (tr, Inr (ex_loaded enc))"
    using n(1) m(1) by (simp add: journal_append_def ex_operation lift_check_def io_bind_res is_safe_integer_def MAX_SAFE_INTEGER_def
        ex_stem_of assertNoTerminalOrTombstoneForAppend_def f readLog_def Let_def z
        io_bind_def [of "mutateQuotaTrackedState _ _"] ex_loaded_def ex_envelope_def)
  then show thesis using m(2) that by blast
qed

end
