(* ===== verification/Record_Example.thy ===== *)
theory Record_Example
  imports Journal_Example
begin

text \<open>
  Record files of the journal that can be read back: a bound on the canonical text of parsed JSON that
  is evaluated on integers, the order of members that printing keeps, and a tombstone as an example.
\<close>

section \<open>A bound on the canonical text\<close>

primrec ilen :: "'a list \<Rightarrow> int" where
  "ilen [] = 0"
| "ilen (x # xs) = 1 + ilen xs"

lemma ilen: "ilen xs = int (length xs)"
  by (induction xs) simp_all

fun text_bound :: "cjson \<Rightarrow> int" where
  "text_bound (CStr s) = 2 + 12 * ilen s"
| "text_bound (CArr xs) = 2 + sum_list (map (\<lambda>x. text_bound x + 10) xs)"
| "text_bound (CObj ps) = 2 + sum_list (map (\<lambda>(k, v). text_bound v + (2 + 12 * ilen k) + 2) ps)"
| "text_bound c = 34"

lemma escape_bytes: "byteLength (json_escape c) \<le> 12"
  using byteLength_le [of "json_escape c"] by (auto simp: json_escape_def Let_def byteLength_Cons)

lemma string_bytes: "int (byteLength (string_text s)) \<le> 2 + 12 * ilen s"
proof -
  have "byteLength (concat (map json_escape s)) \<le> 12 * length s"
  proof (induction s)
    case (Cons c s)
    then show ?case using escape_bytes [of c] by simp
  qed simp
  then show ?thesis by (simp add: string_text_def byteLength_Cons ilen)
qed

lemma weight_text_bound: "int (vweight (jsv_of c)) \<le> text_bound c"
proof (induction c)
  case (CStr s)
  then show ?case using string_bytes [of s] by simp
next
  case (CArr xs)
  then have "int (sum_list (map (\<lambda>w. w + 10) (map vweight (map jsv_of xs)))) \<le> sum_list (map (\<lambda>x. text_bound x + 10) xs)"
  proof (induction xs)
    case (Cons x xs)
    have "int (sum_list (map (\<lambda>w. w + 10) (map vweight (map jsv_of xs)))) \<le> sum_list (map (\<lambda>x. text_bound x + 10) xs)"
      by (rule Cons.IH) (simp add: Cons.prems)
    moreover have "int (vweight (jsv_of x)) \<le> text_bound x" by (rule Cons.prems) simp
    ultimately show ?case by simp
  qed simp
  then show ?case by simp
next
  case (CObj ps)
  then have "int (sum_list (map (\<lambda>(k, p). prop_sum p + byteLength (string_text k) + 2)
      (map (map_prod id (map_jprop vweight)) (map (\<lambda>(k, v). (k, Data True (jsv_of v))) ps))))
    \<le> sum_list (map (\<lambda>(k, v). text_bound v + (2 + 12 * ilen k) + 2) ps)"
  proof (induction ps)
    case (Cons p ps)
    obtain k v where p: "p = (k, v)" by fastforce
    have "int (sum_list (map (\<lambda>(k, p). prop_sum p + byteLength (string_text k) + 2)
        (map (map_prod id (map_jprop vweight)) (map (\<lambda>(k, v). (k, Data True (jsv_of v))) ps))))
      \<le> sum_list (map (\<lambda>(k, v). text_bound v + (2 + 12 * ilen k) + 2) ps)"
      by (rule Cons.IH) (use Cons.prems in auto)
    moreover have "int (vweight (jsv_of v)) \<le> text_bound v" by (rule Cons.prems [of p]) (auto simp: p)
    moreover note string_bytes [of k]
    ultimately show ?case by (simp add: p id_def)
  qed simp
  then show ?case by simp
qed simp_all

fun text_safe :: "cjson \<Rightarrow> bool" where
  "text_safe (CNum i) \<longleftrightarrow> is_safe_integer i"
| "text_safe (CArr xs) \<longleftrightarrow> list_all text_safe xs"
| "text_safe (CObj ps) \<longleftrightarrow> list_all (\<lambda>(k, v). ilen k \<le> 2000 \<and> k \<notin> set RESERVED_CANONICAL_KEYS \<and> text_safe v) ps"
| "text_safe c \<longleftrightarrow> True"

lemma text_safe: "text_safe c \<Longrightarrow> vsafe (jsv_of c)"
proof (induction c)
  case (CObj ps)
  have "byteLength k \<le> MAX_CANONICAL_KEY_BYTES" if "ilen k \<le> 2000" for k
    using that byteLength_le [of k] by (simp add: ilen MAX_CANONICAL_KEY_BYTES_def)
  with CObj show ?case by (fastforce simp: list_all_iff)
qed (auto simp: list_all_iff)

definition bounded :: "cjson \<Rightarrow> bool" where
  "bounded c \<longleftrightarrow> text_safe c \<and> vheight (jsv_of c) \<le> 20 \<and> vprops (jsv_of c) \<le> 300 \<and> text_bound c \<le> 1000000"

lemma bounded_canonical:
  assumes "bounded c" obtains t where "canonicalJson (jsv_of c) = Inr t"
  by (rule canonicalJson_total [of "jsv_of c"])
    (use assms [unfolded bounded_def] text_safe [of c] weight_text_bound [of c] in
      \<open>simp_all add: MAX_CANONICAL_DEPTH_def MAX_CANONICAL_PROPERTIES_def MAX_CANONICAL_BYTES_def\<close>)

section \<open>A record file\<close>

text \<open>Members in order and no array index among their names: neither printing nor sorting moves them.\<close>

fun keys_ordered :: "cjson \<Rightarrow> bool" where
  "keys_ordered (CArr xs) \<longleftrightarrow> list_all keys_ordered xs"
| "keys_ordered (CObj ps) \<longleftrightarrow> sorted (map fst ps) \<and> list_all (\<lambda>(k, v). \<not> is_array_index k \<and> keys_ordered v) ps"
| "keys_ordered c \<longleftrightarrow> True"

lemma keys_ordered: "keys_ordered c \<Longrightarrow> sorted_value c = c \<and> printed c = c"
proof (induction c)
  case (CArr xs)
  then show ?case by (auto simp: list_all_iff map_same_iff)
next
  case (CObj ps)
  then have k: "sorted (map fst ps)" "\<forall>(k, v)\<in>set ps. \<not> is_array_index k \<and> sorted_value v = v \<and> printed v = v"
    by (fastforce simp: list_all_iff)+
  have "map (\<lambda>(k, v). (k, sorted_value v)) ps = ps" "map (\<lambda>(k, v). (k, printed v)) ps = ps"
    using k(2) by (auto simp: map_same_iff)
  moreover have "filter (\<lambda>p. is_array_index (fst p)) ps = []" "filter (\<lambda>p. \<not> is_array_index (fst p)) ps = ps"
    using k(2) by (auto simp: filter_empty_conv filter_id_conv)
  ultimately show ?case using k(1) by (simp add: sort_key_id_if_sorted enumeration_order_def comp_def)
qed simp_all

definition readable :: "(string \<times> cjson) list \<Rightarrow> string \<Rightarrow> bool" where
  "readable ps field \<longleftrightarrow> bounded (CObj ps) \<and> keys_ordered (CObj ps) \<and> distinct_keys (CObj ps) \<and>
     map_of ps field = Some (CStr ex_hashed) \<and> bounded (CObj (withoutField ps field))"

definition record_file :: "(string \<times> cjson) list \<Rightarrow> string" where
  "record_file ps = utf8 (json_text (CObj ps) @ [NEWLINE])"

lemma readable_text:
  assumes "readable ps field" shows "canonicalJson (jsv_of (CObj ps)) = Inr (json_text (CObj ps))"
proof (rule bounded_canonical)
  show "bounded (CObj ps)" using assms by (simp add: readable_def)
  fix t assume t: "canonicalJson (jsv_of (CObj ps)) = Inr t"
  then obtain c b where c: "canonicalValue (jsv_of (CObj ps)) 0 empty_budget = Inr (c, b)" "t = json_text c"
    by (auto simp: canonicalJson_Inr)
  have "sorted_value (CObj ps) = CObj ps" by (rule keys_ordered [THEN conjunct1]) (use assms in \<open>simp add: readable_def\<close>)
  with t show "canonicalJson (jsv_of (CObj ps)) = Inr (json_text (CObj ps))" using jsv_of_result [OF c(1)] c(2) by simp
qed

lemma readable_parsed:
  assumes "readable ps field" shows "json_parse (json_text (CObj ps) @ [NEWLINE]) = Some (CObj ps)"
proof -
  have "printed (CObj ps) = CObj ps" by (rule keys_ordered [THEN conjunct2]) (use assms in \<open>simp add: readable_def\<close>)
  moreover have "distinct_keys (CObj ps)" using assms by (simp add: readable_def)
  moreover have "skip_space [NEWLINE] = []" "ends_number [NEWLINE]" by code_simp+
  ultimately show ?thesis using json_parse_text by metis
qed

lemma readable_length:
  assumes "readable ps field" shows "length (record_file ps) \<le> MAX_SINGLE_RECORD_FILE_BYTES"
  using canonical_length [OF readable_text [OF assms]]
  by (simp add: record_file_def length_utf8 byteLength_Cons NEWLINE_def MAX_CANONICAL_BYTES_def MAX_SINGLE_RECORD_FILE_BYTES_def
      del: json_text.simps)

lemma readable_material:
  assumes "readable ps field" shows "hmacDigest ex_hash D (jsv_of (CObj (withoutField ps field))) = Inr ex_hashed"
proof (rule bounded_canonical)
  show "bounded (CObj (withoutField ps field))" using assms by (simp add: readable_def)
qed (rule ex_digest_of)

lemma readable_record:
  assumes "readable ps field" shows "readAuthenticatedFile ex_hash (Some (record_file ps)) D field code = Inr ps"
proof -
  have "map_of ps field = Some (CStr ex_hashed)" using assms by (simp add: readable_def)
  then show ?thesis
    using readable_length [OF assms] readable_parsed [OF assms] readable_material [OF assms]
    by (simp add: readAuthenticatedFile_def not_less [symmetric] record_file_def d_str_def lift_js_def
        del: json_text.simps jsv_of.simps)
qed

section \<open>A pruned operation\<close>

definition ex_tombstone :: "(string \<times> cjson) list" where
  "ex_tombstone = [(''operationId'', CStr ex_op), (''requestDigest'', CStr (ex_digest CHR ''1'')),
     (''schemaVersion'', CStr TOMBSTONE_SCHEMA_VERSION), (''tombstoneDigest'', CStr ex_hashed)]"

lemma ex_tombstone_readable: "readable ex_tombstone ''tombstoneDigest''"
  by code_simp

lemma ex_tombstone_read:
  "readTombstone ex_hash (Some (record_file ex_tombstone)) = Inr \<lparr>tb_operationId = ex_op, tb_requestDigest = ex_digest CHR ''1''\<rparr>"
proof -
  have k: "hasExactKeys ex_tombstone TOMBSTONE_KEYS" "isDigest (map_of ex_tombstone ''requestDigest'')" by code_simp+
  have p: "map_of ex_tombstone ''schemaVersion'' = Some (CStr TOMBSTONE_SCHEMA_VERSION)"
    "map_of ex_tombstone ''operationId'' = Some (CStr ex_op)"
    "map_of ex_tombstone ''requestDigest'' = Some (CStr (ex_digest CHR ''1''))"
    by (simp_all add: ex_tombstone_def)
  have i: "lift_check (assertOperationId ex_op) = Inr ()" unfolding ex_operation by (simp add: lift_check_def)
  show ?thesis using k i by (simp add: readTombstone_def readable_record [OF ex_tombstone_readable] p d_str_def)
qed

definition ex_pruned_store :: jstore where
  "ex_pruned_store = \<lparr>js_files = [(tombstone_path ex_stem, record_file ex_tombstone)], js_quota = None, js_stamp = 0\<rparr>"

lemma ex_pruned_files:
  "file_at ex_pruned_store (tombstone_path ex_stem) = Some (record_file ex_tombstone)"
  "file_at ex_pruned_store (terminal_path ex_stem) = None"
  by (simp_all add: ex_pruned_store_def file_at_def obj_get_def terminal_path_def tombstone_path_def)

text \<open>Pruning it again runs the removal of the snapshot file, which begins with the quota counter.\<close>

lemma io_bind_trace: "fst (m s) \<noteq> [] \<Longrightarrow> fst (io_bind m f s) \<noteq> []"
  by (cases "m s") (auto simp: io_bind_def split: prod.splits sum.splits)

lemma ex_pruned_counter: "fst (loadCurrentQuotaCounter ex_pruned_store) \<noteq> []"
proof -
  have "length (record_file ex_tombstone) \<le> 67108864"
    using readable_length [OF ex_tombstone_readable] by (simp add: MAX_SINGLE_RECORD_FILE_BYTES_def)
  then have "scanStateUsage ex_pruned_store = Inr (total_bytes ex_pruned_store, entry_count ex_pruned_store)"
    by (simp add: scanStateUsage_def total_bytes_def entry_count_def ex_pruned_store_def MAX_QUOTA_SCAN_ENTRIES_def
        MAX_QUOTA_SCAN_BYTES_def)
  moreover have "js_quota ex_pruned_store = None" by (simp add: ex_pruned_store_def)
  ultimately show ?thesis
    by (simp add: loadCurrentQuotaCounter_def rebuildQuotaCounter_def io_bind_res Let_def writeQuotaCounter_def
        io_bind_def [of "io_put _"])
qed

lemma ex_prune_again: "fst (pruneReceipt ex_url ex_hash ex_op ex_pruned_store) \<noteq> []"
proof -
  have i: "lift_check (assertOperationId ex_op) = Inr ()" unfolding ex_operation by (simp add: lift_check_def)
  have c: "compactCompleted ex_url ex_hash ex_op ex_pruned_store = ([], Inl (Journal_error ''operation_receipt_expired''))"
    by (simp add: compactCompleted_def compactCompletedLocked_def pathExists_def io_bind_res i ex_stem_of ex_pruned_files journal_throw_def)
  have "fst (removeQuotaTrackedFile (snapshot_path ex_stem) ex_pruned_store) \<noteq> []"
    unfolding removeQuotaTrackedFile_def mutateQuotaTrackedState_def by (rule io_bind_trace) (rule ex_pruned_counter)
  then have "fst (finish_prune ex_url ex_hash ex_stem ex_pruned_store) \<noteq> []"
    by (simp add: finish_prune_def io_bind_res ex_pruned_files ex_tombstone_read io_bind_trace)
  moreover have "pruneReceipt ex_url ex_hash ex_op ex_pruned_store = finish_prune ex_url ex_hash ex_stem ex_pruned_store"
    by (simp add: pruneReceipt_def io_bind_def [of "io_catch _ _"] io_catch_def io_bind_def [of "compactCompleted _ _ _"] c io_bind_res
        ex_stem_of pathExists_def ex_pruned_files)
  ultimately show ?thesis by simp
qed

end
