(* ===== verification/Terminal_Example.thy ===== *)
theory Terminal_Example
  imports Record_Example
begin

text \<open>
  A compacted journal: the terminal record of the example operation after its receipt, as the only
  file of the store. The witness of the compaction property loads it.
\<close>

section \<open>The record as parsed JSON\<close>

definition ex_observed_value :: cjson where
  "ex_observed_value =
    CObj [(''authoritativeTabClaim'', CObj [(''reason'', CStr ''not_exposed''), (''status'',
     CStr ''unavailable'')]), (''browser'', CObj [(''status'', CStr ''available''), (''value'',
     CStr ''b'')]), (''canonicalThreadUrl'', CObj [(''status'', CStr ''available''), (''value'',
     CStr ''https://x/c'')]), (''conversation'', CObj [(''status'', CStr ''available''),
     (''value'', CStr ''c'')]), (''coordinationScope'', CStr ''process''), (''provider'', CObj
     [(''status'', CStr ''available''), (''value'', CStr ''p'')]), (''tab'', CObj [(''status'',
     CStr ''available''), (''value'', CStr ''t'')]), (''thread'', CObj [(''reason'', CStr
     ''not_exposed''), (''status'', CStr ''unavailable'')])]"

definition ex_baseline_value :: cjson where
  "ex_baseline_value =
    CObj [(''actionId'', CStr ex_send), (''baseline'', CObj [(''assistantTurns'', CArr []),
     (''completeness'', CStr ''complete''), (''schemaVersion'', CStr
     ''chatgpt.browser_control.turn_ownership.v1''), (''snapshotDigest'', CStr (ex_digest CHR
     ''3'')), (''target'', ex_observed_value), (''userTurns'', CArr [])]), (''observedAt'', CStr
     (ex_time CHR ''2'')), (''operationId'', CStr ex_op), (''requestDigest'', CStr (ex_digest
     CHR ''1'')), (''schemaVersion'', CStr
     ''chatgpt.browser_control.operation_ownership_baseline.v1''), (''targetBindingDigest'',
     CStr (ex_digest CHR ''2''))]"

definition ex_witness_value :: cjson where
  "ex_witness_value =
    CObj [(''actionId'', CStr ex_send), (''actionKind'', CStr ''send''),
     (''baselineSnapshotDigest'', CStr (ex_digest CHR ''3'')), (''observedAt'', CStr (ex_time
     CHR ''5'')), (''operationUserEvidenceDigest'', CStr (ex_digest CHR ''5'')),
     (''postSendDeltaDigest'', CStr (ex_digest CHR ''4'')), (''schemaVersion'', CStr
     ''chatgpt.browser_control.operation_submission_witness.v1''), (''targetBindingDigest'',
     CStr (ex_digest CHR ''2'')), (''userTurnId'', CStr ''u'')]"

definition ex_receipt_value :: cjson where
  "ex_receipt_value =
    CObj [(''artifacts'', CArr []), (''assistantTurnId'', CStr ''a''), (''completedAt'', CStr
     (ex_time CHR ''8'')), (''contentAvailable'', CBool True), (''finishReason'', CStr
     ''stop''), (''operationId'', CStr ex_op), (''ownershipEvidenceDigest'', CStr (ex_digest CHR
     ''7'')), (''requestDigest'', CStr (ex_digest CHR ''1'')), (''responseBytes'', CNum 12),
     (''responseDigest'', CStr (ex_digest CHR ''8'')), (''responseFormat'', CStr ''markdown''),
     (''schemaVersion'', CStr ''chatgpt.browser_control.operation_receipt.v1''),
     (''targetBindingDigest'', CStr (ex_digest CHR ''2'')), (''userTurnEvidenceDigest'', CStr
     (ex_digest CHR ''5'')), (''userTurnId'', CStr ''u'')]"

definition ex_action_value :: cjson where
  "ex_action_value =
    CObj [(''actionId'', CStr ex_send), (''evidenceDigest'', CStr (ex_digest CHR ''6'')),
     (''intentAt'', CStr (ex_time CHR ''2'')), (''intentRevision'', CNum 4), (''kind'', CStr
     ''send''), (''outcome'', CStr ''satisfied''), (''receiptAt'', CStr (ex_time CHR ''4'')),
     (''receiptRevision'', CNum 6), (''repeatPolicy'', CStr ''observe_only_after_intent''),
     (''requestDigest'', CStr (ex_digest CHR ''1'')), (''targetDigest'', CStr (ex_digest CHR
     ''2''))]"

definition ex_done_value :: cjson where
  "ex_done_value =
    CObj [(''actions'', CObj [(ex_send, ex_action_value)]), (''artifactTransfers'', CObj []),
     (''capturePolicy'', CObj [(''artifacts'', CStr ''receipt_only''), (''responseContent'',
     CStr ''include''), (''responseFormat'', CStr ''markdown'')]), (''createdAt'', CStr (ex_time
     CHR ''0'')), (''mutationBoundary'', CStr ''send_may_have_occurred''), (''operationId'',
     CStr ex_op), (''ownershipBaseline'', ex_baseline_value), (''ownershipBaselines'', CObj
     [(ex_send, ex_baseline_value)]), (''phase'', CStr ''completed''), (''receipt'',
     ex_receipt_value), (''requestDigest'', CStr (ex_digest CHR ''1'')), (''responseFormat'',
     CStr ''markdown''), (''revision'', CNum 10), (''schemaVersion'', CStr
     ''chatgpt.browser_control.operation.v1''), (''submissionWitness'', ex_witness_value),
     (''submissionWitnesses'', CObj [(ex_send, ex_witness_value)]), (''surface'', CStr
     ''work''), (''target'', CObj [(''browserId'', CStr ''b''), (''canonicalThreadUrl'', CStr
     ''https://x/c''), (''conversationId'', CStr ''c''), (''coordinationScope'', CStr
     ''process''), (''evidenceProfile'', CObj [(''authoritativeTabClaim'', CStr
     ''unavailable''), (''providerIdentity'', CStr ''required''), (''replacementTabRecovery'',
     CBool False), (''stableConversationId'', CStr ''required''), (''stableTabId'', CStr
     ''required''), (''stableUserTurnId'', CStr ''required'')]), (''providerId'', CStr ''p''),
     (''tabId'', CStr ''t'')]), (''updatedAt'', CStr (ex_time CHR ''8''))]"

definition ex_terminal :: "(string \<times> cjson) list" where
  "ex_terminal = [(''artifactManifest'', CArr []), (''lastEventDigest'', CStr ex_hashed),
     (''operationId'', CStr ex_op), (''ownershipEvidenceDigests'', CArr (map (CStr \<circ> ex_digest) ''234567'')),
     (''receipt'', ex_receipt_value), (''requestDigest'', CStr (ex_digest CHR ''1'')), (''revision'', CNum 10),
     (''schemaVersion'', CStr TERMINAL_SCHEMA_VERSION), (''state'', ex_done_value), (''terminalDigest'', CStr ex_hashed)]"

lemma ex_terminal_safe: "text_safe (CObj ex_terminal)" "text_safe (CObj (withoutField ex_terminal ''terminalDigest''))"
  by code_simp+
lemma ex_terminal_height: "vheight (jsv_of (CObj ex_terminal)) \<le> 20"
  "vheight (jsv_of (CObj (withoutField ex_terminal ''terminalDigest''))) \<le> 20" by code_simp+
lemma ex_terminal_props: "vprops (jsv_of (CObj ex_terminal)) \<le> 300"
  "vprops (jsv_of (CObj (withoutField ex_terminal ''terminalDigest''))) \<le> 300" by code_simp+
lemma ex_terminal_bound: "text_bound (CObj ex_terminal) \<le> 1000000"
  "text_bound (CObj (withoutField ex_terminal ''terminalDigest'')) \<le> 1000000" by code_simp+
lemma ex_terminal_ordered: "keys_ordered (CObj ex_terminal)" by code_simp
lemma ex_terminal_distinct: "distinct_keys (CObj ex_terminal)" by code_simp

lemma ex_terminal_readable: "readable ex_terminal ''terminalDigest''"
proof -
  have "map_of ex_terminal ''terminalDigest'' = Some (CStr ex_hashed)" by (simp add: ex_terminal_def)
  then show ?thesis
    unfolding readable_def bounded_def
    using ex_terminal_safe ex_terminal_height ex_terminal_props ex_terminal_bound ex_terminal_ordered ex_terminal_distinct
    by blast
qed

lemma ex_done_decoded: "dec_state ex_done_value = Some ex_s10" by code_simp

section \<open>The state passes the snapshot checks\<close>

lemma ex_done_fields:
  "st_actions ex_s10 = [(ex_send, ex_send_record)]" "st_target ex_s10 = Some ex_target"
  "st_ownershipBaseline ex_s10 = Some ex_send_baseline" "st_ownershipBaselines ex_s10 = Some [(ex_send, ex_send_baseline)]"
  "st_artifactTransfers ex_s10 = Some []" "st_submissionWitnesses ex_s10 = Some [(ex_send, ex_witness)]"
  "st_submissionWitness ex_s10 = Some ex_witness" "st_lastBlocker ex_s10 = None" "st_receipt ex_s10 = Some ex_receipt"
  "st_phase ex_s10 = Completed" "st_mutationBoundary ex_s10 = Send_may_have_occurred"
  by code_simp+

lemma ex_done_header: "list_all (\<lambda>c. c = None) (tl (state_header_checks ex_s10))" by code_simp

lemma ex_done_values:
  "action_entry_check ex_s10 (ex_send, ex_send_record) = None" "validateTargetValues ex_url ex_target = None"
  "assertOwnershipBaselineShape ex_url (enc_baseline ex_send_baseline) = None"
  "validateOwnershipBaselineValues ex_send_baseline ex_s10 = None"
  "assertArtifactTransfersStateShape (enc_dict enc_transfer_state []) = None"
  "assertOperationId ex_send = None" "ob_actionId ex_send_baseline = ex_send"
  by code_simp+

lemma ex_done_witnesses:
  "assertSubmissionWitnessesMapShape (enc_dict enc_witness [(ex_send, ex_witness)]) = None"
  "assertSubmissionWitnessShape (enc_witness ex_witness) = None" "validateSubmissionWitnessValues ex_witness ex_s10 = None"
  "sw_actionId ex_witness = ex_send" "sw_actionKind ex_witness = Send"
  by code_simp+

lemma ex_done_receipt: "assertReceiptShape (enc_receipt ex_receipt) = None" "validateReceiptValues ex_receipt ex_s10 = None"
  by code_simp+

lemma ex_done_collection: "validateSubmissionWitnessCollection ex_s10 = None"
  using ex_witness_canonical
  by (simp add: validateSubmissionWitnessCollection_def witness_projection_check_def send_witness_check_def when_some_def
      ex_done_fields ex_done_witnesses obj_get_def obj_values_def)

lemma ex_done_coherent: "validateStateCoherence ex_s10 = None"
proof -
  have l: "coherence_loop [] [] No_mutation (obj_values [(ex_send, ex_send_record)]) = Inr Send_may_have_occurred" by code_simp
  have t: "tb_targetLifecycle ex_target = None" "ar_kind ex_send_record = Send" by code_simp+
  have "requireDurableOriginalSendOwnership ex_s10 = requireDurableOriginalSendOwnership ex_s7"
    by (rule durable_cong) (simp_all add: ex_s8_def ex_s9_def ex_s10_def)
  then show ?thesis using ex_durable ex_baseline_canonical
    by (simp add: validateStateCoherence_def l t when_some_def ex_done_fields ex_done_collection baseline_entry_check_def
        ex_done_values baseline_projection_check_def baseline_of_def or_empty_def obj_get_def transfers_coherence_def
        establishment_coherence_def)
qed

lemma ex_done_shape: "assertOperationStateShape ex_url ex_s10 = None"
proof -
  have h: "first_error (state_header_checks ex_s10) = None"
    using ex_done_header by (simp add: state_header_checks_def list_all_iff)
  have "first_error (state_content_checks ex_url ex_s10) = None"
    by (simp add: state_content_checks_def ex_done_fields ex_done_values ex_done_collection ex_done_coherent ex_done_receipt
        when_some_def stored_baseline_check_def)
  with h show ?thesis by (simp add: assertOperationStateShape_def)
qed


section \<open>Reading it\<close>

lemma same_text_refl: "canonicalJson v = Inr t \<Longrightarrow> require_same_text v v = Inr ()"
  by (simp add: require_same_text_def same_text_def lift_js_def)

definition ex_terminal_record :: terminal_record where
  "ex_terminal_record = \<lparr>tm_operationId = ex_op, tm_requestDigest = ex_digest CHR ''1'', tm_revision = 10,
     tm_lastEventDigest = ex_hashed, tm_value = ex_done_value, tm_state = ex_s10\<rparr>"

lemma ex_same_receipt: "require_same_text (jsv_of ex_receipt_value) (jsv_of ex_receipt_value) = Inr ()"
proof (rule bounded_canonical)
  show "bounded ex_receipt_value" by code_simp
qed (rule same_text_refl)

lemma ex_same_evidence:
  "require_same_text (jsv_of (CArr (map (CStr \<circ> ex_digest) ''234567''))) (JArr (map JStr (map ex_digest ''234567''))) = Inr ()"
proof (rule bounded_canonical)
  let ?c = "CArr (map (CStr \<circ> ex_digest) ''234567'')"
  show "bounded ?c" by code_simp
  fix t assume "canonicalJson (jsv_of ?c) = Inr t"
  then show ?thesis by (auto dest: same_text_refl simp: comp_def)
qed

lemma ex_same_artifacts: "require_same_text (jsv_of (CArr [])) (jsv_of (CArr [])) = Inr ()"
  by (rule bounded_canonical [of "CArr []"]) (auto simp: bounded_def intro: same_text_refl)

lemma ex_evidence: "terminalOwnershipEvidenceDigests ex_s10 = Inr (map ex_digest ''234567'')"
  by code_simp

lemma ex_completed: "assertCompletedState ex_s10 ex_op = Inr ()"
  by code_simp

lemma ex_header: "st_schemaVersion ex_s10 = OPERATION_SCHEMA_VERSION" "st_requestDigest ex_s10 = ex_digest CHR ''1''"
  "st_revision ex_s10 = 10" by code_simp+

lemma ex_state_checks: "terminal_state_checks ex_url ex_terminal ex_terminal_record = Inr ()"
proof -
  have r: "map_of (object_members ex_done_value) ''receipt'' = Some ex_receipt_value"
    "map_of (object_members ex_receipt_value) ''artifacts'' = Some (CArr [])"
    by (simp_all add: ex_done_value_def ex_receipt_value_def object_members_def)
  have p: "map_of ex_terminal ''receipt'' = Some ex_receipt_value" "map_of ex_terminal ''artifactManifest'' = Some (CArr [])"
    "map_of ex_terminal ''ownershipEvidenceDigests'' = Some (CArr (map (CStr \<circ> ex_digest) ''234567''))"
    by (simp_all add: ex_terminal_def)
  have d: "list_all (isDigest \<circ> Some) (map (CStr \<circ> ex_digest) ''234567'')" by code_simp
  note checks = ex_done_shape ex_header ex_completed r p ex_same_receipt ex_same_artifacts ex_same_evidence ex_evidence
  show ?thesis using d
    by (simp only: terminal_state_checks_def ex_terminal_record_def terminal_record.simps Let_def checks member_value_def
        option.case bind_res_simps simp_thms if_False if_True cjson.case HOL.refl)
qed

lemma ex_terminal_read: "readTerminal ex_url ex_hash (Some (record_file ex_terminal)) = Inr ex_terminal_record"
proof -
  have k: "hasExactKeys ex_terminal TERMINAL_KEYS" by code_simp
  have g: "isDigest (map_of ex_terminal ''lastEventDigest'')" "DIGEST_PATTERN (ex_digest CHR ''1'')" by code_simp+
  have p: "map_of ex_terminal ''schemaVersion'' = Some (CStr TERMINAL_SCHEMA_VERSION)"
    "map_of ex_terminal ''state'' = Some ex_done_value" "map_of ex_terminal ''receipt'' = Some ex_receipt_value"
    "map_of ex_terminal ''artifactManifest'' = Some (CArr [])" "map_of ex_terminal ''operationId'' = Some (CStr ex_op)"
    "map_of ex_terminal ''ownershipEvidenceDigests'' = Some (CArr (map (CStr \<circ> ex_digest) ''234567''))"
    "map_of ex_terminal ''requestDigest'' = Some (CStr (ex_digest CHR ''1''))" "map_of ex_terminal ''revision'' = Some (CNum 10)"
    "map_of ex_terminal ''lastEventDigest'' = Some (CStr ex_hashed)"
    by (simp_all add: ex_terminal_def)
  have o: "is_object (Some ex_done_value)" "is_object (Some ex_receipt_value)"
    by (simp_all add: is_object_def ex_done_value_def ex_receipt_value_def)
  have i: "lift_check (assertOperationId ex_op) = Inr ()" unfolding ex_operation by (simp add: lift_check_def)
  show ?thesis using k g o ex_state_checks
    by (simp add: readTerminal_def readable_record [OF ex_terminal_readable] p is_array_def d_str_def d_int_def is_safe_integer_def
        MAX_SAFE_INTEGER_def i ex_done_decoded ex_terminal_record_def Let_def)
qed

text \<open>The store that holds it.\<close>

definition ex_done_store :: jstore where
  "ex_done_store = \<lparr>js_files = [(terminal_path ex_stem, record_file ex_terminal)], js_quota = None, js_stamp = 0\<rparr>"

lemma ex_done_files:
  "file_at ex_done_store (terminal_path ex_stem) = Some (record_file ex_terminal)" "file_at ex_done_store (log_path ex_stem) = None"
  "file_at ex_done_store (tombstone_path ex_stem) = None"
  by (simp_all add: ex_done_store_def file_at_def obj_get_def log_path_def terminal_path_def tombstone_path_def)

lemma ex_compact: "compactCompleted ex_url ex_hash ex_op ex_done_store
    = ([], Inr (compaction_of Already_compacted ex_terminal_record 0))"
proof -
  have i: "lift_check (assertOperationId ex_op) = Inr ()" unfolding ex_operation by (simp add: lift_check_def)
  have "assertCompletedState (tm_state ex_terminal_record) ex_op = Inr ()"
    using ex_completed by (simp add: ex_terminal_record_def)
  then show ?thesis
    by (simp add: compactCompleted_def compactCompletedLocked_def finish_compaction_def pathExists_def io_bind_res i ex_stem_of
        ex_done_files ex_terminal_read)
qed

end
