(* ===== verification/Journal_Properties.thy ===== *)
theory Journal_Properties
  imports Terminal_Example
begin

text \<open>
  The properties of the operation journal: an append is durable and atomic at any crash point, a log is
  tamper-evident, compaction keeps what is loaded, a pruned operation stays expired, no update is
  lost, and the quota counter is exact. Hypotheses on the keyed hash are the documented behaviour of
  HMAC-SHA-256: its hexadecimal form, and distinct digests for the messages at hand.
\<close>

lemma append_revision:
  assumes "hex_hash H" "journal_append U H mx i n ev s = (tr, Inr l)"
  shows "st_revision (ld_state l) = n + 1"
  using assms(2)
proof (cases rule: append_elim)
  case (runs stem pl e enc st)
  have chain: "log_chain H GENESIS_EVENT_DIGEST 0 (pl_envelopes pl)" by (rule readLog_chain [OF runs(5)])
  have "reduceSafely U (map en_event (pl_envelopes pl @ [e])) = Inr st \<and> n = int (length (pl_envelopes pl))"
    by (rule next_record_Inr [OF runs(6) assms(1) chain]) simp
  then show ?thesis using loaded_revision [of U "pl_envelopes pl @ [e]" st] runs(8) [OF refl] by simp
qed simp

lemma append_expects: "journal_append U H mx i n ev s = (tr, Inr l) \<Longrightarrow> is_safe_integer n \<and> 0 \<le> n"
  by (auto simp: journal_append_def io_bind_res journal_throw_def split: sum.splits if_splits)

text \<open>The example journal after the creation, its store and its trace.\<close>

definition ex_trace :: "jstore list" where
  "ex_trace = fst (journal_append ex_url ex_hash 100000000 ex_op 0 (Operation_created ex_created) ex_store)"

lemma ex_created_log:
  obtains enc where "journal_append ex_url ex_hash 100000000 ex_op 0 (Operation_created ex_created) ex_store
     = (ex_trace, Inr (ex_loaded enc))" "ex_trace \<noteq> []"
  by (rule ex_append) (simp add: ex_trace_def)

lemma ex_not_found: "journal_load ex_url ex_hash ex_op None ex_store = Inl (Journal_error ''operation_not_found'')"
proof -
  have i: "lift_check (assertOperationId ex_op) = Inr ()" unfolding ex_operation by (simp add: lift_check_def)
  have f: "file_at ex_store p = None" for p by (simp add: file_at_def ex_store_def)
  show ?thesis by (simp add: journal_load_def i ex_stem_of loadLocked_def f load_log_def readLog_def journal_throw_def)
qed

section \<open>Appending\<close>

text \<open>C9: what an append returns is what the next load returns: after a successful append the journal
  loads the same state, at the next revision, with the same final digest, no torn tail and the same
  envelopes up to the order of members.\<close>

theorem append_then_load:
  assumes "hex_hash H" "journal_append U H mx i n ev s = (tr, Inr l)"
  shows "\<exists>l'. journal_load U H i None (store_after s tr) = Inr l' \<and> ld_state l' = ld_state l \<and>
    st_revision (ld_state l') = n + 1 \<and> ld_lastEventDigest l' = ld_lastEventDigest l \<and>
    ld_committedBytes l' = ld_committedBytes l \<and> ld_partialTailBytes l' = 0 \<and>
    map sorted_envelope (ld_envelopes l') = map sorted_envelope (ld_envelopes l)"
proof -
  have r: "st_revision (ld_state l) = n + 1" by (rule append_revision [OF assms])
  show ?thesis
    by (rule append_result [OF assms]) (use r in \<open>simp add: sorted_envelope_def [abs_def]\<close>)
qed

theorem append_then_load_witness:
  "\<exists>l. journal_load ex_url ex_hash ex_op None (store_after ex_store ex_trace) = Inr l \<and> ld_state l = ex_s1
     \<and> st_revision (ld_state l) = 1 \<and> ld_lastEventDigest l = ex_hashed"
proof (rule ex_created_log)
  fix enc assume a: "journal_append ex_url ex_hash 100000000 ex_op 0 (Operation_created ex_created) ex_store
     = (ex_trace, Inr (ex_loaded enc))"
  show ?thesis using append_then_load [OF ex_hash a] by (auto simp: ex_loaded_def)
qed

text \<open>C8: an append is atomic: whatever intermediate store a crash leaves, created file, truncated tail
  or any prefix of the record, the journal loads either exactly what it loaded before, an error
  included, or the old log with the one new event.\<close>

theorem append_crash_atomic:
  assumes "hex_hash H" "journal_append U H mx i n ev s = (tr, r)" "t \<in> set tr"
  shows "loaded_view (journal_load U H i None t) = loaded_view (journal_load U H i None s) \<or>
    (\<exists>l. journal_load U H i None t = Inr l \<and> appends_event U ev (loaded_envelopes (journal_load U H i None s)) l)"
  by (rule append_stores [OF assms])

theorem append_crash_atomic_witness:
  "journal_load ex_url ex_hash ex_op None (hd ex_trace) = Inl (Journal_error ''operation_not_found'') \<or>
    (\<exists>l. journal_load ex_url ex_hash ex_op None (hd ex_trace) = Inr l
      \<and> appends_event ex_url (Operation_created ex_created) [] l)"
proof (rule ex_created_log)
  fix enc assume a: "journal_append ex_url ex_hash 100000000 ex_op 0 (Operation_created ex_created) ex_store
     = (ex_trace, Inr (ex_loaded enc))" "ex_trace \<noteq> []"
  then have "hd ex_trace \<in> set ex_trace" by simp
  from append_crash_atomic [OF ex_hash a(1) this] show ?thesis
    by (auto simp: ex_not_found loaded_envelopes_def loaded_view_def split: sum.splits)
qed

text \<open>C13: no update is lost: of two writers that expect the same revision, the second is refused and
  writes nothing, whatever event it carries.\<close>

theorem no_lost_update:
  assumes "hex_hash H" "journal_append U H mx i n ev s = (tr, Inr l)"
  shows "\<exists>c. journal_append U H mx' i n ev' (store_after s tr) = ([], Inl (Journal_error c)) \<and>
    (c = ''revision_conflict'' \<or> c = ''operation_compacted'')"
proof -
  have n: "is_safe_integer n" "0 \<le> n" using append_expects [OF assms(2)] by blast+
  obtain l' where l: "journal_load U H i None (store_after s tr) = Inr l'" "ld_state l' = ld_state l"
    by (rule append_result [OF assms]) blast
  show ?thesis by (rule stale_append [OF l(1) n]) (simp add: l(2) append_revision [OF assms])
qed

theorem no_lost_update_witness:
  "\<exists>c. journal_append ex_url ex_hash 100000000 ex_op 0 (Operation_created ex_created) (store_after ex_store ex_trace)
    = ([], Inl (Journal_error c))"
proof (rule ex_created_log)
  fix enc assume a: "journal_append ex_url ex_hash 100000000 ex_op 0 (Operation_created ex_created) ex_store
     = (ex_trace, Inr (ex_loaded enc))"
  show ?thesis using no_lost_update [OF ex_hash a] by blast
qed

section \<open>The hash chain\<close>

text \<open>C10: the final digest commits to the whole log: when the keyed hash takes distinct values on the
  messages of two accepted logs, logs with the same final digest hold the same events in the same
  order (up to the order of members) and reduce to the same state.\<close>

theorem log_tamper_evident:
  assumes "readLog U H (Some b) x = Inr pl" "readLog U H (Some b') x' = Inr pl'"
    "pl_envelopes pl \<noteq> []" "pl_envelopes pl' \<noteq> []"
    "en_eventDigest (last (pl_envelopes pl)) = en_eventDigest (last (pl_envelopes pl'))"
    "inj_on H (set (map record_message (pl_envelopes pl @ pl_envelopes pl')))"
  shows "map sorted_envelope (pl_envelopes pl) = map sorted_envelope (pl_envelopes pl') \<and>
    parsed_state U pl = parsed_state U pl'"
  using log_commits [OF assms] by blast

text \<open>The log of the example with its creation, and the same with a torn tail.\<close>

lemma ex_log:
  obtains b pl where "readLog ex_url ex_hash (Some b) False = Inr pl" "pl_envelopes pl = [stored_envelope ex_envelope]"
    "readLog ex_url ex_hash (Some (b @ ''{'')) False = Inr (pl\<lparr>pl_partialTailBytes := 1\<rparr>)"
proof (rule ex_next)
  fix enc assume n: "next_record ex_url ex_hash ex_op 0 (Operation_created ex_created) no_log = Inr (ex_envelope, enc, ex_s1)"
    "length enc \<le> MAX_CANONICAL_BYTES + 1" "enc \<noteq> []"
  have c: "log_chain ex_hash GENESIS_EVENT_DIGEST 0 (pl_envelopes no_log)" by (simp add: no_log_def)
  have o: "readLog ex_url ex_hash (Some []) False = Inr (no_log\<lparr>pl_exists := True\<rparr>)"
    using readLog_old(1) [of ex_url ex_hash None no_log] by (simp add: readLog_def old_bytes_def)
  have l: "length enc < MAX_SINGLE_RECORD_FILE_BYTES"
    using n(2) by (simp add: MAX_CANONICAL_BYTES_def MAX_SINGLE_RECORD_FILE_BYTES_def)
  obtain t where t: "enc = utf8 (t @ [NEWLINE])" "canonicalJson (enc_envelope ex_envelope) = Inr t" "wf_envelope ex_envelope"
    "en_revision ex_envelope = length (pl_envelopes no_log) + 1"
    "en_previousEventDigest ex_envelope = last_digest GENESIS_EVENT_DIGEST (pl_envelopes no_log)"
    "journalEventDigest ex_hash (en_revision ex_envelope) (en_previousEventDigest ex_envelope) (en_event ex_envelope)
       = Inr (en_eventDigest ex_envelope)"
    "reduceSafely ex_url (map en_event (pl_envelopes no_log) @ [en_event ex_envelope]) = Inr ex_s1"
    by (rule next_record_Inr [OF n(1) ex_hash c])
  have r: "readLog ex_url ex_hash (Some enc) False = Inr \<lparr>pl_exists = True, pl_envelopes = [stored_envelope ex_envelope],
      pl_committedBytes = length enc, pl_partialTailBytes = 0\<rparr>"
    using readLog_record [OF o t(3,2), of ex_s1 False] t(4-7) l by (simp add: t(1) no_log_def)
  have u: "utf8 (t @ [NEWLINE]) = utf8 t @ [NEWLINE]"
    by (simp add: utf8_append) (simp add: utf8_def utf8_char_def NEWLINE_def)
  have e: "committed_part enc = enc" unfolding t(1) u by (rule committed_part_line)
  have "readLog ex_url ex_hash (Some (committed_part enc @ ''{'')) False = Inr (\<lparr>pl_exists = True,
      pl_envelopes = [stored_envelope ex_envelope], pl_committedBytes = length enc, pl_partialTailBytes = 0\<rparr>\<lparr>pl_partialTailBytes := length ''{''\<rparr>)"
    by (rule readLog_tail [OF r]) (use l e in \<open>simp_all add: NEWLINE_def\<close>)
  then show thesis using that [OF r] e by simp
qed

theorem log_tamper_evident_witness:
  "\<exists>b pl. readLog ex_url ex_hash (Some (b @ ''{'')) False = Inr (pl\<lparr>pl_partialTailBytes := 1\<rparr>) \<and>
    parsed_state ex_url (pl\<lparr>pl_partialTailBytes := 1\<rparr>) = parsed_state ex_url pl"
proof (rule ex_log)
  fix b pl assume l: "readLog ex_url ex_hash (Some b) False = Inr pl" "pl_envelopes pl = [stored_envelope ex_envelope]"
    "readLog ex_url ex_hash (Some (b @ ''{'')) False = Inr (pl\<lparr>pl_partialTailBytes := 1\<rparr>)"
  have "parsed_state ex_url (pl\<lparr>pl_partialTailBytes := 1\<rparr>) = parsed_state ex_url pl"
    using log_tamper_evident [OF l(3) l(1)] by (simp add: l(2))
  with l(3) show ?thesis by blast
qed

section \<open>Compaction and pruning\<close>

text \<open>C11: compaction is invisible to readers: when it succeeds, the operation loads before it, at every
  intermediate store and after it, always with the same identity, revision, final digest and
  canonical state; afterwards from the terminal record alone.\<close>

theorem compaction_preserves_load:
  assumes "compactCompleted U H i s = (tr, Inr res)"
  shows "\<exists>l. journal_load U H i None s = Inr l \<and> cr_lastEventDigest res = ld_lastEventDigest l \<and>
    (\<forall>x \<in> set tr. \<exists>l'. journal_load U H i None x = Inr l' \<and> same_operation l l') \<and>
    (\<exists>l'. journal_load U H i None (store_after s tr) = Inr l' \<and> same_operation l l' \<and> ld_envelopes l' = [])"
  by (rule compaction_loads [OF assms]) blast

theorem compaction_preserves_load_witness:
  "\<exists>l. journal_load ex_url ex_hash ex_op None ex_done_store = Inr l \<and> ld_lastEventDigest l = ex_hashed"
  using compaction_preserves_load [OF ex_compact] by (auto simp: compaction_of_def ex_terminal_record_def)

text \<open>C12: pruning is final until purged: in every run of journal commands other than a purge, crashes at
  any store included, a tombstone stays byte for byte, and the operation it stands for can neither be
  loaded nor appended to nor compacted.\<close>

theorem pruned_stays_expired:
  assumes "assertOperationId i = None" "operationStem H i = Inr stem" "file_at s (tombstone_path stem) = Some b"
    "journal_run U H mx (\<lambda>c. \<not> is_purge c) s t"
  shows "file_at t (tombstone_path stem) = Some b \<and> (\<forall>l. journal_load U H i x t \<noteq> Inr l) \<and>
    (is_safe_integer n \<and> 0 \<le> n \<longrightarrow>
      journal_append U H mx i n ev t = ([], Inl (Journal_error ''operation_receipt_expired''))) \<and>
    compactCompleted U H i t = ([], Inl (Journal_error ''operation_receipt_expired''))"
proof -
  have b: "file_at t (tombstone_path stem) = Some b" by (rule tombstone_run [OF assms(4,3)])
  then have "file_at t (tombstone_path stem) \<noteq> None" by simp
  from tombstone_refuses [OF assms(1,2) this] b show ?thesis by blast
qed

theorem pruned_stays_expired_witness:
  "file_at (hd (fst (pruneReceipt ex_url ex_hash ex_op ex_pruned_store))) (tombstone_path ex_stem) = Some (record_file ex_tombstone)"
proof -
  let ?t = "hd (fst (pruneReceipt ex_url ex_hash ex_op ex_pruned_store))"
  have m: "?t \<in> set (command_stores ex_url ex_hash 0 (Prune_command ex_op) ex_pruned_store)"
    using ex_prune_again by simp
  have r: "journal_run ex_url ex_hash 0 (\<lambda>c. \<not> is_purge c) ex_pruned_store ?t"
    by (rule journal_run.crash [OF journal_run.stay _ m]) simp
  show ?thesis using pruned_stays_expired [OF ex_operation ex_stem_of ex_pruned_files(1) r] by blast
qed

section \<open>The quota counter\<close>

text \<open>C14: the quota counter never lies: after any run of journal commands with crashes at any store, the
  counter is marked dirty, known to be stale, or exact, so that the counter an admission is decided
  on is the true number of bytes and entries of the store.\<close>

theorem quota_counter_exact:
  assumes "journal_run U H mx allowed s t" "quota_ok s"
  shows "quota_ok t \<and> (\<forall>tr c. loadCurrentQuotaCounter t = (tr, Inr c) \<longrightarrow>
    qc_totalBytes c = total_bytes t \<and> qc_entryCount c = entry_count t)"
proof -
  have q: "quota_ok t" by (rule quota_run [OF assms])
  then show ?thesis using load_counter(2) by (fastforce simp: counter_exact_def)
qed

theorem quota_counter_exact_witness: "quota_ok (hd ex_trace) \<and> quota_ok ex_store"
proof (rule ex_created_log)
  fix enc assume "ex_trace \<noteq> []"
  then have m: "hd ex_trace \<in> set (command_stores ex_url ex_hash 100000000 (Append_command ex_op 0 (Operation_created ex_created)) ex_store)"
    by (simp add: ex_trace_def)
  have r: "journal_run ex_url ex_hash 100000000 (\<lambda>c. True) ex_store (hd ex_trace)"
    by (rule journal_run.crash [OF journal_run.stay _ m]) simp
  have q: "quota_ok ex_store" by (simp add: quota_ok_def ex_store_def obj_wf_def)
  show ?thesis using quota_counter_exact [OF r q] q by blast
qed

end
