(* ===== verification/Handle_Records.thy ===== *)
theory Handle_Records
  imports Keyed_Digest Op_Encode
begin

text \<open>
  The boundary of \<open>operations/handle.ts\<close> to values of the caller: reading plain records and arrays
  without running accessors, and the bounded checks of the members. Values are \<^typ>\<open>jsv\<close>. The store
  of snapshots of one call (\<open>withSnapshotContext\<close>) makes every read see the members of the first
  look; a value of the model does not change, so a read is the lookup in the record.
  A reference to an enclosing record (\<^const>\<open>JAncestor\<close>) is refused where it is inspected.
\<close>

section \<open>Errors\<close>

text \<open>\<open>OperationHandleError\<close> with its code, or the \<open>TypeError\<close> of the canonical printer.\<close>

datatype handle_error = OperationHandleError string | Raised js_error

type_synonym 'a hres = "handle_error + 'a"
type_synonym hcheck = "handle_error option"

definition throw_handle :: "bool \<Rightarrow> string \<Rightarrow> hcheck" where
  "throw_handle b code = throw_if b (OperationHandleError code)"

lemma throw_handle_None [simp]: "throw_handle b c = None \<longleftrightarrow> \<not> b"
  by (simp add: throw_handle_def)

lemma throw_handle_simps: "throw_handle True c = Some (OperationHandleError c)" "throw_handle False c = None"
  by (simp_all add: throw_handle_def throw_if_def)

definition raise_res :: "'a res \<Rightarrow> 'a hres" where
  "raise_res r = (case r of Inl e \<Rightarrow> Inl (Raised e) | Inr a \<Rightarrow> Inr a)"

lemma raise_res_Inr [simp]: "raise_res r = Inr a \<longleftrightarrow> r = Inr a"
  by (simp add: raise_res_def split: sum.splits)

lemma raise_res_simps [simp]: "raise_res (Inr a) = Inr a" "raise_res (Inl e) = Inl (Raised e)"
  by (simp_all add: raise_res_def)

section \<open>Records\<close>

text \<open>\<open>typeof value === "object"\<close>, for a value that is not \<open>null\<close>.\<close>

definition js_object :: "jsv \<Rightarrow> bool" where
  "js_object v = (case v of JArr _ \<Rightarrow> True | JOddArray _ \<Rightarrow> True | JDate _ _ \<Rightarrow> True | JBytes _ _ \<Rightarrow> True
     | JExotic \<Rightarrow> True | JAncestor \<Rightarrow> True | JObj _ _ \<Rightarrow> True | _ \<Rightarrow> False)"

definition MAX_JSON_KEYS :: nat where "MAX_JSON_KEYS = 10000"

definition safe_member :: "jsv jprop \<Rightarrow> bool" where
  "safe_member p = (case p of Accessor \<Rightarrow> False | Data enumerable v \<Rightarrow> enumerable)"

definition prop_value :: "jsv jprop \<Rightarrow> jsv" where
  "prop_value p = (case p of Accessor \<Rightarrow> JUndefined | Data enumerable v \<Rightarrow> v)"

definition snapshotRecord :: "string \<Rightarrow> jsv \<Rightarrow> (string \<times> jsv) list hres" where
  "snapshotRecord code value = (case value of
     JObj syms ps \<Rightarrow>
       if length ps + syms > MAX_JSON_KEYS then Inl (OperationHandleError code)
       else if syms > 0 \<or> \<not> list_all (safe_member \<circ> snd) ps then Inl (OperationHandleError code)
       else Inr (map (\<lambda>(k, p). (k, prop_value p)) (enumeration_order ps))
   | _ \<Rightarrow> Inl (OperationHandleError code))"

definition snap_get :: "(string \<times> jsv) list \<Rightarrow> string \<Rightarrow> jsv" where
  "snap_get vs k = (case map_of vs k of Some v \<Rightarrow> v | None \<Rightarrow> JUndefined)"

definition assertExactKeys :: "string \<Rightarrow> string list \<Rightarrow> jsv \<Rightarrow> (string \<times> jsv) list hres" where
  "assertExactKeys code allowed value = bind_res (snapshotRecord code value) (\<lambda>vs.
     if list_all (\<lambda>k. k \<in> set allowed) (map fst vs) then Inr vs
     else Inl (OperationHandleError ''invalid_operation_request''))"

definition readArrayEntries :: "string \<Rightarrow> nat \<Rightarrow> jsv \<Rightarrow> jsv list hres" where
  "readArrayEntries code maxLength value = (case value of
     JArr vs \<Rightarrow> if length vs > maxLength then Inl (OperationHandleError code) else Inr vs
   | _ \<Rightarrow> Inl (OperationHandleError code))"

section \<open>Members\<close>

definition validateBoundedString :: "nat \<Rightarrow> jsv \<Rightarrow> hcheck" where
  "validateBoundedString maxLength value = throw_handle
     (case value of JStr s \<Rightarrow> js_trim s = [] \<or> length s > maxLength \<or> list_ex is_control s | _ \<Rightarrow> True)
     ''invalid_operation_request''"

definition assertId :: "jsv \<Rightarrow> hcheck" where
  "assertId value = (case value of
     JStr s \<Rightarrow> throw_handle (assertOperationId s \<noteq> None) ''invalid_operation_id''
   | _ \<Rightarrow> Some (OperationHandleError ''invalid_operation_id''))"

text \<open>\<open>Number.isSafeInteger\<close> and the bound that goes with it; the negative zero is an integer.\<close>

definition safe_integer_from :: "int \<Rightarrow> jsv \<Rightarrow> bool" where
  "safe_integer_from least value = (case value of
     JNum i \<Rightarrow> is_safe_integer i \<and> least \<le> i | JNegZero \<Rightarrow> least \<le> 0 | _ \<Rightarrow> False)"

definition validateTimeout :: "jsv \<Rightarrow> hcheck" where
  "validateTimeout value =
     throw_handle (value \<noteq> JUndefined \<and> \<not> safe_integer_from 0 value) ''invalid_operation_timeout''"

definition bounded_path :: "string \<Rightarrow> bool" where
  "bounded_path s \<longleftrightarrow> s \<noteq> [] \<and> length s \<le> 4096 \<and> \<not> list_ex is_control s"

section \<open>Facts\<close>

lemma snapshot_obj: "snapshotRecord code v = Inr vs \<Longrightarrow> \<exists>ps. v = JObj 0 ps \<and> length ps \<le> MAX_JSON_KEYS \<and>
    list_all (safe_member \<circ> snd) ps \<and> vs = map (\<lambda>(k, p). (k, prop_value p)) (enumeration_order ps)"
  by (auto simp: snapshotRecord_def split: jsv.splits if_splits)

lemma snapshot_record:
  "length ps \<le> MAX_JSON_KEYS \<Longrightarrow> list_all (safe_member \<circ> snd) ps \<Longrightarrow>
     snapshotRecord code (JObj 0 ps) = Inr (map (\<lambda>(k, p). (k, prop_value p)) (enumeration_order ps))"
  by (simp add: snapshotRecord_def)

lemma map_of_members: "map_of (map (\<lambda>(k, p). (k, prop_value p)) (enumeration_order ps)) k =
    map_option prop_value (map_of ps k)"
  using map_of_map [of prop_value "enumeration_order ps"] by (simp add: comp_def)

lemma snapshot_get:
  assumes "snapshotRecord code v = Inr vs" shows "snap_get vs k = jget v k"
proof -
  obtain ps where ps: "v = JObj 0 ps" "vs = map (\<lambda>(k, p). (k, prop_value p)) (enumeration_order ps)"
    using snapshot_obj [OF assms] by blast
  have m: "map_of vs k = map_option prop_value (map_of ps k)" unfolding ps(2) by (rule map_of_members)
  show ?thesis unfolding snap_get_def jget_def ps(1) m
    by (cases "map_of ps k") (auto simp: prop_value_def split: jprop.split)
qed

end
