(* ===== verification/Op_Handle.thy ===== *)
theory Op_Handle
  imports Handle_Records Op_Reducer Op_Decode
begin

text \<open>
  The handles of \<open>operations/handle.ts\<close>: what a caller holds of an operation. A handle is issued from
  the durable state and checked against a later one. It names the operation, the revision, phase and
  boundary it was issued at and, keyed, the immutable part of the target.
\<close>

section \<open>Handles\<close>

definition OPERATION_HANDLE_SCHEMA_VERSION :: string where
  "OPERATION_HANDLE_SCHEMA_VERSION = ''chatgpt.browser_control.operation_handle.v1''"

record operation_handle =
  oh_schemaVersion :: string
  oh_operationId :: string
  oh_requestDigest :: string
  oh_surface :: surface
  oh_revision :: int
  oh_phase :: operation_phase
  oh_mutationBoundary :: mutation_boundary
  oh_targetBindingDigest :: "string option"

definition HANDLE_KEYS :: "string list" where
  "HANDLE_KEYS = [''schemaVersion'', ''operationId'', ''requestDigest'', ''surface'', ''revision'', ''phase'',
     ''mutationBoundary'', ''targetBindingDigest'']"

definition enc_handle :: "operation_handle \<Rightarrow> jsv" where
  "enc_handle h = enc_rec
     [(''schemaVersion'', js (oh_schemaVersion h)),
      (''operationId'', js (oh_operationId h)),
      (''requestDigest'', js (oh_requestDigest h)),
      (''surface'', js (surface_text (oh_surface h))),
      (''revision'', jn (oh_revision h)),
      (''phase'', js (phase_text (oh_phase h))),
      (''mutationBoundary'', js (boundary_text (oh_mutationBoundary h))),
      (''targetBindingDigest'', jso (oh_targetBindingDigest h))]"

section \<open>The immutable part of a target\<close>

definition TARGET_DOMAIN :: string where
  "TARGET_DOMAIN = ''codex-chatgpt-control/operation-target-binding/v1''"

definition ESTABLISHED_KEYS :: "string list" where
  "ESTABLISHED_KEYS = [''targetLifecycle'', ''canonicalThreadUrl'', ''conversationId'', ''targetEstablishment'']"

text \<open>
  \<open>{targetLifecycle: "new", ...immutableAnchor, evidenceProfile: {...evidence, ...}}\<close>: a spread
  appends, a later member of the same name replaces in place.
\<close>

definition anchored_profile :: "(string \<times> jsv) list \<Rightarrow> jsv" where
  "anchored_profile evidence = plain_object
     (AList.update ''stableUserTurnId'' (JStr ''unavailable'')
       (AList.update ''stableConversationId'' (JStr ''unavailable'') evidence))"

definition operationTargetBindingProjection :: "jsv \<Rightarrow> jsv hres" where
  "operationTargetBindingProjection target =
     bind_res (snapshotRecord ''invalid_operation_handle'' target) (\<lambda>vs.
     if snap_get vs ''targetLifecycle'' \<noteq> JStr ''new_pending'' \<and> snap_get vs ''targetLifecycle'' \<noteq> JStr ''new_established''
     then Inr target
     else bind_res (snapshotRecord ''invalid_operation_handle'' (snap_get vs ''evidenceProfile'')) (\<lambda>evidence.
       Inr (plain_object (AList.update ''evidenceProfile'' (anchored_profile evidence)
         ((''targetLifecycle'', JStr ''new'') # filter (\<lambda>(k, v). k \<notin> set ESTABLISHED_KEYS) vs)))))"

definition targetBindingDigest :: "keyed_hash \<Rightarrow> target_binding \<Rightarrow> string hres" where
  "targetBindingDigest H t = bind_res (operationTargetBindingProjection (enc_target t))
     (\<lambda>p. raise_res (hmacDigest H TARGET_DOMAIN p))"

definition operationHandleFromState :: "keyed_hash \<Rightarrow> operation_state \<Rightarrow> operation_handle hres" where
  "operationHandleFromState H s = (let h = \<lparr>oh_schemaVersion = OPERATION_HANDLE_SCHEMA_VERSION,
       oh_operationId = st_operationId s, oh_requestDigest = st_requestDigest s, oh_surface = st_surface s,
       oh_revision = st_revision s, oh_phase = st_phase s, oh_mutationBoundary = st_mutationBoundary s,
       oh_targetBindingDigest = None\<rparr> in
     case st_target s of
       None \<Rightarrow> Inr h
     | Some t \<Rightarrow> bind_res (targetBindingDigest H t) (\<lambda>d. Inr (h\<lparr>oh_targetBindingDigest := Some d\<rparr>)))"

section \<open>The shape of a handle\<close>

definition OPERATION_PHASES :: "operation_phase list" where
  "OPERATION_PHASES = [Prepared, Handoff_pending, Ready, Send_pending, Submitted, Generating, Capturing,
     Completed, Uncertain]"

text \<open>The check of a digest member, and of \<open>mutationBoundary in BOUNDARY_RANK\<close>.\<close>

definition digest_value :: "jsv \<Rightarrow> bool" where
  "digest_value v = (case v of JStr s \<Rightarrow> DIGEST_PATTERN s | _ \<Rightarrow> False)"

definition progress_value :: "jsv \<Rightarrow> jsv \<Rightarrow> bool" where
  "progress_value phase boundary = (case (phase, boundary) of
     (JStr p, JStr b) \<Rightarrow> phase_of p \<in> set OPERATION_PHASES \<and> known_boundary (boundary_of b)
   | _ \<Rightarrow> False)"

definition validateHandleShape :: "jsv \<Rightarrow> (string \<times> jsv) list hres" where
  "validateHandleShape handle =
     (if \<not> js_object handle then Inl (OperationHandleError ''invalid_operation_handle'')
      else bind_res (assertExactKeys ''invalid_operation_request'' HANDLE_KEYS handle) (\<lambda>vs. checked (first_error
       [throw_handle (snap_get vs ''schemaVersion'' \<noteq> JStr OPERATION_HANDLE_SCHEMA_VERSION) ''unsupported_operation_handle'',
        assertId (snap_get vs ''operationId''),
        throw_handle (\<not> digest_value (snap_get vs ''requestDigest'')) ''invalid_operation_handle'',
        throw_handle (snap_get vs ''surface'' \<noteq> JStr ''chat'' \<and> snap_get vs ''surface'' \<noteq> JStr ''work'')
          ''invalid_operation_handle'',
        throw_handle (\<not> safe_integer_from 1 (snap_get vs ''revision'')) ''invalid_operation_handle'',
        throw_handle (\<not> progress_value (snap_get vs ''phase'') (snap_get vs ''mutationBoundary''))
          ''invalid_operation_handle'',
        throw_handle (snap_get vs ''targetBindingDigest'' \<noteq> JUndefined \<and> \<not> digest_value (snap_get vs ''targetBindingDigest''))
          ''invalid_operation_handle'']) vs))"

section \<open>The order of phases\<close>

fun PHASE_EDGES :: "operation_phase \<Rightarrow> operation_phase list" where
  "PHASE_EDGES Prepared = [Handoff_pending, Ready, Uncertain]"
| "PHASE_EDGES Handoff_pending = [Ready, Uncertain]"
| "PHASE_EDGES Ready = [Send_pending, Uncertain]"
| "PHASE_EDGES Send_pending = [Submitted, Uncertain]"
| "PHASE_EDGES Submitted = [Generating, Capturing, Uncertain]"
| "PHASE_EDGES Generating = [Capturing, Uncertain]"
| "PHASE_EDGES Capturing = [Completed, Uncertain]"
| "PHASE_EDGES Completed = []"
| "PHASE_EDGES Uncertain = [Ready, Submitted, Generating, Capturing, Completed]"
| "PHASE_EDGES (Other_phase _) = []"

text \<open>
  The search: the inner loop over the edges of a phase returns \<open>None\<close> when it meets the goal,
  otherwise the extended set of seen phases and queue. A phase that is not of the table is never
  searched from: the shape check refuses it.
\<close>

fun search_edges :: "operation_phase \<Rightarrow> operation_phase list \<Rightarrow> operation_phase list \<Rightarrow> operation_phase list
    \<Rightarrow> (operation_phase list \<times> operation_phase list) option" where
  "search_edges to [] seen queue = Some (seen, queue)"
| "search_edges to (p # ps) seen queue =
     (if p = to then None
      else if p \<in> set seen then search_edges to ps seen queue
      else search_edges to ps (p # seen) (queue @ [p]))"

definition unseen :: "operation_phase list \<Rightarrow> nat" where
  "unseen seen = length (filter (\<lambda>p. p \<notin> set seen) OPERATION_PHASES)"

lemma unseen_insert: "p \<in> set OPERATION_PHASES \<Longrightarrow> p \<notin> set seen \<Longrightarrow> unseen seen = Suc (unseen (p # seen))"
  unfolding unseen_def by (auto simp: OPERATION_PHASES_def)

lemma edges_known: "set (PHASE_EDGES p) \<subseteq> set OPERATION_PHASES"
  by (cases p) (simp_all add: OPERATION_PHASES_def)

lemma search_edges_measure:
  "search_edges to ps seen queue = Some (seen', queue') \<Longrightarrow> set ps \<subseteq> set OPERATION_PHASES \<Longrightarrow>
     length queue' + unseen seen' = length queue + unseen seen"
proof (induction to ps seen queue rule: search_edges.induct)
  case (2 to p ps seen queue)
  then show ?case using unseen_insert [of p seen] by (auto split: if_splits)
qed simp

function search_phases :: "operation_phase \<Rightarrow> operation_phase list \<Rightarrow> operation_phase list \<Rightarrow> bool" where
  "search_phases to seen [] = False"
| "search_phases to seen (current # queue) = (case search_edges to (PHASE_EDGES current) seen queue of
     None \<Rightarrow> True
   | Some (seen', queue') \<Rightarrow> search_phases to seen' queue')"
  by pat_completeness auto
termination
  by (relation "measure (\<lambda>(to, seen, queue). length queue + unseen seen)")
    (auto dest: search_edges_measure [OF _ edges_known])

definition phaseCanReach :: "operation_phase \<Rightarrow> operation_phase \<Rightarrow> bool" where
  "phaseCanReach from_phase to_phase = (from_phase = to_phase \<or> search_phases to_phase [from_phase] [from_phase])"

section \<open>Validation against the durable state\<close>

text \<open>The members of a handle that passed the shape check, as the code compares them.\<close>

definition revision_of :: "(string \<times> jsv) list \<Rightarrow> int" where
  "revision_of vs = (case snap_get vs ''revision'' of JNum i \<Rightarrow> i | _ \<Rightarrow> 0)"

definition text_of :: "jsv \<Rightarrow> string" where
  "text_of v = (case v of JStr s \<Rightarrow> s | _ \<Rightarrow> [])"

definition optional_text :: "jsv \<Rightarrow> string option" where
  "optional_text v = (case v of JStr s \<Rightarrow> Some s | _ \<Rightarrow> None)"

definition handle_phase :: "(string \<times> jsv) list \<Rightarrow> operation_phase" where
  "handle_phase vs = phase_of (text_of (snap_get vs ''phase''))"

definition handle_boundary :: "(string \<times> jsv) list \<Rightarrow> mutation_boundary" where
  "handle_boundary vs = boundary_of (text_of (snap_get vs ''mutationBoundary''))"

definition validateOperationHandle ::
  "keyed_hash \<Rightarrow> jsv \<Rightarrow> operation_state \<Rightarrow> (bool \<times> operation_handle) hres" where
  "validateOperationHandle H handle s = bind_res (validateHandleShape handle) (\<lambda>vs.
     let older = revision_of vs < st_revision s; target = optional_text (snap_get vs ''targetBindingDigest'') in
     bind_res (checked (first_error
       [throw_handle (snap_get vs ''operationId'' \<noteq> JStr (st_operationId s) \<or>
          snap_get vs ''requestDigest'' \<noteq> JStr (st_requestDigest s) \<or>
          snap_get vs ''surface'' \<noteq> JStr (surface_text (st_surface s))) ''operation_handle_mismatch'',
        throw_handle (\<not> safe_integer_from 1 (snap_get vs ''revision'')) ''invalid_operation_handle'',
        throw_handle (revision_of vs > st_revision s) ''operation_handle_ahead'',
        throw_handle (rank_less (st_mutationBoundary s) (handle_boundary vs)) ''operation_handle_state_mismatch'',
        throw_handle (older \<and> \<not> phaseCanReach (handle_phase vs) (st_phase s)) ''operation_handle_state_mismatch''])
       ()) (\<lambda>_.
     bind_res (operationHandleFromState H s) (\<lambda>current. checked (first_error
       [throw_handle (target \<noteq> oh_targetBindingDigest current \<and> \<not> (target = None \<and> older)) ''operation_handle_target_mismatch'',
        throw_handle (revision_of vs = st_revision s \<and>
          (text_of (snap_get vs ''phase'') \<noteq> phase_text (st_phase s) \<or>
           text_of (snap_get vs ''mutationBoundary'') \<noteq> boundary_text (st_mutationBoundary s)))
          ''operation_handle_state_mismatch''])
       (older, current))))"

end
