(* ===== verification/Handle_Phases.thy ===== *)
theory Handle_Phases
  imports Op_Handle Op_Log
begin

text \<open>
  The search for a phase that can precede another: it decides the reflexive transitive closure of
  \<open>PHASE_EDGES\<close>, and every continuation of an operation moves along that closure.
\<close>

section \<open>The search\<close>

definition phase_edges :: "(operation_phase \<times> operation_phase) set" where
  "phase_edges = {(p, q). q \<in> set (PHASE_EDGES p)}"

lemma search_edges_None: "search_edges to ps seen queue = None \<longleftrightarrow> to \<in> set ps"
  by (induction to ps seen queue rule: search_edges.induct) auto

lemma search_edges_Some:
  "search_edges to ps seen queue = Some (seen', queue') \<Longrightarrow>
     set seen' = set seen \<union> set ps \<and> set queue' = set queue \<union> (set ps - set seen)"
  by (induction to ps seen queue rule: search_edges.induct) (auto split: if_splits)

text \<open>What it finds is reachable; what it does not find lies outside a set closed under the edges.\<close>

lemma search_sound: "search_phases to seen queue \<Longrightarrow> \<exists>p\<in>set queue. (p, to) \<in> phase_edges\<^sup>+"
proof (induction to seen queue rule: search_phases.induct)
  case (2 to seen current queue)
  show ?case
  proof (cases "search_edges to (PHASE_EDGES current) seen queue")
    case None
    then have "(current, to) \<in> phase_edges" by (simp add: search_edges_None phase_edges_def)
    then show ?thesis by auto
  next
    case (Some r)
    obtain seen' queue' where r: "r = (seen', queue')" by fastforce
    obtain p where p: "p \<in> set queue'" "(p, to) \<in> phase_edges\<^sup>+"
      using 2(1) [OF Some r [symmetric]] 2(2) Some by (auto simp: r)
    have "p \<in> set queue \<or> (current, p) \<in> phase_edges"
      using search_edges_Some [OF Some [unfolded r]] p(1) by (auto simp: phase_edges_def)
    then show ?thesis using p(2) by (auto intro: trancl_into_trancl2)
  qed
qed simp

lemma search_complete:
  assumes "\<not> search_phases to seen queue" "to \<notin> set seen" "set queue \<subseteq> set seen"
    "\<And>p q. p \<in> set seen \<Longrightarrow> p \<notin> set queue \<Longrightarrow> (p, q) \<in> phase_edges \<Longrightarrow> q \<in> set seen"
  shows "\<exists>S. set seen \<subseteq> S \<and> to \<notin> S \<and> phase_edges `` S \<subseteq> S"
  using assms
proof (induction to seen queue rule: search_phases.induct)
  case (1 to seen)
  then show ?case by (intro exI [of _ "set seen"]) auto
next
  case (2 to seen current queue)
  obtain seen' queue' where e: "search_edges to (PHASE_EDGES current) seen queue = Some (seen', queue')"
    using 2(2) by (auto split: option.splits)
  note s = search_edges_Some [OF e]
  have n: "to \<notin> set (PHASE_EDGES current)" using e search_edges_None by (metis option.distinct(1))
  have "\<exists>S. set seen' \<subseteq> S \<and> to \<notin> S \<and> phase_edges `` S \<subseteq> S"
  proof (rule 2(1) [OF e refl])
    show "q \<in> set seen'" if "p \<in> set seen'" "p \<notin> set queue'" "(p, q) \<in> phase_edges" for p q
    proof (cases "p = current")
      case True
      then show ?thesis using that(3) s by (simp add: phase_edges_def)
    next
      case False
      then have "p \<in> set seen" "p \<notin> set (current # queue)" using that s by auto
      then show ?thesis using 2(5) that(3) s by blast
    qed
  qed (use 2 e n s in auto)
  then show ?case using s by auto
qed

theorem phaseCanReach_rtrancl: "phaseCanReach p q \<longleftrightarrow> (p, q) \<in> phase_edges\<^sup>*"
proof
  assume "phaseCanReach p q"
  then show "(p, q) \<in> phase_edges\<^sup>*"
    using search_sound [of q "[p]" "[p]"] by (auto simp: phaseCanReach_def intro: trancl_into_rtrancl)
next
  assume r: "(p, q) \<in> phase_edges\<^sup>*"
  show "phaseCanReach p q"
  proof (rule ccontr)
    assume n: "\<not> phaseCanReach p q"
    have "\<exists>S. set [p] \<subseteq> S \<and> q \<notin> S \<and> phase_edges `` S \<subseteq> S"
      by (rule search_complete [of q "[p]" "[p]"]) (use n in \<open>auto simp: phaseCanReach_def simp del: search_phases.simps\<close>)
    then obtain S where "p \<in> S" "q \<notin> S" "phase_edges `` S \<subseteq> S" by auto
    then show False using Image_closed_trancl [of phase_edges S] r by (metis ImageI)
  qed
qed

section \<open>Continuations\<close>

lemma legal_edge_listed: "LEGAL_EDGES p = Some tos \<Longrightarrow> q \<in> set tos \<Longrightarrow> (p, q) \<in> phase_edges"
  by (cases p) (auto simp: phase_edges_def)

lemma steps_phases: "op_steps U s s' \<Longrightarrow> (st_phase s, st_phase s') \<in> phase_edges\<^sup>*"
proof (induction rule: op_steps.induct)
  case (more s s1 ev s')
  have "(st_phase s1, st_phase s') \<in> phase_edges\<^sup>*"
    using step_phase [OF more.hyps(2)] by (auto dest!: legal_edge_listed simp: phase_edges_def)
  with more.IH show ?case by (rule rtrancl_trans)
qed simp

lemma known_closed: "(p, q) \<in> phase_edges\<^sup>* \<Longrightarrow> p \<in> set OPERATION_PHASES \<Longrightarrow> q \<in> set OPERATION_PHASES"
  by (induction rule: rtrancl_induct) (use edges_known in \<open>auto simp: phase_edges_def\<close>)

end
