(* ===== verification/Handle_Target.thy ===== *)
theory Handle_Target
  imports Op_Handle Op_Plain Op_Log
begin

text \<open>
  The keyed target of a handle: it exists for every validated target, it does not change when the
  same target is bound again, and establishing a new target leaves it as it was.
\<close>

section \<open>Records with optional members\<close>

definition enc_members :: "(string \<times> jsv option) list \<Rightarrow> (string \<times> jsv) list" where
  "enc_members ps = concat (map (\<lambda>(k, x). case x of None \<Rightarrow> [] | Some v \<Rightarrow> [(k, v)]) ps)"

lemma enc_members_simps [simp]:
  "enc_members [] = []"
  "enc_members ((k, None) # ps) = enc_members ps"
  "enc_members ((k, Some v) # ps) = (k, v) # enc_members ps"
  by (simp_all add: enc_members_def)

lemma enc_members_Cons: "enc_members ((k, x) # ps) = (case x of None \<Rightarrow> [] | Some v \<Rightarrow> [(k, v)]) @ enc_members ps"
  by (simp add: enc_members_def)

lemma plain_object_members: "plain_object (enc_members ps) = enc_rec ps"
  by (simp add: plain_object_def enc_rec_def enc_members_def map_concat comp_def split_def)
    (intro arg_cong [of _ _ concat] map_cong refl, auto split: option.split)

lemma enumeration_plain: "list_all (\<lambda>p. \<not> is_array_index (fst p)) ps \<Longrightarrow> enumeration_order ps = ps"
  by (simp add: enumeration_order_def list_all_iff)

lemma enc_fields_keys: "list_all P (map fst ps) \<Longrightarrow> list_all (\<lambda>p. P (fst p)) (enc_fields ps)"
  by (induction ps) (auto simp: enc_fields_def split: option.splits)

lemma enc_fields_length: "length (enc_fields ps) \<le> length ps"
  by (induction ps) (auto simp: enc_fields_def split: option.splits)

lemma enc_fields_safe: "list_all (safe_member \<circ> snd) (enc_fields ps)"
  by (induction ps) (auto simp: enc_fields_def safe_member_def split: option.splits)

lemma enc_fields_values: "map (\<lambda>(k, p). (k, prop_value p)) (enc_fields ps) = enc_members ps"
  by (induction ps) (auto simp: enc_fields_def enc_members_def prop_value_def split: option.splits)

text \<open>The code's snapshot of an encoded record is the list of its members.\<close>

lemma snapshot_enc_rec:
  assumes "list_all (\<lambda>k. \<not> is_array_index k) (map fst ps)" "length ps \<le> MAX_JSON_KEYS"
  shows "snapshotRecord code (enc_rec ps) = Inr (enc_members ps)"
proof -
  have "enumeration_order (enc_fields ps) = enc_fields ps"
    by (rule enumeration_plain [OF enc_fields_keys [OF assms(1)]])
  moreover have "length (enc_fields ps) \<le> MAX_JSON_KEYS" using enc_fields_length [of ps] assms(2) by linarith
  ultimately show ?thesis unfolding enc_rec_fields
    using snapshot_record [of "enc_fields ps" code] enc_fields_safe [of ps] by (simp add: enc_fields_values)
qed

lemma filter_members: "filter (\<lambda>(k, v). P k) (enc_members ps) = enc_members (filter (\<lambda>(k, x). P k) ps)"
  by (induction ps) (auto simp: enc_members_Cons split: option.splits)

lemma update_members:
  assumes "map_of ps k = Some (Some v0)" "distinct (map fst ps)"
  shows "AList.update k v (enc_members ps) = enc_members (AList.update k (Some v) ps)"
  using assms
proof (induction ps)
  case (Cons p ps)
  obtain k' x where p: "p = (k', x)" by fastforce
  show ?case using Cons by (cases "k' = k") (auto simp: p enc_members_Cons split: option.splits)
qed simp

section \<open>The projection of a target\<close>

definition target_members :: "target_binding \<Rightarrow> (string \<times> jsv option) list" where
  "target_members t =
     [(''providerId'', js (tb_providerId t)),
      (''browserId'', js (tb_browserId t)),
      (''tabId'', js (tb_tabId t)),
      (''coordinationScope'', js (scope_text (tb_coordinationScope t))),
      (''tabClaimEvidenceDigest'', jso (tb_tabClaimEvidenceDigest t)),
      (''canonicalThreadUrl'', jso (tb_canonicalThreadUrl t)),
      (''conversationId'', jso (tb_conversationId t)),
      (''userTurnBaselineDigest'', jso (tb_userTurnBaselineDigest t)),
      (''assistantTurnBaselineDigest'', jso (tb_assistantTurnBaselineDigest t)),
      (''configurationReceiptDigest'', jso (tb_configurationReceiptDigest t)),
      (''evidenceProfile'', Some (enc_profile (tb_evidenceProfile t))),
      (''targetLifecycle'', map_option (JStr \<circ> lifecycle_text) (tb_targetLifecycle t)),
      (''newTargetAnchorDigest'', jso (tb_newTargetAnchorDigest t)),
      (''blankTaskEvidenceDigest'', jso (tb_blankTaskEvidenceDigest t)),
      (''targetEstablishment'', map_option enc_establishment (tb_targetEstablishment t))]"

lemma enc_target_members: "enc_target t = enc_rec (target_members t)"
  by (simp add: enc_target_def target_members_def)

definition pending_profile :: "evidence_profile \<Rightarrow> evidence_profile" where
  "pending_profile p = p\<lparr>ep_stableConversationId := Not_available, ep_stableUserTurnId := Not_available\<rparr>"

text \<open>The anchor of a new target: the members that do not depend on what the Send created.\<close>

definition anchor_members :: "target_binding \<Rightarrow> (string \<times> jsv option) list" where
  "anchor_members t =
     [(''targetLifecycle'', js ''new''),
      (''providerId'', js (tb_providerId t)),
      (''browserId'', js (tb_browserId t)),
      (''tabId'', js (tb_tabId t)),
      (''coordinationScope'', js (scope_text (tb_coordinationScope t))),
      (''tabClaimEvidenceDigest'', jso (tb_tabClaimEvidenceDigest t)),
      (''userTurnBaselineDigest'', jso (tb_userTurnBaselineDigest t)),
      (''assistantTurnBaselineDigest'', jso (tb_assistantTurnBaselineDigest t)),
      (''configurationReceiptDigest'', jso (tb_configurationReceiptDigest t)),
      (''evidenceProfile'', Some (enc_profile (pending_profile (tb_evidenceProfile t)))),
      (''newTargetAnchorDigest'', jso (tb_newTargetAnchorDigest t)),
      (''blankTaskEvidenceDigest'', jso (tb_blankTaskEvidenceDigest t))]"

lemma no_index_keys:
  "list_all (\<lambda>k. \<not> is_array_index k) (map fst (target_members t))"
  by (simp add: target_members_def is_array_index_def is_digit_def in_range_def)

lemma snapshot_target: "snapshotRecord code (enc_target t) = Inr (enc_members (target_members t))"
  unfolding enc_target_members
  by (rule snapshot_enc_rec [OF no_index_keys]) (simp add: target_members_def MAX_JSON_KEYS_def)

lemma snapshot_profile: "snapshotRecord code (enc_profile p) = Inr (enc_members
     [(''providerIdentity'', js (requirement_text (ep_providerIdentity p))),
      (''stableTabId'', js (requirement_text (ep_stableTabId p))),
      (''stableConversationId'', js (requirement_text (ep_stableConversationId p))),
      (''stableUserTurnId'', js (requirement_text (ep_stableUserTurnId p))),
      (''authoritativeTabClaim'', js (requirement_text (ep_authoritativeTabClaim p))),
      (''replacementTabRecovery'', jb (ep_replacementTabRecovery p))])"
  unfolding enc_profile_def by (rule snapshot_enc_rec) (simp_all add: is_array_index_def is_digit_def in_range_def MAX_JSON_KEYS_def)

lemma anchored_profile_enc: "snapshotRecord code (enc_profile p) = Inr vs \<Longrightarrow> anchored_profile vs = enc_profile (pending_profile p)"
  unfolding snapshot_profile
  by (auto simp: anchored_profile_def jfield_defs plain_object_def enc_rec_def enc_profile_def pending_profile_def)

lemma target_snap: "snap_get (enc_members (target_members t)) k = jget (enc_target t) k"
  by (rule snapshot_get [OF snapshot_target])

lemma target_get:
  "jget (enc_target t) ''targetLifecycle'' = (case tb_targetLifecycle t of None \<Rightarrow> JUndefined | Some l \<Rightarrow> JStr (lifecycle_text l))"
  "jget (enc_target t) ''evidenceProfile'' = enc_profile (tb_evidenceProfile t)"
  by (simp_all add: enc_target_def jget_enc_rec_opt split: option.split)

lemma projection_new:
  assumes "tb_targetLifecycle t = Some New_pending \<or> tb_targetLifecycle t = Some New_established"
  shows "operationTargetBindingProjection (enc_target t) = Inr (enc_rec (anchor_members t))"
proof -
  obtain vs where vs: "snapshotRecord ''invalid_operation_handle'' (enc_profile (tb_evidenceProfile t)) = Inr vs"
    by (simp add: snapshot_profile)
  have "operationTargetBindingProjection (enc_target t) = Inr (plain_object (AList.update ''evidenceProfile''
      (enc_profile (pending_profile (tb_evidenceProfile t)))
      ((''targetLifecycle'', JStr ''new'') # enc_members (filter (\<lambda>(k, x). k \<notin> set ESTABLISHED_KEYS) (target_members t)))))"
    using assms by (auto simp: operationTargetBindingProjection_def snapshot_target target_snap target_get vs
        anchored_profile_enc [OF vs] filter_members)
  also have "(''targetLifecycle'', JStr ''new'') # enc_members (filter (\<lambda>(k, x). k \<notin> set ESTABLISHED_KEYS) (target_members t)) =
      enc_members ((''targetLifecycle'', js ''new'') # filter (\<lambda>(k, x). k \<notin> set ESTABLISHED_KEYS) (target_members t))"
    by (simp add: jfield_defs)
  finally show ?thesis
    by (simp add: update_members target_members_def ESTABLISHED_KEYS_def anchor_members_def plain_object_members)
qed

lemma projection_fixed:
  assumes "tb_targetLifecycle t = None \<or> tb_targetLifecycle t = Some Fixed"
  shows "operationTargetBindingProjection (enc_target t) = Inr (enc_target t)"
  using assms by (auto simp: operationTargetBindingProjection_def snapshot_target target_snap target_get)

text \<open>Establishing a target keeps its projection, and with it its keyed digest.\<close>

lemma established_projection:
  assumes "tb_targetLifecycle t = Some New_pending"
  shows "operationTargetBindingProjection (enc_target (established_target t e)) =
    operationTargetBindingProjection (enc_target t)"
proof -
  have "anchor_members (established_target t e) = anchor_members t"
    by (simp add: anchor_members_def established_target_def pending_profile_def)
  then show ?thesis using assms by (simp add: projection_new)
qed

lemma established_digest:
  "tb_targetLifecycle t = Some New_pending \<Longrightarrow> targetBindingDigest H (established_target t e) = targetBindingDigest H t"
  by (simp add: targetBindingDigest_def established_projection)

section \<open>Binding the same target again\<close>

text \<open>Values that agree up to the order of members.\<close>

definition same_graph :: "jsv \<Rightarrow> jsv \<Rightarrow> bool" where
  "same_graph v w \<longleftrightarrow> v = JUndefined \<and> w = JUndefined \<or>
     (\<exists>c d. v = jsv_of c \<and> w = jsv_of d \<and> sorted_value c = sorted_value d)"

lemma same_canonical_graph:
  assumes "canonicalJson v = Inr x" "canonicalJson w = Inr x" "is_plain v" "is_plain w"
  shows "same_graph v w"
proof -
  obtain c d where c: "v = jsv_of c" "distinct_keys c" and d: "w = jsv_of d" "distinct_keys d"
    using assms(3,4) by (auto simp: is_plain_def)
  obtain r b b' where "canonicalValue v 0 empty_budget = Inr (r, b)" "canonicalValue w 0 empty_budget = Inr (r, b')"
    by (rule canonicalJson_inject [OF assms(1,2)]) (simp_all add: c d)
  then have "sorted_value c = sorted_value d" using jsv_of_result by (metis c(1) d(1))
  with c(1) d(1) show ?thesis by (auto simp: same_graph_def)
qed

lemma jsv_of_scalar: "jsv_of c = JStr s \<longleftrightarrow> c = CStr s" "jsv_of c = JBool b \<longleftrightarrow> c = CBool b" "jsv_of c \<noteq> JUndefined"
  by (cases c; simp)+

lemma sorted_scalar: "sorted_value c = CStr s \<longleftrightarrow> c = CStr s" "sorted_value c = CBool b \<longleftrightarrow> c = CBool b"
  by (cases c; simp)+

lemma same_graph_scalar [simp]:
  "same_graph (JStr a) v \<longleftrightarrow> v = JStr a" "same_graph v (JStr a) \<longleftrightarrow> v = JStr a"
  "same_graph (JBool b) v \<longleftrightarrow> v = JBool b" "same_graph JUndefined v \<longleftrightarrow> v = JUndefined" "same_graph v JUndefined \<longleftrightarrow> v = JUndefined"
  unfolding same_graph_def
  by (auto simp: jsv_of_scalar sorted_scalar eq_commute [of "JStr _" "jsv_of _"] eq_commute [of "JBool _" "jsv_of _"]
      eq_commute [of "CStr _" "sorted_value _"] eq_commute [of "CBool _" "sorted_value _"]
      eq_commute [of JUndefined "jsv_of _"])

lemma jget_jsv_of: "jget (jsv_of (CObj ps)) k = (case map_of ps k of None \<Rightarrow> JUndefined | Some c \<Rightarrow> jsv_of c)"
  by (induction ps) (auto simp: jget_def)

lemma same_graph_get: "same_graph v w \<Longrightarrow> same_graph (jget v k) (jget w k)"
proof -
  assume "same_graph v w"
  then consider "v = JUndefined" "w = JUndefined"
    | c d where "v = jsv_of c" "w = jsv_of d" "sorted_value c = sorted_value d" by (auto simp: same_graph_def)
  then show ?thesis
  proof cases
    case 2
    show ?thesis
    proof (cases c)
      case (CObj ps)
      then obtain qs where qs: "d = CObj qs" using 2(3) by (cases d) auto
      have "map_option sorted_value (map_of ps k) = map_option sorted_value (map_of qs k)"
        using sorted.re_object [of ps] sorted.re_object [of qs] 2(3) by (metis CObj cjson.inject(5) qs)
      then show ?thesis unfolding 2(1,2) CObj qs jget_jsv_of
        by (auto simp: same_graph_def split: option.split)
    next
      case (CArr xs)
      then show ?thesis using 2 by (cases d) (simp_all add: jget_def)
    qed (use 2 in \<open>cases d; simp add: jget_def\<close>)+
  qed (simp add: jget_def)
qed

text \<open>An optional text member determines its text.\<close>

definition opt_text :: "string option \<Rightarrow> jsv" where
  "opt_text x = (case x of None \<Rightarrow> JUndefined | Some s \<Rightarrow> JStr s)"

lemma opt_text_same [simp]: "same_graph (opt_text x) (opt_text y) \<longleftrightarrow> x = y"
  by (auto simp: opt_text_def split: option.splits)

lemma get_profile:
  "jget (enc_profile p) ''providerIdentity'' = JStr (requirement_text (ep_providerIdentity p))"
  "jget (enc_profile p) ''stableTabId'' = JStr (requirement_text (ep_stableTabId p))"
  "jget (enc_profile p) ''stableConversationId'' = JStr (requirement_text (ep_stableConversationId p))"
  "jget (enc_profile p) ''stableUserTurnId'' = JStr (requirement_text (ep_stableUserTurnId p))"
  "jget (enc_profile p) ''authoritativeTabClaim'' = JStr (requirement_text (ep_authoritativeTabClaim p))"
  "jget (enc_profile p) ''replacementTabRecovery'' = JBool (ep_replacementTabRecovery p)"
  by (simp_all add: enc_profile_def jfield_defs)

lemma same_profile: "same_graph (enc_profile p) (enc_profile q) \<Longrightarrow> enc_profile p = enc_profile q"
proof -
  assume "same_graph (enc_profile p) (enc_profile q)"
  from same_graph_get [OF this, of "''providerIdentity''"] same_graph_get [OF this, of "''stableTabId''"]
    same_graph_get [OF this, of "''stableConversationId''"] same_graph_get [OF this, of "''stableUserTurnId''"]
    same_graph_get [OF this, of "''authoritativeTabClaim''"] same_graph_get [OF this, of "''replacementTabRecovery''"]
  show ?thesis unfolding get_profile same_graph_scalar by (simp add: enc_profile_def)
qed

lemma get_establishment:
  "jget (enc_establishment e) ''targetBindingDigest'' = JStr (te_targetBindingDigest e)"
  "jget (enc_establishment e) ''anchorDigest'' = JStr (te_anchorDigest e)"
  "jget (enc_establishment e) ''causalSendActionId'' = JStr (te_causalSendActionId e)"
  "jget (enc_establishment e) ''conversationId'' = JStr (te_conversationId e)"
  "jget (enc_establishment e) ''canonicalThreadUrl'' = JStr (te_canonicalThreadUrl e)"
  "jget (enc_establishment e) ''userTurnId'' = JStr (te_userTurnId e)"
  "jget (enc_establishment e) ''userTurnEvidenceDigest'' = JStr (te_userTurnEvidenceDigest e)"
  "jget (enc_establishment e) ''postSendDeltaDigest'' = opt_text (te_postSendDeltaDigest e)"
  "jget (enc_establishment e) ''evidenceDigest'' = JStr (te_evidenceDigest e)"
  "jget (enc_establishment e) ''observedAt'' = JStr (te_observedAt e)"
  by (cases "te_postSendDeltaDigest e"; simp add: enc_establishment_def jfield_defs opt_text_def)+

lemma same_establishment: "same_graph (enc_establishment e) (enc_establishment f) \<Longrightarrow> e = f"
proof -
  assume "same_graph (enc_establishment e) (enc_establishment f)"
  from same_graph_get [OF this, of "''targetBindingDigest''"] same_graph_get [OF this, of "''anchorDigest''"]
    same_graph_get [OF this, of "''causalSendActionId''"] same_graph_get [OF this, of "''conversationId''"]
    same_graph_get [OF this, of "''canonicalThreadUrl''"] same_graph_get [OF this, of "''userTurnId''"]
    same_graph_get [OF this, of "''userTurnEvidenceDigest''"] same_graph_get [OF this, of "''postSendDeltaDigest''"]
    same_graph_get [OF this, of "''evidenceDigest''"] same_graph_get [OF this, of "''observedAt''"]
  show ?thesis unfolding get_establishment same_graph_scalar opt_text_same by (simp add: target_establishment.equality)
qed

lemma get_target:
  "jget (enc_target t) ''providerId'' = JStr (tb_providerId t)"
  "jget (enc_target t) ''browserId'' = JStr (tb_browserId t)"
  "jget (enc_target t) ''tabId'' = JStr (tb_tabId t)"
  "jget (enc_target t) ''coordinationScope'' = JStr (scope_text (tb_coordinationScope t))"
  "jget (enc_target t) ''tabClaimEvidenceDigest'' = opt_text (tb_tabClaimEvidenceDigest t)"
  "jget (enc_target t) ''canonicalThreadUrl'' = opt_text (tb_canonicalThreadUrl t)"
  "jget (enc_target t) ''conversationId'' = opt_text (tb_conversationId t)"
  "jget (enc_target t) ''userTurnBaselineDigest'' = opt_text (tb_userTurnBaselineDigest t)"
  "jget (enc_target t) ''assistantTurnBaselineDigest'' = opt_text (tb_assistantTurnBaselineDigest t)"
  "jget (enc_target t) ''configurationReceiptDigest'' = opt_text (tb_configurationReceiptDigest t)"
  "jget (enc_target t) ''targetLifecycle'' = opt_text (map_option lifecycle_text (tb_targetLifecycle t))"
  "jget (enc_target t) ''newTargetAnchorDigest'' = opt_text (tb_newTargetAnchorDigest t)"
  "jget (enc_target t) ''blankTaskEvidenceDigest'' = opt_text (tb_blankTaskEvidenceDigest t)"
  "jget (enc_target t) ''targetEstablishment'' = (case tb_targetEstablishment t of None \<Rightarrow> JUndefined | Some e \<Rightarrow> enc_establishment e)"
  by (simp_all add: enc_target_def jget_enc_rec_opt jfield_defs opt_text_def split: option.split)

lemma lifecycle_member: "map_option (JStr \<circ> lifecycle_text) x = map_option JStr (map_option lifecycle_text x)"
  by (simp add: option.map_comp)

lemma enc_establishment_object: "enc_establishment e \<noteq> JUndefined"
  by (simp add: enc_establishment_def enc_rec_def)

lemma same_target:
  assumes "same_graph (enc_target t) (enc_target u)" shows "enc_target t = enc_target u"
proof -
  note g = same_graph_get [OF assms]
  have e: "tb_targetEstablishment t = tb_targetEstablishment u"
    using g [of "''targetEstablishment''"] unfolding get_target
    by (auto dest: same_establishment simp: enc_establishment_object split: option.splits)
  have p: "enc_profile (tb_evidenceProfile t) = enc_profile (tb_evidenceProfile u)"
    using g [of "''evidenceProfile''"] unfolding target_get by (rule same_profile)
  from g [of "''providerId''"] g [of "''browserId''"] g [of "''tabId''"] g [of "''coordinationScope''"]
    g [of "''tabClaimEvidenceDigest''"] g [of "''canonicalThreadUrl''"] g [of "''conversationId''"]
    g [of "''userTurnBaselineDigest''"] g [of "''assistantTurnBaselineDigest''"] g [of "''configurationReceiptDigest''"]
    g [of "''targetLifecycle''"] g [of "''newTargetAnchorDigest''"] g [of "''blankTaskEvidenceDigest''"]
  show ?thesis unfolding get_target same_graph_scalar opt_text_same
    by (simp add: enc_target_def lifecycle_member e p)
qed

lemma rebound_target:
  assumes "assertSameCanonical code enc_target t u = None" shows "enc_target t = enc_target u"
  using assms by (auto intro!: same_target same_canonical_graph simp: plain_target)

section \<open>The digest of a validated target exists\<close>

definition short :: "string \<Rightarrow> bool" where
  "short s \<longleftrightarrow> length s \<le> 4096"

definition sized :: "nat \<Rightarrow> nat \<Rightarrow> nat \<Rightarrow> jsv \<Rightarrow> bool" where
  "sized h p w v \<longleftrightarrow> vsafe v \<and> vheight v \<le> h \<and> vprops v \<le> p \<and> vweight v \<le> w"

lemma string_text_bytes: "byteLength (string_text s) \<le> 12 * length s + 2"
proof -
  have "byteLength (json_escape c) \<le> 12" for c
    using byteLength_le [of "json_escape c"] by (auto simp: json_escape_def Let_def)
  then have "byteLength (concat (map json_escape s)) \<le> 12 * length s"
    by (induction s) (simp_all add: add_mono)
  then show ?thesis by (simp add: string_text_def byteLength_Cons)
qed

lemma sized_scalar: "short s \<Longrightarrow> sized 0 0 50000 (JStr s)" "sized 0 0 50000 (JBool b)"
  using string_text_bytes [of s] by (auto simp: sized_def short_def)

definition sized_fields :: "nat \<Rightarrow> nat \<Rightarrow> nat \<Rightarrow> (string \<times> jsv option) list \<Rightarrow> bool" where
  "sized_fields h p w ps \<longleftrightarrow> list_all (\<lambda>(k, x). length k \<le> 40 \<and> k \<notin> set RESERVED_CANONICAL_KEYS \<and> pred_option (sized h p w) x) ps"

lemma sized_rec:
  assumes "sized_fields h p w ps"
  shows "sized (Suc h) (length ps * Suc p) (2 + length ps * (w + 484)) (enc_rec ps)"
  using assms
proof (induction ps)
  case Nil
  then show ?case by (simp add: sized_def)
next
  case (Cons q ps)
  obtain k x where q: "q = (k, x)" by fastforce
  have IH: "sized (Suc h) (length ps * Suc p) (2 + length ps * (w + 484)) (enc_rec ps)"
    using Cons by (simp add: sized_fields_def)
  have k: "length k \<le> 40" "k \<notin> set RESERVED_CANONICAL_KEYS" "pred_option (sized h p w) x"
    using Cons.prems by (simp_all add: sized_fields_def q)
  have b: "byteLength k \<le> MAX_CANONICAL_KEY_BYTES" "byteLength (string_text k) \<le> 482"
    using k(1) byteLength_le [of k] string_text_bytes [of k] by (simp_all add: MAX_CANONICAL_KEY_BYTES_def)
  show ?case using IH k b
    by (cases x) (auto simp: q sized_def enc_measures intro: le_SucI)
qed

lemma sized_canonical:
  assumes "sized h p w v" "h \<le> 32" "p \<le> 32768" "w \<le> 16777216" obtains x where "canonicalJson v = Inr x"
  by (rule canonicalJson_total [of v]) (use assms in \<open>simp_all add: sized_def MAX_CANONICAL_DEPTH_def
    MAX_CANONICAL_PROPERTIES_def MAX_CANONICAL_BYTES_def\<close>)

lemma sized_mono: "sized h p w v \<Longrightarrow> h \<le> h' \<Longrightarrow> p \<le> p' \<Longrightarrow> w \<le> w' \<Longrightarrow> sized h' p' w' v"
  by (auto simp: sized_def)

section \<open>Texts of a validated target\<close>

lemma short_valid:
  "assertDigest s = None \<Longrightarrow> short s" "assertOperationId s = None \<Longrightarrow> short s"
  "assertStableIdentifier s = None \<Longrightarrow> short s" "assertTimestamp s = None \<Longrightarrow> short s"
  "assertCanonicalThreadUrl U s = None \<Longrightarrow> short s"
  by (auto simp: short_def assertDigest_def assertOperationId_def assertStableIdentifier_def assertTimestamp_def
      assertCanonicalThreadUrl_def DIGEST_PATTERN_def UUID_PATTERN_def is_stable_identifier_def is_canonical_timestamp_def
      ISO_PATTERN_def dest: matches_seq_length)

lemma short_literals: "requirement_ok r \<Longrightarrow> short (requirement_text r)"
  by (auto simp: requirement_ok_def short_def)

lemma sized_profile: "profile_ok p \<Longrightarrow> sized 1 6 302906 (enc_profile p)"
proof -
  assume "profile_ok p"
  then have "sized_fields 0 0 50000 [(''providerIdentity'', js (requirement_text (ep_providerIdentity p))),
      (''stableTabId'', js (requirement_text (ep_stableTabId p))),
      (''stableConversationId'', js (requirement_text (ep_stableConversationId p))),
      (''stableUserTurnId'', js (requirement_text (ep_stableUserTurnId p))),
      (''authoritativeTabClaim'', js (requirement_text (ep_authoritativeTabClaim p))),
      (''replacementTabRecovery'', jb (ep_replacementTabRecovery p))]"
    by (simp add: sized_fields_def jfield_defs sized_scalar short_literals profile_ok_def RESERVED_CANONICAL_KEYS_def)
  then show ?thesis unfolding enc_profile_def by (rule sized_mono [OF sized_rec]) simp_all
qed

lemma sized_establishment:
  assumes "validateTargetEstablishmentValues U e t = None" shows "sized 1 10 504842 (enc_establishment e)"
proof -
  have "short (te_targetBindingDigest e)" "short (te_anchorDigest e)" "short (te_causalSendActionId e)"
    "short (te_conversationId e)" "short (te_canonicalThreadUrl e)" "short (te_userTurnId e)"
    "short (te_userTurnEvidenceDigest e)" "pred_option short (te_postSendDeltaDigest e)"
    "short (te_evidenceDigest e)" "short (te_observedAt e)"
    using assms by (auto simp: validateTargetEstablishmentValues_def option.pred_set intro: short_valid)
  then have "sized_fields 0 0 50000 [(''targetBindingDigest'', js (te_targetBindingDigest e)),
      (''anchorDigest'', js (te_anchorDigest e)), (''causalSendActionId'', js (te_causalSendActionId e)),
      (''conversationId'', js (te_conversationId e)), (''canonicalThreadUrl'', js (te_canonicalThreadUrl e)),
      (''userTurnId'', js (te_userTurnId e)), (''userTurnEvidenceDigest'', js (te_userTurnEvidenceDigest e)),
      (''postSendDeltaDigest'', jso (te_postSendDeltaDigest e)), (''evidenceDigest'', js (te_evidenceDigest e)),
      (''observedAt'', js (te_observedAt e))]"
    by (auto simp: sized_fields_def jfield_defs sized_scalar RESERVED_CANONICAL_KEYS_def option.pred_set)
  then show ?thesis unfolding enc_establishment_def by (rule sized_mono [OF sized_rec]) simp_all
qed

lemma scope_lifecycle_short:
  "short (scope_text Process_scope)" "short (scope_text Provider_scope)"
  "short (lifecycle_text Fixed)" "short (lifecycle_text New_pending)" "short (lifecycle_text New_established)"
  "short ''new''" "short ''unavailable''"
  by (simp_all add: short_def)

lemma valid_target_members:
  assumes "validateTargetValues U t = None"
  shows "assertStableIdentifier (tb_providerId t) = None" "assertStableIdentifier (tb_browserId t) = None"
    "assertStableIdentifier (tb_tabId t) = None" "when_some (tb_conversationId t) assertStableIdentifier = None"
    "when_some (tb_userTurnBaselineDigest t) assertDigest = None"
    "when_some (tb_assistantTurnBaselineDigest t) assertDigest = None"
    "when_some (tb_configurationReceiptDigest t) assertDigest = None"
    "profile_ok (tb_evidenceProfile t)" "tb_coordinationScope t = Process_scope \<or> tb_coordinationScope t = Provider_scope"
    "when_some (tb_tabClaimEvidenceDigest t) assertDigest = None"
    "when_some (tb_canonicalThreadUrl t) (assertCanonicalThreadUrl U) = None"
    "when_some (tb_newTargetAnchorDigest t) assertDigest = None"
    "when_some (tb_blankTaskEvidenceDigest t) assertDigest = None"
  using assms unfolding validateTargetValues_def Let_def first_error_Cons_None throw_state_None by blast+

lemma valid_target_texts:
  assumes "validateTargetValues U t = None"
  shows "short (tb_providerId t)" "short (tb_browserId t)" "short (tb_tabId t)"
    "short (scope_text (tb_coordinationScope t))" "pred_option short (tb_tabClaimEvidenceDigest t)"
    "pred_option short (tb_canonicalThreadUrl t)" "pred_option short (tb_conversationId t)"
    "pred_option short (tb_userTurnBaselineDigest t)" "pred_option short (tb_assistantTurnBaselineDigest t)"
    "pred_option short (tb_configurationReceiptDigest t)" "profile_ok (tb_evidenceProfile t)"
    "pred_option short (tb_newTargetAnchorDigest t)" "pred_option short (tb_blankTaskEvidenceDigest t)"
    "pred_option (short \<circ> lifecycle_text) (tb_targetLifecycle t)"
    "pred_option (sized 1 10 504842 \<circ> enc_establishment) (tb_targetEstablishment t)"
proof -
  have lc: "Op_Target.lifecycle_of t \<in> {Fixed, New_pending, New_established}" by (rule validateTarget_lifecycle [OF assms])
  then show "pred_option (short \<circ> lifecycle_text) (tb_targetLifecycle t)"
    using scope_lifecycle_short by (cases "tb_targetLifecycle t") (auto simp: Op_Target.lifecycle_of_def)
  show "pred_option (sized 1 10 504842 \<circ> enc_establishment) (tb_targetEstablishment t)"
  proof (cases "Op_Target.lifecycle_of t = New_established")
    case True
    then have "established_target_checks U t = None" using assms by (simp add: validateTargetValues_def Let_def)
    then show ?thesis
      by (cases "tb_targetEstablishment t") (auto simp: established_target_checks_def simp del: One_nat_def intro: sized_establishment)
  next
    case False
    then have "tb_targetEstablishment t = None"
      using lc validateTarget_fixed [OF assms] validateTarget_pending [OF assms] by auto
    then show ?thesis by simp
  qed
qed (use valid_target_members [OF assms] scope_lifecycle_short in
    \<open>auto simp: option.pred_set when_some_None_iff intro: short_valid\<close>)

lemma sized_target:
  assumes "validateTargetValues U t = None" shows "sized 2 165 7580000 (enc_target t)"
proof -
  note v = valid_target_texts [OF assms]
  have o: "pred_option (sized 1 10 504842) (jso x)" if "pred_option short x" for x
    using that by (auto simp: jso_def option.pred_set intro!: sized_mono [OF sized_scalar(1)])
  have s: "pred_option (sized 1 10 504842) (js x)" if "short x" for x
    using that by (auto simp: js_def intro!: sized_mono [OF sized_scalar(1)])
  have p: "sized 1 10 504842 (enc_profile (tb_evidenceProfile t))"
    by (rule sized_mono [OF sized_profile [OF v(11)]]) simp_all
  have l: "pred_option (sized 1 10 504842) (map_option (JStr \<circ> lifecycle_text) (tb_targetLifecycle t))"
    using v(14) by (auto simp: option.pred_set intro!: sized_mono [OF sized_scalar(1)])
  have e: "pred_option (sized 1 10 504842) (map_option enc_establishment (tb_targetEstablishment t))"
    using v(15) by (auto simp: option.pred_set)
  have "sized_fields 1 10 504842 (target_members t)"
    using v p l e by (simp add: target_members_def sized_fields_def o s RESERVED_CANONICAL_KEYS_def del: One_nat_def)
  then show ?thesis unfolding enc_target_members
    by (rule sized_mono [OF sized_rec]) (simp_all add: target_members_def)
qed

lemma sized_anchor:
  assumes "validateTargetValues U t = None" shows "sized 2 165 7580000 (enc_rec (anchor_members t))"
proof -
  note v = valid_target_texts [OF assms]
  have o: "pred_option (sized 1 10 504842) (jso x)" if "pred_option short x" for x
    using that by (auto simp: jso_def option.pred_set intro!: sized_mono [OF sized_scalar(1)])
  have s: "pred_option (sized 1 10 504842) (js x)" if "short x" for x
    using that by (auto simp: js_def intro!: sized_mono [OF sized_scalar(1)])
  have "profile_ok (pending_profile (tb_evidenceProfile t))"
    using v(11) by (simp add: profile_ok_def pending_profile_def requirement_ok_def)
  then have p: "sized 1 10 504842 (enc_profile (pending_profile (tb_evidenceProfile t)))"
    using sized_mono [OF sized_profile] by fastforce
  have "sized_fields 1 10 504842 (anchor_members t)"
    using v p by (simp add: anchor_members_def sized_fields_def o s scope_lifecycle_short RESERVED_CANONICAL_KEYS_def del: One_nat_def)
  then show ?thesis by (rule sized_mono [OF sized_rec]) (simp_all add: anchor_members_def)
qed

lemma target_digest_exists:
  assumes "validateTargetValues U t = None" obtains d where "targetBindingDigest H t = Inr d"
proof -
  have "tb_targetLifecycle t \<in> {None, Some Fixed, Some New_pending, Some New_established}"
    using validateTarget_lifecycle [OF assms] by (auto simp: Op_Target.lifecycle_of_def split: option.splits)
  then obtain v where v: "operationTargetBindingProjection (enc_target t) = Inr v" "sized 2 165 7580000 v"
    using projection_fixed projection_new sized_target [OF assms] sized_anchor [OF assms] by auto
  obtain x where "canonicalJson v = Inr x" by (rule sized_canonical [OF v(2)]) simp_all
  then show ?thesis using that v(1) by (simp add: targetBindingDigest_def hmacDigest_def)
qed

section \<open>The target along a continuation\<close>

lemma target_frames:
  "applyActionIntent s a rv at = Inr s' \<Longrightarrow> st_target s' = st_target s"
  "applyActionReceipt s r rv = Inr s' \<Longrightarrow> st_target s' = st_target s"
  "applyArtifactTransferIntent s i rv = Inr s' \<Longrightarrow> st_target s' = st_target s"
  "applyArtifactTransferReceipt s q rv = Inr s' \<Longrightarrow> st_target s' = st_target s"
  "applyPrepared s a at b rv = Inr s' \<Longrightarrow> st_target s' = st_target s"
  "applyCompletedReceipt s rp at = Inr s' \<Longrightarrow> st_target s' = st_target s"
  "applyContentAvailability s av = Inr s' \<Longrightarrow> st_target s' = st_target s"
proof -
  have i: "st_target s' = st_target s" if "applyActionIntent s a rv at = Inr s'" for s s' a rv at
    using applyActionIntent_Inr(2) [OF that] by simp
  have r: "st_target s' = st_target s" if "applyActionReceipt s r rv = Inr s'" for s s' r rv
    using that by (rule applyActionReceipt_Inr) simp
  show "applyActionIntent s a rv at = Inr s' \<Longrightarrow> st_target s' = st_target s" by (rule i)
  show "applyActionReceipt s r rv = Inr s' \<Longrightarrow> st_target s' = st_target s" by (rule r)
  show "applyArtifactTransferIntent s i rv = Inr s' \<Longrightarrow> st_target s' = st_target s"
    by (erule applyArtifactTransferIntent_Inr) (use i in simp)
  show "applyArtifactTransferReceipt s q rv = Inr s' \<Longrightarrow> st_target s' = st_target s"
    by (erule applyArtifactTransferReceipt_Inr) (use r in simp)
  show "applyPrepared s a at b rv = Inr s' \<Longrightarrow> st_target s' = st_target s"
    by (erule applyPrepared_Inr) (use i applyOwnershipBaseline_frame(4) in metis)
  show "applyCompletedReceipt s rp at = Inr s' \<Longrightarrow> st_target s' = st_target s"
    using applyCompletedReceipt_Inr(9) by fastforce
  show "applyContentAvailability s av = Inr s' \<Longrightarrow> st_target s' = st_target s"
    by (erule applyContentAvailability_Inr) simp
qed

lemma effect_target:
  assumes "event_effect U s ev rv = Inr s'"
  obtains "st_target s' = st_target s"
  | u where "st_target s' = Some u" "validateTargetValues U u = None"
      "\<And>t. st_target s = Some t \<Longrightarrow> enc_target t = enc_target u"
  | t e where "st_target s = Some t" "st_target s' = Some (established_target t e)"
      "Op_Target.lifecycle_of t \<noteq> Fixed" "Op_Target.lifecycle_of t \<noteq> New_established"
      "validateTargetValues U (established_target t e) = None"
proof (cases ev)
  case (Target_bound t at)
  with assms have "validatedTarget U s t = Inr t" "s' = s\<lparr>st_target := Some t\<rparr>"
    by (auto simp: after_time_Inr bind_res_Inr dest: validatedTarget_Inr)
  then show ?thesis
    by (intro that(2) [of t]) (auto simp: validatedTarget_def simp del: assertSameCanonical_None dest: rebound_target)
next
  case (Target_established e)
  with assms obtain t' where "establishTarget U s e = Inr t'" "s' = s\<lparr>st_target := Some t'\<rparr>"
    by (auto simp: after_time_Inr bind_res_Inr)
  then show ?thesis by (elim establishTarget_Inr) (use that(3) in simp)
qed (use assms that(1) in \<open>auto simp: after_time_Inr applyOwnershipBaseline_frame applySubmissionWitness_frame applyPhaseChange_frame
      target_frames split: option.splits\<close>)

text \<open>In a reachable state the target is valid, and along a continuation its digest stays.\<close>

lemma step_target:
  assumes "op_step U s ev s'" "pred_option (\<lambda>t. validateTargetValues U t = None) (st_target s)"
  shows "pred_option (\<lambda>t. validateTargetValues U t = None) (st_target s') \<and>
    (\<forall>t. st_target s = Some t \<longrightarrow> (\<exists>u. st_target s' = Some u \<and> targetBindingDigest H t = targetBindingDigest H u))"
proof -
  obtain s1 where e: "event_effect U s ev (st_revision s + 1) = Inr s1" and s': "st_target s' = st_target s1"
    using step_effect [OF assms(1)] by (metis withRevision_fields)
  show ?thesis using e
  proof (cases rule: effect_target)
    case (3 t e)
    have "Op_Target.lifecycle_of t = New_pending"
      using validateTarget_lifecycle [of U t] 3 assms(2) by auto
    then have "tb_targetLifecycle t = Some New_pending"
      by (auto simp: Op_Target.lifecycle_of_def split: option.splits)
    then show ?thesis using 3 by (simp add: s' established_digest)
  qed (use assms(2) in \<open>auto simp: s' targetBindingDigest_def\<close>)
qed

lemma reachable_target: "op_reachable U s \<Longrightarrow> pred_option (\<lambda>t. validateTargetValues U t = None) (st_target s)"
proof (induction rule: op_reachable.induct)
  case (created ev s)
  then show ?case by (rule created_is_created) (simp add: created_state_def)
next
  case (extended s ev s')
  then show ?case using step_target by blast
qed

lemma steps_target:
  assumes "op_steps U s s'" "op_reachable U s" "st_target s = Some t"
  obtains u where "st_target s' = Some u" "targetBindingDigest H t = targetBindingDigest H u"
proof -
  have "\<exists>u. st_target s' = Some u \<and> targetBindingDigest H t = targetBindingDigest H u" using assms
  proof (induction rule: op_steps.induct)
    case (more s s1 ev s')
    then obtain u where "st_target s1 = Some u" "targetBindingDigest H t = targetBindingDigest H u" by blast
    then show ?case using step_target [OF more.hyps(2) reachable_target [OF op_steps_reachable [OF more.hyps(1) more.prems(1)]]]
      by metis
  qed simp
  then show thesis using that by blast
qed

end
