(* ===== verification/Handle_Facts.thy ===== *)
theory Handle_Facts
  imports Handle_Phases Handle_Target Op_Properties
begin

text \<open>
  Issued handles: every reachable operation has one, it passes the shape check, and the checks of
  \<open>validateOperationHandle\<close> in terms of the members of the handle.
\<close>

section \<open>Reachable operations\<close>

lemma reachable_identity:
  "op_reachable U s \<Longrightarrow> UUID_PATTERN (st_operationId s) \<and> DIGEST_PATTERN (st_requestDigest s) \<and>
     (st_surface s = Chat \<or> st_surface s = Work) \<and> 1 \<le> st_revision s \<and> st_phase s \<in> set OPERATION_PHASES"
proof (induction rule: op_reachable.induct)
  case (created ev s)
  then show ?case by (rule created_is_created) (simp add: created_state_def OPERATION_PHASES_def)
next
  case (extended s ev s')
  have "st_phase s' \<in> set OPERATION_PHASES"
    using known_closed [OF steps_phases [OF op_steps.more [OF op_steps.none extended.hyps(2)]]] extended.IH by blast
  then show ?case using step_frame [OF extended.hyps(2)] extended.IH by (auto simp: same_identity_def)
qed

lemma steps_revision: "op_steps U s s' \<Longrightarrow> s' = s \<or> st_revision s < st_revision s'"
proof (induction rule: op_steps.induct)
  case (more s s1 ev s')
  then show ?case using step_frame(2) [OF more.hyps(2)] by auto
qed simp

section \<open>Issuing\<close>

lemma handle_exists:
  assumes "op_reachable U s" obtains h where "operationHandleFromState H s = Inr h"
proof (cases "st_target s")
  case None
  then show ?thesis using that by (simp add: operationHandleFromState_def)
next
  case (Some t)
  then have "validateTargetValues U t = None" using reachable_target [OF assms] by simp
  then obtain d where "targetBindingDigest H t = Inr d" by (rule target_digest_exists)
  then show ?thesis using that Some by (simp add: operationHandleFromState_def)
qed

lemma handle_fields:
  assumes "operationHandleFromState H s = Inr h"
  shows "oh_schemaVersion h = OPERATION_HANDLE_SCHEMA_VERSION" "oh_operationId h = st_operationId s"
    "oh_requestDigest h = st_requestDigest s" "oh_surface h = st_surface s" "oh_revision h = st_revision s"
    "oh_phase h = st_phase s" "oh_mutationBoundary h = st_mutationBoundary s"
  using assms by (auto simp: operationHandleFromState_def bind_res_Inr Let_def split: option.splits)

lemma handle_target:
  assumes "operationHandleFromState H s = Inr h"
  shows "oh_targetBindingDigest h = None \<longleftrightarrow> st_target s = None"
    "oh_targetBindingDigest h = Some d \<Longrightarrow> \<exists>t. st_target s = Some t \<and> targetBindingDigest H t = Inr d"
  using assms by (auto simp: operationHandleFromState_def bind_res_Inr Let_def split: option.splits)

lemma target_digest_pattern:
  assumes "hex_hash H" "targetBindingDigest H t = Inr d" shows "DIGEST_PATTERN d"
  using assms hex_hash_digest by (auto simp: targetBindingDigest_def bind_res_Inr)

section \<open>Members of an encoded handle\<close>

lemma get_handle:
  "jget (enc_handle h) ''schemaVersion'' = JStr (oh_schemaVersion h)"
  "jget (enc_handle h) ''operationId'' = JStr (oh_operationId h)"
  "jget (enc_handle h) ''requestDigest'' = JStr (oh_requestDigest h)"
  "jget (enc_handle h) ''surface'' = JStr (surface_text (oh_surface h))"
  "jget (enc_handle h) ''revision'' = JNum (oh_revision h)"
  "jget (enc_handle h) ''phase'' = JStr (phase_text (oh_phase h))"
  "jget (enc_handle h) ''mutationBoundary'' = JStr (boundary_text (oh_mutationBoundary h))"
  "jget (enc_handle h) ''targetBindingDigest'' = opt_text (oh_targetBindingDigest h)"
  by (simp_all add: enc_handle_def jfield_defs jget_enc_rec_opt opt_text_def split: option.split)

lemma enc_members_keys: "list_all P (map fst ps) \<Longrightarrow> list_all P (map fst (enc_members ps))"
  by (induction ps) (auto simp: enc_members_Cons split: option.splits)

lemma handle_members:
  obtains vs where "assertExactKeys code HANDLE_KEYS (enc_handle h) = Inr vs" "\<forall>k. snap_get vs k = jget (enc_handle h) k"
    "js_object (enc_handle h)"
proof -
  let ?ps = "[(''schemaVersion'', js (oh_schemaVersion h)), (''operationId'', js (oh_operationId h)),
      (''requestDigest'', js (oh_requestDigest h)), (''surface'', js (surface_text (oh_surface h))),
      (''revision'', jn (oh_revision h)), (''phase'', js (phase_text (oh_phase h))),
      (''mutationBoundary'', js (boundary_text (oh_mutationBoundary h))), (''targetBindingDigest'', jso (oh_targetBindingDigest h))]"
  have s: "snapshotRecord code (enc_handle h) = Inr (enc_members ?ps)" unfolding enc_handle_def
    by (rule snapshot_enc_rec) (simp_all add: is_array_index_def is_digit_def in_range_def MAX_JSON_KEYS_def)
  have "list_all (\<lambda>k. k \<in> set HANDLE_KEYS) (map fst (enc_members ?ps))"
    by (rule enc_members_keys) (simp add: HANDLE_KEYS_def)
  then have "assertExactKeys code HANDLE_KEYS (enc_handle h) = Inr (enc_members ?ps)"
    by (simp add: assertExactKeys_def s)
  then show ?thesis using that snapshot_get [OF s] by (simp add: enc_handle_def enc_rec_def js_object_def)
qed

lemma phase_of_text: "p \<in> set OPERATION_PHASES \<Longrightarrow> phase_of (phase_text p) = p"
  by (auto simp: OPERATION_PHASES_def phase_of_def)

lemma boundary_of_text: "real_boundary b \<Longrightarrow> boundary_of (boundary_text b) = b"
  by (cases b) (auto simp: real_boundary_def boundary_of_def)

section \<open>Accepting\<close>

text \<open>What the checks ask of a typed handle.\<close>

definition handle_shaped :: "operation_handle \<Rightarrow> bool" where
  "handle_shaped h \<longleftrightarrow> oh_schemaVersion h = OPERATION_HANDLE_SCHEMA_VERSION \<and> UUID_PATTERN (oh_operationId h) \<and>
     DIGEST_PATTERN (oh_requestDigest h) \<and> (oh_surface h = Chat \<or> oh_surface h = Work) \<and>
     is_safe_integer (oh_revision h) \<and> 1 \<le> oh_revision h \<and> oh_phase h \<in> set OPERATION_PHASES \<and>
     known_boundary (boundary_of (boundary_text (oh_mutationBoundary h))) \<and>
     pred_option DIGEST_PATTERN (oh_targetBindingDigest h)"

lemma shaped_accepted:
  assumes "handle_shaped h"
  obtains vs where "validateHandleShape (enc_handle h) = Inr vs" "\<forall>k. snap_get vs k = jget (enc_handle h) k"
proof -
  obtain vs where vs: "assertExactKeys ''invalid_operation_request'' HANDLE_KEYS (enc_handle h) = Inr vs"
    "\<forall>k. snap_get vs k = jget (enc_handle h) k" "js_object (enc_handle h)"
    using handle_members by blast
  have "validateHandleShape (enc_handle h) = Inr vs"
    using assms by (auto simp: validateHandleShape_def vs get_handle handle_shaped_def assertId_def assertOperationId_def
        digest_value_def safe_integer_from_def progress_value_def phase_of_text opt_text_def split: option.splits)
  with vs(2) show ?thesis using that by blast
qed

lemma handle_accepted:
  assumes "handle_shaped h" "operationHandleFromState H s = Inr current"
    and "oh_operationId h = st_operationId s" "oh_requestDigest h = st_requestDigest s" "oh_surface h = st_surface s"
    and "oh_revision h \<le> st_revision s" "\<not> rank_less (st_mutationBoundary s) (boundary_of (boundary_text (oh_mutationBoundary h)))"
    and "oh_revision h < st_revision s \<longrightarrow> phaseCanReach (oh_phase h) (st_phase s)"
    and "oh_targetBindingDigest h = oh_targetBindingDigest current \<or> oh_targetBindingDigest h = None \<and> oh_revision h < st_revision s"
    and "oh_revision h = st_revision s \<longrightarrow> oh_phase h = st_phase s \<and> oh_mutationBoundary h = st_mutationBoundary s"
  shows "validateOperationHandle H (enc_handle h) s = Inr (oh_revision h < st_revision s, current)"
proof -
  obtain vs where vs: "validateHandleShape (enc_handle h) = Inr vs" "\<forall>k. snap_get vs k = jget (enc_handle h) k"
    using shaped_accepted [OF assms(1)] by blast
  have r: "revision_of vs = oh_revision h" "handle_phase vs = oh_phase h"
    "handle_boundary vs = boundary_of (boundary_text (oh_mutationBoundary h))"
    "optional_text (opt_text (oh_targetBindingDigest h)) = oh_targetBindingDigest h"
    using assms(1) by (auto simp: revision_of_def handle_phase_def handle_boundary_def vs(2) get_handle text_of_def
        handle_shaped_def phase_of_text optional_text_def opt_text_def split: option.split)
  show ?thesis using assms
    by (auto simp: validateOperationHandle_def vs r get_handle Let_def handle_shaped_def safe_integer_from_def text_of_def
        bind_res_Inr)
qed

text \<open>What an accepted handle is.\<close>

lemma shape_accepted:
  assumes "validateHandleShape v = Inr vs"
  shows "snap_get vs k = jget v k" "\<exists>ps. v = JObj 0 ps" "\<exists>i. jget v ''revision'' = JNum i \<and> is_safe_integer i \<and> 1 \<le> i"
    "\<exists>p b. jget v ''phase'' = JStr p \<and> jget v ''mutationBoundary'' = JStr b \<and> phase_of p \<in> set OPERATION_PHASES \<and>
       known_boundary (boundary_of b)"
    "jget v ''schemaVersion'' = JStr OPERATION_HANDLE_SCHEMA_VERSION"
    "jget v ''targetBindingDigest'' = opt_text (optional_text (jget v ''targetBindingDigest''))"
proof -
  obtain us where us: "snapshotRecord ''invalid_operation_request'' v = Inr us" "vs = us"
    using assms by (auto simp: validateHandleShape_def assertExactKeys_def bind_res_Inr split: if_splits)
  show g: "snap_get vs k = jget v k" for k using snapshot_get [OF us(1)] by (simp add: us(2))
  show "\<exists>ps. v = JObj 0 ps" using snapshot_obj [OF us(1)] by blast
  show "\<exists>i. jget v ''revision'' = JNum i \<and> is_safe_integer i \<and> 1 \<le> i"
    "\<exists>p b. jget v ''phase'' = JStr p \<and> jget v ''mutationBoundary'' = JStr b \<and> phase_of p \<in> set OPERATION_PHASES \<and>
       known_boundary (boundary_of b)"
    "jget v ''schemaVersion'' = JStr OPERATION_HANDLE_SCHEMA_VERSION"
    "jget v ''targetBindingDigest'' = opt_text (optional_text (jget v ''targetBindingDigest''))"
    using assms by (auto simp: validateHandleShape_def bind_res_Inr g safe_integer_from_def progress_value_def digest_value_def
        optional_text_def opt_text_def split: if_splits jsv.splits)
qed

lemma validate_Inr:
  assumes "validateOperationHandle H v s = Inr (stale, current)"
  obtains vs where "validateHandleShape v = Inr vs" "operationHandleFromState H s = Inr current"
    "stale \<longleftrightarrow> revision_of vs < st_revision s" "revision_of vs \<le> st_revision s"
    "snap_get vs ''operationId'' = JStr (st_operationId s)" "snap_get vs ''requestDigest'' = JStr (st_requestDigest s)"
    "snap_get vs ''surface'' = JStr (surface_text (st_surface s))"
    "\<not> rank_less (st_mutationBoundary s) (handle_boundary vs)"
    "stale \<longrightarrow> phaseCanReach (handle_phase vs) (st_phase s)"
    "optional_text (snap_get vs ''targetBindingDigest'') = oh_targetBindingDigest current \<or>
      optional_text (snap_get vs ''targetBindingDigest'') = None \<and> stale"
    "\<not> stale \<longrightarrow> text_of (snap_get vs ''phase'') = phase_text (st_phase s) \<and>
      text_of (snap_get vs ''mutationBoundary'') = boundary_text (st_mutationBoundary s)"
  using assms by (auto simp: validateOperationHandle_def Let_def bind_res_Inr not_less)

end
