(* ===== verification/Handle_Properties.thy ===== *)
theory Handle_Properties
  imports Handle_Facts Journal_Example
begin

text \<open>
  The properties of operation handles, each with a witness on the operation of \<open>Op_Example\<close>.
\<close>

section \<open>Issued handles\<close>

lemma issued_shape:
  assumes "op_reachable U s" "hex_hash H" "operationHandleFromState H s = Inr h" "is_safe_integer (st_revision s)"
  shows "handle_shaped h"
proof -
  have "real_boundary (st_mutationBoundary s)" using reachable_boundary [OF assms(1)] expected_boundary_real by simp
  then have "known_boundary (boundary_of (boundary_text (st_mutationBoundary s)))"
    by (simp add: boundary_of_text known_boundary_def in_table_def real_boundary_def)
  moreover have "pred_option DIGEST_PATTERN (oh_targetBindingDigest h)"
    using handle_target(2) [OF assms(3)] target_digest_pattern [OF assms(2)] by (auto simp: option.pred_set)
  ultimately show ?thesis
    using reachable_identity [OF assms(1)] assms(4) by (simp add: handle_shaped_def handle_fields [OF assms(3)])
qed

lemma issued_target:
  assumes "op_steps U s s'" "op_reachable U s" "operationHandleFromState H s = Inr h" "operationHandleFromState H s' = Inr h'"
  shows "oh_targetBindingDigest h = oh_targetBindingDigest h' \<or> oh_targetBindingDigest h = None"
proof (cases "oh_targetBindingDigest h")
  case (Some d)
  obtain t where t: "st_target s = Some t" "targetBindingDigest H t = Inr d" using handle_target(2) [OF assms(3) Some] by blast
  obtain u where "st_target s' = Some u" "targetBindingDigest H t = targetBindingDigest H u"
    by (rule steps_target [OF assms(1,2) t(1)])
  then show ?thesis using assms(4) t(2) by (auto simp: Some operationHandleFromState_def Let_def bind_res_Inr)
qed simp

lemma issued_handle_accepted:
  assumes "op_reachable U s" "op_steps U s s'" "hex_hash H" "is_safe_integer (st_revision s)"
  shows "\<exists>h h'. operationHandleFromState H s = Inr h \<and> operationHandleFromState H s' = Inr h' \<and>
    validateOperationHandle H (enc_handle h) s' = Inr (st_revision s < st_revision s', h')"
proof -
  have r': "op_reachable U s'" by (rule op_steps_reachable [OF assms(2,1)])
  obtain h where h: "operationHandleFromState H s = Inr h" by (rule handle_exists [OF assms(1)])
  obtain h' where h': "operationHandleFromState H s' = Inr h'" by (rule handle_exists [OF r'])
  note f = handle_fields [OF h]
  have b: "real_boundary (st_mutationBoundary s)" "real_boundary (st_mutationBoundary s')"
    using reachable_boundary [OF assms(1)] reachable_boundary [OF r'] expected_boundary_real by simp_all
  then have nb: "\<not> rank_less (st_mutationBoundary s') (st_mutationBoundary s)"
    using boundary_monotone [OF assms(1,2)] by (simp add: rank_less_real)
  have same: "s' = s" if "st_revision s = st_revision s'" using steps_revision [OF assms(2)] that by auto
  have "validateOperationHandle H (enc_handle h) s' = Inr (oh_revision h < st_revision s', h')"
  proof (rule handle_accepted [OF issued_shape [OF assms(1,3) h assms(4)] h'])
    show "oh_targetBindingDigest h = oh_targetBindingDigest h' \<or> oh_targetBindingDigest h = None \<and> oh_revision h < st_revision s'"
      using issued_target [OF assms(2,1) h h'] steps_revision [OF assms(2)] h h' by (auto simp: f)
  qed (use steps_frame [OF assms(2)] nb steps_phases [OF assms(2)] same in
      \<open>auto simp: f same_identity_def boundary_of_text b phaseCanReach_rtrancl\<close>)
  with h h' show ?thesis by (auto simp: f)
qed

text \<open>C15: a handle once issued stays valid. Every reachable operation has a handle, and whatever is
  appended afterwards, the handle is accepted against the later state, reported stale exactly when
  the operation has moved on, and answered with the current handle. Binding the same target again
  and establishing a new target do not invalidate it.\<close>

theorem issued_handle_stays_valid:
  assumes "op_reachable U s" "op_steps U s s'" "hex_hash H" "is_safe_integer (st_revision s)"
  shows "\<exists>h h'. operationHandleFromState H s = Inr h \<and> operationHandleFromState H s' = Inr h' \<and>
    validateOperationHandle H (enc_handle h) s' = Inr (st_revision s < st_revision s', h')"
  by (rule issued_handle_accepted [OF assms])

theorem issued_handle_stays_valid_witness:
  "\<exists>h h'. operationHandleFromState ex_hash ex_s6 = Inr h \<and> operationHandleFromState ex_hash ex_s8 = Inr h' \<and>
    validateOperationHandle ex_hash (enc_handle h) ex_s8 = Inr (True, h')"
proof -
  have "st_revision ex_s6 < st_revision ex_s8" "is_safe_integer (st_revision ex_s6)" by code_simp+
  with issued_handle_stays_valid [OF ex_reachable(6) ex_steps(1) ex_hash] show ?thesis by auto
qed

section \<open>Accepted handles\<close>

text \<open>C16: what is accepted is bound. An accepted value names the operation, the request digest and
  the surface of the durable state and never a later revision; one that is not stale is,
  member by member, the current handle; a stale one carries the current target digest or none, and
  a phase the operation can have come from.\<close>

theorem accepted_handle_is_bound:
  assumes "validateOperationHandle H v s = Inr (stale, current)"
  shows "operationHandleFromState H s = Inr current \<and>
    (\<forall>k\<in>{''schemaVersion'', ''operationId'', ''requestDigest'', ''surface''}. jget v k = jget (enc_handle current) k) \<and>
    (\<exists>i. jget v ''revision'' = JNum i \<and> i \<le> st_revision s \<and> (stale \<longleftrightarrow> i < st_revision s)) \<and>
    (\<not> stale \<longrightarrow> (\<forall>k\<in>set HANDLE_KEYS. jget v k = jget (enc_handle current) k)) \<and>
    (stale \<longrightarrow> jget v ''targetBindingDigest'' \<in> {JUndefined, jget (enc_handle current) ''targetBindingDigest''}) \<and>
    (stale \<longrightarrow> (\<exists>p. jget v ''phase'' = JStr p \<and> (phase_of p, st_phase s) \<in> phase_edges\<^sup>*))"
proof -
  obtain vs where vs: "validateHandleShape v = Inr vs" "operationHandleFromState H s = Inr current"
    "stale \<longleftrightarrow> revision_of vs < st_revision s" "revision_of vs \<le> st_revision s"
    "snap_get vs ''operationId'' = JStr (st_operationId s)" "snap_get vs ''requestDigest'' = JStr (st_requestDigest s)"
    "snap_get vs ''surface'' = JStr (surface_text (st_surface s))"
    "\<not> rank_less (st_mutationBoundary s) (handle_boundary vs)"
    "stale \<longrightarrow> phaseCanReach (handle_phase vs) (st_phase s)"
    "optional_text (snap_get vs ''targetBindingDigest'') = oh_targetBindingDigest current \<or>
      optional_text (snap_get vs ''targetBindingDigest'') = None \<and> stale"
    "\<not> stale \<longrightarrow> text_of (snap_get vs ''phase'') = phase_text (st_phase s) \<and>
      text_of (snap_get vs ''mutationBoundary'') = boundary_text (st_mutationBoundary s)"
    by (rule validate_Inr [OF assms])
  note g = shape_accepted [OF vs(1)] and f = handle_fields [OF vs(2)]
  obtain i where i: "jget v ''revision'' = JNum i" using g(3) by blast
  obtain p b where p: "jget v ''phase'' = JStr p" "jget v ''mutationBoundary'' = JStr b" "phase_of p \<in> set OPERATION_PHASES"
    using g(4) by blast
  have r: "revision_of vs = i" "handle_phase vs = phase_of p" by (simp_all add: revision_of_def handle_phase_def g(1) i p text_of_def)
  have d: "jget v ''targetBindingDigest'' = opt_text (oh_targetBindingDigest current) \<or> jget v ''targetBindingDigest'' = JUndefined \<and> stale"
    using vs(10) g(1,6) by (metis opt_text_def option.simps(4))
  have same: "jget v k = jget (enc_handle current) k" if "\<not> stale" "k \<in> set HANDLE_KEYS" for k
    using that vs(3-7) vs(11) d g(1,5) by (auto simp: HANDLE_KEYS_def get_handle f i p r text_of_def)
  have "stale \<longrightarrow> (phase_of p, st_phase s) \<in> phase_edges\<^sup>*" using vs(9) by (simp add: r phaseCanReach_rtrancl)
  with vs(2-7) d same show ?thesis by (auto simp: get_handle f g(1,5) i p r)
qed

theorem accepted_handle_is_bound_witness:
  "\<exists>h current. validateOperationHandle ex_hash (enc_handle h) ex_s8 = Inr (True, current) \<and>
     jget (enc_handle h) ''operationId'' = jget (enc_handle current) ''operationId''"
proof -
  have "st_revision ex_s6 < st_revision ex_s8" "is_safe_integer (st_revision ex_s6)" by code_simp+
  then obtain h current where v: "validateOperationHandle ex_hash (enc_handle h) ex_s8 = Inr (True, current)"
    using issued_handle_accepted [OF ex_reachable(6) ex_steps(1) ex_hash] by auto
  from accepted_handle_is_bound [OF v] v show ?thesis by blast
qed

section \<open>The order of phases\<close>

text \<open>The search for a phase that can precede another decides reachability in the table of
  edges, and it terminates.\<close>

theorem phase_precedence: "phaseCanReach p q \<longleftrightarrow> (p, q) \<in> phase_edges\<^sup>*"
  by (rule phaseCanReach_rtrancl)

section \<open>Inherited boundary names\<close>

text \<open>
  \<open>mutationBoundary in BOUNDARY_RANK\<close> holds for the names of \<open>Object.prototype\<close> as well, and the rank
  read under such a name is a function, which no comparison finds greater: a stale handle that claims
  the boundary \<open>toString\<close> is accepted.
\<close>

theorem inherited_boundary_accepted:
  assumes "op_reachable U s" "op_steps U s s'" "hex_hash H" "is_safe_integer (st_revision s)" "st_revision s < st_revision s'"
    and "k \<in> set object_prototype_keys" "operationHandleFromState H s = Inr h" "operationHandleFromState H s' = Inr h'"
  shows "validateOperationHandle H (enc_handle (h\<lparr>oh_mutationBoundary := Other_boundary k\<rparr>)) s' = Inr (True, h')"
proof -
  have k: "boundary_of k = Other_boundary k" using assms(6) by (auto simp: object_prototype_keys_def boundary_of_def)
  note f = handle_fields [OF assms(7)]
  let ?g = "h\<lparr>oh_mutationBoundary := Other_boundary k\<rparr>"
  have "validateOperationHandle H (enc_handle ?g) s' = Inr (oh_revision ?g < st_revision s', h')"
  proof (rule handle_accepted [OF _ assms(8)])
    show "handle_shaped ?g" using issued_shape [OF assms(1,3,7,4)] assms(6)
      by (simp add: handle_shaped_def k known_boundary_def in_table_def)
    show "oh_targetBindingDigest ?g = oh_targetBindingDigest h' \<or> oh_targetBindingDigest ?g = None \<and> oh_revision ?g < st_revision s'"
      using issued_target [OF assms(2,1,7,8)] assms(5) by (auto simp: f)
  qed (use steps_frame [OF assms(2)] steps_phases [OF assms(2)] assms(5) in
      \<open>auto simp: f same_identity_def k rank_less_def phaseCanReach_rtrancl split: option.splits\<close>)
  with assms(5) show ?thesis by (simp add: f)
qed

end
