(* ===== verification/Op_Request.thy ===== *)
theory Op_Request
  imports Op_Handle Canonical_Total
begin

text \<open>
  The requests of \<open>operations/handle.ts\<close>: the bounded validation of a submit and of a control request,
  which are values of the caller, and the keyed digests that identify them.
\<close>

section \<open>Bounds\<close>

definition OPERATION_REQUEST_SCHEMA_VERSION :: string where
  "OPERATION_REQUEST_SCHEMA_VERSION = ''chatgpt.browser_control.operation_request.v1''"

definition OPERATION_CONTROL_REQUEST_SCHEMA_VERSION :: string where
  "OPERATION_CONTROL_REQUEST_SCHEMA_VERSION = ''chatgpt.browser_control.operation_control_request.v1''"

definition MAX_INPUT_FILES :: nat where "MAX_INPUT_FILES = 256"
definition MAX_TOOLS :: nat where "MAX_TOOLS = 256"
definition MAX_PROMPT_BYTES :: nat where "MAX_PROMPT_BYTES = 8 * 1024 * 1024"
definition MAX_JSON_DEPTH :: nat where "MAX_JSON_DEPTH = 16"
definition MAX_JSON_NODES :: nat where "MAX_JSON_NODES = 10000"
definition MAX_JSON_STRING_BYTES :: nat where "MAX_JSON_STRING_BYTES = 8 * 1024 * 1024"
definition MAX_JSON_KEY_BYTES :: nat where "MAX_JSON_KEY_BYTES = 4096"

section \<open>Free configuration values\<close>

text \<open>
  \<open>validateJsonValue\<close> threads a budget of nodes and bytes through the traversal. Every failure has the
  code \<open>invalid_operation_configuration\<close>.
\<close>

type_synonym json_budget = "nat \<times> nat"

definition json_refused :: "'a hres" where
  "json_refused = Inl (OperationHandleError ''invalid_operation_configuration'')"

definition spend_bytes :: "string \<Rightarrow> json_budget \<Rightarrow> json_budget hres" where
  "spend_bytes s b = (case b of (nodes, bytes) \<Rightarrow>
     if bytes + byteLength s > MAX_JSON_STRING_BYTES then json_refused else Inr (nodes, bytes + byteLength s))"

definition json_key_refused :: "string \<Rightarrow> bool" where
  "json_key_refused k \<longleftrightarrow> length k > 256 \<or> byteLength k > MAX_JSON_KEY_BYTES \<or> list_ex is_control k \<or>
     k \<in> set RESERVED_CANONICAL_KEYS"

lemma size_list_enumeration [simp]: "size_list f (enumeration_order xs) = size_list f xs"
proof -
  have "size_list f ys = sum_mset (image_mset f (mset ys)) + length ys" for ys
    by (induction ys) auto
  then show ?thesis by (metis mset_enumeration_order size_mset)
qed

function visitJson :: "jsv \<Rightarrow> nat \<Rightarrow> json_budget \<Rightarrow> json_budget hres"
  and visitEntries :: "jsv list \<Rightarrow> nat \<Rightarrow> json_budget \<Rightarrow> json_budget hres"
  and visitMembers :: "(string \<times> jsv jprop) list \<Rightarrow> nat \<Rightarrow> json_budget \<Rightarrow> json_budget hres"
where
  "visitJson candidate depth b0 = (case b0 of (nodes0, bytes) \<Rightarrow> let b = (Suc nodes0, bytes) in
     if Suc nodes0 > MAX_JSON_NODES then json_refused
     else if depth > MAX_JSON_DEPTH then json_refused
     else case candidate of
       JNull \<Rightarrow> Inr b
     | JBool x \<Rightarrow> Inr b
     | JStr s \<Rightarrow> spend_bytes s b
     | JNum i \<Rightarrow> Inr b
     | JNegZero \<Rightarrow> Inr b
     | JArr vs \<Rightarrow> if length vs > MAX_JSON_NODES then json_refused else visitEntries vs depth b
     | JObj syms ps \<Rightarrow>
         if length ps + syms > MAX_JSON_KEYS \<or> syms > 0 \<or> \<not> list_all (safe_member \<circ> snd) ps then json_refused
         else visitMembers (enumeration_order ps) depth b
     | _ \<Rightarrow> json_refused)"
| "visitEntries [] depth b = Inr b"
| "visitEntries (v # vs) depth b = bind_res (visitJson v (Suc depth) b) (\<lambda>b'. visitEntries vs depth b')"
| "visitMembers [] depth b = Inr b"
| "visitMembers ((k, p) # ps) depth b = (case p of
     Accessor \<Rightarrow> json_refused
   | Data enumerable v \<Rightarrow>
       if json_key_refused k then json_refused
       else bind_res (spend_bytes k b) (\<lambda>b1. bind_res (visitJson v (Suc depth) b1) (\<lambda>b2. visitMembers ps depth b2)))"
  by pat_completeness auto
termination
  by (relation "measure (\<lambda>x. case x of
        Inl (v, _, _) \<Rightarrow> 2 * size v + 1
      | Inr (Inl (vs, _, _)) \<Rightarrow> 2 * size_list size vs
      | Inr (Inr (ps, _, _)) \<Rightarrow> 2 * size_list (size_prod (\<lambda>_. 0) (size_jprop size)) ps)") auto

definition validateJsonValue :: "jsv \<Rightarrow> hcheck" where
  "validateJsonValue value = result_error (visitJson value 0 (0, 0))"

section \<open>Members of a submit request\<close>

definition TARGET_CODE :: string where "TARGET_CODE = ''invalid_operation_target''"

definition http_url :: "url_parser \<Rightarrow> string \<Rightarrow> bool" where
  "http_url U s = (case U s of
     None \<Rightarrow> False
   | Some p \<Rightarrow> (url_protocol p = ''https:'' \<or> url_protocol p = ''http:'') \<and> url_username p = [] \<and> url_password p = [])"

definition validateTargetRequest :: "url_parser \<Rightarrow> jsv \<Rightarrow> hcheck" where
  "validateTargetRequest U target = (case snapshotRecord TARGET_CODE target of
     Inl e \<Rightarrow> Some e
   | Inr vs \<Rightarrow> (case snap_get vs ''type'' of
       JStr t \<Rightarrow>
         let exact = (\<lambda>keys. result_error (assertExactKeys ''invalid_operation_request'' keys target)) in
         if t = ''new'' \<or> t = ''selected_tab'' then exact [''type'']
         else if t = ''tab_id'' then first_error
           [exact [''type'', ''tabId''], validateBoundedString 512 (snap_get vs ''tabId'')]
         else if t = ''conversation_id'' then first_error
           [exact [''type'', ''conversationId''], validateBoundedString 512 (snap_get vs ''conversationId'')]
         else if t = ''url'' then first_error
           [exact [''type'', ''url''], validateBoundedString 4096 (snap_get vs ''url''),
            throw_handle (\<not> http_url U (text_of (snap_get vs ''url''))) TARGET_CODE]
         else Some (OperationHandleError TARGET_CODE)
     | _ \<Rightarrow> Some (OperationHandleError TARGET_CODE)))"

definition CONFIGURATION_CODE :: string where "CONFIGURATION_CODE = ''invalid_operation_configuration''"

definition CONFIGURATION_KEYS :: "string list" where
  "CONFIGURATION_KEYS = [''experience'', ''model'', ''modelVersion'', ''reasoning'', ''mode'', ''tools'', ''additional'']"

text \<open>A check of a member that may be absent.\<close>

definition when_defined :: "jsv \<Rightarrow> hcheck \<Rightarrow> hcheck" where
  "when_defined v c = (if v = JUndefined then None else c)"

definition validateConfigurationRequest :: "jsv \<Rightarrow> hcheck" where
  "validateConfigurationRequest configuration = when_defined configuration
     (case assertExactKeys CONFIGURATION_CODE CONFIGURATION_KEYS configuration of
        Inl e \<Rightarrow> Some e
      | Inr vs \<Rightarrow> first_error
          ([when_defined (snap_get vs ''experience'') (throw_handle
              (snap_get vs ''experience'' \<noteq> JStr ''chat'' \<and> snap_get vs ''experience'' \<noteq> JStr ''work'') CONFIGURATION_CODE)] @
           map (\<lambda>k. when_defined (snap_get vs k) (validateBoundedString 512 (snap_get vs k)))
             [''model'', ''modelVersion'', ''reasoning'', ''mode''] @
           [when_defined (snap_get vs ''tools'') (case readArrayEntries CONFIGURATION_CODE MAX_TOOLS (snap_get vs ''tools'') of
              Inl e \<Rightarrow> Some e | Inr ts \<Rightarrow> first_error (map (validateBoundedString 512) ts)),
            when_defined (snap_get vs ''additional'') (validateJsonValue (snap_get vs ''additional''))]))"

definition CAPTURE_CODE :: string where "CAPTURE_CODE = ''invalid_operation_capture''"

definition validateCapturePolicy :: "jsv \<Rightarrow> hcheck" where
  "validateCapturePolicy capture = when_defined capture
     (case assertExactKeys CAPTURE_CODE [''responseContent'', ''responseFormat'', ''artifacts'', ''outputDirectory''] capture of
        Inl e \<Rightarrow> Some e
      | Inr vs \<Rightarrow> let content = snap_get vs ''responseContent''; responseFormat = snap_get vs ''responseFormat'';
            artifacts = snap_get vs ''artifacts''; directory = snap_get vs ''outputDirectory'' in first_error
          [throw_handle (content \<noteq> JStr ''include'' \<and> content \<noteq> JStr ''metadata'') CAPTURE_CODE,
           throw_handle (responseFormat \<noteq> JUndefined \<and> responseFormat \<noteq> JStr ''markdown'' \<and> responseFormat \<noteq> JStr ''text'') CAPTURE_CODE,
           throw_handle (artifacts \<noteq> JStr ''receipt_only'' \<and> artifacts \<noteq> JStr ''transfer'') CAPTURE_CODE,
           when_defined directory (throw_handle (case directory of JStr s \<Rightarrow> \<not> bounded_path s | _ \<Rightarrow> True) CAPTURE_CODE),
           throw_handle (artifacts = JStr ''transfer'' \<and> directory = JUndefined) CAPTURE_CODE,
           throw_handle (artifacts = JStr ''receipt_only'' \<and> directory \<noteq> JUndefined) CAPTURE_CODE])"

section \<open>The file manifest\<close>

text \<open>\<open>path.basename\<close> of Node on a POSIX platform.\<close>

definition basename :: "string \<Rightarrow> string" where
  "basename p = rev (takeWhile (\<lambda>c. c \<noteq> CHR ''/'') (dropWhile (\<lambda>c. c = CHR ''/'') (rev p)))"

definition MANIFEST_CODE :: string where "MANIFEST_CODE = ''invalid_operation_file_manifest''"
definition FILE_CODE :: string where "FILE_CODE = ''invalid_operation_file_request''"
definition MISMATCH_CODE :: string where "MISMATCH_CODE = ''operation_file_manifest_mismatch''"

definition display_name_ok :: "string \<Rightarrow> bool" where
  "display_name_ok s \<longleftrightarrow> s \<noteq> [] \<and> length s \<le> 512 \<and>
     \<not> list_ex (\<lambda>c. c = CHR 0x5C \<or> c = CHR ''/'' \<or> is_control c) s"

definition manifest_entry_ok :: "(string \<times> jsv) list \<Rightarrow> bool" where
  "manifest_entry_ok vs \<longleftrightarrow> (case (snap_get vs ''displayName'', snap_get vs ''contentSha256'') of
     (JStr name, JStr sha) \<Rightarrow> display_name_ok name \<and> safe_integer_from 0 (snap_get vs ''bytes'') \<and> SHA256_PATTERN sha
   | _ \<Rightarrow> False)"

text \<open>One round of the loop: the entry, then the file of the request at the same index.\<close>

definition manifest_round :: "jsv \<Rightarrow> jsv \<Rightarrow> hcheck" where
  "manifest_round file requested =
     (case assertExactKeys MANIFEST_CODE [''displayName'', ''bytes'', ''contentSha256''] file of
        Inl e \<Rightarrow> Some e
      | Inr vs \<Rightarrow> if \<not> manifest_entry_ok vs then Some (OperationHandleError MANIFEST_CODE)
          else (case assertExactKeys FILE_CODE [''path'', ''displayName''] requested of
            Inl e \<Rightarrow> Some e
          | Inr rs \<Rightarrow> first_error
              [throw_handle (case snap_get rs ''path'' of JStr p \<Rightarrow> \<not> bounded_path p | _ \<Rightarrow> True) FILE_CODE,
               when_defined (snap_get rs ''displayName'') (validateBoundedString 512 (snap_get rs ''displayName'')),
               throw_handle (text_of (snap_get vs ''displayName'') \<noteq>
                   (if snap_get rs ''displayName'' = JUndefined then basename (text_of (snap_get rs ''path''))
                    else text_of (snap_get rs ''displayName''))) MISMATCH_CODE]))"

definition manifest_check :: "jsv list \<Rightarrow> jsv list \<Rightarrow> hcheck" where
  "manifest_check entries requested =
     (if length requested \<noteq> length entries then Some (OperationHandleError MISMATCH_CODE)
      else first_error (map (\<lambda>(file, request). manifest_round file request) (zip entries requested)))"

section \<open>The digest of a submit request\<close>

definition REQUEST_KEYS :: "string list" where
  "REQUEST_KEYS = [''schemaVersion'', ''operationId'', ''surface'', ''prompt'', ''target'', ''configuration'', ''files'',
     ''capture'', ''timeoutMs'']"

definition submit_member_check :: "url_parser \<Rightarrow> (string \<times> jsv) list \<Rightarrow> hcheck" where
  "submit_member_check U vs = first_error
     [assertId (snap_get vs ''operationId''),
      throw_handle (snap_get vs ''schemaVersion'' \<noteq> JStr OPERATION_REQUEST_SCHEMA_VERSION) ''unsupported_operation_request'',
      throw_handle (snap_get vs ''surface'' \<noteq> JStr ''chat'' \<and> snap_get vs ''surface'' \<noteq> JStr ''work'') ''invalid_operation_surface'',
      throw_handle (case snap_get vs ''prompt'' of JStr s \<Rightarrow> byteLength s > MAX_PROMPT_BYTES | _ \<Rightarrow> True) ''invalid_operation_prompt'',
      validateTargetRequest U (snap_get vs ''target''),
      validateConfigurationRequest (snap_get vs ''configuration''),
      validateCapturePolicy (snap_get vs ''capture''),
      validateTimeout (snap_get vs ''timeoutMs'')]"

definition digest_input :: "(string \<times> jsv) list \<Rightarrow> jsv list \<Rightarrow> jsv" where
  "digest_input vs entries = plain_object
     [(''operationId'', snap_get vs ''operationId''), (''surface'', snap_get vs ''surface''),
      (''target'', snap_get vs ''target''), (''prompt'', snap_get vs ''prompt''),
      (''configuration'', snap_get vs ''configuration''), (''tools'', jget (snap_get vs ''configuration'') ''tools''),
      (''files'', JArr entries), (''capturePolicy'', snap_get vs ''capture''),
      (''behavior'', plain_object [(''operationRequestSchemaVersion'', snap_get vs ''schemaVersion'')])]"

definition operationSubmitRequestDigest :: "url_parser \<Rightarrow> keyed_hash \<Rightarrow> jsv \<Rightarrow> jsv \<Rightarrow> string hres" where
  "operationSubmitRequestDigest U H request files =
     bind_res (assertExactKeys ''invalid_operation_request'' REQUEST_KEYS request) (\<lambda>vs.
     bind_res (checked (submit_member_check U vs) ()) (\<lambda>_.
     bind_res (readArrayEntries MANIFEST_CODE MAX_INPUT_FILES files) (\<lambda>entries.
     bind_res (if snap_get vs ''files'' = JUndefined then Inr []
               else readArrayEntries MISMATCH_CODE MAX_INPUT_FILES (snap_get vs ''files'')) (\<lambda>requested.
     bind_res (checked (manifest_check entries requested) ()) (\<lambda>_.
       raise_res (operationRequestDigest H (digest_input vs entries)))))))"

section \<open>The digest of a control request\<close>

definition CONTROL_KEYS :: "string list" where
  "CONTROL_KEYS = [''schemaVersion'', ''controlActionId'', ''parent'', ''action'', ''expectedAssistantTurnId'', ''steerPrompt'', ''timeoutMs'']"

definition CONTROL_CODE :: string where "CONTROL_CODE = ''invalid_operation_control_request''"
definition CONTROL_TARGET_CODE :: string where "CONTROL_TARGET_CODE = ''invalid_operation_control_target''"

definition CONTROL_DOMAIN :: string where "CONTROL_DOMAIN = ''codex-chatgpt-control/operation-control-request/v1''"
definition STEER_DOMAIN :: string where "STEER_DOMAIN = ''codex-chatgpt-control/control-steer-prompt/v1''"

definition control_member_check :: "(string \<times> jsv) list \<Rightarrow> (string \<times> jsv) list \<Rightarrow> hcheck" where
  "control_member_check vs parent = (let action = snap_get vs ''action''; steer = snap_get vs ''steerPrompt'' in first_error
     [throw_handle (snap_get parent ''phase'' \<noteq> JStr ''generating'' \<or> snap_get parent ''targetBindingDigest'' = JUndefined)
        CONTROL_TARGET_CODE,
      throw_handle (case snap_get vs ''expectedAssistantTurnId'' of JStr s \<Rightarrow> js_trim s = [] \<or> length s > 512 | _ \<Rightarrow> True)
        CONTROL_TARGET_CODE,
      throw_handle (action \<noteq> JStr ''stop'' \<and> action \<noteq> JStr ''steer'') CONTROL_CODE,
      throw_handle (action = JStr ''steer'' \<and> (case steer of JStr s \<Rightarrow> s = [] | _ \<Rightarrow> True)) CONTROL_CODE,
      when_defined steer (throw_handle (case steer of JStr s \<Rightarrow> byteLength s > MAX_PROMPT_BYTES | _ \<Rightarrow> True) CONTROL_CODE),
      throw_handle (action = JStr ''stop'' \<and> steer \<noteq> JUndefined) CONTROL_CODE,
      validateTimeout (snap_get vs ''timeoutMs'')])"

definition steer_projection :: "keyed_hash \<Rightarrow> jsv \<Rightarrow> jsv hres" where
  "steer_projection H steer = (if steer = JUndefined then Inr JUndefined
     else bind_res (raise_res (hmacDigest H STEER_DOMAIN steer)) (\<lambda>d. Inr (plain_object
       [(''digest'', JStr d), (''bytes'', JNum (int (byteLength (text_of steer))))])))"

definition control_identity :: "(string \<times> jsv) list \<Rightarrow> (string \<times> jsv) list \<Rightarrow> jsv \<Rightarrow> jsv" where
  "control_identity vs parent steer = plain_object
     [(''schemaVersion'', JStr OPERATION_CONTROL_REQUEST_SCHEMA_VERSION),
      (''controlActionId'', snap_get vs ''controlActionId''),
      (''parentOperationId'', snap_get parent ''operationId''),
      (''parentRequestDigest'', snap_get parent ''requestDigest''),
      (''parentTargetBindingDigest'', snap_get parent ''targetBindingDigest''),
      (''expectedAssistantTurnId'', snap_get vs ''expectedAssistantTurnId''),
      (''action'', snap_get vs ''action''),
      (''steerPrompt'', steer)]"

definition operationControlRequestDigest :: "keyed_hash \<Rightarrow> jsv \<Rightarrow> string hres" where
  "operationControlRequestDigest H request =
     (if \<not> js_object request then Inl (OperationHandleError CONTROL_CODE)
      else bind_res (assertExactKeys ''invalid_operation_request'' CONTROL_KEYS request) (\<lambda>vs.
        bind_res (checked (first_error
          [assertId (snap_get vs ''controlActionId''),
           throw_handle (snap_get vs ''schemaVersion'' \<noteq> JStr OPERATION_CONTROL_REQUEST_SCHEMA_VERSION)
             ''unsupported_operation_control_request'']) ()) (\<lambda>_.
        bind_res (validateHandleShape (snap_get vs ''parent'')) (\<lambda>parent.
        bind_res (checked (control_member_check vs parent) ()) (\<lambda>_.
        bind_res (steer_projection H (snap_get vs ''steerPrompt'')) (\<lambda>steer.
          raise_res (hmacDigest H CONTROL_DOMAIN (control_identity vs parent steer))))))))"

end
