(* ===== verification/Request_Facts.thy ===== *)
theory Request_Facts
  imports Op_Request
begin

text \<open>
  What a canonical graph keeps of the value it was made of, and what is hashed for a request.
\<close>

declare canonicalValue.simps [simp del]

section \<open>Members of a canonical graph\<close>

definition prints_as :: "jsv \<Rightarrow> cjson \<Rightarrow> bool" where
  "prints_as v c \<longleftrightarrow> (\<exists>d b b'. canonicalValue v d b = Inr (c, b'))"

text \<open>Two values that canonicalize to the same graph.\<close>

definition same_canonical :: "jsv \<Rightarrow> jsv \<Rightarrow> bool" where
  "same_canonical v w \<longleftrightarrow> (\<exists>c. prints_as v c \<and> prints_as w c)"

lemma canonical_members:
  "canonicalProperties ps d b = Inr (cs, b') \<Longrightarrow> map_of ps k = Some p \<Longrightarrow>
     \<exists>v c. p = Data True v \<and> map_of cs k = Some c \<and> prints_as v c"
proof (induction ps arbitrary: b cs b')
  case (Cons q ps)
  obtain k' p' where q: "q = (k', p')" by fastforce
  obtain v b1 c b2 cs' where c: "p' = Data True v" "canonicalValue v (Suc d) b1 = Inr (c, b2)"
    "canonicalProperties ps d b2 = Inr (cs', b')" "cs = (k', c) # cs'"
    using Cons.prems(1) by (cases p') (auto simp: q bind_res_Inr type_error_def split: if_splits)
  show ?case
  proof (cases "k' = k")
    case True
    then show ?thesis using c(1,2,4) Cons.prems(2) by (auto simp: q prints_as_def)
  next
    case False
    then show ?thesis using Cons.IH [OF c(3)] Cons.prems(2) by (simp add: q c(4))
  qed
qed simp

lemma prints_member:
  assumes "prints_as (plain_object ps) c" "map_of ps k = Some v"
  shows "\<exists>cs x. c = CObj cs \<and> map_of cs k = Some x \<and> prints_as v x"
proof -
  let ?ps = "map (\<lambda>(k, v). (k, Data True v)) ps"
  obtain d b1 b' cs where c: "canonicalProperties (sort_key fst ?ps) d b1 = Inr (cs, b')" "c = CObj cs"
    using assms(1) by (auto simp: prints_as_def plain_object_def canonicalValue_unfold bind_res_Inr type_error_def split: if_splits)
  have "map_of (sort_key fst ?ps) k = Some (Data True v)" using assms(2) map_of_map [of "Data True" ps] by simp
  from canonical_members [OF c(1) this] show ?thesis by (simp add: c(2))
qed

lemma same_member:
  assumes "same_canonical (plain_object ps) (plain_object qs)" "map_of ps k = Some v" "map_of qs k = Some w"
  shows "same_canonical v w"
proof -
  obtain c where c: "prints_as (plain_object ps) c" "prints_as (plain_object qs) c"
    using assms(1) by (auto simp: same_canonical_def)
  show ?thesis using prints_member [OF c(1) assms(2)] prints_member [OF c(2) assms(3)] by (auto simp: same_canonical_def)
qed

lemma same_text: "same_canonical (JStr s) (JStr t) \<Longrightarrow> s = t"
  by (auto simp: same_canonical_def prints_as_def canonicalValue.simps bind_res_Inr)

lemma same_canonical_text:
  assumes "canonicalJson v = Inr t" "canonicalJson w = Inr t" "distinct_props v" "distinct_props w"
  shows "same_canonical v w"
  by (rule canonicalJson_inject [OF assms]) (auto simp: same_canonical_def prints_as_def)

section \<open>What is hashed for a request\<close>

text \<open>The identity that \<open>operationRequestDigest\<close> digests.\<close>

definition identity_of :: "keyed_hash \<Rightarrow> jsv \<Rightarrow> jsv res" where
  "identity_of H input = bind_res (safeRecordValues input
       [''operationId'', ''surface'', ''target'', ''prompt'', ''configuration'', ''tools'', ''files'', ''capturePolicy'', ''behavior''])
     (\<lambda>f. case f ''prompt'' of
        JStr prompt \<Rightarrow>
          bind_res (if f ''files'' = JUndefined then Inr [] else bind_res (safeArrayElements (f ''files''))
              (map_res (canonicalFileProjection H))) (\<lambda>files.
          bind_res (hmacDigest H PROMPT_DOMAIN (JStr prompt)) (\<lambda>d.
          bind_res (canonicalCapturePolicy (f ''capturePolicy'')) (\<lambda>policy.
            Inr (request_identity f prompt d files policy))))
      | _ \<Rightarrow> Inl (TypeError SAFE_CANONICAL_ERROR))"

lemma bind_res_assoc: "bind_res (bind_res r f) g = bind_res r (\<lambda>x. bind_res (f x) g)"
  by (cases r) simp_all

lemma operationRequestDigest_identity:
  "operationRequestDigest H input = bind_res (identity_of H input) (hmacDigest H REQUEST_DOMAIN)"
  unfolding operationRequestDigest_def identity_of_def bind_res_assoc
  by (intro arg_cong2 [of _ _ _ _ bind_res] refl ext) (simp add: bind_res_assoc split: jsv.split)

definition canonical_text :: "jsv \<Rightarrow> string" where
  "canonical_text v = (case canonicalJson v of Inl e \<Rightarrow> [] | Inr t \<Rightarrow> t)"

text \<open>The two messages that identify a request: its identity and its prompt.\<close>

definition digest_messages :: "keyed_hash \<Rightarrow> jsv \<Rightarrow> string list" where
  "digest_messages H input = (case identity_of H input of
     Inl e \<Rightarrow> []
   | Inr v \<Rightarrow> [hmac_message REQUEST_DOMAIN (canonical_text v),
       hmac_message PROMPT_DOMAIN (canonical_text (jget input ''prompt''))])"

text \<open>The input of the digest for a request and its manifest.\<close>

definition input_of :: "jsv \<Rightarrow> jsv \<Rightarrow> jsv" where
  "input_of request files = digest_input
     (case snapshotRecord ''invalid_operation_request'' request of Inl e \<Rightarrow> [] | Inr vs \<Rightarrow> vs)
     (case files of JArr entries \<Rightarrow> entries | _ \<Rightarrow> [])"

lemma submit_digest_input:
  assumes "operationSubmitRequestDigest U H request files = Inr d"
  shows "operationRequestDigest H (input_of request files) = Inr d" "\<exists>es. files = JArr es"
    "\<And>k. snap_get (case snapshotRecord ''invalid_operation_request'' request of Inl e \<Rightarrow> [] | Inr vs \<Rightarrow> vs) k = jget request k"
proof -
  obtain vs es where vs: "snapshotRecord ''invalid_operation_request'' request = Inr vs" and es: "files = JArr es"
    and d: "operationRequestDigest H (digest_input vs es) = Inr d"
    using assms by (auto simp: operationSubmitRequestDigest_def assertExactKeys_def bind_res_Inr readArrayEntries_def
        split: if_splits jsv.splits)
  show "operationRequestDigest H (input_of request files) = Inr d" using d by (simp add: input_of_def vs es)
  show "\<exists>es. files = JArr es" by (simp add: es)
  show "\<And>k. snap_get (case snapshotRecord ''invalid_operation_request'' request of Inl e \<Rightarrow> [] | Inr vs \<Rightarrow> vs) k = jget request k"
    using snapshot_get [OF vs] by (simp add: vs)
qed

lemma jget_plain_object: "jget (plain_object ps) k = (case map_of ps k of None \<Rightarrow> JUndefined | Some v \<Rightarrow> v)"
  using map_of_map [of "Data True" ps] by (simp add: jget_def plain_object_def split: option.split)

lemma input_get:
  assumes "operationSubmitRequestDigest U H request files = Inr d"
    "k \<in> {''operationId'', ''surface'', ''target'', ''prompt'', ''configuration''}"
  shows "jget (input_of request files) k = jget request k"
  using assms(2) submit_digest_input(3) [OF assms(1)]
  by (auto simp: input_of_def digest_input_def jget_plain_object)

lemma safe_record_plain:
  assumes "safeRecordValues (plain_object ps) allowed = Inr f" shows "f k = jget (plain_object ps) k"
  using assms by (auto simp: safeRecordValues_def jget_def plain_object_def split: option.splits if_splits jprop.splits)

lemma identity_Inr:
  assumes "identity_of H (plain_object ps) = Inr v"
  obtains f prompt files pd policy where "\<And>k. f k = jget (plain_object ps) k" "jget (plain_object ps) ''prompt'' = JStr prompt"
    "v = request_identity f prompt pd files policy" "hmacDigest H PROMPT_DOMAIN (JStr prompt) = Inr pd"
    "f ''files'' = JUndefined \<and> files = [] \<or> (\<exists>es. map_res (canonicalFileProjection H) es = Inr files)"
    "canonicalCapturePolicy (f ''capturePolicy'') = Inr policy"
proof -
  obtain f where f: "safeRecordValues (plain_object ps)
      [''operationId'', ''surface'', ''target'', ''prompt'', ''configuration'', ''tools'', ''files'', ''capturePolicy'', ''behavior''] = Inr f"
    using assms by (auto simp: identity_of_def bind_res_Inr)
  note g = safe_record_plain [OF f]
  have "\<exists>prompt files pd policy. f ''prompt'' = JStr prompt \<and> v = request_identity f prompt pd files policy \<and>
    hmacDigest H PROMPT_DOMAIN (JStr prompt) = Inr pd \<and>
    (f ''files'' = JUndefined \<and> files = [] \<or> (\<exists>es. map_res (canonicalFileProjection H) es = Inr files)) \<and>
    canonicalCapturePolicy (f ''capturePolicy'') = Inr policy"
    using assms by (auto simp: identity_of_def f bind_res_Inr split: jsv.splits if_splits)
  then show ?thesis using that [OF g] g by metis
qed

section \<open>Own names are distinct\<close>

lemma distinct_get: "distinct_props v \<Longrightarrow> distinct_props (jget v k)"
  by (fastforce simp: jget_def list_all_iff split: jsv.split option.split jprop.split dest!: map_of_SomeD)

lemma distinct_plain_object:
  "distinct (map fst ps) \<Longrightarrow> (\<And>k v. (k, v) \<in> set ps \<Longrightarrow> distinct_props v) \<Longrightarrow> distinct_props (plain_object ps)"
  by (auto simp: plain_object_def list_all_iff comp_def split_def)

lemma file_projection:
  assumes "canonicalFileProjection H e = Inr x" shows "distinct_props x"
proof -
  obtain f where f: "safeRecordValues e [''displayName'', ''bytes'', ''contentSha256''] = Inr f"
    using assms by (auto simp: canonicalFileProjection_def bind_res_Inr)
  obtain name where n: "f ''displayName'' = JStr name"
    using assms by (cases "f ''displayName''") (simp_all add: canonicalFileProjection_def f)
  obtain sha where s: "f ''contentSha256'' = JStr sha"
    using assms by (cases "f ''contentSha256''") (simp_all add: canonicalFileProjection_def f n)
  have b: "distinct_props (f ''bytes'')"
    using assms by (cases "f ''bytes''") (simp_all add: canonicalFileProjection_def f n s)
  show ?thesis using assms b
    by (auto simp: canonicalFileProjection_def f n s bind_res_Inr split: if_splits intro!: distinct_plain_object)
qed

lemma distinct_files: "map_res (canonicalFileProjection H) es = Inr files \<Longrightarrow> list_all distinct_props files"
proof (induction es arbitrary: files)
  case (Cons e es)
  then obtain x xs where "canonicalFileProjection H e = Inr x" "map_res (canonicalFileProjection H) es = Inr xs" "files = x # xs"
    by (auto simp: bind_res_Inr)
  then show ?case using Cons.IH file_projection by simp
qed simp

lemma capture_projection:
  assumes "canonicalCapturePolicy v = Inr p" "distinct_props v" shows "distinct_props p"
proof (cases "v = JUndefined")
  case True
  then show ?thesis using assms(1) by (auto simp: canonicalCapturePolicy_def intro!: distinct_plain_object)
next
  case False
  then obtain f where f: "safeRecordValues v [''responseContent'', ''responseFormat'', ''artifacts'', ''outputDirectory''] = Inr f"
    and p: "p = plain_object [(''responseContent'', nullish (f ''responseContent'') ''include''),
          (''responseFormat'', nullish (f ''responseFormat'') ''markdown''), (''artifacts'', nullish (f ''artifacts'') ''receipt_only'')]"
    using assms(1) by (auto simp: canonicalCapturePolicy_def bind_res_Inr)
  have "f k = jget v k" for k
    using f by (auto simp: safeRecordValues_def jget_def split: jsv.splits option.splits if_splits jprop.splits)
  then have "distinct_props (nullish (f k) d)" for k d using distinct_get [OF assms(2)] by (simp add: nullish_def)
  then show ?thesis unfolding p by (intro distinct_plain_object) auto
qed

lemma distinct_identity:
  assumes "distinct_props (plain_object ps)" "identity_of H (plain_object ps) = Inr v" shows "distinct_props v"
proof (rule identity_Inr [OF assms(2)])
  fix f prompt files pd policy
  assume f: "\<And>k. f k = jget (plain_object ps) k" and v: "v = request_identity f prompt pd files policy"
    and files: "f ''files'' = JUndefined \<and> files = [] \<or> (\<exists>es. map_res (canonicalFileProjection H) es = Inr files)"
    and policy: "canonicalCapturePolicy (f ''capturePolicy'') = Inr policy"
  have d: "distinct_props (f k)" for k using distinct_get [OF assms(1)] by (simp add: f)
  have "distinct_props policy" by (rule capture_projection [OF policy d])
  moreover have "list_all distinct_props files" using files distinct_files by auto
  moreover have "distinct_props (plain_object [(''digest'', JStr pd), (''bytes'', JNum (int (byteLength prompt)))])"
    by (intro distinct_plain_object) auto
  ultimately show ?thesis unfolding v request_identity_def using d by (intro distinct_plain_object) auto
qed

section \<open>Equal digests\<close>

lemma domains_plain: "CHR 0x00 \<notin> set REQUEST_DOMAIN" "CHR 0x00 \<notin> set PROMPT_DOMAIN" "REQUEST_DOMAIN \<noteq> PROMPT_DOMAIN"
  by (simp_all add: REQUEST_DOMAIN_def PROMPT_DOMAIN_def)

lemma digest_text_eq:
  assumes "hmacDigest H D v = Inr d" "hmacDigest H D w = Inr d" "CHR 0x00 \<notin> set D" "inj_on H M"
    "hmac_message D (canonical_text v) \<in> M" "hmac_message D (canonical_text w) \<in> M"
  obtains t where "canonicalJson v = Inr t" "canonicalJson w = Inr t"
proof -
  obtain t u where t: "canonicalJson v = Inr t" "canonicalJson w = Inr u" using assms(1,2) by (auto simp: hmacDigest_Inr)
  have "D = D \<and> t = u"
    by (rule hmacDigest_eqD [OF assms(1,2,3,3) t assms(4)]) (use assms(5,6) in \<open>simp_all add: canonical_text_def t\<close>)
  with t that show thesis by simp
qed

theorem request_digest_identity:
  assumes "operationRequestDigest H (plain_object ps) = Inr d" "operationRequestDigest H (plain_object qs) = Inr d"
    "distinct_props (plain_object ps)" "distinct_props (plain_object qs)"
    "inj_on H (set (digest_messages H (plain_object ps) @ digest_messages H (plain_object qs)))"
  shows "jget (plain_object ps) ''prompt'' = jget (plain_object qs) ''prompt'' \<and>
    (\<forall>k\<in>{''operationId'', ''surface'', ''target'', ''configuration''}.
       same_canonical (jget (plain_object ps) k) (jget (plain_object qs) k))"
proof -
  obtain v where v: "identity_of H (plain_object ps) = Inr v" "hmacDigest H REQUEST_DOMAIN v = Inr d"
    using assms(1) by (auto simp: operationRequestDigest_identity bind_res_Inr)
  obtain w where w: "identity_of H (plain_object qs) = Inr w" "hmacDigest H REQUEST_DOMAIN w = Inr d"
    using assms(2) by (auto simp: operationRequestDigest_identity bind_res_Inr)
  obtain f p fs pd pol where f: "\<And>k. f k = jget (plain_object ps) k" "jget (plain_object ps) ''prompt'' = JStr p"
    "v = request_identity f p pd fs pol" "hmacDigest H PROMPT_DOMAIN (JStr p) = Inr pd"
    by (rule identity_Inr [OF v(1)]) blast
  obtain g q gs qd pol' where g: "\<And>k. g k = jget (plain_object qs) k" "jget (plain_object qs) ''prompt'' = JStr q"
    "w = request_identity g q qd gs pol'" "hmacDigest H PROMPT_DOMAIN (JStr q) = Inr qd"
    by (rule identity_Inr [OF w(1)]) blast
  obtain t where "canonicalJson v = Inr t" "canonicalJson w = Inr t"
    by (rule digest_text_eq [OF v(2) w(2) domains_plain(1) assms(5)]) (simp_all add: digest_messages_def v(1) w(1))
  then have same: "same_canonical v w"
    by (rule same_canonical_text) (use distinct_identity assms(3,4) v(1) w(1) in blast)+
  have m: "same_canonical (f k) (g k)" if "k \<in> {''operationId'', ''surface'', ''target'', ''configuration''}" for k
    by (rule same_member [OF same [unfolded f(3) g(3) request_identity_def], of k]) (use that in auto)
  have "same_canonical (plain_object [(''digest'', JStr pd), (''bytes'', JNum (int (byteLength p)))])
      (plain_object [(''digest'', JStr qd), (''bytes'', JNum (int (byteLength q)))])"
    by (rule same_member [OF same [unfolded f(3) g(3) request_identity_def], of "''prompt''"]) simp_all
  then have "same_canonical (JStr pd) (JStr qd)" by (rule same_member [where k = "''digest''"]) simp_all
  then have pd: "qd = pd" by (rule same_text [symmetric])
  obtain x where x: "canonicalJson (JStr p) = Inr x" "canonicalJson (JStr q) = Inr x"
    by (rule digest_text_eq [OF f(4) g(4) [unfolded pd] domains_plain(2) assms(5)])
      (simp_all add: digest_messages_def v(1) w(1) f(2) g(2))
  have "p = q" by (rule same_text [OF same_canonical_text [OF x]]) simp_all
  then show ?thesis using m by (simp add: f(1,2) g(1,2))
qed

end
