(* ===== verification/Request_Properties.thy ===== *)
theory Request_Properties
  imports Request_Facts Op_Example
begin

text \<open>
  The properties of request digests: what they do not depend on, and what they commit to.
\<close>

section \<open>The local wait budget\<close>

lemma exact_keys_object:
  assumes "assertExactKeys code keys v = Inr vs"
  shows "snap_get vs k = jget v k" "\<exists>ps. v = JObj 0 ps \<and> length ps \<le> MAX_JSON_KEYS \<and> list_all (safe_member \<circ> snd) ps \<and>
    fst ` set ps \<subseteq> set keys"
proof -
  have s: "snapshotRecord code v = Inr vs" and k: "list_all (\<lambda>k. k \<in> set keys) (map fst vs)"
    using assms by (auto simp: assertExactKeys_def bind_res_Inr split: if_splits)
  show "snap_get vs k = jget v k" by (rule snapshot_get [OF s])
  obtain ps where ps: "v = JObj 0 ps" "length ps \<le> MAX_JSON_KEYS" "list_all (safe_member \<circ> snd) ps"
    "vs = map (\<lambda>(k, p). (k, prop_value p)) (enumeration_order ps)"
    using snapshot_obj [OF s] by blast
  have "set (enumeration_order ps) = set ps" using mset_enumeration_order [of ps] by (metis set_mset_mset)
  then have "fst ` set vs = fst ` set ps" by (force simp: ps(4))
  then show "\<exists>ps. v = JObj 0 ps \<and> length ps \<le> MAX_JSON_KEYS \<and> list_all (safe_member \<circ> snd) ps \<and> fst ` set ps \<subseteq> set keys"
    using ps(1-3) k by (auto simp: list_all_iff)
qed

lemma exact_keys_accepted:
  assumes "length ps \<le> MAX_JSON_KEYS" "list_all (safe_member \<circ> snd) ps" "fst ` set ps \<subseteq> set keys"
  obtains vs where "assertExactKeys code keys (JObj 0 ps) = Inr vs"
proof -
  have "set (enumeration_order ps) = set ps" using mset_enumeration_order [of ps] by (metis set_mset_mset)
  then have "fst ` set (map (\<lambda>(k, p). (k, prop_value p)) (enumeration_order ps)) \<subseteq> set keys"
    using assms(3) by (simp only: fst_image_map_snd)
  then have "list_all (\<lambda>k. k \<in> set keys) (map fst (map (\<lambda>(k, p). (k, prop_value p)) (enumeration_order ps)))"
    by (auto simp: list_all_iff)
  then show ?thesis using that snapshot_record [OF assms(1,2), of code] by (simp add: assertExactKeys_def)
qed

text \<open>The digest sees a request through its members, the timeout through its validity only.\<close>

lemma submit_members:
  assumes "operationSubmitRequestDigest U H r files = Inr d" "assertExactKeys ''invalid_operation_request'' REQUEST_KEYS r' = Inr vs'"
    "\<And>k. k \<noteq> ''timeoutMs'' \<Longrightarrow> jget r' k = jget r k" "validateTimeout (jget r' ''timeoutMs'') = None"
  shows "operationSubmitRequestDigest U H r' files = Inr d"
proof -
  obtain vs where vs: "assertExactKeys ''invalid_operation_request'' REQUEST_KEYS r = Inr vs"
    using assms(1) by (auto simp: operationSubmitRequestDigest_def bind_res_Inr)
  have g: "snap_get vs' k = snap_get vs k" if "k \<noteq> ''timeoutMs''" for k
    using exact_keys_object(1) [OF vs] exact_keys_object(1) [OF assms(2)] assms(3) [OF that] by simp
  have t: "validateTimeout (snap_get vs' ''timeoutMs'') = None" using exact_keys_object(1) [OF assms(2)] assms(4) by simp
  have c: "submit_member_check U vs' = None" if "submit_member_check U vs = None"
    using that t by (simp add: submit_member_check_def g)
  have i: "digest_input vs' es = digest_input vs es" for es by (simp add: digest_input_def g)
  show ?thesis using assms(1)
    by (auto simp: operationSubmitRequestDigest_def vs assms(2) bind_res_Inr c i g split: if_splits)
qed

lemma timeout_update:
  assumes "operationSubmitRequestDigest U H (plain_object ps) files = Inr d" "distinct (map fst ps)" "validateTimeout t = None"
  shows "operationSubmitRequestDigest U H (plain_object (AList.update ''timeoutMs'' t ps)) files = Inr d"
proof -
  let ?qs = "AList.update ''timeoutMs'' t ps"
  let ?d = "map (\<lambda>(k, v). (k, Data True v))"
  obtain vs where vs: "assertExactKeys ''invalid_operation_request'' REQUEST_KEYS (plain_object ps) = Inr vs"
    using assms(1) by (auto simp: operationSubmitRequestDigest_def bind_res_Inr)
  have "fst ` set ps \<subseteq> set REQUEST_KEYS"
    using exact_keys_object(2) [OF vs] fst_image_map_snd [of "Data True" ps] by (auto simp: plain_object_def simp del: set_map)
  then have keys: "set (map fst ps) \<subseteq> set REQUEST_KEYS" by simp
  have k: "set (map fst ?qs) \<subseteq> set REQUEST_KEYS" using keys by (auto simp: update_keys REQUEST_KEYS_def)
  have "distinct (map fst ?qs)" using assms(2) by (rule distinct_update)
  then have "length (map fst ?qs) \<le> length REQUEST_KEYS"
    using card_mono [OF _ k] by (simp only: distinct_card) (use card_length [of REQUEST_KEYS] in auto)
  then have l: "length ?qs \<le> MAX_JSON_KEYS" by (simp add: REQUEST_KEYS_def MAX_JSON_KEYS_def)
  obtain vs' where vs': "assertExactKeys ''invalid_operation_request'' REQUEST_KEYS (plain_object ?qs) = Inr vs'"
    unfolding plain_object_def
  proof (rule exact_keys_accepted [of "?d ?qs" REQUEST_KEYS "''invalid_operation_request''"])
    show "fst ` set (?d ?qs) \<subseteq> set REQUEST_KEYS" using k by (simp only: fst_image_map_snd) simp
  qed (use l in \<open>auto simp: list_all_iff safe_member_def\<close>)
  show ?thesis
    by (rule submit_members [OF assms(1) vs']) (use assms(3) in \<open>simp_all add: jget_plain_object update_conv\<close>)
qed

lemma submitted_intent:
  assumes "operationSubmitRequestDigest U H r files = Inr d" "operationSubmitRequestDigest U H r' files' = Inr d"
    and "distinct_props (input_of r files)" "distinct_props (input_of r' files')"
    and "inj_on H (set (digest_messages H (input_of r files) @ digest_messages H (input_of r' files')))"
  shows "jget r ''operationId'' = jget r' ''operationId'' \<and> jget r ''surface'' = jget r' ''surface'' \<and>
    jget r ''prompt'' = jget r' ''prompt'' \<and> same_canonical (jget r ''target'') (jget r' ''target'') \<and>
    same_canonical (jget r ''configuration'') (jget r' ''configuration'')"
proof -
  have p: "\<exists>ps. input_of q fs = plain_object ps" for q fs by (auto simp: input_of_def digest_input_def)
  note g = input_get [OF assms(1)] input_get [OF assms(2)]
  have "jget (input_of r files) ''prompt'' = jget (input_of r' files') ''prompt'' \<and>
      (\<forall>k\<in>{''operationId'', ''surface'', ''target'', ''configuration''}.
         same_canonical (jget (input_of r files) k) (jget (input_of r' files') k))"
    using request_digest_identity submit_digest_input(1) [OF assms(1)] submit_digest_input(1) [OF assms(2)] assms(3-5)
      p [of r files] p [of r' files'] by metis
  moreover have "\<exists>s u. jget q ''operationId'' = JStr s \<and> jget q ''surface'' = JStr u"
    if q: "operationSubmitRequestDigest U H q fs = Inr d" for q fs
  proof -
    obtain vs where vs: "assertExactKeys ''invalid_operation_request'' REQUEST_KEYS q = Inr vs" "submit_member_check U vs = None"
      using q by (auto simp: operationSubmitRequestDigest_def bind_res_Inr)
    have "assertId (snap_get vs ''operationId'') = None" "snap_get vs ''surface'' = JStr ''chat'' \<or> snap_get vs ''surface'' = JStr ''work''"
      using vs(2) by (simp_all add: submit_member_check_def)
    then show ?thesis unfolding exact_keys_object(1) [OF vs(1)]
      by (auto simp: assertId_def split: jsv.splits)
  qed
  ultimately show ?thesis using assms(1,2) by (auto simp: g dest!: same_text) (metis same_text)+
qed

text \<open>C18: a local wait budget is not part of the intent: a request that is accepted keeps its digest
  when its timeout is added, changed or dropped to another valid one, so a retry with another
  budget is the same durable operation.\<close>

theorem digest_ignores_wait:
  assumes "operationSubmitRequestDigest U H (plain_object ps) files = Inr d" "distinct (map fst ps)" "validateTimeout t = None"
  shows "operationSubmitRequestDigest U H (plain_object (AList.update ''timeoutMs'' t ps)) files = Inr d"
  by (rule timeout_update [OF assms])

text \<open>A request of the example, and a hash that tells its two messages apart.\<close>

definition ex_request :: "(string \<times> jsv) list" where
  "ex_request = [(''schemaVersion'', JStr OPERATION_REQUEST_SCHEMA_VERSION), (''operationId'', JStr ex_op),
     (''surface'', JStr ''work''), (''prompt'', JStr ''hi''), (''target'', plain_object [(''type'', JStr ''new'')]),
     (''configuration'', plain_object [(''model'', JStr ''m''), (''tools'', JArr [JStr ''web''])])]"

definition ex_request_hash :: keyed_hash where
  "ex_request_hash m = replicate 64 (if m ! 22 = CHR ''p'' then CHR ''1'' else CHR ''0'')"

definition ex_prompt_digest :: string where "ex_prompt_digest = DIGEST_PREFIX @ replicate 64 CHR ''1''"

definition ex_identity :: jsv where
  "ex_identity = request_identity (jget (input_of (plain_object ex_request) (JArr []))) ''hi'' ex_prompt_digest []
     (plain_object [(''responseContent'', JStr ''include''), (''responseFormat'', JStr ''markdown''), (''artifacts'', JStr ''receipt_only'')])"

lemma ex_prints: "\<exists>t. canonicalJson (JStr ''hi'') = Inr t" "\<exists>t. canonicalJson ex_identity = Inr t"
proof -
  have "vsafe ex_identity" by code_simp
  moreover have "vheight ex_identity \<le> 10" by code_simp
  moreover have "vprops ex_identity \<le> 100" by code_simp
  moreover have "vweight ex_identity \<le> 4000" by code_simp
  ultimately show "\<exists>t. canonicalJson ex_identity = Inr t"
    using canonicalJson_total [of ex_identity]
    by (fastforce simp: MAX_CANONICAL_DEPTH_def MAX_CANONICAL_PROPERTIES_def MAX_CANONICAL_BYTES_def)
  have "vweight (JStr ''hi'') \<le> 10" by code_simp
  then show "\<exists>t. canonicalJson (JStr ''hi'') = Inr t"
    using canonicalJson_total [of "JStr ''hi''"]
    by (fastforce simp: MAX_CANONICAL_DEPTH_def MAX_CANONICAL_PROPERTIES_def MAX_CANONICAL_BYTES_def)
qed

lemma ex_hmac:
  "canonicalJson v = Inr t \<Longrightarrow> hmacDigest ex_request_hash PROMPT_DOMAIN v = Inr ex_prompt_digest"
  "canonicalJson v = Inr t \<Longrightarrow> hmacDigest ex_request_hash REQUEST_DOMAIN v = Inr (DIGEST_PREFIX @ replicate 64 CHR ''0'')"
  by (simp_all add: hmacDigest_def ex_request_hash_def hmac_message_def utf8_append utf8_def utf8_char_def PROMPT_DOMAIN_def
      REQUEST_DOMAIN_def ex_prompt_digest_def)

definition ex_input :: "(string \<times> jsv) list" where
  "ex_input = [(''operationId'', JStr ex_op), (''surface'', JStr ''work''), (''target'', plain_object [(''type'', JStr ''new'')]),
     (''prompt'', JStr ''hi''), (''configuration'', plain_object [(''model'', JStr ''m''), (''tools'', JArr [JStr ''web''])]),
     (''tools'', JArr [JStr ''web'']), (''files'', JArr []),
     (''capturePolicy'', JUndefined),
     (''behavior'', plain_object [(''operationRequestSchemaVersion'', JStr OPERATION_REQUEST_SCHEMA_VERSION)])]"

lemma ex_input: "input_of (plain_object ex_request) (JArr []) = plain_object ex_input"
  by code_simp

lemma ex_input_values: "\<exists>f. safeRecordValues (plain_object ex_input)
    [''operationId'', ''surface'', ''target'', ''prompt'', ''configuration'', ''tools'', ''files'', ''capturePolicy'', ''behavior''] = Inr f"
proof -
  have "record_keys_check [''operationId'', ''surface'', ''target'', ''prompt'', ''configuration'', ''tools'', ''files'',
    ''capturePolicy'', ''behavior''] (enumeration_order (map (\<lambda>(k, v). (k, Data True v)) ex_input)) = None" by code_simp
  then show ?thesis by (simp add: safeRecordValues_def plain_object_def)
qed

lemma ex_identity_of: "identity_of ex_request_hash (plain_object ex_input) = Inr ex_identity"
proof -
  obtain f where f: "safeRecordValues (plain_object ex_input)
      [''operationId'', ''surface'', ''target'', ''prompt'', ''configuration'', ''tools'', ''files'', ''capturePolicy'', ''behavior''] = Inr f"
    using ex_input_values by blast
  have k: "f = jget (plain_object ex_input)" using safe_record_plain [OF f] by blast
  have g: "f ''prompt'' = JStr ''hi''" "f ''files'' = JArr []" "f ''capturePolicy'' = JUndefined"
    by (simp_all add: k jget_plain_object ex_input_def)
  obtain t where t: "canonicalJson (JStr ''hi'') = Inr t" using ex_prints(1) by blast
  show ?thesis unfolding ex_identity_def ex_input k [symmetric]
    by (simp add: identity_of_def f g safeArrayElements_def ex_hmac(1) [OF t] canonicalCapturePolicy_def)
qed

lemma ex_submitted:
  "operationSubmitRequestDigest ex_url ex_request_hash (plain_object ex_request) (JArr []) = Inr (DIGEST_PREFIX @ replicate 64 CHR ''0'')"
proof -
  have vs: "assertExactKeys ''invalid_operation_request'' REQUEST_KEYS (plain_object ex_request) = Inr ex_request" by code_simp
  have g: "snap_get ex_request ''prompt'' = JStr ''hi''" "byteLength ''hi'' = 2"
    "assertId (snap_get ex_request ''operationId'') = None" "snap_get ex_request ''schemaVersion'' = JStr OPERATION_REQUEST_SCHEMA_VERSION"
    "snap_get ex_request ''surface'' = JStr ''work''" "validateTargetRequest ex_url (snap_get ex_request ''target'') = None"
    "validateConfigurationRequest (snap_get ex_request ''configuration'') = None"
    "validateCapturePolicy (snap_get ex_request ''capture'') = None" "validateTimeout (snap_get ex_request ''timeoutMs'') = None"
    by code_simp+
  have c: "submit_member_check ex_url ex_request = None" by (simp add: submit_member_check_def g MAX_PROMPT_BYTES_def)
  have f: "snap_get ex_request ''files'' = JUndefined" by code_simp
  have i: "digest_input ex_request [] = plain_object ex_input" by code_simp
  obtain t where t: "canonicalJson ex_identity = Inr t" using ex_prints(2) by blast
  have "operationRequestDigest ex_request_hash (plain_object ex_input) = Inr (DIGEST_PREFIX @ replicate 64 CHR ''0'')"
    by (simp add: operationRequestDigest_identity ex_identity_of ex_hmac(2) [OF t])
  then show ?thesis
    by (simp add: operationSubmitRequestDigest_def vs c f i readArrayEntries_def manifest_check_def checked_def)
qed

theorem digest_ignores_wait_witness:
  "operationSubmitRequestDigest ex_url ex_request_hash (plain_object (ex_request @ [(''timeoutMs'', JNum 5000)])) (JArr []) =
     Inr (DIGEST_PREFIX @ replicate 64 CHR ''0'')"
proof -
  have "distinct (map fst ex_request)" "validateTimeout (JNum 5000) = None" by code_simp+
  moreover have "AList.update ''timeoutMs'' (JNum 5000) ex_request = ex_request @ [(''timeoutMs'', JNum 5000)]" by code_simp
  ultimately show ?thesis using digest_ignores_wait [OF ex_submitted] by metis
qed

section \<open>What a digest commits to\<close>

text \<open>C17: equal digests are the same intent: when the keyed hash takes distinct values on the messages
  of two accepted requests, requests with the same digest name the same operation and surface,
  carry the same prompt, and have targets and configurations with the same canonical graph.\<close>

theorem request_digest_commits:
  assumes "operationSubmitRequestDigest U H r files = Inr d" "operationSubmitRequestDigest U H r' files' = Inr d"
    and "distinct_props (input_of r files)" "distinct_props (input_of r' files')"
    and "inj_on H (set (digest_messages H (input_of r files) @ digest_messages H (input_of r' files')))"
  shows "jget r ''operationId'' = jget r' ''operationId'' \<and> jget r ''surface'' = jget r' ''surface'' \<and>
    jget r ''prompt'' = jget r' ''prompt'' \<and> same_canonical (jget r ''target'') (jget r' ''target'') \<and>
    same_canonical (jget r ''configuration'') (jget r' ''configuration'')"
  by (rule submitted_intent [OF assms])

theorem request_digest_commits_witness:
  "jget (plain_object ex_request) ''prompt'' = jget (plain_object (ex_request @ [(''timeoutMs'', JNum 5000)])) ''prompt''"
proof -
  have i: "input_of (plain_object (ex_request @ [(''timeoutMs'', JNum 5000)])) (JArr []) = plain_object ex_input" by code_simp
  have d: "distinct_props (plain_object ex_input)" by code_simp
  have m: "operationSubmitRequestDigest ex_url ex_request_hash (plain_object (AList.update ''timeoutMs'' (JNum 5000) ex_request)) (JArr []) =
     Inr (DIGEST_PREFIX @ replicate 64 CHR ''0'')"
    by (rule timeout_update [OF ex_submitted]) code_simp+
  have u: "AList.update ''timeoutMs'' (JNum 5000) ex_request = ex_request @ [(''timeoutMs'', JNum 5000)]" by code_simp
  have "inj_on ex_request_hash (set (digest_messages ex_request_hash (plain_object ex_input) @
      digest_messages ex_request_hash (plain_object ex_input)))"
    by (auto simp: inj_on_def digest_messages_def ex_identity_of ex_request_hash_def hmac_message_def utf8_append utf8_def
        utf8_char_def PROMPT_DOMAIN_def REQUEST_DOMAIN_def)
  then show ?thesis
    using request_digest_commits [OF ex_submitted m [unfolded u]] d by (simp add: ex_input i)
qed

section \<open>The bound of the prompt\<close>

text \<open>
  The prompt is digested as canonical JSON, whose text is bounded by 16 MiB. The request bound of
  8 MiB is on the prompt itself: a prompt within it can have an escaped text beyond the canonical
  bound, and such a request has no digest.
\<close>

lemma escaped_prompt_refused:
  assumes "jget r ''prompt'' = JStr s" "byteLength (string_text s) > MAX_CANONICAL_BYTES"
  shows "operationSubmitRequestDigest U H r files \<noteq> Inr d"
proof
  assume d: "operationSubmitRequestDigest U H r files = Inr d"
  obtain ps where ps: "input_of r files = plain_object ps" by (auto simp: input_of_def digest_input_def)
  obtain v where v: "identity_of H (plain_object ps) = Inr v"
    using submit_digest_input(1) [OF d] by (auto simp: ps operationRequestDigest_identity bind_res_Inr)
  obtain t where "canonicalJson (jget (plain_object ps) ''prompt'') = Inr t"
    by (rule identity_Inr [OF v]) (auto simp: hmacDigest_Inr)
  then have "canonicalJson (JStr s) = Inr t" using input_get [OF d, of "''prompt''"] by (simp add: ps assms(1))
  then have "byteLength (string_text s) \<le> MAX_CANONICAL_BYTES"
    by (auto simp: canonicalJson_Inr canonicalValue.simps bind_res_Inr)
  with assms(2) show False by simp
qed

theorem newline_prompt_refused:
  assumes "jget r ''prompt'' = JStr (replicate MAX_PROMPT_BYTES CHR 0x0A)"
  shows "byteLength (replicate MAX_PROMPT_BYTES CHR 0x0A) \<le> MAX_PROMPT_BYTES \<and>
    operationSubmitRequestDigest U H r files \<noteq> Inr d"
proof -
  have b: "byteLength (replicate n CHR 0x0A) = n" for n by (induction n) (simp_all add: byteLength_def)
  have e: "byteLength (concat (map json_escape (replicate n CHR 0x0A))) = 2 * n" for n
    by (induction n) (simp_all add: json_escape_def byteLength_def)
  have "byteLength (string_text (replicate MAX_PROMPT_BYTES CHR 0x0A)) = 2 * MAX_PROMPT_BYTES + 2"
    by (simp only: string_text_def byteLength_append byteLength_Cons byteLength_Nil e) simp
  then have "byteLength (string_text (replicate MAX_PROMPT_BYTES CHR 0x0A)) > MAX_CANONICAL_BYTES"
    by (simp only: MAX_PROMPT_BYTES_def MAX_CANONICAL_BYTES_def)
  then show ?thesis using escaped_prompt_refused [OF assms] b by simp
qed

end
