(* ===== verification/Op_Recovery.thy ===== *)
theory Op_Recovery
  imports Op_Lifecycle
begin

text \<open>
  Recovery after a restart (\<open>operations/recovery.ts\<close>): from the durable state and a fresh
  observation of the page, what the caller may do next. No decision but
  \<open>continue_preparation\<close> allows a non-repeatable action to start.
\<close>

section \<open>Observations and decisions\<close>

datatype target_observation =
    Target_matches
  | Target_mismatch "string option"
  | Target_unavailable "string option"

datatype turn_observation =
    Turn_not_observed
  | Owned_user_turn string string
  | Owned_assistant_generating string string string
  | Owned_assistant_terminal string string string
  | Turn_ambiguous "string option"

record recovery_observation =
  ro_schemaVersion :: string
  ro_target :: target_observation
  ro_turn :: turn_observation

datatype uncertain_code = Uncertain_target | Uncertain_turn | Capture_ownership_lost
datatype block_code = Block_mismatch | Block_unavailable | Block_inconsistent

text \<open>
  The constants \<open>mayRepeatAction: false\<close> and \<open>nonRepeatableActionMayStart: true\<close> of the
  decisions are read off the constructor by \<open>may_start_mutation\<close>.
\<close>

datatype recovery_decision =
    Return_completed_receipt operation_receipt
  | Continue_preparation operation_phase
  | Observe_action_postcondition string action_kind
  | Continue_owned_turn_observation operation_phase "string option" "string option" "string option"
  | Capture_owned_turn string string
  | Enter_uncertain uncertain_code
  | Block block_code

fun may_start_mutation :: "recovery_decision \<Rightarrow> bool" where
  "may_start_mutation (Continue_preparation _) = True"
| "may_start_mutation _ = False"

section \<open>Choosing the action to observe\<close>

text \<open>\<open>Array.prototype.sort\<close> is stable; the comparator orders by descending intent revision.\<close>

definition latestAction :: "operation_state \<Rightarrow> (action_record \<Rightarrow> bool) \<Rightarrow> action_record option" where
  "latestAction s P = (case sort_key (\<lambda>a. - ar_intentRevision a) (filter P (obj_values (st_actions s))) of
     [] \<Rightarrow> None | a # _ \<Rightarrow> Some a)"

definition is_pending_action :: "operation_phase \<Rightarrow> action_record \<Rightarrow> bool" where
  "is_pending_action p a =
     (if ar_kind a = File_handoff then p = Prepared \<or> p = Handoff_pending \<or> p = Uncertain
      else if ar_kind a = Send then p = Ready \<or> p = Send_pending \<or> p = Uncertain
      else if ar_kind a = Work_steer \<or> ar_kind a = Stop then p = Generating \<or> p = Uncertain
      else False)"

definition pendingNonRepeatableAction :: "operation_state \<Rightarrow> action_record option" where
  "pendingNonRepeatableAction s = latestAction s (is_pending_action (st_phase s))"

definition is_turn_mutation :: "action_record \<Rightarrow> bool" where
  "is_turn_mutation a \<longleftrightarrow> ar_kind a = Send \<or> ar_kind a = Work_steer \<or> ar_kind a = Stop"

section \<open>Decisions\<close>

definition observeAction :: "action_record \<Rightarrow> recovery_decision" where
  "observeAction a = Observe_action_postcondition (ar_actionId a) (ar_kind a)"

fun ownedTurnDecision :: "operation_phase \<Rightarrow> turn_observation \<Rightarrow> recovery_decision" where
  "ownedTurnDecision p (Turn_ambiguous _) = Enter_uncertain Uncertain_turn"
| "ownedTurnDecision p (Owned_assistant_terminal u a e) = Capture_owned_turn a e"
| "ownedTurnDecision p (Owned_assistant_generating u a e) =
     Continue_owned_turn_observation Generating (Some u) (Some a) (Some e)"
| "ownedTurnDecision p (Owned_user_turn u e) = Continue_owned_turn_observation p (Some u) None (Some e)"
| "ownedTurnDecision p Turn_not_observed = Continue_owned_turn_observation p None None None"

definition decisionForPendingAction ::
  "operation_state \<Rightarrow> action_record \<Rightarrow> turn_observation \<Rightarrow> recovery_decision" where
  "decisionForPendingAction s a turn =
     (if ar_kind a = File_handoff then observeAction a
      else case turn of
        Turn_not_observed \<Rightarrow> observeAction a
      | Turn_ambiguous _ \<Rightarrow> Enter_uncertain Uncertain_turn
      | _ \<Rightarrow> ownedTurnDecision
          (if ar_kind a = Stop then Generating
           else if st_phase s = Generating then Generating else Submitted) turn)"

definition uncertain_turn_decision :: "operation_state \<Rightarrow> turn_observation \<Rightarrow> recovery_decision" where
  "uncertain_turn_decision s turn = (let action = latestAction s is_turn_mutation in
     case (turn, action) of
       (Turn_not_observed, Some a) \<Rightarrow> observeAction a
     | _ \<Rightarrow> (case (ownedTurnDecision Generating turn, action) of
         (Enter_uncertain _, Some a) \<Rightarrow> observeAction a
       | (d, _) \<Rightarrow> d))"

definition decide_live :: "operation_state \<Rightarrow> turn_observation \<Rightarrow> recovery_decision" where
  "decide_live s turn = (case pendingNonRepeatableAction s of
     Some a \<Rightarrow> decisionForPendingAction s a turn
   | None \<Rightarrow>
     if st_phase s = Prepared \<or> st_phase s = Ready then Continue_preparation (st_phase s)
     else if st_phase s = Handoff_pending \<or> st_phase s = Send_pending then
       (case latestAction s (\<lambda>a. ar_kind a = (if st_phase s = Handoff_pending then File_handoff else Send)) of
          None \<Rightarrow> Block Block_inconsistent
        | Some a \<Rightarrow> observeAction a)
     else if st_phase s = Capturing then
       (case turn of
          Owned_assistant_terminal u a e \<Rightarrow> Capture_owned_turn a e
        | _ \<Rightarrow> Enter_uncertain Capture_ownership_lost)
     else if st_phase s = Submitted \<or> st_phase s = Generating then ownedTurnDecision (st_phase s) turn
     else if st_phase s = Uncertain then
       (if st_mutationBoundary s = Handoff_may_have_occurred then
          (case latestAction s (\<lambda>a. ar_kind a = File_handoff) of
             None \<Rightarrow> Block Block_inconsistent
           | Some a \<Rightarrow> observeAction a)
        else if st_mutationBoundary s = Send_may_have_occurred
             \<or> st_mutationBoundary s = Control_may_have_occurred then uncertain_turn_decision s turn
        else Block Block_inconsistent)
     else Block Block_inconsistent)"

definition decideOperationRecovery ::
  "operation_state \<Rightarrow> recovery_observation \<Rightarrow> recovery_decision" where
  "decideOperationRecovery s ob =
     (if st_phase s = Completed then
        (case st_receipt s of
           None \<Rightarrow> Block Block_inconsistent
         | Some r \<Rightarrow> Return_completed_receipt r)
      else case ro_target ob of
        Target_mismatch _ \<Rightarrow> Block Block_mismatch
      | Target_unavailable _ \<Rightarrow>
          if st_mutationBoundary s = No_mutation then Block Block_unavailable
          else Enter_uncertain Uncertain_target
      | Target_matches \<Rightarrow> decide_live s (ro_turn ob))"

section \<open>The latest action\<close>

lemma latestAction_None: "latestAction s P = None \<longleftrightarrow> (\<forall>a\<in>set (obj_values (st_actions s)). \<not> P a)"
proof -
  let ?ys = "sort_key (\<lambda>a. - ar_intentRevision a) (filter P (obj_values (st_actions s)))"
  have "set ?ys = {a \<in> set (obj_values (st_actions s)). P a}" by simp
  then show ?thesis unfolding latestAction_def by (cases ?ys) (auto simp del: set_sort)
qed

lemma latestAction_Some:
  assumes "latestAction s P = Some a"
  shows "a \<in> set (obj_values (st_actions s))" "P a"
    "\<And>b. b \<in> set (obj_values (st_actions s)) \<Longrightarrow> P b \<Longrightarrow> ar_intentRevision b \<le> ar_intentRevision a"
proof -
  let ?xs = "filter P (obj_values (st_actions s))"
  obtain as where as: "sort_key (\<lambda>a. - ar_intentRevision a) ?xs = a # as"
    using assms by (auto simp: latestAction_def split: list.splits)
  then have mem: "set (a # as) = set ?xs" by (metis set_sort)
  then show "a \<in> set (obj_values (st_actions s))" "P a" by auto
  fix b assume "b \<in> set (obj_values (st_actions s))" "P b"
  then have b: "b \<in> set (a # as)" using mem by simp
  have "sorted (map (\<lambda>a. - ar_intentRevision a) (a # as))" unfolding as [symmetric] by (rule sorted_sort_key)
  with b show "ar_intentRevision b \<le> ar_intentRevision a" by auto
qed

lemma observeAction_not_start [simp]: "may_start_mutation (observeAction a) = False"
  by (simp add: observeAction_def)

lemma ownedTurnDecision_not_start [simp]: "may_start_mutation (ownedTurnDecision p t) = False"
  by (cases t) auto

lemma decisionForPendingAction_not_start [simp]:
  "may_start_mutation (decisionForPendingAction s a t) = False"
  by (auto simp: decisionForPendingAction_def split: turn_observation.splits)

lemma uncertain_turn_not_start [simp]: "may_start_mutation (uncertain_turn_decision s t) = False"
  by (auto simp: uncertain_turn_decision_def Let_def split: turn_observation.splits option.splits
      recovery_decision.splits)

section \<open>The phase and the ledger\<close>

text \<open>What the phase of a reachable operation says of the kinds in its ledger.\<close>

definition phase_ledger :: "operation_state \<Rightarrow> bool" where
  "phase_ledger s \<longleftrightarrow>
     (st_phase s = Prepared \<longrightarrow> set (kinds s) \<inter> {Send, Work_steer, Stop} = {}) \<and>
     (set (kinds s) \<inter> {Work_steer, Stop} \<noteq> {} \<longrightarrow> Send \<in> set (kinds s)) \<and>
     (st_phase s = Handoff_pending \<longrightarrow> File_handoff \<in> set (kinds s)) \<and>
     (st_phase s = Send_pending \<longrightarrow> Send \<in> set (kinds s)) \<and>
     (\<forall>x. st_phase s \<noteq> Other_phase x)"

lemma effect_kinds:
  assumes "event_effect U s ev rv = Inr s'"
  obtains (same) "set (kinds s') = set (kinds s)"
  | (new) k where "set (kinds s') = insert k (set (kinds s))" "st_phase s \<in> set (ACTION_PHASES k)"
      "st_phase s' = st_phase s"
proof -
  from effect_ledger [OF assms] consider "ledger_same s s'" | a at where "ledger_intent s s' rv a at"
    | r where "ledger_receipt s s' rv r"
    by blast
  then show thesis
  proof cases
    case 2
    then have c: "action_intent_check s a = None" and k: "kinds s' = kinds s @ [ai_kind a]"
      by (simp_all add: ledger_intent_def kinds_intent)
    have len: "length (st_actions s') = length (st_actions s) + 1"
      using arg_cong [OF k, of length] by (simp add: kinds_def obj_values_def)
    from assms len have "st_phase s' = st_phase s"
      by (cases rule: effect_lifecycle)
        (auto simp: same_lifecycle_def applyPhaseChange_frame dest: applyCompletedReceipt_Inr(9))
    with c k new show ?thesis by (auto simp: action_intent_check_def)
  qed (use same in \<open>simp_all add: kinds_same kinds_receipt\<close>)
qed

lemma cause_in_kinds: "requireCause (phase_cause s e) k x = None \<Longrightarrow> k \<in> set (kinds s)"
  by (force simp: requireCause_def phase_cause_def cause_kind_def kinds_def obj_values_def dict_lookup_def
      dest: obj_get_in split: lookup.splits option.splits if_splits)

lemma durable_send_in_kinds: "requireDurableOriginalSendOwnership s = None \<Longrightarrow> Send \<in> set (kinds s)"
  by (erule requireDurable_None) (force simp: send_actions_def kinds_def filter_eq_Cons_iff)

lemma owned_send_in_kinds: "op_reachable U s \<Longrightarrow> owned_phase (st_phase s) \<Longrightarrow> Send \<in> set (kinds s)"
  by (rule durable_send_in_kinds) (rule reachable_owned)

lemma action_phases_control:
  "p \<in> set (ACTION_PHASES k) \<Longrightarrow> k \<in> {Work_steer, Stop} \<Longrightarrow> p = Generating"
  "p \<in> set (ACTION_PHASES Send) \<Longrightarrow> p = Ready"
  by auto

lemma phase_change_ledger:
  assumes i: "phase_ledger s" and p: "applyPhaseChange s e = Inr s'"
  shows "phase_ledger s'"
proof -
  have k: "kinds s' = kinds s" using applyPhaseChange_frame(1) [OF p] by (simp add: kinds_def)
  from p obtain tos where t: "LEGAL_EDGES (st_phase s) = Some tos" "pe_to e \<in> set tos"
    "assertCausalTransition s (pe_to e) (st_mutationBoundary s) (phase_cause s e) (pe_evidenceDigest e) = None"
    by (rule applyPhaseChange_edge)
  note edge = legal_edge_cases [OF t(1,2)]
  have h: "pe_to e = Handoff_pending \<Longrightarrow> File_handoff \<in> set (kinds s)"
    using t(3) by (intro cause_in_kinds [of _ e _ None])
      (auto simp: assertCausalTransition_def requireUnreceiptedCause_def)
  have sp: "pe_to e = Send_pending \<Longrightarrow> Send \<in> set (kinds s)"
    using t(3) by (intro cause_in_kinds [of _ e _ None])
      (auto simp: assertCausalTransition_def requireUnreceiptedCause_def)
  show ?thesis
    using i edge h sp applyPhaseChange_frame(3) [OF p] by (auto simp: phase_ledger_def k)
qed

lemma effect_phase_ledger:
  assumes r: "op_reachable U s" and i: "phase_ledger s" and e: "event_effect U s ev rv = Inr s'"
  shows "phase_ledger s'"
  using e
proof (cases rule: effect_lifecycle)
  case same
  then have ph: "st_phase s' = st_phase s" by (simp add: same_lifecycle_def)
  from e show ?thesis
  proof (cases rule: effect_kinds)
    case same
    with i ph show ?thesis by (simp add: phase_ledger_def)
  next
    case (new k)
    have "Send \<in> set (kinds s)" if "k \<in> {Work_steer, Stop}"
      using owned_send_in_kinds [OF r] action_phases_control(1) [OF new(2) that] by (simp add: owned_phase_def)
    moreover have "k \<notin> {Send, Work_steer, Stop}" if "st_phase s = Prepared"
      using action_phases_control [of "st_phase s"] new(2) that by (cases k) auto
    ultimately show ?thesis using i new(1) ph by (auto simp: phase_ledger_def)
  qed
next
  case (phase x)
  from i phase(2) show ?thesis by (rule phase_change_ledger)
next
  case (completed r at)
  from applyCompletedReceipt_Inr(9) [OF completed(2)] i show ?thesis by (simp add: phase_ledger_def kinds_def)
next
  case (content r)
  with i show ?thesis by (simp add: phase_ledger_def kinds_def)
qed

lemma reachable_phase_ledger [op_inv]: "op_reachable U s \<Longrightarrow> phase_ledger s"
proof (induction rule: op_reachable.induct)
  case (created ev s)
  then show ?case
    by (auto elim!: created_is_created simp: created_state_def phase_ledger_def kinds_def obj_values_def)
next
  case (extended s ev s')
  from extended.hyps(2) obtain s1 where e: "event_effect U s ev (st_revision s + 1) = Inr s1"
    and s': "s' = withRevision (st_revision s + 1) (event_time ev) s1"
    by (rule step_effect)
  have "phase_ledger s1" by (rule effect_phase_ledger [OF extended.hyps(1) extended.IH e])
  then show ?case by (simp add: phase_ledger_def kinds_def s')
qed

section \<open>Decisions on reachable states\<close>

lemma pending_None:
  "pendingNonRepeatableAction s = None \<longleftrightarrow> (\<forall>a\<in>set (obj_values (st_actions s)). \<not> is_pending_action (st_phase s) a)"
  by (simp add: pendingNonRepeatableAction_def latestAction_None)

lemma kinds_iff: "k \<in> set (kinds s) \<longleftrightarrow> (\<exists>a\<in>set (obj_values (st_actions s)). ar_kind a = k)"
  by (auto simp: kinds_def)

lemma start_implies_preparation:
  "may_start_mutation (decideOperationRecovery s ob) \<Longrightarrow>
     ro_target ob = Target_matches \<and> pendingNonRepeatableAction s = None \<and>
     (st_phase s = Prepared \<or> st_phase s = Ready)"
  by (auto simp: decideOperationRecovery_def decide_live_def split: option.splits target_observation.splits
      turn_observation.splits if_splits)

text \<open>When nothing of the turn was ever intended, the boundary is at most the handoff's.\<close>

lemma boundary_without_turn_kinds:
  "set ks \<inter> {Send, Work_steer, Stop} = {} \<Longrightarrow>
     expected_boundary ks = (if File_handoff \<in> set ks then Handoff_may_have_occurred else No_mutation)"
proof (induction ks rule: rev_induct)
  case Nil
  then show ?case by (simp add: expected_boundary_def)
next
  case (snoc k ks)
  then show ?case
    by (auto simp: expected_boundary_snoc raise_boundary_def boundaryForAction_def rank_less_def)
qed

lemma uncertain_pending:
  assumes r: "op_reachable U s" and u: "st_phase s = Uncertain" and b: "st_mutationBoundary s \<noteq> No_mutation"
  shows "pendingNonRepeatableAction s \<noteq> None"
proof -
  have "st_mutationBoundary s = expected_boundary (kinds s)" by (rule reachable_boundary [OF r])
  moreover have "expected_boundary (kinds s) = No_mutation"
    if "set (kinds s) \<inter> {Send, Work_steer, Stop, File_handoff} = {}"
    using that boundary_without_turn_kinds [of "kinds s"] by auto
  ultimately have "set (kinds s) \<inter> {Send, Work_steer, Stop, File_handoff} \<noteq> {}" using b by auto
  then show ?thesis by (auto simp: pending_None is_pending_action_def u kinds_iff)
qed

text \<open>A decision to capture repeats an observed terminal turn.\<close>

lemma owned_capture: "ownedTurnDecision p t = Capture_owned_turn a e \<Longrightarrow> \<exists>u. t = Owned_assistant_terminal u a e"
  by (cases t) auto

lemma pending_capture:
  "decisionForPendingAction s b t = Capture_owned_turn a e \<Longrightarrow> \<exists>u. t = Owned_assistant_terminal u a e"
  by (cases t) (auto simp: decisionForPendingAction_def observeAction_def split: if_splits)

lemma uncertain_capture:
  "uncertain_turn_decision s t = Capture_owned_turn a e \<Longrightarrow> \<exists>u. t = Owned_assistant_terminal u a e"
  by (cases t) (auto simp: uncertain_turn_decision_def observeAction_def Let_def split: option.splits)

lemma capture_observed:
  assumes "decideOperationRecovery s ob = Capture_owned_turn a e"
  shows "\<exists>u. ro_turn ob = Owned_assistant_terminal u a e"
proof -
  from assms have "decide_live s (ro_turn ob) = Capture_owned_turn a e"
    by (auto simp: decideOperationRecovery_def split: if_splits option.splits target_observation.splits)
  then show ?thesis
    using owned_capture pending_capture uncertain_capture
    by (auto simp: decide_live_def observeAction_def split: if_splits option.splits turn_observation.splits)
qed

end
