(* ===== verification/Recovery_Example.thy ===== *)
theory Recovery_Example
  imports Op_Recovery Op_Example
begin

text \<open>The example operation after a crash: what the witnesses of recovery observe.\<close>

definition ex_observation :: "turn_observation \<Rightarrow> recovery_observation" where
  "ex_observation t = \<lparr>ro_schemaVersion = ''chatgpt.browser_control.operation_recovery_observation.v1'',
     ro_target = Target_matches, ro_turn = t\<rparr>"

definition ex_uncertain :: operation_state where
  "ex_uncertain = withRevision 8 (ex_time CHR ''6'') (ex_s7\<lparr>st_phase := Uncertain\<rparr>)"

lemma ex_uncertain_reachable: "op_reachable ex_url ex_uncertain"
proof -
  have "applyOperationEvent ex_url (Some ex_s7) (ex_phase Send_pending Uncertain Send_may_have_occurred None CHR ''6'') 8
      = Inr ex_uncertain"
    by code_simp
  moreover have "st_revision ex_s7 + 1 = 8" by code_simp
  ultimately have "op_step ex_url ex_s7 (ex_phase Send_pending Uncertain Send_may_have_occurred None CHR ''6'') ex_uncertain"
    by (simp add: op_step_iff)
  with ex_reachable(7) show ?thesis by (rule op_reachable.extended)
qed

end
