(* ===== verification/Recovery_Properties.thy ===== *)
theory Recovery_Properties
  imports Recovery_Example
begin

text \<open>
  The properties of recovery: what a restarted caller is told, for every operation a journal
  can contain and every observation of the page.
\<close>

text \<open>C19: recovery allows a non-repeatable action to start only when the ledger holds no Send, no
  steer and no stop, and the durable boundary is below the Send's; while the operation is still
  prepared it also holds no file handoff. Whatever the page looks like, an intended Send is never
  repeated.\<close>

theorem recovery_never_repeats:
  assumes "op_reachable U s" "may_start_mutation (decideOperationRecovery s ob)"
  shows "set (kinds s) \<inter> {Send, Work_steer, Stop} = {} \<and> boundary_rank (st_mutationBoundary s) \<le> 1 \<and>
    (st_phase s = Prepared \<longrightarrow> st_mutationBoundary s = No_mutation)"
proof -
  have p: "pendingNonRepeatableAction s = None" "st_phase s = Prepared \<or> st_phase s = Ready"
    using start_implies_preparation [OF assms(2)] by simp_all
  have i: "phase_ledger s" by (rule reachable_phase_ledger [OF assms(1)])
  have no: "Send \<notin> set (kinds s)"
  proof
    assume "Send \<in> set (kinds s)"
    moreover from this i p(2) have "st_phase s = Ready" by (auto simp: phase_ledger_def)
    ultimately show False using p(1) by (auto simp: pending_None is_pending_action_def kinds_iff)
  qed
  with i have d: "set (kinds s) \<inter> {Send, Work_steer, Stop} = {}" by (auto simp: phase_ledger_def)
  have "File_handoff \<notin> set (kinds s)" if "st_phase s = Prepared"
    using p(1) that by (auto simp: pending_None is_pending_action_def kinds_iff)
  with d boundary_without_turn_kinds [OF d] reachable_boundary [OF assms(1)] show ?thesis
    by (auto simp: boundary_rank_def)
qed

theorem recovery_never_repeats_witness:
  "set (kinds ex_s3) \<inter> {Send, Work_steer, Stop} = {} \<and>
   may_start_mutation (decideOperationRecovery ex_s3 (ex_observation Turn_not_observed))"
proof -
  have "may_start_mutation (decideOperationRecovery ex_s3 (ex_observation Turn_not_observed))" by code_simp
  with recovery_never_repeats [OF ex_reachable(3) this] show ?thesis by blast
qed

lemma pendingI:
  assumes "k \<in> set (kinds s)"
    and "k = File_handoff \<and> st_phase s = Handoff_pending \<or> k = Send \<and> st_phase s = Send_pending"
  shows "pendingNonRepeatableAction s \<noteq> None"
proof -
  from assms(1) obtain a where a: "a \<in> set (obj_values (st_actions s))" "ar_kind a = k" by (auto simp: kinds_iff)
  with assms(2) have "is_pending_action (st_phase s) a" by (auto simp: is_pending_action_def)
  with a(1) show ?thesis by (auto simp: pending_None)
qed

text \<open>C20: on a reachable operation, recovery reports an inconsistent state in one case only: the
  operation became uncertain before any mutation was intended, and the observed target matches. All other
  \<open>operation_state_inconsistent\<close> branches of the code are unreachable.\<close>

theorem recovery_inconsistent_iff:
  assumes "op_reachable U s"
  shows "decideOperationRecovery s ob = Block Block_inconsistent \<longleftrightarrow>
    st_phase s = Uncertain \<and> st_mutationBoundary s = No_mutation \<and> ro_target ob = Target_matches"
proof -
  note i = reachable_phase_ledger [OF assms] and r = reachable_receipt [OF assms]
  have d: "decisionForPendingAction s a t \<noteq> Block Block_inconsistent"
    "ownedTurnDecision p t \<noteq> Block Block_inconsistent" for a t p
    by (cases t; auto simp: decisionForPendingAction_def observeAction_def split: turn_observation.splits)+
  have pend: "pendingNonRepeatableAction s \<noteq> None"
    if "st_phase s = Handoff_pending \<or> st_phase s = Send_pending"
    using i that pendingI [of _ s] by (auto simp: phase_ledger_def)
  have none: "pendingNonRepeatableAction s = None" if "st_phase s = Uncertain" "st_mutationBoundary s = No_mutation"
  proof -
    have "boundary_rank b \<le> 0" if "a \<in> set (obj_values (st_actions s))" "boundaryForAction (ar_kind a) = Some b" for a b
      using expected_boundary_bound [of "ar_kind a" "kinds s" b] that reachable_boundary [OF assms]
        \<open>st_mutationBoundary s = No_mutation\<close> by (auto simp: boundary_rank_def kinds_def)
    then show ?thesis
      by (fastforce simp: pending_None is_pending_action_def boundaryForAction_def boundary_rank_def split: if_splits)
  qed
  have un: "st_phase s = Uncertain \<longrightarrow> st_mutationBoundary s = No_mutation \<or> pendingNonRepeatableAction s \<noteq> None"
    using uncertain_pending [OF assms] by blast
  show ?thesis
    using i r d pend none un
    by (cases "st_phase s") (auto simp: decideOperationRecovery_def decide_live_def phase_ledger_def
        split: option.splits target_observation.splits turn_observation.splits if_splits)
qed

theorem recovery_inconsistent_iff_witness:
  "decideOperationRecovery ex_s8 (ex_observation Turn_not_observed) \<noteq> Block Block_inconsistent"
  using recovery_inconsistent_iff [OF ex_reachable(8)] ex_fields(6) by simp

text \<open>An uncertain operation whose boundary shows an intended mutation is only observed: when
  the page shows no owned turn, the decision names the ledger's action with the latest intent among
  its handoff, Send, steer and stop intents, and nothing may be repeated.\<close>

lemma uncertain_observes_latest:
  assumes "op_reachable U s" "st_phase s = Uncertain" "st_mutationBoundary s \<noteq> No_mutation"
    and "ro_target ob = Target_matches" "ro_turn ob = Turn_not_observed"
  shows "\<exists>a. decideOperationRecovery s ob = Observe_action_postcondition (ar_actionId a) (ar_kind a) \<and>
    obj_get (st_actions s) (ar_actionId a) = Some a \<and> ar_kind a \<in> {File_handoff, Send, Work_steer, Stop} \<and>
    (\<forall>b\<in>set (obj_values (st_actions s)). ar_kind b \<in> {File_handoff, Send, Work_steer, Stop} \<longrightarrow>
       ar_intentRevision b \<le> ar_intentRevision a)"
proof -
  obtain a where a: "pendingNonRepeatableAction s = Some a"
    using uncertain_pending [OF assms(1-3)] by blast
  note l = latestAction_Some [OF a [unfolded pendingNonRepeatableAction_def]]
  have k: "is_pending_action Uncertain b \<longleftrightarrow> ar_kind b \<in> {File_handoff, Send, Work_steer, Stop}" for b
    by (auto simp: is_pending_action_def)
  have "decideOperationRecovery s ob = observeAction a"
    using a assms(2,4,5) by (simp add: decideOperationRecovery_def decide_live_def decisionForPendingAction_def)
  moreover have "obj_get (st_actions s) (ar_actionId a) = Some a"
    using l(1) ledger_values [OF reachable_keyed [OF assms(1)]] by blast
  ultimately show ?thesis using l(2,3) k assms(2) by (auto simp: observeAction_def)
qed

end
