(* ===== verification/Turn_Ownership.thy ===== *)
theory Turn_Ownership
  imports Op_Recovery
begin

text \<open>
  The ownership evidence of \<open>operations/turn-ownership.ts\<close>: the normalized observations of a
  conversation, their validation, and the comparison of a bound target with an observed one.
  The classifier itself is in \<open>Turn_Classifier\<close>. The arguments are typed records here, so
  \<open>isRecord\<close>, \<open>assertExactKeys\<close> and the \<open>typeof\<close> tests hold by construction.
\<close>

named_theorems own_simps "validity of ownership evidence, field by field"

section \<open>Data\<close>

record ownership_profile =
  pf_stableConversationId :: requirement
  pf_stableUserTurnId :: requirement
  pf_stableAssistantTurnId :: requirement
  pf_stableBranchId :: requirement
  pf_authoritativeTabClaim :: requirement

record ownership_binding =
  bd_schemaVersion :: string
  bd_operationId :: string
  bd_targetBindingDigest :: string
  bd_target :: ownership_target
  bd_evidenceProfile :: ownership_profile
  bd_replacementTabRecovery :: bool
  bd_actionId :: string
  bd_actionKind :: action_kind

datatype completeness = Complete | Truncated | Incomplete | Out_of_order | Other_completeness string
datatype terminal_state = Idle | Generating_now | Terminal | Unknown | Other_terminal string

record ownership_delta =
  dl_baselineSnapshotDigest :: string
  dl_addedUserEvidenceDigests :: "string list"
  dl_deltaDigest :: string

record ownership_snapshot =
  sn_schemaVersion :: string
  sn_snapshotDigest :: string
  sn_target :: ownership_target
  sn_userTurns :: "ownership_turn list"
  sn_assistantTurns :: "ownership_turn list"
  sn_completeness :: completeness
  sn_terminalState :: terminal_state
  sn_postSendDelta :: "ownership_delta option"

record ownership_witness =
  ow_actionId :: string
  ow_actionKind :: action_kind
  ow_baselineSnapshotDigest :: string
  ow_postSendDeltaDigest :: string
  ow_operationUserEvidenceDigest :: string
  ow_userTurnStableId :: "string option"

datatype cursor_phase = Cursor_user | Cursor_generating | Cursor_terminal | Other_cursor string

record ownership_cursor =
  cu_schemaVersion :: string
  cu_operationId :: string
  cu_targetBindingDigest :: string
  cu_phase :: cursor_phase
  cu_userTurnId :: string
  cu_userTurnEvidenceDigest :: string
  cu_assistantTurnId :: "string option"
  cu_assistantBranchId :: "string option"
  cu_snapshotDigest :: string
  cu_assistantEvidenceDigest :: "string option"
  cu_assistantStructureDigest :: "string option"

record ownership_input =
  in_binding :: ownership_binding
  in_baseline :: ownership_baseline
  in_snapshot :: ownership_snapshot
  in_submissionWitness :: "ownership_witness option"
  in_prior :: "ownership_cursor option"

section \<open>Bounds and patterns\<close>

definition MAX_IDENTIFIER_LENGTH :: nat where "MAX_IDENTIFIER_LENGTH = 512"
definition MAX_DIGEST_LENGTH :: nat where "MAX_DIGEST_LENGTH = 512"
definition MAX_TURNS :: nat where "MAX_TURNS = 256"
definition MAX_ARTIFACTS_PER_TURN :: nat where "MAX_ARTIFACTS_PER_TURN = 32"

definition IDENTIFIER_PATTERN :: "string \<Rightarrow> bool" where
  "IDENTIFIER_PATTERN = matches_head_tail (\<lambda>c. is_alnum c \<or> c \<in> set ''._:-'')
     (\<lambda>c. is_alnum c \<or> c \<in> set ''._:-'') 511"

definition OWNERSHIP_DIGEST_PATTERN :: "string \<Rightarrow> bool" where
  "OWNERSHIP_DIGEST_PATTERN s =
     (let p = takeWhile (\<lambda>c. c \<noteq> CHR '':'') s; r = dropWhile (\<lambda>c. c \<noteq> CHR '':'') s in
        matches_head_tail is_lower (\<lambda>c. is_lower c \<or> is_digit c \<or> c = CHR ''-'') 31 p \<and> 2 \<le> length p \<and>
        r \<noteq> [] \<and> 16 \<le> length (tl r) \<and> length (tl r) \<le> 512 \<and>
        list_all (\<lambda>c. is_alnum c \<or> c = CHR ''_'' \<or> c = CHR ''-'') (tl r))"

definition throw_type :: "bool \<Rightarrow> string \<Rightarrow> check" where
  "throw_type b msg = throw_if b (TypeError msg)"

definition is_identifier :: "string \<Rightarrow> bool" where
  "is_identifier v \<longleftrightarrow> 1 \<le> length v \<and> length v \<le> MAX_IDENTIFIER_LENGTH \<and> IDENTIFIER_PATTERN v"

definition assertIdentifier :: "string \<Rightarrow> string \<Rightarrow> check" where
  "assertIdentifier v label = throw_type (\<not> is_identifier v) (label @ '' must be a bounded opaque identifier.'')"

definition is_ownership_digest :: "string \<Rightarrow> bool" where
  "is_ownership_digest v \<longleftrightarrow> length v \<le> MAX_DIGEST_LENGTH \<and> OWNERSHIP_DIGEST_PATTERN v"

definition assertOwnershipDigest :: "string \<Rightarrow> string \<Rightarrow> check" where
  "assertOwnershipDigest v label = throw_type (\<not> is_ownership_digest v) (label @ '' must be a bounded digest.'')"

definition assertBoundedArray :: "'a list \<Rightarrow> nat \<Rightarrow> string \<Rightarrow> check" where
  "assertBoundedArray xs n label = throw_type (length xs > n) (label @ '' exceeds its bounded array cap.'')"

lemma throw_type_None [simp, res_simps]: "throw_type b m = None \<longleftrightarrow> \<not> b"
  by (simp add: throw_type_def)

lemma assertIdentifier_None [simp]: "assertIdentifier v l = None \<longleftrightarrow> is_identifier v"
  by (simp add: assertIdentifier_def)

lemma assertOwnershipDigest_None [simp]: "assertOwnershipDigest v l = None \<longleftrightarrow> is_ownership_digest v"
  by (simp add: assertOwnershipDigest_def)

lemma assertBoundedArray_None [simp]: "assertBoundedArray xs n l = None \<longleftrightarrow> length xs \<le> n"
  by (simp add: assertBoundedArray_def not_less)

section \<open>Identities and targets\<close>

fun is_available :: "identity_evidence \<Rightarrow> bool" where
  "is_available (Available _) = True"
| "is_available (Unavailable _) = False"

definition validateIdentity :: "identity_evidence \<Rightarrow> string \<Rightarrow> bool \<Rightarrow> check" where
  "validateIdentity i label allowUrl = (case i of
     Available v \<Rightarrow>
       if \<not> allowUrl then assertIdentifier v (label @ ''.value'')
       else throw_type (length v < 1 \<or> length v > 4096 \<or> list_ex is_control v)
         (label @ ''.value must be a bounded URL.'')
   | Unavailable r \<Rightarrow> throw_type (r \<noteq> Not_exposed \<and> r \<noteq> Not_observed \<and> r \<noteq> Redacted)
       (label @ ''.reason is invalid.''))"

definition validateTarget :: "url_parser \<Rightarrow> ownership_target \<Rightarrow> string \<Rightarrow> check" where
  "validateTarget U t label = first_error
     [validateIdentity (ot_provider t) (label @ ''.provider'') False,
      validateIdentity (ot_browser t) (label @ ''.browser'') False,
      validateIdentity (ot_tab t) (label @ ''.tab'') False,
      validateIdentity (ot_thread t) (label @ ''.thread'') False,
      validateIdentity (ot_conversation t) (label @ ''.conversation'') False,
      validateIdentity (ot_authoritativeTabClaim t) (label @ ''.authoritativeTabClaim'') False,
      validateIdentity (ot_canonicalThreadUrl t) (label @ ''.canonicalThreadUrl'') True,
      throw_type (ot_coordinationScope t \<noteq> Process_scope \<and> ot_coordinationScope t \<noteq> Provider_scope)
        (label @ ''.coordinationScope is invalid.''),
      throw_type (ot_coordinationScope t = Provider_scope \<and> \<not> is_available (ot_authoritativeTabClaim t))
        (label @ '' requires an authoritative claim for provider coordination.''),
      (case ot_canonicalThreadUrl t of
         Unavailable _ \<Rightarrow> None
       | Available v \<Rightarrow> (case U v of
           None \<Rightarrow> Some (TypeError (label @ ''.canonicalThreadUrl is not a URL.''))
         | Some p \<Rightarrow> throw_type (\<not> is_plain_https p) (label @
             ''.canonicalThreadUrl must be canonical HTTPS without credentials, query, or fragment.'')))]"

section \<open>Turns\<close>

datatype turn_kind = User_turn | Assistant_turn

fun digests_loop :: "string \<Rightarrow> string \<Rightarrow> string list \<Rightarrow> string list \<Rightarrow> check" where
  "digests_loop label duplicate seen [] = None"
| "digests_loop label duplicate seen (d # ds) = first_error
     [assertOwnershipDigest d label,
      throw_type (d \<in> set seen) duplicate,
      digests_loop label duplicate (d # seen) ds]"

definition turn_label :: "string \<Rightarrow> nat \<Rightarrow> string \<Rightarrow> string" where
  "turn_label label index member = label @ ''['' @ nat_text index @ '']'' @ member"

definition turn_check ::
  "turn_kind \<Rightarrow> string \<Rightarrow> nat \<Rightarrow> string list \<Rightarrow> string list \<Rightarrow> ownership_turn \<Rightarrow> check" where
  "turn_check kind label index stableIds evidence t = first_error
     [throw_type (tn_ordinal t \<noteq> int index) (label @ '' ordinals must be contiguous and ordered.''),
      assertOwnershipDigest (tn_evidenceDigest t) (turn_label label index ''.evidenceDigest''),
      assertOwnershipDigest (tn_structureDigest t) (turn_label label index ''.structureDigest''),
      when_some (tn_stableId t) (\<lambda>s. first_error
        [assertIdentifier s (turn_label label index ''.stableId''),
         throw_type (s \<in> set stableIds) (''Duplicate stable turn ID in '' @ label @ ''.'')]),
      throw_type (kind = User_turn \<and>
          (tn_state t \<noteq> None \<or> tn_parentStableId t \<noteq> None \<or> tn_branchStableId t \<noteq> None))
        ''User turns cannot carry assistant state or lineage.'',
      throw_type (kind = Assistant_turn \<and>
          tn_state t \<noteq> Some Turn_generating \<and> tn_state t \<noteq> Some Turn_terminal)
        ''Assistant turns require generating or terminal state.'',
      when_some (tn_parentStableId t) (\<lambda>s. assertIdentifier s (turn_label label index ''.parentStableId'')),
      when_some (tn_branchStableId t) (\<lambda>s. assertIdentifier s (turn_label label index ''.branchStableId'')),
      (let ds = (case tn_artifactEvidenceDigests t of None \<Rightarrow> [] | Some ds \<Rightarrow> ds) in first_error
        [assertBoundedArray ds MAX_ARTIFACTS_PER_TURN (turn_label label index ''.artifactEvidenceDigests''),
         digests_loop (turn_label label index ''.artifactEvidenceDigests[]'')
           (''Duplicate artifact evidence digest in '' @ label @ ''.'') [] ds]),
      throw_type (tn_stableId t = None \<and> tn_evidenceDigest t \<in> set evidence)
        (''Duplicate id-less turn evidence in '' @ label @ ''.'')]"

fun turns_loop ::
  "turn_kind \<Rightarrow> string \<Rightarrow> nat \<Rightarrow> string list \<Rightarrow> string list \<Rightarrow> ownership_turn list \<Rightarrow> check" where
  "turns_loop kind label index stableIds evidence [] = None"
| "turns_loop kind label index stableIds evidence (t # ts) =
     (case turn_check kind label index stableIds evidence t of
        Some e \<Rightarrow> Some e
      | None \<Rightarrow> turns_loop kind label (Suc index)
          (case tn_stableId t of None \<Rightarrow> stableIds | Some s \<Rightarrow> s # stableIds)
          (case tn_stableId t of None \<Rightarrow> tn_evidenceDigest t # evidence | Some _ \<Rightarrow> evidence) ts)"

definition validateTurns :: "ownership_turn list \<Rightarrow> turn_kind \<Rightarrow> string \<Rightarrow> check" where
  "validateTurns turns kind label = first_error
     [assertBoundedArray turns MAX_TURNS label, turns_loop kind label 0 [] [] turns]"

section \<open>The input\<close>

definition requirement_known :: "requirement \<Rightarrow> bool" where
  "requirement_known r \<longleftrightarrow> r = Required \<or> r = Not_available"

definition profile_check :: "ownership_profile \<Rightarrow> check" where
  "profile_check p = first_error
     [throw_type (\<not> requirement_known (pf_stableConversationId p)) ''Invalid evidence profile stableConversationId.'',
      throw_type (\<not> requirement_known (pf_stableUserTurnId p)) ''Invalid evidence profile stableUserTurnId.'',
      throw_type (\<not> requirement_known (pf_stableAssistantTurnId p)) ''Invalid evidence profile stableAssistantTurnId.'',
      throw_type (\<not> requirement_known (pf_stableBranchId p)) ''Invalid evidence profile stableBranchId.'',
      throw_type (\<not> requirement_known (pf_authoritativeTabClaim p)) ''Invalid evidence profile authoritativeTabClaim.'']"

definition validateBinding :: "url_parser \<Rightarrow> ownership_binding \<Rightarrow> check" where
  "validateBinding U b = (let p = bd_evidenceProfile b; t = bd_target b in first_error
     [throw_type (bd_schemaVersion b \<noteq> TURN_OWNERSHIP_SCHEMA_VERSION) ''Unsupported ownership binding schema version.'',
      assertIdentifier (bd_operationId b) ''binding.operationId'',
      assertOwnershipDigest (bd_targetBindingDigest b) ''binding.targetBindingDigest'',
      assertIdentifier (bd_actionId b) ''binding.actionId'',
      throw_type (bd_actionKind b \<noteq> Send \<and> bd_actionKind b \<noteq> Work_steer) ''Invalid ownership action kind.'',
      validateTarget U t ''binding.target'',
      profile_check p,
      throw_type (pf_stableConversationId p = Required \<and> \<not> is_available (ot_conversation t))
        ''Stable conversation evidence is required but unavailable in the binding.'',
      throw_type (pf_authoritativeTabClaim p = Required \<and> \<not> is_available (ot_authoritativeTabClaim t))
        ''Authoritative tab claim is required but unavailable in the binding.'',
      throw_type (bd_replacementTabRecovery b \<and>
          (pf_stableConversationId p \<noteq> Required \<or> pf_authoritativeTabClaim p \<noteq> Required))
        ''Replacement-tab recovery requires stable conversation identity and authoritative tab claims.'',
      throw_type (ot_coordinationScope t = Provider_scope \<and> \<not> is_available (ot_authoritativeTabClaim t))
        ''Provider-scoped ownership requires an authoritative tab claim.''])"

definition validateBaseline :: "url_parser \<Rightarrow> ownership_baseline \<Rightarrow> check" where
  "validateBaseline U b = first_error
     [throw_type (bl_schemaVersion b \<noteq> TURN_OWNERSHIP_SCHEMA_VERSION \<or> bl_completeness b \<noteq> ''complete'')
        ''Baseline must be a complete ownership snapshot.'',
      assertOwnershipDigest (bl_snapshotDigest b) ''baseline.snapshotDigest'',
      validateTarget U (bl_target b) ''baseline.target'',
      validateTurns (bl_userTurns b) User_turn ''baseline.userTurns'',
      validateTurns (bl_assistantTurns b) Assistant_turn ''baseline.assistantTurns'']"

definition validateDelta :: "ownership_delta \<Rightarrow> check" where
  "validateDelta d = first_error
     [assertOwnershipDigest (dl_baselineSnapshotDigest d) ''snapshot.postSendDelta.baselineSnapshotDigest'',
      assertOwnershipDigest (dl_deltaDigest d) ''snapshot.postSendDelta.deltaDigest'',
      assertBoundedArray (dl_addedUserEvidenceDigests d) MAX_TURNS ''snapshot.postSendDelta.addedUserEvidenceDigests'',
      digests_loop ''snapshot.postSendDelta.addedUserEvidenceDigests[]''
        ''Duplicate post-Send user evidence digest.'' [] (dl_addedUserEvidenceDigests d)]"

definition validateSnapshot :: "url_parser \<Rightarrow> ownership_snapshot \<Rightarrow> check" where
  "validateSnapshot U s = first_error
     [throw_type (sn_schemaVersion s \<noteq> TURN_OWNERSHIP_SCHEMA_VERSION) ''Unsupported ownership snapshot schema version.'',
      assertOwnershipDigest (sn_snapshotDigest s) ''snapshot.snapshotDigest'',
      validateTarget U (sn_target s) ''snapshot.target'',
      validateTurns (sn_userTurns s) User_turn ''snapshot.userTurns'',
      validateTurns (sn_assistantTurns s) Assistant_turn ''snapshot.assistantTurns'',
      throw_type (sn_completeness s \<notin> {Complete, Truncated, Incomplete, Out_of_order}) ''Invalid snapshot completeness.'',
      throw_type (sn_terminalState s \<notin> {Idle, Generating_now, Terminal, Unknown}) ''Invalid snapshot terminal state.'',
      when_some (sn_postSendDelta s) validateDelta]"

definition validateSubmissionWitness :: "ownership_witness \<Rightarrow> check" where
  "validateSubmissionWitness w = first_error
     [assertIdentifier (ow_actionId w) ''submissionWitness.actionId'',
      throw_type (ow_actionKind w \<noteq> Send \<and> ow_actionKind w \<noteq> Work_steer) ''Invalid submission witness action kind.'',
      assertOwnershipDigest (ow_baselineSnapshotDigest w) ''submissionWitness.baselineSnapshotDigest'',
      assertOwnershipDigest (ow_postSendDeltaDigest w) ''submissionWitness.postSendDeltaDigest'',
      assertOwnershipDigest (ow_operationUserEvidenceDigest w) ''submissionWitness.operationUserEvidenceDigest'',
      when_some (ow_userTurnStableId w) (\<lambda>s. assertIdentifier s ''submissionWitness.userTurnStableId'')]"

text \<open>\<open>validateOwnershipCursor\<close>: a cursor of an assistant phase names all four assistant identities.\<close>

definition validateOwnershipCursor :: "ownership_cursor \<Rightarrow> check" where
  "validateOwnershipCursor c = first_error
     [throw_type (cu_schemaVersion c \<noteq> TURN_OWNERSHIP_SCHEMA_VERSION) ''Unsupported ownership cursor schema version.'',
      throw_type (cu_phase c \<notin> {Cursor_user, Cursor_generating, Cursor_terminal}) ''Ownership cursor phase is invalid.'',
      assertIdentifier (cu_operationId c) ''cursor.operationId'',
      assertOwnershipDigest (cu_targetBindingDigest c) ''cursor.targetBindingDigest'',
      assertIdentifier (cu_userTurnId c) ''cursor.userTurnId'',
      assertOwnershipDigest (cu_userTurnEvidenceDigest c) ''cursor.userTurnEvidenceDigest'',
      assertOwnershipDigest (cu_snapshotDigest c) ''cursor.snapshotDigest'',
      (if cu_phase c = Cursor_user then
         throw_type (cu_assistantTurnId c \<noteq> None \<or> cu_assistantBranchId c \<noteq> None
             \<or> cu_assistantEvidenceDigest c \<noteq> None \<or> cu_assistantStructureDigest c \<noteq> None)
           ''User-turn cursor cannot contain assistant identity.''
       else (case (cu_assistantTurnId c, cu_assistantBranchId c, cu_assistantEvidenceDigest c,
                   cu_assistantStructureDigest c) of
         (Some a, Some b, Some e, Some s) \<Rightarrow> first_error
           [assertIdentifier a ''cursor.assistantTurnId'',
            assertIdentifier b ''cursor.assistantBranchId'',
            assertOwnershipDigest e ''cursor.assistantEvidenceDigest'',
            assertOwnershipDigest s ''cursor.assistantStructureDigest'']
       | _ \<Rightarrow> Some (TypeError
           ''Assistant cursor requires stable assistant, branch, and evidence identities.'')))]"

definition validateInput :: "url_parser \<Rightarrow> ownership_input \<Rightarrow> check" where
  "validateInput U i = first_error
     [validateBinding U (in_binding i),
      validateBaseline U (in_baseline i),
      validateSnapshot U (in_snapshot i),
      when_some (in_submissionWitness i) validateSubmissionWitness,
      when_some (in_prior i) validateOwnershipCursor]"

section \<open>Comparing targets\<close>

datatype check_status = Match | Mismatch | Unavailable_target | Replacement

record target_check =
  tc_status :: check_status
  tc_replacedTab :: bool

abbreviation no_replacement :: "check_status \<Rightarrow> target_check" where
  "no_replacement st \<equiv> \<lparr>tc_status = st, tc_replacedTab = False\<rparr>"

text \<open>One pass of the loop over the exact keys: \<open>None\<close> continues.\<close>

fun exact_key :: "bool \<Rightarrow> identity_evidence \<Rightarrow> identity_evidence \<Rightarrow> check_status option" where
  "exact_key optional_key (Available l) (Available r) = (if l \<noteq> r then Some Mismatch else None)"
| "exact_key optional_key (Unavailable _) (Unavailable _) =
     (if optional_key then None else Some Unavailable_target)"
| "exact_key optional_key _ _ = Some Unavailable_target"

fun identity_value :: "identity_evidence \<Rightarrow> string option" where
  "identity_value (Available v) = Some v"
| "identity_value (Unavailable _) = None"

definition exact_keys :: "ownership_target \<Rightarrow> ownership_target \<Rightarrow> check_status option" where
  "exact_keys bound t = first_error
     [exact_key False (ot_provider bound) (ot_provider t),
      exact_key False (ot_browser bound) (ot_browser t),
      exact_key True (ot_thread bound) (ot_thread t),
      exact_key True (ot_conversation bound) (ot_conversation t),
      exact_key True (ot_canonicalThreadUrl bound) (ot_canonicalThreadUrl t)]"

definition compareBindingToTarget :: "ownership_binding \<Rightarrow> ownership_target \<Rightarrow> target_check" where
  "compareBindingToTarget b t = (let bound = bd_target b; p = bd_evidenceProfile b in
     if ot_coordinationScope bound \<noteq> ot_coordinationScope t then no_replacement Mismatch
     else case exact_keys bound t of
       Some st \<Rightarrow> no_replacement st
     | None \<Rightarrow>
       if \<not> is_available (ot_tab bound) \<or> \<not> is_available (ot_tab t) then no_replacement Unavailable_target
       else if pf_authoritativeTabClaim p = Required \<and>
           (\<not> is_available (ot_authoritativeTabClaim bound) \<or> \<not> is_available (ot_authoritativeTabClaim t))
       then no_replacement Unavailable_target
       else if identity_value (ot_tab bound) \<noteq> identity_value (ot_tab t) then
         (if \<not> bd_replacementTabRecovery b then no_replacement Mismatch
          else if pf_stableConversationId p \<noteq> Required then no_replacement Unavailable_target
          else if \<not> is_available (ot_authoritativeTabClaim t) then no_replacement Unavailable_target
          else \<lparr>tc_status = Replacement, tc_replacedTab = True\<rparr>)
       else if pf_authoritativeTabClaim p = Required \<and> is_available (ot_authoritativeTabClaim bound) \<and>
           is_available (ot_authoritativeTabClaim t) \<and>
           identity_value (ot_authoritativeTabClaim bound) \<noteq> identity_value (ot_authoritativeTabClaim t)
       then no_replacement Mismatch
       else no_replacement Match)"

definition compareBindingToBaselineTarget ::
  "ownership_binding \<Rightarrow> ownership_baseline \<Rightarrow> ownership_witness option \<Rightarrow> target_check" where
  "compareBindingToBaselineTarget b bl w = (let direct = compareBindingToTarget b (bl_target bl) in
     if tc_status direct \<noteq> Unavailable_target then direct
     else let pending = bl_target bl; established = bd_target b in
       if \<not> (\<not> is_available (ot_thread pending) \<and> \<not> is_available (ot_conversation pending) \<and>
              \<not> is_available (ot_canonicalThreadUrl pending))
          \<or> \<not> (is_available (ot_thread established) \<and> is_available (ot_conversation established) \<and>
              is_available (ot_canonicalThreadUrl established))
          \<or> bl_userTurns bl \<noteq> [] \<or> bl_assistantTurns bl \<noteq> []
          \<or> pf_stableConversationId (bd_evidenceProfile b) \<noteq> Required
          \<or> pf_stableUserTurnId (bd_evidenceProfile b) \<noteq> Required
          \<or> \<not> (case w of None \<Rightarrow> False | Some x \<Rightarrow> ow_actionId x = bd_actionId b \<and> ow_actionKind x = Send
                \<and> bd_actionKind b = Send \<and> ow_baselineSnapshotDigest x = bl_snapshotDigest bl)
       then direct
       else compareBindingToTarget b (pending\<lparr>ot_thread := ot_thread established,
              ot_conversation := ot_conversation established,
              ot_canonicalThreadUrl := ot_canonicalThreadUrl established\<rparr>))"

definition hasStableConversationAndClaim :: "ownership_binding \<Rightarrow> ownership_snapshot \<Rightarrow> bool" where
  "hasStableConversationAndClaim b s \<longleftrightarrow>
     pf_stableConversationId (bd_evidenceProfile b) = Required \<and> is_available (ot_conversation (sn_target s))
     \<and> is_available (ot_thread (sn_target s)) \<and> is_available (ot_authoritativeTabClaim (sn_target s))"

end
