(* ===== verification/Turn_Classifier.thy ===== *)
theory Turn_Classifier
  imports Turn_Ownership
begin

text \<open>
  The turn ownership classifier of \<open>operations/turn-ownership.ts\<close>: the delta between a
  pre-Send baseline and a fresh snapshot (\<open>analyzeDelta\<close>), the proof that the one added user
  turn is the operation's own (\<open>proveSubmittedUser\<close>), and the classification with its cursor
  (\<open>classifyTurnOwnership\<close>).
\<close>

section \<open>Results\<close>

datatype result_status =
    No_operation_turn | Owned_user | Owned_generating | Owned_terminal | Target_mismatched
  | Target_evidence_unavailable | Concurrent_user_turn | Regeneration_ambiguous | Ownership_ambiguous

datatype ownership_reason =
    No_reason | Target_binding_mismatch | Target_evidence_missing | Replacement_tab_requires_owned_user
  | Incomplete_snapshot | Out_of_order_snapshot | Baseline_turn_missing | Baseline_turn_changed
  | Intervening_user_turn | Multiple_new_user_turns | Operation_user_evidence_mismatch
  | Post_send_delta_missing | Post_send_delta_mismatch | Stable_user_turn_id_unavailable
  | Stable_assistant_turn_id_unavailable | Stable_parent_identity_unavailable
  | Stable_branch_identity_unavailable | Assistant_parent_mismatch | Assistant_state_unknown
  | Terminal_state_mismatch | Regeneration_siblings | Prior_owned_turn_missing
  | Prior_owned_turn_changed | Prior_cursor_mismatch | Unexpected_new_assistant_turn
  | Baseline_target_mismatch

record target_material =
  tm_provider :: bool
  tm_browser :: bool
  tm_tab :: bool
  tm_thread :: bool
  tm_conversation :: bool
  tm_canonicalThreadUrl :: bool
  tm_authoritativeTabClaim :: bool
  tm_replacedTab :: bool

record turn_material =
  um_evidenceDigest :: string
  um_structureDigest :: string
  um_ordinal :: int
  um_stableIdAvailable :: bool
  um_parentStableIdAvailable :: bool
  um_branchStableIdAvailable :: bool
  um_artifactEvidenceDigests :: "string list"
  um_state :: "turn_state option"

record evidence_material =
  em_schemaVersion :: string
  em_operationId :: string
  em_status :: result_status
  em_reason :: ownership_reason
  em_target :: target_material
  em_baselineSnapshotDigest :: string
  em_snapshotDigest :: string
  em_postSendDeltaDigest :: "string option"
  em_addedUserCount :: nat
  em_addedAssistantCount :: nat
  em_terminalState :: terminal_state
  em_userTurn :: "turn_material option"
  em_assistantTurn :: "turn_material option"

record classification =
  cl_status :: result_status
  cl_reason :: ownership_reason
  cl_evidence :: evidence_material
  cl_recoveryObservation :: turn_observation
  cl_cursor :: "ownership_cursor option"

text \<open>In \<open>targetMaterial\<close> a member is \<open>True\<close> when its status is \<open>available\<close>.\<close>

definition targetMaterial :: "ownership_binding \<Rightarrow> ownership_target \<Rightarrow> target_check \<Rightarrow> target_material" where
  "targetMaterial b t c =
     \<lparr>tm_provider = is_available (ot_provider t), tm_browser = is_available (ot_browser t),
      tm_tab = is_available (ot_tab t), tm_thread = is_available (ot_thread t),
      tm_conversation = is_available (ot_conversation t),
      tm_canonicalThreadUrl = is_available (ot_canonicalThreadUrl t),
      tm_authoritativeTabClaim = is_available (ot_authoritativeTabClaim t),
      tm_replacedTab = (tc_replacedTab c \<and> bd_replacementTabRecovery b)\<rparr>"

definition turnMaterial :: "ownership_turn \<Rightarrow> turn_material" where
  "turnMaterial t =
     \<lparr>um_evidenceDigest = tn_evidenceDigest t, um_structureDigest = tn_structureDigest t,
      um_ordinal = tn_ordinal t, um_stableIdAvailable = (tn_stableId t \<noteq> None),
      um_parentStableIdAvailable = (tn_parentStableId t \<noteq> None),
      um_branchStableIdAvailable = (tn_branchStableId t \<noteq> None),
      um_artifactEvidenceDigests = (case tn_artifactEvidenceDigests t of None \<Rightarrow> [] | Some ds \<Rightarrow> ds),
      um_state = tn_state t\<rparr>"

definition stable_of :: "ownership_turn option \<Rightarrow> string option" where
  "stable_of t = (case t of None \<Rightarrow> None | Some x \<Rightarrow> tn_stableId x)"

definition recovery_observation_of ::
  "result_status \<Rightarrow> ownership_turn option \<Rightarrow> ownership_turn option \<Rightarrow> string \<Rightarrow> turn_observation" where
  "recovery_observation_of st user assistant digest =
     (case (st, stable_of user, stable_of assistant) of
        (No_operation_turn, _, _) \<Rightarrow> Turn_not_observed
      | (Owned_user, Some u, _) \<Rightarrow> Owned_user_turn u digest
      | (Owned_generating, Some u, Some a) \<Rightarrow> Owned_assistant_generating u a digest
      | (Owned_terminal, Some u, Some a) \<Rightarrow> Owned_assistant_terminal u a digest
      | _ \<Rightarrow> Turn_ambiguous (Some digest))"

definition result_of :: "ownership_input \<Rightarrow> result_status \<Rightarrow> ownership_reason \<Rightarrow> target_check
    \<Rightarrow> ownership_turn option \<Rightarrow> ownership_turn option \<Rightarrow> ownership_cursor option \<Rightarrow> nat \<Rightarrow> nat
    \<Rightarrow> classification" where
  "result_of i st reason target user assistant cursor addedUsers addedAssistants =
     \<lparr>cl_status = st, cl_reason = reason,
      cl_evidence =
        \<lparr>em_schemaVersion = TURN_OWNERSHIP_SCHEMA_VERSION, em_operationId = bd_operationId (in_binding i),
         em_status = st, em_reason = reason,
         em_target = targetMaterial (in_binding i) (sn_target (in_snapshot i)) target,
         em_baselineSnapshotDigest = bl_snapshotDigest (in_baseline i),
         em_snapshotDigest = sn_snapshotDigest (in_snapshot i),
         em_postSendDeltaDigest = map_option dl_deltaDigest (sn_postSendDelta (in_snapshot i)),
         em_addedUserCount = addedUsers, em_addedAssistantCount = addedAssistants,
         em_terminalState = sn_terminalState (in_snapshot i),
         em_userTurn = map_option turnMaterial user,
         em_assistantTurn = map_option turnMaterial assistant\<rparr>,
      cl_recoveryObservation = recovery_observation_of st user assistant (sn_snapshotDigest (in_snapshot i)),
      cl_cursor = cursor\<rparr>"

section \<open>The delta of two turn lists\<close>

definition turnIdentityKey :: "ownership_turn \<Rightarrow> string" where
  "turnIdentityKey t = (case tn_stableId t of None \<Rightarrow> ''e:'' @ tn_evidenceDigest t | Some s \<Rightarrow> ''i:'' @ s)"

text \<open>The map \<open>freshByIdentity\<close>: a later turn replaces an earlier one with the same key.\<close>

definition fresh_by_identity :: "ownership_turn list \<Rightarrow> string \<Rightarrow> (nat \<times> ownership_turn) option" where
  "fresh_by_identity fresh =
     map_of (rev (map (\<lambda>(i, t). (turnIdentityKey t, (i, t))) (List.enumerate 0 fresh)))"

fun match_baseline :: "(string \<Rightarrow> (nat \<times> ownership_turn) option) \<Rightarrow> nat list \<Rightarrow> ownership_turn list
    \<Rightarrow> ownership_reason + nat list" where
  "match_baseline m indices [] = Inr indices"
| "match_baseline m indices (p # ps) = (case m (turnIdentityKey p) of
     None \<Rightarrow> Inl Baseline_turn_missing
   | Some (i, t) \<Rightarrow>
       if i \<in> set indices then Inl Baseline_turn_missing
       else if tn_evidenceDigest p \<noteq> tn_evidenceDigest t \<or> tn_structureDigest p \<noteq> tn_structureDigest t
       then Inl Baseline_turn_changed
       else match_baseline m (indices @ [i]) ps)"

fun increasing :: "nat list \<Rightarrow> bool" where
  "increasing (x # y # ys) \<longleftrightarrow> x < y \<and> increasing (y # ys)"
| "increasing _ \<longleftrightarrow> True"

text \<open>The last loop: \<open>first\<close> is the first baseline index, \<open>rest\<close> the baseline indices ahead.\<close>

fun added_loop :: "nat option \<Rightarrow> nat list \<Rightarrow> nat \<Rightarrow> ownership_turn list \<Rightarrow> ownership_turn list \<times> bool" where
  "added_loop first rest index [] = ([], False)"
| "added_loop first rest index (t # ts) =
     (case rest of
        b # bs \<Rightarrow>
          if b = index then added_loop first bs (Suc index) ts
          else (case added_loop first rest (Suc index) ts of
            (added, intervening) \<Rightarrow> (t # added, (case first of None \<Rightarrow> False | Some f \<Rightarrow> index < f) \<or> index < b \<or> intervening))
      | [] \<Rightarrow> (case added_loop first [] (Suc index) ts of
            (added, intervening) \<Rightarrow> (t # added, (case first of None \<Rightarrow> False | Some f \<Rightarrow> index < f) \<or> intervening)))"

record delta_analysis =
  da_reason :: "ownership_reason option"
  da_added :: "ownership_turn list"
  da_intervening :: bool

text \<open>\<open>valid\<close> is \<open>da_reason = None\<close>: an invalid analysis always names its reason.\<close>

definition analyzeDelta :: "ownership_turn list \<Rightarrow> ownership_turn list \<Rightarrow> delta_analysis" where
  "analyzeDelta baseline fresh =
     (case match_baseline (fresh_by_identity fresh) [] baseline of
        Inl r \<Rightarrow> \<lparr>da_reason = Some r, da_added = [], da_intervening = False\<rparr>
      | Inr indices \<Rightarrow>
          if \<not> increasing indices
          then \<lparr>da_reason = Some Out_of_order_snapshot, da_added = [], da_intervening = False\<rparr>
          else (case added_loop (case indices of [] \<Rightarrow> None | f # _ \<Rightarrow> Some f) indices 0 fresh of
            (added, intervening) \<Rightarrow> \<lparr>da_reason = None, da_added = added, da_intervening = intervening\<rparr>))"

section \<open>Cursors\<close>

definition assistantPhase :: "ownership_binding \<Rightarrow> ownership_snapshot \<Rightarrow> ownership_turn \<Rightarrow> cursor_phase option" where
  "assistantPhase b s a =
     (if pf_stableAssistantTurnId (bd_evidenceProfile b) = Not_available \<or> tn_stableId a = None then None
      else if pf_stableBranchId (bd_evidenceProfile b) = Not_available \<or> tn_branchStableId a = None
          \<or> tn_parentStableId a = None then None
      else case tn_state a of
        None \<Rightarrow> None
      | Some st \<Rightarrow>
          if st = Turn_generating then (if sn_terminalState s = Generating_now then Some Cursor_generating else None)
          else if sn_terminalState s = Terminal then Some Cursor_terminal else None)"

definition makeCursor :: "ownership_binding \<Rightarrow> ownership_turn \<Rightarrow> ownership_turn option \<Rightarrow> cursor_phase
    \<Rightarrow> string \<Rightarrow> ownership_cursor option res" where
  "makeCursor b user assistant phase digest = (case tn_stableId user of
     None \<Rightarrow> Inr None
   | Some u \<Rightarrow>
       if (case assistant of None \<Rightarrow> False | Some a \<Rightarrow> tn_stableId a = None \<or> tn_branchStableId a = None)
       then Inr None
       else let c =
         \<lparr>cu_schemaVersion = TURN_OWNERSHIP_SCHEMA_VERSION, cu_operationId = bd_operationId b,
          cu_targetBindingDigest = bd_targetBindingDigest b, cu_phase = phase, cu_userTurnId = u,
          cu_userTurnEvidenceDigest = tn_evidenceDigest user,
          cu_assistantTurnId = Option.bind assistant tn_stableId,
          cu_assistantBranchId = Option.bind assistant tn_branchStableId,
          cu_snapshotDigest = digest,
          cu_assistantEvidenceDigest = map_option tn_evidenceDigest assistant,
          cu_assistantStructureDigest = map_option tn_structureDigest assistant\<rparr>
       in checked (validateOwnershipCursor c) (Some c))"

definition status_of_phase :: "cursor_phase \<Rightarrow> result_status" where
  "status_of_phase p = (case p of
     Cursor_generating \<Rightarrow> Owned_generating | Cursor_terminal \<Rightarrow> Owned_terminal | _ \<Rightarrow> Owned_user)"

section \<open>The proof of the submitted user turn\<close>

definition proveSubmittedUser :: "ownership_input \<Rightarrow> ownership_turn \<Rightarrow> (result_status \<times> ownership_reason) option" where
  "proveSubmittedUser i user =
     (if tn_stableId user = None \<or> pf_stableUserTurnId (bd_evidenceProfile (in_binding i)) = Not_available
      then Some (Ownership_ambiguous, Stable_user_turn_id_unavailable)
      else case in_submissionWitness i of
        None \<Rightarrow> Some (Ownership_ambiguous, Post_send_delta_missing)
      | Some w \<Rightarrow>
        if ow_actionId w \<noteq> bd_actionId (in_binding i) \<or> ow_actionKind w \<noteq> bd_actionKind (in_binding i)
        then Some (Ownership_ambiguous, Operation_user_evidence_mismatch)
        else if ow_baselineSnapshotDigest w \<noteq> bl_snapshotDigest (in_baseline i)
        then Some (Ownership_ambiguous, Post_send_delta_mismatch)
        else case sn_postSendDelta (in_snapshot i) of
          None \<Rightarrow> Some (Ownership_ambiguous, Post_send_delta_missing)
        | Some d \<Rightarrow>
          if dl_baselineSnapshotDigest d \<noteq> bl_snapshotDigest (in_baseline i)
          then Some (Ownership_ambiguous, Post_send_delta_mismatch)
          else if dl_deltaDigest d \<noteq> ow_postSendDeltaDigest w
          then Some (Ownership_ambiguous, Post_send_delta_mismatch)
          else if dl_addedUserEvidenceDigests d \<noteq> [tn_evidenceDigest user]
          then Some (Concurrent_user_turn, Multiple_new_user_turns)
          else if tn_evidenceDigest user \<noteq> ow_operationUserEvidenceDigest w
          then Some (Concurrent_user_turn, Operation_user_evidence_mismatch)
          else if ow_userTurnStableId w \<noteq> None \<and> ow_userTurnStableId w \<noteq> tn_stableId user
          then Some (Concurrent_user_turn, Operation_user_evidence_mismatch)
          else None)"

section \<open>Classification\<close>

text \<open>The end of both classifiers: the phase of the one assistant turn and its cursor.\<close>

definition with_cursor :: "ownership_cursor option res \<Rightarrow> (ownership_cursor option \<Rightarrow> classification)
    \<Rightarrow> classification res" where
  "with_cursor c f = bind_res c (\<lambda>x. Inr (f x))"

definition classify_children :: "ownership_input \<Rightarrow> target_check \<Rightarrow> ownership_turn
    \<Rightarrow> ownership_turn list \<Rightarrow> nat \<Rightarrow> (ownership_turn \<Rightarrow> ownership_reason) \<Rightarrow> classification res" where
  "classify_children i target user added users unknown =
     (let b = in_binding i; s = in_snapshot i;
          children = filter (\<lambda>t. tn_parentStableId t = tn_stableId user) added;
          unrelated = filter (\<lambda>t. tn_parentStableId t \<noteq> tn_stableId user) added in
      if unrelated \<noteq> [] then
        Inr (result_of i Ownership_ambiguous Assistant_parent_mismatch target (Some user)
               (Some (hd unrelated)) None users (length added))
      else case children of
        [] \<Rightarrow>
          if sn_terminalState s = Terminal then
            Inr (result_of i Ownership_ambiguous Terminal_state_mismatch target (Some user) None None users 0)
          else with_cursor (makeCursor b user None Cursor_user (sn_snapshotDigest s))
            (\<lambda>c. result_of i Owned_user No_reason target (Some user) None c users 0)
      | [a] \<Rightarrow> (case assistantPhase b s a of
            None \<Rightarrow> Inr (result_of i Ownership_ambiguous (unknown a) target (Some user) (Some a) None
                          users (length added))
          | Some p \<Rightarrow> with_cursor (makeCursor b user (Some a) p (sn_snapshotDigest s))
              (\<lambda>c. result_of i (status_of_phase p) No_reason target (Some user) (Some a) c users (length added)))
      | a # _ \<Rightarrow> Inr (result_of i Regeneration_ambiguous Regeneration_siblings target (Some user)
                      (Some a) None users (length added)))"

definition fresh_unknown :: "ownership_turn \<Rightarrow> ownership_reason" where
  "fresh_unknown a = (if tn_state a = None then Assistant_state_unknown
     else if tn_parentStableId a = None then Stable_parent_identity_unavailable
     else if tn_branchStableId a = None then Stable_branch_identity_unavailable
     else Terminal_state_mismatch)"

definition classifyFreshOwnedUser ::
  "ownership_input \<Rightarrow> target_check \<Rightarrow> ownership_turn \<Rightarrow> delta_analysis \<Rightarrow> classification res" where
  "classifyFreshOwnedUser i target user assistants =
     classify_children i target user (da_added assistants) 1 fresh_unknown"

definition prior_unknown :: "ownership_turn \<Rightarrow> ownership_reason" where
  "prior_unknown a = (if tn_state a = None then Assistant_state_unknown else Terminal_state_mismatch)"

text \<open>The branch of \<open>classifyWithPrior\<close> for a cursor that already names an assistant turn.\<close>

definition classify_prior_assistant :: "ownership_input \<Rightarrow> target_check \<Rightarrow> ownership_turn
    \<Rightarrow> ownership_turn list \<Rightarrow> ownership_cursor \<Rightarrow> nat \<Rightarrow> classification res" where
  "classify_prior_assistant i target user added prior users =
     (let b = in_binding i; s = in_snapshot i; n = length added;
          unexpected = filter (\<lambda>t. tn_stableId t \<noteq> cu_assistantTurnId prior) added in
      case find (\<lambda>t. tn_stableId t = cu_assistantTurnId prior) (sn_assistantTurns s) of
        None \<Rightarrow> Inr (result_of i Ownership_ambiguous Prior_owned_turn_missing target (Some user) None None users n)
      | Some owned \<Rightarrow>
        if unexpected \<noteq> [] then
          Inr (result_of i Regeneration_ambiguous Regeneration_siblings target (Some user)
                 (Some (hd unexpected)) None users n)
        else if tn_parentStableId owned \<noteq> tn_stableId user
            \<or> tn_branchStableId owned \<noteq> cu_assistantBranchId prior then
          Inr (result_of i Ownership_ambiguous Stable_parent_identity_unavailable target (Some user)
                 (Some owned) None users n)
        else if cu_phase prior = Cursor_terminal \<and> (tn_state owned \<noteq> Some Turn_terminal
            \<or> Some (tn_evidenceDigest owned) \<noteq> cu_assistantEvidenceDigest prior
            \<or> Some (tn_structureDigest owned) \<noteq> cu_assistantStructureDigest prior) then
          Inr (result_of i Ownership_ambiguous Prior_owned_turn_changed target (Some user) (Some owned) None users n)
        else case assistantPhase b s owned of
          None \<Rightarrow> Inr (result_of i Ownership_ambiguous Terminal_state_mismatch target (Some user)
                        (Some owned) None users n)
        | Some p \<Rightarrow> with_cursor (makeCursor b user (Some owned) p (sn_snapshotDigest s))
            (\<lambda>c. result_of i (status_of_phase p) No_reason target (Some user) (Some owned) c users n))"

definition classifyWithPrior :: "ownership_input \<Rightarrow> target_check \<Rightarrow> delta_analysis \<Rightarrow> delta_analysis
    \<Rightarrow> ownership_cursor \<Rightarrow> classification res" where
  "classifyWithPrior i target users assistants prior =
     (let b = in_binding i; s = in_snapshot i; n = length (da_added users); m = length (da_added assistants) in
      if cu_operationId prior \<noteq> bd_operationId b \<or> cu_targetBindingDigest prior \<noteq> bd_targetBindingDigest b then
        Inr (result_of i Ownership_ambiguous Prior_cursor_mismatch target None None None n m)
      else case find (\<lambda>t. tn_stableId t = Some (cu_userTurnId prior)) (sn_userTurns s) of
        None \<Rightarrow> Inr (result_of i Ownership_ambiguous Prior_owned_turn_missing target None None None n m)
      | Some user \<Rightarrow>
        if tn_evidenceDigest user \<noteq> cu_userTurnEvidenceDigest prior then
          Inr (result_of i Ownership_ambiguous Prior_owned_turn_changed target (Some user) None None n m)
        else if n \<noteq> 1 \<or> tn_stableId (hd (da_added users)) \<noteq> Some (cu_userTurnId prior) then
          Inr (result_of i Concurrent_user_turn Multiple_new_user_turns target (Some user) None None n m)
        else if tc_status target = Replacement \<and> \<not> hasStableConversationAndClaim b s then
          Inr (result_of i Target_evidence_unavailable Target_evidence_missing target (Some user) None None n m)
        else if cu_phase prior \<noteq> Cursor_user then
          classify_prior_assistant i target user (da_added assistants) prior n
        else classify_children i target user (da_added assistants) n prior_unknown)"

text \<open>After both deltas are valid and without a prior cursor.\<close>

definition classify_fresh :: "ownership_input \<Rightarrow> target_check \<Rightarrow> delta_analysis \<Rightarrow> delta_analysis
    \<Rightarrow> classification res" where
  "classify_fresh i target users assistants =
     (let n = length (da_added users); m = length (da_added assistants);
          first_assistant = (case da_added assistants of [] \<Rightarrow> None | a # _ \<Rightarrow> Some a) in
      if tc_status target = Replacement \<and> n = 0 then
        Inr (result_of i Target_mismatched Replacement_tab_requires_owned_user target None None None n m)
      else if da_intervening users then
        Inr (result_of i Concurrent_user_turn Intervening_user_turn target
               (case da_added users of [] \<Rightarrow> None | u # _ \<Rightarrow> Some u) None None n m)
      else case da_added users of
        [] \<Rightarrow>
          if (case sn_postSendDelta (in_snapshot i) of None \<Rightarrow> False
              | Some d \<Rightarrow> dl_baselineSnapshotDigest d \<noteq> bl_snapshotDigest (in_baseline i)
                  \<or> dl_addedUserEvidenceDigests d \<noteq> []) then
            Inr (result_of i Ownership_ambiguous Post_send_delta_mismatch target None first_assistant None 0 m)
          else if m > 0 then
            Inr (result_of i Ownership_ambiguous Unexpected_new_assistant_turn target None first_assistant None 0 m)
          else Inr (result_of i No_operation_turn No_reason target None None None 0 0)
      | [user] \<Rightarrow> (case proveSubmittedUser i user of
            Some (st, reason) \<Rightarrow> Inr (result_of i st reason target (Some user) first_assistant None n m)
          | None \<Rightarrow> classifyFreshOwnedUser i target user assistants)
      | user # _ \<Rightarrow> Inr (result_of i Concurrent_user_turn Multiple_new_user_turns target (Some user) None None n m))"

definition classifyTurnOwnership :: "url_parser \<Rightarrow> ownership_input \<Rightarrow> classification res" where
  "classifyTurnOwnership U i = (case validateInput U i of
     Some e \<Rightarrow> Inl e
   | None \<Rightarrow>
     (let b = in_binding i; s = in_snapshot i;
          target = compareBindingToBaselineTarget b (in_baseline i) (in_submissionWitness i);
          fresh = compareBindingToTarget b (sn_target s);
          users = analyzeDelta (bl_userTurns (in_baseline i)) (sn_userTurns s);
          assistants = analyzeDelta (bl_assistantTurns (in_baseline i)) (sn_assistantTurns s);
          n = length (da_added users); m = length (da_added assistants) in
      if tc_status target = Mismatch \<or> tc_status target = Replacement then
        Inr (result_of i Target_mismatched Baseline_target_mismatch target None None None 0 0)
      else if tc_status target = Unavailable_target then
        Inr (result_of i Target_evidence_unavailable Target_evidence_missing target None None None 0 0)
      else if tc_status fresh = Mismatch then
        Inr (result_of i Target_mismatched Target_binding_mismatch fresh None None None 0 0)
      else if tc_status fresh = Unavailable_target then
        Inr (result_of i Target_evidence_unavailable Target_evidence_missing fresh None None None 0 0)
      else if sn_completeness s \<noteq> Complete then
        Inr (result_of i Ownership_ambiguous
          (if sn_completeness s = Out_of_order then Out_of_order_snapshot else Incomplete_snapshot)
          fresh None None None 0 0)
      else case (da_reason users, da_reason assistants, in_prior i) of
        (Some r, _, _) \<Rightarrow> Inr (result_of i Ownership_ambiguous r fresh None None None n m)
      | (None, Some r, _) \<Rightarrow> Inr (result_of i Ownership_ambiguous r fresh None None None n m)
      | (None, None, Some prior) \<Rightarrow> classifyWithPrior i fresh users assistants prior
      | (None, None, None) \<Rightarrow> classify_fresh i fresh users assistants))"

end
