(* ===== verification/Turn_Facts.thy ===== *)
theory Turn_Facts
  imports Turn_Classifier
begin

text \<open>
  Lemmas on the classifier: what validation says of a list of turns, what a valid delta says
  of the two snapshots, and which conditions an owned classification rests on.
\<close>

section \<open>Validated turns\<close>

definition turn_ok :: "turn_kind \<Rightarrow> ownership_turn \<Rightarrow> bool" where
  "turn_ok kind t \<longleftrightarrow> is_ownership_digest (tn_evidenceDigest t) \<and> is_ownership_digest (tn_structureDigest t) \<and>
     (\<forall>s. tn_stableId t = Some s \<longrightarrow> is_identifier s) \<and>
     (\<forall>s. tn_parentStableId t = Some s \<longrightarrow> is_identifier s) \<and>
     (\<forall>s. tn_branchStableId t = Some s \<longrightarrow> is_identifier s) \<and>
     (kind = User_turn \<longrightarrow> tn_state t = None) \<and>
     (kind = Assistant_turn \<longrightarrow> tn_state t = Some Turn_generating \<or> tn_state t = Some Turn_terminal)"

definition seen_keys :: "string list \<Rightarrow> string list \<Rightarrow> string set" where
  "seen_keys stableIds evidence = (\<lambda>s. ''i:'' @ s) ` set stableIds \<union> (\<lambda>e. ''e:'' @ e) ` set evidence"

lemma turn_check_None:
  assumes "turn_check kind label i sids evs t = None"
  shows "turn_ok kind t" "turnIdentityKey t \<notin> seen_keys sids evs" "tn_ordinal t = int i"
  using assms
  by (auto simp: turn_check_def turn_ok_def seen_keys_def turnIdentityKey_def split: option.splits)

lemma turns_loop_None:
  "turns_loop kind label i sids evs ts = None \<Longrightarrow>
     (\<forall>t\<in>set ts. turn_ok kind t \<and> turnIdentityKey t \<notin> seen_keys sids evs) \<and> distinct (map turnIdentityKey ts)"
proof (induction ts arbitrary: i sids evs)
  case (Cons t ts)
  let ?sids = "case tn_stableId t of None \<Rightarrow> sids | Some s \<Rightarrow> s # sids"
  let ?evs = "case tn_stableId t of None \<Rightarrow> tn_evidenceDigest t # evs | Some _ \<Rightarrow> evs"
  from Cons.prems have t: "turn_check kind label i sids evs t = None"
    and ts: "turns_loop kind label (Suc i) ?sids ?evs ts = None"
    by (auto split: option.splits)
  have keys: "seen_keys ?sids ?evs = insert (turnIdentityKey t) (seen_keys sids evs)"
    by (cases "tn_stableId t") (auto simp: seen_keys_def turnIdentityKey_def)
  show ?case using Cons.IH [OF ts] turn_check_None [OF t] by (auto simp: keys)
qed simp

lemma validateTurns_None:
  assumes "validateTurns ts kind label = None"
  shows "distinct (map turnIdentityKey ts)" "t \<in> set ts \<Longrightarrow> turn_ok kind t"
  using assms turns_loop_None [of kind label 0 "[]" "[]" ts] by (auto simp: validateTurns_def)

text \<open>A stable id names at most one validated turn.\<close>

lemma find_stable:
  assumes "distinct (map turnIdentityKey ts)" "t \<in> set ts" "tn_stableId t = Some s"
  shows "find (\<lambda>x. tn_stableId x = Some s) ts = Some t"
  using assms
proof (induction ts)
  case (Cons x xs)
  then show ?case by (auto simp: turnIdentityKey_def split: option.splits) force+
qed simp

section \<open>The delta\<close>

definition same_turn :: "ownership_turn \<Rightarrow> ownership_turn \<Rightarrow> bool" where
  "same_turn p t \<longleftrightarrow> turnIdentityKey t = turnIdentityKey p \<and> tn_evidenceDigest t = tn_evidenceDigest p
     \<and> tn_structureDigest t = tn_structureDigest p"

lemma fresh_by_identity_SomeD:
  "fresh_by_identity fresh k = Some (i, t) \<Longrightarrow> i < length fresh \<and> t = fresh ! i \<and> turnIdentityKey t = k"
  by (auto simp: fresh_by_identity_def in_set_enumerate_eq dest!: map_of_SomeD)

lemma fresh_by_identity_nth:
  assumes "distinct (map turnIdentityKey fresh)" "i < length fresh"
  shows "fresh_by_identity fresh (turnIdentityKey (fresh ! i)) = Some (i, fresh ! i)"
proof -
  let ?xs = "map (\<lambda>(i, t). (turnIdentityKey t, (i, t))) (List.enumerate 0 fresh)"
  have "map fst ?xs = map turnIdentityKey fresh"
    by (simp add: comp_def case_prod_unfold flip: map_map [of turnIdentityKey snd, unfolded comp_def])
  then have "distinct (map fst (rev ?xs))" using assms(1) by (simp add: rev_map [symmetric])
  moreover have "(turnIdentityKey (fresh ! i), (i, fresh ! i)) \<in> set (rev ?xs)"
    using assms(2) by (force simp: in_set_enumerate_eq)
  ultimately show ?thesis unfolding fresh_by_identity_def by (rule map_of_is_SomeI)
qed

lemma match_baseline_Inr:
  "match_baseline (fresh_by_identity fresh) ks ps = Inr ks' \<Longrightarrow>
     \<exists>is. ks' = ks @ is \<and> list_all2 (\<lambda>p i. i < length fresh \<and> same_turn p (fresh ! i)) ps is"
proof (induction ps arbitrary: ks)
  case (Cons p ps)
  then obtain i t where m: "fresh_by_identity fresh (turnIdentityKey p) = Some (i, t)"
    and rest: "match_baseline (fresh_by_identity fresh) (ks @ [i]) ps = Inr ks'"
    and e: "tn_evidenceDigest p = tn_evidenceDigest t" "tn_structureDigest p = tn_structureDigest t"
    by (auto split: option.splits if_splits)
  from fresh_by_identity_SomeD [OF m] e have "i < length fresh" "same_turn p (fresh ! i)"
    by (auto simp: same_turn_def)
  with Cons.IH [OF rest] show ?case by auto
qed simp

lemma increasing_sorted: "increasing is \<longleftrightarrow> sorted_wrt (<) is"
  by (induction "is" rule: increasing.induct) (auto dest: order.strict_trans)

lemma upt_shift: "[i..<Suc (i + k)] = i # [Suc i..<Suc (i + k)]"
  by (simp add: upt_rec del: upt_Suc)

lemma added_loop_clean:
  "added_loop f rest i ts = (added, False) \<Longrightarrow> sorted_wrt (<) rest \<Longrightarrow> (\<forall>b\<in>set rest. i \<le> b \<and> b < i + length ts) \<Longrightarrow>
     rest = [i..<i + length rest] \<and> added = drop (length rest) ts"
proof (induction ts arbitrary: rest i added)
  case (Cons t ts)
  show ?case
  proof (cases rest)
    case Nil
    with Cons.prems(1) obtain added' where "added_loop f [] (Suc i) ts = (added', False)" "added = t # added'"
      by (auto split: prod.splits)
    with Cons.IH [of "[]" "Suc i" added'] Nil show ?thesis by simp
  next
    case (Cons b bs)
    have b: "b = i"
    proof (rule ccontr)
      assume "b \<noteq> i"
      then have "i < b" using Cons.prems(3) Cons by fastforce
      with Cons.prems(1) Cons show False by (auto split: prod.splits)
    qed
    have "added_loop f bs (Suc i) ts = (added, False)" using Cons.prems(1) Cons b by simp
    moreover have "sorted_wrt (<) bs" using Cons.prems(2) Cons by simp
    moreover have "\<forall>x\<in>set bs. Suc i \<le> x \<and> x < Suc i + length ts" using Cons.prems(2,3) Cons b by fastforce
    ultimately have "bs = [Suc i..<Suc i + length bs] \<and> added = drop (length bs) ts" by (rule Cons.IH)
    with b Cons show ?thesis using upt_shift [of i "length bs"] by (simp del: upt_Suc)
  qed
next
  case Nil
  then have "rest = []" by (cases rest) auto
  with Nil show ?case by simp
qed


lemma length_added:
  "added_loop f rest i ts = (added, iv) \<Longrightarrow> set added \<subseteq> set ts"
proof (induction ts arbitrary: rest i added iv)
  case (Cons t ts)
  then show ?case by (auto split: list.splits if_splits prod.splits) blast+
qed simp

lemma added_loop_prefix:
  "n \<le> length ts \<Longrightarrow> (\<forall>f0. f = Some f0 \<longrightarrow> f0 \<le> i) \<Longrightarrow> added_loop f [i..<i + n] i ts = (drop n ts, False)"
proof (induction ts arbitrary: i n)
  case (Cons t ts)
  show ?case
  proof (cases n)
    case 0
    have "added_loop f [] (Suc i) ts = (ts, False)"
      using Cons.IH [of 0 "Suc i"] Cons.prems(2) by fastforce
    with 0 Cons.prems(2) show ?thesis by (auto split: option.splits)
  next
    case (Suc k)
    have "added_loop f [Suc i..<Suc i + k] (Suc i) ts = (drop k ts, False)"
      using Cons.IH [of k "Suc i"] Cons.prems Suc by fastforce
    with Suc show ?thesis by (simp add: upt_shift del: upt_Suc)
  qed
qed simp

lemma match_baseline_prefix:
  assumes "distinct (map turnIdentityKey fresh)" "list_all2 same_turn ps (take (length ps) (drop n fresh))"
    "n + length ps \<le> length fresh"
  shows "match_baseline (fresh_by_identity fresh) [0..<n] ps = Inr [0..<n + length ps]"
  using assms(2,3)
proof (induction ps arbitrary: n)
  case (Cons p ps)
  then have d: "drop n fresh = fresh ! n # drop (Suc n) fresh" by (simp add: Cons_nth_drop_Suc)
  have s: "same_turn p (fresh ! n)" and r: "list_all2 same_turn ps (take (length ps) (drop (Suc n) fresh))"
    using Cons.prems(1) by (simp_all add: d)
  have m: "fresh_by_identity fresh (turnIdentityKey p) = Some (n, fresh ! n)"
    using fresh_by_identity_nth [OF assms(1), of n] s Cons.prems(2) by (simp add: same_turn_def)
  have "match_baseline (fresh_by_identity fresh) [0..<Suc n] ps = Inr [0..<Suc n + length ps]"
    using Cons.IH [OF r] Cons.prems(2) by simp
  with m s show ?case by (simp add: same_turn_def)
qed simp

lemma analyzeDelta_append:
  assumes "distinct (map turnIdentityKey (kept @ extra))" "list_all2 same_turn baseline kept"
  shows "analyzeDelta baseline (kept @ extra) = \<lparr>da_reason = None, da_added = extra, da_intervening = False\<rparr>"
proof -
  let ?n = "length baseline"
  have n: "length kept = ?n" using assms(2) by (simp add: list_all2_lengthD)
  have "match_baseline (fresh_by_identity (kept @ extra)) [0..<0] baseline = Inr [0..<0 + ?n]"
    using assms n by (intro match_baseline_prefix) simp_all
  moreover have "increasing [0..<?n]" by (simp add: increasing_sorted)
  moreover have "added_loop (case [0..<?n] of [] \<Rightarrow> None | f # _ \<Rightarrow> Some f) [0..<0 + ?n] 0 (kept @ extra)
      = (drop ?n (kept @ extra), False)"
    using n by (intro added_loop_prefix) (auto simp: upt_eq_Cons_conv split: list.splits)
  ultimately show ?thesis by (simp add: analyzeDelta_def n [symmetric])
qed

lemma analyzeDelta_clean:
  assumes "da_reason (analyzeDelta baseline fresh) = None" "\<not> da_intervening (analyzeDelta baseline fresh)"
  obtains kept where "fresh = kept @ da_added (analyzeDelta baseline fresh)" "list_all2 same_turn baseline kept"
proof -
  obtain ks where m: "match_baseline (fresh_by_identity fresh) [] baseline = Inr ks"
    and inc: "sorted_wrt (<) ks"
    using assms(1) by (auto simp: analyzeDelta_def increasing_sorted split: sum.splits if_splits prod.splits)
  obtain added iv where l: "added_loop (case ks of [] \<Rightarrow> None | f # _ \<Rightarrow> Some f) ks 0 fresh = (added, iv)"
    by fastforce
  then have a: "analyzeDelta baseline fresh = \<lparr>da_reason = None, da_added = added, da_intervening = iv\<rparr>"
    using m inc by (simp add: analyzeDelta_def increasing_sorted)
  have ks: "list_all2 (\<lambda>p i. i < length fresh \<and> same_turn p (fresh ! i)) baseline ks"
    using match_baseline_Inr [OF m] by simp
  then have n: "length ks = length baseline"
    and nth: "\<forall>j<length baseline. ks ! j < length fresh \<and> same_turn (baseline ! j) (fresh ! (ks ! j))"
    by (simp_all add: list_all2_conv_all_nth)
  have bound: "\<forall>b\<in>set ks. b < length fresh" using nth n by (metis in_set_conv_nth)
  have "ks = [0..<0 + length ks] \<and> added = drop (length ks) fresh"
    using l assms(2) inc bound by (intro added_loop_clean) (simp_all add: a)
  then have e: "ks = [0..<length baseline]" "added = drop (length baseline) fresh" using n by simp_all
  have "length baseline \<le> length fresh"
    by (rule ccontr) (use bound e(1) in force)
  then have "list_all2 same_turn baseline (take (length baseline) fresh)"
    using nth e(1) by (simp add: list_all2_conv_all_nth)
  moreover have "fresh = take (length baseline) fresh @ da_added (analyzeDelta baseline fresh)"
    by (simp add: a e(2))
  ultimately show thesis using that by blast
qed

lemma da_added_subset: "set (da_added (analyzeDelta baseline fresh)) \<subseteq> set fresh"
proof (cases "match_baseline (fresh_by_identity fresh) [] baseline")
  case (Inr ks)
  obtain added iv where l: "added_loop (case ks of [] \<Rightarrow> None | f # _ \<Rightarrow> Some f) ks 0 fresh = (added, iv)"
    by fastforce
  with length_added [OF l] Inr show ?thesis by (simp add: analyzeDelta_def)
qed (simp add: analyzeDelta_def)

section \<open>Owned classifications\<close>

definition owned_status :: "result_status \<Rightarrow> bool" where
  "owned_status st \<longleftrightarrow> st \<in> {Owned_user, Owned_generating, Owned_terminal}"

lemma result_of_fields [simp]:
  "cl_status (result_of i st r t u a c n m) = st"
  "cl_reason (result_of i st r t u a c n m) = r"
  "cl_cursor (result_of i st r t u a c n m) = c"
  "cl_recoveryObservation (result_of i st r t u a c n m)
     = recovery_observation_of st u a (sn_snapshotDigest (in_snapshot i))"
  by (simp_all add: result_of_def)

lemma with_cursor_Inr [res_simps]: "with_cursor r f = Inr c \<longleftrightarrow> (\<exists>x. r = Inr x \<and> c = f x)"
  by (auto simp: with_cursor_def bind_res_Inr)

lemma owned_status_not [simp]:
  "\<not> owned_status No_operation_turn" "\<not> owned_status Target_mismatched" "\<not> owned_status Target_evidence_unavailable"
  "\<not> owned_status Concurrent_user_turn" "\<not> owned_status Regeneration_ambiguous" "\<not> owned_status Ownership_ambiguous"
  "owned_status Owned_user" "owned_status Owned_generating" "owned_status Owned_terminal"
  by (simp_all add: owned_status_def)

lemma status_of_phase_owned [simp]: "owned_status (status_of_phase p)"
  by (cases p) (simp_all add: status_of_phase_def)

text \<open>The conditions under which one assistant turn is the owned one.\<close>

definition owned_assistant :: "ownership_input \<Rightarrow> ownership_turn \<Rightarrow> ownership_turn \<Rightarrow> cursor_phase \<Rightarrow> bool" where
  "owned_assistant i user a p \<longleftrightarrow>
     tn_parentStableId a = tn_stableId user \<and> tn_parentStableId a \<noteq> None \<and>
     tn_stableId a \<noteq> None \<and> tn_branchStableId a \<noteq> None \<and>
     (p = Cursor_generating \<and> tn_state a = Some Turn_generating \<and> sn_terminalState (in_snapshot i) = Generating_now
      \<or> p = Cursor_terminal \<and> tn_state a \<notin> {None, Some Turn_generating} \<and> sn_terminalState (in_snapshot i) = Terminal)"

lemma assistantPhase_Some:
  "assistantPhase b s a = Some p \<Longrightarrow>
     tn_stableId a \<noteq> None \<and> tn_branchStableId a \<noteq> None \<and> tn_parentStableId a \<noteq> None \<and>
     (p = Cursor_generating \<and> tn_state a = Some Turn_generating \<and> sn_terminalState s = Generating_now
      \<or> p = Cursor_terminal \<and> tn_state a \<notin> {None, Some Turn_generating} \<and> sn_terminalState s = Terminal)"
  by (auto simp: assistantPhase_def split: option.splits if_splits)

lemma filter_split: "filter (\<lambda>x. \<not> P x) xs = [] \<Longrightarrow> filter P xs = xs"
  by (induction xs) (auto split: if_splits)

lemma classify_children_owned:
  assumes "classify_children i target user added n unknown = Inr c" "owned_status (cl_status c)"
  obtains (user) x where "added = []" "sn_terminalState (in_snapshot i) \<noteq> Terminal"
      "makeCursor (in_binding i) user None Cursor_user (sn_snapshotDigest (in_snapshot i)) = Inr x"
      "c = result_of i Owned_user No_reason target (Some user) None x n 0"
  | (assistant) a p x where "added = [a]" "owned_assistant i user a p"
      "assistantPhase (in_binding i) (in_snapshot i) a = Some p"
      "makeCursor (in_binding i) user (Some a) p (sn_snapshotDigest (in_snapshot i)) = Inr x"
      "c = result_of i (status_of_phase p) No_reason target (Some user) (Some a) x n 1"
proof -
  let ?P = "\<lambda>t. tn_parentStableId t = tn_stableId user"
  have u: "filter (\<lambda>t. \<not> ?P t) added = []"
    using assms by (auto simp: classify_children_def Let_def split: if_splits)
  then have f: "filter ?P added = added" by (rule filter_split)
  show thesis
  proof (cases added)
    case Nil
    with assms user show thesis
      by (auto simp: classify_children_def Let_def with_cursor_Inr split: if_splits)
  next
    case (Cons a as)
    have p: "?P a" using u Cons by (cases "?P a") simp_all
    have as: "as = []"
    proof (rule ccontr)
      assume "as \<noteq> []"
      then obtain a' as' where "as = a' # as'" by (cases as) auto
      then show False using assms f u Cons p by (simp add: classify_children_def) auto
    qed
    show thesis
    proof (cases "assistantPhase (in_binding i) (in_snapshot i) a")
      case None
      then show thesis using assms u p Cons as by (simp add: classify_children_def) auto
    next
      case (Some q)
      have o: "owned_assistant i user a q" using assistantPhase_Some [OF Some] p by (simp add: owned_assistant_def)
      from assms(1) obtain x where "makeCursor (in_binding i) user (Some a) q (sn_snapshotDigest (in_snapshot i)) = Inr x"
        "c = result_of i (status_of_phase q) No_reason target (Some user) (Some a) x n 1"
        using u p Cons as Some by (auto simp: classify_children_def with_cursor_Inr)
      with assistant Cons as o Some show thesis by simp
    qed
  qed
qed

text \<open>What \<open>proveSubmittedUser\<close> demands.\<close>

definition submitted_proof :: "ownership_input \<Rightarrow> ownership_turn \<Rightarrow> bool" where
  "submitted_proof i user \<longleftrightarrow> tn_stableId user \<noteq> None \<and>
     (\<exists>w d. in_submissionWitness i = Some w \<and> sn_postSendDelta (in_snapshot i) = Some d \<and>
        ow_actionId w = bd_actionId (in_binding i) \<and> ow_actionKind w = bd_actionKind (in_binding i) \<and>
        ow_baselineSnapshotDigest w = bl_snapshotDigest (in_baseline i) \<and>
        dl_baselineSnapshotDigest d = bl_snapshotDigest (in_baseline i) \<and>
        dl_deltaDigest d = ow_postSendDeltaDigest w \<and>
        dl_addedUserEvidenceDigests d = [tn_evidenceDigest user] \<and>
        tn_evidenceDigest user = ow_operationUserEvidenceDigest w \<and>
        (ow_userTurnStableId w = None \<or> ow_userTurnStableId w = tn_stableId user))"

lemma proveSubmittedUser_None: "proveSubmittedUser i user = None \<Longrightarrow> submitted_proof i user"
  by (auto simp: proveSubmittedUser_def submitted_proof_def split: option.splits if_splits)

lemma proveSubmittedUser_status: "proveSubmittedUser i user = Some (st, r) \<Longrightarrow> \<not> owned_status st"
  by (auto simp: proveSubmittedUser_def split: option.splits if_splits)

section \<open>The guards in front of the classification\<close>

definition observed_target :: "ownership_input \<Rightarrow> target_check" where
  "observed_target i = compareBindingToTarget (in_binding i) (sn_target (in_snapshot i))"

definition user_delta :: "ownership_input \<Rightarrow> delta_analysis" where
  "user_delta i = analyzeDelta (bl_userTurns (in_baseline i)) (sn_userTurns (in_snapshot i))"

definition assistant_delta :: "ownership_input \<Rightarrow> delta_analysis" where
  "assistant_delta i = analyzeDelta (bl_assistantTurns (in_baseline i)) (sn_assistantTurns (in_snapshot i))"

definition classifiable :: "url_parser \<Rightarrow> ownership_input \<Rightarrow> bool" where
  "classifiable U i \<longleftrightarrow> validateInput U i = None \<and>
     tc_status (compareBindingToBaselineTarget (in_binding i) (in_baseline i) (in_submissionWitness i)) = Match \<and>
     tc_status (observed_target i) \<in> {Match, Replacement} \<and> sn_completeness (in_snapshot i) = Complete \<and>
     da_reason (user_delta i) = None \<and> da_reason (assistant_delta i) = None"

definition classify_live :: "ownership_input \<Rightarrow> classification res" where
  "classify_live i = (case in_prior i of
     None \<Rightarrow> classify_fresh i (observed_target i) (user_delta i) (assistant_delta i)
   | Some p \<Rightarrow> classifyWithPrior i (observed_target i) (user_delta i) (assistant_delta i) p)"

lemma check_status_cases: "x = Match \<or> x = Mismatch \<or> x = Unavailable_target \<or> x = Replacement"
  by (cases x) simp_all

lemma classify_classifiable: "classifiable U i \<Longrightarrow> classifyTurnOwnership U i = classify_live i"
  by (auto simp: classifiable_def classifyTurnOwnership_def classify_live_def observed_target_def
      user_delta_def assistant_delta_def Let_def split: option.splits)

lemma classify_not_classifiable:
  assumes "\<not> classifiable U i" "validateInput U i = None"
  obtains st r t n m where "classifyTurnOwnership U i = Inr (result_of i st r t None None None n m)"
    "\<not> owned_status st" "st \<noteq> No_operation_turn"
proof -
  let ?base = "compareBindingToBaselineTarget (in_binding i) (in_baseline i) (in_submissionWitness i)"
  have u: "classifyTurnOwnership U i =
    (if tc_status ?base = Mismatch \<or> tc_status ?base = Replacement then
        Inr (result_of i Target_mismatched Baseline_target_mismatch ?base None None None 0 0)
      else if tc_status ?base = Unavailable_target then
        Inr (result_of i Target_evidence_unavailable Target_evidence_missing ?base None None None 0 0)
      else if tc_status (observed_target i) = Mismatch then
        Inr (result_of i Target_mismatched Target_binding_mismatch (observed_target i) None None None 0 0)
      else if tc_status (observed_target i) = Unavailable_target then
        Inr (result_of i Target_evidence_unavailable Target_evidence_missing (observed_target i) None None None 0 0)
      else if sn_completeness (in_snapshot i) \<noteq> Complete then
        Inr (result_of i Ownership_ambiguous
          (if sn_completeness (in_snapshot i) = Out_of_order then Out_of_order_snapshot else Incomplete_snapshot)
          (observed_target i) None None None 0 0)
      else case (da_reason (user_delta i), da_reason (assistant_delta i)) of
        (Some r, _) \<Rightarrow> Inr (result_of i Ownership_ambiguous r (observed_target i) None None None
           (length (da_added (user_delta i))) (length (da_added (assistant_delta i))))
      | (None, Some r) \<Rightarrow> Inr (result_of i Ownership_ambiguous r (observed_target i) None None None
           (length (da_added (user_delta i))) (length (da_added (assistant_delta i))))
      | (None, None) \<Rightarrow> classify_live i)"
    using assms(2) by (simp add: classifyTurnOwnership_def Let_def observed_target_def [symmetric]
        user_delta_def [symmetric] assistant_delta_def [symmetric] classify_live_def split: option.splits)
  show thesis
    using assms u check_status_cases [of "tc_status ?base"] check_status_cases [of "tc_status (observed_target i)"]
    by (auto simp: classifiable_def split: if_splits option.splits intro: that)
qed

text \<open>The parts of a validated input.\<close>

lemma validateInput_None:
  assumes "validateInput U i = None"
  shows "is_identifier (bd_operationId (in_binding i))" "is_ownership_digest (bd_targetBindingDigest (in_binding i))"
    "is_ownership_digest (sn_snapshotDigest (in_snapshot i))"
    "t \<in> set (sn_userTurns (in_snapshot i)) \<Longrightarrow> turn_ok User_turn t"
    "t \<in> set (sn_assistantTurns (in_snapshot i)) \<Longrightarrow> turn_ok Assistant_turn t"
    "distinct (map turnIdentityKey (sn_userTurns (in_snapshot i)))"
    "distinct (map turnIdentityKey (sn_assistantTurns (in_snapshot i)))"
proof -
  have b: "validateBinding U (in_binding i) = None" and s: "validateSnapshot U (in_snapshot i) = None"
    using assms by (simp_all add: validateInput_def)
  show "is_identifier (bd_operationId (in_binding i))" "is_ownership_digest (bd_targetBindingDigest (in_binding i))"
    using b by (simp_all add: validateBinding_def Let_def)
  show "is_ownership_digest (sn_snapshotDigest (in_snapshot i))" using s by (simp add: validateSnapshot_def)
  have u: "validateTurns (sn_userTurns (in_snapshot i)) User_turn ''snapshot.userTurns'' = None"
    and a: "validateTurns (sn_assistantTurns (in_snapshot i)) Assistant_turn ''snapshot.assistantTurns'' = None"
    using s by (simp_all add: validateSnapshot_def)
  show "distinct (map turnIdentityKey (sn_userTurns (in_snapshot i)))"
    "distinct (map turnIdentityKey (sn_assistantTurns (in_snapshot i)))"
    "t \<in> set (sn_userTurns (in_snapshot i)) \<Longrightarrow> turn_ok User_turn t"
    "t \<in> set (sn_assistantTurns (in_snapshot i)) \<Longrightarrow> turn_ok Assistant_turn t"
    using validateTurns_None [OF u] validateTurns_None [OF a] by blast+
qed

section \<open>Cursors\<close>

definition cursor_of :: "ownership_binding \<Rightarrow> ownership_turn \<Rightarrow> string \<Rightarrow> ownership_turn option \<Rightarrow> cursor_phase
    \<Rightarrow> string \<Rightarrow> ownership_cursor" where
  "cursor_of b user u assistant phase digest =
     \<lparr>cu_schemaVersion = TURN_OWNERSHIP_SCHEMA_VERSION, cu_operationId = bd_operationId b,
      cu_targetBindingDigest = bd_targetBindingDigest b, cu_phase = phase, cu_userTurnId = u,
      cu_userTurnEvidenceDigest = tn_evidenceDigest user,
      cu_assistantTurnId = Option.bind assistant tn_stableId,
      cu_assistantBranchId = Option.bind assistant tn_branchStableId, cu_snapshotDigest = digest,
      cu_assistantEvidenceDigest = map_option tn_evidenceDigest assistant,
      cu_assistantStructureDigest = map_option tn_structureDigest assistant\<rparr>"

lemma makeCursor_Some:
  assumes "makeCursor b user assistant phase digest = Inr (Some c)"
  obtains u where "tn_stableId user = Some u" "c = cursor_of b user u assistant phase digest"
    "validateOwnershipCursor c = None"
  using assms by (auto simp: makeCursor_def cursor_of_def Let_def split: option.splits if_splits)

lemma makeCursor_user:
  assumes "is_identifier (bd_operationId b)" "is_ownership_digest (bd_targetBindingDigest b)"
    "is_ownership_digest digest" "turn_ok User_turn user" "tn_stableId user = Some u"
  shows "makeCursor b user None Cursor_user digest = Inr (Some (cursor_of b user u None Cursor_user digest))"
  using assms by (simp add: makeCursor_def cursor_of_def Let_def validateOwnershipCursor_def turn_ok_def)

lemma makeCursor_assistant:
  assumes "is_identifier (bd_operationId b)" "is_ownership_digest (bd_targetBindingDigest b)"
    "is_ownership_digest digest" "turn_ok User_turn user" "tn_stableId user = Some u"
    "turn_ok Assistant_turn a" "assistantPhase b s a = Some p"
  shows "makeCursor b user (Some a) p digest = Inr (Some (cursor_of b user u (Some a) p digest))"
  using assms assistantPhase_Some [OF assms(7)]
  by (auto simp: makeCursor_def cursor_of_def Let_def validateOwnershipCursor_def turn_ok_def)

section \<open>The live classification\<close>

lemma classify_fresh_owned:
  assumes "classify_fresh i target users assistants = Inr c" "owned_status (cl_status c)"
  obtains user where "\<not> da_intervening users" "da_added users = [user]" "submitted_proof i user"
    "classify_children i target user (da_added assistants) 1 fresh_unknown = Inr c"
proof -
  have iv: "\<not> da_intervening users"
    using assms by (auto simp: classify_fresh_def Let_def split: if_splits)
  from assms obtain user where u: "da_added users = [user]"
    by (auto simp: classify_fresh_def Let_def split: if_splits list.splits)
  with assms have p: "proveSubmittedUser i user = None"
    by (auto simp: classify_fresh_def Let_def dest: proveSubmittedUser_status split: if_splits option.splits)
  have "classify_children i target user (da_added assistants) 1 fresh_unknown = Inr c"
    using assms(1) iv u p by (simp add: classify_fresh_def classifyFreshOwnedUser_def)
  with iv u proveSubmittedUser_None [OF p] that show thesis by blast
qed

text \<open>What a prior cursor still has to match.\<close>

definition prior_matches :: "ownership_input \<Rightarrow> ownership_cursor \<Rightarrow> ownership_turn \<Rightarrow> bool" where
  "prior_matches i p user \<longleftrightarrow> cu_operationId p = bd_operationId (in_binding i) \<and>
     cu_targetBindingDigest p = bd_targetBindingDigest (in_binding i) \<and>
     find (\<lambda>t. tn_stableId t = Some (cu_userTurnId p)) (sn_userTurns (in_snapshot i)) = Some user \<and>
     tn_evidenceDigest user = cu_userTurnEvidenceDigest p"

lemma prior_matches_stable: "prior_matches i p user \<Longrightarrow> tn_stableId user = Some (cu_userTurnId p)"
  by (auto simp: prior_matches_def find_Some_iff)

lemma prior_matches_user:
  "prior_matches i p user \<Longrightarrow> user \<in> set (sn_userTurns (in_snapshot i))"
  by (auto simp: prior_matches_def find_Some_iff)

lemma classifyWithPrior_matches:
  assumes "prior_matches i p user" "da_added users = [user']" "tn_stableId user' = Some (cu_userTurnId p)"
    "tc_status target = Replacement \<longrightarrow> hasStableConversationAndClaim (in_binding i) (in_snapshot i)"
  shows "classifyWithPrior i target users assistants p =
     (if cu_phase p \<noteq> Cursor_user then classify_prior_assistant i target user (da_added assistants) p 1
      else classify_children i target user (da_added assistants) 1 prior_unknown)"
  using assms by (auto simp: classifyWithPrior_def prior_matches_def)

lemma classifyWithPrior_owned:
  assumes "classifyWithPrior i target users assistants p = Inr c" "owned_status (cl_status c)"
  obtains user user' where "prior_matches i p user" "da_added users = [user']"
    "tn_stableId user' = Some (cu_userTurnId p)"
    "tc_status target = Replacement \<longrightarrow> hasStableConversationAndClaim (in_binding i) (in_snapshot i)"
proof -
  have "cu_operationId p = bd_operationId (in_binding i) \<and> cu_targetBindingDigest p = bd_targetBindingDigest (in_binding i)"
    using assms by (auto simp: classifyWithPrior_def Let_def split: if_splits)
  moreover from assms calculation obtain user where
    "find (\<lambda>t. tn_stableId t = Some (cu_userTurnId p)) (sn_userTurns (in_snapshot i)) = Some user"
    by (auto simp: classifyWithPrior_def Let_def split: option.splits)
  moreover from assms calculation have "tn_evidenceDigest user = cu_userTurnEvidenceDigest p"
    by (auto simp: classifyWithPrior_def Let_def split: if_splits)
  moreover from assms calculation have
    d: "length (da_added users) = 1 \<and> tn_stableId (hd (da_added users)) = Some (cu_userTurnId p)"
    by (simp add: classifyWithPrior_def Let_def split: if_splits) auto
  moreover from assms calculation have
    "tc_status target = Replacement \<longrightarrow> hasStableConversationAndClaim (in_binding i) (in_snapshot i)"
    by (simp add: classifyWithPrior_def Let_def split: if_splits) auto
  moreover obtain user' where "da_added users = [user']" "tn_stableId user' = Some (cu_userTurnId p)"
    using d by (cases "da_added users") auto
  ultimately show thesis using that by (simp add: prior_matches_def)
qed

lemma classify_prior_assistant_owned:
  assumes "classify_prior_assistant i target user added p n = Inr c" "owned_status (cl_status c)"
  obtains a q x where "find (\<lambda>t. tn_stableId t = cu_assistantTurnId p) (sn_assistantTurns (in_snapshot i)) = Some a"
    "\<forall>t\<in>set added. tn_stableId t = cu_assistantTurnId p" "owned_assistant i user a q"
    "tn_branchStableId a = cu_assistantBranchId p"
    "cu_phase p = Cursor_terminal \<Longrightarrow> tn_state a = Some Turn_terminal \<and>
       cu_assistantEvidenceDigest p = Some (tn_evidenceDigest a) \<and>
       cu_assistantStructureDigest p = Some (tn_structureDigest a)"
    "assistantPhase (in_binding i) (in_snapshot i) a = Some q"
    "makeCursor (in_binding i) user (Some a) q (sn_snapshotDigest (in_snapshot i)) = Inr x"
    "c = result_of i (status_of_phase q) No_reason target (Some user) (Some a) x n (length added)"
proof -
  note d = classify_prior_assistant_def Let_def
  from assms obtain a where a:
    "find (\<lambda>t. tn_stableId t = cu_assistantTurnId p) (sn_assistantTurns (in_snapshot i)) = Some a"
    by (auto simp: d split: option.splits)
  have "filter (\<lambda>t. tn_stableId t \<noteq> cu_assistantTurnId p) added = []"
    using assms a by (auto simp: d split: if_splits)
  then have s: "\<forall>t\<in>set added. tn_stableId t = cu_assistantTurnId p" by (simp add: filter_empty_conv)
  have b: "tn_parentStableId a = tn_stableId user" "tn_branchStableId a = cu_assistantBranchId p"
    using assms a s by (auto simp: d split: if_splits)
  have t: "cu_phase p = Cursor_terminal \<Longrightarrow> tn_state a = Some Turn_terminal \<and>
       cu_assistantEvidenceDigest p = Some (tn_evidenceDigest a) \<and>
       cu_assistantStructureDigest p = Some (tn_structureDigest a)"
    using assms a s b by (auto simp: d split: if_splits)
  obtain q where q: "assistantPhase (in_binding i) (in_snapshot i) a = Some q"
    using assms a s b by (auto simp: d split: if_splits option.splits)
  obtain x where x: "makeCursor (in_binding i) user (Some a) q (sn_snapshotDigest (in_snapshot i)) = Inr x"
    "c = result_of i (status_of_phase q) No_reason target (Some user) (Some a) x n (length added)"
    using assms a s b q by (auto simp: d with_cursor_Inr split: if_splits)
  have "owned_assistant i user a q" using assistantPhase_Some [OF q] b by (simp add: owned_assistant_def)
  from that [OF a s this b(2) t q x] show thesis .
qed

section \<open>No exception after validation\<close>

lemma makeCursor_total:
  assumes "validateInput U i = None" "turn_ok User_turn user"
    and "a = None \<and> p = Cursor_user \<or>
      (\<exists>t. a = Some t \<and> turn_ok Assistant_turn t \<and> assistantPhase (in_binding i) (in_snapshot i) t = Some p)"
  shows "\<exists>x. makeCursor (in_binding i) user a p (sn_snapshotDigest (in_snapshot i)) = Inr x"
proof (cases "tn_stableId user")
  case None
  then show ?thesis by (simp add: makeCursor_def)
next
  case (Some u)
  note v = validateInput_None(1-3) [OF assms(1)]
  from assms(3) show ?thesis
    using makeCursor_user [OF v assms(2) Some] makeCursor_assistant [OF v assms(2) Some] by blast
qed

lemma with_cursor_total: "\<exists>x. r = Inr x \<Longrightarrow> \<exists>c. with_cursor r f = Inr c"
  by (auto simp: with_cursor_def)

lemma classify_children_total:
  assumes v: "validateInput U i = None" and u: "turn_ok User_turn user"
    and as: "\<forall>a\<in>set added. turn_ok Assistant_turn a"
  shows "\<exists>c. classify_children i target user added n unknown = Inr c"
proof (cases "filter (\<lambda>t. tn_parentStableId t \<noteq> tn_stableId user) added = []")
  case False
  then show ?thesis by (simp add: classify_children_def)
next
  case True
  then have f: "filter (\<lambda>t. tn_parentStableId t = tn_stableId user) added = added" by (rule filter_split)
  note m = makeCursor_total [OF v u]
  show ?thesis
  proof (cases added)
    case Nil
    with m [of None Cursor_user] show ?thesis by (simp add: classify_children_def Let_def with_cursor_total)
  next
    case (Cons a rest)
    with as have "turn_ok Assistant_turn a" by simp
    with Cons True f m [of "Some a"] show ?thesis
      by (cases rest; cases "assistantPhase (in_binding i) (in_snapshot i) a")
        (simp_all add: classify_children_def Let_def with_cursor_total)
  qed
qed

lemma classify_prior_assistant_total:
  assumes v: "validateInput U i = None" and u: "turn_ok User_turn user"
  shows "\<exists>c. classify_prior_assistant i target user added p n = Inr c"
proof (cases "find (\<lambda>t. tn_stableId t = cu_assistantTurnId p) (sn_assistantTurns (in_snapshot i))")
  case (Some a)
  then have "turn_ok Assistant_turn a"
    using validateInput_None(5) [OF v] by (auto simp: find_Some_iff)
  with makeCursor_total [OF v u, of "Some a"] have
    "assistantPhase (in_binding i) (in_snapshot i) a = Some q \<Longrightarrow>
       \<exists>x. makeCursor (in_binding i) user (Some a) q (sn_snapshotDigest (in_snapshot i)) = Inr x" for q
    by blast
  with Some show ?thesis
    by (cases "assistantPhase (in_binding i) (in_snapshot i) a")
      (simp_all add: classify_prior_assistant_def Let_def with_cursor_total)
qed (simp add: classify_prior_assistant_def)

lemma classify_fresh_total:
  assumes v: "validateInput U i = None" and u: "\<And>t. t \<in> set (da_added users) \<Longrightarrow> turn_ok User_turn t"
    and a: "\<forall>t\<in>set (da_added assistants). turn_ok Assistant_turn t"
  shows "\<exists>c. classify_fresh i target users assistants = Inr c"
proof (cases "da_added users")
  case Nil
  then show ?thesis by (simp add: classify_fresh_def Let_def)
next
  case (Cons x xs)
  with u have "turn_ok User_turn x" by simp
  with classify_children_total [OF v _ a] Cons show ?thesis
    by (cases xs; cases "proveSubmittedUser i x")
      (auto simp: classify_fresh_def Let_def classifyFreshOwnedUser_def)
qed

lemma classifyWithPrior_total:
  assumes v: "validateInput U i = None" and a: "\<forall>t\<in>set (da_added assistants). turn_ok Assistant_turn t"
  shows "\<exists>c. classifyWithPrior i target users assistants p = Inr c"
proof (cases "find (\<lambda>t. tn_stableId t = Some (cu_userTurnId p)) (sn_userTurns (in_snapshot i))")
  case (Some x)
  then have "turn_ok User_turn x" using validateInput_None(4) [OF v] by (auto simp: find_Some_iff)
  from classify_children_total [OF v this a] classify_prior_assistant_total [OF v this] Some
  show ?thesis by (simp add: classifyWithPrior_def Let_def)
qed (simp add: classifyWithPrior_def Let_def)

lemma classify_live_total:
  assumes "validateInput U i = None" "\<And>t. t \<in> set (da_added (user_delta i)) \<Longrightarrow> turn_ok User_turn t"
    "\<forall>t\<in>set (da_added (assistant_delta i)). turn_ok Assistant_turn t"
  shows "\<exists>c. classify_live i = Inr c"
  using classify_fresh_total [OF assms] classifyWithPrior_total [OF assms(1,3)]
  by (cases "in_prior i") (simp_all add: classify_live_def)

section \<open>Where cursors come from\<close>

lemma classify_valid: "classifyTurnOwnership U i = Inr c \<Longrightarrow> validateInput U i = None"
  by (cases "validateInput U i") (simp_all add: classifyTurnOwnership_def)

lemma owned_classifiable:
  assumes "classifyTurnOwnership U i = Inr c" "owned_status (cl_status c)"
  shows "classifiable U i"
proof (rule ccontr)
  assume "\<not> classifiable U i"
  from this classify_valid [OF assms(1)] obtain st r t n m where
    c: "classifyTurnOwnership U i = Inr (result_of i st r t None None None n m)" and n: "\<not> owned_status st"
    by (rule classify_not_classifiable)
  from c assms(1) have "c = result_of i st r t None None None n m" by simp
  with n assms(2) show False by simp
qed

lemma classify_children_cursor:
  "classify_children i target user added n unknown = Inr c \<Longrightarrow> cl_cursor c \<noteq> None \<Longrightarrow> owned_status (cl_status c)"
  by (auto simp: classify_children_def Let_def with_cursor_Inr split: if_splits list.splits option.splits)

lemma classify_prior_assistant_cursor:
  "classify_prior_assistant i target user added p n = Inr c \<Longrightarrow> cl_cursor c \<noteq> None \<Longrightarrow> owned_status (cl_status c)"
  by (auto simp: classify_prior_assistant_def Let_def with_cursor_Inr split: if_splits option.splits)

lemma classify_live_cursor:
  assumes "classify_live i = Inr c" "cl_cursor c \<noteq> None"
  shows "owned_status (cl_status c)"
proof (cases "in_prior i")
  case None
  with assms classify_children_cursor show ?thesis
    by (auto simp: classify_live_def classify_fresh_def Let_def classifyFreshOwnedUser_def
        split: if_splits list.splits option.splits)
next
  case (Some p)
  with assms classify_children_cursor classify_prior_assistant_cursor show ?thesis
    by (auto simp: classify_live_def classifyWithPrior_def Let_def split: if_splits option.splits)
qed

text \<open>An owned classification, whichever way it was reached.\<close>

definition owned_result :: "ownership_input \<Rightarrow> ownership_turn \<Rightarrow> ownership_turn option \<Rightarrow> cursor_phase
    \<Rightarrow> ownership_cursor option \<Rightarrow> nat \<Rightarrow> classification \<Rightarrow> bool" where
  "owned_result i user a p x m c \<longleftrightarrow>
     c = result_of i (status_of_phase p) No_reason (observed_target i) (Some user) a x 1 m \<and>
     makeCursor (in_binding i) user a p (sn_snapshotDigest (in_snapshot i)) = Inr x \<and>
     (a = None \<and> p = Cursor_user \<and> m = 0 \<and> da_added (assistant_delta i) = [] \<and>
        sn_terminalState (in_snapshot i) \<noteq> Terminal
      \<or> (\<exists>t. a = Some t \<and> owned_assistant i user t p \<and>
           assistantPhase (in_binding i) (in_snapshot i) t = Some p \<and> m = length (da_added (assistant_delta i)) \<and>
           t \<in> set (sn_assistantTurns (in_snapshot i)) \<and>
           (\<forall>x\<in>set (da_added (assistant_delta i)). tn_stableId x = tn_stableId t)))"

lemma status_of_user [simp]: "status_of_phase Cursor_user = Owned_user"
  by (simp add: status_of_phase_def)

lemma children_owned_result:
  assumes "classify_children i (observed_target i) user (da_added (assistant_delta i)) 1 unknown = Inr c"
    "owned_status (cl_status c)"
  shows "\<exists>a p x m. owned_result i user a p x m c"
  using assms
proof (cases rule: classify_children_owned)
  case (user x)
  then have "owned_result i user None Cursor_user x 0 c" by (simp add: owned_result_def)
  then show ?thesis by blast
next
  case (assistant a p x)
  moreover have "a \<in> set (sn_assistantTurns (in_snapshot i))"
    using assistant(1) da_added_subset [of "bl_assistantTurns (in_baseline i)" "sn_assistantTurns (in_snapshot i)"]
    by (simp add: assistant_delta_def)
  ultimately have "owned_result i user (Some a) p x 1 c" by (simp add: owned_result_def)
  then show ?thesis by blast
qed

lemma classify_owned_result:
  assumes "classifyTurnOwnership U i = Inr c" "owned_status (cl_status c)"
  obtains user user' a p x m where "classifiable U i" "da_added (user_delta i) = [user']"
    "tn_stableId user' = tn_stableId user" "tn_stableId user \<noteq> None"
    "user \<in> set (sn_userTurns (in_snapshot i))" "owned_result i user a p x m c"
proof -
  have g: "classifiable U i" by (rule owned_classifiable [OF assms])
  with assms(1) have l: "classify_live i = Inr c" by (simp add: classify_classifiable)
  show thesis
  proof (cases "in_prior i")
    case None
    with l have "classify_fresh i (observed_target i) (user_delta i) (assistant_delta i) = Inr c"
      by (simp add: classify_live_def)
    from classify_fresh_owned [OF this assms(2)] obtain u where u: "da_added (user_delta i) = [u]" "submitted_proof i u"
      and ch: "classify_children i (observed_target i) u (da_added (assistant_delta i)) 1 fresh_unknown = Inr c" .
    have "u \<in> set (sn_userTurns (in_snapshot i))"
      using u(1) da_added_subset [of "bl_userTurns (in_baseline i)" "sn_userTurns (in_snapshot i)"]
      by (simp add: user_delta_def)
    moreover obtain a p x m where "owned_result i u a p x m c"
      using children_owned_result [OF ch assms(2)] by blast
    moreover have "tn_stableId u \<noteq> None" using u(2) by (simp add: submitted_proof_def)
    ultimately show thesis using that [OF g u(1) refl] by blast
  next
    case (Some k)
    with l have w: "classifyWithPrior i (observed_target i) (user_delta i) (assistant_delta i) k = Inr c"
      by (simp add: classify_live_def)
    from classifyWithPrior_owned [OF this assms(2)] obtain user user' where p: "prior_matches i k user"
      and d: "da_added (user_delta i) = [user']" "tn_stableId user' = Some (cu_userTurnId k)"
      and h: "tc_status (observed_target i) = Replacement \<longrightarrow> hasStableConversationAndClaim (in_binding i) (in_snapshot i)" .
    note s = prior_matches_stable [OF p] prior_matches_user [OF p]
    have "\<exists>a q x m. owned_result i user a q x m c"
    proof (cases "cu_phase k = Cursor_user")
      case True
      with w classifyWithPrior_matches [OF p d h] show ?thesis
        using children_owned_result [OF _ assms(2)] by simp
    next
      case False
      with w classifyWithPrior_matches [OF p d h]
      have "classify_prior_assistant i (observed_target i) user (da_added (assistant_delta i)) k 1 = Inr c" by simp
      from classify_prior_assistant_owned [OF this assms(2)] obtain a q x where
        a: "find (\<lambda>t. tn_stableId t = cu_assistantTurnId k) (sn_assistantTurns (in_snapshot i)) = Some a"
        "\<forall>t\<in>set (da_added (assistant_delta i)). tn_stableId t = cu_assistantTurnId k" "owned_assistant i user a q"
        and q: "assistantPhase (in_binding i) (in_snapshot i) a = Some q"
        "makeCursor (in_binding i) user (Some a) q (sn_snapshotDigest (in_snapshot i)) = Inr x"
        "c = result_of i (status_of_phase q) No_reason (observed_target i) (Some user) (Some a) x 1
           (length (da_added (assistant_delta i)))"
        by metis
      from a(1) have "a \<in> set (sn_assistantTurns (in_snapshot i))" "tn_stableId a = cu_assistantTurnId k"
        by (auto simp: find_Some_iff)
      with a q have "owned_result i user (Some a) q x (length (da_added (assistant_delta i))) c"
        by (simp add: owned_result_def)
      then show ?thesis by blast
    qed
    then obtain a q x m where "owned_result i user a q x m c" by blast
    with that [OF g d(1) _ _ s(2) this] s(1) d(2) show thesis by simp
  qed
qed

lemma cursor_owned:
  assumes "classifyTurnOwnership U i = Inr c" "cl_cursor c = Some k"
  shows "owned_status (cl_status c)"
proof (cases "classifiable U i")
  case True
  with assms show ?thesis using classify_live_cursor by (simp add: classify_classifiable)
next
  case False
  from this classify_valid [OF assms(1)] obtain st r t n m where
    c: "classifyTurnOwnership U i = Inr (result_of i st r t None None None n m)"
    by (rule classify_not_classifiable)
  from c assms(1) have "c = result_of i st r t None None None n m" by simp
  with assms(2) show ?thesis by simp
qed

section \<open>Observations handed to recovery\<close>

lemma observation_of_terminal:
  "recovery_observation_of st u a d = Owned_assistant_terminal x y z \<Longrightarrow> st = Owned_terminal"
  by (auto simp: recovery_observation_of_def split: result_status.splits option.splits)

definition is_result :: "ownership_input \<Rightarrow> classification \<Rightarrow> bool" where
  "is_result i c \<longleftrightarrow> (\<exists>st r t u a x n m. c = result_of i st r t u a x n m)"

lemma result_is_result [intro, simp]: "is_result i (result_of i st r t u a x n m)"
  unfolding is_result_def by (intro exI) (rule refl)

lemma children_is_result: "classify_children i target user added n unknown = Inr c \<Longrightarrow> is_result i c"
  by (auto simp: classify_children_def Let_def with_cursor_Inr split: if_splits list.splits option.splits)

lemma prior_assistant_is_result: "classify_prior_assistant i target user added p n = Inr c \<Longrightarrow> is_result i c"
  by (auto simp: classify_prior_assistant_def Let_def with_cursor_Inr split: if_splits option.splits)

lemma live_is_result:
  assumes "classify_live i = Inr c"
  shows "is_result i c"
proof (cases "in_prior i")
  case None
  with assms children_is_result show ?thesis
    by (auto simp: classify_live_def classify_fresh_def Let_def classifyFreshOwnedUser_def
        split: if_splits list.splits option.splits)
next
  case (Some p)
  with assms children_is_result prior_assistant_is_result show ?thesis
    by (auto simp: classify_live_def classifyWithPrior_def Let_def split: if_splits option.splits)
qed

lemma classify_is_result:
  assumes "classifyTurnOwnership U i = Inr c"
  shows "is_result i c"
proof (cases "classifiable U i")
  case True
  with assms live_is_result show ?thesis by (simp add: classify_classifiable)
next
  case False
  from this classify_valid [OF assms] obtain st r t n m where
    "classifyTurnOwnership U i = Inr (result_of i st r t None None None n m)"
    by (rule classify_not_classifiable)
  with assms show ?thesis by auto
qed

lemma observation_terminal:
  assumes "classifyTurnOwnership U i = Inr c" "cl_recoveryObservation c = Owned_assistant_terminal x y z"
  shows "cl_status c = Owned_terminal"
  using classify_is_result [OF assms(1)] assms(2) observation_of_terminal by (auto simp: is_result_def)

end
