(* ===== verification/Turn_Provenance.thy ===== *)
theory Turn_Provenance
  imports Turn_Facts
begin

text \<open>
  Where an owned turn comes from. \<open>classifyTurnOwnership\<close> proves the submitted user turn only when it
  has no prior cursor; with one it compares the snapshot with the cursor. The cursors that descend
  from one proving classification form a relation, and each of them names the turn proved there.
\<close>

section \<open>Cursors that descend from a classification\<close>

inductive issued_from :: "url_parser \<Rightarrow> ownership_input \<Rightarrow> ownership_cursor \<Rightarrow> bool" for U i0 where
  issued_first: "classifyTurnOwnership U i0 = Inr c \<Longrightarrow> in_prior i0 = None \<Longrightarrow> cl_cursor c = Some k \<Longrightarrow>
    issued_from U i0 k"
| issued_next: "issued_from U i0 p \<Longrightarrow> classifyTurnOwnership U i = Inr c \<Longrightarrow> in_prior i = Some p \<Longrightarrow>
    cl_cursor c = Some k \<Longrightarrow> issued_from U i0 k"

text \<open>The one new user turn of a snapshot, appended to the turns of the baseline and proved to be the
  operation's own.\<close>

definition proved_turn :: "ownership_input \<Rightarrow> ownership_turn \<Rightarrow> bool" where
  "proved_turn i u \<longleftrightarrow> (\<exists>kept. sn_userTurns (in_snapshot i) = kept @ [u] \<and>
     list_all2 same_turn (bl_userTurns (in_baseline i)) kept) \<and> submitted_proof i u"

section \<open>The turn of an owned result\<close>

lemma stable_unique:
  assumes "classifiable U i" "t \<in> set (sn_userTurns (in_snapshot i))" "s \<in> set (sn_userTurns (in_snapshot i))"
    and "tn_stableId t = tn_stableId s" "tn_stableId s \<noteq> None"
  shows "t = s"
proof -
  obtain k where k: "tn_stableId s = Some k" "tn_stableId t = Some k" using assms(4,5) by auto
  have "validateInput U i = None" using assms(1) by (simp add: classifiable_def)
  note d = validateInput_None(6) [OF this]
  from find_stable [OF d assms(2) k(2)] find_stable [OF d assms(3) k(1)] show ?thesis by simp
qed

lemma owned_fresh:
  assumes "classifyTurnOwnership U i = Inr c" "in_prior i = None" "owned_status (cl_status c)"
  obtains u where "da_added (user_delta i) = [u]" "proved_turn i u"
proof -
  have g: "classifiable U i" by (rule owned_classifiable [OF assms(1,3)])
  have "classify_fresh i (observed_target i) (user_delta i) (assistant_delta i) = Inr c"
    using assms(1,2) classify_classifiable [OF g] by (simp add: classify_live_def)
  from classify_fresh_owned [OF this assms(3)] obtain u where u: "\<not> da_intervening (user_delta i)"
    "da_added (user_delta i) = [u]" "submitted_proof i u" .
  have "da_reason (user_delta i) = None" using g by (simp add: classifiable_def)
  from analyzeDelta_clean [OF this [unfolded user_delta_def] u(1) [unfolded user_delta_def]] u(2)
  have "\<exists>kept. sn_userTurns (in_snapshot i) = kept @ [u] \<and> list_all2 same_turn (bl_userTurns (in_baseline i)) kept"
    by (auto simp: user_delta_def)
  with u(3) that [OF u(2)] show thesis by (simp add: proved_turn_def)
qed

text \<open>The user turn of an owned classification: proved when there is no prior cursor, the turn of the
  cursor when there is one.\<close>

lemma owned_turn_origin:
  assumes "classifyTurnOwnership U i = Inr c" "owned_status (cl_status c)"
  obtains user a p x m where "classifiable U i" "length (da_added (user_delta i)) = 1"
    "user \<in> set (sn_userTurns (in_snapshot i))" "tn_stableId user \<noteq> None" "owned_result i user a p x m c"
    "case in_prior i of None \<Rightarrow> proved_turn i user | Some k \<Rightarrow> prior_matches i k user"
proof -
  from classify_owned_result [OF assms] obtain user user' a p x m where
    g: "classifiable U i" and d: "da_added (user_delta i) = [user']" "tn_stableId user' = tn_stableId user"
    and s: "tn_stableId user \<noteq> None" and us: "user \<in> set (sn_userTurns (in_snapshot i))"
    and o: "owned_result i user a p x m c" by metis
  have "case in_prior i of None \<Rightarrow> proved_turn i user | Some k \<Rightarrow> prior_matches i k user"
  proof (cases "in_prior i")
    case None
    from owned_fresh [OF assms(1) None assms(2)] obtain u where u: "da_added (user_delta i) = [u]" "proved_turn i u" .
    have "u \<in> set (sn_userTurns (in_snapshot i))" using u(2) by (auto simp: proved_turn_def)
    then have "u = user" using stable_unique [OF g _ us _ s] u(1) d by auto
    with u(2) None show ?thesis by simp
  next
    case (Some k)
    have "classifyWithPrior i (observed_target i) (user_delta i) (assistant_delta i) k = Inr c"
      using assms(1) Some classify_classifiable [OF g] by (simp add: classify_live_def)
    from classifyWithPrior_owned [OF this assms(2)] obtain v v' where v: "prior_matches i k v"
      "da_added (user_delta i) = [v']" "tn_stableId v' = Some (cu_userTurnId k)" .
    have "tn_stableId v = tn_stableId user" using prior_matches_stable [OF v(1)] v(2,3) d by simp
    then have "v = user" using stable_unique [OF g prior_matches_user [OF v(1)] us _ s] by simp
    with v(1) Some show ?thesis by simp
  qed
  with that [OF g _ us s o] d(1) show thesis by simp
qed

section \<open>Descent\<close>

definition names_turn :: "ownership_input \<Rightarrow> ownership_cursor \<Rightarrow> ownership_turn \<Rightarrow> bool" where
  "names_turn i0 k u \<longleftrightarrow> tn_stableId u = Some (cu_userTurnId k) \<and> tn_evidenceDigest u = cu_userTurnEvidenceDigest k \<and>
     cu_operationId k = bd_operationId (in_binding i0) \<and>
     cu_targetBindingDigest k = bd_targetBindingDigest (in_binding i0)"

lemma result_cursor:
  assumes "owned_result i user a p x m c" "cl_cursor c = Some k"
  shows "names_turn i k user"
proof -
  from assms have "makeCursor (in_binding i) user a p (sn_snapshotDigest (in_snapshot i)) = Inr (Some k)"
    by (auto simp: owned_result_def)
  then show ?thesis by (rule makeCursor_Some) (simp add: names_turn_def cursor_of_def)
qed

lemma issued_from_proved: "issued_from U i0 k \<Longrightarrow> \<exists>u. proved_turn i0 u \<and> names_turn i0 k u"
proof (induction rule: issued_from.induct)
  case (issued_first c k)
  from owned_turn_origin [OF issued_first(1) cursor_owned [OF issued_first(1,3)]]
  obtain user a p x m where "owned_result i0 user a p x m c"
    "case in_prior i0 of None \<Rightarrow> proved_turn i0 user | Some k \<Rightarrow> prior_matches i0 k user" by metis
  with result_cursor issued_first(2,3) show ?case by auto
next
  case (issued_next p i c k)
  from owned_turn_origin [OF issued_next(2) cursor_owned [OF issued_next(2,4)]]
  obtain user a q x m where o: "owned_result i user a q x m c"
    "case in_prior i of None \<Rightarrow> proved_turn i user | Some k \<Rightarrow> prior_matches i k user" by metis
  have "names_turn i k user" by (rule result_cursor [OF o(1) issued_next(4)])
  with o(2) issued_next(3,5) prior_matches_stable [of i p user] show ?case
    by (auto simp: names_turn_def prior_matches_def)
qed

end
