(* ===== verification/Turn_Properties.thy ===== *)
theory Turn_Properties
  imports Turn_Provenance Recovery_Example
begin

text \<open>
  The properties of the ownership classifier, and of what recovery concludes from it. The
  witnesses run it on one conversation: a baseline of one exchange, one added user turn and
  its terminal answer.
\<close>

section \<open>A concrete observation\<close>

definition ex_turn :: "string \<Rightarrow> char \<Rightarrow> int \<Rightarrow> string option \<Rightarrow> turn_state option \<Rightarrow> ownership_turn" where
  "ex_turn k c n parent st = \<lparr>tn_stableId = Some k, tn_evidenceDigest = ex_digest c,
     tn_structureDigest = ex_digest c, tn_ordinal = n, tn_parentStableId = parent,
     tn_branchStableId = map_option (\<lambda>_. ''b'') parent, tn_state = st, tn_artifactEvidenceDigests = None\<rparr>"

definition ex_own_target :: ownership_target where
  "ex_own_target = \<lparr>ot_provider = Available ''p'', ot_browser = Available ''b'', ot_tab = Available ''t'',
     ot_thread = Available ''c'', ot_conversation = Available ''c'',
     ot_canonicalThreadUrl = Available ''https://x/c'',
     ot_authoritativeTabClaim = Unavailable Not_exposed, ot_coordinationScope = Process_scope\<rparr>"

definition ex_binding :: ownership_binding where
  "ex_binding = \<lparr>bd_schemaVersion = TURN_OWNERSHIP_SCHEMA_VERSION, bd_operationId = ex_op,
     bd_targetBindingDigest = ex_digest CHR ''2'', bd_target = ex_own_target,
     bd_evidenceProfile = \<lparr>pf_stableConversationId = Required, pf_stableUserTurnId = Required,
       pf_stableAssistantTurnId = Required, pf_stableBranchId = Required,
       pf_authoritativeTabClaim = Not_available\<rparr>,
     bd_replacementTabRecovery = False, bd_actionId = ex_send, bd_actionKind = Send\<rparr>"

definition ex_old_user :: ownership_turn where "ex_old_user = ex_turn ''u0'' CHR ''a'' 0 None None"
definition ex_new_user :: ownership_turn where "ex_new_user = ex_turn ''u1'' CHR ''c'' 1 None None"
definition ex_old_answer :: ownership_turn where
  "ex_old_answer = ex_turn ''a0'' CHR ''b'' 0 (Some ''u0'') (Some Turn_terminal)"
definition ex_new_answer :: ownership_turn where
  "ex_new_answer = ex_turn ''a1'' CHR ''d'' 1 (Some ''u1'') (Some Turn_terminal)"

definition ex_before :: ownership_baseline where
  "ex_before = \<lparr>bl_schemaVersion = TURN_OWNERSHIP_SCHEMA_VERSION, bl_snapshotDigest = ex_digest CHR ''3'',
     bl_target = ex_own_target, bl_userTurns = [ex_old_user], bl_assistantTurns = [ex_old_answer],
     bl_completeness = ''complete''\<rparr>"

definition ex_after :: ownership_snapshot where
  "ex_after = \<lparr>sn_schemaVersion = TURN_OWNERSHIP_SCHEMA_VERSION, sn_snapshotDigest = ex_digest CHR ''9'',
     sn_target = ex_own_target, sn_userTurns = [ex_old_user, ex_new_user],
     sn_assistantTurns = [ex_old_answer, ex_new_answer], sn_completeness = Complete,
     sn_terminalState = Terminal,
     sn_postSendDelta = Some \<lparr>dl_baselineSnapshotDigest = ex_digest CHR ''3'',
       dl_addedUserEvidenceDigests = [ex_digest CHR ''c''], dl_deltaDigest = ex_digest CHR ''4''\<rparr>\<rparr>"

definition ex_own_witness :: ownership_witness where
  "ex_own_witness = \<lparr>ow_actionId = ex_send, ow_actionKind = Send, ow_baselineSnapshotDigest = ex_digest CHR ''3'',
     ow_postSendDeltaDigest = ex_digest CHR ''4'', ow_operationUserEvidenceDigest = ex_digest CHR ''c'',
     ow_userTurnStableId = None\<rparr>"

definition ex_input :: ownership_input where
  "ex_input = \<lparr>in_binding = ex_binding, in_baseline = ex_before, in_snapshot = ex_after,
     in_submissionWitness = Some ex_own_witness, in_prior = None\<rparr>"

definition ex_cursor :: ownership_cursor where
  "ex_cursor = cursor_of ex_binding ex_new_user ''u1'' (Some ex_new_answer) Cursor_terminal (ex_digest CHR ''9'')"

definition ex_classification :: classification where
  "ex_classification = result_of ex_input Owned_terminal No_reason (no_replacement Match) (Some ex_new_user)
     (Some ex_new_answer) (Some ex_cursor) 1 1"

lemma ex_digest_ownership: "is_alnum c \<Longrightarrow> is_ownership_digest (ex_digest c)"
  by (simp add: is_ownership_digest_def OWNERSHIP_DIGEST_PATTERN_def ex_digest_def MAX_DIGEST_LENGTH_def
      matches_head_tail_def is_lower_def is_digit_def in_range_def list_all_iff)

lemmas ident_simps = is_identifier_def IDENTIFIER_PATTERN_def MAX_IDENTIFIER_LENGTH_def matches_head_tail_def
  is_alnum_def is_lower_def is_upper_def is_digit_def in_range_def

lemma ex_identifiers:
  "is_identifier ex_op" "is_identifier ex_send" "is_identifier ''p''" "is_identifier ''b''" "is_identifier ''t''"
  "is_identifier ''c''" "is_identifier ''u0''" "is_identifier ''u1''" "is_identifier ''a0''" "is_identifier ''a1''"
  by (simp_all add: ident_simps ex_op_def ex_send_def)

lemma ex_alnum: "is_alnum CHR ''2''" "is_alnum CHR ''3''" "is_alnum CHR ''4''" "is_alnum CHR ''9''"
  "is_alnum CHR ''a''" "is_alnum CHR ''b''" "is_alnum CHR ''c''" "is_alnum CHR ''d''"
  by (simp_all add: ident_simps)

lemma ex_target_valid: "validateTarget ex_url ex_own_target l = None"
  by (simp add: validateTarget_def validateIdentity_def ex_own_target_def ex_identifiers ex_url_def
      is_plain_https_def is_control_def)

lemma ex_turn_fields [simp]:
  "tn_stableId ex_old_user = Some ''u0''" "tn_stableId ex_new_user = Some ''u1''"
  "tn_stableId ex_old_answer = Some ''a0''" "tn_stableId ex_new_answer = Some ''a1''"
  "tn_ordinal ex_old_user = 0" "tn_ordinal ex_new_user = 1" "tn_ordinal ex_old_answer = 0" "tn_ordinal ex_new_answer = 1"
  "tn_parentStableId ex_old_user = None" "tn_parentStableId ex_new_user = None"
  "tn_parentStableId ex_new_answer = Some ''u1''" "tn_branchStableId ex_new_answer = Some ''b''"
  "tn_branchStableId ex_old_user = None" "tn_branchStableId ex_new_user = None"
  "tn_state ex_old_answer = Some Turn_terminal" "tn_state ex_new_answer = Some Turn_terminal"
  "tn_evidenceDigest ex_new_user = ex_digest CHR ''c''"
  "tn_artifactEvidenceDigests ex_old_user = None" "tn_artifactEvidenceDigests ex_new_user = None"
  "tn_artifactEvidenceDigests ex_old_answer = None" "tn_artifactEvidenceDigests ex_new_answer = None"
  by (simp_all add: ex_old_user_def ex_new_user_def ex_old_answer_def ex_new_answer_def ex_turn_def)

lemma ex_turns_ok:
  "turn_ok User_turn ex_old_user" "turn_ok User_turn ex_new_user"
  "turn_ok Assistant_turn ex_old_answer" "turn_ok Assistant_turn ex_new_answer"
  by (simp_all add: turn_ok_def ex_old_user_def ex_new_user_def ex_old_answer_def ex_new_answer_def ex_turn_def
      ex_digest_ownership ex_alnum ex_identifiers)

lemma turn_check_intro:
  assumes "turn_ok kind t" "tn_ordinal t = int n" "tn_stableId t = Some k" "k \<notin> set sids"
    "kind = User_turn \<longrightarrow> tn_parentStableId t = None \<and> tn_branchStableId t = None" "tn_artifactEvidenceDigests t = None"
  shows "turn_check kind l n sids evs t = None"
  using assms by (auto simp: turn_check_def turn_ok_def)

lemma ex_turns_valid:
  "validateTurns [ex_old_user] User_turn l = None" "validateTurns [ex_old_answer] Assistant_turn l = None"
  "validateTurns [ex_old_user, ex_new_user] User_turn l = None"
  "validateTurns [ex_old_answer, ex_new_answer] Assistant_turn l = None"
  by (simp_all add: validateTurns_def MAX_TURNS_def turn_check_intro ex_turns_ok)

lemma ex_own_fields [simp]:
  "is_available (ot_conversation ex_own_target)" "ot_coordinationScope ex_own_target = Process_scope"
  "in_binding ex_input = ex_binding" "in_baseline ex_input = ex_before" "in_snapshot ex_input = ex_after"
  "in_submissionWitness ex_input = Some ex_own_witness" "in_prior ex_input = None"
  "sn_snapshotDigest ex_after = ex_digest CHR ''9''" "sn_terminalState ex_after = Terminal"
  "sn_target ex_after = ex_own_target" "bl_target ex_before = ex_own_target" "sn_completeness ex_after = Complete"
  by (simp_all add: ex_own_target_def ex_input_def ex_after_def ex_before_def)

lemma ex_valid: "validateInput ex_url ex_input = None"
  by (simp add: validateInput_def ex_input_def validateBinding_def ex_binding_def ex_identifiers
      ex_digest_ownership ex_alnum ex_target_valid profile_check_def requirement_known_def
      validateBaseline_def ex_before_def ex_turns_valid validateSnapshot_def ex_after_def validateDelta_def
      validateSubmissionWitness_def ex_own_witness_def MAX_TURNS_def)

lemma ex_same_turns: "same_turn ex_old_user ex_old_user" "same_turn ex_old_answer ex_old_answer"
  by (simp_all add: same_turn_def)

lemma ex_deltas:
  "user_delta ex_input = \<lparr>da_reason = None, da_added = [ex_new_user], da_intervening = False\<rparr>"
  "assistant_delta ex_input = \<lparr>da_reason = None, da_added = [ex_new_answer], da_intervening = False\<rparr>"
  using analyzeDelta_append [of "[ex_old_user]" "[ex_new_user]" "[ex_old_user]"]
    analyzeDelta_append [of "[ex_old_answer]" "[ex_new_answer]" "[ex_old_answer]"]
  by (simp_all add: user_delta_def assistant_delta_def ex_input_def ex_before_def ex_after_def ex_same_turns
      turnIdentityKey_def)

lemma ex_targets:
  "compareBindingToTarget ex_binding ex_own_target = no_replacement Match"
  by (simp add: compareBindingToTarget_def ex_binding_def ex_own_target_def exact_keys_def first_error.simps(2))

lemma ex_classifiable: "classifiable ex_url ex_input"
  using ex_valid ex_deltas ex_targets
  by (simp add: classifiable_def observed_target_def compareBindingToBaselineTarget_def)

lemma ex_phase: "assistantPhase ex_binding ex_after ex_new_answer = Some Cursor_terminal"
  by (simp add: assistantPhase_def ex_binding_def)

lemma ex_makeCursor:
  "makeCursor ex_binding ex_new_user (Some ex_new_answer) Cursor_terminal (ex_digest CHR ''9'') = Inr (Some ex_cursor)"
proof -
  have v: "is_identifier (bd_operationId ex_binding)" "is_ownership_digest (bd_targetBindingDigest ex_binding)"
    "is_ownership_digest (ex_digest CHR ''9'')"
    by (simp_all add: ex_binding_def ex_identifiers ex_digest_ownership ex_alnum)
  from makeCursor_assistant [OF v ex_turns_ok(2) ex_turn_fields(2) ex_turns_ok(4) ex_phase]
  show ?thesis by (simp add: ex_cursor_def)
qed

lemma ex_classify: "classifyTurnOwnership ex_url ex_input = Inr ex_classification"
proof -
  have "proveSubmittedUser ex_input ex_new_user = None"
    by (simp add: proveSubmittedUser_def ex_binding_def ex_own_witness_def ex_before_def ex_after_def)
  moreover have "classify_children ex_input (no_replacement Match) ex_new_user [ex_new_answer] 1 u = Inr ex_classification" for u
    by (simp add: classify_children_def with_cursor_def ex_phase ex_makeCursor ex_classification_def status_of_phase_def)
  ultimately show ?thesis
    using ex_deltas ex_targets
    by (simp add: classify_classifiable [OF ex_classifiable] classify_live_def observed_target_def classify_fresh_def
        classifyFreshOwnedUser_def)
qed

section \<open>The delta\<close>

text \<open>C21: on snapshots with distinct turn identities, the delta reports exactly the turns that
  were appended: it is valid, with no intervening turn and the added turns \<open>extra\<close>, if and only if
  the fresh list is the baseline's turns, unchanged and in order, followed by \<open>extra\<close>.\<close>

theorem delta_reports_appended:
  assumes "distinct (map turnIdentityKey fresh)"
  shows "analyzeDelta baseline fresh = \<lparr>da_reason = None, da_added = extra, da_intervening = False\<rparr> \<longleftrightarrow>
    (\<exists>kept. fresh = kept @ extra \<and> list_all2 same_turn baseline kept)"
proof
  assume a: "analyzeDelta baseline fresh = \<lparr>da_reason = None, da_added = extra, da_intervening = False\<rparr>"
  then have "da_reason (analyzeDelta baseline fresh) = None" "\<not> da_intervening (analyzeDelta baseline fresh)"
    by simp_all
  from analyzeDelta_clean [OF this] obtain kept where
    "fresh = kept @ da_added (analyzeDelta baseline fresh)" "list_all2 same_turn baseline kept" .
  with a show "\<exists>kept. fresh = kept @ extra \<and> list_all2 same_turn baseline kept" by auto
next
  assume "\<exists>kept. fresh = kept @ extra \<and> list_all2 same_turn baseline kept"
  with assms analyzeDelta_append show "analyzeDelta baseline fresh = \<lparr>da_reason = None, da_added = extra, da_intervening = False\<rparr>"
    by blast
qed

theorem delta_reports_appended_witness:
  "analyzeDelta [ex_old_user] [ex_old_user, ex_new_user]
     = \<lparr>da_reason = None, da_added = [ex_new_user], da_intervening = False\<rparr>"
proof -
  have "distinct (map turnIdentityKey [ex_old_user, ex_new_user])" by (simp add: turnIdentityKey_def)
  from delta_reports_appended [OF this, of "[ex_old_user]" "[ex_new_user]"] show ?thesis
    using ex_same_turns(1) by auto
qed

section \<open>Every input is classified\<close>

text \<open>C23: the classifier never throws on validated evidence: an exception is exactly a failed
  validation, so every other input gets a classification.\<close>

theorem classification_total:
  "(\<exists>c. classifyTurnOwnership U i = Inr c) \<longleftrightarrow> validateInput U i = None"
proof
  assume "\<exists>c. classifyTurnOwnership U i = Inr c"
  then show "validateInput U i = None" using classify_valid by blast
next
  assume v: "validateInput U i = None"
  note turns = validateInput_None [OF v]
  show "\<exists>c. classifyTurnOwnership U i = Inr c"
  proof (cases "classifiable U i")
    case False
    from classify_not_classifiable [OF this v] show ?thesis by blast
  next
    case True
    have u: "turn_ok User_turn t" if "t \<in> set (da_added (user_delta i))" for t
      using that turns(4) da_added_subset by (auto simp: user_delta_def)
    have a: "\<forall>t\<in>set (da_added (assistant_delta i)). turn_ok Assistant_turn t"
      using turns(5) da_added_subset by (auto simp: assistant_delta_def)
    have "\<exists>c. classify_live i = Inr c"
      using classify_live_total [OF v u a] by blast
    then show ?thesis using classify_classifiable [OF True] by simp
  qed
qed

text \<open>C24: every cursor the classifier issues passes \<open>validateOwnershipCursor\<close>, names the operation, the
  target digest and the snapshot it was issued for, and is issued only with an owned status.\<close>

theorem issued_cursor_valid:
  assumes "classifyTurnOwnership U i = Inr c" "cl_cursor c = Some k"
  shows "validateOwnershipCursor k = None \<and> cu_operationId k = bd_operationId (in_binding i) \<and>
    cu_targetBindingDigest k = bd_targetBindingDigest (in_binding i) \<and>
    cu_snapshotDigest k = sn_snapshotDigest (in_snapshot i) \<and> cl_status c = status_of_phase (cu_phase k)"
proof -
  have "owned_status (cl_status c)" by (rule cursor_owned [OF assms])
  from classify_owned_result [OF assms(1) this] obtain user a p x m where "owned_result i user a p x m c" by metis
  with assms(2) have m: "makeCursor (in_binding i) user a p (sn_snapshotDigest (in_snapshot i)) = Inr (Some k)"
    and s: "cl_status c = status_of_phase p"
    by (auto simp: owned_result_def)
  from m show ?thesis by (rule makeCursor_Some) (use s in \<open>simp add: cursor_of_def\<close>)
qed

theorem issued_cursor_valid_witness:
  "validateOwnershipCursor ex_cursor = None \<and> cu_operationId ex_cursor = ex_op"
proof -
  have "cl_cursor ex_classification = Some ex_cursor" by (simp add: ex_classification_def)
  from issued_cursor_valid [OF ex_classify this] show ?thesis by (simp add: ex_binding_def)
qed

section \<open>Observing again\<close>

lemma prior_fields [simp]:
  "observed_target (i\<lparr>in_prior := k\<rparr>) = observed_target i" "user_delta (i\<lparr>in_prior := k\<rparr>) = user_delta i"
  "assistant_delta (i\<lparr>in_prior := k\<rparr>) = assistant_delta i"
  "result_of (i\<lparr>in_prior := k\<rparr>) = result_of i"
  by (simp_all add: observed_target_def user_delta_def assistant_delta_def result_of_def fun_eq_iff)

lemma classifiable_prior:
  assumes "classifiable U i" "validateOwnershipCursor k = None"
  shows "classifiable U (i\<lparr>in_prior := Some k\<rparr>)"
  using assms by (simp add: classifiable_def validateInput_def)

lemma reobserve:
  assumes g: "classifiable U i" and u: "da_added (user_delta i) = [user']" "tn_stableId user' = tn_stableId user"
    and m: "user \<in> set (sn_userTurns (in_snapshot i))" and o: "owned_result i user a p (Some k) n c"
    and h: "tc_status (observed_target i) = Replacement \<longrightarrow> hasStableConversationAndClaim (in_binding i) (in_snapshot i)"
  shows "classifyTurnOwnership U (i\<lparr>in_prior := Some k\<rparr>) = Inr c"
proof -
  let ?j = "i\<lparr>in_prior := Some k\<rparr>"
  have v: "validateInput U i = None" using g by (simp add: classifiable_def)
  from o have mk: "makeCursor (in_binding i) user a p (sn_snapshotDigest (in_snapshot i)) = Inr (Some k)"
    and c: "c = result_of i (status_of_phase p) No_reason (observed_target i) (Some user) a (Some k) 1 n"
    by (simp_all add: owned_result_def)
  from mk obtain uid where uid: "tn_stableId user = Some uid"
    and k: "k = cursor_of (in_binding i) user uid a p (sn_snapshotDigest (in_snapshot i))"
    and vk: "validateOwnershipCursor k = None"
    by (rule makeCursor_Some)
  have "find (\<lambda>t. tn_stableId t = Some uid) (sn_userTurns (in_snapshot i)) = Some user"
    using validateInput_None(6) [OF v] m uid by (intro find_stable) simp_all
  then have pm: "prior_matches ?j k user" by (simp add: prior_matches_def k cursor_of_def)
  have w: "classify_live ?j = (if cu_phase k \<noteq> Cursor_user
      then classify_prior_assistant ?j (observed_target i) user (da_added (assistant_delta i)) k 1
      else classify_children ?j (observed_target i) user (da_added (assistant_delta i)) 1 prior_unknown)"
    using classifyWithPrior_matches [OF pm, of "user_delta i" user' "observed_target i" "assistant_delta i"] u h uid
    by (simp add: classify_live_def k cursor_of_def)
  have "classify_live ?j = Inr c"
  proof (cases a)
    case None
    with o have "p = Cursor_user" "n = 0" "da_added (assistant_delta i) = []" "sn_terminalState (in_snapshot i) \<noteq> Terminal"
      by (simp_all add: owned_result_def)
    with w None mk c show ?thesis
      by (simp add: k cursor_of_def classify_children_def with_cursor_def)
  next
    case (Some t)
    with o have t: "owned_assistant i user t p" "assistantPhase (in_binding i) (in_snapshot i) t = Some p"
      "n = length (da_added (assistant_delta i))" "t \<in> set (sn_assistantTurns (in_snapshot i))"
      "\<forall>x\<in>set (da_added (assistant_delta i)). tn_stableId x = tn_stableId t"
      by (simp_all add: owned_result_def)
    then obtain tid where tid: "tn_stableId t = Some tid" by (auto simp: owned_assistant_def)
    have f: "find (\<lambda>x. tn_stableId x = Some tid) (sn_assistantTurns (in_snapshot i)) = Some t"
      using validateInput_None(7) [OF v] t(4) tid by (intro find_stable) simp_all
    have ph: "cu_phase k = p" "cu_assistantTurnId k = Some tid" "cu_assistantBranchId k = tn_branchStableId t"
      "cu_assistantEvidenceDigest k = Some (tn_evidenceDigest t)" "cu_assistantStructureDigest k = Some (tn_structureDigest t)"
      by (simp_all add: k cursor_of_def Some tid)
    have "p \<noteq> Cursor_user" "p = Cursor_terminal \<longrightarrow> tn_state t = Some Turn_terminal"
      "tn_parentStableId t = tn_stableId user"
      using t(1) validateInput_None(5) [OF v t(4)] by (auto simp: owned_assistant_def turn_ok_def)
    with w f ph t(2,5) tid mk c Some t(3) show ?thesis
      by (cases "p = Cursor_terminal") (simp_all add: classify_prior_assistant_def Let_def with_cursor_def filter_empty_conv)
  qed
  then show ?thesis using classify_classifiable [OF classifiable_prior [OF g vk]] by simp
qed

lemma classify_again:
  assumes "classifyTurnOwnership U i = Inr c" "cl_cursor c = Some k"
    and "tc_status (observed_target i) = Replacement \<longrightarrow> hasStableConversationAndClaim (in_binding i) (in_snapshot i)"
  shows "classifyTurnOwnership U (i\<lparr>in_prior := Some k\<rparr>) = Inr c"
proof -
  have "owned_status (cl_status c)" by (rule cursor_owned [OF assms(1,2)])
  from classify_owned_result [OF assms(1) this] obtain user user' a p x m where
    g: "classifiable U i" and u: "da_added (user_delta i) = [user']" "tn_stableId user' = tn_stableId user"
    and m: "user \<in> set (sn_userTurns (in_snapshot i))" and o: "owned_result i user a p x m c"
    by metis
  have "x = Some k" using o assms(2) by (simp add: owned_result_def)
  with o have o': "owned_result i user a p (Some k) m c" by simp
  show ?thesis by (rule reobserve [OF g u m o' assms(3)])
qed

text \<open>C25: ownership is stable: classifying the same snapshot again with the cursor just issued gives
  the same classification and the same cursor (on a replacement tab this needs the stable
  conversation and claim that the continuation asks for).\<close>

theorem reobservation_idempotent:
  assumes "classifyTurnOwnership U i = Inr c" "cl_cursor c = Some k"
    and "tc_status (observed_target i) = Replacement \<longrightarrow> hasStableConversationAndClaim (in_binding i) (in_snapshot i)"
  shows "classifyTurnOwnership U (i\<lparr>in_prior := Some k\<rparr>) = Inr c"
  by (rule classify_again [OF assms])

lemma ex_again:
  "cl_cursor ex_classification = Some ex_cursor"
  "tc_status (observed_target ex_input) = Replacement \<longrightarrow>
     hasStableConversationAndClaim (in_binding ex_input) (in_snapshot ex_input)"
  by (simp_all add: ex_classification_def observed_target_def ex_targets)

lemmas ex_reclassify = classify_again [OF ex_classify ex_again]

theorem reobservation_idempotent_witness:
  "classifyTurnOwnership ex_url (ex_input\<lparr>in_prior := Some ex_cursor\<rparr>) = Inr ex_classification"
  by (rule reobservation_idempotent [OF ex_classify ex_again])

section \<open>Ownership needs a proof\<close>

text \<open>
  C22. An owned turn is proved. Every owned classification is about a user turn that one
  classification without a prior cursor proved: there the snapshot was the baseline's user turns
  followed by exactly that turn, and the submission witness and the post-Send delta of the same action
  named it. Without a prior cursor the proving classification is this one; with a prior cursor the
  witness and the delta are not read again, and the turn is the one proved where the cursor, through
  any number of classifications, descends from (\<open>issued_from\<close>), for the same operation and target.
  In the classified snapshot the target matches, exactly one user turn is new, and a reported assistant
  turn is a child of that user turn with a state the page confirms, and no other assistant turn is new.
\<close>

theorem owned_turn_needs_proof:
  assumes "classifyTurnOwnership U i = Inr c" "owned_status (cl_status c)"
    and "case in_prior i of None \<Rightarrow> i0 = i | Some k \<Rightarrow> issued_from U i0 k"
  shows "bd_operationId (in_binding i) = bd_operationId (in_binding i0) \<and>
    bd_targetBindingDigest (in_binding i) = bd_targetBindingDigest (in_binding i0) \<and>
    tc_status (observed_target i) \<in> {Match, Replacement} \<and> length (da_added (user_delta i)) = 1 \<and>
    (\<exists>kept u0. sn_userTurns (in_snapshot i0) = kept @ [u0] \<and>
       list_all2 same_turn (bl_userTurns (in_baseline i0)) kept \<and> submitted_proof i0 u0 \<and>
       (\<exists>u \<in> set (sn_userTurns (in_snapshot i)). tn_stableId u = tn_stableId u0 \<and>
          tn_evidenceDigest u = tn_evidenceDigest u0 \<and>
          (cl_status c = Owned_user \<and> da_added (assistant_delta i) = [] \<or>
           (\<exists>a p. a \<in> set (sn_assistantTurns (in_snapshot i)) \<and> owned_assistant i u a p \<and>
              cl_status c = status_of_phase p \<and>
              (\<forall>b \<in> set (da_added (assistant_delta i)). tn_stableId b = tn_stableId a)))))"
proof -
  from owned_turn_origin [OF assms(1,2)] obtain u a p x m where
    g: "classifiable U i" "length (da_added (user_delta i)) = 1" "u \<in> set (sn_userTurns (in_snapshot i))"
    and o: "owned_result i u a p x m c"
    and pr: "case in_prior i of None \<Rightarrow> proved_turn i u | Some k \<Rightarrow> prior_matches i k u" by metis
  have "\<exists>u0. proved_turn i0 u0 \<and> tn_stableId u = tn_stableId u0 \<and> tn_evidenceDigest u = tn_evidenceDigest u0 \<and>
      bd_operationId (in_binding i) = bd_operationId (in_binding i0) \<and>
      bd_targetBindingDigest (in_binding i) = bd_targetBindingDigest (in_binding i0)"
  proof (cases "in_prior i")
    case None
    with pr assms(3) show ?thesis by auto
  next
    case (Some k)
    with assms(3) issued_from_proved obtain u0 where "proved_turn i0 u0" "names_turn i0 k u0" by fastforce
    with pr Some prior_matches_stable [of i k u] show ?thesis
      by (auto simp: names_turn_def prior_matches_def)
  qed
  moreover have "cl_status c = Owned_user \<and> da_added (assistant_delta i) = [] \<or>
      (\<exists>a p. a \<in> set (sn_assistantTurns (in_snapshot i)) \<and> owned_assistant i u a p \<and> cl_status c = status_of_phase p \<and>
         (\<forall>b \<in> set (da_added (assistant_delta i)). tn_stableId b = tn_stableId a))"
    using o by (auto simp: owned_result_def)
  moreover have "tc_status (observed_target i) \<in> {Match, Replacement}" using g(1) by (simp add: classifiable_def)
  ultimately show ?thesis using g(2,3) unfolding proved_turn_def by blast
qed

theorem owned_turn_needs_proof_witness:
  "issued_from ex_url ex_input ex_cursor \<and> submitted_proof ex_input ex_new_user \<and>
   (\<exists>u \<in> set (sn_userTurns ex_after). tn_stableId u = tn_stableId ex_new_user)"
proof -
  let ?i = "ex_input\<lparr>in_prior := Some ex_cursor\<rparr>"
  have f: "issued_from ex_url ex_input ex_cursor"
    by (rule issued_first [OF ex_classify _ ex_again(1)]) simp
  have "owned_status (cl_status ex_classification)" by (simp add: ex_classification_def)
  moreover have "case in_prior ?i of None \<Rightarrow> ex_input = ?i | Some k \<Rightarrow> issued_from ex_url ex_input k"
    using f by simp
  ultimately obtain kept u0 u where "sn_userTurns (in_snapshot ex_input) = kept @ [u0]" "submitted_proof ex_input u0"
    "u \<in> set (sn_userTurns (in_snapshot ?i))" "tn_stableId u = tn_stableId u0"
    using owned_turn_needs_proof [OF ex_reclassify] by blast
  with f show ?thesis by (auto simp: ex_after_def)
qed

section \<open>Frozen answers\<close>

text \<open>C26: a captured answer is frozen: continued from a terminal cursor, a classification is owned
  only if the snapshot still holds the same assistant turn, terminal, with the evidence and structure
  digests of the cursor, under the same user turn; every change is reported as ambiguous.\<close>

theorem terminal_capture_frozen:
  assumes "classifyTurnOwnership U i = Inr c" "in_prior i = Some k" "cu_phase k = Cursor_terminal" "owned_status (cl_status c)"
  shows "cl_status c = Owned_terminal \<and>
    (\<exists>user\<in>set (sn_userTurns (in_snapshot i)). tn_stableId user = Some (cu_userTurnId k) \<and>
       tn_evidenceDigest user = cu_userTurnEvidenceDigest k) \<and>
    (\<exists>a\<in>set (sn_assistantTurns (in_snapshot i)). tn_stableId a = cu_assistantTurnId k \<and>
       tn_state a = Some Turn_terminal \<and> tn_branchStableId a = cu_assistantBranchId k \<and>
       cu_assistantEvidenceDigest k = Some (tn_evidenceDigest a) \<and>
       cu_assistantStructureDigest k = Some (tn_structureDigest a))"
proof -
  have g: "classifiable U i" by (rule owned_classifiable [OF assms(1,4)])
  have w: "classifyWithPrior i (observed_target i) (user_delta i) (assistant_delta i) k = Inr c"
    using assms(1,2) classify_classifiable [OF g] by (simp add: classify_live_def)
  from classifyWithPrior_owned [OF this assms(4)] obtain user user' where p: "prior_matches i k user"
    and d: "da_added (user_delta i) = [user']" "tn_stableId user' = Some (cu_userTurnId k)"
    and h: "tc_status (observed_target i) = Replacement \<longrightarrow> hasStableConversationAndClaim (in_binding i) (in_snapshot i)" .
  from w classifyWithPrior_matches [OF p d h] assms(3)
  have "classify_prior_assistant i (observed_target i) user (da_added (assistant_delta i)) k 1 = Inr c" by simp
  from classify_prior_assistant_owned [OF this assms(4)] obtain a q x where
    a: "find (\<lambda>t. tn_stableId t = cu_assistantTurnId k) (sn_assistantTurns (in_snapshot i)) = Some a"
      "tn_branchStableId a = cu_assistantBranchId k" "owned_assistant i user a q"
    and t: "tn_state a = Some Turn_terminal" "cu_assistantEvidenceDigest k = Some (tn_evidenceDigest a)"
      "cu_assistantStructureDigest k = Some (tn_structureDigest a)"
    and c: "cl_status c = status_of_phase q"
    using assms(3) by (metis result_of_fields(1))
  have "q = Cursor_terminal" using a(3) t(1) by (auto simp: owned_assistant_def)
  moreover have "a \<in> set (sn_assistantTurns (in_snapshot i))" "tn_stableId a = cu_assistantTurnId k"
    using a(1) by (auto simp: find_Some_iff)
  moreover have "tn_evidenceDigest user = cu_userTurnEvidenceDigest k" using p by (simp add: prior_matches_def)
  ultimately show ?thesis
    using a(2) t c prior_matches_user [OF p] prior_matches_stable [OF p] by (auto simp: status_of_phase_def)
qed

theorem terminal_capture_frozen_witness:
  "\<exists>a\<in>set (sn_assistantTurns ex_after). tn_stableId a = Some ''a1'' \<and> tn_state a = Some Turn_terminal"
proof -
  have "in_prior (ex_input\<lparr>in_prior := Some ex_cursor\<rparr>) = Some ex_cursor" "cu_phase ex_cursor = Cursor_terminal"
    "owned_status (cl_status ex_classification)"
    by (simp_all add: ex_cursor_def cursor_of_def ex_classification_def)
  from terminal_capture_frozen [OF ex_reclassify this]
  show ?thesis by (auto simp: ex_cursor_def cursor_of_def)
qed

section \<open>From evidence to recovery\<close>

text \<open>C27: recovery decides to capture only what the classifier proved: when the observation comes from
  a classification, a capture decision names the assistant turn of a valid terminal cursor of this
  operation, and carries the digest of the classified snapshot.\<close>

theorem capture_needs_terminal_cursor:
  assumes "classifyTurnOwnership U i = Inr c" "ro_turn ob = cl_recoveryObservation c"
    and "decideOperationRecovery s ob = Capture_owned_turn a e"
  shows "cl_status c = Owned_terminal \<and> e = sn_snapshotDigest (in_snapshot i) \<and>
    (\<exists>k. cl_cursor c = Some k \<and> cu_phase k = Cursor_terminal \<and> cu_assistantTurnId k = Some a \<and>
      cu_operationId k = bd_operationId (in_binding i) \<and> validateOwnershipCursor k = None)"
proof -
  from capture_observed [OF assms(3)] assms(2) obtain u where
    o: "cl_recoveryObservation c = Owned_assistant_terminal u a e"
    by auto
  have st: "cl_status c = Owned_terminal" by (rule observation_terminal [OF assms(1) o])
  then have "owned_status (cl_status c)" by simp
  from assms(1) this obtain user user' t p x m where "classifiable U i" "da_added (user_delta i) = [user']"
    "tn_stableId user' = tn_stableId user" and us: "tn_stableId user \<noteq> None"
    and "user \<in> set (sn_userTurns (in_snapshot i))" and r: "owned_result i user t p x m c"
    by (rule classify_owned_result)
  from r st have p: "p = Cursor_terminal" by (auto simp: owned_result_def owned_assistant_def status_of_phase_def)
  with r obtain at where t: "t = Some at" "owned_assistant i user at p" by (auto simp: owned_result_def)
  from r t(1) o p have e: "e = sn_snapshotDigest (in_snapshot i)" "tn_stableId at = Some a"
    by (auto simp: owned_result_def recovery_observation_of_def status_of_phase_def stable_of_def split: option.splits)
  have mk: "makeCursor (in_binding i) user t p (sn_snapshotDigest (in_snapshot i)) = Inr x"
    and x: "cl_cursor c = x"
    using r by (simp_all add: owned_result_def)
  obtain k where k: "x = Some k"
    using mk us t by (auto simp: makeCursor_def owned_assistant_def Let_def split: option.splits if_splits)
  from mk [unfolded k] show ?thesis
    by (rule makeCursor_Some) (use st e x k t(1) p in \<open>simp add: cursor_of_def\<close>)
qed

theorem capture_needs_terminal_cursor_witness:
  "cl_status ex_classification = Owned_terminal \<and>
   decideOperationRecovery ex_uncertain (ex_observation (cl_recoveryObservation ex_classification))
     = Capture_owned_turn ''a1'' (ex_digest CHR ''9'')"
proof -
  have r: "cl_recoveryObservation ex_classification = Owned_assistant_terminal ''u1'' ''a1'' (ex_digest CHR ''9'')"
    by (simp add: ex_classification_def recovery_observation_of_def stable_of_def)
  have d: "decideOperationRecovery ex_uncertain (ex_observation (cl_recoveryObservation ex_classification))
     = Capture_owned_turn ''a1'' (ex_digest CHR ''9'')"
    unfolding r by code_simp
  have "ro_turn (ex_observation (cl_recoveryObservation ex_classification)) = cl_recoveryObservation ex_classification"
    by (simp add: ex_observation_def)
  from capture_needs_terminal_cursor [OF ex_classify this d] d show ?thesis by blast
qed

end
