(* ===== verification/Gate_Heap.thy ===== *)
theory Gate_Heap
  imports Op_Prelude "HOL-Library.Multiset"
begin

text \<open>
  The array heap of \<open>BrowserGate\<close> (\<open>runtime/tab-coordinator.ts\<close>): started exclusive waiters
  ordered by their reservation sequence, with the loops of \<open>pushStartedExclusive\<close> and
  \<open>popStartedExclusive\<close>. The interface \<open>min_queue\<close> is what the gate relies on; the heap is
  its interpretation.
\<close>

section \<open>The heap of started exclusive waiters\<close>

text \<open>A binary min-heap in an array, ordered by sequence number.\<close>

function sift_up :: "nat list \<Rightarrow> nat \<Rightarrow> nat \<Rightarrow> nat list" where
  "sift_up heap index w =
     (if index = 0 then heap[index := w]
      else let parent = (index - 1) div 2 in
        if heap ! parent \<le> w then heap[index := w]
        else sift_up (heap[index := heap ! parent]) parent w)"
  by pat_completeness auto
termination by (relation "measure (\<lambda>(heap, index, w). index)") auto

definition pushStartedExclusive :: "nat list \<Rightarrow> nat \<Rightarrow> nat list" where
  "pushStartedExclusive heap w = sift_up (heap @ [w]) (length heap) w"

function sift_down :: "nat list \<Rightarrow> nat \<Rightarrow> nat \<Rightarrow> nat list" where
  "sift_down heap index x =
     (let left = index * 2 + 1; right = left + 1 in
      if left \<ge> length heap then heap[index := x]
      else let child = (if right < length heap \<and> heap ! right < heap ! left then right else left) in
        if heap ! child \<ge> x then heap[index := x]
        else sift_down (heap[index := heap ! child]) child x)"
  by pat_completeness auto
termination by (relation "measure (\<lambda>(heap, index, x). length heap - index)") (auto simp: Let_def split: if_splits)

definition popStartedExclusive :: "nat list \<Rightarrow> nat list" where
  "popStartedExclusive heap =
     (if heap = [] then []
      else let rest = butlast heap in
        if rest = [] then [] else sift_down rest 0 (last heap))"

lemma length_sift_down [simp]: "length (sift_down heap i x) = length heap"
  by (induction heap i x rule: sift_down.induct) (simp add: Let_def sift_down.simps [of _ _ x for x])

lemma length_pop: "length (popStartedExclusive heap) = length heap - 1"
  by (cases heap rule: rev_cases) (simp_all add: popStartedExclusive_def Let_def del: sift_down.simps)

text \<open>Cancelled waiters are dropped lazily from the top.\<close>

function dropStale :: "nat list \<Rightarrow> nat list \<Rightarrow> nat list" where
  "dropStale queued heap =
     (if heap = [] then [] else if hd heap \<in> set queued then heap
      else dropStale queued (popStartedExclusive heap))"
  by pat_completeness auto
termination by (relation "measure (\<lambda>(queued, heap). length heap)") (auto simp: length_pop)

declare sift_up.simps [simp del] sift_down.simps [simp del] dropStale.simps [simp del]

section \<open>The interface\<close>

text \<open>A priority queue as the gate uses it: its content as a multiset, its top the least element.\<close>

locale min_queue =
  fixes empty_queue :: "'q"
    and push :: "'q \<Rightarrow> 'a::linorder \<Rightarrow> 'q"
    and pop :: "'q \<Rightarrow> 'q"
    and top :: "'q \<Rightarrow> 'a"
    and elems :: "'q \<Rightarrow> 'a multiset"
    and invar :: "'q \<Rightarrow> bool"
  assumes invar_empty: "invar empty_queue" and elems_empty: "elems empty_queue = {#}"
    and invar_push: "invar q \<Longrightarrow> invar (push q x)"
    and elems_push: "invar q \<Longrightarrow> elems (push q x) = add_mset x (elems q)"
    and invar_pop: "invar q \<Longrightarrow> invar (pop q)"
    and elems_pop: "invar q \<Longrightarrow> elems q \<noteq> {#} \<Longrightarrow> elems (pop q) = elems q - {#top q#}"
    and top_in: "invar q \<Longrightarrow> elems q \<noteq> {#} \<Longrightarrow> top q \<in># elems q"
    and top_le: "invar q \<Longrightarrow> x \<in># elems q \<Longrightarrow> top q \<le> x"
begin

lemma top_push:
  assumes "invar q"
  shows "top (push q x) = (if elems q = {#} then x else min x (top q))"
proof -
  have i: "invar (push q x)" and e: "elems (push q x) = add_mset x (elems q)"
    using assms by (simp_all add: invar_push elems_push)
  have m: "top (push q x) \<in># add_mset x (elems q)" using top_in [OF i] e by simp
  show ?thesis
  proof (cases "elems q = {#}")
    case True
    with m show ?thesis by simp
  next
    case False
    then have t: "top q \<in># elems q" by (rule top_in [OF assms])
    have "top (push q x) \<le> x" "top (push q x) \<le> top q" using top_le [OF i] e t by simp_all
    moreover have "top (push q x) = x \<or> top q \<le> top (push q x)" using m top_le [OF assms] by auto
    ultimately have "top (push q x) = min x (top q)" using m by (auto simp: min_def)
    with False show ?thesis by simp
  qed
qed

lemma pop_in_order:
  assumes "invar q" "x \<in># elems (pop q)" "elems q \<noteq> {#}"
  shows "top q \<le> x"
  using assms top_le [OF assms(1)] by (auto simp: elems_pop dest: in_diffD)

lemma pop_elems_subset: "invar q \<Longrightarrow> elems q \<noteq> {#} \<Longrightarrow> elems (pop q) \<subseteq># elems q"
  by (simp add: elems_pop)

end

section \<open>The heap is a priority queue\<close>

abbreviation parent :: "nat \<Rightarrow> nat" where
  "parent i \<equiv> (i - 1) div 2"

definition heap_ok :: "nat list \<Rightarrow> bool" where
  "heap_ok h \<longleftrightarrow> (\<forall>i. 0 < i \<and> i < length h \<longrightarrow> h ! parent i \<le> h ! i)"

text \<open>A heap but for the position \<open>i\<close>, whose children are above its parent.\<close>

definition heap_hole :: "nat list \<Rightarrow> nat \<Rightarrow> bool" where
  "heap_hole h i \<longleftrightarrow> i < length h \<and>
     (\<forall>j. 0 < j \<and> j < length h \<and> j \<noteq> i \<and> parent j \<noteq> i \<longrightarrow> h ! parent j \<le> h ! j) \<and>
     (\<forall>j. 0 < i \<and> 0 < j \<and> j < length h \<and> parent j = i \<longrightarrow> h ! parent i \<le> h ! j)"

lemma heap_hole_fill:
  assumes "heap_hole h i" "0 < i \<longrightarrow> h ! parent i \<le> x" "\<forall>j. 0 < j \<and> j < length h \<and> parent j = i \<longrightarrow> x \<le> h ! j"
  shows "heap_ok (h[i := x])"
  unfolding heap_ok_def
proof (intro allI impI)
  fix j assume j: "0 < j \<and> j < length (h[i := x])"
  have p: "parent j < j" using j by auto
  show "h[i := x] ! parent j \<le> h[i := x] ! j"
  proof (cases "j = i")
    case True
    with j p assms(2) show ?thesis by (simp add: nth_list_update)
  next
    case False
    with j p assms(1,3) show ?thesis by (auto simp: nth_list_update heap_hole_def)
  qed
qed

lemma heap_hole_up:
  assumes "heap_hole h i" "0 < i"
  shows "heap_hole (h[i := h ! parent i]) (parent i)"
proof -
  have p: "parent i < i" using assms(2) by auto
  have i: "i < length h" using assms(1) by (simp add: heap_hole_def)
  have e: "\<And>j. 0 < j \<Longrightarrow> j < length h \<Longrightarrow> j \<noteq> i \<Longrightarrow> parent j \<noteq> i \<Longrightarrow> h ! parent j \<le> h ! j"
    and c: "\<And>j. 0 < j \<Longrightarrow> j < length h \<Longrightarrow> parent j = i \<Longrightarrow> h ! parent i \<le> h ! j"
    using assms by (auto simp: heap_hole_def)
  show ?thesis
    unfolding heap_hole_def
  proof (intro conjI allI impI)
    show "parent i < length (h[i := h ! parent i])" using p i by simp
  next
    fix j assume j: "0 < j \<and> j < length (h[i := h ! parent i]) \<and> j \<noteq> parent i \<and> parent j \<noteq> parent i"
    then have "j \<noteq> i" by auto
    with j i e [of j] c [of j] show "h[i := h ! parent i] ! parent j \<le> h[i := h ! parent i] ! j"
      by (cases "parent j = i") (simp_all add: nth_list_update)
  next
    fix j assume j: "0 < parent i \<and> 0 < j \<and> j < length (h[i := h ! parent i]) \<and> parent j = parent i"
    have pp: "parent (parent i) < parent i" using j by linarith
    have u: "h ! parent (parent i) \<le> h ! parent i" using e [of "parent i"] j p i pp by simp
    show "h[i := h ! parent i] ! parent (parent i) \<le> h[i := h ! parent i] ! j"
    proof (cases "j = i")
      case True
      with u i p pp show ?thesis by (simp add: nth_list_update)
    next
      case False
      with e [of j] j p have "h ! parent i \<le> h ! j" by auto
      with False u p pp show ?thesis by (simp add: nth_list_update)
    qed
  qed
qed

lemma heap_ok_sift_up:
  "heap_hole h i \<Longrightarrow> \<forall>j. 0 < j \<and> j < length h \<and> parent j = i \<longrightarrow> w \<le> h ! j \<Longrightarrow> heap_ok (sift_up h i w)"
proof (induction h i w rule: sift_up.induct)
  case (1 h i w)
  show ?case
  proof (cases "i = 0 \<or> h ! parent i \<le> w")
    case True
    then have "heap_ok (h[i := w])" using heap_hole_fill [OF "1.prems"(1) _ "1.prems"(2)] by auto
    with True show ?thesis by (auto simp: sift_up.simps [of h i w] Let_def)
  next
    case False
    then have p: "0 < i" "\<not> h ! parent i \<le> w" "parent i < i" by auto
    have "\<forall>j. 0 < j \<and> j < length (h[i := h ! parent i]) \<and> parent j = parent i \<longrightarrow> w \<le> h[i := h ! parent i] ! j"
    proof (intro allI impI)
      fix j assume j: "0 < j \<and> j < length (h[i := h ! parent i]) \<and> parent j = parent i"
      show "w \<le> h[i := h ! parent i] ! j"
      proof (cases "j = i")
        case True
        with p j show ?thesis by simp
      next
        case False
        with "1.prems"(1) j p(3) have "h ! parent i \<le> h ! j" by (auto simp: heap_hole_def)
        with p(2) False show ?thesis by simp
      qed
    qed
    then have "heap_ok (sift_up (h[i := h ! parent i]) (parent i) w)"
      using "1.IH" [OF _ refl] False heap_hole_up [OF "1.prems"(1) p(1)] by simp
    with False show ?thesis by (simp add: sift_up.simps [of h i w] Let_def)
  qed
qed

lemma mset_two_updates:
  "i < length h \<Longrightarrow> p < length h \<Longrightarrow> i \<noteq> p \<Longrightarrow> mset (h[i := h ! p, p := w]) = mset (h[i := w])"
  by (simp add: mset_update nth_list_update)

lemma mset_sift_up: "i < length h \<Longrightarrow> mset (sift_up h i w) = mset (h[i := w])"
proof (induction h i w rule: sift_up.induct)
  case (1 h i w)
  show ?case
  proof (cases "i = 0 \<or> h ! parent i \<le> w")
    case True
    then show ?thesis by (auto simp: sift_up.simps [of h i w] Let_def)
  next
    case False
    then have p: "parent i < i" by auto
    have "mset (sift_up (h[i := h ! parent i]) (parent i) w) = mset (h[i := h ! parent i, parent i := w])"
      using "1.IH" [OF _ refl] False "1.prems" p by simp
    also have "\<dots> = mset (h[i := w])" using "1.prems" p by (intro mset_two_updates) auto
    finally show ?thesis using False by (simp add: sift_up.simps [of h i w] Let_def)
  qed
qed

lemma heap_hole_down:
  assumes "heap_hole h i" "0 < c" "c < length h" "parent c = i"
    and m: "\<forall>j. 0 < j \<and> j < length h \<and> parent j = i \<longrightarrow> h ! c \<le> h ! j"
  shows "heap_hole (h[i := h ! c]) c"
proof -
  have i: "i < c" using assms(2,4) by linarith
  have e: "\<And>j. 0 < j \<Longrightarrow> j < length h \<Longrightarrow> j \<noteq> i \<Longrightarrow> parent j \<noteq> i \<Longrightarrow> h ! parent j \<le> h ! j"
    and up: "0 < i \<Longrightarrow> h ! parent i \<le> h ! c"
    using assms(1-4) by (auto simp: heap_hole_def)
  show ?thesis
    unfolding heap_hole_def
  proof (intro conjI allI impI)
    show "c < length (h[i := h ! c])" using assms(3) by simp
  next
    fix j assume j: "0 < j \<and> j < length (h[i := h ! c]) \<and> j \<noteq> c \<and> parent j \<noteq> c"
    have pj: "parent j < j" using j by linarith
    show "h[i := h ! c] ! parent j \<le> h[i := h ! c] ! j"
    proof (cases "j = i")
      case True
      with up j pj show ?thesis by (simp add: nth_list_update)
    next
      case False
      have "i < length h" using i assms(3) by simp
      with False e [of j] m j show ?thesis by (cases "parent j = i") (simp_all add: nth_list_update)
    qed
  next
    fix j assume j: "0 < c \<and> 0 < j \<and> j < length (h[i := h ! c]) \<and> parent j = c"
    have "j \<noteq> i" using j i by linarith
    with e [of j] j i assms(3,4) show "h[i := h ! c] ! parent c \<le> h[i := h ! c] ! j"
      by (simp add: nth_list_update)
  qed
qed

lemma children: "0 < j \<Longrightarrow> parent j = i \<longleftrightarrow> j = i * 2 + 1 \<or> j = i * 2 + 2" for i j :: nat
  by linarith

text \<open>The child the loop of \<open>popStartedExclusive\<close> compares with.\<close>

definition least_child :: "nat list \<Rightarrow> nat \<Rightarrow> nat" where
  "least_child h i = (if i * 2 + 2 < length h \<and> h ! (i * 2 + 2) < h ! (i * 2 + 1) then i * 2 + 2 else i * 2 + 1)"

lemma sift_down_unfold:
  "sift_down h i x = (if i * 2 + 1 \<ge> length h \<or> h ! least_child h i \<ge> x then h[i := x]
     else sift_down (h[i := h ! least_child h i]) (least_child h i) x)"
  by (subst sift_down.simps) (simp add: Let_def least_child_def)

lemma least_child_props:
  assumes "i * 2 + 1 < length h"
  shows "0 < least_child h i" "least_child h i < length h" "parent (least_child h i) = i" "i < least_child h i"
    "\<forall>j. 0 < j \<and> j < length h \<and> parent j = i \<longrightarrow> h ! least_child h i \<le> h ! j"
proof -
  show "0 < least_child h i" "least_child h i < length h" "parent (least_child h i) = i" "i < least_child h i"
    using assms by (simp_all add: least_child_def)
  show "\<forall>j. 0 < j \<and> j < length h \<and> parent j = i \<longrightarrow> h ! least_child h i \<le> h ! j"
  proof (intro allI impI)
    fix j assume j: "0 < j \<and> j < length h \<and> parent j = i"
    then have "j = i * 2 + 1 \<or> j = i * 2 + 2" using children [of j i] by blast
    with j show "h ! least_child h i \<le> h ! j" by (auto simp: least_child_def)
  qed
qed

lemma sift_down_props:
  "heap_hole h i \<Longrightarrow> (0 < i \<longrightarrow> h ! parent i \<le> x) \<Longrightarrow>
     heap_ok (sift_down h i x) \<and> mset (sift_down h i x) = mset (h[i := x])"
proof (induction "length h - i" arbitrary: h i rule: less_induct)
  case less
  note prems = less.prems
  have i: "i < length h" using prems(1) by (simp add: heap_hole_def)
  show ?case
  proof (cases "i * 2 + 1 \<ge> length h")
    case True
    then have "\<forall>j. 0 < j \<and> j < length h \<and> parent j = i \<longrightarrow> x \<le> h ! j" using children by auto
    with heap_hole_fill [OF prems] have "heap_ok (h[i := x])" .
    moreover have "sift_down h i x = h[i := x]" using True by (subst sift_down_unfold) simp
    ultimately show ?thesis by simp
  next
    case False
    define c where "c = least_child h i"
    have c: "0 < c" "c < length h" "parent c = i" "i < c"
        "\<forall>j. 0 < j \<and> j < length h \<and> parent j = i \<longrightarrow> h ! c \<le> h ! j"
      using least_child_props [of i h] False by (simp_all add: c_def)
    show ?thesis
    proof (cases "h ! c \<ge> x")
      case True
      then have "\<forall>j. 0 < j \<and> j < length h \<and> parent j = i \<longrightarrow> x \<le> h ! j" using c(5) by fastforce
      with heap_hole_fill [OF prems] have "heap_ok (h[i := x])" .
      moreover have "sift_down h i x = h[i := x]" using True by (subst sift_down_unfold) (simp add: c_def)
      ultimately show ?thesis by simp
    next
      case x: False
      have hole: "heap_hole (h[i := h ! c]) c" by (rule heap_hole_down [OF prems(1) c(1-3,5)])
      have fresh: "0 < c \<longrightarrow> h[i := h ! c] ! parent c \<le> x" using c i x by simp
      have "heap_ok (sift_down (h[i := h ! c]) c x) \<and> mset (sift_down (h[i := h ! c]) c x) = mset (h[i := h ! c, c := x])"
        using less.hyps [OF _ hole fresh] c i by simp
      moreover have "mset (h[i := h ! c, c := x]) = mset (h[i := x])" using i c by (intro mset_two_updates) auto
      moreover have "sift_down h i x = sift_down (h[i := h ! c]) c x"
        using False x by (subst sift_down_unfold) (simp add: c_def)
      ultimately show ?thesis by simp
    qed
  qed
qed

lemma heap_ok_hd: "heap_ok h \<Longrightarrow> i < length h \<Longrightarrow> h ! 0 \<le> h ! i"
proof (induction i rule: less_induct)
  case (less i)
  show ?case
  proof (cases "i = 0")
    case False
    then have "parent i < i" by auto
    then have "h ! 0 \<le> h ! parent i" using less.IH [of "parent i"] less.prems by simp
    also have "\<dots> \<le> h ! i" using less.prems False unfolding heap_ok_def by blast
    finally show ?thesis .
  qed simp
qed

lemma push_props:
  assumes "heap_ok h"
  shows "heap_ok (pushStartedExclusive h w) \<and> mset (pushStartedExclusive h w) = add_mset w (mset h)"
proof -
  have np: "parent j \<noteq> length h" if "0 < j" "j < length (h @ [w])" for j using that by auto
  have "heap_hole (h @ [w]) (length h)"
    unfolding heap_hole_def
  proof (intro conjI allI impI)
    fix j assume j: "0 < j \<and> j < length (h @ [w]) \<and> j \<noteq> length h \<and> parent j \<noteq> length h"
    then have "parent j < length h" "j < length h" by auto
    with assms j show "(h @ [w]) ! parent j \<le> (h @ [w]) ! j" by (simp add: heap_ok_def nth_append)
  next
    fix j assume "0 < length h \<and> 0 < j \<and> j < length (h @ [w]) \<and> parent j = length h"
    with np show "(h @ [w]) ! parent (length h) \<le> (h @ [w]) ! j" by blast
  qed simp
  moreover have "\<forall>j. 0 < j \<and> j < length (h @ [w]) \<and> parent j = length h \<longrightarrow> w \<le> (h @ [w]) ! j" using np by blast
  ultimately have "heap_ok (sift_up (h @ [w]) (length h) w)" by (rule heap_ok_sift_up)
  then show ?thesis by (simp add: pushStartedExclusive_def mset_sift_up)
qed

lemma pop_props:
  assumes "heap_ok h" "h \<noteq> []"
  shows "heap_ok (popStartedExclusive h) \<and> mset (popStartedExclusive h) = mset h - {#h ! 0#}"
proof (cases h rule: rev_cases)
  case Nil
  with assms show ?thesis by simp
next
  case (snoc rest x)
  show ?thesis
  proof (cases rest)
    case Nil
    with snoc show ?thesis by (simp add: popStartedExclusive_def heap_ok_def)
  next
    case (Cons y ys)
    have "heap_ok rest"
      unfolding heap_ok_def
    proof (intro allI impI)
      fix j assume j: "0 < j \<and> j < length rest"
      then have "parent j < length rest" by auto
      moreover have "h ! parent j \<le> h ! j" using assms(1) j snoc unfolding heap_ok_def by simp
      ultimately show "rest ! parent j \<le> rest ! j" using j by (simp add: snoc nth_append)
    qed
    then have "heap_hole rest 0" using Cons unfolding heap_hole_def heap_ok_def by blast
    from sift_down_props [OF this, of x] snoc Cons show ?thesis by (simp add: popStartedExclusive_def)
  qed
qed

interpretation started_exclusive: min_queue "[]" pushStartedExclusive popStartedExclusive "\<lambda>h. h ! 0" mset heap_ok
proof
  fix h :: "nat list" and x :: nat
  show "heap_ok []" by (simp add: heap_ok_def)
  show "heap_ok h \<Longrightarrow> heap_ok (popStartedExclusive h)"
    using pop_props [of h] by (cases "h = []") (simp_all add: popStartedExclusive_def)
  show "heap_ok h \<Longrightarrow> mset h \<noteq> {#} \<Longrightarrow> h ! 0 \<in># mset h" by (cases h) auto
  show "heap_ok h \<Longrightarrow> x \<in># mset h \<Longrightarrow> h ! 0 \<le> x" by (auto simp: in_set_conv_nth heap_ok_hd)
qed (use push_props pop_props in auto)

section \<open>Dropping stale entries\<close>

lemma dropStale_props:
  "heap_ok heap \<Longrightarrow> heap_ok (dropStale queued heap) \<and> mset (dropStale queued heap) \<subseteq># mset heap \<and>
     set (dropStale queued heap) \<inter> set queued = set heap \<inter> set queued \<and>
     (dropStale queued heap \<noteq> [] \<longrightarrow> hd (dropStale queued heap) \<in> set queued)"
proof (induction queued heap rule: dropStale.induct)
  case (1 queued heap)
  show ?case
  proof (cases "heap = [] \<or> hd heap \<in> set queued")
    case True
    then have "dropStale queued heap = heap" by (subst dropStale.simps) auto
    with True "1.prems" show ?thesis by auto
  next
    case False
    then have hd: "heap ! 0 = hd heap" by (simp add: hd_conv_nth)
    have p: "heap_ok (popStartedExclusive heap)" "mset (popStartedExclusive heap) = mset heap - {#hd heap#}"
      using pop_props [OF "1.prems"] False hd by auto
    have ih: "heap_ok (dropStale queued (popStartedExclusive heap)) \<and>
        mset (dropStale queued (popStartedExclusive heap)) \<subseteq># mset (popStartedExclusive heap) \<and>
        set (dropStale queued (popStartedExclusive heap)) \<inter> set queued = set (popStartedExclusive heap) \<inter> set queued \<and>
        (dropStale queued (popStartedExclusive heap) \<noteq> [] \<longrightarrow> hd (dropStale queued (popStartedExclusive heap)) \<in> set queued)"
      using "1.IH" False p(1) by blast
    have m: "mset heap = add_mset (hd heap) (mset (popStartedExclusive heap))"
      using p(2) False by simp
    have s: "set heap = insert (hd heap) (set (popStartedExclusive heap))"
      using arg_cong [OF m, of set_mset] by simp
    have sub: "mset (dropStale queued (popStartedExclusive heap)) \<subseteq># mset heap"
    proof (rule subset_mset.order_trans)
      show "mset (dropStale queued (popStartedExclusive heap)) \<subseteq># mset (popStartedExclusive heap)" using ih by blast
      show "mset (popStartedExclusive heap) \<subseteq># mset heap" unfolding p(2) by (rule diff_subset_eq_self)
    qed
    have e: "dropStale queued heap = dropStale queued (popStartedExclusive heap)"
      using False by (subst dropStale.simps) simp
    have "hd heap \<notin> set queued" using False by blast
    then have i: "set heap \<inter> set queued = set (popStartedExclusive heap) \<inter> set queued"
      by (simp only: s Int_insert_left if_False)
    show ?thesis unfolding e i using ih sub by blast
  qed
qed

end
