(* ===== verification/Browser_Gate.thy ===== *)
theory Browser_Gate
  imports Gate_Heap
begin

text \<open>
  The browser gate of \<open>runtime/tab-coordinator.ts\<close>: a writer-preferring readers/writer gate
  with bounded writer turns. Browser acquisitions are exclusive, tab transactions are shared.
  Waiters are identified by their reservation sequence number (the code's \<open>requestId\<close> is a
  random name for the same object). Sets keep insertion order, as JavaScript's do.
\<close>

named_theorems gate_simps "fields of the gate after an operation"

section \<open>State\<close>

datatype waiter_kind = Exclusive | Shared

datatype cancel_phase = Queued_phase | In_flight_phase

datatype coordinator_error =
    Queue_full
  | Aborted cancel_phase
  | Deadline_exceeded cancel_phase
  | Invalid_request string
  | Invalid_resource_key string
  | Reentrant_acquisition
  | Callback_error string

text \<open>The promise of a waiter: it is created by \<open>start\<close> and settled once.\<close>

datatype lease_promise = No_promise | Pending_lease | Lease_granted | Lease_rejected coordinator_error

record waiter =
  w_kind :: waiter_kind
  w_started :: bool
  w_acquired :: bool
  w_settled :: bool
  w_promise :: lease_promise

record browser_gate =
  g_waiter :: "nat \<Rightarrow> waiter"
  g_queued :: "nat list"
  g_startedShared :: "nat list"
  g_startedExclusiveHeap :: "nat list"
  g_activeShared :: "nat list"
  g_activeExclusive :: "nat option"
  g_queuedExclusiveCount :: int
  g_queuedSharedCount :: int
  g_sequence :: nat
  g_drainScheduled :: bool
  g_rejectedCount :: nat
  g_consecutiveExclusive :: nat
  g_acceptedSharedReservations :: int
  g_pendingSharedReservations :: int

record gate_limits =
  gl_maxQueueSize :: nat
  gl_maxConsecutiveExclusives :: nat

definition new_waiter :: "waiter_kind \<Rightarrow> waiter" where
  "new_waiter k = \<lparr>w_kind = k, w_started = False, w_acquired = False, w_settled = False,
     w_promise = No_promise\<rparr>"

definition new_gate :: browser_gate where
  "new_gate = \<lparr>g_waiter = (\<lambda>_. new_waiter Exclusive), g_queued = [], g_startedShared = [],
     g_startedExclusiveHeap = [], g_activeShared = [], g_activeExclusive = None,
     g_queuedExclusiveCount = 0, g_queuedSharedCount = 0, g_sequence = 0, g_drainScheduled = False,
     g_rejectedCount = 0, g_consecutiveExclusive = 0, g_acceptedSharedReservations = 0,
     g_pendingSharedReservations = 0\<rparr>"

definition set_waiter :: "browser_gate \<Rightarrow> nat \<Rightarrow> waiter \<Rightarrow> browser_gate" where
  "set_waiter g w x = g\<lparr>g_waiter := (g_waiter g)(w := x)\<rparr>"

definition set_add :: "nat \<Rightarrow> nat list \<Rightarrow> nat list" where
  "set_add x xs = (if x \<in> set xs then xs else xs @ [x])"

section \<open>Operations\<close>

definition queueDepth :: "browser_gate \<Rightarrow> int" where
  "queueDepth g = int (length (g_queued g)) + g_pendingSharedReservations g"

text \<open>A throwing operation also changes the state: the counter of rejections.\<close>

definition assertReservationCapacity ::
  "gate_limits \<Rightarrow> browser_gate \<Rightarrow> coordinator_error option \<times> browser_gate" where
  "assertReservationCapacity L g =
     (if queueDepth g < int (gl_maxQueueSize L) then (None, g)
      else (Some Queue_full, g\<lparr>g_rejectedCount := g_rejectedCount g + 1\<rparr>))"

definition reserve ::
  "gate_limits \<Rightarrow> waiter_kind \<Rightarrow> browser_gate \<Rightarrow> (coordinator_error + nat) \<times> browser_gate" where
  "reserve L k g = (case assertReservationCapacity L g of
     (Some e, g') \<Rightarrow> (Inl e, g')
   | (None, g') \<Rightarrow> let w = g_sequence g' + 1; g1 = set_waiter g' w (new_waiter k) in
       (Inr w, g1\<lparr>g_sequence := w, g_queued := set_add w (g_queued g1),
          g_queuedExclusiveCount := g_queuedExclusiveCount g1 + (if k = Exclusive then 1 else 0),
          g_queuedSharedCount := g_queuedSharedCount g1 + (if k = Exclusive then 0 else 1)\<rparr>))"

definition hasExclusiveWaiter :: "browser_gate \<Rightarrow> bool" where
  "hasExclusiveWaiter g \<longleftrightarrow> g_queuedExclusiveCount g > 0"

definition scheduleDrain :: "browser_gate \<Rightarrow> browser_gate" where
  "scheduleDrain g = g\<lparr>g_drainScheduled := True\<rparr>"

definition removeQueued :: "nat \<Rightarrow> browser_gate \<Rightarrow> browser_gate" where
  "removeQueued w g =
     (if w \<notin> set (g_queued g) then g
      else if w_kind (g_waiter g w) = Exclusive
      then g\<lparr>g_queued := removeAll w (g_queued g), g_queuedExclusiveCount := g_queuedExclusiveCount g - 1\<rparr>
      else g\<lparr>g_queued := removeAll w (g_queued g), g_queuedSharedCount := g_queuedSharedCount g - 1,
             g_startedShared := removeAll w (g_startedShared g)\<rparr>)"

definition cancel :: "nat \<Rightarrow> coordinator_error \<Rightarrow> browser_gate \<Rightarrow> browser_gate" where
  "cancel w reason g = (let x = g_waiter g w in
     if w_settled x \<or> w_acquired x then g
     else scheduleDrain (set_waiter (removeQueued w g) w (x\<lparr>w_settled := True,
            w_promise := (if w_started x then Lease_rejected reason else w_promise x)\<rparr>)))"

definition release :: "nat \<Rightarrow> browser_gate \<Rightarrow> browser_gate" where
  "release w g = (let x = g_waiter g w in
     if w_settled x then g
     else if \<not> w_acquired x then cancel w (Aborted In_flight_phase) g
     else let g1 = set_waiter g w (x\<lparr>w_acquired := False, w_settled := True\<rparr>) in
       scheduleDrain (if w_kind x = Exclusive
         then (if g_activeExclusive g1 = Some w then g1\<lparr>g_activeExclusive := None\<rparr> else g1)
         else g1\<lparr>g_activeShared := removeAll w (g_activeShared g1)\<rparr>))"

definition settle :: "nat \<Rightarrow> browser_gate \<Rightarrow> browser_gate" where
  "settle w g = (let x = g_waiter g w in
     if w_settled x then g
     else if w_acquired x then release w g
     else cancel w (Aborted In_flight_phase) g)"

text \<open>The abort listener of a started waiter: it does nothing once the waiter is acquired or settled.\<close>

definition onAbort :: "nat \<Rightarrow> coordinator_error \<Rightarrow> browser_gate \<Rightarrow> browser_gate" where
  "onAbort w reason g = (let x = g_waiter g w in
     if \<not> w_started x \<or> w_acquired x \<or> w_settled x then g
     else cancel w (case reason of
        Deadline_exceeded _ \<Rightarrow> reason | Aborted _ \<Rightarrow> reason | _ \<Rightarrow> Aborted In_flight_phase) g)"

text \<open>\<open>start\<close>; \<open>aborted\<close> is the reason of a signal that is aborted already.\<close>

definition start :: "nat \<Rightarrow> coordinator_error option \<Rightarrow> browser_gate \<Rightarrow> coordinator_error option \<times> browser_gate" where
  "start w aborted g = (let x = g_waiter g w in
     if w_settled x then (Some (Invalid_request ''coordinator admission is no longer active''), g)
     else if w_started x then (Some (Invalid_request ''coordinator admission was started more than once''), g)
     else let g1 = set_waiter g w (x\<lparr>w_started := True, w_promise := Pending_lease\<rparr>);
              g2 = (if w_kind x = Exclusive
                    then g1\<lparr>g_startedExclusiveHeap := pushStartedExclusive (g_startedExclusiveHeap g1) w\<rparr>
                    else g1\<lparr>g_startedShared := set_add w (g_startedShared g1)\<rparr>);
              g3 = (case aborted of None \<Rightarrow> g2 | Some r \<Rightarrow> onAbort w r g2)
          in (None, scheduleDrain g3))"

definition grant :: "nat \<Rightarrow> browser_gate \<Rightarrow> browser_gate" where
  "grant w g = (let x = g_waiter g w in
     if w \<notin> set (g_queued g) \<or> w_settled x \<or> \<not> w_started x then g
     else let g1 = set_waiter (removeQueued w g) w (x\<lparr>w_acquired := True, w_promise := Lease_granted\<rparr>) in
       if w_kind x = Exclusive then g1\<lparr>g_activeExclusive := Some w\<rparr>
       else g1\<lparr>g_activeShared := set_add w (g_activeShared g1)\<rparr>)"

definition drain :: "gate_limits \<Rightarrow> browser_gate \<Rightarrow> browser_gate" where
  "drain L g =
     (if g_activeExclusive g \<noteq> None then g
      else if g_activeShared g \<noteq> [] \<and> hasExclusiveWaiter g then g
      else let g1 = g\<lparr>g_startedExclusiveHeap := dropStale (g_queued g) (g_startedExclusiveHeap g)\<rparr> in
        if g_startedShared g1 \<noteq> [] \<and> g_consecutiveExclusive g1 \<ge> gl_maxConsecutiveExclusives L
        then (fold grant (g_startedShared g1) g1)\<lparr>g_consecutiveExclusive := 0\<rparr>
        else if g_startedExclusiveHeap g1 \<noteq> [] \<and> g_activeShared g1 = []
        then (let g2 = grant (hd (g_startedExclusiveHeap g1)) g1
              in g2\<lparr>g_consecutiveExclusive := g_consecutiveExclusive g2 + 1\<rparr>)
        else if hasExclusiveWaiter g1 then g1
        else fold grant (g_startedShared g1) g1)"

text \<open>The microtask that \<open>scheduleDrain\<close> queues.\<close>

definition run_microtask :: "gate_limits \<Rightarrow> browser_gate \<Rightarrow> browser_gate" where
  "run_microtask L g = (if g_drainScheduled g then drain L (g\<lparr>g_drainScheduled := False\<rparr>) else g)"

definition gate_isIdle :: "browser_gate \<Rightarrow> bool" where
  "gate_isIdle g \<longleftrightarrow> g_queued g = [] \<and> g_activeExclusive g = None \<and> g_activeShared g = [] \<and>
     g_acceptedSharedReservations g = 0"

record gate_snapshot =
  gd_queueDepth :: int
  gd_active :: bool
  gd_activeSharedCount :: nat
  gd_queuedExclusiveCount :: int
  gd_queuedSharedCount :: int
  gd_rejectedCount :: nat
  gd_activeExclusive :: "nat option"

definition gate_snapshot_of :: "browser_gate \<Rightarrow> gate_snapshot" where
  "gate_snapshot_of g =
     \<lparr>gd_queueDepth = queueDepth g,
      gd_active = (g_activeExclusive g \<noteq> None \<or> g_activeShared g \<noteq> []),
      gd_activeSharedCount = length (g_activeShared g),
      gd_queuedExclusiveCount = g_queuedExclusiveCount g,
      gd_queuedSharedCount = g_queuedSharedCount g + g_pendingSharedReservations g,
      gd_rejectedCount = g_rejectedCount g,
      gd_activeExclusive = g_activeExclusive g\<rparr>"

section \<open>Admissions\<close>

text \<open>
  The closures of \<open>createExclusiveAdmission\<close> and \<open>createSharedAdmission\<close>: their captured
  variables are the fields, their hooks the operations.
\<close>

record admission =
  ad_kind :: waiter_kind
  ad_waiter :: "nat option"
  ad_accepted :: bool
  ad_started :: bool

definition new_admission :: "waiter_kind \<Rightarrow> admission" where
  "new_admission k = \<lparr>ad_kind = k, ad_waiter = None, ad_accepted = False, ad_started = False\<rparr>"

definition onAccepted ::
  "gate_limits \<Rightarrow> admission \<Rightarrow> browser_gate \<Rightarrow> coordinator_error option \<times> admission \<times> browser_gate" where
  "onAccepted L a g =
     (if ad_kind a = Exclusive then
        (if ad_waiter a \<noteq> None
         then (Some (Invalid_request ''browser admission was accepted more than once''), a, g)
         else case reserve L Exclusive g of
           (Inl e, g') \<Rightarrow> (Some e, a, g')
         | (Inr w, g') \<Rightarrow> (None, a\<lparr>ad_waiter := Some w\<rparr>, g'))
      else if ad_accepted a
      then (Some (Invalid_request ''tab admission was accepted more than once''), a, g)
      else case assertReservationCapacity L g of
        (Some e, g') \<Rightarrow> (Some e, a, g')
      | (None, g') \<Rightarrow> (None, a\<lparr>ad_accepted := True, ad_started := False\<rparr>,
          g'\<lparr>g_acceptedSharedReservations := g_acceptedSharedReservations g' + 1,
             g_pendingSharedReservations := g_pendingSharedReservations g' + 1\<rparr>))"

definition onStarted :: "gate_limits \<Rightarrow> coordinator_error option \<Rightarrow> admission \<Rightarrow> browser_gate
    \<Rightarrow> coordinator_error option \<times> admission \<times> browser_gate" where
  "onStarted L aborted a g =
     (if ad_kind a = Exclusive then
        (case ad_waiter a of
           None \<Rightarrow> (Some (Invalid_request ''browser admission was not accepted''), a, g)
         | Some w \<Rightarrow> (case start w aborted g of (e, g') \<Rightarrow> (e, a, g')))
      else if \<not> ad_accepted a \<or> ad_waiter a \<noteq> None
      then (Some (Invalid_request ''tab admission was accepted more than once''), a, g)
      else let g1 = g\<lparr>g_pendingSharedReservations := g_pendingSharedReservations g - 1\<rparr> in
        case reserve L Shared g1 of
          (Inl e, g') \<Rightarrow> (Some e, a,
             g'\<lparr>g_pendingSharedReservations := g_pendingSharedReservations g' + 1\<rparr>)
        | (Inr w, g') \<Rightarrow> (case start w aborted g' of (e, g2) \<Rightarrow>
             (e, a\<lparr>ad_waiter := Some w, ad_started := True\<rparr>, g2)))"

text \<open>The common tail of a shared admission's \<open>onAbandoned\<close> and \<open>onSettled\<close>.\<close>

definition return_reservation :: "admission \<Rightarrow> browser_gate \<Rightarrow> browser_gate" where
  "return_reservation a g =
     (if ad_accepted a then g
        \<lparr>g_acceptedSharedReservations := g_acceptedSharedReservations g - 1,
         g_pendingSharedReservations := g_pendingSharedReservations g - (if ad_started a then 0 else 1)\<rparr>
      else g)"

definition onAbandoned :: "admission \<Rightarrow> browser_gate \<Rightarrow> admission \<times> browser_gate" where
  "onAbandoned a g =
     (let g1 = (case ad_waiter a of None \<Rightarrow> g | Some w \<Rightarrow> cancel w (Aborted In_flight_phase) g) in
      if ad_kind a = Exclusive then (a\<lparr>ad_waiter := None\<rparr>, g1)
      else (a\<lparr>ad_waiter := None, ad_accepted := False, ad_started := False\<rparr>, return_reservation a g1))"

definition onSettled :: "admission \<Rightarrow> browser_gate \<Rightarrow> admission \<times> browser_gate" where
  "onSettled a g =
     (let g1 = (case ad_waiter a of None \<Rightarrow> g | Some w \<Rightarrow> settle w g) in
      if ad_kind a = Exclusive then (a\<lparr>ad_waiter := None\<rparr>, g1)
      else (a\<lparr>ad_waiter := None, ad_accepted := False, ad_started := False\<rparr>, return_reservation a g1))"

end
