(* ===== verification/Gate_Facts.thy ===== *)
theory Gate_Facts
  imports Browser_Gate
begin

text \<open>
  The invariant of the browser gate and its preservation by every operation of
  \<open>BrowserGate\<close>. The invariant ties the redundant parts of the state together: the waiters'
  flags, the queue, the two counters, the set of started shared waiters, the lazily pruned heap,
  and the active leases.
\<close>

section \<open>The invariant\<close>

definition gate_waiter :: "browser_gate \<Rightarrow> nat \<Rightarrow> bool" where
  "gate_waiter g w \<longleftrightarrow> 0 < w \<and> w \<le> g_sequence g"

abbreviation is_exclusive :: "browser_gate \<Rightarrow> nat \<Rightarrow> bool" where
  "is_exclusive g w \<equiv> w_kind (g_waiter g w) = Exclusive"

definition flags_ok :: "browser_gate \<Rightarrow> bool" where
  "flags_ok g \<longleftrightarrow> (\<forall>w. gate_waiter g w \<longrightarrow>
     (w_acquired (g_waiter g w) \<longrightarrow> w_started (g_waiter g w) \<and> \<not> w_settled (g_waiter g w)) \<and>
     (w \<in> set (g_queued g) \<longleftrightarrow> \<not> w_settled (g_waiter g w) \<and> \<not> w_acquired (g_waiter g w)))"

definition queue_ok :: "browser_gate \<Rightarrow> bool" where
  "queue_ok g \<longleftrightarrow> distinct (g_queued g) \<and> (\<forall>w \<in> set (g_queued g). gate_waiter g w) \<and>
     g_queuedExclusiveCount g = int (length (filter (is_exclusive g) (g_queued g))) \<and>
     g_queuedSharedCount g = int (length (filter (\<lambda>w. \<not> is_exclusive g w) (g_queued g)))"

definition started_ok :: "browser_gate \<Rightarrow> bool" where
  "started_ok g \<longleftrightarrow> distinct (g_startedShared g) \<and>
     set (g_startedShared g) = {w \<in> set (g_queued g). w_started (g_waiter g w) \<and> \<not> is_exclusive g w} \<and>
     heap_ok (g_startedExclusiveHeap g) \<and>
     set (g_startedExclusiveHeap g) \<subseteq> {w. gate_waiter g w \<and> w_started (g_waiter g w) \<and> is_exclusive g w} \<and>
     {w \<in> set (g_queued g). w_started (g_waiter g w) \<and> is_exclusive g w} \<subseteq> set (g_startedExclusiveHeap g)"

definition active_ok :: "browser_gate \<Rightarrow> bool" where
  "active_ok g \<longleftrightarrow> distinct (g_activeShared g) \<and>
     set (g_activeShared g) = {w. gate_waiter g w \<and> w_acquired (g_waiter g w) \<and> \<not> is_exclusive g w} \<and>
     set_option (g_activeExclusive g) = {w. gate_waiter g w \<and> w_acquired (g_waiter g w) \<and> is_exclusive g w} \<and>
     (g_activeExclusive g \<noteq> None \<longrightarrow> g_activeShared g = [])"

text \<open>The promise of a waiter follows its flags.\<close>

definition promise_matches :: "bool \<Rightarrow> waiter \<Rightarrow> bool" where
  "promise_matches queued x = (case w_promise x of
       No_promise \<Rightarrow> \<not> w_started x
     | Pending_lease \<Rightarrow> w_started x \<and> queued
     | Lease_granted \<Rightarrow> w_started x \<and> (w_acquired x \<or> w_settled x)
     | Lease_rejected e \<Rightarrow> w_started x \<and> w_settled x)"

definition promise_ok :: "browser_gate \<Rightarrow> bool" where
  "promise_ok g \<longleftrightarrow> (\<forall>w. gate_waiter g w \<longrightarrow> promise_matches (w \<in> set (g_queued g)) (g_waiter g w))"

definition gate_inv :: "browser_gate \<Rightarrow> bool" where
  "gate_inv g \<longleftrightarrow> flags_ok g \<and> queue_ok g \<and> started_ok g \<and> active_ok g \<and> promise_ok g"

lemmas gate_inv_defs = gate_inv_def flags_ok_def queue_ok_def started_ok_def active_ok_def promise_ok_def

section \<open>Helpers\<close>

lemma set_set_add [simp]: "set (set_add x xs) = insert x (set xs)"
  by (auto simp: set_add_def)

lemma distinct_set_add [simp]: "distinct xs \<Longrightarrow> distinct (set_add x xs)"
  by (simp add: set_add_def)

lemma set_add_new: "x \<notin> set xs \<Longrightarrow> set_add x xs = xs @ [x]"
  by (simp add: set_add_def)

lemma set_add_not_Nil [simp]: "set_add x xs \<noteq> []"
  by (auto simp: set_add_def)

lemma length_filter_removeAll:
  assumes "distinct xs" "x \<in> set xs"
  shows "int (length (filter P (removeAll x xs))) = int (length (filter P xs)) - (if P x then 1 else 0)"
  using assms by (induction xs) (auto simp: removeAll_id)

lemma kind_update [simp]:
  "w_kind ((f(w := (f w)\<lparr>w_settled := b, w_promise := p\<rparr>)) v) = w_kind (f v)"
  "w_kind ((f(w := (f w)\<lparr>w_acquired := b, w_settled := c\<rparr>)) v) = w_kind (f v)"
  "w_kind ((f(w := (f w)\<lparr>w_acquired := b, w_promise := p\<rparr>)) v) = w_kind (f v)"
  "w_kind ((f(w := (f w)\<lparr>w_started := b, w_promise := p\<rparr>)) v) = w_kind (f v)"
  by simp_all

lemma gate_waiter_cong: "g_sequence g' = g_sequence g \<Longrightarrow> gate_waiter g' = gate_waiter g"
  by (rule ext) (simp add: gate_waiter_def)

lemma new_gate_inv: "gate_inv new_gate"
  by (auto simp: gate_inv_defs new_gate_def gate_waiter_def heap_ok_def new_waiter_def)

lemma scheduleDrain_inv [simp]: "gate_inv (scheduleDrain g) = gate_inv g"
  by (simp add: gate_inv_defs scheduleDrain_def gate_waiter_def)

lemma reservations_inv [simp]:
  "gate_inv (g\<lparr>g_acceptedSharedReservations := n\<rparr>) = gate_inv g"
  "gate_inv (g\<lparr>g_pendingSharedReservations := n\<rparr>) = gate_inv g"
  "gate_inv (g\<lparr>g_rejectedCount := m\<rparr>) = gate_inv g"
  "gate_inv (g\<lparr>g_consecutiveExclusive := m\<rparr>) = gate_inv g"
  "gate_inv (g\<lparr>g_drainScheduled := b\<rparr>) = gate_inv g"
  by (simp_all add: gate_inv_defs gate_waiter_def)

section \<open>Removing a waiter from the queue\<close>

lemma removeQueued_other [simp]:
  "g_waiter (removeQueued w g) = g_waiter g" "g_sequence (removeQueued w g) = g_sequence g"
  "g_startedExclusiveHeap (removeQueued w g) = g_startedExclusiveHeap g"
  "g_activeShared (removeQueued w g) = g_activeShared g"
  "g_activeExclusive (removeQueued w g) = g_activeExclusive g"
  "g_drainScheduled (removeQueued w g) = g_drainScheduled g"
  "g_consecutiveExclusive (removeQueued w g) = g_consecutiveExclusive g"
  "g_acceptedSharedReservations (removeQueued w g) = g_acceptedSharedReservations g"
  "g_pendingSharedReservations (removeQueued w g) = g_pendingSharedReservations g"
  "g_rejectedCount (removeQueued w g) = g_rejectedCount g"
  "g_queued (removeQueued w g) = removeAll w (g_queued g)"
  by (simp_all add: removeQueued_def removeAll_id)

lemma removeQueued_counts:
  "w \<in> set (g_queued g) \<Longrightarrow> g_queuedExclusiveCount (removeQueued w g) = g_queuedExclusiveCount g - (if is_exclusive g w then 1 else 0)"
  "w \<in> set (g_queued g) \<Longrightarrow> g_queuedSharedCount (removeQueued w g) = g_queuedSharedCount g - (if is_exclusive g w then 0 else 1)"
  by (simp_all add: removeQueued_def)

lemma startedShared_iff:
  "started_ok g \<Longrightarrow> w \<in> set (g_startedShared g) \<longleftrightarrow>
     w \<in> set (g_queued g) \<and> w_started (g_waiter g w) \<and> \<not> is_exclusive g w"
  unfolding started_ok_def by blast

lemma removeQueued_startedShared:
  assumes "started_ok g"
  shows "g_startedShared (removeQueued w g) = removeAll w (g_startedShared g)"
proof (cases "w \<in> set (g_queued g) \<and> \<not> is_exclusive g w")
  case True
  then show ?thesis by (simp add: removeQueued_def)
next
  case False
  then have "w \<notin> set (g_startedShared g)" using startedShared_iff [OF assms] by blast
  with False show ?thesis by (simp add: removeQueued_def removeAll_id)
qed

lemma removeQueued_queue_ok:
  assumes "queue_ok g" "w \<in> set (g_queued g)"
  shows "queue_ok (removeQueued w g)"
  using assms
  by (simp add: queue_ok_def removeQueued_counts length_filter_removeAll gate_waiter_def distinct_removeAll)

lemma queue_ok_cong:
  assumes "\<And>v. w_kind (g_waiter g' v) = w_kind (g_waiter g v)" "g_queued g' = g_queued g"
    "g_sequence g' = g_sequence g" "g_queuedExclusiveCount g' = g_queuedExclusiveCount g"
    "g_queuedSharedCount g' = g_queuedSharedCount g"
  shows "queue_ok g' = queue_ok g"
  by (simp only: queue_ok_def assms gate_waiter_def)

section \<open>Preservation\<close>

lemma promise_of: "promise_ok g \<Longrightarrow> gate_waiter g w \<Longrightarrow> promise_matches (w \<in> set (g_queued g)) (g_waiter g w)"
  by (simp add: promise_ok_def)

lemma flags_of:
  assumes "flags_ok g" "gate_waiter g w"
  shows "w \<in> set (g_queued g) \<longleftrightarrow> \<not> w_settled (g_waiter g w) \<and> \<not> w_acquired (g_waiter g w)"
    "w_acquired (g_waiter g w) \<Longrightarrow> w_started (g_waiter g w)"
  using assms by (simp_all add: flags_ok_def)

lemma promise_ok_update:
  assumes "promise_ok g" "\<And>v. v \<noteq> w \<Longrightarrow> v \<in> set (g_queued g') \<longleftrightarrow> v \<in> set (g_queued g)"
    "g_waiter g' = (g_waiter g)(w := x)" "gate_waiter g' = gate_waiter g"
    "promise_matches (w \<in> set (g_queued g')) x"
  shows "promise_ok g'"
  using assms unfolding promise_ok_def by (simp add: fun_upd_apply)

lemma flags_ok_update:
  assumes "flags_ok g" "\<And>v. v \<noteq> w \<Longrightarrow> v \<in> set (g_queued g') \<longleftrightarrow> v \<in> set (g_queued g)"
    "g_waiter g' = (g_waiter g)(w := x)" "gate_waiter g' = gate_waiter g"
    "w \<in> set (g_queued g') \<longleftrightarrow> \<not> w_settled x \<and> \<not> w_acquired x"
    "w_acquired x \<longrightarrow> w_started x \<and> \<not> w_settled x"
  shows "flags_ok g'"
  unfolding flags_ok_def
proof (intro allI impI)
  fix v assume v: "gate_waiter g' v"
  then have "gate_waiter g v" using assms(4) by simp
  with assms(1) have "(w_acquired (g_waiter g v) \<longrightarrow> w_started (g_waiter g v) \<and> \<not> w_settled (g_waiter g v)) \<and>
     (v \<in> set (g_queued g) \<longleftrightarrow> \<not> w_settled (g_waiter g v) \<and> \<not> w_acquired (g_waiter g v))"
    unfolding flags_ok_def by blast
  with assms(2,3,5,6) show "(w_acquired (g_waiter g' v) \<longrightarrow> w_started (g_waiter g' v) \<and> \<not> w_settled (g_waiter g' v)) \<and>
     (v \<in> set (g_queued g') \<longleftrightarrow> \<not> w_settled (g_waiter g' v) \<and> \<not> w_acquired (g_waiter g' v))"
    by (cases "v = w") simp_all
qed

text \<open>A waiter leaves the queue: with its flags set to cancelled, or to acquired.\<close>

definition leave_cancelled :: "nat \<Rightarrow> lease_promise \<Rightarrow> browser_gate \<Rightarrow> browser_gate" where
  "leave_cancelled w p g = set_waiter (removeQueued w g) w ((g_waiter g w)\<lparr>w_settled := True, w_promise := p\<rparr>)"

lemma leave_cancelled_inv:
  assumes inv: "gate_inv g" and w: "w \<in> set (g_queued g)"
    and p: "promise_matches False ((g_waiter g w)\<lparr>w_settled := True, w_promise := p\<rparr>)"
  shows "gate_inv (leave_cancelled w p g)"
proof -
  let ?g = "leave_cancelled w p g" and ?x = "(g_waiter g w)\<lparr>w_settled := True, w_promise := p\<rparr>"
  have F: "flags_ok g" and Q: "queue_ok g" and S: "started_ok g" and A: "active_ok g" and P: "promise_ok g"
    using inv by (simp_all add: gate_inv_def)
  have wt: "gate_waiter g w" using Q w by (simp add: queue_ok_def)
  have na: "\<not> w_acquired (g_waiter g w)" using F w wt by (simp add: flags_ok_def)
  have f: "g_waiter ?g = (g_waiter g)(w := ?x)" "g_queued ?g = removeAll w (g_queued g)"
    "g_startedShared ?g = removeAll w (g_startedShared g)"
    "g_startedExclusiveHeap ?g = g_startedExclusiveHeap g" "g_activeShared ?g = g_activeShared g"
    "g_activeExclusive ?g = g_activeExclusive g" "g_sequence ?g = g_sequence g"
    using removeQueued_startedShared [OF S] by (simp_all add: leave_cancelled_def set_waiter_def)
  have gw: "gate_waiter ?g = gate_waiter g" by (rule gate_waiter_cong) (rule f)
  have k: "w_kind (g_waiter ?g v) = w_kind (g_waiter g v)" for v by (simp add: f)
  have "flags_ok ?g" by (rule flags_ok_update [OF F _ f(1) gw]) (use na in \<open>simp_all add: f\<close>)
  moreover have "queue_ok ?g"
    using removeQueued_queue_ok [OF Q w]
    by (subst queue_ok_cong [of _ "removeQueued w g"]) (simp_all add: leave_cancelled_def set_waiter_def)
  moreover have "started_ok ?g"
    using S unfolding started_ok_def k f gw by (auto simp: distinct_removeAll fun_upd_apply split: if_splits)
  moreover have "active_ok ?g"
    using A na unfolding active_ok_def k f gw by (auto simp: fun_upd_apply split: if_splits)
  moreover have "promise_ok ?g" using P p unfolding promise_ok_def f gw by simp
  ultimately show ?thesis by (simp add: gate_inv_def)
qed

lemma gate_inv_parts:
  "gate_inv g \<Longrightarrow> flags_ok g" "gate_inv g \<Longrightarrow> queue_ok g" "gate_inv g \<Longrightarrow> started_ok g"
  "gate_inv g \<Longrightarrow> active_ok g" "gate_inv g \<Longrightarrow> promise_ok g"
  by (simp_all add: gate_inv_def)

lemma cancel_inv:
  assumes inv: "gate_inv g" and w: "gate_waiter g w"
  shows "gate_inv (cancel w reason g)"
proof (cases "w_settled (g_waiter g w) \<or> w_acquired (g_waiter g w)")
  case True
  with inv show ?thesis by (auto simp: cancel_def Let_def)
next
  case False
  let ?p = "if w_started (g_waiter g w) then Lease_rejected reason else w_promise (g_waiter g w)"
  have q: "w \<in> set (g_queued g)" using False w gate_inv_parts(1) [OF inv] by (simp add: flags_ok_def)
  have "promise_matches True (g_waiter g w)" using promise_of [OF gate_inv_parts(5) [OF inv] w] q by simp
  with False have "promise_matches False ((g_waiter g w)\<lparr>w_settled := True, w_promise := ?p\<rparr>)"
    by (auto simp: promise_matches_def split: lease_promise.splits)
  from leave_cancelled_inv [OF inv q this] False show ?thesis
    by (simp add: cancel_def Let_def leave_cancelled_def)
qed

lemma grant_inv:
  assumes inv: "gate_inv g" and free: "g_activeExclusive g = None"
    and ex: "is_exclusive g w \<Longrightarrow> g_activeShared g = []"
  shows "gate_inv (grant w g)"
proof (cases "w \<notin> set (g_queued g) \<or> w_settled (g_waiter g w) \<or> \<not> w_started (g_waiter g w)")
  case True
  with inv show ?thesis by (auto simp: grant_def Let_def)
next
  case False
  let ?g = "grant w g" and ?x = "(g_waiter g w)\<lparr>w_acquired := True, w_promise := Lease_granted\<rparr>"
  note F = gate_inv_parts(1) [OF inv] and Q = gate_inv_parts(2) [OF inv] and S = gate_inv_parts(3) [OF inv]
    and A = gate_inv_parts(4) [OF inv] and P = gate_inv_parts(5) [OF inv]
  have w: "w \<in> set (g_queued g)" "\<not> w_settled (g_waiter g w)" "w_started (g_waiter g w)" using False by auto
  have wt: "gate_waiter g w" using Q w by (simp add: queue_ok_def)
  have f: "g_waiter ?g = (g_waiter g)(w := ?x)" "g_queued ?g = removeAll w (g_queued g)"
    "g_startedShared ?g = removeAll w (g_startedShared g)"
    "g_startedExclusiveHeap ?g = g_startedExclusiveHeap g" "g_sequence ?g = g_sequence g"
    "g_activeShared ?g = (if is_exclusive g w then g_activeShared g else set_add w (g_activeShared g))"
    "g_activeExclusive ?g = (if is_exclusive g w then Some w else g_activeExclusive g)"
    using removeQueued_startedShared [OF S] w by (simp_all add: grant_def Let_def set_waiter_def)
  have gw: "gate_waiter ?g = gate_waiter g" by (rule gate_waiter_cong) (rule f)
  have k: "w_kind (g_waiter ?g v) = w_kind (g_waiter g v)" for v by (simp add: f)
  have "flags_ok ?g" by (rule flags_ok_update [OF F _ f(1) gw]) (use w in \<open>simp_all add: f\<close>)
  moreover have "queue_ok ?g"
    using removeQueued_queue_ok [OF Q w(1)] w
    by (subst queue_ok_cong [of _ "removeQueued w g"]) (simp_all add: grant_def Let_def set_waiter_def)
  moreover have "started_ok ?g"
    using S unfolding started_ok_def k f gw by (auto simp: distinct_removeAll fun_upd_apply split: if_splits)
  moreover have "active_ok ?g"
    using A free ex wt unfolding active_ok_def k f gw by (cases "is_exclusive g w") (auto simp: fun_upd_apply)
  moreover have "promise_ok ?g"
    by (rule promise_ok_update [OF P _ f(1) gw]) (use w in \<open>simp_all add: f promise_matches_def\<close>)
  ultimately show ?thesis by (simp add: gate_inv_def)
qed

lemma release_inv:
  assumes inv: "gate_inv g" and wt: "gate_waiter g w"
  shows "gate_inv (release w g)"
proof (cases "w_settled (g_waiter g w) \<or> \<not> w_acquired (g_waiter g w)")
  case True
  with inv cancel_inv [OF inv wt] show ?thesis by (auto simp: release_def Let_def)
next
  case False
  let ?g = "release w g" and ?x = "(g_waiter g w)\<lparr>w_acquired := False, w_settled := True\<rparr>"
  note F = gate_inv_parts(1) [OF inv] and Q = gate_inv_parts(2) [OF inv] and S = gate_inv_parts(3) [OF inv]
    and A = gate_inv_parts(4) [OF inv] and P = gate_inv_parts(5) [OF inv]
  have acq: "w_acquired (g_waiter g w)" "\<not> w_settled (g_waiter g w)" using False by auto
  have nq: "w \<notin> set (g_queued g)" "w_started (g_waiter g w)" using F wt acq by (simp_all add: flags_ok_def)
  have ax: "is_exclusive g w \<Longrightarrow> g_activeExclusive g = Some w"
    using A wt acq by (auto simp: active_ok_def elem_set)
  have f: "g_waiter ?g = (g_waiter g)(w := ?x)" "g_queued ?g = g_queued g"
    "g_startedShared ?g = g_startedShared g"
    "g_startedExclusiveHeap ?g = g_startedExclusiveHeap g" "g_sequence ?g = g_sequence g"
    "g_activeShared ?g = (if is_exclusive g w then g_activeShared g else removeAll w (g_activeShared g))"
    "g_activeExclusive ?g = (if is_exclusive g w then None else g_activeExclusive g)"
    using acq ax by (simp_all add: release_def Let_def set_waiter_def scheduleDrain_def)
  have gw: "gate_waiter ?g = gate_waiter g" by (rule gate_waiter_cong) (rule f)
  have k: "w_kind (g_waiter ?g v) = w_kind (g_waiter g v)" for v by (simp add: f)
  have "flags_ok ?g" by (rule flags_ok_update [OF F _ f(1) gw]) (use nq in \<open>simp_all add: f\<close>)
  moreover have "queue_ok ?g"
    using Q acq ax by (subst queue_ok_cong [of _ g]) (simp_all add: release_def Let_def set_waiter_def scheduleDrain_def)
  moreover have "started_ok ?g"
    using S nq unfolding started_ok_def k f gw by (auto simp: fun_upd_apply split: if_splits)
  moreover have "active_ok ?g"
  proof (cases "is_exclusive g w")
    case True
    then have "{w} = {v. gate_waiter g v \<and> w_acquired (g_waiter g v) \<and> is_exclusive g v}"
      and "g_activeShared g = []" using A ax by (simp_all add: active_ok_def)
    then have only: "\<And>v. gate_waiter g v \<Longrightarrow> w_acquired (g_waiter g v) \<Longrightarrow> is_exclusive g v \<Longrightarrow> v = w" by blast
    have "set_option None = {v. gate_waiter g v \<and> w_acquired (((g_waiter g)(w := ?x)) v) \<and> is_exclusive g v}"
      using only by (auto simp: fun_upd_apply)
    moreover have "set (g_activeShared g) = {v. gate_waiter g v \<and> w_acquired (((g_waiter g)(w := ?x)) v) \<and> \<not> is_exclusive g v}"
      using A True unfolding active_ok_def by (auto simp: fun_upd_apply)
    ultimately show ?thesis using A True unfolding active_ok_def k f gw by simp
  next
    case False
    have "set (removeAll w (g_activeShared g)) = {v. gate_waiter g v \<and> w_acquired (((g_waiter g)(w := ?x)) v) \<and> \<not> is_exclusive g v}"
      using A unfolding active_ok_def by (auto simp: fun_upd_apply)
    moreover have "{v. gate_waiter g v \<and> w_acquired (g_waiter g v) \<and> is_exclusive g v} =
        {v. gate_waiter g v \<and> w_acquired (((g_waiter g)(w := ?x)) v) \<and> is_exclusive g v}"
      using False by (auto simp: fun_upd_apply)
    ultimately show ?thesis using A False unfolding active_ok_def k f gw by (simp add: distinct_removeAll)
  qed
  moreover have "promise_ok ?g"
    by (rule promise_ok_update [OF P _ f(1) gw])
      (use promise_of [OF P wt] acq nq in \<open>auto simp: f promise_matches_def split: lease_promise.splits\<close>)
  ultimately show ?thesis by (simp add: gate_inv_def)
qed

lemma settle_inv: "gate_inv g \<Longrightarrow> gate_waiter g w \<Longrightarrow> gate_inv (settle w g)"
  by (simp add: settle_def Let_def release_inv cancel_inv)

lemma onAbort_inv: "gate_inv g \<Longrightarrow> gate_waiter g w \<Longrightarrow> gate_inv (onAbort w reason g)"
  by (simp add: onAbort_def Let_def cancel_inv)

text \<open>A waiter starts: it enters the heap or the set of started shared waiters.\<close>

definition mark_started :: "nat \<Rightarrow> browser_gate \<Rightarrow> browser_gate" where
  "mark_started w g = (let x = g_waiter g w;
       g1 = set_waiter g w (x\<lparr>w_started := True, w_promise := Pending_lease\<rparr>) in
     if w_kind x = Exclusive
     then g1\<lparr>g_startedExclusiveHeap := pushStartedExclusive (g_startedExclusiveHeap g1) w\<rparr>
     else g1\<lparr>g_startedShared := set_add w (g_startedShared g1)\<rparr>)"

lemma start_unfold: "start w aborted g =
    (if w_settled (g_waiter g w) then (Some (Invalid_request ''coordinator admission is no longer active''), g)
     else if w_started (g_waiter g w) then (Some (Invalid_request ''coordinator admission was started more than once''), g)
     else (None, scheduleDrain (case aborted of None \<Rightarrow> mark_started w g | Some r \<Rightarrow> onAbort w r (mark_started w g))))"
  by (simp add: start_def mark_started_def Let_def split: option.split)

lemma mark_started_inv:
  assumes inv: "gate_inv g" and wt: "gate_waiter g w"
    and x: "\<not> w_settled (g_waiter g w)" "\<not> w_started (g_waiter g w)"
  shows "gate_inv (mark_started w g)"
proof -
  let ?g = "mark_started w g" and ?x = "(g_waiter g w)\<lparr>w_started := True, w_promise := Pending_lease\<rparr>"
  note F = gate_inv_parts(1) [OF inv] and Q = gate_inv_parts(2) [OF inv] and S = gate_inv_parts(3) [OF inv]
    and A = gate_inv_parts(4) [OF inv] and P = gate_inv_parts(5) [OF inv]
  have na: "\<not> w_acquired (g_waiter g w)" using flags_of(2) [OF F wt] x(2) by blast
  have q: "w \<in> set (g_queued g)" using flags_of(1) [OF F wt] x(1) na by blast
  have f: "g_waiter ?g = (g_waiter g)(w := ?x)" "g_queued ?g = g_queued g"
    "g_startedShared ?g = (if is_exclusive g w then g_startedShared g else set_add w (g_startedShared g))"
    "g_startedExclusiveHeap ?g = (if is_exclusive g w then pushStartedExclusive (g_startedExclusiveHeap g) w
       else g_startedExclusiveHeap g)" "g_sequence ?g = g_sequence g"
    "g_activeShared ?g = g_activeShared g" "g_activeExclusive ?g = g_activeExclusive g"
    by (simp_all add: mark_started_def Let_def set_waiter_def)
  have gw: "gate_waiter ?g = gate_waiter g" by (rule gate_waiter_cong) (rule f)
  have k: "w_kind (g_waiter ?g v) = w_kind (g_waiter g v)" for v by (simp add: f)
  have "flags_ok ?g" by (rule flags_ok_update [OF F _ f(1) gw]) (use q x na in \<open>simp_all add: f\<close>)
  moreover have "queue_ok ?g"
    using Q by (subst queue_ok_cong [of _ g]) (simp_all add: mark_started_def Let_def set_waiter_def)
  moreover have "started_ok ?g"
  proof (cases "is_exclusive g w")
    case True
    have "heap_ok (g_startedExclusiveHeap g)" using S by (simp add: started_ok_def)
    note push = push_props [OF this, of w]
    have "set (pushStartedExclusive (g_startedExclusiveHeap g) w) = insert w (set (g_startedExclusiveHeap g))"
      using arg_cong [OF conjunct2 [OF push], of set_mset] by simp
    with S True push wt show ?thesis
      unfolding started_ok_def k f gw by (auto simp: fun_upd_apply)
  next
    case False
    with S q show ?thesis
      unfolding started_ok_def k f gw by (auto simp: fun_upd_apply)
  qed
  moreover have "active_ok ?g" using A na unfolding active_ok_def k f gw by (auto simp: fun_upd_apply)
  moreover have "promise_ok ?g"
    by (rule promise_ok_update [OF P _ f(1) gw]) (use q in \<open>simp_all add: f promise_matches_def\<close>)
  ultimately show ?thesis by (simp add: gate_inv_def)
qed

lemma gate_waiter_mark_started [simp]: "gate_waiter (mark_started w g) v = gate_waiter g v"
  by (simp add: gate_waiter_def mark_started_def Let_def set_waiter_def)

lemma start_inv:
  assumes "gate_inv g" "gate_waiter g w"
  shows "gate_inv (snd (start w aborted g))"
  using assms mark_started_inv [OF assms]
  by (simp add: start_unfold onAbort_inv split: option.split)

text \<open>A reservation: a fresh waiter at the end of the queue.\<close>

definition add_waiter :: "waiter_kind \<Rightarrow> browser_gate \<Rightarrow> browser_gate" where
  "add_waiter k g = (let w = g_sequence g + 1; g1 = set_waiter g w (new_waiter k) in
     g1\<lparr>g_sequence := w, g_queued := set_add w (g_queued g1),
        g_queuedExclusiveCount := g_queuedExclusiveCount g1 + (if k = Exclusive then 1 else 0),
        g_queuedSharedCount := g_queuedSharedCount g1 + (if k = Exclusive then 0 else 1)\<rparr>)"

lemma reserve_unfold: "reserve L k g =
    (if queueDepth g < int (gl_maxQueueSize L) then (Inr (g_sequence g + 1), add_waiter k g)
     else (Inl Queue_full, g\<lparr>g_rejectedCount := g_rejectedCount g + 1\<rparr>))"
  by (simp add: reserve_def assertReservationCapacity_def add_waiter_def Let_def)

lemma add_waiter_inv:
  assumes inv: "gate_inv g"
  shows "gate_inv (add_waiter k g)"
proof -
  let ?g = "add_waiter k g" and ?w = "g_sequence g + 1"
  note F = gate_inv_parts(1) [OF inv] and Q = gate_inv_parts(2) [OF inv] and S = gate_inv_parts(3) [OF inv]
    and A = gate_inv_parts(4) [OF inv] and P = gate_inv_parts(5) [OF inv]
  have nq: "?w \<notin> set (g_queued g)" using Q by (auto simp: queue_ok_def gate_waiter_def)
  have f: "g_waiter ?g = (g_waiter g)(?w := new_waiter k)" "g_queued ?g = g_queued g @ [?w]"
    "g_startedShared ?g = g_startedShared g" "g_startedExclusiveHeap ?g = g_startedExclusiveHeap g"
    "g_activeShared ?g = g_activeShared g" "g_activeExclusive ?g = g_activeExclusive g"
    using nq by (simp_all add: add_waiter_def Let_def set_waiter_def set_add_new)
  have gw: "gate_waiter ?g v \<longleftrightarrow> gate_waiter g v \<or> v = ?w" for v
    by (auto simp: gate_waiter_def add_waiter_def Let_def)
  have ngw: "\<not> gate_waiter g ?w" by (simp add: gate_waiter_def)
  have old: "g_waiter ?g v = g_waiter g v" if "gate_waiter g v" for v using that ngw by (auto simp: f)
  have qd: "\<And>v. v \<in> set (g_queued g) \<Longrightarrow> gate_waiter g v" using Q by (simp add: queue_ok_def)
  have new: "g_waiter ?g ?w = new_waiter k" by (simp add: f)
  have "flags_ok ?g"
    unfolding flags_ok_def
  proof (intro allI impI)
    fix v assume "gate_waiter ?g v"
    then consider "gate_waiter g v" "v \<noteq> ?w" | "v = ?w" using ngw gw by blast
    then show "(w_acquired (g_waiter ?g v) \<longrightarrow> w_started (g_waiter ?g v) \<and> \<not> w_settled (g_waiter ?g v)) \<and>
      (v \<in> set (g_queued ?g) \<longleftrightarrow> \<not> w_settled (g_waiter ?g v) \<and> \<not> w_acquired (g_waiter ?g v))"
    proof cases
      case 1
      with F show ?thesis unfolding flags_ok_def by (simp add: old f(2))
    next
      case 2
      then show ?thesis by (simp add: f new_waiter_def)
    qed
  qed
  moreover have "queue_ok ?g"
  proof -
    have "filter (is_exclusive ?g) (g_queued g) = filter (is_exclusive g) (g_queued g)"
      "filter (\<lambda>w. \<not> is_exclusive ?g w) (g_queued g) = filter (\<lambda>w. \<not> is_exclusive g w) (g_queued g)"
      using qd by (auto intro!: filter_cong simp: old)
    moreover have "g_queuedExclusiveCount ?g = g_queuedExclusiveCount g + (if k = Exclusive then 1 else 0)"
      "g_queuedSharedCount ?g = g_queuedSharedCount g + (if k = Exclusive then 0 else 1)"
      by (simp_all add: add_waiter_def Let_def set_waiter_def)
    moreover have "is_exclusive ?g ?w \<longleftrightarrow> k = Exclusive" by (simp only: new) (simp add: new_waiter_def)
    ultimately show ?thesis using Q nq qd unfolding queue_ok_def f(2) gw by (cases k) simp_all
  qed
  moreover have "started_ok ?g"
    using S nq unfolding started_ok_def f gw by (auto simp: new_waiter_def gate_waiter_def)
  moreover have "active_ok ?g"
  proof -
    have e: "(gate_waiter ?g v \<and> w_acquired (g_waiter ?g v) \<and> is_exclusive ?g v) =
        (gate_waiter g v \<and> w_acquired (g_waiter g v) \<and> is_exclusive g v)"
      and s: "(gate_waiter ?g v \<and> w_acquired (g_waiter ?g v) \<and> \<not> is_exclusive ?g v) =
        (gate_waiter g v \<and> w_acquired (g_waiter g v) \<and> \<not> is_exclusive g v)" for v
      using ngw by (cases "v = ?w"; simp add: gw f(1) new_waiter_def)+
    from A show ?thesis unfolding active_ok_def e s f(5,6) .
  qed
  moreover have "promise_ok ?g"
    unfolding promise_ok_def
  proof (intro allI impI)
    fix v assume "gate_waiter ?g v"
    then consider "gate_waiter g v" "v \<noteq> ?w" | "v = ?w" using ngw gw by blast
    then show "promise_matches (v \<in> set (g_queued ?g)) (g_waiter ?g v)"
    proof cases
      case 1
      then show ?thesis using promise_of [OF P] by (simp add: old f(2))
    next
      case 2
      show ?thesis unfolding 2 new by (simp add: promise_matches_def new_waiter_def)
    qed
  qed
  ultimately show ?thesis by (simp add: gate_inv_def)
qed

lemma reserve_inv: "gate_inv g \<Longrightarrow> gate_inv (snd (reserve L k g))"
  by (simp add: reserve_unfold add_waiter_inv)

section \<open>The drain\<close>

lemma fold_grant_shared:
  assumes "gate_inv g" "g_activeExclusive g = None" "set ws \<subseteq> set (g_startedShared g)" "distinct ws"
  shows "gate_inv (fold grant ws g) \<and> g_activeExclusive (fold grant ws g) = None \<and>
     set (g_startedShared (fold grant ws g)) = set (g_startedShared g) - set ws \<and>
     set (g_queued (fold grant ws g)) = set (g_queued g) - set ws \<and>
     set (g_activeShared (fold grant ws g)) = set (g_activeShared g) \<union> set ws \<and>
     g_startedExclusiveHeap (fold grant ws g) = g_startedExclusiveHeap g \<and>
     g_queuedExclusiveCount (fold grant ws g) = g_queuedExclusiveCount g \<and>
     g_sequence (fold grant ws g) = g_sequence g \<and>
     g_consecutiveExclusive (fold grant ws g) = g_consecutiveExclusive g \<and>
     g_drainScheduled (fold grant ws g) = g_drainScheduled g \<and>
     g_acceptedSharedReservations (fold grant ws g) = g_acceptedSharedReservations g \<and>
     g_pendingSharedReservations (fold grant ws g) = g_pendingSharedReservations g \<and>
     (\<forall>v. g_waiter (fold grant ws g) v =
        (if v \<in> set ws then (g_waiter g v)\<lparr>w_acquired := True, w_promise := Lease_granted\<rparr> else g_waiter g v))"
  using assms
proof (induction ws arbitrary: g)
  case Nil
  then show ?case by simp
next
  case (Cons w ws)
  let ?x = "(g_waiter g w)\<lparr>w_acquired := True, w_promise := Lease_granted\<rparr>"
  note S = gate_inv_parts(3) [OF Cons.prems(1)] and Q = gate_inv_parts(2) [OF Cons.prems(1)]
    and F = gate_inv_parts(1) [OF Cons.prems(1)]
  have "w \<in> set (g_startedShared g)" using Cons.prems(3) by simp
  then have w: "w \<in> set (g_queued g)" "w_started (g_waiter g w)" "\<not> is_exclusive g w"
    using startedShared_iff [OF S] by blast+
  have "gate_waiter g w" using Q w(1) by (simp add: queue_ok_def)
  then have ns: "\<not> w_settled (g_waiter g w)" using flags_of(1) [OF F] w(1) by blast
  have f: "g_waiter (grant w g) = (g_waiter g)(w := ?x)" "g_queued (grant w g) = removeAll w (g_queued g)"
    "g_startedShared (grant w g) = removeAll w (g_startedShared g)"
    "g_startedExclusiveHeap (grant w g) = g_startedExclusiveHeap g" "g_sequence (grant w g) = g_sequence g"
    "g_activeShared (grant w g) = set_add w (g_activeShared g)" "g_activeExclusive (grant w g) = None"
    "g_queuedExclusiveCount (grant w g) = g_queuedExclusiveCount g"
    "g_consecutiveExclusive (grant w g) = g_consecutiveExclusive g"
    "g_drainScheduled (grant w g) = g_drainScheduled g"
    "g_acceptedSharedReservations (grant w g) = g_acceptedSharedReservations g"
    "g_pendingSharedReservations (grant w g) = g_pendingSharedReservations g"
    using removeQueued_startedShared [OF S] w ns Cons.prems(2)
    by (simp_all add: grant_def Let_def set_waiter_def removeQueued_counts)
  have i: "gate_inv (grant w g)" using grant_inv [OF Cons.prems(1,2)] w(3) by blast
  have sub: "set ws \<subseteq> set (g_startedShared (grant w g))" "distinct ws" using Cons.prems(3,4) by (auto simp: f)
  from Cons.IH [OF i f(7) sub] Cons.prems(4) show ?case
    by (simp add: f) blast
qed

lemma dropStale_inv:
  assumes "gate_inv g"
  shows "gate_inv (g\<lparr>g_startedExclusiveHeap := dropStale (g_queued g) (g_startedExclusiveHeap g)\<rparr>)"
proof -
  let ?h = "g_startedExclusiveHeap g" and ?d = "dropStale (g_queued g) (g_startedExclusiveHeap g)"
  note S = gate_inv_parts(3) [OF assms]
  have "heap_ok ?h" using S by (simp add: started_ok_def)
  note d = dropStale_props [OF this, of "g_queued g"]
  have "set ?d \<subseteq> set ?h" using d by (metis set_mset_mono set_mset_mset)
  moreover have "set ?d \<inter> set (g_queued g) = set ?h \<inter> set (g_queued g)" using d by blast
  ultimately have "started_ok (g\<lparr>g_startedExclusiveHeap := ?d\<rparr>)"
    using S d unfolding started_ok_def gate_waiter_def by simp blast
  moreover have "flags_ok (g\<lparr>g_startedExclusiveHeap := ?d\<rparr>) = flags_ok g"
    "queue_ok (g\<lparr>g_startedExclusiveHeap := ?d\<rparr>) = queue_ok g"
    "active_ok (g\<lparr>g_startedExclusiveHeap := ?d\<rparr>) = active_ok g"
    "promise_ok (g\<lparr>g_startedExclusiveHeap := ?d\<rparr>) = promise_ok g"
    by (simp_all add: flags_ok_def queue_ok_def active_ok_def promise_ok_def gate_waiter_def)
  ultimately show ?thesis using assms by (simp add: gate_inv_def)
qed

end
