(* ===== verification/Gate_Drain.thy ===== *)
theory Gate_Drain
  imports Gate_Facts
begin

text \<open>
  The drain of the browser gate against an abstract gate: sets of waiting exclusive and shared
  requests, where the drain admits the least exclusive or the whole shared batch. The heap, the
  lazily dropped entries and the counters of \<open>BrowserGate\<close> disappear in the abstraction.
\<close>

section \<open>The abstract gate\<close>

record gate_abs =
  a_exclusives :: "nat set"
  a_reserved :: "nat set"
  a_shared :: "nat set"
  a_active_exclusive :: "nat option"
  a_active_shared :: "nat set"
  a_turns :: nat

definition gate_abs_of :: "browser_gate \<Rightarrow> gate_abs" where
  "gate_abs_of g = \<lparr>
     a_exclusives = {w \<in> set (g_queued g). is_exclusive g w \<and> w_started (g_waiter g w)},
     a_reserved = {w \<in> set (g_queued g). is_exclusive g w \<and> \<not> w_started (g_waiter g w)},
     a_shared = set (g_startedShared g),
     a_active_exclusive = g_activeExclusive g,
     a_active_shared = set (g_activeShared g),
     a_turns = g_consecutiveExclusive g\<rparr>"

definition abs_exclusive_waiting :: "gate_abs \<Rightarrow> bool" where
  "abs_exclusive_waiting a \<longleftrightarrow> a_exclusives a \<noteq> {} \<or> a_reserved a \<noteq> {}"

definition abs_admit_shared :: "gate_abs \<Rightarrow> gate_abs" where
  "abs_admit_shared a = a\<lparr>a_active_shared := a_active_shared a \<union> a_shared a, a_shared := {}\<rparr>"

definition abs_admit_exclusive :: "gate_abs \<Rightarrow> gate_abs" where
  "abs_admit_exclusive a = a\<lparr>a_active_exclusive := Some (Min (a_exclusives a)),
     a_exclusives := a_exclusives a - {Min (a_exclusives a)}, a_turns := a_turns a + 1\<rparr>"

definition abs_drain :: "gate_limits \<Rightarrow> gate_abs \<Rightarrow> gate_abs" where
  "abs_drain L a =
     (if a_active_exclusive a \<noteq> None then a
      else if a_active_shared a \<noteq> {} \<and> abs_exclusive_waiting a then a
      else if a_shared a \<noteq> {} \<and> a_turns a \<ge> gl_maxConsecutiveExclusives L
      then (abs_admit_shared a)\<lparr>a_turns := 0\<rparr>
      else if a_exclusives a \<noteq> {} \<and> a_active_shared a = {} then abs_admit_exclusive a
      else if abs_exclusive_waiting a then a
      else abs_admit_shared a)"

section \<open>Reading the concrete gate\<close>

lemma hasExclusiveWaiter_iff:
  assumes "gate_inv g"
  shows "hasExclusiveWaiter g \<longleftrightarrow> abs_exclusive_waiting (gate_abs_of g)"
proof -
  have "g_queuedExclusiveCount g = int (length (filter (is_exclusive g) (g_queued g)))"
    using gate_inv_parts(2) [OF assms] by (simp add: queue_ok_def)
  then have "hasExclusiveWaiter g \<longleftrightarrow> filter (is_exclusive g) (g_queued g) \<noteq> []"
    by (simp add: hasExclusiveWaiter_def)
  also have "\<dots> \<longleftrightarrow> (\<exists>w \<in> set (g_queued g). is_exclusive g w)" by (simp add: filter_empty_conv)
  finally show ?thesis by (auto simp: abs_exclusive_waiting_def gate_abs_of_def)
qed

abbreviation pruned :: "browser_gate \<Rightarrow> browser_gate" where
  "pruned g \<equiv> g\<lparr>g_startedExclusiveHeap := dropStale (g_queued g) (g_startedExclusiveHeap g)\<rparr>"

lemma abs_pruned [simp]: "gate_abs_of (pruned g) = gate_abs_of g"
  by (simp add: gate_abs_of_def)

text \<open>The top of the pruned heap is the least started exclusive waiter.\<close>

lemma pruned_top:
  assumes "gate_inv g"
  defines "h \<equiv> dropStale (g_queued g) (g_startedExclusiveHeap g)"
  shows "h = [] \<longleftrightarrow> a_exclusives (gate_abs_of g) = {}"
    "h \<noteq> [] \<Longrightarrow> hd h = Min (a_exclusives (gate_abs_of g))"
    "h \<noteq> [] \<Longrightarrow> hd h \<in> a_exclusives (gate_abs_of g)"
proof -
  let ?E = "a_exclusives (gate_abs_of g)"
  have E: "?E = {w \<in> set (g_queued g). is_exclusive g w \<and> w_started (g_waiter g w)}"
    by (simp add: gate_abs_of_def)
  have S: "started_ok (pruned g)" using dropStale_inv [OF assms(1)] by (rule gate_inv_parts)
  have ok: "heap_ok h" using S by (simp add: started_ok_def h_def)
  have sub: "set h \<subseteq> {w. is_exclusive g w \<and> w_started (g_waiter g w)}"
    using S unfolding started_ok_def h_def by auto
  have sup: "?E \<subseteq> set h" using S unfolding started_ok_def h_def E by auto
  have "heap_ok (g_startedExclusiveHeap g)" using gate_inv_parts(3) [OF assms(1)] by (simp add: started_ok_def)
  then have q: "h \<noteq> [] \<longrightarrow> hd h \<in> set (g_queued g)" using dropStale_props h_def by blast
  show top: "hd h \<in> ?E" if "h \<noteq> []"
  proof -
    have "hd h \<in> set h" using that by simp
    with q that sub show ?thesis unfolding E by blast
  qed
  have le: "hd h \<le> w" if "h \<noteq> []" "w \<in> ?E" for w
  proof -
    have "w \<in># mset h" using that sup by auto
    from started_exclusive.top_le [OF ok this] that(1) show ?thesis by (simp add: hd_conv_nth)
  qed
  show "hd h = Min ?E" if "h \<noteq> []"
    by (rule sym, rule Min_eqI) (use top le that E in auto)
  show "h = [] \<longleftrightarrow> ?E = {}" using top sup by auto
qed

section \<open>Refinement\<close>

lemma fold_grant_abs:
  assumes "gate_inv g" "g_activeExclusive g = None"
  shows "gate_abs_of (fold grant (g_startedShared g) g) = abs_admit_shared (gate_abs_of g)"
proof -
  have "distinct (g_startedShared g)" using gate_inv_parts(3) [OF assms(1)] by (simp add: started_ok_def)
  note f = fold_grant_shared [OF assms subset_refl this]
  have x: "\<not> is_exclusive g w" if "w \<in> set (g_startedShared g)" for w
    using startedShared_iff [OF gate_inv_parts(3) [OF assms(1)]] that by blast
  show ?thesis
    using f x assms(2) by (auto simp: gate_abs_of_def abs_admit_shared_def)
qed

lemma grant_exclusive_fields:
  assumes "gate_inv g" "w \<in> set (g_queued g)" "w_started (g_waiter g w)" "is_exclusive g w"
  shows "g_waiter (grant w g) = (g_waiter g)(w := (g_waiter g w)\<lparr>w_acquired := True, w_promise := Lease_granted\<rparr>)"
    "g_queued (grant w g) = removeAll w (g_queued g)" "g_startedShared (grant w g) = g_startedShared g"
    "g_activeShared (grant w g) = g_activeShared g" "g_activeExclusive (grant w g) = Some w"
    "g_sequence (grant w g) = g_sequence g" "g_consecutiveExclusive (grant w g) = g_consecutiveExclusive g"
    "g_drainScheduled (grant w g) = g_drainScheduled g"
    "g_acceptedSharedReservations (grant w g) = g_acceptedSharedReservations g"
    "g_pendingSharedReservations (grant w g) = g_pendingSharedReservations g"
proof -
  have "gate_waiter g w" using gate_inv_parts(2) [OF assms(1)] assms(2) by (simp add: queue_ok_def)
  then have "\<not> w_settled (g_waiter g w)" using flags_of(1) [OF gate_inv_parts(1) [OF assms(1)]] assms(2) by blast
  then show "g_waiter (grant w g) = (g_waiter g)(w := (g_waiter g w)\<lparr>w_acquired := True, w_promise := Lease_granted\<rparr>)"
    "g_queued (grant w g) = removeAll w (g_queued g)" "g_startedShared (grant w g) = g_startedShared g"
    "g_activeShared (grant w g) = g_activeShared g" "g_activeExclusive (grant w g) = Some w"
    "g_sequence (grant w g) = g_sequence g" "g_consecutiveExclusive (grant w g) = g_consecutiveExclusive g"
    "g_drainScheduled (grant w g) = g_drainScheduled g"
    "g_acceptedSharedReservations (grant w g) = g_acceptedSharedReservations g"
    "g_pendingSharedReservations (grant w g) = g_pendingSharedReservations g"
    using assms by (simp_all add: grant_def Let_def set_waiter_def removeQueued_def)
qed

lemma grant_exclusive_abs:
  assumes "gate_inv g" "a_exclusives (gate_abs_of g) \<noteq> {}" "w = Min (a_exclusives (gate_abs_of g))"
    "w \<in> a_exclusives (gate_abs_of g)"
  shows "gate_abs_of (grant w g) = (abs_admit_exclusive (gate_abs_of g))\<lparr>a_turns := g_consecutiveExclusive g\<rparr>"
proof -
  have w: "w \<in> set (g_queued g)" "w_started (g_waiter g w)" "is_exclusive g w"
    using assms(4) by (simp_all add: gate_abs_of_def)
  note f = grant_exclusive_fields [OF assms(1) w]
  have "{v \<in> set (removeAll w (g_queued g)). is_exclusive (grant w g) v \<and> w_started (g_waiter (grant w g) v)} =
      a_exclusives (gate_abs_of g) - {w}"
    "{v \<in> set (removeAll w (g_queued g)). is_exclusive (grant w g) v \<and> \<not> w_started (g_waiter (grant w g) v)} =
      a_reserved (gate_abs_of g)"
    using w by (auto simp: f(1) gate_abs_of_def fun_upd_apply)
  then show ?thesis
    unfolding abs_admit_exclusive_def assms(3) [symmetric] by (simp add: gate_abs_of_def f)
qed

lemma drain_refines:
  assumes "gate_inv g"
  shows "gate_abs_of (drain L g) = abs_drain L (gate_abs_of g)"
proof (cases "g_activeExclusive g \<noteq> None \<or> g_activeShared g \<noteq> [] \<and> hasExclusiveWaiter g")
  case True
  then have "drain L g = g" by (auto simp: drain_def)
  moreover have "abs_drain L (gate_abs_of g) = gate_abs_of g"
    using True hasExclusiveWaiter_iff [OF assms] by (auto simp: abs_drain_def gate_abs_of_def)
  ultimately show ?thesis by simp
next
  case False
  then have free: "g_activeExclusive g = None" "\<not> (g_activeShared g \<noteq> [] \<and> hasExclusiveWaiter g)" by auto
  have free': "g_activeExclusive (pruned g) = None" using free by simp
  note inv = dropStale_inv [OF assms] and top = pruned_top [OF assms]
  let ?h = "dropStale (g_queued g) (g_startedExclusiveHeap g)"
  let ?a = "gate_abs_of g"
  have a: "a_active_exclusive ?a = None" "a_shared ?a = set (g_startedShared g)"
    "a_active_shared ?a = set (g_activeShared g)" "a_turns ?a = g_consecutiveExclusive g"
    using free by (simp_all add: gate_abs_of_def)
  have hx: "hasExclusiveWaiter (pruned g) = abs_exclusive_waiting ?a"
    using hasExclusiveWaiter_iff [OF inv] by simp
  have hg: "hasExclusiveWaiter g = abs_exclusive_waiting ?a" by (rule hasExclusiveWaiter_iff [OF assms])
  have sh: "gate_abs_of (fold grant (g_startedShared g) (pruned g)) = abs_admit_shared ?a"
    using fold_grant_abs [OF inv free'] by simp
  have turns: "gate_abs_of (x\<lparr>g_consecutiveExclusive := n\<rparr>) = (gate_abs_of x)\<lparr>a_turns := n\<rparr>" for x n
    by (simp add: gate_abs_of_def)
  consider
      (batch) "g_startedShared g \<noteq> []" "g_consecutiveExclusive g \<ge> gl_maxConsecutiveExclusives L"
    | (exclusive) "\<not> (g_startedShared g \<noteq> [] \<and> g_consecutiveExclusive g \<ge> gl_maxConsecutiveExclusives L)"
        "?h \<noteq> []" "g_activeShared g = []"
    | (rest) "\<not> (g_startedShared g \<noteq> [] \<and> g_consecutiveExclusive g \<ge> gl_maxConsecutiveExclusives L)"
        "\<not> (?h \<noteq> [] \<and> g_activeShared g = [])"
    by blast
  then show ?thesis
  proof cases
    case batch
    with free sh show ?thesis
      by (auto simp: drain_def Let_def turns abs_drain_def a hg [symmetric])
  next
    case exclusive
    have c: "g_consecutiveExclusive (grant (hd ?h) (pruned g)) = g_consecutiveExclusive g"
      using top(3) exclusive(2) by (subst grant_exclusive_fields(7) [OF inv]) (auto simp: gate_abs_of_def)
    have "gate_abs_of (grant (hd ?h) (pruned g)) = (abs_admit_exclusive ?a)\<lparr>a_turns := g_consecutiveExclusive g\<rparr>"
      using grant_exclusive_abs [OF inv, of "hd ?h"] top exclusive by simp
    with exclusive free c top show ?thesis
      by (auto simp: drain_def Let_def turns abs_drain_def a hg [symmetric] abs_admit_exclusive_def)
  next
    case rest
    with free sh top(1) show ?thesis
      by (auto simp: drain_def Let_def abs_drain_def a hx hg [symmetric])
  qed
qed

section \<open>The drain keeps the invariant\<close>

lemma drain_inv:
  assumes "gate_inv g"
  shows "gate_inv (drain L g)"
proof (cases "g_activeExclusive g \<noteq> None \<or> g_activeShared g \<noteq> [] \<and> hasExclusiveWaiter g")
  case True
  then have "drain L g = g" by (auto simp: drain_def)
  with assms show ?thesis by simp
next
  case False
  then have free: "g_activeExclusive (pruned g) = None" by simp
  note inv = dropStale_inv [OF assms]
  have "distinct (g_startedShared (pruned g))" using gate_inv_parts(3) [OF inv] by (simp add: started_ok_def)
  from fold_grant_shared [OF inv free subset_refl this]
  have sh: "gate_inv (fold grant (g_startedShared g) (pruned g))" by simp
  have ex: "gate_inv (grant (hd (dropStale (g_queued g) (g_startedExclusiveHeap g))) (pruned g))"
    if "g_activeShared g = []"
    using grant_inv [OF inv free] that by simp
  show ?thesis using False inv sh ex by (auto simp: drain_def Let_def)
qed

lemma run_microtask_inv: "gate_inv g \<Longrightarrow> gate_inv (run_microtask L g)"
  by (simp add: run_microtask_def drain_inv)

text \<open>What the drain leaves alone.\<close>

definition drain_frame :: "browser_gate \<Rightarrow> browser_gate \<Rightarrow> bool" where
  "drain_frame g g' \<longleftrightarrow> g_sequence g' = g_sequence g \<and> g_drainScheduled g' = g_drainScheduled g \<and>
     g_acceptedSharedReservations g' = g_acceptedSharedReservations g \<and>
     g_pendingSharedReservations g' = g_pendingSharedReservations g \<and>
     length (g_queued g') \<le> length (g_queued g) \<and>
     (\<forall>v. w_kind (g_waiter g' v) = w_kind (g_waiter g v) \<and> w_started (g_waiter g' v) = w_started (g_waiter g v) \<and>
        w_settled (g_waiter g' v) = w_settled (g_waiter g v) \<and>
        (w_acquired (g_waiter g v) \<longrightarrow> w_acquired (g_waiter g' v)))"

lemma drain_frame_refl [simp]: "drain_frame g g"
  by (simp add: drain_frame_def)

lemma drain_frame_trans: "drain_frame a b \<Longrightarrow> drain_frame b c \<Longrightarrow> drain_frame a c"
  unfolding drain_frame_def by auto

lemma drain_frame_field_updates [simp]:
  "drain_frame g (g'\<lparr>g_consecutiveExclusive := n\<rparr>) = drain_frame g g'"
  "drain_frame g (g'\<lparr>g_startedExclusiveHeap := h\<rparr>) = drain_frame g g'"
  by (simp_all add: drain_frame_def)

lemma grant_frame: "drain_frame g (grant w g)"
  by (simp add: drain_frame_def grant_def Let_def set_waiter_def removeAll_filter_not_eq)

lemma fold_grant_frame: "drain_frame g (fold grant ws g)"
proof (induction ws arbitrary: g)
  case (Cons w ws)
  from drain_frame_trans [OF grant_frame Cons.IH] show ?case by simp
qed simp

lemma drain_drain_frame: "drain_frame g (drain L g)"
proof -
  have p: "drain_frame g (g\<lparr>g_startedExclusiveHeap := h\<rparr>)" for h by simp
  show ?thesis
    using drain_frame_trans [OF p grant_frame] drain_frame_trans [OF p fold_grant_frame]
    by (simp add: drain_def Let_def)
qed

end
