(* ===== verification/Event_System.thy ===== *)
theory Event_System
  imports Op_Prelude
begin

text \<open>
  Running a component from its events: a guard says which events its environment may send, a
  function says what each does. A run is a computation, so that a concrete history can be
  evaluated; the interface \<open>event_system\<close> is the invariant argument, stated once.
\<close>

fun run :: "('e \<Rightarrow> 's \<Rightarrow> bool) \<Rightarrow> ('e \<Rightarrow> 's \<Rightarrow> 's) \<Rightarrow> 'e list \<Rightarrow> 's \<Rightarrow> 's option" where
  "run enabled apply_event [] s = Some s"
| "run enabled apply_event (e # es) s =
     (if enabled e s then run enabled apply_event es (apply_event e s) else None)"

lemma run_append:
  "run en ap (es @ fs) s = (case run en ap es s of None \<Rightarrow> None | Some s' \<Rightarrow> run en ap fs s')"
  by (induction es arbitrary: s) simp_all

lemma run_append_Some:
  "run en ap (es @ fs) s = Some t \<longleftrightarrow> (\<exists>u. run en ap es s = Some u \<and> run en ap fs u = Some t)"
  by (simp add: run_append split: option.split)

lemma run_appendI: "run en ap es s = Some u \<Longrightarrow> run en ap fs u = Some t \<Longrightarrow> run en ap (es @ fs) s = Some t"
  by (simp add: run_append)

locale event_system =
  fixes enabled :: "'e \<Rightarrow> 's \<Rightarrow> bool" and apply_event :: "'e \<Rightarrow> 's \<Rightarrow> 's" and inv :: "'s \<Rightarrow> bool"
  assumes preserved: "inv s \<Longrightarrow> enabled e s \<Longrightarrow> inv (apply_event e s)"
begin

lemma run_inv: "run enabled apply_event es s = Some t \<Longrightarrow> inv s \<Longrightarrow> inv t"
  by (induction es arbitrary: s) (auto simp: preserved split: if_splits)

text \<open>A relation between successive states, kept by every event, holds between the ends of a run.\<close>

lemma run_relation:
  assumes "run enabled apply_event es s = Some t" "inv s"
    and refl: "\<And>s. r s s" and trans: "\<And>a b c. r a b \<Longrightarrow> r b c \<Longrightarrow> r a c"
    and step: "\<And>s e. inv s \<Longrightarrow> enabled e s \<Longrightarrow> r s (apply_event e s)"
  shows "r s t"
  using assms(1,2)
proof (induction es arbitrary: s)
  case (Cons e es)
  then have e: "enabled e s" and rest: "run enabled apply_event es (apply_event e s) = Some t"
    by (auto split: if_splits)
  from Cons.IH [OF rest preserved [OF Cons.prems(2) e]] step [OF Cons.prems(2) e] trans
  show ?case by blast
qed (simp add: refl)

end

end
