(* ===== verification/Gate_System.thy ===== *)
theory Gate_System
  imports Gate_Drain Event_System
begin

text \<open>
  The gate together with the admissions created from it, driven by the events its users send:
  accept, begin, abandon and finish an admission, release a granted lease, fire an abort
  listener, run the scheduled microtask. The order of events is arbitrary but for the rules the
  resource actor follows: only a request that has not begun is abandoned, and only a granted
  lease can be released.
\<close>

section \<open>The system\<close>

record gate_system =
  gs_gate :: browser_gate
  gs_admissions :: "admission list"

datatype gate_event =
    Create_admission waiter_kind
  | Accept nat
  | Begin nat "coordinator_error option"
  | Abandon nat
  | Finish nat
  | Release_lease nat
  | Abort_signal nat coordinator_error
  | Microtask

definition empty_system :: gate_system where
  "empty_system = \<lparr>gs_gate = new_gate, gs_admissions = []\<rparr>"

definition put_admission :: "nat \<Rightarrow> admission \<Rightarrow> browser_gate \<Rightarrow> gate_system \<Rightarrow> gate_system" where
  "put_admission i a g s = s\<lparr>gs_gate := g, gs_admissions := (gs_admissions s)[i := a]\<rparr>"

fun gate_enabled :: "gate_event \<Rightarrow> gate_system \<Rightarrow> bool" where
  "gate_enabled (Create_admission k) s = True"
| "gate_enabled (Accept i) s = (i < length (gs_admissions s))"
| "gate_enabled (Begin i r) s = (i < length (gs_admissions s))"
| "gate_enabled (Abandon i) s = (i < length (gs_admissions s) \<and>
     (case ad_waiter (gs_admissions s ! i) of None \<Rightarrow> True
      | Some w \<Rightarrow> \<not> w_started (g_waiter (gs_gate s) w)))"
| "gate_enabled (Finish i) s = (i < length (gs_admissions s))"
| "gate_enabled (Release_lease w) s =
     (gate_waiter (gs_gate s) w \<and> w_promise (g_waiter (gs_gate s) w) = Lease_granted)"
| "gate_enabled (Abort_signal w r) s = gate_waiter (gs_gate s) w"
| "gate_enabled Microtask s = True"

fun gate_apply :: "gate_limits \<Rightarrow> gate_event \<Rightarrow> gate_system \<Rightarrow> gate_system" where
  "gate_apply L (Create_admission k) s = s\<lparr>gs_admissions := gs_admissions s @ [new_admission k]\<rparr>"
| "gate_apply L (Accept i) s =
     (case onAccepted L (gs_admissions s ! i) (gs_gate s) of (e, a, g) \<Rightarrow> put_admission i a g s)"
| "gate_apply L (Begin i r) s =
     (case onStarted L r (gs_admissions s ! i) (gs_gate s) of (e, a, g) \<Rightarrow> put_admission i a g s)"
| "gate_apply L (Abandon i) s =
     (case onAbandoned (gs_admissions s ! i) (gs_gate s) of (a, g) \<Rightarrow> put_admission i a g s)"
| "gate_apply L (Finish i) s =
     (case onSettled (gs_admissions s ! i) (gs_gate s) of (a, g) \<Rightarrow> put_admission i a g s)"
| "gate_apply L (Release_lease w) s = s\<lparr>gs_gate := release w (gs_gate s)\<rparr>"
| "gate_apply L (Abort_signal w r) s = s\<lparr>gs_gate := onAbort w r (gs_gate s)\<rparr>"
| "gate_apply L Microtask s = s\<lparr>gs_gate := run_microtask L (gs_gate s)\<rparr>"

abbreviation gate_run :: "gate_limits \<Rightarrow> gate_event list \<Rightarrow> gate_system \<Rightarrow> gate_system option" where
  "gate_run L \<equiv> run gate_enabled (gate_apply L)"

section \<open>Effects of the operations\<close>

text \<open>What an operation may do to the waiters: \<open>only w\<close> is touched, and no flag is taken back
  but an acquired one by settling.\<close>

definition touches :: "nat \<Rightarrow> browser_gate \<Rightarrow> browser_gate \<Rightarrow> bool" where
  "touches w g g' \<longleftrightarrow> g_sequence g' = g_sequence g \<and>
     g_acceptedSharedReservations g' = g_acceptedSharedReservations g \<and>
     g_pendingSharedReservations g' = g_pendingSharedReservations g \<and>
     length (g_queued g') \<le> length (g_queued g) \<and> set (g_queued g') \<subseteq> set (g_queued g) \<and>
     (g' = g \<or> g_drainScheduled g') \<and>
     (\<forall>v. v \<noteq> w \<longrightarrow> g_waiter g' v = g_waiter g v) \<and>
     w_kind (g_waiter g' w) = w_kind (g_waiter g w) \<and>
     (w_started (g_waiter g w) \<longrightarrow> w_started (g_waiter g' w)) \<and>
     (w_settled (g_waiter g w) \<longrightarrow> w_settled (g_waiter g' w))"

lemma touches_refl [simp]: "touches w g g"
  by (simp add: touches_def)

lemma cancel_touches: "touches w g (cancel w r g)"
  by (auto simp: touches_def cancel_def Let_def scheduleDrain_def set_waiter_def removeAll_filter_not_eq)

lemma release_touches: "touches w g (release w g)"
  using cancel_touches [of w g]
  by (simp add: release_def Let_def) (simp add: touches_def scheduleDrain_def set_waiter_def)

lemma settle_touches: "touches w g (settle w g)"
  by (simp add: settle_def Let_def release_touches cancel_touches)

lemma onAbort_touches: "touches w g (onAbort w r g)"
  by (simp add: onAbort_def Let_def cancel_touches)

lemma cancel_settles: "\<not> w_acquired (g_waiter g w) \<Longrightarrow> w_settled (g_waiter (cancel w r g) w)"
  by (simp add: cancel_def Let_def scheduleDrain_def set_waiter_def)

lemma settle_settles: "w_settled (g_waiter (settle w g) w)"
  by (simp add: settle_def release_def cancel_def Let_def scheduleDrain_def set_waiter_def)

lemma queued_mark_started [simp]: "g_queued (mark_started w g) = g_queued g"
  by (simp add: mark_started_def Let_def set_waiter_def)

lemma mark_started_touches: "\<not> w_settled (g_waiter g w) \<Longrightarrow>
    touches w g ((mark_started w g)\<lparr>g_drainScheduled := True\<rparr>)"
  by (simp add: touches_def mark_started_def Let_def set_waiter_def)

lemma start_touches: "touches w g (snd (start w r g))"
  using mark_started_touches [of g w] onAbort_touches [of w "mark_started w g"]
  by (cases r) (auto simp: start_unfold scheduleDrain_def touches_def)

section \<open>The invariant of the system\<close>

definition accepted_shared :: "admission \<Rightarrow> bool" where
  "accepted_shared a \<longleftrightarrow> ad_kind a = Shared \<and> ad_accepted a"

definition pending_shared :: "admission \<Rightarrow> bool" where
  "pending_shared a \<longleftrightarrow> accepted_shared a \<and> \<not> ad_started a"

definition admission_ok :: "browser_gate \<Rightarrow> admission \<Rightarrow> bool" where
  "admission_ok g a \<longleftrightarrow>
     (\<forall>w. ad_waiter a = Some w \<longrightarrow> gate_waiter g w \<and> w_kind (g_waiter g w) = ad_kind a) \<and>
     (ad_kind a = Shared \<longrightarrow> (ad_waiter a \<noteq> None \<longleftrightarrow> ad_started a) \<and> (ad_started a \<longrightarrow> ad_accepted a))"

definition owners_ok :: "browser_gate \<Rightarrow> admission list \<Rightarrow> bool" where
  "owners_ok g ads \<longleftrightarrow>
     (\<forall>i j w. i < length ads \<longrightarrow> j < length ads \<longrightarrow> ad_waiter (ads ! i) = Some w \<longrightarrow> ad_waiter (ads ! j) = Some w \<longrightarrow> i = j) \<and>
     (\<forall>w. gate_waiter g w \<longrightarrow> \<not> w_settled (g_waiter g w) \<longrightarrow> (\<exists>a \<in> set ads. ad_waiter a = Some w))"

definition reservations_ok :: "browser_gate \<Rightarrow> admission list \<Rightarrow> bool" where
  "reservations_ok g ads \<longleftrightarrow>
     g_acceptedSharedReservations g = int (length (filter accepted_shared ads)) \<and>
     g_pendingSharedReservations g = int (length (filter pending_shared ads))"

definition awake :: "gate_limits \<Rightarrow> browser_gate \<Rightarrow> bool" where
  "awake L g \<longleftrightarrow> g_drainScheduled g \<or> abs_drain L (gate_abs_of g) = gate_abs_of g"

definition system_inv :: "gate_limits \<Rightarrow> gate_system \<Rightarrow> bool" where
  "system_inv L s \<longleftrightarrow> gate_inv (gs_gate s) \<and> awake L (gs_gate s) \<and>
     queueDepth (gs_gate s) \<le> int (gl_maxQueueSize L) \<and>
     (\<forall>a \<in> set (gs_admissions s). admission_ok (gs_gate s) a) \<and>
     owners_ok (gs_gate s) (gs_admissions s) \<and> reservations_ok (gs_gate s) (gs_admissions s)"

lemma system_inv_parts:
  "system_inv L s \<Longrightarrow> gate_inv (gs_gate s)" "system_inv L s \<Longrightarrow> awake L (gs_gate s)"
  "system_inv L s \<Longrightarrow> queueDepth (gs_gate s) \<le> int (gl_maxQueueSize L)"
  "system_inv L s \<Longrightarrow> a \<in> set (gs_admissions s) \<Longrightarrow> admission_ok (gs_gate s) a"
  "system_inv L s \<Longrightarrow> owners_ok (gs_gate s) (gs_admissions s)"
  "system_inv L s \<Longrightarrow> reservations_ok (gs_gate s) (gs_admissions s)"
  by (simp_all add: system_inv_def)

lemma system_inv_empty: "system_inv L empty_system"
  by (simp add: system_inv_def empty_system_def new_gate_inv owners_ok_def reservations_ok_def awake_def
      queueDepth_def) (simp add: new_gate_def gate_waiter_def abs_drain_def gate_abs_of_def
      abs_exclusive_waiting_def abs_admit_shared_def)

subsection \<open>Events that only touch one waiter\<close>

lemma touches_admission_ok: "touches w g g' \<Longrightarrow> admission_ok g a \<Longrightarrow> admission_ok g' a"
  unfolding touches_def admission_ok_def gate_waiter_def by metis

lemma touches_owners_ok: "touches w g g' \<Longrightarrow> owners_ok g ads \<Longrightarrow> owners_ok g' ads"
  unfolding touches_def owners_ok_def gate_waiter_def by metis

lemma touches_awake: "touches w g g' \<Longrightarrow> awake L g \<Longrightarrow> awake L g'"
  by (auto simp: touches_def awake_def)

lemma touches_depth: "touches w g g' \<Longrightarrow> queueDepth g' \<le> queueDepth g"
  by (simp add: touches_def queueDepth_def)

lemma touches_reservations_ok: "touches w g g' \<Longrightarrow> reservations_ok g ads \<Longrightarrow> reservations_ok g' ads"
  by (simp add: touches_def reservations_ok_def)

lemma touches_system_inv:
  assumes "system_inv L s" "touches w (gs_gate s) g'" "gate_inv g'"
  shows "system_inv L (s\<lparr>gs_gate := g'\<rparr>)"
  using assms touches_depth [OF assms(2)]
  by (auto simp: system_inv_def touches_awake touches_owners_ok touches_reservations_ok intro: touches_admission_ok)

end
