(* ===== verification/Gate_Invariant.thy ===== *)
theory Gate_Invariant
  imports Gate_System
begin

text \<open>Every event keeps the invariant of the gate system.\<close>

section \<open>Updating one admission\<close>

lemma length_filter_update:
  "i < length xs \<Longrightarrow> int (length (filter P (xs[i := a]))) =
     int (length (filter P xs)) - (if P (xs ! i) then 1 else 0) + (if P a then 1 else 0)"
proof (induction xs arbitrary: i)
  case (Cons x xs)
  show ?case
  proof (cases i)
    case 0
    then show ?thesis by simp
  next
    case (Suc j)
    with Cons.IH [of j] Cons.prems show ?thesis by (auto split: if_splits)
  qed
qed simp

lemma all_update: "\<forall>a \<in> set ads. P a \<Longrightarrow> P b \<Longrightarrow> \<forall>a \<in> set (ads[i := b]). P a"
  using set_update_subset_insert [of ads i b] by blast

text \<open>An admission takes a fresh waiter, or none at all.\<close>

lemma owners_ok_update:
  assumes "owners_ok g ads" "i < length ads"
    and new: "\<And>w. ad_waiter b = Some w \<Longrightarrow> (\<forall>a \<in> set ads. ad_waiter a \<noteq> Some w) \<or> ad_waiter (ads ! i) = Some w"
    and live: "\<And>w. gate_waiter g' w \<Longrightarrow> \<not> w_settled (g_waiter g' w) \<Longrightarrow>
       (gate_waiter g w \<and> \<not> w_settled (g_waiter g w) \<and> ad_waiter (ads ! i) \<noteq> Some w) \<or> ad_waiter b = Some w"
  shows "owners_ok g' (ads[i := b])"
  unfolding owners_ok_def
proof (intro conjI allI impI)
  fix j k w
  assume jk: "j < length (ads[i := b])" "k < length (ads[i := b])"
    "ad_waiter (ads[i := b] ! j) = Some w" "ad_waiter (ads[i := b] ! k) = Some w"
  have uniq: "\<And>j k. j < length ads \<Longrightarrow> k < length ads \<Longrightarrow> ad_waiter (ads ! j) = Some w \<Longrightarrow>
      ad_waiter (ads ! k) = Some w \<Longrightarrow> j = k"
    using assms(1) unfolding owners_ok_def by blast
  have only: "j = i" if "ad_waiter b = Some w" "j < length ads" "ad_waiter (ads ! j) = Some w" for j
  proof -
    have "ads ! j \<in> set ads" using that(2) by (rule nth_mem)
    with new [OF that(1)] that(3) have "ad_waiter (ads ! i) = Some w" by blast
    from uniq [OF that(2) assms(2) that(3) this] show ?thesis .
  qed
  have at: "(ads[i := b] ! j = b \<and> j = i) \<or> (ads[i := b] ! j = ads ! j \<and> j \<noteq> i)" for j
    using assms(2) by (cases "j = i") simp_all
  show "j = k"
  proof (cases "j = i \<or> k = i")
    case True
    then show ?thesis using jk at [of j] at [of k] only [of j] only [of k] by auto
  next
    case False
    then show ?thesis using jk uniq [of j k] by simp
  qed
next
  fix w assume "gate_waiter g' w" "\<not> w_settled (g_waiter g' w)"
  from live [OF this] show "\<exists>a \<in> set (ads[i := b]). ad_waiter a = Some w"
  proof
    assume h: "gate_waiter g w \<and> \<not> w_settled (g_waiter g w) \<and> ad_waiter (ads ! i) \<noteq> Some w"
    then obtain a where "a \<in> set ads" "ad_waiter a = Some w" using assms(1) unfolding owners_ok_def by blast
    then obtain j where "j < length ads" "ad_waiter (ads ! j) = Some w" by (auto simp: in_set_conv_nth)
    with h have "ads[i := b] ! j = ads ! j" "j < length (ads[i := b])" by (cases "j = i"; simp)+
    then show ?thesis using \<open>ad_waiter (ads ! j) = Some w\<close> by (metis nth_mem)
  next
    assume "ad_waiter b = Some w"
    then show ?thesis using assms(2) by (meson set_update_memI)
  qed
qed

section \<open>Leaving: abandon and finish\<close>

lemma leave_inv:
  assumes inv: "system_inv L s" and i: "i < length (gs_admissions s)" and a: "a = gs_admissions s ! i"
    and t: "\<exists>w. touches w (gs_gate s) g1" and g1: "gate_inv g1"
    and settled: "\<And>w. ad_waiter a = Some w \<Longrightarrow> w_settled (g_waiter g1 w)"
  shows "ad_kind a = Exclusive \<Longrightarrow> system_inv L (put_admission i (a\<lparr>ad_waiter := None\<rparr>) g1 s)"
    "ad_kind a = Shared \<Longrightarrow> system_inv L (put_admission i (a\<lparr>ad_waiter := None, ad_accepted := False,
       ad_started := False\<rparr>) (return_reservation a g1) s)"
proof -
  obtain w where t: "touches w (gs_gate s) g1" using t by blast
  let ?ads = "gs_admissions s"
  from touches_system_inv [OF inv t g1] have "system_inv L (s\<lparr>gs_gate := g1\<rparr>)" .
  then have p: "awake L g1" "queueDepth g1 \<le> int (gl_maxQueueSize L)"
      "\<forall>a \<in> set ?ads. admission_ok g1 a" "owners_ok g1 ?ads" "reservations_ok g1 ?ads"
    by (simp_all add: system_inv_def)
  have ok: "admission_ok g1 a" using p(3) a i by simp
  have own: "owners_ok g1 (?ads[i := b])" if "ad_waiter b = None" for b
    by (rule owners_ok_update [OF p(4) i]) (use that settled a in auto)
  have r: "g_acceptedSharedReservations g1 = int (length (filter accepted_shared ?ads))"
    "g_pendingSharedReservations g1 = int (length (filter pending_shared ?ads))"
    using p(5) by (simp_all add: reservations_ok_def)
  show "system_inv L (put_admission i (a\<lparr>ad_waiter := None\<rparr>) g1 s)" if k: "ad_kind a = Exclusive"
  proof -
    have "\<not> accepted_shared a" "\<not> accepted_shared (a\<lparr>ad_waiter := None\<rparr>)"
      "\<not> pending_shared a" "\<not> pending_shared (a\<lparr>ad_waiter := None\<rparr>)"
      using k by (simp_all add: accepted_shared_def pending_shared_def)
    then have "reservations_ok g1 (?ads[i := a\<lparr>ad_waiter := None\<rparr>])"
      using r i a by (simp add: reservations_ok_def length_filter_update)
    moreover have "admission_ok g1 (a\<lparr>ad_waiter := None\<rparr>)" using ok k by (simp add: admission_ok_def)
    ultimately show ?thesis
      using p g1 own all_update [OF p(3)] by (simp add: system_inv_def put_admission_def)
  qed
  show "system_inv L (put_admission i (a\<lparr>ad_waiter := None, ad_accepted := False,
       ad_started := False\<rparr>) (return_reservation a g1) s)" if k: "ad_kind a = Shared"
  proof -
    let ?b = "a\<lparr>ad_waiter := None, ad_accepted := False, ad_started := False\<rparr>" and ?g = "return_reservation a g1"
    have nb: "\<not> accepted_shared ?b" "\<not> pending_shared ?b" by (simp_all add: accepted_shared_def pending_shared_def)
    have f: "g_waiter ?g = g_waiter g1" "gate_waiter ?g = gate_waiter g1" "g_queued ?g = g_queued g1"
      "gate_abs_of ?g = gate_abs_of g1" "g_drainScheduled ?g = g_drainScheduled g1"
      by (auto simp: return_reservation_def gate_waiter_def gate_abs_of_def)
    have "gate_inv ?g" using g1 by (simp add: return_reservation_def)
    moreover have "awake L ?g" using p(1) by (simp add: awake_def f)
    moreover have "queueDepth ?g \<le> int (gl_maxQueueSize L)"
      using p(2) by (simp add: queueDepth_def return_reservation_def)
    moreover have "\<forall>a \<in> set (?ads[i := ?b]). admission_ok ?g a"
      by (rule all_update) (use p(3) in \<open>simp_all add: admission_ok_def f\<close>)
    moreover have "owners_ok ?g (?ads[i := ?b])" using own [of ?b] by (simp add: owners_ok_def f)
    moreover have "reservations_ok ?g (?ads[i := ?b])"
      using r i a k nb
      by (auto simp: reservations_ok_def length_filter_update return_reservation_def accepted_shared_def pending_shared_def)
    ultimately show ?thesis by (simp add: system_inv_def put_admission_def)
  qed
qed

section \<open>Entering: accept and begin\<close>

lemma add_waiter_fields:
  "g_sequence (add_waiter k g) = g_sequence g + 1"
  "g_waiter (add_waiter k g) = (g_waiter g)(g_sequence g + 1 := new_waiter k)"
  "g_drainScheduled (add_waiter k g) = g_drainScheduled g"
  "g_acceptedSharedReservations (add_waiter k g) = g_acceptedSharedReservations g"
  "g_pendingSharedReservations (add_waiter k g) = g_pendingSharedReservations g"
  "g_startedShared (add_waiter k g) = g_startedShared g"
  "g_activeShared (add_waiter k g) = g_activeShared g"
  "g_activeExclusive (add_waiter k g) = g_activeExclusive g"
  "g_consecutiveExclusive (add_waiter k g) = g_consecutiveExclusive g"
  by (simp_all add: add_waiter_def Let_def set_waiter_def)

lemma add_waiter_queued: "gate_inv g \<Longrightarrow> g_queued (add_waiter k g) = g_queued g @ [g_sequence g + 1]"
  using gate_inv_parts(2) [of g]
  by (auto simp: add_waiter_def Let_def set_waiter_def set_add_def queue_ok_def gate_waiter_def)

lemma add_waiter_depth: "gate_inv g \<Longrightarrow> queueDepth (add_waiter k g) = queueDepth g + 1"
  by (simp add: queueDepth_def add_waiter_queued add_waiter_fields)

lemma add_waiter_gate_waiter: "gate_waiter (add_waiter k g) w \<longleftrightarrow> gate_waiter g w \<or> w = g_sequence g + 1"
  by (auto simp: gate_waiter_def add_waiter_fields)

lemma add_waiter_admission_ok: "admission_ok g a \<Longrightarrow> admission_ok (add_waiter k g) a"
  by (auto simp: admission_ok_def add_waiter_gate_waiter add_waiter_fields(2)) (auto simp: gate_waiter_def)

lemma add_waiter_owners:
  assumes "owners_ok g ads" "i < length ads" "ad_waiter (ads ! i) = None" "ad_waiter b = Some (g_sequence g + 1)"
    "\<forall>a \<in> set ads. admission_ok g a"
  shows "owners_ok (add_waiter k g) (ads[i := b])"
proof (rule owners_ok_update [OF assms(1,2)])
  fix w assume "ad_waiter b = Some w"
  then have "w = g_sequence g + 1" using assms(4) by simp
  then show "(\<forall>a \<in> set ads. ad_waiter a \<noteq> Some w) \<or> ad_waiter (ads ! i) = Some w"
    using assms(5) by (fastforce simp: admission_ok_def gate_waiter_def)
next
  fix w assume "gate_waiter (add_waiter k g) w" "\<not> w_settled (g_waiter (add_waiter k g) w)"
  then show "(gate_waiter g w \<and> \<not> w_settled (g_waiter g w) \<and> ad_waiter (ads ! i) \<noteq> Some w) \<or> ad_waiter b = Some w"
    using assms(3,4) by (cases "w = g_sequence g + 1") (auto simp: add_waiter_gate_waiter add_waiter_fields(2))
qed

text \<open>A state the drain leaves alone: why nobody can be admitted.\<close>

lemma abs_drain_fixed:
  assumes "abs_drain L a = a"
  shows "a_active_exclusive a \<noteq> None \<or> a_active_shared a \<noteq> {} \<or>
     (\<not> (a_shared a \<noteq> {} \<and> a_turns a \<ge> gl_maxConsecutiveExclusives L) \<and> a_exclusives a = {} \<and>
      (a_reserved a \<noteq> {} \<or> a_shared a = {}))"
proof (rule ccontr)
  assume n: "\<not> ?thesis"
  have s: "a_shared (abs_drain L a) = a_shared a" and t: "a_turns (abs_drain L a) = a_turns a"
    using assms by simp_all
  consider "a_shared a \<noteq> {}" "a_turns a \<ge> gl_maxConsecutiveExclusives L"
    | "\<not> (a_shared a \<noteq> {} \<and> a_turns a \<ge> gl_maxConsecutiveExclusives L)" "a_exclusives a \<noteq> {}"
    | "\<not> (a_shared a \<noteq> {} \<and> a_turns a \<ge> gl_maxConsecutiveExclusives L)" "a_exclusives a = {}"
      "a_reserved a = {}" "a_shared a \<noteq> {}" using n by blast
  then show False
    by cases (use n s t in \<open>auto simp: abs_drain_def abs_exclusive_waiting_def abs_admit_shared_def abs_admit_exclusive_def split: if_splits\<close>)
qed

text \<open>A reservation that has not started cannot let the drain admit anyone.\<close>

lemma abs_drain_reserved:
  assumes "abs_drain L a = a"
  shows "abs_drain L (a\<lparr>a_reserved := insert w (a_reserved a)\<rparr>) = a\<lparr>a_reserved := insert w (a_reserved a)\<rparr>"
  using abs_drain_fixed [OF assms] by (auto simp: abs_drain_def abs_exclusive_waiting_def)

lemma add_exclusive_awake:
  assumes "gate_inv g" "awake L g"
  shows "awake L (add_waiter Exclusive g)"
proof -
  let ?g = "add_waiter Exclusive g" and ?w = "g_sequence g + 1"
  have gw: "v \<noteq> ?w" if "v \<in> set (g_queued g)" for v
    using gate_inv_parts(2) [OF assms(1)] that by (auto simp: queue_ok_def gate_waiter_def)
  have "gate_abs_of ?g = (gate_abs_of g)\<lparr>a_reserved := insert ?w (a_reserved (gate_abs_of g))\<rparr>"
    unfolding gate_abs_of_def add_waiter_queued [OF assms(1)] add_waiter_fields
    by (auto simp: new_waiter_def dest: gw)
  then show ?thesis
    using assms(2) abs_drain_reserved [of L "gate_abs_of g" ?w]
    by (auto simp: awake_def add_waiter_fields)
qed

lemma accept_exclusive_inv:
  assumes inv: "system_inv L s" and i: "i < length (gs_admissions s)" and a: "a = gs_admissions s ! i"
    and k: "ad_kind a = Exclusive" "ad_waiter a = None"
    and cap: "queueDepth (gs_gate s) < int (gl_maxQueueSize L)"
  shows "system_inv L (put_admission i (a\<lparr>ad_waiter := Some (g_sequence (gs_gate s) + 1)\<rparr>)
     (add_waiter Exclusive (gs_gate s)) s)"
proof -
  let ?g = "gs_gate s" and ?b = "a\<lparr>ad_waiter := Some (g_sequence (gs_gate s) + 1)\<rparr>" and ?ads = "gs_admissions s"
  note gi = system_inv_parts(1) [OF inv]
  have ok: "\<forall>a \<in> set ?ads. admission_ok ?g a" using inv by (simp add: system_inv_def)
  have all2: "\<forall>a \<in> set ?ads. admission_ok (add_waiter Exclusive ?g) a"
    using ok add_waiter_admission_ok by blast
  have "\<forall>a \<in> set (?ads[i := ?b]). admission_ok (add_waiter Exclusive ?g) a"
    by (rule all_update [OF all2])
      (use k in \<open>simp add: admission_ok_def add_waiter_gate_waiter add_waiter_fields(2) new_waiter_def\<close>)
  moreover have "reservations_ok (add_waiter Exclusive ?g) (?ads[i := ?b])"
    using system_inv_parts(6) [OF inv] i a k
    by (simp add: reservations_ok_def add_waiter_fields length_filter_update accepted_shared_def pending_shared_def)
  moreover have "owners_ok (add_waiter Exclusive ?g) (?ads[i := ?b])"
    by (rule add_waiter_owners [OF system_inv_parts(5) [OF inv] i]) (use a k ok in auto)
  ultimately show ?thesis
    using add_waiter_inv [OF gi] add_exclusive_awake [OF gi system_inv_parts(2) [OF inv]] add_waiter_depth [OF gi] cap
    by (simp add: system_inv_def put_admission_def)
qed

lemma accept_shared_inv:
  assumes inv: "system_inv L s" and i: "i < length (gs_admissions s)" and a: "a = gs_admissions s ! i"
    and k: "ad_kind a = Shared" "\<not> ad_accepted a"
    and cap: "queueDepth (gs_gate s) < int (gl_maxQueueSize L)"
  shows "system_inv L (put_admission i (a\<lparr>ad_accepted := True, ad_started := False\<rparr>)
     ((gs_gate s)\<lparr>g_acceptedSharedReservations := g_acceptedSharedReservations (gs_gate s) + 1,
        g_pendingSharedReservations := g_pendingSharedReservations (gs_gate s) + 1\<rparr>) s)"
proof -
  let ?g = "(gs_gate s)\<lparr>g_acceptedSharedReservations := g_acceptedSharedReservations (gs_gate s) + 1,
        g_pendingSharedReservations := g_pendingSharedReservations (gs_gate s) + 1\<rparr>"
    and ?b = "a\<lparr>ad_accepted := True, ad_started := False\<rparr>" and ?ads = "gs_admissions s"
  have ok: "\<forall>a \<in> set ?ads. admission_ok (gs_gate s) a" using inv by (simp add: system_inv_def)
  then have oka: "admission_ok (gs_gate s) a" using a i by simp
  have f: "g_waiter ?g = g_waiter (gs_gate s)" "gate_waiter ?g = gate_waiter (gs_gate s)"
    "gate_abs_of ?g = gate_abs_of (gs_gate s)" "g_drainScheduled ?g = g_drainScheduled (gs_gate s)"
    by (auto simp: gate_waiter_def gate_abs_of_def)
  have "\<forall>a \<in> set (?ads[i := ?b]). admission_ok ?g a"
    by (rule all_update) (use ok oka k in \<open>simp_all add: admission_ok_def f\<close>)
  moreover have "owners_ok ?g (?ads[i := ?b])"
    by (rule owners_ok_update [OF system_inv_parts(5) [OF inv] i]) (use a f in auto)
  moreover have "reservations_ok ?g (?ads[i := ?b])"
    using system_inv_parts(6) [OF inv] i a k
    by (simp add: reservations_ok_def length_filter_update accepted_shared_def pending_shared_def)
  moreover have "awake L ?g" using system_inv_parts(2) [OF inv] by (simp add: awake_def f)
  moreover have "queueDepth ?g \<le> int (gl_maxQueueSize L)" using cap by (simp add: queueDepth_def)
  ultimately show ?thesis using system_inv_parts(1) [OF inv] by (simp add: system_inv_def put_admission_def)
qed

lemma begin_shared_inv:
  assumes inv: "system_inv L s" and i: "i < length (gs_admissions s)" and a: "a = gs_admissions s ! i"
    and k: "ad_kind a = Shared" "ad_accepted a" "ad_waiter a = None"
  defines "g1 \<equiv> (gs_gate s)\<lparr>g_pendingSharedReservations := g_pendingSharedReservations (gs_gate s) - 1\<rparr>"
  defines "w \<equiv> g_sequence (gs_gate s) + 1"
  shows "system_inv L (put_admission i (a\<lparr>ad_waiter := Some w, ad_started := True\<rparr>)
     (snd (start w r (add_waiter Shared g1))) s)"
    "queueDepth g1 < int (gl_maxQueueSize L)"
proof -
  let ?b = "a\<lparr>ad_waiter := Some w, ad_started := True\<rparr>" and ?ads = "gs_admissions s"
  let ?g2 = "add_waiter Shared g1" and ?g3 = "snd (start w r (add_waiter Shared g1))"
  have inv1: "gate_inv g1" using system_inv_parts(1) [OF inv] by (simp add: g1_def)
  have gw1: "gate_waiter g1 = gate_waiter (gs_gate s)" and seq: "g_sequence g1 = g_sequence (gs_gate s)"
    and wt1: "g_waiter g1 = g_waiter (gs_gate s)"
    by (auto simp: g1_def gate_waiter_def)
  have depth: "queueDepth g1 = queueDepth (gs_gate s) - 1" by (simp add: g1_def queueDepth_def)
  then show "queueDepth g1 < int (gl_maxQueueSize L)" using system_inv_parts(3) [OF inv] by simp
  have ok: "\<forall>a \<in> set ?ads. admission_ok g1 a"
    using inv by (simp add: system_inv_def admission_ok_def gw1 wt1)
  then have oka: "admission_ok g1 a" using a i by simp
  have w: "gate_waiter ?g2 w" by (simp add: add_waiter_gate_waiter w_def seq)
  have inv2: "gate_inv ?g2" by (rule add_waiter_inv [OF inv1])
  have wx: "g_waiter ?g2 w = new_waiter Shared" by (simp add: add_waiter_fields w_def seq)
  have t: "touches w ?g2 ?g3" by (rule start_touches)
  have sched: "g_drainScheduled ?g3"
    by (auto simp: start_unfold wx new_waiter_def scheduleDrain_def split: option.split)
  have all2: "\<forall>a \<in> set ?ads. admission_ok ?g2 a" using ok add_waiter_admission_ok by blast
  have b2: "admission_ok ?g2 ?b" using w wx k by (simp add: admission_ok_def new_waiter_def)
  have "\<forall>a \<in> set (?ads[i := ?b]). admission_ok ?g3 a"
    using all_update [OF all2 b2, of i] touches_admission_ok [OF t] by blast
  moreover have "owners_ok ?g2 (?ads[i := ?b])"
  proof (rule add_waiter_owners)
    show "owners_ok g1 ?ads" using system_inv_parts(5) [OF inv] by (simp add: owners_ok_def gw1 wt1)
  qed (use i a k ok seq w_def in auto)
  then have "owners_ok ?g3 (?ads[i := ?b])" by (rule touches_owners_ok [OF t])
  moreover have "reservations_ok ?g2 (?ads[i := ?b])"
    using system_inv_parts(6) [OF inv] i a k oka
    by (simp add: reservations_ok_def length_filter_update accepted_shared_def pending_shared_def
        add_waiter_fields g1_def admission_ok_def)
  then have "reservations_ok ?g3 (?ads[i := ?b])" by (rule touches_reservations_ok [OF t])
  moreover have "queueDepth ?g3 \<le> int (gl_maxQueueSize L)"
    using touches_depth [OF t] add_waiter_depth [OF inv1, of Shared] depth system_inv_parts(3) [OF inv] by simp
  moreover have "gate_inv ?g3" by (rule start_inv [OF inv2 w])
  ultimately show "system_inv L (put_admission i ?b ?g3 s)"
    using sched by (simp add: system_inv_def put_admission_def awake_def)
qed

section \<open>Every event\<close>

lemma abs_drain_idem: "abs_drain L (abs_drain L a) = abs_drain L a"
  by (auto simp: abs_drain_def abs_exclusive_waiting_def abs_admit_shared_def abs_admit_exclusive_def)

lemma microtask_inv:
  assumes "system_inv L s"
  shows "system_inv L (s\<lparr>gs_gate := run_microtask L (gs_gate s)\<rparr>)"
proof (cases "g_drainScheduled (gs_gate s)")
  case False
  with assms show ?thesis by (simp add: run_microtask_def)
next
  case True
  let ?g = "(gs_gate s)\<lparr>g_drainScheduled := False\<rparr>"
  have gi: "gate_inv ?g" using system_inv_parts(1) [OF assms] by simp
  have e: "run_microtask L (gs_gate s) = drain L ?g" using True by (simp add: run_microtask_def)
  have fr: "drain_frame ?g (drain L ?g)" by (rule drain_drain_frame)
  have aw: "awake L (drain L ?g)"
    by (simp add: awake_def drain_refines [OF drain_inv [OF gi]] drain_refines [OF gi] abs_drain_idem)
  have gw: "gate_waiter (drain L ?g) = gate_waiter (gs_gate s)"
    by (rule ext) (use fr in \<open>simp add: drain_frame_def gate_waiter_def\<close>)
  have fl: "w_kind (g_waiter (drain L ?g) v) = w_kind (g_waiter (gs_gate s) v)"
    "w_settled (g_waiter (drain L ?g) v) = w_settled (g_waiter (gs_gate s) v)" for v
    using fr by (simp_all add: drain_frame_def)
  have "queueDepth (drain L ?g) \<le> queueDepth (gs_gate s)" using fr by (simp add: drain_frame_def queueDepth_def)
  moreover have "\<forall>a \<in> set (gs_admissions s). admission_ok (drain L ?g) a"
    using assms by (simp add: system_inv_def admission_ok_def gw fl)
  moreover have "owners_ok (drain L ?g) (gs_admissions s)"
    using system_inv_parts(5) [OF assms] by (simp add: owners_ok_def gw fl)
  moreover have "reservations_ok (drain L ?g) (gs_admissions s)"
    using system_inv_parts(6) [OF assms] fr by (simp add: reservations_ok_def drain_frame_def)
  ultimately show ?thesis
    using drain_inv [OF gi] aw system_inv_parts(3) [OF assms] by (simp add: system_inv_def e)
qed

lemma reject_inv: "system_inv L s \<Longrightarrow> system_inv L (s\<lparr>gs_gate := (gs_gate s)\<lparr>g_rejectedCount := n\<rparr>\<rparr>)"
  by (simp add: system_inv_def awake_def gate_abs_of_def queueDepth_def admission_ok_def owners_ok_def
      reservations_ok_def gate_waiter_def)

lemma put_same: "put_admission i (gs_admissions s ! i) g s = s\<lparr>gs_gate := g\<rparr>"
  by (simp add: put_admission_def)

lemma create_inv: "system_inv L s \<Longrightarrow> system_inv L (s\<lparr>gs_admissions := gs_admissions s @ [new_admission k]\<rparr>)"
proof -
  assume inv: "system_inv L s"
  have "owners_ok (gs_gate s) (gs_admissions s @ [new_admission k])"
    using system_inv_parts(5) [OF inv] unfolding owners_ok_def
    by (auto simp: nth_append new_admission_def less_Suc_eq)
  with inv show ?thesis
    by (simp add: system_inv_def reservations_ok_def admission_ok_def accepted_shared_def pending_shared_def new_admission_def)
qed

lemma accept_inv:
  assumes inv: "system_inv L s" and i: "i < length (gs_admissions s)"
  shows "system_inv L (gate_apply L (Accept i) s)"
proof (cases "ad_kind (gs_admissions s ! i)")
  case Exclusive
  then show ?thesis
    using inv accept_exclusive_inv [OF inv i refl] reject_inv [OF inv]
    by (simp add: onAccepted_def reserve_unfold put_same)
next
  case Shared
  then show ?thesis
    using inv accept_shared_inv [OF inv i refl] reject_inv [OF inv]
    by (simp add: onAccepted_def assertReservationCapacity_def put_same)
qed

lemma begin_inv:
  assumes inv: "system_inv L s" and i: "i < length (gs_admissions s)"
  shows "system_inv L (gate_apply L (Begin i r) s)"
proof (cases "ad_kind (gs_admissions s ! i)")
  case Exclusive
  show ?thesis
  proof (cases "ad_waiter (gs_admissions s ! i)")
    case None
    with Exclusive inv show ?thesis by (simp add: onStarted_def put_same)
  next
    case (Some w)
    then have "gate_waiter (gs_gate s) w" using system_inv_parts(4) [OF inv nth_mem [OF i]] by (simp add: admission_ok_def)
    from touches_system_inv [OF inv start_touches start_inv [OF system_inv_parts(1) [OF inv] this]]
    show ?thesis using Exclusive Some by (simp add: onStarted_def put_same case_prod_beta)
  qed
next
  case Shared
  show ?thesis
  proof (cases "\<not> ad_accepted (gs_admissions s ! i) \<or> ad_waiter (gs_admissions s ! i) \<noteq> None")
    case True
    with Shared inv show ?thesis by (auto simp: onStarted_def put_same)
  next
    case False
    then have k: "ad_accepted (gs_admissions s ! i)" "ad_waiter (gs_admissions s ! i) = None" by auto
    from begin_shared_inv(1) [OF inv i refl Shared k, of r] begin_shared_inv(2) [OF inv i refl Shared k] Shared k show ?thesis
      by (simp add: onStarted_def Let_def reserve_unfold put_same case_prod_beta)
  qed
qed

lemma abandon_inv:
  assumes inv: "system_inv L s" and i: "i < length (gs_admissions s)" and en: "gate_enabled (Abandon i) s"
  shows "system_inv L (gate_apply L (Abandon i) s)"
proof -
  let ?a = "gs_admissions s ! i" and ?g = "gs_gate s"
  let ?g1 = "case ad_waiter ?a of None \<Rightarrow> ?g | Some w \<Rightarrow> cancel w (Aborted In_flight_phase) ?g"
  note gi = system_inv_parts(1) [OF inv]
  have gw: "gate_waiter ?g w" if "ad_waiter ?a = Some w" for w
    using system_inv_parts(4) [OF inv nth_mem [OF i]] that by (simp add: admission_ok_def)
  have t: "\<exists>w. touches w ?g ?g1" by (cases "ad_waiter ?a") (auto intro: cancel_touches)
  have g1: "gate_inv ?g1" using gi cancel_inv gw by (simp split: option.split)
  have settled: "w_settled (g_waiter ?g1 w)" if w: "ad_waiter ?a = Some w" for w
  proof -
    have "\<not> w_started (g_waiter ?g w)" using en w by simp
    then have "\<not> w_acquired (g_waiter ?g w)" using flags_of(2) [OF gate_inv_parts(1) [OF gi] gw [OF w]] by blast
    then show ?thesis using cancel_settles w by simp
  qed
  show ?thesis
    using leave_inv [OF inv i refl t g1 settled] by (cases "ad_kind ?a") (simp_all add: onAbandoned_def Let_def)
qed

lemma finish_inv:
  assumes inv: "system_inv L s" and i: "i < length (gs_admissions s)"
  shows "system_inv L (gate_apply L (Finish i) s)"
proof -
  let ?a = "gs_admissions s ! i" and ?g = "gs_gate s"
  let ?g1 = "case ad_waiter ?a of None \<Rightarrow> ?g | Some w \<Rightarrow> settle w ?g"
  note gi = system_inv_parts(1) [OF inv]
  have gw: "gate_waiter ?g w" if "ad_waiter ?a = Some w" for w
    using system_inv_parts(4) [OF inv nth_mem [OF i]] that by (simp add: admission_ok_def)
  have t: "\<exists>w. touches w ?g ?g1" by (cases "ad_waiter ?a") (auto intro: settle_touches)
  have g1: "gate_inv ?g1" using gi settle_inv gw by (simp split: option.split)
  have settled: "w_settled (g_waiter ?g1 w)" if "ad_waiter ?a = Some w" for w
    using settle_settles that by simp
  show ?thesis
    using leave_inv [OF inv i refl t g1 settled] by (cases "ad_kind ?a") (simp_all add: onSettled_def Let_def)
qed

lemma gate_apply_inv:
  assumes inv: "system_inv L s" and en: "gate_enabled e s"
  shows "system_inv L (gate_apply L e s)"
proof (cases e)
  case (Create_admission k)
  then show ?thesis using create_inv [OF inv] by simp
next
  case (Accept i)
  then show ?thesis using accept_inv [OF inv] en by simp
next
  case (Begin i r)
  then show ?thesis using begin_inv [OF inv] en by simp
next
  case (Abandon i)
  then show ?thesis using abandon_inv [OF inv, of i] en by simp
next
  case (Finish i)
  then show ?thesis using finish_inv [OF inv] en by simp
next
  case (Release_lease w)
  then show ?thesis
    using touches_system_inv [OF inv release_touches release_inv [OF system_inv_parts(1) [OF inv]]] en by simp
next
  case (Abort_signal w r)
  then show ?thesis
    using touches_system_inv [OF inv onAbort_touches onAbort_inv [OF system_inv_parts(1) [OF inv]]] en by simp
next
  case Microtask
  then show ?thesis using microtask_inv [OF inv] by simp
qed

interpretation gate: event_system gate_enabled "gate_apply L" "system_inv L" for L
  by unfold_locales (rule gate_apply_inv)

lemma gate_run_inv: "gate_run L es empty_system = Some s \<Longrightarrow> system_inv L s"
  by (rule gate.run_inv [OF _ system_inv_empty])

end
