(* ===== verification/Gate_History.thy ===== *)
theory Gate_History
  imports Gate_Invariant
begin

text \<open>
  What stays true along a run of the gate system: a waiter never returns to the queue, its
  promise is settled once, and while a shared waiter waits the exclusive turns are counted.
\<close>

section \<open>A later gate\<close>

definition lease_settled :: "lease_promise \<Rightarrow> bool" where
  "lease_settled p \<longleftrightarrow> p = Lease_granted \<or> (\<exists>e. p = Lease_rejected e)"

definition later :: "browser_gate \<Rightarrow> browser_gate \<Rightarrow> bool" where
  "later g g' \<longleftrightarrow> (\<forall>w. gate_waiter g w \<longrightarrow> gate_waiter g' w \<and>
     w_kind (g_waiter g' w) = w_kind (g_waiter g w) \<and>
     (w_started (g_waiter g w) \<longrightarrow> w_started (g_waiter g' w)) \<and>
     (w_settled (g_waiter g w) \<longrightarrow> w_settled (g_waiter g' w)) \<and>
     (w \<in> set (g_queued g') \<longrightarrow> w \<in> set (g_queued g)) \<and>
     (lease_settled (w_promise (g_waiter g w)) \<longrightarrow> w_promise (g_waiter g' w) = w_promise (g_waiter g w)))"

lemma later_refl [simp]: "later g g"
  by (simp add: later_def)

lemma later_trans: "later a b \<Longrightarrow> later b c \<Longrightarrow> later a c"
  unfolding later_def by metis

lemma queued_not_settled:
  assumes "gate_inv g" "w \<in> set (g_queued g)"
  shows "\<not> lease_settled (w_promise (g_waiter g w))"
proof -
  have gw: "gate_waiter g w" using gate_inv_parts(2) [OF assms(1)] assms(2) by (simp add: queue_ok_def)
  have "promise_matches True (g_waiter g w)"
    using promise_of [OF gate_inv_parts(5) [OF assms(1)] gw] assms(2) by simp
  moreover have "\<not> w_settled (g_waiter g w)" "\<not> w_acquired (g_waiter g w)"
    using flags_of(1) [OF gate_inv_parts(1) [OF assms(1)] gw] assms(2) by auto
  ultimately show ?thesis by (auto simp: promise_matches_def lease_settled_def)
qed

text \<open>An operation that settles or starts one waiter only changes the promise of a queued one.\<close>

lemma touches_later:
  assumes inv: "gate_inv g" and t: "touches w g g'"
    and p: "gate_waiter g w \<Longrightarrow> w \<notin> set (g_queued g) \<Longrightarrow> w_promise (g_waiter g' w) = w_promise (g_waiter g w)"
  shows "later g g'"
  unfolding later_def
proof (intro allI impI)
  fix v assume v: "gate_waiter g v"
  have "lease_settled (w_promise (g_waiter g v)) \<longrightarrow> w_promise (g_waiter g' v) = w_promise (g_waiter g v)"
    using queued_not_settled [OF inv, of v] p v t by (cases "v = w") (auto simp: touches_def)
  moreover have "gate_waiter g' v" "w_kind (g_waiter g' v) = w_kind (g_waiter g v)"
     "w_started (g_waiter g v) \<longrightarrow> w_started (g_waiter g' v)"
     "w_settled (g_waiter g v) \<longrightarrow> w_settled (g_waiter g' v)"
     "v \<in> set (g_queued g') \<longrightarrow> v \<in> set (g_queued g)"
    using t v by (cases "v = w"; auto simp: touches_def gate_waiter_def)+
  ultimately show "gate_waiter g' v \<and> w_kind (g_waiter g' v) = w_kind (g_waiter g v) \<and>
     (w_started (g_waiter g v) \<longrightarrow> w_started (g_waiter g' v)) \<and>
     (w_settled (g_waiter g v) \<longrightarrow> w_settled (g_waiter g' v)) \<and>
     (v \<in> set (g_queued g') \<longrightarrow> v \<in> set (g_queued g)) \<and>
     (lease_settled (w_promise (g_waiter g v)) \<longrightarrow> w_promise (g_waiter g' v) = w_promise (g_waiter g v))"
    by blast
qed

lemma not_queued_flags:
  "gate_inv g \<Longrightarrow> gate_waiter g w \<Longrightarrow> w \<notin> set (g_queued g) \<Longrightarrow> w_settled (g_waiter g w) \<or> w_acquired (g_waiter g w)"
  using flags_of(1) [OF gate_inv_parts(1)] by blast

lemma cancel_later: "gate_inv g \<Longrightarrow> later g (cancel w r g)"
  by (rule touches_later [OF _ cancel_touches]) (auto simp: cancel_def Let_def dest: not_queued_flags)

lemma release_later: "gate_inv g \<Longrightarrow> later g (release w g)"
  by (rule touches_later [OF _ release_touches])
    (auto simp: release_def cancel_def Let_def scheduleDrain_def set_waiter_def dest: not_queued_flags)

lemma settle_later: "gate_inv g \<Longrightarrow> later g (settle w g)"
  by (simp add: settle_def Let_def release_later cancel_later)

lemma onAbort_later: "gate_inv g \<Longrightarrow> later g (onAbort w r g)"
  by (simp add: onAbort_def Let_def cancel_later)

lemma start_later: "gate_inv g \<Longrightarrow> later g (snd (start w r g))"
proof (rule touches_later [OF _ start_touches])
  assume inv: "gate_inv g" and w: "gate_waiter g w" "w \<notin> set (g_queued g)"
  have "w_settled (g_waiter g w) \<or> w_started (g_waiter g w)"
    using not_queued_flags [OF inv w] flags_of(2) [OF gate_inv_parts(1) [OF inv] w(1)] by blast
  then show "w_promise (g_waiter (snd (start w r g)) w) = w_promise (g_waiter g w)"
    by (auto simp: start_unfold)
qed

lemma add_waiter_later: "gate_inv g \<Longrightarrow> later g (add_waiter k g)"
  unfolding later_def by (auto simp: add_waiter_gate_waiter add_waiter_fields(1,2) add_waiter_queued gate_waiter_def)

lemma grant_later:
  assumes "gate_inv g"
  shows "later g (grant w g)"
proof (cases "w \<in> set (g_queued g)")
  case True
  then have "\<not> lease_settled (w_promise (g_waiter g w))" by (rule queued_not_settled [OF assms])
  then show ?thesis
    unfolding later_def gate_waiter_def
    by (auto simp: grant_def Let_def set_waiter_def fun_upd_apply)
qed (simp add: grant_def)

lemma fold_grant_later:
  assumes "gate_inv g" "g_activeExclusive g = None" "set ws \<subseteq> set (g_startedShared g)" "distinct ws"
  shows "later g (fold grant ws g)"
proof -
  note f = fold_grant_shared [OF assms]
  have "\<not> lease_settled (w_promise (g_waiter g v))" if "v \<in> set ws" for v
    using that assms(3) startedShared_iff [OF gate_inv_parts(3) [OF assms(1)]] queued_not_settled [OF assms(1)] by blast
  with f show ?thesis unfolding later_def gate_waiter_def by auto
qed

lemma field_updates_later [simp]:
  "later g (g'\<lparr>g_consecutiveExclusive := n\<rparr>) = later g g'"
  "later g (g'\<lparr>g_startedExclusiveHeap := h\<rparr>) = later g g'"
  "later g (g'\<lparr>g_rejectedCount := n\<rparr>) = later g g'"
  "later g (g'\<lparr>g_acceptedSharedReservations := i\<rparr>) = later g g'"
  "later g (g'\<lparr>g_pendingSharedReservations := i\<rparr>) = later g g'"
  "later g (g'\<lparr>g_drainScheduled := b\<rparr>) = later g g'"
  by (simp_all add: later_def gate_waiter_def)

lemma drain_later:
  assumes "gate_inv g"
  shows "later g (drain L g)"
proof (cases "g_activeExclusive g \<noteq> None \<or> g_activeShared g \<noteq> [] \<and> hasExclusiveWaiter g")
  case True
  then have "drain L g = g" by (auto simp: drain_def)
  then show ?thesis by simp
next
  case False
  note inv = dropStale_inv [OF assms]
  have free: "g_activeExclusive (pruned g) = None" using False by simp
  have p: "later g (pruned g)" by simp
  have "distinct (g_startedShared (pruned g))" using gate_inv_parts(3) [OF inv] by (simp add: started_ok_def)
  then have "later g (fold grant (g_startedShared g) (pruned g))"
    using later_trans [OF p fold_grant_later [OF inv free subset_refl]] by simp
  moreover have "later g (grant w (pruned g))" for w
    by (rule later_trans [OF p grant_later [OF inv]])
  ultimately show ?thesis using False by (auto simp: drain_def Let_def)
qed

lemma microtask_later: "gate_inv g \<Longrightarrow> later g (run_microtask L g)"
proof -
  assume inv: "gate_inv g"
  have s: "later g (g\<lparr>g_drainScheduled := False\<rparr>)" by simp
  have "later (g\<lparr>g_drainScheduled := False\<rparr>) (drain L (g\<lparr>g_drainScheduled := False\<rparr>))"
    by (rule drain_later) (simp add: inv)
  from later_trans [OF s this] show ?thesis by (simp add: run_microtask_def)
qed

lemma return_reservation_later [simp]: "later g (return_reservation a g') = later g g'"
  by (simp add: return_reservation_def)

lemma gate_apply_later:
  assumes inv: "system_inv L s" and en: "gate_enabled e s"
  shows "later (gs_gate s) (gs_gate (gate_apply L e s))"
proof -
  note gi = system_inv_parts(1) [OF inv]
  show ?thesis
  proof (cases e)
    case (Accept i)
    then show ?thesis
      using add_waiter_later [OF gi]
      by (simp add: onAccepted_def reserve_unfold assertReservationCapacity_def put_admission_def)
  next
    case (Begin i r)
    let ?a = "gs_admissions s ! i"
    let ?g1 = "(gs_gate s)\<lparr>g_pendingSharedReservations := g_pendingSharedReservations (gs_gate s) - 1\<rparr>"
    let ?w = "g_sequence ?g1 + 1"
    have g1: "gate_inv ?g1" using gi by simp
    have "later (gs_gate s) (add_waiter Shared ?g1)"
      using later_trans [OF _ add_waiter_later [OF g1, of Shared], of "gs_gate s"] by simp
    then have l: "later (gs_gate s) (snd (start ?w r (add_waiter Shared ?g1)))"
      by (rule later_trans [OF _ start_later [OF add_waiter_inv [OF g1]]])
    then show ?thesis
      using Begin start_later [OF gi]
      by (cases "ad_kind ?a") (auto simp: onStarted_def Let_def reserve_unfold put_admission_def case_prod_beta
          split: option.split)
  next
    case (Abandon i)
    then show ?thesis
      using cancel_later [OF gi]
      by (cases "ad_kind (gs_admissions s ! i)") (simp_all add: onAbandoned_def Let_def put_admission_def split: option.split)
  next
    case (Finish i)
    then show ?thesis
      using settle_later [OF gi]
      by (cases "ad_kind (gs_admissions s ! i)") (simp_all add: onSettled_def Let_def put_admission_def split: option.split)
  qed (simp_all add: release_later [OF gi] onAbort_later [OF gi] microtask_later [OF gi])
qed

lemma gate_run_later:
  "gate_run L es s = Some t \<Longrightarrow> system_inv L s \<Longrightarrow> later (gs_gate s) (gs_gate t)"
  by (rule gate.run_relation [where r = "\<lambda>s t. later (gs_gate s) (gs_gate t)"])
    (auto intro: later_trans gate_apply_later)

section \<open>Counting exclusive turns\<close>

text \<open>The number of exclusive leases granted while a history runs.\<close>

fun exclusive_grants :: "gate_limits \<Rightarrow> gate_event list \<Rightarrow> gate_system \<Rightarrow> nat" where
  "exclusive_grants L [] s = 0"
| "exclusive_grants L (e # es) s = (let s' = gate_apply L e s in
     (if g_activeExclusive (gs_gate s) = None \<and> g_activeExclusive (gs_gate s') \<noteq> None then 1 else 0) +
     exclusive_grants L es s')"

text \<open>Away from the drain, nobody is admitted and the turns are not counted.\<close>

definition no_admission :: "browser_gate \<Rightarrow> browser_gate \<Rightarrow> bool" where
  "no_admission g g' \<longleftrightarrow> g_consecutiveExclusive g' = g_consecutiveExclusive g \<and>
     (g_activeExclusive g' = g_activeExclusive g \<or> g_activeExclusive g' = None)"

lemma no_admission_ops:
  "no_admission g (cancel w r g)" "no_admission g (release w g)" "no_admission g (settle w g)"
  "no_admission g (onAbort w r g)" "no_admission g (mark_started w g)" "no_admission g (add_waiter k g)"
proof -
  show c: "no_admission g (cancel w r g)" for r
    by (simp add: no_admission_def cancel_def Let_def scheduleDrain_def set_waiter_def)
  show rl: "no_admission g (release w g)"
    using c by (auto simp: release_def Let_def) (auto simp: no_admission_def scheduleDrain_def set_waiter_def)
  show "no_admission g (settle w g)" using c rl by (simp add: settle_def Let_def no_admission_def)
  show "no_admission g (onAbort w r g)" using c by (simp add: onAbort_def Let_def) (simp add: no_admission_def)
  show "no_admission g (mark_started w g)" by (simp add: no_admission_def mark_started_def Let_def set_waiter_def)
  show "no_admission g (add_waiter k g)" by (simp add: no_admission_def add_waiter_fields)
qed

lemma no_admission_trans: "no_admission a b \<Longrightarrow> no_admission b c \<Longrightarrow> no_admission a c"
  by (auto simp: no_admission_def)

lemma no_admission_updates [simp]:
  "no_admission g (g'\<lparr>g_rejectedCount := n\<rparr>) = no_admission g g'"
  "no_admission g (g'\<lparr>g_acceptedSharedReservations := i\<rparr>) = no_admission g g'"
  "no_admission g (g'\<lparr>g_pendingSharedReservations := i\<rparr>) = no_admission g g'"
  "no_admission g (g'\<lparr>g_drainScheduled := b\<rparr>) = no_admission g g'"
  "no_admission g (return_reservation a g') = no_admission g g'"
  "no_admission (g\<lparr>g_pendingSharedReservations := i\<rparr>) g' = no_admission g g'"
  "no_admission g g"
  by (simp_all add: no_admission_def return_reservation_def)

lemma no_admission_start: "no_admission g (snd (start w r g))"
  using no_admission_trans [OF no_admission_ops(5) no_admission_ops(4), of g w]
  by (simp add: start_unfold scheduleDrain_def no_admission_ops split: option.split)

lemma no_admission_event:
  assumes "e \<noteq> Microtask"
  shows "no_admission (gs_gate s) (gs_gate (gate_apply L e s))"
proof (cases e)
  case (Begin i r)
  let ?g1 = "(gs_gate s)\<lparr>g_pendingSharedReservations := g_pendingSharedReservations (gs_gate s) - 1\<rparr>"
  have "no_admission (gs_gate s) (snd (start w r (add_waiter Shared ?g1)))" for w
    using no_admission_trans [OF no_admission_ops(6) no_admission_start, of ?g1] by simp
  then show ?thesis using Begin no_admission_start
    by (cases "ad_kind (gs_admissions s ! i)")
      (auto simp: onStarted_def Let_def reserve_unfold put_admission_def case_prod_beta split: option.split)
qed (use assms in \<open>auto simp: no_admission_ops onAccepted_def reserve_unfold assertReservationCapacity_def
       onAbandoned_def onSettled_def Let_def put_admission_def split: option.split\<close>)

text \<open>A microtask that leaves a started shared waiter waiting admits at most one exclusive, and only
  within the allowance.\<close>

lemma abs_drain_turns:
  assumes "a_shared a \<noteq> {}" "a_shared (abs_drain L a) \<noteq> {}" "a_active_exclusive a = None"
    "a_active_exclusive (abs_drain L a) \<noteq> None"
  shows "a_turns (abs_drain L a) = a_turns a + 1 \<and> a_turns a < gl_maxConsecutiveExclusives L"
  using assms
  by (auto simp: abs_drain_def abs_admit_shared_def abs_admit_exclusive_def split: if_splits)

lemma abs_drain_turns_same:
  assumes "a_shared (abs_drain L a) \<noteq> {}" "a_active_exclusive a \<noteq> None \<or> a_active_exclusive (abs_drain L a) = None"
  shows "a_turns (abs_drain L a) = a_turns a"
  using assms
  by (auto simp: abs_drain_def abs_admit_shared_def abs_admit_exclusive_def split: if_splits)

lemma run_microtask_abs:
  assumes "gate_inv g" "g_drainScheduled g"
  shows "gate_abs_of (run_microtask L g) = abs_drain L (gate_abs_of g)"
proof -
  have "gate_inv (g\<lparr>g_drainScheduled := False\<rparr>)" using assms(1) by simp
  from drain_refines [OF this] have "gate_abs_of (drain L (g\<lparr>g_drainScheduled := False\<rparr>)) =
     abs_drain L (gate_abs_of (g\<lparr>g_drainScheduled := False\<rparr>))" .
  moreover have "gate_abs_of (g\<lparr>g_drainScheduled := False\<rparr>) = gate_abs_of g" by (simp add: gate_abs_of_def)
  ultimately show ?thesis using assms(2) by (simp add: run_microtask_def)
qed

lemma gate_event_turns:
  assumes inv: "system_inv L s" and en: "gate_enabled e s"
    and w: "w \<in> set (g_startedShared (gs_gate s))" "w \<in> set (g_startedShared (gs_gate (gate_apply L e s)))"
  defines "g \<equiv> gs_gate s" and "g' \<equiv> gs_gate (gate_apply L e s)"
  shows "if g_activeExclusive g = None \<and> g_activeExclusive g' \<noteq> None
    then g_consecutiveExclusive g' = g_consecutiveExclusive g + 1 \<and>
      g_consecutiveExclusive g < gl_maxConsecutiveExclusives L
    else g_consecutiveExclusive g' = g_consecutiveExclusive g"
proof (cases "e = Microtask \<and> g_drainScheduled g")
  case True
  then have g': "g' = run_microtask L g" by (simp add: g_def g'_def)
  have a: "gate_abs_of g' = abs_drain L (gate_abs_of g)"
    unfolding g' by (rule run_microtask_abs) (use True system_inv_parts(1) [OF inv] g_def in auto)
  have f: "a_shared (gate_abs_of g) \<noteq> {}" "a_shared (gate_abs_of g') \<noteq> {}"
    using w by (auto simp: gate_abs_of_def g_def g'_def)
  have r: "a_turns (gate_abs_of x) = g_consecutiveExclusive x"
    "a_active_exclusive (gate_abs_of x) = g_activeExclusive x" for x by (simp_all add: gate_abs_of_def)
  show ?thesis
    using abs_drain_turns [of "gate_abs_of g" L] abs_drain_turns_same [of L "gate_abs_of g"] f
    unfolding a [symmetric] r by auto
next
  case False
  have "no_admission g g'"
  proof (cases "e = Microtask")
    case True
    with False show ?thesis by (simp add: g_def g'_def run_microtask_def)
  qed (simp add: g_def g'_def no_admission_event)
  then show ?thesis by (auto simp: no_admission_def)
qed

lemma startedShared_earlier:
  assumes "system_inv L s" "gate_run L es s = Some t" "gate_waiter (gs_gate s) w" "w_started (g_waiter (gs_gate s) w)"
    "w \<in> set (g_startedShared (gs_gate t))"
  shows "w \<in> set (g_startedShared (gs_gate s))"
proof -
  have l: "later (gs_gate s) (gs_gate t)" by (rule gate_run_later [OF assms(2,1)])
  have t: "w \<in> set (g_queued (gs_gate t))" "\<not> is_exclusive (gs_gate t) w"
    using startedShared_iff [OF gate_inv_parts(3) [OF system_inv_parts(1) [OF gate.run_inv [OF assms(2,1)]]]] assms(5)
    by blast+
  have "w \<in> set (g_queued (gs_gate s))" "\<not> is_exclusive (gs_gate s) w"
    using l assms(3) t unfolding later_def by auto
  then show ?thesis
    using startedShared_iff [OF gate_inv_parts(3) [OF system_inv_parts(1) [OF assms(1)]]] assms(4) by blast
qed

lemma exclusive_grants_bound:
  assumes "system_inv L s" "gate_run L es s = Some t" "w \<in> set (g_startedShared (gs_gate s))"
    "w \<in> set (g_startedShared (gs_gate t))"
  shows "exclusive_grants L es s + g_consecutiveExclusive (gs_gate s) \<le>
     max (g_consecutiveExclusive (gs_gate s)) (gl_maxConsecutiveExclusives L)"
  using assms
proof (induction es arbitrary: s)
  case (Cons e es)
  from Cons.prems(2) have en: "gate_enabled e s" and rest: "gate_run L es (gate_apply L e s) = Some t"
    by (auto split: if_splits)
  have inv': "system_inv L (gate_apply L e s)" by (rule gate_apply_inv [OF Cons.prems(1) en])
  have l: "later (gs_gate s) (gs_gate (gate_apply L e s))" by (rule gate_apply_later [OF Cons.prems(1) en])
  note si = startedShared_iff [OF gate_inv_parts(3) [OF system_inv_parts(1) [OF Cons.prems(1)]]]
  have ws: "w_started (g_waiter (gs_gate s) w)" "w \<in> set (g_queued (gs_gate s))" using si Cons.prems(3) by blast+
  then have gw: "gate_waiter (gs_gate s) w"
    using gate_inv_parts(2) [OF system_inv_parts(1) [OF Cons.prems(1)]] by (simp add: queue_ok_def)
  have "gate_waiter (gs_gate (gate_apply L e s)) w" "w_started (g_waiter (gs_gate (gate_apply L e s)) w)"
    using l gw ws unfolding later_def by auto
  from startedShared_earlier [OF inv' rest this Cons.prems(4)]
  have w': "w \<in> set (g_startedShared (gs_gate (gate_apply L e s)))" .
  from Cons.IH [OF inv' rest w' Cons.prems(4)] gate_event_turns [OF Cons.prems(1) en Cons.prems(3) w']
  show ?case by (auto simp: Let_def split: if_splits)
qed simp

section \<open>Exclusion\<close>

lemma acquired_exclusive_alone:
  assumes "gate_inv g" "gate_waiter g w" "w_acquired (g_waiter g w)"
  shows "is_exclusive g w \<Longrightarrow> gate_waiter g v \<Longrightarrow> w_acquired (g_waiter g v) \<Longrightarrow> v = w"
    "\<not> is_exclusive g w \<Longrightarrow> g_activeExclusive g = None"
proof -
  have A: "set (g_activeShared g) = {w. gate_waiter g w \<and> w_acquired (g_waiter g w) \<and> \<not> is_exclusive g w}"
    "set_option (g_activeExclusive g) = {w. gate_waiter g w \<and> w_acquired (g_waiter g w) \<and> is_exclusive g w}"
    "g_activeExclusive g \<noteq> None \<longrightarrow> g_activeShared g = []"
    using gate_inv_parts(4) [OF assms(1)] unfolding active_ok_def by blast+
  show "\<not> is_exclusive g w \<Longrightarrow> g_activeExclusive g = None" using A(1,3) assms by force
  assume x: "is_exclusive g w" and v: "gate_waiter g v" "w_acquired (g_waiter g v)"
  have w: "w \<in> set_option (g_activeExclusive g)" using A(2) x assms by blast
  then have "g_activeShared g = []" using A(3) by (auto simp: elem_set)
  then have "is_exclusive g v" using A(1) v by auto
  then have "v \<in> set_option (g_activeExclusive g)" using A(2) v by blast
  with w show "v = w" by (simp add: elem_set)
qed

end
