(* ===== verification/Gate_Properties.thy ===== *)
theory Gate_Properties
  imports Gate_History
begin

text \<open>
  The properties of the browser gate, over every history of events its users can send it: the
  leases exclude each other, a waiting request is not forgotten, exclusive requests are served in
  order and in bounded turns, the counters are exact, and an idle gate is unused.
\<close>

section \<open>A concrete history\<close>

definition ex_limits :: gate_limits where
  "ex_limits = \<lparr>gl_maxQueueSize = 3, gl_maxConsecutiveExclusives = 1\<rparr>"

definition ex_history :: "gate_event list" where
  "ex_history = [Create_admission Exclusive, Create_admission Shared, Create_admission Exclusive,
     Accept 0, Accept 1, Accept 2, Begin 1 None, Begin 0 None, Microtask]"

definition ex_next :: "gate_event list" where
  "ex_next = [Begin 2 None, Release_lease 1]"

definition ex_gate :: gate_system where
  "ex_gate = the (gate_run ex_limits ex_history empty_system)"

definition ex_gate_next :: gate_system where
  "ex_gate_next = the (gate_run ex_limits ex_next ex_gate)"

lemma ex_gate_run: "gate_run ex_limits ex_history empty_system = Some ex_gate"
proof -
  have "gate_run ex_limits ex_history empty_system \<noteq> None" by code_simp
  then show ?thesis by (simp add: ex_gate_def)
qed

lemma ex_gate_next_run: "gate_run ex_limits ex_next ex_gate = Some ex_gate_next"
proof -
  have "gate_run ex_limits ex_next ex_gate \<noteq> None" by code_simp
  then show ?thesis by (simp add: ex_gate_next_def)
qed

lemma ex_gate_next_all: "gate_run ex_limits (ex_history @ ex_next) empty_system = Some ex_gate_next"
  using ex_gate_run ex_gate_next_run by (simp add: run_append)

section \<open>Exclusion\<close>

text \<open>
  C28. Writer exclusion. In every reachable state of the gate, while an exclusive (browser) lease is
  held no other lease is held at all, and while a shared (tab) lease is held no exclusive one is.
\<close>

theorem leases_exclude:
  assumes "gate_run L es empty_system = Some s"
    and "gate_waiter (gs_gate s) w" "w_acquired (g_waiter (gs_gate s) w)"
  shows "(w_kind (g_waiter (gs_gate s) w) = Exclusive \<longrightarrow>
       (\<forall>v. gate_waiter (gs_gate s) v \<and> w_acquired (g_waiter (gs_gate s) v) \<longrightarrow> v = w)) \<and>
     (w_kind (g_waiter (gs_gate s) w) = Shared \<longrightarrow> g_activeExclusive (gs_gate s) = None)"
  using acquired_exclusive_alone [OF system_inv_parts(1) [OF gate_run_inv [OF assms(1)]] assms(2,3)] by auto

theorem leases_exclude_witness:
  "w_kind (g_waiter (gs_gate ex_gate) 1) = Exclusive \<and>
   {v. gate_waiter (gs_gate ex_gate) v \<and> w_acquired (g_waiter (gs_gate ex_gate) v)} = {1}"
proof -
  have h: "gate_waiter (gs_gate ex_gate) 1" "w_acquired (g_waiter (gs_gate ex_gate) 1)"
    "w_kind (g_waiter (gs_gate ex_gate) 1) = Exclusive" by code_simp+
  with leases_exclude [OF ex_gate_run h(1,2)] show ?thesis by blast
qed

section \<open>No lost wake-up\<close>

text \<open>
  C29. No lost wake-up. In every reachable state without a scheduled drain, each request that has
  started and still waits is one the gate may not admit: an exclusive lease is held, or shared leases
  are held while an exclusive request queues, or it is a shared request, the exclusive allowance is
  not used up, no lease is held, and every queued exclusive request is a reservation whose actor has
  not begun yet (there is one). In particular nothing waits at a gate that nobody else uses.
\<close>

theorem no_lost_wakeup:
  assumes "gate_run L es empty_system = Some s" "\<not> g_drainScheduled (gs_gate s)"
    and "w \<in> set (g_queued (gs_gate s))" "w_started (g_waiter (gs_gate s) w)"
  shows "g_activeExclusive (gs_gate s) \<noteq> None \<or>
     (g_activeShared (gs_gate s) \<noteq> [] \<and> hasExclusiveWaiter (gs_gate s)) \<or>
     (w_kind (g_waiter (gs_gate s) w) = Shared \<and> g_activeShared (gs_gate s) = [] \<and>
      g_consecutiveExclusive (gs_gate s) < gl_maxConsecutiveExclusives L \<and>
      (\<exists>v \<in> set (g_queued (gs_gate s)). is_exclusive (gs_gate s) v) \<and>
      (\<forall>v \<in> set (g_queued (gs_gate s)). is_exclusive (gs_gate s) v \<longrightarrow> \<not> w_started (g_waiter (gs_gate s) v)))"
proof -
  let ?g = "gs_gate s" and ?a = "gate_abs_of (gs_gate s)"
  have inv: "system_inv L s" by (rule gate_run_inv [OF assms(1)])
  note gi = system_inv_parts(1) [OF inv]
  have fixed: "abs_drain L ?a = ?a" using system_inv_parts(2) [OF inv] assms(2) by (simp add: awake_def)
  have w: "w \<in> a_exclusives ?a \<or> w \<in> a_shared ?a \<and> w_kind (g_waiter ?g w) = Shared"
    using assms(3,4) startedShared_iff [OF gate_inv_parts(3) [OF gi], of w]
    by (cases "w_kind (g_waiter ?g w)") (auto simp: gate_abs_of_def)
  have fields: "a_active_exclusive ?a = g_activeExclusive ?g" "a_active_shared ?a = set (g_activeShared ?g)"
    "a_exclusives ?a = {v \<in> set (g_queued ?g). is_exclusive ?g v \<and> w_started (g_waiter ?g v)}"
    "a_reserved ?a = {v \<in> set (g_queued ?g). is_exclusive ?g v \<and> \<not> w_started (g_waiter ?g v)}"
    "a_turns ?a = g_consecutiveExclusive ?g"
    by (simp_all add: gate_abs_of_def)
  from abs_drain_fixed [OF fixed] consider (held) "a_active_exclusive ?a \<noteq> None"
    | (shared) "a_active_exclusive ?a = None" "a_active_shared ?a \<noteq> {}"
    | (reserved) "a_active_shared ?a = {}" "a_exclusives ?a = {}" "a_reserved ?a \<noteq> {} \<or> a_shared ?a = {}"
        "a_shared ?a \<noteq> {} \<Longrightarrow> a_turns ?a < gl_maxConsecutiveExclusives L" by (meson not_le)
  then show ?thesis
  proof cases
    case held
    then show ?thesis using fields by simp
  next
    case shared
    have "abs_exclusive_waiting ?a"
    proof (rule ccontr)
      assume n: "\<not> abs_exclusive_waiting ?a"
      then have "a_shared ?a \<noteq> {}" using w by (auto simp: abs_exclusive_waiting_def)
      moreover have "a_shared (abs_drain L ?a) = {}"
        using n shared by (simp add: abs_drain_def abs_admit_shared_def abs_exclusive_waiting_def)
      ultimately show False using fixed by simp
    qed
    then show ?thesis using shared fields hasExclusiveWaiter_iff [OF gi] by auto
  next
    case reserved
    then have sh: "w \<in> a_shared ?a" "w_kind (g_waiter ?g w) = Shared" using w by auto
    with reserved(3,4) have "a_reserved ?a \<noteq> {}" "a_turns ?a < gl_maxConsecutiveExclusives L" by auto
    with reserved(1,2) sh(2) show ?thesis unfolding fields by auto
  qed
qed

theorem no_lost_wakeup_witness:
  "w_kind (g_waiter (gs_gate ex_gate) 3) = Shared \<and> g_activeExclusive (gs_gate ex_gate) \<noteq> None"
proof -
  have h: "\<not> g_drainScheduled (gs_gate ex_gate)" "3 \<in> set (g_queued (gs_gate ex_gate))"
    "w_started (g_waiter (gs_gate ex_gate) 3)" by code_simp+
  have n: "g_activeShared (gs_gate ex_gate) = []" "w_kind (g_waiter (gs_gate ex_gate) 3) = Shared"
    "g_activeExclusive (gs_gate ex_gate) = Some 1" by code_simp+
  from no_lost_wakeup [OF ex_gate_run h] n show ?thesis by simp
qed

section \<open>The drain\<close>

text \<open>
  C30. Refinement of the drain. On every reachable state, the code's drain (array heap, lazy
  deletion, counters, loops over the waiting set) does exactly what the abstract gate does on sets:
  nothing while an exclusive lease or shared leases with an exclusive waiter are present, the whole
  shared batch when the exclusive allowance is used up, otherwise the least started exclusive
  request, otherwise the shared batch.
\<close>

theorem drain_implements_abstract:
  assumes "gate_run L es empty_system = Some s"
  shows "gate_abs_of (drain L (gs_gate s)) = abs_drain L (gate_abs_of (gs_gate s))"
  by (rule drain_refines [OF system_inv_parts(1) [OF gate_run_inv [OF assms]]])

theorem drain_implements_abstract_witness:
  "gate_abs_of (drain ex_limits (gs_gate ex_gate_next)) = abs_drain ex_limits (gate_abs_of (gs_gate ex_gate_next)) \<and>
   g_activeShared (drain ex_limits (gs_gate ex_gate_next)) = [3]"
proof -
  have "g_activeShared (drain ex_limits (gs_gate ex_gate_next)) = [3]" by code_simp
  then show ?thesis using drain_implements_abstract [OF ex_gate_next_all] by blast
qed

text \<open>
  C31. Exclusive requests are served in reservation order: when a microtask gives the exclusive
  lease to \<open>w\<close>, no started exclusive request that waited had reserved before it, whatever was
  cancelled in between.
\<close>

theorem exclusives_in_reservation_order:
  assumes "gate_run L es empty_system = Some s"
    and "g_activeExclusive (gs_gate s) = None"
    and "g_activeExclusive (run_microtask L (gs_gate s)) = Some w"
    and "v \<in> set (g_queued (gs_gate s))" "is_exclusive (gs_gate s) v" "w_started (g_waiter (gs_gate s) v)"
  shows "w \<le> v \<and> w \<in> set (g_queued (gs_gate s)) \<and> is_exclusive (gs_gate s) w"
proof -
  let ?g = "gs_gate s" and ?a = "gate_abs_of (gs_gate s)"
  have gi: "gate_inv ?g" by (rule system_inv_parts(1) [OF gate_run_inv [OF assms(1)]])
  have sched: "g_drainScheduled ?g" using assms(2,3) by (auto simp: run_microtask_def split: if_splits)
  have "a_active_exclusive (abs_drain L ?a) = Some w"
    using assms(3) unfolding run_microtask_abs [OF gi sched, of L, symmetric] by (simp add: gate_abs_of_def)
  moreover have "a_active_exclusive ?a = None" using assms(2) by (simp add: gate_abs_of_def)
  ultimately have w: "w = Min (a_exclusives ?a)"
    by (auto simp: abs_drain_def abs_admit_shared_def abs_admit_exclusive_def split: if_splits)
  have fin: "finite (a_exclusives ?a)" and v: "v \<in> a_exclusives ?a" using assms(4-6) by (simp_all add: gate_abs_of_def)
  then have "w \<in> a_exclusives ?a" using w Min_in by blast
  then show ?thesis using w Min_le [OF fin v] by (simp add: gate_abs_of_def)
qed

definition ex_two :: gate_system where
  "ex_two = the (gate_run ex_limits [Create_admission Exclusive, Create_admission Exclusive, Accept 0, Accept 1,
     Begin 1 None, Begin 0 None] empty_system)"

theorem exclusives_in_reservation_order_witness:
  "(1 :: nat) \<le> 2 \<and> g_activeExclusive (run_microtask ex_limits (gs_gate ex_two)) = Some 1"
proof -
  have "gate_run ex_limits [Create_admission Exclusive, Create_admission Exclusive, Accept 0, Accept 1,
     Begin 1 None, Begin 0 None] empty_system \<noteq> None" by code_simp
  then have r: "gate_run ex_limits [Create_admission Exclusive, Create_admission Exclusive, Accept 0, Accept 1,
     Begin 1 None, Begin 0 None] empty_system = Some ex_two" by (simp add: ex_two_def)
  have h: "g_activeExclusive (gs_gate ex_two) = None"
    "g_activeExclusive (run_microtask ex_limits (gs_gate ex_two)) = Some 1"
    "2 \<in> set (g_queued (gs_gate ex_two))" "is_exclusive (gs_gate ex_two) 2"
    "w_started (g_waiter (gs_gate ex_two) 2)" by code_simp+
  from exclusives_in_reservation_order [OF r h] h(2) show ?thesis by blast
qed

text \<open>
  C32. Bounded writer preference. While one shared request is started and waits, from any reachable
  state and over any continuation, at most \<open>maxConsecutiveExclusives\<close> exclusive leases are granted.
\<close>

theorem bounded_writer_preference:
  assumes "gate_run L es empty_system = Some s" "gate_run L fs s = Some t"
    and "w \<in> set (g_startedShared (gs_gate s))" "w \<in> set (g_startedShared (gs_gate t))"
  shows "exclusive_grants L fs s \<le> gl_maxConsecutiveExclusives L"
  using exclusive_grants_bound [OF gate_run_inv [OF assms(1)] assms(2-4)] by (simp add: max_def split: if_splits)

definition ex_wait :: gate_system where
  "ex_wait = the (gate_run ex_limits [Create_admission Exclusive, Create_admission Shared, Accept 0, Accept 1,
     Begin 1 None, Begin 0 None] empty_system)"

theorem bounded_writer_preference_witness:
  "exclusive_grants ex_limits [Microtask] ex_wait \<le> 1 \<and> exclusive_grants ex_limits [Microtask] ex_wait = 1"
proof -
  have "gate_run ex_limits [Create_admission Exclusive, Create_admission Shared, Accept 0, Accept 1,
     Begin 1 None, Begin 0 None] empty_system \<noteq> None" by code_simp
  then have r: "gate_run ex_limits [Create_admission Exclusive, Create_admission Shared, Accept 0, Accept 1,
     Begin 1 None, Begin 0 None] empty_system = Some ex_wait" by (simp add: ex_wait_def)
  define t where "t = gate_apply ex_limits Microtask ex_wait"
  have s: "gate_run ex_limits [Microtask] ex_wait = Some t" by (simp add: t_def)
  have h: "2 \<in> set (g_startedShared (gs_gate ex_wait))" by code_simp
  have h': "2 \<in> set (g_startedShared (gs_gate t))" unfolding t_def by code_simp
  have "exclusive_grants ex_limits [Microtask] ex_wait = 1" by code_simp
  with bounded_writer_preference [OF r s h h'] show ?thesis by (simp add: ex_limits_def)
qed

section \<open>Reservations\<close>

text \<open>
  C33. Exact bounded accounting. In every reachable state the queue depth (queued waiters and
  shared reservations not yet started) is within \<open>maxQueueSize\<close>, the two incremental counters equal
  the numbers of queued waiters of each kind, and the two reservation counters equal the numbers of
  tab admissions that hold a reservation.
\<close>

theorem counters_exact:
  assumes "gate_run L es empty_system = Some s"
  shows "queueDepth (gs_gate s) \<le> int (gl_maxQueueSize L) \<and>
     g_queuedExclusiveCount (gs_gate s) = int (card {w \<in> set (g_queued (gs_gate s)). is_exclusive (gs_gate s) w}) \<and>
     g_queuedSharedCount (gs_gate s) = int (card {w \<in> set (g_queued (gs_gate s)). \<not> is_exclusive (gs_gate s) w}) \<and>
     g_acceptedSharedReservations (gs_gate s) = int (length (filter accepted_shared (gs_admissions s))) \<and>
     g_pendingSharedReservations (gs_gate s) = int (length (filter pending_shared (gs_admissions s)))"
proof -
  have inv: "system_inv L s" by (rule gate_run_inv [OF assms])
  have Q: "queue_ok (gs_gate s)" by (rule gate_inv_parts(2) [OF system_inv_parts(1) [OF inv]])
  then have d: "distinct (g_queued (gs_gate s))" by (simp add: queue_ok_def)
  have "length (filter P (g_queued (gs_gate s))) = card {w \<in> set (g_queued (gs_gate s)). P w}" for P
    using distinct_card [OF distinct_filter [OF d], of P] by simp
  then show ?thesis
    using Q system_inv_parts(3,6) [OF inv] by (simp add: queue_ok_def reservations_ok_def)
qed

theorem counters_exact_witness:
  "queueDepth (gs_gate ex_gate) \<le> 3 \<and> g_queuedSharedCount (gs_gate ex_gate) = 1"
proof -
  have "g_queuedSharedCount (gs_gate ex_gate) = 1" by code_simp
  then show ?thesis using counters_exact [OF ex_gate_run] by (simp add: ex_limits_def)
qed

text \<open>
  C34. An accepted tab request always gets its place: when the actor of an accepted, not yet started
  shared admission begins, the conversion of its reservation into a waiter is never refused (not for
  a full queue nor as a second start), in any reachable state.
\<close>

theorem accepted_shared_begins:
  assumes "gate_run L es empty_system = Some s" "i < length (gs_admissions s)"
    and "pending_shared (gs_admissions s ! i)"
  shows "fst (onStarted L r (gs_admissions s ! i) (gs_gate s)) = None"
proof -
  let ?a = "gs_admissions s ! i"
  let ?g1 = "(gs_gate s)\<lparr>g_pendingSharedReservations := g_pendingSharedReservations (gs_gate s) - 1\<rparr>"
  have inv: "system_inv L s" by (rule gate_run_inv [OF assms(1)])
  have a: "ad_kind ?a = Shared" "ad_accepted ?a" "\<not> ad_started ?a"
    using assms(3) by (simp_all add: pending_shared_def accepted_shared_def)
  have "ad_waiter ?a = None"
    using system_inv_parts(4) [OF inv nth_mem [OF assms(2)]] a by (simp add: admission_ok_def)
  note cap = begin_shared_inv(2) [OF inv assms(2) refl a(1,2) this]
  have fresh: "\<not> w_settled (g_waiter (add_waiter Shared ?g1) (g_sequence ?g1 + 1))"
    "\<not> w_started (g_waiter (add_waiter Shared ?g1) (g_sequence ?g1 + 1))"
    by (simp_all add: add_waiter_fields new_waiter_def)
  show ?thesis
    using a \<open>ad_waiter ?a = None\<close> cap fresh
    by (simp add: onStarted_def Let_def reserve_unfold start_unfold case_prod_beta)
qed

definition ex_full :: gate_system where
  "ex_full = the (gate_run ex_limits [Create_admission Shared, Create_admission Exclusive, Create_admission Exclusive,
     Accept 0, Accept 1, Accept 2] empty_system)"

lemma ex_full_run: "gate_run ex_limits [Create_admission Shared, Create_admission Exclusive,
   Create_admission Exclusive, Accept 0, Accept 1, Accept 2] empty_system = Some ex_full"
proof -
  have "gate_run ex_limits [Create_admission Shared, Create_admission Exclusive, Create_admission Exclusive,
     Accept 0, Accept 1, Accept 2] empty_system \<noteq> None" by code_simp
  then show ?thesis by (simp add: ex_full_def)
qed

theorem accepted_shared_begins_witness:
  "fst (onStarted ex_limits None (gs_admissions ex_full ! 0) (gs_gate ex_full)) = None \<and>
   queueDepth (gs_gate ex_full) = int (gl_maxQueueSize ex_limits)"
proof -
  have "0 < length (gs_admissions ex_full)" "pending_shared (gs_admissions ex_full ! 0)"
    "queueDepth (gs_gate ex_full) = int (gl_maxQueueSize ex_limits)" by code_simp+
  with accepted_shared_begins [OF ex_full_run] show ?thesis by blast
qed

text \<open>An idle gate is unused: when \<open>isIdle\<close> answers true in a reachable state, no tab admission
  holds a reservation and no admission holds a request that could still be granted, so the
  coordinator may forget the gate and create another for the same browser.
\<close>

lemma idle_gate_unused:
  assumes "gate_run L es empty_system = Some s" "gate_isIdle (gs_gate s)"
  shows "\<forall>a \<in> set (gs_admissions s). \<not> accepted_shared a \<and>
     (\<forall>w. ad_waiter a = Some w \<longrightarrow> w_settled (g_waiter (gs_gate s) w))"
proof (intro ballI conjI allI impI)
  fix a assume a: "a \<in> set (gs_admissions s)"
  have inv: "system_inv L s" by (rule gate_run_inv [OF assms(1)])
  have "filter accepted_shared (gs_admissions s) = []"
    using system_inv_parts(6) [OF inv] assms(2) by (simp add: reservations_ok_def gate_isIdle_def)
  then show "\<not> accepted_shared a" using a by (simp add: filter_empty_conv)
  fix w assume "ad_waiter a = Some w"
  then have gw: "gate_waiter (gs_gate s) w" using system_inv_parts(4) [OF inv a] by (simp add: admission_ok_def)
  note gi = system_inv_parts(1) [OF inv]
  have "\<not> w_acquired (g_waiter (gs_gate s) w)"
  proof
    assume "w_acquired (g_waiter (gs_gate s) w)"
    then have "w \<in> set_option (g_activeExclusive (gs_gate s)) \<or> w \<in> set (g_activeShared (gs_gate s))"
      using gate_inv_parts(4) [OF gi] gw unfolding active_ok_def by blast
    then show False using assms(2) by (auto simp: gate_isIdle_def)
  qed
  then show "w_settled (g_waiter (gs_gate s) w)"
    using not_queued_flags [OF gi gw] assms(2) by (simp add: gate_isIdle_def)
qed

definition ex_idle :: gate_system where
  "ex_idle = the (gate_run ex_limits [Create_admission Shared, Accept 0, Begin 0 None, Microtask,
     Release_lease 1, Finish 0] empty_system)"

section \<open>Leases settle once\<close>

text \<open>
  C35. A lease promise settles once: once a waiter's lease is granted or refused, no later event of
  any kind (a late abort, a second release, a finished actor, a drain) changes the outcome, and the
  waiter never returns to the queue.
\<close>

theorem lease_settles_once:
  assumes "gate_run L es empty_system = Some s" "gate_run L fs s = Some t"
    and "gate_waiter (gs_gate s) w" "lease_settled (w_promise (g_waiter (gs_gate s) w))"
  shows "w_promise (g_waiter (gs_gate t) w) = w_promise (g_waiter (gs_gate s) w) \<and>
     w \<notin> set (g_queued (gs_gate t))"
proof -
  have inv: "system_inv L s" by (rule gate_run_inv [OF assms(1)])
  have l: "later (gs_gate s) (gs_gate t)" by (rule gate_run_later [OF assms(2) inv])
  have "w \<notin> set (g_queued (gs_gate s))"
    using queued_not_settled [OF system_inv_parts(1) [OF inv]] assms(4) by blast
  then show ?thesis using l assms(3,4) unfolding later_def by blast
qed

theorem lease_settles_once_witness:
  "w_promise (g_waiter (gs_gate ex_gate_next) 1) = Lease_granted \<and> 1 \<notin> set (g_queued (gs_gate ex_gate_next))"
proof -
  have h: "gate_waiter (gs_gate ex_gate) 1" "w_promise (g_waiter (gs_gate ex_gate) 1) = Lease_granted" by code_simp+
  then have "lease_settled (w_promise (g_waiter (gs_gate ex_gate) 1))" by (simp add: lease_settled_def)
  from lease_settles_once [OF ex_gate_run ex_gate_next_run h(1) this] h(2) show ?thesis by simp
qed

end
