(* ===== verification/Resource_Actor.thy ===== *)
theory Resource_Actor
  imports Gate_System
begin

text \<open>
  The resource actors of \<open>runtime/tab-coordinator.ts\<close> above one browser gate. Each actor runs one
  request at a time, chosen by age and priority; a request reserves its place at the gate when it is
  accepted, waits for its lease when it starts, runs its callback, and settles. Requests are objects:
  they live in a store and the actors refer to them by their index. Times are integers
  (milliseconds); a step reads the clock once.
\<close>

section \<open>State\<close>

datatype priority = Read | Mutation | Control

datatype request_outcome = Fulfilled | Rejected

record timing =
  tm_startedAt :: "int option"
  tm_admittedAt :: "int option"
  tm_settledAt :: "int option"
  tm_queueDelayMs :: "int option"
  tm_admissionDelayMs :: "int option"
  tm_executionMs :: "int option"
  tm_totalMs :: "int option"
  tm_queuedCancellation :: bool
  tm_queuedDeadlineExceeded :: bool
  tm_aborted :: bool
  tm_deadlineExceededInFlight :: bool
  tm_quarantinedUntilSettled :: bool
  tm_outcome :: "request_outcome option"

text \<open>The program point of the asynchronous \<open>execute\<close> of a request.\<close>

datatype stage = Not_started | Awaiting_lease | In_callback | Finished

record 'v pending =
  rq_actor :: nat
  rq_sequence :: nat
  rq_priority :: priority
  rq_enqueuedAt :: int
  rq_deadlineAt :: "int option"
  rq_started :: bool
  rq_settled :: bool
  rq_callerSettled :: bool
  rq_cancelled :: bool
  rq_inFlightError :: "coordinator_error option"
  rq_admission :: admission
  rq_signal :: "coordinator_error option"
  rq_listening :: bool
  rq_deadlineTimer :: bool
  rq_timing :: timing
  rq_stage :: stage
  rq_answers :: "(coordinator_error + 'v) list"

record actor =
  ac_kind :: waiter_kind
  ac_queue :: "nat list"
  ac_active :: "nat option"
  ac_sequence :: nat
  ac_drainScheduled :: bool
  ac_consecutive :: "priority \<Rightarrow> nat"
  ac_completedCount :: nat
  ac_rejectedCount :: nat
  ac_lastCompleted :: "nat option"
  ac_lastRejected :: "nat option"
  ac_quarantinedUntilSettled :: "nat option"

record actor_options =
  ao_maxQueueSize :: nat
  ao_maxConsecutiveReads :: nat
  ao_maxConsecutiveMutations :: nat
  ao_maxConsecutiveControls :: nat
  ao_maxWaitMs :: int
  ao_gate :: gate_limits

record 'v coordinator =
  co_gate :: browser_gate
  co_requests :: "'v pending list"
  co_actors :: "actor list"

definition empty_timing :: timing where
  "empty_timing = \<lparr>tm_startedAt = None, tm_admittedAt = None, tm_settledAt = None, tm_queueDelayMs = None,
     tm_admissionDelayMs = None, tm_executionMs = None, tm_totalMs = None, tm_queuedCancellation = False,
     tm_queuedDeadlineExceeded = False, tm_aborted = False, tm_deadlineExceededInFlight = False,
     tm_quarantinedUntilSettled = False, tm_outcome = None\<rparr>"

definition new_actor :: "waiter_kind \<Rightarrow> actor" where
  "new_actor k = \<lparr>ac_kind = k, ac_queue = [], ac_active = None, ac_sequence = 0, ac_drainScheduled = False,
     ac_consecutive = (\<lambda>_. 0), ac_completedCount = 0, ac_rejectedCount = 0, ac_lastCompleted = None,
     ac_lastRejected = None, ac_quarantinedUntilSettled = None\<rparr>"

definition upd_request :: "nat \<Rightarrow> ('v pending \<Rightarrow> 'v pending) \<Rightarrow> 'v coordinator \<Rightarrow> 'v coordinator" where
  "upd_request r f c = c\<lparr>co_requests := (co_requests c)[r := f (co_requests c ! r)]\<rparr>"

definition upd_actor :: "nat \<Rightarrow> (actor \<Rightarrow> actor) \<Rightarrow> 'v coordinator \<Rightarrow> 'v coordinator" where
  "upd_actor a f c = c\<lparr>co_actors := (co_actors c)[a := f (co_actors c ! a)]\<rparr>"

text \<open>
  A call of \<open>request.resolve\<close> or \<open>request.reject\<close>. Every call is recorded, in order; the promise
  of the caller takes the first and ignores the others, so the guards of the code on
  \<open>callerSettled\<close> show as the absence of a second call.
\<close>

definition settle_promise :: "coordinator_error + 'v \<Rightarrow> 'v pending \<Rightarrow> 'v pending" where
  "settle_promise x q = q\<lparr>rq_answers := rq_answers q @ [x]\<rparr>"

section \<open>The admission hooks of a request\<close>

definition admission_accept :: "actor_options \<Rightarrow> nat \<Rightarrow> 'v coordinator \<Rightarrow> coordinator_error option \<times> 'v coordinator" where
  "admission_accept P r c = (case onAccepted (ao_gate P) (rq_admission (co_requests c ! r)) (co_gate c) of
     (e, a, g) \<Rightarrow> (e, upd_request r (rq_admission_update (\<lambda>_. a)) (c\<lparr>co_gate := g\<rparr>)))"

definition admission_begin :: "actor_options \<Rightarrow> nat \<Rightarrow> 'v coordinator \<Rightarrow> coordinator_error option \<times> 'v coordinator" where
  "admission_begin P r c =
     (case onStarted (ao_gate P) (rq_signal (co_requests c ! r)) (rq_admission (co_requests c ! r)) (co_gate c) of
       (e, a, g) \<Rightarrow> (e, upd_request r (rq_admission_update (\<lambda>_. a)) (c\<lparr>co_gate := g\<rparr>)))"

definition admission_abandon :: "nat \<Rightarrow> 'v coordinator \<Rightarrow> 'v coordinator" where
  "admission_abandon r c = (case onAbandoned (rq_admission (co_requests c ! r)) (co_gate c) of
     (a, g) \<Rightarrow> upd_request r (rq_admission_update (\<lambda>_. a)) (c\<lparr>co_gate := g\<rparr>))"

definition admission_settle :: "nat \<Rightarrow> 'v coordinator \<Rightarrow> 'v coordinator" where
  "admission_settle r c = (case onSettled (rq_admission (co_requests c ! r)) (co_gate c) of
     (a, g) \<Rightarrow> upd_request r (rq_admission_update (\<lambda>_. a)) (c\<lparr>co_gate := g\<rparr>))"

text \<open>\<open>controller.abort(reason)\<close>: the first abort sets the reason and fires the gate's listener.\<close>

definition controller_abort :: "nat \<Rightarrow> coordinator_error \<Rightarrow> 'v coordinator \<Rightarrow> 'v coordinator" where
  "controller_abort r reason c = (let q = co_requests c ! r in
     if rq_signal q \<noteq> None then c
     else let c1 = upd_request r (rq_signal_update (\<lambda>_. Some reason)) c in
       case ad_waiter (rq_admission q) of None \<Rightarrow> c1
       | Some w \<Rightarrow> c1\<lparr>co_gate := onAbort w reason (co_gate c1)\<rparr>)"

section \<open>Queue operations\<close>

definition actor_scheduleDrain :: "nat \<Rightarrow> 'v coordinator \<Rightarrow> 'v coordinator" where
  "actor_scheduleDrain a c =
     (if ac_drainScheduled (co_actors c ! a) \<or> ac_active (co_actors c ! a) \<noteq> None then c
      else upd_actor a (ac_drainScheduled_update (\<lambda>_. True)) c)"

definition clearDeadline :: "nat \<Rightarrow> 'v coordinator \<Rightarrow> 'v coordinator" where
  "clearDeadline r = upd_request r (rq_deadlineTimer_update (\<lambda>_. False))"

definition detachAbortListener :: "nat \<Rightarrow> 'v coordinator \<Rightarrow> 'v coordinator" where
  "detachAbortListener r = upd_request r (rq_listening_update (\<lambda>_. False))"

definition actor_removeQueued :: "nat \<Rightarrow> nat \<Rightarrow> 'v coordinator \<Rightarrow> 'v coordinator" where
  "actor_removeQueued a r c = detachAbortListener r (clearDeadline r
     (upd_actor a (ac_queue_update (remove1 r)) c))"

definition reject_timing :: "int \<Rightarrow> 'v pending \<Rightarrow> 'v pending" where
  "reject_timing now q = q\<lparr>rq_timing := (rq_timing q)\<lparr>tm_outcome := Some Rejected, tm_settledAt := Some now,
     tm_totalMs := Some (now - rq_enqueuedAt q)\<rparr>\<rparr>"

definition count_rejected :: "nat \<Rightarrow> nat \<Rightarrow> 'v coordinator \<Rightarrow> 'v coordinator" where
  "count_rejected a r = upd_actor a (\<lambda>x. x\<lparr>ac_rejectedCount := ac_rejectedCount x + 1, ac_lastRejected := Some r\<rparr>)"

text \<open>The common body of \<open>handleAbort\<close> and \<open>handleDeadline\<close> for a request that has not started.\<close>

definition drop_queued :: "(timing \<Rightarrow> timing) \<Rightarrow> coordinator_error \<Rightarrow> nat \<Rightarrow> int \<Rightarrow> 'v coordinator \<Rightarrow> 'v coordinator" where
  "drop_queued mark e r now c = (let a = rq_actor (co_requests c ! r);
       c1 = upd_request r (\<lambda>q. q\<lparr>rq_cancelled := True, rq_timing := mark (rq_timing q)\<rparr>) c;
       c2 = admission_abandon r (actor_removeQueued a r c1);
       c3 = upd_request r (\<lambda>q. reject_timing now (q\<lparr>rq_settled := True, rq_callerSettled := True\<rparr>)) c2;
       c4 = upd_request r (settle_promise (Inl e)) (count_rejected a r c3)
     in actor_scheduleDrain a c4)"

text \<open>The common body for a request in flight: the caller is answered, the callback is told, and the
  actor stays busy until the callback settles.\<close>

definition quarantine :: "(timing \<Rightarrow> timing) \<Rightarrow> coordinator_error \<Rightarrow> coordinator_error \<Rightarrow> nat \<Rightarrow> 'v coordinator \<Rightarrow> 'v coordinator" where
  "quarantine mark e reason r c = (let a = rq_actor (co_requests c ! r);
       c1 = upd_request r (\<lambda>q. q\<lparr>rq_timing := (mark (rq_timing q))\<lparr>tm_quarantinedUntilSettled := True\<rparr>,
              rq_inFlightError := (case rq_inFlightError q of None \<Rightarrow> Some e | Some e' \<Rightarrow> Some e')\<rparr>) c;
       c2 = upd_actor a (ac_quarantinedUntilSettled_update (\<lambda>_. Some r)) c1;
       c3 = upd_request r (\<lambda>q. if rq_callerSettled q then q
              else settle_promise (Inl (the (rq_inFlightError q))) (q\<lparr>rq_callerSettled := True\<rparr>)) c2
     in controller_abort r reason c3)"

definition handleAbort :: "nat \<Rightarrow> coordinator_error option \<Rightarrow> int \<Rightarrow> 'v coordinator \<Rightarrow> 'v coordinator" where
  "handleAbort r reason now c = (let q = co_requests c ! r in
     if rq_settled q then c
     else if \<not> rq_started q then drop_queued (tm_queuedCancellation_update (\<lambda>_. True)) (Aborted Queued_phase) r now c
     else quarantine (tm_aborted_update (\<lambda>_. True)) (Aborted In_flight_phase)
       (case reason of None \<Rightarrow> Callback_error ''The caller aborted the coordinator request'' | Some e \<Rightarrow> e) r c)"

definition handleDeadline :: "nat \<Rightarrow> int \<Rightarrow> 'v coordinator \<Rightarrow> 'v coordinator" where
  "handleDeadline r now c = (let q = co_requests c ! r in
     if rq_settled q then c
     else if \<not> rq_started q then
       drop_queued (tm_queuedDeadlineExceeded_update (\<lambda>_. True)) (Deadline_exceeded Queued_phase) r now c
     else quarantine (tm_deadlineExceededInFlight_update (\<lambda>_. True)) (Deadline_exceeded In_flight_phase)
       (Deadline_exceeded In_flight_phase) r c)"

text \<open>The deadline timer: a tick before the deadline only arms the next one.\<close>

definition deadline_tick :: "nat \<Rightarrow> int \<Rightarrow> 'v coordinator \<Rightarrow> 'v coordinator" where
  "deadline_tick r now c = (let q = co_requests c ! r in
     if rq_settled q \<or> rq_cancelled q then c
     else case rq_deadlineAt q of None \<Rightarrow> c
       | Some d \<Rightarrow> if d - now \<le> 0 then handleDeadline r now c
                  else upd_request r (rq_deadlineTimer_update (\<lambda>_. True)) c)"

section \<open>Enqueue\<close>

text \<open>The request object as \<open>ProcessTabCoordinator.enqueue\<close> builds it.\<close>

definition new_request :: "nat \<Rightarrow> waiter_kind \<Rightarrow> priority \<Rightarrow> int option \<Rightarrow> int \<Rightarrow> 'v pending" where
  "new_request a k p deadline now = \<lparr>rq_actor = a, rq_sequence = 0, rq_priority = p, rq_enqueuedAt = now,
     rq_deadlineAt = deadline, rq_started = False, rq_settled = False, rq_callerSettled = False,
     rq_cancelled = False, rq_inFlightError = None, rq_admission = new_admission k, rq_signal = None,
     rq_listening = False, rq_deadlineTimer = False, rq_timing = empty_timing, rq_stage = Not_started,
     rq_answers = []\<rparr>"

definition enqueue_full :: "nat \<Rightarrow> nat \<Rightarrow> int \<Rightarrow> 'v coordinator \<Rightarrow> 'v coordinator" where
  "enqueue_full a r now c = upd_request r (\<lambda>q. settle_promise (Inl Queue_full)
     (reject_timing now (q\<lparr>rq_settled := True, rq_callerSettled := True\<rparr>))) (count_rejected a r c)"

definition enqueue_refused :: "nat \<Rightarrow> nat \<Rightarrow> coordinator_error \<Rightarrow> int \<Rightarrow> 'v coordinator \<Rightarrow> 'v coordinator" where
  "enqueue_refused a r e now c = (let c1 = detachAbortListener r (clearDeadline r c);
       c2 = upd_request r (\<lambda>q. reject_timing now (q\<lparr>rq_settled := True, rq_callerSettled := True\<rparr>)) c1;
       c3 = admission_abandon r c2
     in upd_request r (settle_promise (Inl e)) (count_rejected a r c3))"

text \<open>The signal the caller passes: none, a live one, or one that is aborted already.\<close>

datatype caller_signal = No_signal | Live_signal | Aborted_signal "coordinator_error option"

definition enqueue :: "actor_options \<Rightarrow> nat \<Rightarrow> priority \<Rightarrow> int option \<Rightarrow> caller_signal \<Rightarrow>
    int \<Rightarrow> 'v coordinator \<Rightarrow> 'v coordinator" where
  "enqueue P a p deadline signal now c = (let r = length (co_requests c);
       c0 = c\<lparr>co_requests := co_requests c @ [new_request a (ac_kind (co_actors c ! a)) p deadline now]\<rparr>
     in if length (ac_queue (co_actors c ! a)) \<ge> ao_maxQueueSize P then enqueue_full a r now c0
     else let c1 = upd_actor a (\<lambda>x. x\<lparr>ac_sequence := ac_sequence x + 1\<rparr>) c0;
              c2 = upd_request r (\<lambda>q. q\<lparr>rq_sequence := ac_sequence (co_actors c ! a) + 1,
                     rq_listening := (signal \<noteq> No_signal)\<rparr>) c1
     in case signal of
          Aborted_signal reason \<Rightarrow> handleAbort r reason now c2
        | _ \<Rightarrow>
          if (case deadline of None \<Rightarrow> False | Some d \<Rightarrow> d \<le> now) then handleDeadline r now c2
          else case admission_accept P r c2 of
              (Some e, c3) \<Rightarrow> enqueue_refused a r e now c3
            | (None, c3) \<Rightarrow> actor_scheduleDrain a
                (deadline_tick r now (upd_actor a (\<lambda>x. x\<lparr>ac_queue := ac_queue x @ [r]\<rparr>) c3)))"

section \<open>Selection\<close>

definition expired :: "int \<Rightarrow> 'v pending \<Rightarrow> bool" where
  "expired now q \<longleftrightarrow> (case rq_deadlineAt q of None \<Rightarrow> False | Some d \<Rightarrow> d \<le> now)"

definition removeExpiredQueued :: "nat \<Rightarrow> int \<Rightarrow> 'v coordinator \<Rightarrow> 'v coordinator" where
  "removeExpiredQueued a now c =
     fold (\<lambda>r c. if expired now (co_requests c ! r) then handleDeadline r now c else c)
       (ac_queue (co_actors c ! a)) c"

fun first_by_sequence :: "'v pending list \<Rightarrow> nat list \<Rightarrow> nat option" where
  "first_by_sequence rqs [] = None"
| "first_by_sequence rqs (r # rs) = (case first_by_sequence rqs rs of
     None \<Rightarrow> Some r
   | Some s \<Rightarrow> if rq_sequence (rqs ! r) \<le> rq_sequence (rqs ! s) then Some r else Some s)"

definition of_priority :: "'v pending list \<Rightarrow> priority \<Rightarrow> nat list \<Rightarrow> nat list" where
  "of_priority rqs p queue = filter (\<lambda>r. rq_priority (rqs ! r) = p) queue"

text \<open>The choice of \<open>selectNext\<close> on a queue without expired requests.\<close>

definition select_index :: "actor_options \<Rightarrow> (priority \<Rightarrow> nat) \<Rightarrow> int \<Rightarrow> 'v pending list \<Rightarrow> nat list \<Rightarrow> nat option" where
  "select_index P consecutive now rqs queue =
     (if queue = [] then None
      else case first_by_sequence rqs (filter (\<lambda>r. now - rq_enqueuedAt (rqs ! r) \<ge> ao_maxWaitMs P) queue) of
        Some aged \<Rightarrow> Some aged
      | None \<Rightarrow>
        let controls = of_priority rqs Control queue; mutations = of_priority rqs Mutation queue;
            reads = of_priority rqs Read queue in
        if controls \<noteq> [] \<and> (mutations = [] \<or> consecutive Control < ao_maxConsecutiveControls P)
        then Some (hd controls)
        else if mutations \<noteq> [] \<and> (reads = [] \<or>
               consecutive Read \<ge> ao_maxConsecutiveReads P \<and> consecutive Mutation < ao_maxConsecutiveMutations P)
        then Some (hd mutations)
        else if reads \<noteq> [] then Some (hd reads)
        else if mutations \<noteq> [] then Some (hd mutations)
        else if controls \<noteq> [] then Some (hd controls) else None)"

definition recordSelection :: "priority \<Rightarrow> (priority \<Rightarrow> nat) \<Rightarrow> priority \<Rightarrow> nat" where
  "recordSelection p consecutive = (\<lambda>q. if q = p then consecutive q + 1 else 0)"

definition selectNext :: "actor_options \<Rightarrow> nat \<Rightarrow> int \<Rightarrow> 'v coordinator \<Rightarrow> nat option \<times> 'v coordinator" where
  "selectNext P a now c = (let c1 = removeExpiredQueued a now c; x = co_actors c1 ! a in
     case select_index P (ac_consecutive x) now (co_requests c1) (ac_queue x) of
       None \<Rightarrow> (None, c1)
     | Some r \<Rightarrow> (Some r, upd_actor a (\<lambda>x. x\<lparr>ac_queue := remove1 r (ac_queue x),
         ac_consecutive := recordSelection (rq_priority (co_requests c1 ! r)) (ac_consecutive x)\<rparr>) c1))"

section \<open>Drain and execute\<close>

text \<open>The loop of \<open>drain\<close> over cancelled requests; \<open>n\<close> bounds it by the length of the queue.\<close>

fun select_live :: "actor_options \<Rightarrow> nat \<Rightarrow> int \<Rightarrow> nat \<Rightarrow> 'v coordinator \<Rightarrow> nat option \<times> 'v coordinator" where
  "select_live P a now 0 c = selectNext P a now c"
| "select_live P a now (Suc n) c = (case selectNext P a now c of
     (None, c1) \<Rightarrow> (None, c1)
   | (Some r, c1) \<Rightarrow> if rq_cancelled (co_requests c1 ! r) then select_live P a now n c1 else (Some r, c1))"

definition begin_request :: "nat \<Rightarrow> nat \<Rightarrow> int \<Rightarrow> 'v coordinator \<Rightarrow> 'v coordinator" where
  "begin_request a r now c = upd_actor a (ac_active_update (\<lambda>_. Some r))
     (upd_request r (\<lambda>q. q\<lparr>rq_started := True, rq_timing := (rq_timing q)\<lparr>tm_startedAt := Some now,
        tm_queueDelayMs := Some (now - rq_enqueuedAt q)\<rparr>\<rparr>) c)"

text \<open>The \<open>finally\<close> block of \<open>execute\<close>; \<open>lease\<close> is the lease it holds, if admission succeeded.\<close>

definition finish_timing :: "int \<Rightarrow> 'v pending \<Rightarrow> 'v pending" where
  "finish_timing now q = (let t = rq_timing q in q\<lparr>rq_timing := t\<lparr>tm_settledAt := Some now,
     tm_executionMs := Some (now - (case tm_admittedAt t of Some x \<Rightarrow> x
        | None \<Rightarrow> (case tm_startedAt t of Some x \<Rightarrow> x | None \<Rightarrow> now))),
     tm_totalMs := Some (now - rq_enqueuedAt q)\<rparr>\<rparr>)"

definition execute_finally :: "nat option \<Rightarrow> nat \<Rightarrow> int \<Rightarrow> 'v coordinator \<Rightarrow> 'v coordinator" where
  "execute_finally lease r now c = (let a = rq_actor (co_requests c ! r);
       c1 = (case lease of None \<Rightarrow> c | Some w \<Rightarrow> c\<lparr>co_gate := release w (co_gate c)\<rparr>);
       c2 = admission_settle r c1;
       c3 = upd_request r (\<lambda>q. finish_timing now (q\<lparr>rq_settled := True, rq_stage := Finished\<rparr>))
              (detachAbortListener r (clearDeadline r c2));
       c4 = (if tm_outcome (rq_timing (co_requests c3 ! r)) = Some Fulfilled
             then upd_actor a (\<lambda>x. x\<lparr>ac_completedCount := ac_completedCount x + 1, ac_lastCompleted := Some r\<rparr>) c3
             else count_rejected a r c3);
       c5 = upd_actor a (\<lambda>x. x\<lparr>ac_active := None, ac_quarantinedUntilSettled :=
              (if ac_quarantinedUntilSettled x = Some r then None else ac_quarantinedUntilSettled x)\<rparr>) c4
     in actor_scheduleDrain a c5)"

definition execute_catch :: "coordinator_error \<Rightarrow> nat \<Rightarrow> 'v coordinator \<Rightarrow> 'v coordinator" where
  "execute_catch e r = upd_request r (\<lambda>q. let q' = (if rq_callerSettled q then q
       else settle_promise (Inl (case rq_inFlightError q of None \<Rightarrow> e | Some e' \<Rightarrow> e')) (q\<lparr>rq_callerSettled := True\<rparr>))
     in q'\<lparr>rq_timing := (rq_timing q')\<lparr>tm_outcome := Some Rejected\<rparr>\<rparr>)"

definition execute_resolve :: "'v \<Rightarrow> nat \<Rightarrow> 'v coordinator \<Rightarrow> 'v coordinator" where
  "execute_resolve v r = upd_request r (\<lambda>q. let q' = (if rq_callerSettled q then q
       else settle_promise (Inr v) (q\<lparr>rq_callerSettled := True\<rparr>))
     in q'\<lparr>rq_timing := (rq_timing q')\<lparr>tm_outcome := Some Fulfilled\<rparr>\<rparr>)"

text \<open>
  \<open>drain\<close> and the part of \<open>execute\<close> before its first suspension. An exception of \<open>onStarted\<close> is
  caught in the same stretch, before any other event.
\<close>

definition begin_outcome :: "coordinator_error option \<Rightarrow> nat \<Rightarrow> int \<Rightarrow> 'v coordinator \<Rightarrow> 'v coordinator" where
  "begin_outcome e r now c = (case e of None \<Rightarrow> c | Some x \<Rightarrow> execute_finally None r now (execute_catch x r c))"

definition actor_drain :: "actor_options \<Rightarrow> nat \<Rightarrow> int \<Rightarrow> 'v coordinator \<Rightarrow> 'v coordinator" where
  "actor_drain P a now c =
     (if ac_active (co_actors c ! a) \<noteq> None then c
      else case select_live P a now (length (ac_queue (co_actors c ! a))) c of
        (None, c1) \<Rightarrow> c1
      | (Some r, c1) \<Rightarrow> (case admission_begin P r (begin_request a r now c1) of
          (e, c2) \<Rightarrow> begin_outcome e r now (upd_request r (rq_stage_update (\<lambda>_. Awaiting_lease)) c2)))"

definition actor_microtask :: "actor_options \<Rightarrow> nat \<Rightarrow> int \<Rightarrow> 'v coordinator \<Rightarrow> 'v coordinator" where
  "actor_microtask P a now c =
     (if ac_drainScheduled (co_actors c ! a)
      then actor_drain P a now (upd_actor a (ac_drainScheduled_update (\<lambda>_. False)) c) else c)"

text \<open>\<open>execute\<close> resumes when its admission promise settles.\<close>

definition lease_of :: "nat \<Rightarrow> 'v coordinator \<Rightarrow> nat option" where
  "lease_of r c = ad_waiter (rq_admission (co_requests c ! r))"

definition admission_result :: "nat \<Rightarrow> 'v coordinator \<Rightarrow> (coordinator_error + nat) option" where
  "admission_result r c = (case rq_stage (co_requests c ! r) of
     Awaiting_lease \<Rightarrow> (case lease_of r c of None \<Rightarrow> None
       | Some w \<Rightarrow> (case w_promise (g_waiter (co_gate c) w) of
           Lease_granted \<Rightarrow> Some (Inr w) | Lease_rejected e \<Rightarrow> Some (Inl e) | _ \<Rightarrow> None))
   | _ \<Rightarrow> None)"

definition resume_admission :: "nat \<Rightarrow> int \<Rightarrow> 'v coordinator \<Rightarrow> 'v coordinator" where
  "resume_admission r now c = (case admission_result r c of
     None \<Rightarrow> c
   | Some (Inl e) \<Rightarrow> execute_finally None r now (execute_catch e r c)
   | Some (Inr w) \<Rightarrow> upd_request r (\<lambda>q. let t = rq_timing q in q\<lparr>rq_stage := In_callback,
       rq_timing := t\<lparr>tm_admittedAt := Some now, tm_admissionDelayMs := Some (now -
         (case tm_startedAt t of Some x \<Rightarrow> x | None \<Rightarrow> now))\<rparr>\<rparr>) c)"

text \<open>\<open>execute\<close> resumes when the callback settles, with an error or a value.\<close>

definition resume_callback :: "nat \<Rightarrow> coordinator_error + 'v \<Rightarrow> int \<Rightarrow> 'v coordinator \<Rightarrow> 'v coordinator" where
  "resume_callback r result now c = (let q = co_requests c ! r in
     if rq_stage q \<noteq> In_callback then c
     else let c1 = (case (result, rq_inFlightError q) of
            (Inl e, _) \<Rightarrow> execute_catch e r c
          | (Inr v, Some e) \<Rightarrow> execute_catch e r c
          | (Inr v, None) \<Rightarrow> execute_resolve v r c)
       in execute_finally (lease_of r c) r now c1)"

section \<open>Diagnostics\<close>

definition actor_isIdle :: "actor \<Rightarrow> bool" where
  "actor_isIdle x \<longleftrightarrow> ac_active x = None \<and> ac_queue x = [] \<and> ac_quarantinedUntilSettled x = None"

record actor_snapshot =
  as_queueDepth :: nat
  as_active :: bool
  as_activeRequest :: "nat option"
  as_completedCount :: nat
  as_rejectedCount :: nat
  as_lastCompleted :: "nat option"
  as_lastRejected :: "nat option"
  as_quarantinedUntilSettled :: "nat option"

definition actor_snapshot_of :: "actor \<Rightarrow> actor_snapshot" where
  "actor_snapshot_of x = \<lparr>as_queueDepth = length (ac_queue x), as_active = (ac_active x \<noteq> None),
     as_activeRequest = ac_active x, as_completedCount = ac_completedCount x,
     as_rejectedCount = ac_rejectedCount x, as_lastCompleted = ac_lastCompleted x,
     as_lastRejected = ac_lastRejected x, as_quarantinedUntilSettled = ac_quarantinedUntilSettled x\<rparr>"

end
