(* ===== verification/Actor_System.thy ===== *)
theory Actor_System
  imports Resource_Actor Gate_History
begin

text \<open>
  The coordinator of one browser as an event system: callers enqueue and abort requests, timers
  fire, microtasks run, admissions and callbacks settle, in any order. The invariant says where a
  request is, what its promise and its place at the gate are, and what each actor holds.
\<close>

section \<open>Events\<close>

datatype 'v co_event =
    Enqueue nat priority "int option" caller_signal int
  | Caller_abort nat "coordinator_error option" int
  | Deadline_timer nat int
  | Actor_turn nat int
  | Gate_turn
  | Admission_settles nat int
  | Callback_settles nat "coordinator_error + 'v" int

fun co_enabled :: "'v co_event \<Rightarrow> 'v coordinator \<Rightarrow> bool" where
  "co_enabled (Enqueue a p d s now) c = (a < length (co_actors c))"
| "co_enabled (Caller_abort r e now) c = (r < length (co_requests c) \<and> rq_listening (co_requests c ! r))"
| "co_enabled (Deadline_timer r now) c = (r < length (co_requests c) \<and> rq_deadlineTimer (co_requests c ! r))"
| "co_enabled (Actor_turn a now) c = (a < length (co_actors c))"
| "co_enabled Gate_turn c = True"
| "co_enabled (Admission_settles r now) c = (r < length (co_requests c))"
| "co_enabled (Callback_settles r v now) c = (r < length (co_requests c))"

fun co_apply :: "actor_options \<Rightarrow> 'v co_event \<Rightarrow> 'v coordinator \<Rightarrow> 'v coordinator" where
  "co_apply P (Enqueue a p d s now) c = enqueue P a p d s now c"
| "co_apply P (Caller_abort r e now) c = handleAbort r e now c"
| "co_apply P (Deadline_timer r now) c = deadline_tick r now c"
| "co_apply P (Actor_turn a now) c = actor_microtask P a now c"
| "co_apply P Gate_turn c = c\<lparr>co_gate := run_microtask (ao_gate P) (co_gate c)\<rparr>"
| "co_apply P (Admission_settles r now) c = resume_admission r now c"
| "co_apply P (Callback_settles r v now) c = resume_callback r v now c"

abbreviation co_run :: "actor_options \<Rightarrow> 'v co_event list \<Rightarrow> 'v coordinator \<Rightarrow> 'v coordinator option" where
  "co_run P \<equiv> run co_enabled (co_apply P)"

text \<open>One browser actor and \<open>n\<close> tab actors.\<close>

definition new_coordinator :: "nat \<Rightarrow> 'v coordinator" where
  "new_coordinator n = \<lparr>co_gate = new_gate, co_requests = [],
     co_actors = new_actor Exclusive # replicate n (new_actor Shared)\<rparr>"

section \<open>Invariant\<close>

definition gate_view :: "'v coordinator \<Rightarrow> gate_system" where
  "gate_view c = \<lparr>gs_gate = co_gate c, gs_admissions = map rq_admission (co_requests c)\<rparr>"

text \<open>A request by itself.\<close>

definition request_ok :: "'v pending \<Rightarrow> bool" where
  "request_ok q \<longleftrightarrow> (rq_stage q = Not_started \<longleftrightarrow> \<not> rq_started q) \<and>
     (rq_stage q = Finished \<longleftrightarrow> rq_started q \<and> rq_settled q) \<and>
     length (rq_answers q) = (if rq_callerSettled q then 1 else 0) \<and>
     (rq_settled q \<longrightarrow> rq_callerSettled q) \<and> (rq_cancelled q \<longrightarrow> rq_settled q) \<and>
     (\<not> rq_started q \<longrightarrow> rq_callerSettled q \<longrightarrow> rq_settled q) \<and>
     (rq_inFlightError q \<noteq> None \<longrightarrow> rq_started q \<and> rq_callerSettled q) \<and>
     (rq_settled q \<longrightarrow> ad_waiter (rq_admission q) = None \<and> \<not> accepted_shared (rq_admission q))"

text \<open>Its place at the gate.\<close>

definition place_ok :: "browser_gate \<Rightarrow> 'v pending \<Rightarrow> bool" where
  "place_ok g q \<longleftrightarrow>
     (\<not> rq_started q \<longrightarrow> (\<forall>w. ad_waiter (rq_admission q) = Some w \<longrightarrow> \<not> w_started (g_waiter g w))) \<and>
     (rq_stage q = In_callback \<longrightarrow> (\<exists>w. ad_waiter (rq_admission q) = Some w \<and>
        w_acquired (g_waiter g w) \<and> w_promise (g_waiter g w) = Lease_granted)) \<and>
     (\<forall>w. ad_waiter (rq_admission q) = Some w \<longrightarrow> w_promise (g_waiter g w) = Lease_granted \<longrightarrow>
        w_acquired (g_waiter g w))"

definition actor_ok :: "actor_options \<Rightarrow> actor \<Rightarrow> bool" where
  "actor_ok P x \<longleftrightarrow> distinct (ac_queue x) \<and> length (ac_queue x) \<le> ao_maxQueueSize P \<and>
     (\<forall>r. ac_quarantinedUntilSettled x = Some r \<longrightarrow> ac_active x = Some r)"

text \<open>An actor with waiting requests and nothing to do has a microtask coming.\<close>

definition actor_awake :: "actor \<Rightarrow> bool" where
  "actor_awake x \<longleftrightarrow> (ac_queue x \<noteq> [] \<and> ac_active x = None \<longrightarrow> ac_drainScheduled x)"

text \<open>Where a request is: in the queue of its actor, active there, or settled.\<close>

definition located :: "actor list \<Rightarrow> nat \<Rightarrow> 'v pending \<Rightarrow> bool" where
  "located acs r q \<longleftrightarrow> rq_actor q < length acs \<and>
     ad_kind (rq_admission q) = ac_kind (acs ! rq_actor q) \<and>
     (r \<in> set (ac_queue (acs ! rq_actor q)) \<longleftrightarrow> \<not> rq_started q \<and> \<not> rq_settled q) \<and>
     (ac_active (acs ! rq_actor q) = Some r \<longleftrightarrow> rq_started q \<and> \<not> rq_settled q)"

definition refs_ok :: "'v pending list \<Rightarrow> nat \<Rightarrow> actor \<Rightarrow> bool" where
  "refs_ok rqs a x \<longleftrightarrow>
     (\<forall>r. r \<in> set (ac_queue x) \<or> ac_active x = Some r \<longrightarrow> r < length rqs \<and> rq_actor (rqs ! r) = a) \<and>
     ac_completedCount x + ac_rejectedCount x = length (filter (\<lambda>q. rq_actor q = a \<and> rq_settled q) rqs)"

definition coordinator_inv :: "actor_options \<Rightarrow> 'v coordinator \<Rightarrow> bool" where
  "coordinator_inv P c \<longleftrightarrow> system_inv (ao_gate P) (gate_view c) \<and>
     (\<forall>r < length (co_requests c). request_ok (co_requests c ! r) \<and> place_ok (co_gate c) (co_requests c ! r) \<and>
        located (co_actors c) r (co_requests c ! r)) \<and>
     (\<forall>a < length (co_actors c). actor_ok P (co_actors c ! a) \<and> refs_ok (co_requests c) a (co_actors c ! a))"

lemma coordinator_inv_parts:
  assumes "coordinator_inv P c"
  shows "system_inv (ao_gate P) (gate_view c)"
    "r < length (co_requests c) \<Longrightarrow> request_ok (co_requests c ! r)"
    "r < length (co_requests c) \<Longrightarrow> place_ok (co_gate c) (co_requests c ! r)"
    "r < length (co_requests c) \<Longrightarrow> located (co_actors c) r (co_requests c ! r)"
    "a < length (co_actors c) \<Longrightarrow> actor_ok P (co_actors c ! a)"
    "a < length (co_actors c) \<Longrightarrow> refs_ok (co_requests c) a (co_actors c ! a)"
  using assms by (simp_all add: coordinator_inv_def)

lemma new_coordinator_inv: "coordinator_inv P (new_coordinator n)"
proof -
  have v: "gate_view (new_coordinator n :: 'v coordinator) = empty_system"
    by (simp add: gate_view_def new_coordinator_def empty_system_def)
  have "(new_actor Exclusive # replicate n (new_actor Shared)) ! a \<in> {new_actor Exclusive, new_actor Shared}"
    if "a < Suc n" for a using that by (cases a) simp_all
  then show ?thesis
    unfolding coordinator_inv_def v using system_inv_empty
    by (fastforce simp: new_coordinator_def actor_ok_def refs_ok_def new_actor_def)
qed

section \<open>Updating one request and its actor\<close>

lemma filter_length_update_nat:
  assumes "r < length rqs"
  shows "length (filter F (rqs[r := q'])) + (if F (rqs ! r) then 1 else 0) =
    length (filter F rqs) + (if F q' then 1 else 0)"
proof -
  have "int (length (filter F (rqs[r := q']))) =
      int (length (filter F rqs)) - (if F (rqs ! r) then 1 else 0) + (if F q' then 1 else 0)"
    using length_filter_update [OF assms, of F q'] by simp
  then show ?thesis by (simp split: if_splits)
qed

text \<open>What may change locally when the request \<open>r\<close> of the actor \<open>a\<close> makes a step.\<close>

definition actor_step :: "actor_options \<Rightarrow> nat \<Rightarrow> 'v pending \<Rightarrow> 'v pending \<Rightarrow> actor \<Rightarrow> actor \<Rightarrow> bool" where
  "actor_step P r q q' x x' \<longleftrightarrow> ac_kind x' = ac_kind x \<and> rq_actor q' = rq_actor q \<and>
     ad_kind (rq_admission q') = ad_kind (rq_admission q) \<and> actor_ok P x' \<and>
     set (ac_queue x') - {r} = set (ac_queue x) - {r} \<and>
     (r \<in> set (ac_queue x') \<longleftrightarrow> \<not> rq_started q' \<and> \<not> rq_settled q') \<and>
     (\<forall>s. s \<noteq> r \<longrightarrow> (ac_active x' = Some s \<longleftrightarrow> ac_active x = Some s)) \<and>
     (ac_active x' = Some r \<longleftrightarrow> rq_started q' \<and> \<not> rq_settled q') \<and>
     (rq_settled q \<longrightarrow> rq_settled q') \<and>
     ac_completedCount x' + ac_rejectedCount x' =
       ac_completedCount x + ac_rejectedCount x + (if rq_settled q' \<and> \<not> rq_settled q then 1 else 0)"

lemma coordinator_inv_update:
  assumes inv: "coordinator_inv P c" and r: "r < length (co_requests c)"
    and q: "q = co_requests c ! r" and a: "a = rq_actor q" and x: "x = co_actors c ! a"
    and c': "co_requests c' = (co_requests c)[r := q']" "co_actors c' = (co_actors c)[a := x']"
    and gate: "system_inv (ao_gate P) (gate_view c')"
    and others: "\<And>s. s < length (co_requests c) \<Longrightarrow> s \<noteq> r \<Longrightarrow> place_ok (co_gate c') (co_requests c ! s)"
    and mine: "request_ok q'" "place_ok (co_gate c') q'" and step: "actor_step P r q q' x x'"
  shows "coordinator_inv P c'"
proof -
  have al: "a < length (co_actors c)" and lq: "located (co_actors c) r q"
    using coordinator_inv_parts(4) [OF inv r] q a by (simp_all add: located_def)
  note st = step [unfolded actor_step_def]
  have loc: "located (co_actors c') s (co_requests c' ! s)" if s: "s < length (co_requests c)" for s
  proof (cases "s = r")
    case True
    with st r al a lq x show ?thesis by (simp add: located_def c')
  next
    case False
    have l: "located (co_actors c) s (co_requests c ! s)" by (rule coordinator_inv_parts(4) [OF inv s])
    show ?thesis
    proof (cases "rq_actor (co_requests c ! s) = a")
      case True
      have "s \<in> set (ac_queue x') \<longleftrightarrow> s \<in> set (ac_queue x)" using st False by blast
      with True False l st al x show ?thesis by (simp add: located_def c')
    next
      case ne: False
      with l False show ?thesis by (simp add: located_def c')
    qed
  qed
  have ref: "refs_ok (co_requests c') b (co_actors c' ! b)" if b: "b < length (co_actors c)" for b
  proof -
    have R: "refs_ok (co_requests c) b (co_actors c ! b)" by (rule coordinator_inv_parts(6) [OF inv b])
    have act: "rq_actor (co_requests c' ! s) = rq_actor (co_requests c ! s)" for s
      using st q r by (cases "s = r") (simp_all add: c')
    let ?F = "\<lambda>q. rq_actor q = b \<and> rq_settled q"
    have n: "length (filter ?F (co_requests c')) + (if ?F q then 1 else 0) =
        length (filter ?F (co_requests c)) + (if ?F q' then 1 else 0)"
      unfolding c'(1) q by (rule filter_length_update_nat [OF r])
    show ?thesis
    proof (cases "b = a")
      case True
      have sub: "s < length (co_requests c) \<and> rq_actor (co_requests c ! s) = a"
        if h: "s \<in> set (ac_queue x') \<or> ac_active x' = Some s" for s
      proof (cases "s = r")
        case True
        with r q a show ?thesis by simp
      next
        case False
        then have "s \<in> set (ac_queue x) \<or> ac_active x = Some s" using h st by blast
        then show ?thesis using R True x unfolding refs_ok_def by blast
      qed
      have cnt: "ac_completedCount x + ac_rejectedCount x = length (filter ?F (co_requests c))"
        using R True x unfolding refs_ok_def by blast
      have "ac_completedCount x' + ac_rejectedCount x' =
          ac_completedCount x + ac_rejectedCount x + (if rq_settled q' \<and> \<not> rq_settled q then 1 else 0)"
        "rq_actor q = b" "rq_actor q' = b" "rq_settled q \<longrightarrow> rq_settled q'" using st a True by auto
      with cnt n have "ac_completedCount x' + ac_rejectedCount x' = length (filter ?F (co_requests c'))"
        by (cases "rq_settled q"; cases "rq_settled q'") simp_all
      with sub True al act show ?thesis by (simp add: refs_ok_def c')
    next
      case False
      have "length (filter ?F (co_requests c')) = length (filter ?F (co_requests c))"
        using n st a False by simp
      with R False act show ?thesis by (simp add: refs_ok_def c')
    qed
  qed
  have "request_ok (co_requests c' ! s) \<and> place_ok (co_gate c') (co_requests c' ! s)" if "s < length (co_requests c)" for s
    using that others mine coordinator_inv_parts(2) [OF inv that] r by (cases "s = r") (simp_all add: c')
  moreover have "actor_ok P (co_actors c' ! b)" if "b < length (co_actors c)" for b
    using that st coordinator_inv_parts(5) [OF inv that] al by (cases "b = a") (simp_all add: c')
  ultimately show ?thesis
    using loc ref gate by (simp add: coordinator_inv_def c')
qed

end
