(* ===== verification/Actor_Steps.thy ===== *)
theory Actor_Steps
  imports Actor_System
begin

text \<open>
  Each operation of the resource actor in normal form (one request and its actor updated, one
  event of the gate), and the proof that it keeps the coordinator's invariant.
\<close>

section \<open>Reading updates\<close>

named_theorems co_simps "projections of the coordinator after an update"

lemma upd_request_simps [co_simps, simp]:
  "co_gate (upd_request r f c) = co_gate c"
  "co_requests (upd_request r f c) = (co_requests c)[r := f (co_requests c ! r)]"
  "co_actors (upd_request r f c) = co_actors c"
  by (simp_all add: upd_request_def)

lemma upd_actor_simps [co_simps, simp]:
  "co_gate (upd_actor a f c) = co_gate c"
  "co_requests (upd_actor a f c) = co_requests c"
  "co_actors (upd_actor a f c) = (co_actors c)[a := f (co_actors c ! a)]"
  by (simp_all add: upd_actor_def)

definition sched :: "actor \<Rightarrow> actor" where
  "sched x = (if ac_drainScheduled x \<or> ac_active x \<noteq> None then x else x\<lparr>ac_drainScheduled := True\<rparr>)"

lemma sched_simps [simp]:
  "ac_kind (sched x) = ac_kind x" "ac_queue (sched x) = ac_queue x" "ac_active (sched x) = ac_active x"
  "ac_completedCount (sched x) = ac_completedCount x" "ac_rejectedCount (sched x) = ac_rejectedCount x"
  "ac_quarantinedUntilSettled (sched x) = ac_quarantinedUntilSettled x" "ac_sequence (sched x) = ac_sequence x"
  "ac_active x = None \<longrightarrow> ac_drainScheduled (sched x)"
  by (simp_all add: sched_def)

lemma scheduleDrain_simps [co_simps, simp]:
  "co_gate (actor_scheduleDrain a c) = co_gate c"
  "co_requests (actor_scheduleDrain a c) = co_requests c"
  "co_actors (actor_scheduleDrain a c) = (co_actors c)[a := sched (co_actors c ! a)]"
  by (simp_all add: actor_scheduleDrain_def sched_def)

lemma admission_hooks [co_simps]:
  "co_gate (admission_abandon r c) = snd (onAbandoned (rq_admission (co_requests c ! r)) (co_gate c))"
  "co_requests (admission_abandon r c) = (co_requests c)[r := rq_admission_update (\<lambda>_.
     fst (onAbandoned (rq_admission (co_requests c ! r)) (co_gate c))) (co_requests c ! r)]"
  "co_actors (admission_abandon r c) = co_actors c"
  "co_gate (admission_settle r c) = snd (onSettled (rq_admission (co_requests c ! r)) (co_gate c))"
  "co_requests (admission_settle r c) = (co_requests c)[r := rq_admission_update (\<lambda>_.
     fst (onSettled (rq_admission (co_requests c ! r)) (co_gate c))) (co_requests c ! r)]"
  "co_actors (admission_settle r c) = co_actors c"
  by (simp_all add: admission_abandon_def admission_settle_def case_prod_beta)

lemma gate_view_simps [simp]:
  "gs_gate (gate_view c) = co_gate c"
  "gs_admissions (gate_view c) = map rq_admission (co_requests c)"
  by (simp_all add: gate_view_def)

section \<open>The other requests\<close>

lemma place_ok_frame:
  assumes "place_ok g q" "\<And>w. ad_waiter (rq_admission q) = Some w \<Longrightarrow> g_waiter g' w = g_waiter g w"
  shows "place_ok g' q"
  using assms unfolding place_ok_def by auto

lemma owned_waiter:
  assumes "coordinator_inv P c" "r < length (co_requests c)" "ad_waiter (rq_admission (co_requests c ! r)) = Some w"
  shows "gate_waiter (co_gate c) w" "w_kind (g_waiter (co_gate c) w) = ad_kind (rq_admission (co_requests c ! r))"
    "s < length (co_requests c) \<Longrightarrow> ad_waiter (rq_admission (co_requests c ! s)) = Some w \<Longrightarrow> s = r"
proof -
  note S = coordinator_inv_parts(1) [OF assms(1)]
  have "rq_admission (co_requests c ! r) \<in> set (gs_admissions (gate_view c))" using assms(2) by simp
  from system_inv_parts(4) [OF S this] assms(3)
  show "gate_waiter (co_gate c) w" "w_kind (g_waiter (co_gate c) w) = ad_kind (rq_admission (co_requests c ! r))"
    by (simp_all add: admission_ok_def)
  assume "s < length (co_requests c)" "ad_waiter (rq_admission (co_requests c ! s)) = Some w"
  then show "s = r" using system_inv_parts(5) [OF S] assms(2,3) unfolding owners_ok_def by (metis gate_view_simps length_map nth_map)
qed

text \<open>A gate operation on the waiter of \<open>r\<close> leaves the places of the others.\<close>

lemma touches_others:
  assumes inv: "coordinator_inv P c" and r: "r < length (co_requests c)"
    and t: "touches w (co_gate c) g'" "ad_waiter (rq_admission (co_requests c ! r)) = Some w"
    and s: "s < length (co_requests c)" "s \<noteq> r"
  shows "place_ok g' (co_requests c ! s)"
proof (rule place_ok_frame [OF coordinator_inv_parts(3) [OF inv s(1)]])
  fix v assume "ad_waiter (rq_admission (co_requests c ! s)) = Some v"
  then have "v \<noteq> w" using owned_waiter(3) [OF inv r t(2) s(1)] s(2) by blast
  then show "g_waiter g' v = g_waiter (co_gate c) v" using t(1) by (simp add: touches_def)
qed

lemma leave_gate:
  assumes "coordinator_inv P c" "r < length (co_requests c)"
  defines "ad \<equiv> rq_admission (co_requests c ! r)"
  shows "s < length (co_requests c) \<Longrightarrow> s \<noteq> r \<Longrightarrow> place_ok (snd (onAbandoned ad (co_gate c))) (co_requests c ! s)"
    "s < length (co_requests c) \<Longrightarrow> s \<noteq> r \<Longrightarrow> place_ok (snd (onSettled ad (co_gate c))) (co_requests c ! s)"
    "ad_waiter (fst (onAbandoned ad (co_gate c))) = None" "\<not> accepted_shared (fst (onAbandoned ad (co_gate c)))"
    "ad_waiter (fst (onSettled ad (co_gate c))) = None" "\<not> accepted_shared (fst (onSettled ad (co_gate c)))"
    "ad_kind (fst (onAbandoned ad (co_gate c))) = ad_kind ad" "ad_kind (fst (onSettled ad (co_gate c))) = ad_kind ad"
proof -
  have rr: "place_ok (return_reservation b g) q = place_ok g q" for b g and q :: "'a pending"
    by (simp add: place_ok_def return_reservation_def)
  have w: "g_waiter (snd (onAbandoned ad (co_gate c))) =
      g_waiter (case ad_waiter ad of None \<Rightarrow> co_gate c | Some w \<Rightarrow> cancel w (Aborted In_flight_phase) (co_gate c))"
    "g_waiter (snd (onSettled ad (co_gate c))) =
      g_waiter (case ad_waiter ad of None \<Rightarrow> co_gate c | Some w \<Rightarrow> settle w (co_gate c))"
    by (simp_all add: onAbandoned_def onSettled_def Let_def return_reservation_def)
  have cong: "g_waiter g1 = g_waiter g2 \<Longrightarrow> place_ok g1 q = place_ok g2 q" for g1 g2 and q :: "'a pending"
    by (simp add: place_ok_def)
  show "place_ok (snd (onAbandoned ad (co_gate c))) (co_requests c ! s)"
    "place_ok (snd (onSettled ad (co_gate c))) (co_requests c ! s)" if s: "s < length (co_requests c)" "s \<noteq> r"
  proof -
    have "place_ok (case ad_waiter ad of None \<Rightarrow> co_gate c | Some w \<Rightarrow> cancel w (Aborted In_flight_phase) (co_gate c)) (co_requests c ! s)"
      using coordinator_inv_parts(3) [OF assms(1) s(1)] touches_others [OF assms(1,2) cancel_touches _ s] ad_def
      by (simp split: option.split)
    then show "place_ok (snd (onAbandoned ad (co_gate c))) (co_requests c ! s)" using cong [OF w(1)] by blast
    have "place_ok (case ad_waiter ad of None \<Rightarrow> co_gate c | Some w \<Rightarrow> settle w (co_gate c)) (co_requests c ! s)"
      using coordinator_inv_parts(3) [OF assms(1) s(1)] touches_others [OF assms(1,2) settle_touches _ s] ad_def
      by (simp split: option.split)
    then show "place_ok (snd (onSettled ad (co_gate c))) (co_requests c ! s)" using cong [OF w(2)] by blast
  qed
  show "ad_waiter (fst (onAbandoned ad (co_gate c))) = None" "\<not> accepted_shared (fst (onAbandoned ad (co_gate c)))"
    "ad_waiter (fst (onSettled ad (co_gate c))) = None" "\<not> accepted_shared (fst (onSettled ad (co_gate c)))"
    "ad_kind (fst (onAbandoned ad (co_gate c))) = ad_kind ad" "ad_kind (fst (onSettled ad (co_gate c))) = ad_kind ad"
    by (cases "ad_kind ad"; simp add: onAbandoned_def onSettled_def Let_def accepted_shared_def)+
qed

section \<open>Dropping a queued request\<close>

definition dropped :: "(timing \<Rightarrow> timing) \<Rightarrow> coordinator_error \<Rightarrow> int \<Rightarrow> admission \<Rightarrow> 'v pending \<Rightarrow> 'v pending" where
  "dropped mark e now ad q = settle_promise (Inl e) (reject_timing now
     ((rq_admission_update (\<lambda>_. ad) (rq_listening_update (\<lambda>_. False) (rq_deadlineTimer_update (\<lambda>_. False)
       (q\<lparr>rq_cancelled := True, rq_timing := mark (rq_timing q)\<rparr>))))\<lparr>rq_settled := True, rq_callerSettled := True\<rparr>))"

definition dropping :: "nat \<Rightarrow> actor \<Rightarrow> actor" where
  "dropping r x = sched ((ac_queue_update (remove1 r) x)\<lparr>ac_rejectedCount := ac_rejectedCount x + 1,
     ac_lastRejected := Some r\<rparr>)"

lemma drop_queued_normal:
  assumes "r < length (co_requests c)" "rq_actor (co_requests c ! r) < length (co_actors c)"
  defines "ad \<equiv> rq_admission (co_requests c ! r)" and "a \<equiv> rq_actor (co_requests c ! r)"
  shows "co_gate (drop_queued mark e r now c) = snd (onAbandoned ad (co_gate c))"
    "co_requests (drop_queued mark e r now c) =
       (co_requests c)[r := dropped mark e now (fst (onAbandoned ad (co_gate c))) (co_requests c ! r)]"
    "co_actors (drop_queued mark e r now c) = (co_actors c)[a := dropping r (co_actors c ! a)]"
  using assms(1,2)
  by (simp_all add: drop_queued_def Let_def actor_removeQueued_def detachAbortListener_def clearDeadline_def
      count_rejected_def admission_hooks dropped_def dropping_def ad_def a_def)

lemma dropped_fields:
  "rq_actor (dropped mark e now ad q) = rq_actor q" "rq_started (dropped mark e now ad q) = rq_started q"
  "rq_settled (dropped mark e now ad q)" "rq_callerSettled (dropped mark e now ad q)"
  "rq_admission (dropped mark e now ad q) = ad" "rq_stage (dropped mark e now ad q) = rq_stage q"
  "rq_answers (dropped mark e now ad q) = rq_answers q @ [Inl e]" "rq_inFlightError (dropped mark e now ad q) = rq_inFlightError q"
  by (simp_all add: dropped_def settle_promise_def reject_timing_def split: option.split)

lemma view_event:
  assumes "co_gate c' = gs_gate (gate_apply L e (gate_view c))"
    "map rq_admission (co_requests c') = gs_admissions (gate_apply L e (gate_view c))"
  shows "gate_view c' = gate_apply L e (gate_view c)"
  using assms by (simp add: gate_view_def)

lemma abandon_view:
  assumes "r < length (co_requests c)"
    "co_gate c' = snd (onAbandoned (rq_admission (co_requests c ! r)) (co_gate c))"
    "co_requests c' = (co_requests c)[r := q']"
    "rq_admission q' = fst (onAbandoned (rq_admission (co_requests c ! r)) (co_gate c))"
  shows "gate_view c' = gate_apply L (Abandon r) (gate_view c)"
  by (rule view_event) (use assms in \<open>simp_all add: case_prod_beta put_admission_def map_update\<close>)

lemma finish_view:
  assumes "r < length (co_requests c)"
    "co_gate c' = snd (onSettled (rq_admission (co_requests c ! r)) (co_gate c))"
    "co_requests c' = (co_requests c)[r := q']"
    "rq_admission q' = fst (onSettled (rq_admission (co_requests c ! r)) (co_gate c))"
  shows "gate_view c' = gate_apply L (Finish r) (gate_view c)"
  by (rule view_event) (use assms in \<open>simp_all add: case_prod_beta put_admission_def map_update\<close>)

lemma abandon_enabled:
  assumes "coordinator_inv P c" "r < length (co_requests c)" "\<not> rq_started (co_requests c ! r)"
  shows "gate_enabled (Abandon r) (gate_view c)"
  using assms(2,3) coordinator_inv_parts(3) [OF assms(1,2)] by (simp add: place_ok_def split: option.split)

lemma drop_inv:
  assumes inv: "coordinator_inv P c" and r: "r < length (co_requests c)"
    and q: "\<not> rq_started (co_requests c ! r)" "\<not> rq_settled (co_requests c ! r)"
  shows "coordinator_inv P (drop_queued mark e r now c)"
proof -
  let ?q = "co_requests c ! r"
  let ?a = "rq_actor ?q"
  let ?x = "co_actors c ! ?a"
  let ?c = "drop_queued mark e r now c"
  let ?ad = "fst (onAbandoned (rq_admission ?q) (co_gate c))"
  have loc: "located (co_actors c) r ?q" by (rule coordinator_inv_parts(4) [OF inv r])
  then have a: "?a < length (co_actors c)" by (simp add: located_def)
  have ok: "request_ok ?q" by (rule coordinator_inv_parts(2) [OF inv r])
  have xok: "actor_ok P ?x" by (rule coordinator_inv_parts(5) [OF inv a])
  note n = drop_queued_normal [OF r a, of mark e now]
  note lv = leave_gate [OF inv r]
  have rq: "r \<in> set (ac_queue ?x)" using loc q by (simp add: located_def)
  have view: "gate_view ?c = gate_apply (ao_gate P) (Abandon r) (gate_view c)"
    by (rule abandon_view [OF r n(1,2)]) (simp add: dropped_fields)
  show ?thesis
  proof (rule coordinator_inv_update [OF inv r refl refl refl n(2,3)])
    show "system_inv (ao_gate P) (gate_view ?c)"
      unfolding view by (rule gate_apply_inv [OF coordinator_inv_parts(1) [OF inv] abandon_enabled [OF inv r q(1)]])
    show "place_ok (co_gate ?c) (co_requests c ! s)" if "s < length (co_requests c)" "s \<noteq> r" for s
      unfolding n(1) by (rule lv(1) [OF that])
    show "request_ok (dropped mark e now ?ad ?q)"
      using ok q lv(3,4) by (simp add: request_ok_def dropped_fields)
    show "place_ok (co_gate ?c) (dropped mark e now ?ad ?q)"
      using ok q lv(3) by (simp add: place_ok_def request_ok_def dropped_fields)
    have "set (remove1 r (ac_queue ?x)) = set (ac_queue ?x) - {r}" using xok by (simp add: actor_ok_def)
    moreover have "length (remove1 r (ac_queue ?x)) \<le> length (ac_queue ?x)" by (simp add: length_remove1)
    ultimately show "actor_step P r ?q (dropped mark e now ?ad ?q) ?x (dropping r ?x)"
      using xok loc q lv(7) 
      by (auto simp: actor_step_def actor_ok_def dropping_def dropped_fields located_def)
  qed
qed

section \<open>Quarantine\<close>

definition quarantined :: "(timing \<Rightarrow> timing) \<Rightarrow> coordinator_error \<Rightarrow> 'v pending \<Rightarrow> 'v pending" where
  "quarantined mark e q = (let q1 = q\<lparr>rq_timing := (mark (rq_timing q))\<lparr>tm_quarantinedUntilSettled := True\<rparr>,
       rq_inFlightError := (case rq_inFlightError q of None \<Rightarrow> Some e | Some e' \<Rightarrow> Some e')\<rparr> in
     if rq_callerSettled q1 then q1
     else settle_promise (Inl (the (rq_inFlightError q1))) (q1\<lparr>rq_callerSettled := True\<rparr>))"

definition aborting :: "coordinator_error \<Rightarrow> 'v pending \<Rightarrow> 'v pending" where
  "aborting reason q = (if rq_signal q \<noteq> None then q else q\<lparr>rq_signal := Some reason\<rparr>)"

definition abort_gate :: "coordinator_error \<Rightarrow> 'v pending \<Rightarrow> browser_gate \<Rightarrow> browser_gate" where
  "abort_gate reason q g = (if rq_signal q \<noteq> None then g
     else case ad_waiter (rq_admission q) of None \<Rightarrow> g | Some w \<Rightarrow> onAbort w reason g)"

lemma controller_abort_normal:
  "co_gate (controller_abort r reason c) = abort_gate reason (co_requests c ! r) (co_gate c)"
  "co_requests (controller_abort r reason c) = (co_requests c)[r := aborting reason (co_requests c ! r)]"
  "co_actors (controller_abort r reason c) = co_actors c"
  by (simp_all add: controller_abort_def Let_def abort_gate_def aborting_def split: option.split)

lemma quarantined_fields:
  "rq_actor (quarantined mark e q) = rq_actor q" "rq_started (quarantined mark e q) = rq_started q"
  "rq_settled (quarantined mark e q) = rq_settled q" "rq_callerSettled (quarantined mark e q)"
  "rq_admission (quarantined mark e q) = rq_admission q" "rq_stage (quarantined mark e q) = rq_stage q"
  "rq_cancelled (quarantined mark e q) = rq_cancelled q" "rq_signal (quarantined mark e q) = rq_signal q"
  "rq_callerSettled q \<Longrightarrow> rq_answers (quarantined mark e q) = rq_answers q"
  "\<not> rq_callerSettled q \<Longrightarrow> length (rq_answers (quarantined mark e q)) = Suc (length (rq_answers q))"
  by (simp_all add: quarantined_def Let_def settle_promise_def split: option.split)

lemma aborting_fields:
  "rq_actor (aborting e q) = rq_actor q" "rq_started (aborting e q) = rq_started q"
  "rq_settled (aborting e q) = rq_settled q" "rq_callerSettled (aborting e q) = rq_callerSettled q"
  "rq_admission (aborting e q) = rq_admission q" "rq_stage (aborting e q) = rq_stage q"
  "rq_cancelled (aborting e q) = rq_cancelled q" "rq_answers (aborting e q) = rq_answers q"
  "rq_inFlightError (aborting e q) = rq_inFlightError q"
  by (simp_all add: aborting_def)

lemma quarantine_normal:
  assumes "r < length (co_requests c)" "rq_actor (co_requests c ! r) < length (co_actors c)"
  defines "q \<equiv> co_requests c ! r"
  shows "co_gate (quarantine mark e reason r c) = abort_gate reason q (co_gate c)"
    "co_requests (quarantine mark e reason r c) = (co_requests c)[r := aborting reason (quarantined mark e q)]"
    "co_actors (quarantine mark e reason r c) = (co_actors c)[rq_actor q :=
       ac_quarantinedUntilSettled_update (\<lambda>_. Some r) (co_actors c ! rq_actor q)]"
proof -
  define c3 where "c3 = upd_request r (\<lambda>q. if rq_callerSettled q then q
       else settle_promise (Inl (the (rq_inFlightError q))) (q\<lparr>rq_callerSettled := True\<rparr>))
     (upd_actor (rq_actor q) (ac_quarantinedUntilSettled_update (\<lambda>_. Some r))
       (upd_request r (\<lambda>q. q\<lparr>rq_timing := (mark (rq_timing q))\<lparr>tm_quarantinedUntilSettled := True\<rparr>,
          rq_inFlightError := (case rq_inFlightError q of None \<Rightarrow> Some e | Some e' \<Rightarrow> Some e')\<rparr>) c))"
  have h: "quarantine mark e reason r c = controller_abort r reason c3"
    by (simp add: quarantine_def Let_def c3_def q_def)
  have p: "co_gate c3 = co_gate c" "co_requests c3 = (co_requests c)[r := quarantined mark e q]"
    "co_actors c3 = (co_actors c)[rq_actor q := ac_quarantinedUntilSettled_update (\<lambda>_. Some r) (co_actors c ! rq_actor q)]"
    using assms(1,2) by (simp_all add: c3_def quarantined_def Let_def q_def)
  have ag: "abort_gate reason (quarantined mark e q) = abort_gate reason q"
    by (rule ext) (simp add: abort_gate_def quarantined_fields)
  show "co_gate (quarantine mark e reason r c) = abort_gate reason q (co_gate c)"
    "co_requests (quarantine mark e reason r c) = (co_requests c)[r := aborting reason (quarantined mark e q)]"
    "co_actors (quarantine mark e reason r c) = (co_actors c)[rq_actor q :=
       ac_quarantinedUntilSettled_update (\<lambda>_. Some r) (co_actors c ! rq_actor q)]"
    using assms(1) by (simp_all add: h controller_abort_normal p ag)
qed

lemma cancel_granted:
  "w_promise (g_waiter (cancel w r g) w) = Lease_granted \<Longrightarrow>
     w_promise (g_waiter g w) = Lease_granted \<and> (w_acquired (g_waiter g w) \<longrightarrow> w_acquired (g_waiter (cancel w r g) w))"
  by (auto simp: cancel_def Let_def set_waiter_def scheduleDrain_def split: if_splits)

lemma onAbort_granted:
  "w_promise (g_waiter (onAbort w r g) w) = Lease_granted \<Longrightarrow>
     w_promise (g_waiter g w) = Lease_granted \<and> (w_acquired (g_waiter g w) \<longrightarrow> w_acquired (g_waiter (onAbort w r g) w))"
  by (auto simp: onAbort_def Let_def dest: cancel_granted split: if_splits)

lemma quarantine_inv:
  assumes inv: "coordinator_inv P c" and r: "r < length (co_requests c)"
    and q: "rq_started (co_requests c ! r)" "\<not> rq_settled (co_requests c ! r)"
  shows "coordinator_inv P (quarantine mark e reason r c)"
proof -
  let ?q = "co_requests c ! r"
  let ?a = "rq_actor ?q"
  let ?x = "co_actors c ! ?a"
  let ?c = "quarantine mark e reason r c"
  let ?q' = "aborting reason (quarantined mark e ?q)"
  have loc: "located (co_actors c) r ?q" by (rule coordinator_inv_parts(4) [OF inv r])
  then have a: "?a < length (co_actors c)" by (simp add: located_def)
  have ok: "request_ok ?q" by (rule coordinator_inv_parts(2) [OF inv r])
  have xok: "actor_ok P ?x" by (rule coordinator_inv_parts(5) [OF inv a])
  note n = quarantine_normal [OF r a, of mark e reason]
  have S: "system_inv (ao_gate P) (gate_view c)" by (rule coordinator_inv_parts(1) [OF inv])
  have same: "map rq_admission (co_requests ?c) = map rq_admission (co_requests c)"
    unfolding n(2) by (simp add: map_update aborting_fields quarantined_fields list_update_same_conv r)
  have view: "gate_view ?c = (gate_view c)\<lparr>gs_gate := co_gate ?c\<rparr>"
    unfolding gate_view_def same by simp
  have pl: "place_ok (co_gate c) ?q" by (rule coordinator_inv_parts(3) [OF inv r])
  have gate: "co_gate ?c = co_gate c \<or> (\<exists>w. ad_waiter (rq_admission ?q) = Some w \<and> co_gate ?c = onAbort w reason (co_gate c))"
    unfolding n(1) by (simp add: abort_gate_def split: option.split)
  have acq: "onAbort w reason (co_gate c) = co_gate c" if "w_acquired (g_waiter (co_gate c) w)" for w
    using that by (simp add: onAbort_def)
  show ?thesis
  proof (rule coordinator_inv_update [OF inv r refl refl refl n(2,3)])
    show "system_inv (ao_gate P) (gate_view ?c)"
      using gate
    proof
      assume "co_gate ?c = co_gate c"
      then have "gate_view ?c = gate_view c" unfolding view by (simp add: gate_view_def)
      then show ?thesis using S by simp
    next
      assume "\<exists>w. ad_waiter (rq_admission ?q) = Some w \<and> co_gate ?c = onAbort w reason (co_gate c)"
      then obtain w where w: "ad_waiter (rq_admission ?q) = Some w" "co_gate ?c = onAbort w reason (co_gate c)" by blast
      have t: "touches w (gs_gate (gate_view c)) (co_gate ?c)" using onAbort_touches w(2) by simp
      have g: "gate_inv (co_gate ?c)"
        unfolding w(2) using onAbort_inv system_inv_parts(1) [OF S] owned_waiter(1) [OF inv r w(1)] by simp
      show ?thesis unfolding view by (rule touches_system_inv [OF S t g])
    qed
    show "place_ok (co_gate ?c) (co_requests c ! s)" if "s < length (co_requests c)" "s \<noteq> r" for s
      using gate coordinator_inv_parts(3) [OF inv that(1)] touches_others [OF inv r onAbort_touches _ that] by auto
    have pr: "length (rq_answers (quarantined mark e ?q)) = 1"
    proof (cases "rq_callerSettled ?q")
      case True
      then show ?thesis using ok quarantined_fields(9) [OF True, of mark e] by (simp add: request_ok_def)
    next
      case False
      then show ?thesis using ok quarantined_fields(10) [OF False, of mark e] by (simp add: request_ok_def)
    qed
    show "request_ok ?q'"
      using ok q pr by (simp add: request_ok_def aborting_fields quarantined_fields(1-8))
    show "place_ok (co_gate ?c) ?q'"
      using pl q gate acq onAbort_granted
      by (auto simp: place_ok_def aborting_fields quarantined_fields(1-8))
    show "actor_step P r ?q ?q' ?x (ac_quarantinedUntilSettled_update (\<lambda>_. Some r) ?x)"
      using xok loc q by (auto simp: actor_step_def actor_ok_def aborting_fields quarantined_fields located_def)
  qed
qed

section \<open>Signals and timers\<close>

lemma handleAbort_inv:
  assumes "coordinator_inv P c" "r < length (co_requests c)"
  shows "coordinator_inv P (handleAbort r reason now c)"
  using assms by (simp add: handleAbort_def Let_def drop_inv quarantine_inv)

lemma handleDeadline_inv:
  assumes "coordinator_inv P c" "r < length (co_requests c)"
  shows "coordinator_inv P (handleDeadline r now c)"
  using assms by (simp add: handleDeadline_def Let_def drop_inv quarantine_inv)

text \<open>A deadline leaves the sizes and the active requests alone.\<close>

lemma handleDeadline_frame:
  assumes "coordinator_inv P c" "r < length (co_requests c)"
  shows "length (co_requests (handleDeadline r now c)) = length (co_requests c)"
    "length (co_actors (handleDeadline r now c)) = length (co_actors c)"
    "ac_active (co_actors (handleDeadline r now c) ! a) = ac_active (co_actors c ! a)"
proof -
  have al: "rq_actor (co_requests c ! r) < length (co_actors c)"
    using coordinator_inv_parts(4) [OF assms] by (simp add: located_def)
  note n = drop_queued_normal [OF assms(2) al] quarantine_normal [OF assms(2) al]
  show "length (co_requests (handleDeadline r now c)) = length (co_requests c)"
    "length (co_actors (handleDeadline r now c)) = length (co_actors c)"
    by (simp_all add: handleDeadline_def Let_def n)
  show "ac_active (co_actors (handleDeadline r now c) ! a) = ac_active (co_actors c ! a)"
    using al by (cases "a = rq_actor (co_requests c ! r)")
      (simp_all add: handleDeadline_def Let_def n dropping_def)
qed

lemma arm_timer_inv:
  assumes inv: "coordinator_inv P c" and r: "r < length (co_requests c)"
  shows "coordinator_inv P (upd_request r (rq_deadlineTimer_update (\<lambda>_. b)) c)"
proof -
  let ?q = "co_requests c ! r" and ?c = "upd_request r (rq_deadlineTimer_update (\<lambda>_. b)) c"
  let ?x = "co_actors c ! rq_actor ?q"
  have loc: "located (co_actors c) r ?q" by (rule coordinator_inv_parts(4) [OF inv r])
  have al: "rq_actor ?q < length (co_actors c)" using loc by (simp add: located_def)
  have view: "gate_view ?c = gate_view c"
    using r by (simp add: gate_view_def map_update list_update_same_conv)
  show ?thesis
  proof (rule coordinator_inv_update [OF inv r refl refl refl])
    show "co_requests ?c = (co_requests c)[r := rq_deadlineTimer_update (\<lambda>_. b) ?q]" by simp
    show "co_actors ?c = (co_actors c)[rq_actor ?q := ?x]" by simp
    show "system_inv (ao_gate P) (gate_view ?c)" unfolding view by (rule coordinator_inv_parts(1) [OF inv])
    show "place_ok (co_gate ?c) (co_requests c ! s)" if "s < length (co_requests c)" "s \<noteq> r" for s
      using coordinator_inv_parts(3) [OF inv that(1)] by simp
    show "request_ok (rq_deadlineTimer_update (\<lambda>_. b) ?q)"
    proof -
      have "request_ok (rq_deadlineTimer_update (\<lambda>_. b) ?q) = request_ok ?q" by (simp add: request_ok_def)
      then show ?thesis using coordinator_inv_parts(2) [OF inv r] by simp
    qed
    show "place_ok (co_gate ?c) (rq_deadlineTimer_update (\<lambda>_. b) ?q)"
      using coordinator_inv_parts(3) [OF inv r] by (simp add: place_ok_def)
    show "actor_step P r ?q (rq_deadlineTimer_update (\<lambda>_. b) ?q) ?x ?x"
      using loc coordinator_inv_parts(5) [OF inv al] by (auto simp: actor_step_def located_def)
  qed
qed

lemma deadline_tick_inv:
  "coordinator_inv P c \<Longrightarrow> r < length (co_requests c) \<Longrightarrow> coordinator_inv P (deadline_tick r now c)"
  by (simp add: deadline_tick_def Let_def handleDeadline_inv arm_timer_inv split: option.split)

section \<open>The gate's microtask\<close>

lemma grant_unqueued: "v \<notin> set (g_queued g) \<Longrightarrow> g_waiter (grant w g) v = g_waiter g v \<and> v \<notin> set (g_queued (grant w g))"
  by (auto simp: grant_def Let_def set_waiter_def)

lemma fold_grant_unqueued: "v \<notin> set (g_queued g) \<Longrightarrow> g_waiter (fold grant ws g) v = g_waiter g v"
proof (induction ws arbitrary: g)
  case (Cons w ws)
  then show ?case using grant_unqueued [OF Cons.prems, of w] by simp
qed simp

lemma drain_unqueued: "v \<notin> set (g_queued g) \<Longrightarrow> g_waiter (drain L g) v = g_waiter g v"
  using grant_unqueued [of v "pruned g"] fold_grant_unqueued [of v "pruned g"]
  by (auto simp: drain_def Let_def)

lemma microtask_place:
  assumes gi: "gate_inv g" and w: "\<And>w. ad_waiter (rq_admission q) = Some w \<Longrightarrow> gate_waiter g w"
    and p: "place_ok g q"
  shows "place_ok (run_microtask L g) q"
proof -
  let ?g = "g\<lparr>g_drainScheduled := False\<rparr>"
  have gi': "gate_inv ?g" using gi by simp
  have one: "w_started (g_waiter (drain L ?g) v) = w_started (g_waiter g v)"
    "w_settled (g_waiter (drain L ?g) v) = w_settled (g_waiter g v)"
    "w_acquired (g_waiter g v) \<Longrightarrow> w_acquired (g_waiter (drain L ?g) v)" for v
    using drain_drain_frame [of ?g L] by (simp_all add: drain_frame_def)
  have fin: "w_promise (g_waiter (drain L ?g) v) = Lease_granted"
    if "gate_waiter g v" "w_promise (g_waiter g v) = Lease_granted" for v
    using drain_later [OF gi', of L] that unfolding later_def lease_settled_def gate_waiter_def by simp
  have acq: "w_acquired (g_waiter (drain L ?g) v)"
    if v: "gate_waiter g v" "w_promise (g_waiter (drain L ?g) v) = Lease_granted"
      and old: "w_promise (g_waiter g v) = Lease_granted \<longrightarrow> w_acquired (g_waiter g v)" for v
  proof (cases "v \<in> set (g_queued g)")
    case False
    then have "g_waiter (drain L ?g) v = g_waiter g v" using drain_unqueued [of v ?g L] by simp
    with v(2) old show ?thesis by simp
  next
    case True
    then have "\<not> w_settled (g_waiter (drain L ?g) v)"
      using flags_of(1) [OF gate_inv_parts(1) [OF gi] v(1)] one(2) by blast
    moreover have "gate_waiter (drain L ?g) v"
      using drain_later [OF gi', of L] v(1) unfolding later_def gate_waiter_def by simp
    ultimately show ?thesis
      using promise_of [OF gate_inv_parts(5) [OF drain_inv [OF gi', of L]]] v(2) by (fastforce simp: promise_matches_def)
  qed
  have "place_ok (drain L ?g) q"
    unfolding place_ok_def
  proof (intro conjI impI allI)
    show "\<not> w_started (g_waiter (drain L ?g) v)" if "\<not> rq_started q" "ad_waiter (rq_admission q) = Some v" for v
      using p that by (simp add: place_ok_def one)
    show "\<exists>w. ad_waiter (rq_admission q) = Some w \<and> w_acquired (g_waiter (drain L ?g) w) \<and>
        w_promise (g_waiter (drain L ?g) w) = Lease_granted" if "rq_stage q = In_callback"
      using p that w fin one(3) unfolding place_ok_def by blast
    show "w_acquired (g_waiter (drain L ?g) v)"
      if "ad_waiter (rq_admission q) = Some v" "w_promise (g_waiter (drain L ?g) v) = Lease_granted" for v
      using acq [OF w [OF that(1)] that(2)] p that(1) unfolding place_ok_def by blast
  qed
  then show ?thesis using p by (simp add: run_microtask_def)
qed

lemma gate_turn_inv:
  assumes inv: "coordinator_inv P c"
  shows "coordinator_inv P (c\<lparr>co_gate := run_microtask (ao_gate P) (co_gate c)\<rparr>)"
proof -
  let ?c = "c\<lparr>co_gate := run_microtask (ao_gate P) (co_gate c)\<rparr>"
  note S = coordinator_inv_parts(1) [OF inv]
  have view: "gate_view ?c = gate_apply (ao_gate P) Microtask (gate_view c)" by (rule view_event) simp_all
  have "system_inv (ao_gate P) (gate_view ?c)" unfolding view by (rule gate_apply_inv [OF S]) simp
  moreover have "place_ok (co_gate ?c) (co_requests c ! r)" if r: "r < length (co_requests c)" for r
    using microtask_place [OF system_inv_parts(1) [OF S, simplified] owned_waiter(1) [OF inv r]
        coordinator_inv_parts(3) [OF inv r]] by simp
  ultimately show ?thesis using inv by (simp add: coordinator_inv_def)
qed

end
