(* ===== verification/Actor_Turns.thy ===== *)
theory Actor_Turns
  imports Actor_Steps
begin

text \<open>The turns of an actor: selection, the start of a request, and the end of \<open>execute\<close>.\<close>

section \<open>Selection\<close>

lemma first_by_sequence_in: "first_by_sequence rqs rs = Some r \<Longrightarrow> r \<in> set rs"
  by (induction rs arbitrary: r) (auto split: option.splits if_splits)

lemma first_by_sequence_None: "first_by_sequence rqs rs = None \<longleftrightarrow> rs = []"
  by (cases rs) (auto split: option.splits if_splits)

lemma first_by_sequence_least:
  "first_by_sequence rqs rs = Some r \<Longrightarrow> s \<in> set rs \<Longrightarrow> rq_sequence (rqs ! r) \<le> rq_sequence (rqs ! s)"
  by (induction rs arbitrary: r s) (force simp: first_by_sequence_None split: option.splits if_splits)+

lemma of_priority_hd: "of_priority rqs p queue \<noteq> [] \<Longrightarrow> hd (of_priority rqs p queue) \<in> set queue"
  using hd_in_set [of "of_priority rqs p queue"] by (auto simp: of_priority_def)

lemma select_index_in: "select_index P cons now rqs queue = Some r \<Longrightarrow> r \<in> set queue"
  by (auto simp: select_index_def Let_def of_priority_hd split: if_splits option.splits dest: first_by_sequence_in)

text \<open>A nonempty queue always has a next request.\<close>

lemma select_index_total: "queue \<noteq> [] \<Longrightarrow> select_index P cons now rqs queue \<noteq> None"
proof -
  assume "queue \<noteq> []"
  then obtain r where r: "r \<in> set queue" by (meson list.set_sel(1))
  have "of_priority rqs (rq_priority (rqs ! r)) queue \<noteq> []"
    using r by (auto simp: of_priority_def filter_empty_conv)
  then have "of_priority rqs Read queue \<noteq> [] \<or> of_priority rqs Mutation queue \<noteq> [] \<or> of_priority rqs Control queue \<noteq> []"
    by (cases "rq_priority (rqs ! r)") auto
  then show ?thesis using \<open>queue \<noteq> []\<close> by (auto simp: select_index_def Let_def split: option.split)
qed

lemma queued_request:
  assumes inv: "coordinator_inv P c" and a: "a < length (co_actors c)" and rq: "r \<in> set (ac_queue (co_actors c ! a))"
  shows "r < length (co_requests c)" "rq_actor (co_requests c ! r) = a" "\<not> rq_started (co_requests c ! r)"
    "\<not> rq_settled (co_requests c ! r)" "\<not> rq_cancelled (co_requests c ! r)"
proof -
  show r: "r < length (co_requests c)" and ra: "rq_actor (co_requests c ! r) = a"
    using coordinator_inv_parts(6) [OF inv a] rq by (auto simp: refs_ok_def)
  show "\<not> rq_started (co_requests c ! r)" and st: "\<not> rq_settled (co_requests c ! r)"
    using coordinator_inv_parts(4) [OF inv r] rq ra by (simp_all add: located_def)
  show "\<not> rq_cancelled (co_requests c ! r)"
    using coordinator_inv_parts(2) [OF inv r] st by (simp add: request_ok_def)
qed

section \<open>Expiry\<close>

lemma expire_fold_inv:
  fixes c :: "'v coordinator" and now :: int
  assumes "coordinator_inv P c" "\<forall>r \<in> set rs. r < length (co_requests c)"
  defines "step \<equiv> (\<lambda>r (c :: 'v coordinator). if expired now (co_requests c ! r) then handleDeadline r now c else c)"
  shows "coordinator_inv P (fold step rs c) \<and> length (co_requests (fold step rs c)) = length (co_requests c) \<and>
     length (co_actors (fold step rs c)) = length (co_actors c) \<and>
     ac_active (co_actors (fold step rs c) ! a) = ac_active (co_actors c ! a)"
  using assms(1,2)
proof (induction rs arbitrary: c)
  case (Cons r rs)
  have r: "r < length (co_requests c)" using Cons.prems(2) by simp
  note f = handleDeadline_frame [OF Cons.prems(1) r]
  have inv: "coordinator_inv P (step r c)" using Cons.prems(1) r by (simp add: step_def handleDeadline_inv)
  have len: "length (co_requests (step r c)) = length (co_requests c)" "length (co_actors (step r c)) = length (co_actors c)"
    "ac_active (co_actors (step r c) ! a) = ac_active (co_actors c ! a)"
    using f by (simp_all add: step_def)
  from Cons.IH [OF inv] Cons.prems(2) len show ?case by simp
qed simp

lemma removeExpiredQueued_inv:
  assumes "coordinator_inv P c" "a < length (co_actors c)"
  shows "coordinator_inv P (removeExpiredQueued a now c)"
    "length (co_requests (removeExpiredQueued a now c)) = length (co_requests c)"
    "length (co_actors (removeExpiredQueued a now c)) = length (co_actors c)"
    "ac_active (co_actors (removeExpiredQueued a now c) ! b) = ac_active (co_actors c ! b)"
proof -
  have "\<forall>r \<in> set (ac_queue (co_actors c ! a)). r < length (co_requests c)"
    using coordinator_inv_parts(6) [OF assms] by (auto simp: refs_ok_def)
  from expire_fold_inv [OF assms(1) this, of now b]
  show "coordinator_inv P (removeExpiredQueued a now c)"
    "length (co_requests (removeExpiredQueued a now c)) = length (co_requests c)"
    "length (co_actors (removeExpiredQueued a now c)) = length (co_actors c)"
    "ac_active (co_actors (removeExpiredQueued a now c) ! b) = ac_active (co_actors c ! b)"
    by (simp_all add: removeExpiredQueued_def)
qed

section \<open>Starting a request\<close>

lemma begin_others:
  assumes inv: "coordinator_inv P c" and r: "r < length (co_requests c)"
    and s: "s < length (co_requests c)" "s \<noteq> r"
  defines "ad \<equiv> rq_admission (co_requests c ! r)"
  shows "place_ok (snd (snd (onStarted L sig ad (co_gate c)))) (co_requests c ! s)"
proof (cases "ad_kind ad = Exclusive \<or> \<not> ad_accepted ad \<or> ad_waiter ad \<noteq> None")
  case True
  then have "snd (snd (onStarted L sig ad (co_gate c))) = co_gate c \<or>
      (\<exists>w. ad_waiter ad = Some w \<and> snd (snd (onStarted L sig ad (co_gate c))) = snd (start w sig (co_gate c)))"
    by (cases "ad_kind ad") (auto simp: onStarted_def case_prod_beta split: option.split)
  then show ?thesis
    using coordinator_inv_parts(3) [OF inv s(1)] touches_others [OF inv r start_touches _ s] ad_def by auto
next
  case False
  then have sh: "ad_kind ad = Shared" "ad_accepted ad" "ad_waiter ad = None" by (cases "ad_kind ad"; simp)+
  let ?g1 = "(co_gate c)\<lparr>g_pendingSharedReservations := g_pendingSharedReservations (co_gate c) - 1\<rparr>"
  let ?w = "g_sequence (co_gate c) + 1"
  show ?thesis
  proof (rule place_ok_frame [OF coordinator_inv_parts(3) [OF inv s(1)]])
    fix v assume "ad_waiter (rq_admission (co_requests c ! s)) = Some v"
    then have "gate_waiter (co_gate c) v" by (rule owned_waiter(1) [OF inv s(1)])
    then have v: "v \<noteq> ?w" by (simp add: gate_waiter_def)
    have "g_waiter (snd (start ?w sig (add_waiter Shared ?g1))) v = g_waiter (co_gate c) v"
      using start_touches [of ?w "add_waiter Shared ?g1" sig] v by (simp add: touches_def add_waiter_fields)
    then show "g_waiter (snd (snd (onStarted L sig ad (co_gate c)))) v = g_waiter (co_gate c) v"
      using sh by (simp add: onStarted_def Let_def reserve_unfold case_prod_beta)
  qed
qed

lemma onStarted_kind: "ad_kind (fst (snd (onStarted L sig ad g))) = ad_kind ad"
  by (simp add: onStarted_def Let_def reserve_unfold case_prod_beta split: option.split)

lemma start_granted:
  assumes "w_promise (g_waiter (snd (start w sig g)) w) = Lease_granted"
  shows "w_promise (g_waiter g w) = Lease_granted \<and>
     (w_acquired (g_waiter g w) \<longrightarrow> w_acquired (g_waiter (snd (start w sig g)) w))"
proof -
  have "w_promise (g_waiter (mark_started w g) w) = Pending_lease"
    by (simp add: mark_started_def Let_def set_waiter_def)
  then have "\<And>e. w_promise (g_waiter (onAbort w e (mark_started w g)) w) \<noteq> Lease_granted"
    using onAbort_granted [of w _ "mark_started w g"] by fastforce
  then show ?thesis
    using assms \<open>w_promise (g_waiter (mark_started w g) w) = Pending_lease\<close>
    by (auto simp: start_unfold scheduleDrain_def split: option.splits if_splits)
qed

lemma begin_mine:
  assumes p: "place_ok g q" and st: "rq_started q'" "rq_stage q' \<noteq> In_callback"
    and ad: "rq_admission q' = fst (snd (onStarted L sig (rq_admission q) g))"
  shows "place_ok (snd (snd (onStarted L sig (rq_admission q) g))) q'"
proof -
  let ?ad = "rq_admission q" and ?g = "snd (snd (onStarted L sig (rq_admission q) g))"
  have "w_acquired (g_waiter ?g w)" if w: "ad_waiter (rq_admission q') = Some w" "w_promise (g_waiter ?g w) = Lease_granted" for w
  proof (cases "ad_kind ?ad = Exclusive \<or> \<not> ad_accepted ?ad \<or> ad_waiter ?ad \<noteq> None")
    case True
    then have "(?g = g \<or> ?g = snd (start w sig g)) \<and> ad_waiter ?ad = Some w"
      using w(1) unfolding ad
      by (cases "ad_kind ?ad") (auto simp: onStarted_def case_prod_beta split: option.splits)
    then show ?thesis using p w(2) start_granted [of w sig g] unfolding place_ok_def by metis
  next
    case False
    then have sh: "ad_kind ?ad = Shared" "ad_accepted ?ad" "ad_waiter ?ad = None" by (cases "ad_kind ?ad"; simp)+
    let ?g1 = "g\<lparr>g_pendingSharedReservations := g_pendingSharedReservations g - 1\<rparr>"
    have "w = g_sequence g + 1 \<and> ?g = snd (start w sig (add_waiter Shared ?g1))"
      using w(1) sh unfolding ad by (auto simp: onStarted_def Let_def reserve_unfold case_prod_beta split: if_splits)
    then have "w_promise (g_waiter (add_waiter Shared ?g1) w) = Lease_granted" "w = g_sequence g + 1"
      using start_granted [of w sig "add_waiter Shared ?g1"] w(2) by metis+
    then have False by (simp add: add_waiter_fields new_waiter_def)
    then show ?thesis ..
  qed
  then show ?thesis using st by (simp add: place_ok_def)
qed

definition beginning :: "int \<Rightarrow> admission \<Rightarrow> stage \<Rightarrow> 'v pending \<Rightarrow> 'v pending" where
  "beginning now ad st q = rq_stage_update (\<lambda>_. st) (rq_admission_update (\<lambda>_. ad)
     (q\<lparr>rq_started := True, rq_timing := (rq_timing q)\<lparr>tm_startedAt := Some now,
        tm_queueDelayMs := Some (now - rq_enqueuedAt q)\<rparr>\<rparr>))"

lemma beginning_fields:
  "rq_actor (beginning now ad st q) = rq_actor q" "rq_started (beginning now ad st q)"
  "rq_settled (beginning now ad st q) = rq_settled q" "rq_callerSettled (beginning now ad st q) = rq_callerSettled q"
  "rq_admission (beginning now ad st q) = ad" "rq_stage (beginning now ad st q) = st"
  "rq_answers (beginning now ad st q) = rq_answers q" "rq_cancelled (beginning now ad st q) = rq_cancelled q"
  "rq_inFlightError (beginning now ad st q) = rq_inFlightError q"
  "rq_deadlineAt (beginning now ad st q) = rq_deadlineAt q"
  by (simp_all add: beginning_def)

text \<open>The part of \<open>drain\<close> after the choice.\<close>

definition start_selected :: "actor_options \<Rightarrow> nat \<Rightarrow> nat \<Rightarrow> int \<Rightarrow> 'v coordinator \<Rightarrow> 'v coordinator" where
  "start_selected P a r now c =
     upd_request r (rq_stage_update (\<lambda>_. Awaiting_lease)) (snd (admission_begin P r (begin_request a r now c)))"

definition start_error :: "actor_options \<Rightarrow> nat \<Rightarrow> nat \<Rightarrow> int \<Rightarrow> 'v coordinator \<Rightarrow> coordinator_error option" where
  "start_error P a r now c = fst (admission_begin P r (begin_request a r now c))"

lemma start_selected_normal:
  fixes c :: "'v coordinator" and P :: actor_options
  assumes "r < length (co_requests c)"
  defines "res \<equiv> onStarted (ao_gate P) (rq_signal (co_requests c ! r)) (rq_admission (co_requests c ! r)) (co_gate c)"
  shows "co_gate (start_selected P a r now c) = snd (snd res)"
    "co_requests (start_selected P a r now c) =
       (co_requests c)[r := beginning now (fst (snd res)) Awaiting_lease (co_requests c ! r)]"
    "co_actors (start_selected P a r now c) = (co_actors c)[a := ac_active_update (\<lambda>_. Some r) (co_actors c ! a)]"
  using assms(1)
  by (simp_all add: start_selected_def admission_begin_def begin_request_def case_prod_beta beginning_def
      res_def)

lemma start_selected_inv:
  fixes c :: "'v coordinator" and f :: "(priority \<Rightarrow> nat) \<Rightarrow> priority \<Rightarrow> nat"
  assumes inv: "coordinator_inv P c" and a: "a < length (co_actors c)" and idle: "ac_active (co_actors c ! a) = None"
    and rq: "r \<in> set (ac_queue (co_actors c ! a))"
  defines "c1 \<equiv> upd_actor a (\<lambda>x. x\<lparr>ac_queue := remove1 r (ac_queue x), ac_consecutive := f (ac_consecutive x)\<rparr>) c"
  shows "coordinator_inv P (start_selected P a r now c1)"
proof -
  have r: "r < length (co_requests c)" and ra: "rq_actor (co_requests c ! r) = a"
    using coordinator_inv_parts(6) [OF inv a] rq by (auto simp: refs_ok_def)
  let ?q = "co_requests c ! r" and ?x = "co_actors c ! a"
  have loc: "located (co_actors c) r ?q" by (rule coordinator_inv_parts(4) [OF inv r])
  have q: "\<not> rq_started ?q" "\<not> rq_settled ?q" using loc rq ra by (simp_all add: located_def)
  have ok: "request_ok ?q" by (rule coordinator_inv_parts(2) [OF inv r])
  have xok: "actor_ok P ?x" by (rule coordinator_inv_parts(5) [OF inv a])
  have c1: "co_gate c1 = co_gate c" "co_requests c1 = co_requests c"
    "co_actors c1 = (co_actors c)[a := ?x\<lparr>ac_queue := remove1 r (ac_queue ?x), ac_consecutive := f (ac_consecutive ?x)\<rparr>]"
    by (simp_all add: c1_def)
  define res where "res = onStarted (ao_gate P) (rq_signal ?q) (rq_admission ?q) (co_gate c)"
  let ?q' = "beginning now (fst (snd res)) Awaiting_lease ?q"
  let ?x' = "ac_active_update (\<lambda>_. Some r) (?x\<lparr>ac_queue := remove1 r (ac_queue ?x), ac_consecutive := f (ac_consecutive ?x)\<rparr>)"
  let ?c = "start_selected P a r now c1"
  have r1: "r < length (co_requests c1)" using r by (simp add: c1)
  note n = start_selected_normal [OF r1, of P a now, unfolded c1, folded res_def]
  have n3: "co_actors ?c = (co_actors c)[rq_actor ?q := ?x']" using n(3) a ra by simp
  have view: "gate_view ?c = gate_apply (ao_gate P) (Begin r (rq_signal ?q)) (gate_view c)"
    by (rule view_event)
      (use r in \<open>simp_all add: n(1,2) res_def case_prod_beta put_admission_def map_update beginning_fields\<close>)
  show ?thesis
  proof (rule coordinator_inv_update [OF inv r refl refl refl n(2) n3])
    show "system_inv (ao_gate P) (gate_view ?c)"
      unfolding view by (rule gate_apply_inv [OF coordinator_inv_parts(1) [OF inv]]) (use r in simp)
    show "place_ok (co_gate ?c) (co_requests c ! s)" if "s < length (co_requests c)" "s \<noteq> r" for s
      unfolding n(1) res_def by (rule begin_others [OF inv r that])
    show "request_ok ?q'" using ok q by (simp add: request_ok_def beginning_fields)
    show "place_ok (co_gate ?c) ?q'"
      unfolding n(1) res_def
      by (rule begin_mine [OF coordinator_inv_parts(3) [OF inv r]]) (simp_all add: beginning_fields res_def)
    have "set (remove1 r (ac_queue ?x)) = set (ac_queue ?x) - {r}" using xok by (simp add: actor_ok_def)
    moreover have "length (remove1 r (ac_queue ?x)) \<le> length (ac_queue ?x)" by (simp add: length_remove1)
    moreover have "ac_quarantinedUntilSettled ?x = None"
      using xok idle by (cases "ac_quarantinedUntilSettled ?x") (auto simp: actor_ok_def)
    ultimately show "actor_step P r ?q ?q' (co_actors c ! rq_actor ?q) ?x'"
      using xok q idle ra by (auto simp: actor_step_def actor_ok_def beginning_fields res_def onStarted_kind)
  qed
qed

lemma selectNext_simps:
  "selectNext P a now c = (let c1 = removeExpiredQueued a now c in
     case select_index P (ac_consecutive (co_actors c1 ! a)) now (co_requests c1) (ac_queue (co_actors c1 ! a)) of
       None \<Rightarrow> (None, c1)
     | Some r \<Rightarrow> (Some r, upd_actor a (\<lambda>x. x\<lparr>ac_queue := remove1 r (ac_queue x),
         ac_consecutive := recordSelection (rq_priority (co_requests c1 ! r)) (ac_consecutive x)\<rparr>) c1))"
  by (simp add: selectNext_def Let_def)

text \<open>The chosen request is never a cancelled one, so the loop of \<open>drain\<close> runs once.\<close>

lemma select_live_once:
  assumes "coordinator_inv P c" "a < length (co_actors c)"
  shows "select_live P a now n c = selectNext P a now c"
proof (cases n)
  case (Suc m)
  let ?c1 = "removeExpiredQueued a now c"
  note e = removeExpiredQueued_inv [OF assms, of now]
  show ?thesis
  proof (cases "select_index P (ac_consecutive (co_actors ?c1 ! a)) now (co_requests ?c1) (ac_queue (co_actors ?c1 ! a))")
    case None
    then show ?thesis using Suc by (simp add: selectNext_simps)
  next
    case (Some r)
    have a: "a < length (co_actors ?c1)" using e assms(2) by simp
    have "\<not> rq_cancelled (co_requests ?c1 ! r)" by (rule queued_request(5) [OF e(1) a select_index_in [OF Some]])
    then show ?thesis using Suc Some by (simp add: selectNext_simps Let_def)
  qed
qed simp


section \<open>The end of execute\<close>

definition finishing :: "int \<Rightarrow> admission \<Rightarrow> 'v pending \<Rightarrow> 'v pending" where
  "finishing now ad q = finish_timing now ((rq_listening_update (\<lambda>_. False) (rq_deadlineTimer_update (\<lambda>_. False)
     (rq_admission_update (\<lambda>_. ad) q)))\<lparr>rq_settled := True, rq_stage := Finished\<rparr>)"

definition finished_actor :: "bool \<Rightarrow> nat \<Rightarrow> actor \<Rightarrow> actor" where
  "finished_actor ok r x = (let y = (if ok
       then x\<lparr>ac_completedCount := ac_completedCount x + 1, ac_lastCompleted := Some r\<rparr>
       else x\<lparr>ac_rejectedCount := ac_rejectedCount x + 1, ac_lastRejected := Some r\<rparr>)
     in sched (y\<lparr>ac_active := None, ac_quarantinedUntilSettled :=
          (if ac_quarantinedUntilSettled y = Some r then None else ac_quarantinedUntilSettled y)\<rparr>))"

definition released :: "nat option \<Rightarrow> browser_gate \<Rightarrow> browser_gate" where
  "released lease g = (case lease of None \<Rightarrow> g | Some w \<Rightarrow> release w g)"

lemma finish_timing_outcome [simp]: "tm_outcome (rq_timing (finish_timing now q)) = tm_outcome (rq_timing q)"
  by (simp add: finish_timing_def Let_def)

lemma finishing_fields:
  "rq_actor (finishing now ad q) = rq_actor q" "rq_started (finishing now ad q) = rq_started q"
  "rq_settled (finishing now ad q)" "rq_callerSettled (finishing now ad q) = rq_callerSettled q"
  "rq_admission (finishing now ad q) = ad" "rq_stage (finishing now ad q) = Finished"
  "rq_answers (finishing now ad q) = rq_answers q" "rq_cancelled (finishing now ad q) = rq_cancelled q"
  "rq_inFlightError (finishing now ad q) = rq_inFlightError q"
  "tm_outcome (rq_timing (finishing now ad q)) = tm_outcome (rq_timing q)"
  by (simp_all add: finishing_def finish_timing_def Let_def)

lemma execute_finally_normal:
  fixes c :: "'v coordinator" and lease :: "nat option"
  assumes "r < length (co_requests c)" "rq_actor (co_requests c ! r) < length (co_actors c)"
  defines "q \<equiv> co_requests c ! r"
  defines "res \<equiv> onSettled (rq_admission q) (released lease (co_gate c))"
  shows "co_gate (execute_finally lease r now c) = snd res"
    "co_requests (execute_finally lease r now c) = (co_requests c)[r := finishing now (fst res) q]"
    "co_actors (execute_finally lease r now c) = (co_actors c)[rq_actor q :=
       finished_actor (tm_outcome (rq_timing q) = Some Fulfilled) r (co_actors c ! rq_actor q)]"
proof -
  define c1 where "c1 = (case lease of None \<Rightarrow> c | Some w \<Rightarrow> c\<lparr>co_gate := release w (co_gate c)\<rparr>)"
  have c1: "co_gate c1 = released lease (co_gate c)" "co_requests c1 = co_requests c" "co_actors c1 = co_actors c"
    by (simp_all add: c1_def released_def split: option.split)
  show "co_gate (execute_finally lease r now c) = snd res"
    "co_requests (execute_finally lease r now c) = (co_requests c)[r := finishing now (fst res) q]"
    "co_actors (execute_finally lease r now c) = (co_actors c)[rq_actor q :=
       finished_actor (tm_outcome (rq_timing q) = Some Fulfilled) r (co_actors c ! rq_actor q)]"
    using assms(1,2)
    by (simp_all add: execute_finally_def c1_def [symmetric] Let_def admission_hooks c1 detachAbortListener_def
        clearDeadline_def res_def q_def finishing_def finished_actor_def count_rejected_def)
qed

text \<open>The request at the end: answered, its outcome recorded.\<close>

definition answered :: "'v pending \<Rightarrow> 'v pending \<Rightarrow> bool" where
  "answered q q' \<longleftrightarrow> rq_actor q' = rq_actor q \<and> rq_started q' = rq_started q \<and> rq_settled q' = rq_settled q \<and>
     rq_callerSettled q' \<and> length (rq_answers q') = 1 \<and> rq_admission q' = rq_admission q \<and> rq_stage q' = rq_stage q \<and>
     rq_cancelled q' = rq_cancelled q \<and> rq_inFlightError q' = rq_inFlightError q"

lemma finished_inv:
  assumes inv: "coordinator_inv P c" and r: "r < length (co_requests c)"
    and q: "rq_started (co_requests c ! r)" "\<not> rq_settled (co_requests c ! r)"
    and lease: "lease \<noteq> None \<Longrightarrow> lease = ad_waiter (rq_admission (co_requests c ! r)) \<and>
       rq_stage (co_requests c ! r) = In_callback"
    and q1: "answered (co_requests c ! r) q1"
    and c1: "co_gate c1 = co_gate c" "co_requests c1 = (co_requests c)[r := q1]" "co_actors c1 = co_actors c"
  shows "coordinator_inv P (execute_finally lease r now c1)"
proof -
  let ?q = "co_requests c ! r" and ?c = "execute_finally lease r now c1"
  let ?a = "rq_actor ?q"
  let ?x = "co_actors c ! ?a"
  let ?g = "released lease (co_gate c)"
  define res where "res = onSettled (rq_admission ?q) ?g"
  have an: "rq_actor q1 = ?a" "rq_started q1" "\<not> rq_settled q1" "rq_callerSettled q1" "length (rq_answers q1) = 1"
    "rq_admission q1 = rq_admission ?q" "rq_cancelled q1 = rq_cancelled ?q" "rq_inFlightError q1 = rq_inFlightError ?q"
    using q1 q by (simp_all add: answered_def)
  have loc: "located (co_actors c) r ?q" by (rule coordinator_inv_parts(4) [OF inv r])
  have a: "?a < length (co_actors c)" using loc by (simp add: located_def)
  have ok: "request_ok ?q" by (rule coordinator_inv_parts(2) [OF inv r])
  have xok: "actor_ok P ?x" by (rule coordinator_inv_parts(5) [OF inv a])
  note S = coordinator_inv_parts(1) [OF inv]
  have r1: "r < length (co_requests c1)" and a1: "rq_actor (co_requests c1 ! r) < length (co_actors c1)"
    using r a an by (simp_all add: c1)
  note n = execute_finally_normal [OF r1 a1, of lease now]
  let ?ok = "tm_outcome (rq_timing q1) = Some Fulfilled"
  let ?q' = "finishing now (fst res) q1"
  have n1: "co_gate ?c = snd res" "co_requests ?c = (co_requests c)[r := ?q']"
    "co_actors ?c = (co_actors c)[?a := finished_actor ?ok r ?x]"
    using n r an by (simp_all add: c1 res_def)
  have st: "rq_stage ?q \<noteq> Not_started" "rq_stage ?q \<noteq> Finished" using ok q by (simp_all add: request_ok_def)
  have view: "gate_view ?c = gate_apply (ao_gate P) (Finish r) ((gate_view c)\<lparr>gs_gate := ?g\<rparr>)"
    unfolding gate_view_def n1(1,2)
    using r by (simp add: res_def case_prod_beta put_admission_def map_update finishing_fields)
  have mid: "system_inv (ao_gate P) ((gate_view c)\<lparr>gs_gate := ?g\<rparr>)"
  proof (cases lease)
    case None
    then show ?thesis using S by (simp add: released_def gate_view_def)
  next
    case (Some w)
    have w: "ad_waiter (rq_admission ?q) = Some w" using lease Some by auto
    have t: "touches w (gs_gate (gate_view c)) ?g" using release_touches Some by (simp add: released_def)
    have "gate_inv ?g"
      using release_inv system_inv_parts(1) [OF S] owned_waiter(1) [OF inv r w] Some by (simp add: released_def)
    then show ?thesis by (rule touches_system_inv [OF S t])
  qed
  have others: "g_waiter (snd res) v = g_waiter (co_gate c) v"
    if "s < length (co_requests c)" "s \<noteq> r" "ad_waiter (rq_admission (co_requests c ! s)) = Some v" for s v
  proof -
    have ne: "ad_waiter (rq_admission ?q) \<noteq> Some v" using owned_waiter(3) [OF inv r _ that(1,3)] that(2) by blast
    have "g_waiter ?g v = g_waiter (co_gate c) v"
    proof (cases lease)
      case None
      then show ?thesis by (simp add: released_def)
    next
      case (Some w)
      then have "w \<noteq> v" using lease ne by auto
      then show ?thesis using release_touches [of w "co_gate c"] Some by (simp add: released_def touches_def)
    qed
    moreover have "g_waiter (snd res) v = g_waiter ?g v"
      using ne settle_touches unfolding touches_def
      by (auto simp: res_def onSettled_def Let_def return_reservation_def split: option.split)
    ultimately show ?thesis by simp
  qed
  have kind: "ad_kind (fst res) = ad_kind (rq_admission ?q)" "ad_waiter (fst res) = None" "\<not> accepted_shared (fst res)"
    by (cases "ad_kind (rq_admission ?q)"; simp add: res_def onSettled_def Let_def accepted_shared_def)+
  show ?thesis
  proof (rule coordinator_inv_update [OF inv r refl refl refl n1(2,3)])
    show "system_inv (ao_gate P) (gate_view ?c)"
      unfolding view by (rule gate_apply_inv [OF mid]) (use r in simp)
    show "place_ok (co_gate ?c) (co_requests c ! s)" if "s < length (co_requests c)" "s \<noteq> r" for s
      unfolding n1(1) by (rule place_ok_frame [OF coordinator_inv_parts(3) [OF inv that(1)] others [OF that]])
    show "request_ok ?q'"
      using ok q st an kind by (simp add: request_ok_def finishing_fields)
    show "place_ok (co_gate ?c) ?q'"
      using an kind by (simp add: place_ok_def finishing_fields)
    have act: "r \<notin> set (ac_queue ?x)" "ac_active ?x = Some r" using loc q by (simp_all add: located_def)
    then have "ac_quarantinedUntilSettled ?x = None \<or> ac_quarantinedUntilSettled ?x = Some r"
      using xok by (cases "ac_quarantinedUntilSettled ?x") (auto simp: actor_ok_def)
    with act show "actor_step P r ?q ?q' ?x (finished_actor ?ok r ?x)"
      using xok an q kind
      by (auto simp: actor_step_def actor_ok_def finishing_fields finished_actor_def Let_def)
  qed
qed

section \<open>Resuming execute\<close>

lemma execute_catch_normal:
  assumes "r < length (co_requests c)"
  shows "\<exists>q1. co_requests (execute_catch e r c) = (co_requests c)[r := q1] \<and>
      (request_ok (co_requests c ! r) \<longrightarrow> answered (co_requests c ! r) q1)"
    "co_gate (execute_catch e r c) = co_gate c" "co_actors (execute_catch e r c) = co_actors c"
  by (auto simp: execute_catch_def Let_def answered_def settle_promise_def request_ok_def split: option.split
      intro!: exI)

lemma execute_resolve_normal:
  "\<exists>q1. co_requests (execute_resolve v r c) = (co_requests c)[r := q1] \<and>
      (request_ok (co_requests c ! r) \<longrightarrow> answered (co_requests c ! r) q1)"
  "co_gate (execute_resolve v r c) = co_gate c" "co_actors (execute_resolve v r c) = co_actors c"
  by (auto simp: execute_resolve_def Let_def answered_def settle_promise_def request_ok_def split: option.split
      intro!: exI)

lemma admission_stage:
  assumes "admission_result r c = Some x"
  shows "rq_stage (co_requests c ! r) \<noteq> Not_started \<and> rq_stage (co_requests c ! r) \<noteq> Finished \<and>
     rq_stage (co_requests c ! r) \<noteq> In_callback"
  using assms by (auto simp: admission_result_def split: stage.splits)

lemma admitted_inv:
  assumes inv: "coordinator_inv P c" and r: "r < length (co_requests c)"
    and w: "admission_result r c = Some (Inr w)"
    and q': "rq_actor q' = rq_actor (co_requests c ! r)" "rq_started q' = rq_started (co_requests c ! r)"
      "rq_settled q' = rq_settled (co_requests c ! r)" "rq_callerSettled q' = rq_callerSettled (co_requests c ! r)"
      "rq_answers q' = rq_answers (co_requests c ! r)" "rq_admission q' = rq_admission (co_requests c ! r)"
      "rq_stage q' = In_callback" "rq_cancelled q' = rq_cancelled (co_requests c ! r)"
      "rq_inFlightError q' = rq_inFlightError (co_requests c ! r)"
  shows "coordinator_inv P (c\<lparr>co_requests := (co_requests c)[r := q']\<rparr>)"
proof -
  let ?q = "co_requests c ! r" and ?c = "c\<lparr>co_requests := (co_requests c)[r := q']\<rparr>"
  let ?x = "co_actors c ! rq_actor ?q"
  have loc: "located (co_actors c) r ?q" by (rule coordinator_inv_parts(4) [OF inv r])
  have ok: "request_ok ?q" by (rule coordinator_inv_parts(2) [OF inv r])
  have pl: "place_ok (co_gate c) ?q" by (rule coordinator_inv_parts(3) [OF inv r])
  have a: "rq_actor ?q < length (co_actors c)" using loc by (simp add: located_def)
  have st: "rq_started ?q" "\<not> rq_settled ?q" using ok admission_stage [OF w] by (auto simp: request_ok_def)
  have wt: "ad_waiter (rq_admission ?q) = Some w" "w_promise (g_waiter (co_gate c) w) = Lease_granted"
    using w by (auto simp: admission_result_def lease_of_def split: stage.splits option.splits lease_promise.splits)
  have view: "gate_view ?c = gate_view c"
    using r q'(6) by (simp add: gate_view_def map_update list_update_same_conv)
  show ?thesis
  proof (rule coordinator_inv_update [OF inv r refl refl refl])
    show "co_requests ?c = (co_requests c)[r := q']" "co_actors ?c = (co_actors c)[rq_actor ?q := ?x]" by simp_all
    show "system_inv (ao_gate P) (gate_view ?c)" unfolding view by (rule coordinator_inv_parts(1) [OF inv])
    show "place_ok (co_gate ?c) (co_requests c ! s)" if "s < length (co_requests c)" "s \<noteq> r" for s
      using coordinator_inv_parts(3) [OF inv that(1)] by simp
    show "request_ok q'" using ok st q' by (auto simp: request_ok_def)
    show "place_ok (co_gate ?c) q'" using pl st wt q' by (simp add: place_ok_def)
    show "actor_step P r ?q q' ?x ?x"
      using loc st q' coordinator_inv_parts(5) [OF inv a] by (auto simp: actor_step_def located_def)
  qed
qed

lemma resume_admission_inv:
  assumes inv: "coordinator_inv P c" and r: "r < length (co_requests c)"
  shows "coordinator_inv P (resume_admission r now c)"
proof (cases "admission_result r c")
  case None
  with inv show ?thesis by (simp add: resume_admission_def)
next
  case (Some x)
  have ok: "request_ok (co_requests c ! r)" by (rule coordinator_inv_parts(2) [OF inv r])
  have st: "rq_started (co_requests c ! r)" "\<not> rq_settled (co_requests c ! r)"
    using ok admission_stage [OF Some] by (auto simp: request_ok_def)
  show ?thesis
  proof (cases x)
    case (Inl e)
    obtain q1 where q1: "co_requests (execute_catch e r c) = (co_requests c)[r := q1]" "answered (co_requests c ! r) q1"
      using execute_catch_normal(1) [OF r, of e] ok by blast
    have "coordinator_inv P (execute_finally None r now (execute_catch e r c))"
      by (rule finished_inv [OF inv r st _ q1(2) _ q1(1)]) (simp_all add: execute_catch_normal [OF r])
    then show ?thesis using Some Inl by (simp add: resume_admission_def)
  next
    case (Inr w)
    let ?q = "co_requests c ! r"
    let ?q' = "?q\<lparr>rq_stage := In_callback, rq_timing := (rq_timing ?q)\<lparr>tm_admittedAt := Some now,
        tm_admissionDelayMs := Some (now - (case tm_startedAt (rq_timing ?q) of Some x \<Rightarrow> x | None \<Rightarrow> now))\<rparr>\<rparr>"
    have "coordinator_inv P (c\<lparr>co_requests := (co_requests c)[r := ?q']\<rparr>)"
      by (rule admitted_inv [OF inv r Some [unfolded Inr]]) simp_all
    then show ?thesis using Some Inr by (simp add: resume_admission_def upd_request_def Let_def)
  qed
qed

lemma resume_callback_inv:
  assumes inv: "coordinator_inv P c" and r: "r < length (co_requests c)"
  shows "coordinator_inv P (resume_callback r result now c)"
proof (cases "rq_stage (co_requests c ! r) = In_callback")
  case False
  with inv show ?thesis by (simp add: resume_callback_def)
next
  case True
  have ok: "request_ok (co_requests c ! r)" by (rule coordinator_inv_parts(2) [OF inv r])
  have st: "rq_started (co_requests c ! r)" "\<not> rq_settled (co_requests c ! r)"
    using ok True by (auto simp: request_ok_def)
  have fin: "coordinator_inv P (execute_finally (lease_of r c) r now c1)"
    if h: "\<exists>q1. co_requests c1 = (co_requests c)[r := q1] \<and> answered (co_requests c ! r) q1"
      "co_gate c1 = co_gate c" "co_actors c1 = co_actors c" for c1
  proof -
    obtain q1 where q1: "co_requests c1 = (co_requests c)[r := q1]" "answered (co_requests c ! r) q1" using h(1) by blast
    show ?thesis
      by (rule finished_inv [OF inv r st _ q1(2) h(2) q1(1) h(3)]) (use True in \<open>simp add: lease_of_def\<close>)
  qed
  have catch: "coordinator_inv P (execute_finally (lease_of r c) r now (execute_catch e r c))" for e
    by (rule fin) (use execute_catch_normal [OF r, of e] ok in auto)
  have ful: "coordinator_inv P (execute_finally (lease_of r c) r now (execute_resolve v r c))" for v
    by (rule fin) (use execute_resolve_normal [of v r c] ok in auto)
  show ?thesis
    using True catch ful by (simp add: resume_callback_def Let_def split: sum.split option.split)
qed

section \<open>A turn of an actor\<close>

lemma begin_outcome_inv:
  assumes inv: "coordinator_inv P c" and r: "r < length (co_requests c)"
    and st: "rq_started (co_requests c ! r)" "\<not> rq_settled (co_requests c ! r)"
  shows "coordinator_inv P (begin_outcome e r now c)"
proof (cases e)
  case (Some x)
  obtain q1 where q1: "co_requests (execute_catch x r c) = (co_requests c)[r := q1]" "answered (co_requests c ! r) q1"
    using execute_catch_normal(1) [OF r, of x] coordinator_inv_parts(2) [OF inv r] by blast
  have "coordinator_inv P (execute_finally None r now (execute_catch x r c))"
    by (rule finished_inv [OF inv r st _ q1(2) _ q1(1)]) (simp_all add: execute_catch_normal [OF r])
  then show ?thesis using Some by (simp add: begin_outcome_def)
qed (simp add: begin_outcome_def inv)

lemma start_selected_request:
  assumes "r < length (co_requests c)"
  shows "rq_started (co_requests (start_selected P a r now c) ! r)"
    "rq_settled (co_requests (start_selected P a r now c) ! r) = rq_settled (co_requests c ! r)"
    "length (co_requests (start_selected P a r now c)) = length (co_requests c)"
  using assms by (simp_all add: start_selected_normal(2) [OF assms] beginning_fields)

lemma actor_drain_unfold:
  assumes "coordinator_inv P c" "a < length (co_actors c)"
  shows "actor_drain P a now c = (if ac_active (co_actors c ! a) \<noteq> None then c
    else let c1 = removeExpiredQueued a now c in
      case select_index P (ac_consecutive (co_actors c1 ! a)) now (co_requests c1) (ac_queue (co_actors c1 ! a)) of
        None \<Rightarrow> c1
      | Some r \<Rightarrow> let c2 = upd_actor a (\<lambda>x. x\<lparr>ac_queue := remove1 r (ac_queue x),
          ac_consecutive := recordSelection (rq_priority (co_requests c1 ! r)) (ac_consecutive x)\<rparr>) c1
        in begin_outcome (start_error P a r now c2) r now (start_selected P a r now c2))"
  by (simp add: actor_drain_def select_live_once [OF assms] selectNext_simps Let_def start_selected_def
      start_error_def case_prod_beta split: option.split)

lemma actor_drain_inv:
  assumes "coordinator_inv P c" "a < length (co_actors c)"
  shows "coordinator_inv P (actor_drain P a now c)"
proof -
  note e = removeExpiredQueued_inv [OF assms, of now]
  have a: "a < length (co_actors (removeExpiredQueued a now c))" using e assms(2) by simp
  show ?thesis
  proof (cases "ac_active (co_actors c ! a)")
    case None
    let ?c1 = "removeExpiredQueued a now c"
    have idle: "ac_active (co_actors ?c1 ! a) = None" using e(4) None by simp
    show ?thesis
    proof (cases "select_index P (ac_consecutive (co_actors ?c1 ! a)) now (co_requests ?c1) (ac_queue (co_actors ?c1 ! a))")
      case n: None
      with None e(1) show ?thesis unfolding actor_drain_unfold [OF assms] by (simp add: Let_def)
    next
      case (Some r)
      let ?c2 = "upd_actor a (\<lambda>x. x\<lparr>ac_queue := remove1 r (ac_queue x),
          ac_consecutive := recordSelection (rq_priority (co_requests ?c1 ! r)) (ac_consecutive x)\<rparr>) ?c1"
      have q: "r < length (co_requests ?c2)" "\<not> rq_settled (co_requests ?c2 ! r)"
        using queued_request(1,4) [OF e(1) a select_index_in [OF Some]] by simp_all
      have "coordinator_inv P (begin_outcome (start_error P a r now ?c2) r now (start_selected P a r now ?c2))"
        by (rule begin_outcome_inv [OF start_selected_inv [OF e(1) a idle select_index_in [OF Some]]])
          (use q in \<open>simp_all add: start_selected_request [OF q(1)]\<close>)
      with Some None show ?thesis unfolding actor_drain_unfold [OF assms] by (simp add: Let_def)
    qed
  qed (simp add: actor_drain_unfold [OF assms] assms)
qed

lemma set_drainScheduled_inv:
  assumes inv: "coordinator_inv P c"
  shows "coordinator_inv P (upd_actor a (ac_drainScheduled_update (\<lambda>_. b)) c)"
proof -
  let ?c = "upd_actor a (ac_drainScheduled_update (\<lambda>_. b)) c"
  have same: "ac_kind (co_actors ?c ! d) = ac_kind (co_actors c ! d)" "ac_queue (co_actors ?c ! d) = ac_queue (co_actors c ! d)"
    "ac_active (co_actors ?c ! d) = ac_active (co_actors c ! d)"
    "ac_completedCount (co_actors ?c ! d) = ac_completedCount (co_actors c ! d)"
    "ac_rejectedCount (co_actors ?c ! d) = ac_rejectedCount (co_actors c ! d)"
    "ac_quarantinedUntilSettled (co_actors ?c ! d) = ac_quarantinedUntilSettled (co_actors c ! d)" for d
  proof -
    have e: "co_actors ?c ! d = (if d = a \<and> a < length (co_actors c)
        then ac_drainScheduled_update (\<lambda>_. b) (co_actors c ! d) else co_actors c ! d)"
    proof (cases "a < length (co_actors c)")
      case True
      then show ?thesis by (cases "d = a") simp_all
    next
      case False
      then show ?thesis by (simp add: list_update_beyond)
    qed
    show "ac_kind (co_actors ?c ! d) = ac_kind (co_actors c ! d)" "ac_queue (co_actors ?c ! d) = ac_queue (co_actors c ! d)"
      "ac_active (co_actors ?c ! d) = ac_active (co_actors c ! d)"
      "ac_completedCount (co_actors ?c ! d) = ac_completedCount (co_actors c ! d)"
      "ac_rejectedCount (co_actors ?c ! d) = ac_rejectedCount (co_actors c ! d)"
      "ac_quarantinedUntilSettled (co_actors ?c ! d) = ac_quarantinedUntilSettled (co_actors c ! d)"
      unfolding e by simp_all
  qed
  have len: "length (co_actors ?c) = length (co_actors c)" and rq: "co_requests ?c = co_requests c"
    and g: "co_gate ?c = co_gate c" by simp_all
  have view: "gate_view ?c = gate_view c" by (simp add: gate_view_def)
  from inv show ?thesis
    unfolding coordinator_inv_def located_def refs_ok_def actor_ok_def view same len rq g .
qed

lemma actor_microtask_inv:
  assumes "coordinator_inv P c" "a < length (co_actors c)"
  shows "coordinator_inv P (actor_microtask P a now c)"
  using assms set_drainScheduled_inv [OF assms(1), of a False] by (simp add: actor_microtask_def actor_drain_inv)


end
