(* ===== verification/Actor_Invariant.thy ===== *)
theory Actor_Invariant
  imports Actor_Turns
begin

text \<open>Enqueue keeps the invariant, and with it every event of the coordinator.\<close>

section \<open>A new request\<close>

lemma nth_append_one: "s < length xs \<Longrightarrow> (xs @ [x]) ! s = xs ! s" "(xs @ [x]) ! length xs = x"
  by (simp_all add: nth_append)

lemma coordinator_inv_append:
  assumes inv: "coordinator_inv P c" and a: "a < length (co_actors c)" and x: "x = co_actors c ! a"
    and c': "co_requests c' = co_requests c @ [q']" "co_actors c' = (co_actors c)[a := x']"
    and gate: "system_inv (ao_gate P) (gate_view c')"
    and others: "\<And>s. s < length (co_requests c) \<Longrightarrow> place_ok (co_gate c') (co_requests c ! s)"
    and mine: "request_ok q'" "place_ok (co_gate c') q'" "rq_actor q' = a" "ad_kind (rq_admission q') = ac_kind x"
      "\<not> rq_started q'"
    and x': "actor_ok P x'" "ac_kind x' = ac_kind x" "ac_active x' = ac_active x"
      "set (ac_queue x') = set (ac_queue x) \<union> (if rq_settled q' then {} else {length (co_requests c)})"
      "ac_completedCount x' + ac_rejectedCount x' = ac_completedCount x + ac_rejectedCount x + (if rq_settled q' then 1 else 0)"
  shows "coordinator_inv P c'"
proof -
  let ?n = "length (co_requests c)"
  have R: "refs_ok (co_requests c) b (co_actors c ! b)" if "b < length (co_actors c)" for b
    by (rule coordinator_inv_parts(6) [OF inv that])
  have small: "s < ?n" if "b < length (co_actors c)" "s \<in> set (ac_queue (co_actors c ! b)) \<or> ac_active (co_actors c ! b) = Some s" for s b
    using R [OF that(1)] that(2) unfolding refs_ok_def by blast
  have at: "co_actors c' ! b = (if b = a then x' else co_actors c ! b)" for b using a by (simp add: c' nth_list_update)
  have old: "located (co_actors c') s (co_requests c ! s)" if s: "s < ?n" for s
  proof -
    have l: "located (co_actors c) s (co_requests c ! s)" by (rule coordinator_inv_parts(4) [OF inv s])
    have m: "s \<in> set (ac_queue x') \<longleftrightarrow> s \<in> set (ac_queue x)" using x'(4) s by auto
    have len: "length (co_actors c') = length (co_actors c)" by (simp add: c'(2))
    show ?thesis
    proof (cases "rq_actor (co_requests c ! s) = a")
      case True
      have "co_actors c' ! rq_actor (co_requests c ! s) = x'" using at True by simp
      then show ?thesis using l m x' x True unfolding located_def len by simp
    next
      case False
      have "co_actors c' ! rq_actor (co_requests c ! s) = co_actors c ! rq_actor (co_requests c ! s)" using at False by simp
      then show ?thesis using l unfolding located_def len by simp
    qed
  qed
  have new: "located (co_actors c') ?n q'"
    using small [OF a] mine x' x a by (auto simp: located_def c'(2) at)
  have ref: "refs_ok (co_requests c') b (co_actors c' ! b)" if b: "b < length (co_actors c)" for b
  proof -
    have len: "length (filter (\<lambda>q. rq_actor q = b \<and> rq_settled q) (co_requests c')) =
        length (filter (\<lambda>q. rq_actor q = b \<and> rq_settled q) (co_requests c)) + (if a = b \<and> rq_settled q' then 1 else 0)"
      using mine(3) by (simp add: c'(1))
    have mem: "s < length (co_requests c') \<and> rq_actor (co_requests c' ! s) = b"
      if "s \<in> set (ac_queue (co_actors c' ! b)) \<or> ac_active (co_actors c' ! b) = Some s" for s
    proof (cases "s \<in> set (ac_queue (co_actors c ! b)) \<or> ac_active (co_actors c ! b) = Some s")
      case True
      with R [OF b] have "s < ?n \<and> rq_actor (co_requests c ! s) = b" unfolding refs_ok_def by blast
      then show ?thesis by (simp add: c'(1) nth_append)
    next
      case False
      then have "b = a \<and> s = ?n" using that at x' x by (auto split: if_splits)
      then show ?thesis using mine(3) by (simp add: c'(1))
    qed
    have "ac_completedCount (co_actors c' ! b) + ac_rejectedCount (co_actors c' ! b) =
        length (filter (\<lambda>q. rq_actor q = b \<and> rq_settled q) (co_requests c'))"
      unfolding len at using R [OF b] x'(5) x by (auto simp: refs_ok_def)
    with mem show ?thesis unfolding refs_ok_def by blast
  qed
  have "request_ok (co_requests c' ! s) \<and> place_ok (co_gate c') (co_requests c' ! s) \<and> located (co_actors c') s (co_requests c' ! s)"
    if "s < length (co_requests c')" for s
  proof (cases "s = ?n")
    case True
    with mine new show ?thesis by (simp add: c'(1))
  next
    case False
    with that have "s < ?n" by (simp add: c'(1))
    with others old coordinator_inv_parts(2) [OF inv] show ?thesis by (simp add: c'(1) nth_append)
  qed
  moreover have "actor_ok P (co_actors c' ! b)" if "b < length (co_actors c)" for b
    using at x'(1) coordinator_inv_parts(5) [OF inv that] by simp
  ultimately show ?thesis using gate ref by (simp add: coordinator_inv_def c'(2))
qed

section \<open>Enqueue\<close>

lemma sched_awake [simp]: "actor_awake (sched x)"
  by (auto simp: actor_awake_def sched_def)

lemma new_admission_simps:
  "ad_waiter (new_admission k) = None" "\<not> accepted_shared (new_admission k)" "ad_kind (new_admission k) = k"
  by (simp_all add: new_admission_def accepted_shared_def)

lemma onAbandoned_new: "onAbandoned (new_admission k) g = (new_admission k, g)"
  by (cases k) (simp_all add: onAbandoned_def new_admission_def return_reservation_def)

lemma onAccepted_new: "onAccepted L (new_admission k) g =
   (if queueDepth g < int (gl_maxQueueSize L)
    then (case k of
        Exclusive \<Rightarrow> (None, (new_admission k)\<lparr>ad_waiter := Some (g_sequence g + 1)\<rparr>, add_waiter Exclusive g)
      | Shared \<Rightarrow> (None, (new_admission k)\<lparr>ad_accepted := True\<rparr>,
          g\<lparr>g_acceptedSharedReservations := g_acceptedSharedReservations g + 1,
            g_pendingSharedReservations := g_pendingSharedReservations g + 1\<rparr>))
    else (Some Queue_full, new_admission k, g\<lparr>g_rejectedCount := g_rejectedCount g + 1\<rparr>))"
  by (cases k) (simp_all add: onAccepted_def reserve_unfold assertReservationCapacity_def new_admission_def)

text \<open>The four ways a request can enter: refused at a full queue, dropped at once, refused by the gate,
  accepted.\<close>

lemma enqueue_settled_inv:
  assumes inv: "coordinator_inv P c" and a: "a < length (co_actors c)"
    and c': "co_requests c' = co_requests c @ [q']" "co_actors c' = (co_actors c)[a := x']"
      "co_gate c' = co_gate c \<or> co_gate c' = (co_gate c)\<lparr>g_rejectedCount := n\<rparr>"
    and q': "request_ok q'" "rq_settled q'" "\<not> rq_started q'" "rq_actor q' = a"
      "rq_admission q' = new_admission (ac_kind (co_actors c ! a))"
    and x': "ac_kind x' = ac_kind (co_actors c ! a)" "ac_queue x' = ac_queue (co_actors c ! a)"
      "ac_active x' = ac_active (co_actors c ! a)"
      "ac_quarantinedUntilSettled x' = ac_quarantinedUntilSettled (co_actors c ! a)"
      "ac_completedCount x' = ac_completedCount (co_actors c ! a)"
      "ac_rejectedCount x' = ac_rejectedCount (co_actors c ! a) + 1"
  shows "coordinator_inv P c'"
proof (rule coordinator_inv_append [OF inv a refl c'(1,2)])
  note S = coordinator_inv_parts(1) [OF inv]
  have view: "gate_view c' = (gate_apply (ao_gate P) (Create_admission (ac_kind (co_actors c ! a))) (gate_view c))\<lparr>gs_gate := co_gate c'\<rparr>"
    by (simp add: gate_view_def c'(1) q'(5))
  have "system_inv (ao_gate P) (gate_apply (ao_gate P) (Create_admission (ac_kind (co_actors c ! a))) (gate_view c))"
    by (rule gate_apply_inv [OF S]) simp
  from this reject_inv [OF this, of n] show "system_inv (ao_gate P) (gate_view c')"
    unfolding view using c'(3) by (auto simp: gate_view_def)
  show "place_ok (co_gate c') (co_requests c ! s)" if "s < length (co_requests c)" for s
    using coordinator_inv_parts(3) [OF inv that] c'(3) by (auto simp: place_ok_def)
  show "place_ok (co_gate c') q'"
    using q' by (auto simp: place_ok_def new_admission_def request_ok_def)
  show "actor_ok P x'" using coordinator_inv_parts(5) [OF inv a] x' by (simp add: actor_ok_def)
qed (use q' x' in \<open>simp_all add: new_admission_def\<close>)

lemma enqueue_accepted_inv:
  assumes inv: "coordinator_inv P c" and a: "a < length (co_actors c)"
    and acc: "onAccepted (ao_gate P) (new_admission (ac_kind (co_actors c ! a))) (co_gate c) = (None, ad, g')"
    and room: "length (ac_queue (co_actors c ! a)) < ao_maxQueueSize P"
    and c': "co_requests c' = co_requests c @ [q']" "co_actors c' = (co_actors c)[a := x']" "co_gate c' = g'"
    and q': "request_ok q'" "\<not> rq_settled q'" "\<not> rq_started q'" "rq_actor q' = a" "rq_admission q' = ad"
    and x': "ac_kind x' = ac_kind (co_actors c ! a)" "ac_queue x' = ac_queue (co_actors c ! a) @ [length (co_requests c)]"
      "ac_active x' = ac_active (co_actors c ! a)"
      "ac_quarantinedUntilSettled x' = ac_quarantinedUntilSettled (co_actors c ! a)"
      "ac_completedCount x' = ac_completedCount (co_actors c ! a)"
      "ac_rejectedCount x' = ac_rejectedCount (co_actors c ! a)"
  shows "coordinator_inv P c'"
proof (rule coordinator_inv_append [OF inv a refl c'(1,2)])
  let ?k = "ac_kind (co_actors c ! a)" and ?n = "length (co_requests c)"
  note S = coordinator_inv_parts(1) [OF inv]
  let ?s1 = "gate_apply (ao_gate P) (Create_admission ?k) (gate_view c)"
  have s1: "system_inv (ao_gate P) ?s1" by (rule gate_apply_inv [OF S]) simp
  have view: "gate_view c' = gate_apply (ao_gate P) (Accept ?n) ?s1"
    using acc by (simp add: gate_view_def c' q'(5) put_admission_def nth_append list_update_append)
  show "system_inv (ao_gate P) (gate_view c')"
    unfolding view by (rule gate_apply_inv [OF s1]) simp
  have waiters: "g_waiter g' w = g_waiter (co_gate c) w" if "gate_waiter (co_gate c) w" for w
    using acc that by (auto simp: onAccepted_new add_waiter_fields gate_waiter_def split: if_splits waiter_kind.splits)
  show "place_ok (co_gate c') (co_requests c ! s)" if "s < length (co_requests c)" for s
    unfolding c'(3)
    by (rule place_ok_frame [OF coordinator_inv_parts(3) [OF inv that] waiters [OF owned_waiter(1) [OF inv that]]])
  have "ad_kind ad = ?k" "ad_waiter ad = None \<or> ad_waiter ad = Some (g_sequence (co_gate c) + 1) \<and>
      g_waiter g' (g_sequence (co_gate c) + 1) = new_waiter Exclusive"
    using acc unfolding onAccepted_new
    by (cases ?k; auto simp: add_waiter_fields new_admission_def split: if_splits)+
  then show "place_ok (co_gate c') q'" "ad_kind (rq_admission q') = ?k"
    using q' by (auto simp: place_ok_def request_ok_def new_waiter_def c'(3))
  have "?n \<notin> set (ac_queue (co_actors c ! a))"
    using coordinator_inv_parts(6) [OF inv a] by (auto simp: refs_ok_def)
  then show "actor_ok P x'" using coordinator_inv_parts(5) [OF inv a] x' room by (simp add: actor_ok_def)
qed (use q' x' in simp_all)

text \<open>The actor a request is sent to stays awake, the others are not touched.\<close>

definition entered :: "actor_options \<Rightarrow> nat \<Rightarrow> 'v coordinator \<Rightarrow> 'v coordinator \<Rightarrow> bool" where
  "entered P a c c' \<longleftrightarrow> coordinator_inv P c' \<and> (\<exists>x'. co_actors c' = (co_actors c)[a := x'] \<and>
     (actor_awake (co_actors c ! a) \<longrightarrow> actor_awake x')) \<and> (\<exists>q'. co_requests c' = co_requests c @ [q'])"

lemma enteredI:
  "coordinator_inv P c' \<Longrightarrow> co_actors c' = (co_actors c)[a := x'] \<Longrightarrow>
     actor_awake (co_actors c ! a) \<longrightarrow> actor_awake x' \<Longrightarrow>
     co_requests c' = co_requests c @ [q'] \<Longrightarrow> entered P a c c'"
  by (auto simp: entered_def)

lemma enqueue_entered:
  assumes inv: "coordinator_inv P c" and a: "a < length (co_actors c)"
  shows "entered P a c (enqueue P a p d signal now c)"
proof -
  let ?n = "length (co_requests c)" and ?x = "co_actors c ! a"
  let ?k = "ac_kind ?x"
  define q0 :: "'a pending" where "q0 = new_request a ?k p d now"
  define c0 where "c0 = c\<lparr>co_requests := co_requests c @ [q0]\<rparr>"
  show ?thesis
  proof (cases "length (ac_queue ?x) \<ge> ao_maxQueueSize P")
    case True
    have e: "enqueue P a p d signal now c = enqueue_full a ?n now c0"
      using True by (simp add: enqueue_def Let_def c0_def q0_def)
    have act: "co_actors (enqueue_full a ?n now c0) = (co_actors c)[a :=
        ?x\<lparr>ac_rejectedCount := ac_rejectedCount ?x + 1, ac_lastRejected := Some ?n\<rparr>]"
      by (simp add: enqueue_full_def count_rejected_def c0_def)
    have "coordinator_inv P (enqueue_full a ?n now c0)"
      by (rule enqueue_settled_inv [OF inv a, where q' = "settle_promise (Inl Queue_full)
            (reject_timing now (q0\<lparr>rq_settled := True, rq_callerSettled := True\<rparr>))"
            and x' = "?x\<lparr>ac_rejectedCount := ac_rejectedCount ?x + 1, ac_lastRejected := Some ?n\<rparr>"])
        (simp_all add: enqueue_full_def count_rejected_def c0_def q0_def list_update_append
          new_request_def request_ok_def settle_promise_def reject_timing_def new_admission_def accepted_shared_def)
    then show ?thesis unfolding e
      by (rule enteredI [OF _ act]) (simp_all add: actor_awake_def enqueue_full_def c0_def list_update_append count_rejected_def)
  next
    case False
    define q1 where "q1 = q0\<lparr>rq_sequence := ac_sequence ?x + 1, rq_listening := (signal \<noteq> No_signal)\<rparr>"
    define x1 where "x1 = ?x\<lparr>ac_sequence := ac_sequence ?x + 1\<rparr>"
    define c2 where "c2 = upd_request ?n (\<lambda>q. q\<lparr>rq_sequence := ac_sequence ?x + 1,
                     rq_listening := (signal \<noteq> No_signal)\<rparr>) (upd_actor a (\<lambda>x. x\<lparr>ac_sequence := ac_sequence x + 1\<rparr>) c0)"
    have c2: "co_requests c2 = co_requests c @ [q1]" "co_actors c2 = (co_actors c)[a := x1]" "co_gate c2 = co_gate c"
      by (simp_all add: c2_def c0_def list_update_append q1_def x1_def)
    have q1: "rq_actor q1 = a" "rq_admission q1 = new_admission ?k" "\<not> rq_started q1" "\<not> rq_settled q1"
      "rq_stage q1 = Not_started" "rq_answers q1 = []" "\<not> rq_callerSettled q1" "\<not> rq_cancelled q1"
      "rq_inFlightError q1 = None"
      by (simp_all add: q1_def q0_def new_request_def)
    have drop: "entered P a c (drop_queued mark e ?n now c2)" for mark e
    proof -
      have r: "?n < length (co_requests c2)" "rq_actor (co_requests c2 ! ?n) < length (co_actors c2)"
        using a q1 by (simp_all add: c2)
      have not_in: "?n \<notin> set (ac_queue ?x)" using coordinator_inv_parts(6) [OF inv a] by (auto simp: refs_ok_def)
      note n = drop_queued_normal [OF r, of mark e now]
      have act: "co_actors (drop_queued mark e ?n now c2) = (co_actors c)[a := dropping ?n x1]"
        using a q1 by (simp add: n c2)
      have "coordinator_inv P (drop_queued mark e ?n now c2)"
        by (rule enqueue_settled_inv [OF inv a, where q' = "dropped mark e now (new_admission ?k) q1"
              and x' = "dropping ?n x1"])
          (use a q1 not_in in \<open>simp_all add: n c2 onAbandoned_new list_update_append dropped_fields request_ok_def
             new_admission_simps dropping_def x1_def remove1_idem\<close>)
      then show ?thesis by (rule enteredI [OF _ act]) (simp_all add: dropping_def n c2 list_update_append)
    qed
    have e: "enqueue P a p d signal now c = (case signal of
          Aborted_signal reason \<Rightarrow> handleAbort ?n reason now c2
        | _ \<Rightarrow>
          if (case d of None \<Rightarrow> False | Some d \<Rightarrow> d \<le> now) then handleDeadline ?n now c2
          else case admission_accept P ?n c2 of
              (Some e, c3) \<Rightarrow> enqueue_refused a ?n e now c3
            | (None, c3) \<Rightarrow> actor_scheduleDrain a
                (deadline_tick ?n now (upd_actor a (\<lambda>x. x\<lparr>ac_queue := ac_queue x @ [?n]\<rparr>) c3)))"
      by (simp only: enqueue_def Let_def c2_def c0_def q0_def False if_False)
    have abort: "entered P a c (handleAbort ?n reason now c2)" for reason
      using drop q1 by (simp add: handleAbort_def Let_def c2)
    have dead: "entered P a c (handleDeadline ?n now c2)"
      using drop q1 by (simp add: handleDeadline_def Let_def c2)
    have rest: "entered P a c (case admission_accept P ?n c2 of
              (Some e, c3) \<Rightarrow> enqueue_refused a ?n e now c3
            | (None, c3) \<Rightarrow> actor_scheduleDrain a
                (deadline_tick ?n now (upd_actor a (\<lambda>x. x\<lparr>ac_queue := ac_queue x @ [?n]\<rparr>) c3)))"
      if live: "\<not> (case d of None \<Rightarrow> False | Some d \<Rightarrow> d \<le> now)"
    proof -
      obtain e ad g' where acc: "onAccepted (ao_gate P) (new_admission ?k) (co_gate c) = (e, ad, g')" by (rule prod_cases3)
      define c3 where "c3 = upd_request ?n (rq_admission_update (\<lambda>_. ad)) (c2\<lparr>co_gate := g'\<rparr>)"
      have ae: "admission_accept P ?n c2 = (e, c3)"
        using acc q1(2) by (simp add: admission_accept_def c2 c3_def)
      define q3 where "q3 = rq_admission_update (\<lambda>_. ad) q1"
      have c3: "co_requests c3 = co_requests c @ [q3]" "co_actors c3 = (co_actors c)[a := x1]" "co_gate c3 = g'"
        by (simp_all add: c3_def c2 list_update_append q3_def)
      have q3: "rq_actor q3 = a" "rq_admission q3 = ad" "\<not> rq_started q3" "\<not> rq_settled q3"
        "rq_stage q3 = Not_started" "rq_answers q3 = []" "\<not> rq_callerSettled q3" "\<not> rq_cancelled q3"
        "rq_inFlightError q3 = None" "rq_deadlineAt q3 = d"
        using q1 by (simp_all add: q3_def) (simp add: q1_def q0_def new_request_def)
      show ?thesis
      proof (cases e)
        case (Some err)
        then have ad: "ad = new_admission ?k" and g': "g' = (co_gate c)\<lparr>g_rejectedCount := g_rejectedCount (co_gate c) + 1\<rparr>"
          using acc by (auto simp: onAccepted_new split: if_splits waiter_kind.splits)
        define q4 where "q4 = settle_promise (Inl err) (rq_admission_update (\<lambda>_. ad) (reject_timing now
          ((rq_listening_update (\<lambda>_. False) (rq_deadlineTimer_update (\<lambda>_. False) q3))\<lparr>rq_settled := True, rq_callerSettled := True\<rparr>)))"
        have q4: "rq_actor q4 = a" "rq_admission q4 = ad" "\<not> rq_started q4" "rq_settled q4" "rq_callerSettled q4"
          "rq_stage q4 = Not_started" "length (rq_answers q4) = 1" "rq_inFlightError q4 = None" "\<not> rq_cancelled q4"
          using q3 by (simp_all add: q4_def settle_promise_def reject_timing_def split: option.split)
        have adm: "rq_admission (reject_timing now q) = rq_admission q" for q :: "'a pending" by (simp add: reject_timing_def)
        have f: "co_requests (enqueue_refused a ?n err now c3) = co_requests c @ [q4]"
          "co_gate (enqueue_refused a ?n err now c3) = g'"
          "co_actors (enqueue_refused a ?n err now c3) = (co_actors c)[a := x1\<lparr>ac_rejectedCount := ac_rejectedCount x1 + 1,
             ac_lastRejected := Some ?n\<rparr>]"
          using a q3 by (simp_all add: enqueue_refused_def Let_def admission_hooks c3 detachAbortListener_def clearDeadline_def
              count_rejected_def list_update_append onAbandoned_new ad adm q4_def)
        have "coordinator_inv P (enqueue_refused a ?n err now c3)"
          by (rule enqueue_settled_inv [OF inv a f(1,3), where n = "g_rejectedCount (co_gate c) + 1"])
            (use q4 in \<open>simp_all add: f g' x1_def request_ok_def ad new_admission_simps\<close>)
        then have "entered P a c (enqueue_refused a ?n err now c3)"
          by (rule enteredI [OF _ f(3) _ f(1)]) (simp add: actor_awake_def x1_def)
        then show ?thesis by (simp add: ae Some)
      next
        case None
        define c4 where "c4 = upd_actor a (\<lambda>x. x\<lparr>ac_queue := ac_queue x @ [?n]\<rparr>) c3"
        have c4: "co_requests c4 = co_requests c @ [q3]" "co_gate c4 = g'"
          "co_actors c4 = (co_actors c)[a := x1\<lparr>ac_queue := ac_queue x1 @ [?n]\<rparr>]"
          using a by (simp_all add: c4_def c3)
        define q4 where "q4 = (if d = None then q3 else rq_deadlineTimer_update (\<lambda>_. True) q3)"
        have q4: "rq_actor q4 = a" "rq_admission q4 = ad" "\<not> rq_started q4" "\<not> rq_settled q4" "\<not> rq_callerSettled q4"
          "rq_stage q4 = Not_started" "rq_answers q4 = []" "rq_inFlightError q4 = None" "\<not> rq_cancelled q4"
          using q3 by (simp_all add: q4_def)
        have t: "deadline_tick ?n now c4 = upd_request ?n (\<lambda>_. q4) c4"
          using live q3 by (cases d) (simp_all add: deadline_tick_def Let_def c4_def c3 q4_def upd_request_def list_update_append)
        let ?c = "actor_scheduleDrain a (deadline_tick ?n now c4)"
        have f: "co_requests ?c = co_requests c @ [q4]" "co_gate ?c = g'"
          "co_actors ?c = (co_actors c)[a := sched (x1\<lparr>ac_queue := ac_queue x1 @ [?n]\<rparr>)]"
          using a by (simp_all only: scheduleDrain_simps t upd_request_simps c4) (simp_all add: list_update_append)
        have "coordinator_inv P ?c"
          by (rule enqueue_accepted_inv [OF inv a acc [unfolded None] _ f(1,3,2)])
            (use False q4 in \<open>simp_all add: x1_def request_ok_def\<close>)
        then have "entered P a c ?c" by (rule enteredI [OF _ f(3) _ f(1)]) simp
        then show ?thesis by (simp add: ae None c4_def)
      qed
    qed
    show ?thesis unfolding e using abort dead rest by (simp split: caller_signal.split)
  qed
qed

lemma enqueue_inv:
  "coordinator_inv P c \<Longrightarrow> a < length (co_actors c) \<Longrightarrow> coordinator_inv P (enqueue P a p d signal now c)"
  using enqueue_entered [of P c a p d signal now] unfolding entered_def by blast

section \<open>Every event\<close>

lemma co_apply_inv:
  assumes inv: "coordinator_inv P c" and en: "co_enabled e c"
  shows "coordinator_inv P (co_apply P e c)"
proof (cases e)
  case (Enqueue a p d s now)
  then show ?thesis using enqueue_inv [OF inv] en by simp
next
  case (Caller_abort r reason now)
  then show ?thesis using handleAbort_inv [OF inv] en by simp
next
  case (Deadline_timer r now)
  then show ?thesis using deadline_tick_inv [OF inv] en by simp
next
  case (Actor_turn a now)
  then show ?thesis using actor_microtask_inv [OF inv] en by simp
next
  case Gate_turn
  then show ?thesis using gate_turn_inv [OF inv] by simp
next
  case (Admission_settles r now)
  then show ?thesis using resume_admission_inv [OF inv] en by simp
next
  case (Callback_settles r v now)
  then show ?thesis using resume_callback_inv [OF inv] en by simp
qed

interpretation coordinator: event_system co_enabled "co_apply P" "coordinator_inv P" for P
  by unfold_locales (rule co_apply_inv)

lemma co_run_inv: "co_run P es (new_coordinator n) = Some c \<Longrightarrow> coordinator_inv P c"
  by (rule coordinator.run_inv [OF _ new_coordinator_inv])

section \<open>No actor sleeps on its queue\<close>

definition all_awake :: "'v coordinator \<Rightarrow> bool" where
  "all_awake c \<longleftrightarrow> (\<forall>a < length (co_actors c). actor_awake (co_actors c ! a))"

lemma all_awake_update:
  "all_awake c \<Longrightarrow> co_actors c' = (co_actors c)[a := x'] \<Longrightarrow> actor_awake (co_actors c ! a) \<longrightarrow> actor_awake x' \<Longrightarrow>
     all_awake c'"
  by (cases "a < length (co_actors c)") (auto simp: all_awake_def nth_list_update list_update_beyond)

text \<open>An actor other than \<open>a\<close> is not disturbed by what happens at \<open>a\<close>.\<close>

definition awake_but :: "nat \<Rightarrow> 'v coordinator \<Rightarrow> bool" where
  "awake_but a c \<longleftrightarrow> (\<forall>b < length (co_actors c). b \<noteq> a \<longrightarrow> actor_awake (co_actors c ! b))"

lemma awake_but_update:
  "awake_but a c \<Longrightarrow> co_actors c' = (co_actors c)[b := x'] \<Longrightarrow> b = a \<or> actor_awake x' \<Longrightarrow> awake_but a c'"
  by (cases "b < length (co_actors c)") (auto simp: awake_but_def nth_list_update list_update_beyond)

lemma drop_awake:
  assumes "coordinator_inv P c" "r < length (co_requests c)"
  shows "all_awake c \<Longrightarrow> all_awake (drop_queued mark e r now c)"
    "awake_but a c \<Longrightarrow> awake_but a (drop_queued mark e r now c)"
proof -
  have al: "rq_actor (co_requests c ! r) < length (co_actors c)"
    using coordinator_inv_parts(4) [OF assms] by (simp add: located_def)
  note n = drop_queued_normal(3) [OF assms(2) al, of mark e now]
  show "all_awake c \<Longrightarrow> all_awake (drop_queued mark e r now c)"
    by (rule all_awake_update [OF _ n]) (simp_all add: dropping_def)
  show "awake_but a c \<Longrightarrow> awake_but a (drop_queued mark e r now c)"
    by (rule awake_but_update [OF _ n]) (simp_all add: dropping_def)
qed

lemma quarantine_awake:
  assumes "coordinator_inv P c" "r < length (co_requests c)"
  shows "all_awake c \<Longrightarrow> all_awake (quarantine mark e reason r c)"
    "awake_but a c \<Longrightarrow> awake_but a (quarantine mark e reason r c)"
proof -
  have al: "rq_actor (co_requests c ! r) < length (co_actors c)"
    using coordinator_inv_parts(4) [OF assms] by (simp add: located_def)
  note n = quarantine_normal(3) [OF assms(2) al, of mark e reason]
  have same: "actor_awake (ac_quarantinedUntilSettled_update f x) = actor_awake x" for f x by (simp add: actor_awake_def)
  show "all_awake c \<Longrightarrow> all_awake (quarantine mark e reason r c)"
    by (rule all_awake_update [OF _ n]) (simp_all add: same)
  show "awake_but a c \<Longrightarrow> awake_but a (quarantine mark e reason r c)"
    using al by (cases "rq_actor (co_requests c ! r) = a")
      (auto simp: awake_but_def n same nth_list_update)
qed

lemma handleDeadline_awake:
  assumes "coordinator_inv P c" "r < length (co_requests c)"
  shows "all_awake c \<Longrightarrow> all_awake (handleDeadline r now c)" "awake_but a c \<Longrightarrow> awake_but a (handleDeadline r now c)"
  using drop_awake [OF assms] quarantine_awake [OF assms] by (simp_all add: handleDeadline_def Let_def)

lemma expire_fold_awake:
  fixes c :: "'v coordinator" and now :: int
  assumes "coordinator_inv P c" "\<forall>r \<in> set rs. r < length (co_requests c)" "awake_but a c"
  defines "step \<equiv> (\<lambda>r (c :: 'v coordinator). if expired now (co_requests c ! r) then handleDeadline r now c else c)"
  shows "awake_but a (fold step rs c)"
  using assms(1-3)
proof (induction rs arbitrary: c)
  case (Cons r rs)
  have r: "r < length (co_requests c)" using Cons.prems(2) by simp
  have "coordinator_inv P (step r c)" "length (co_requests (step r c)) = length (co_requests c)" "awake_but a (step r c)"
    using Cons.prems r handleDeadline_inv [OF Cons.prems(1) r] handleDeadline_frame(1) [OF Cons.prems(1) r]
      handleDeadline_awake(2) [OF Cons.prems(1) r Cons.prems(3)] by (simp_all add: step_def)
  with Cons.IH [of "step r c"] Cons.prems(2) show ?case by simp
qed simp

lemma finally_awake:
  assumes inv: "coordinator_inv P c" and r: "r < length (co_requests c)" and awake: "all_awake c"
    and c1: "co_requests c1 = (co_requests c)[r := q1]" "answered (co_requests c ! r) q1" "co_actors c1 = co_actors c"
  shows "all_awake (execute_finally lease r now c1)"
proof -
  have al: "rq_actor (co_requests c ! r) < length (co_actors c)"
    using coordinator_inv_parts(4) [OF inv r] by (simp add: located_def)
  have r1: "r < length (co_requests c1)" "rq_actor (co_requests c1 ! r) < length (co_actors c1)"
    using r al c1 by (simp_all add: answered_def)
  have "all_awake c1" using awake c1(3) by (simp add: all_awake_def)
  then show ?thesis
    by (rule all_awake_update [OF _ execute_finally_normal(3) [OF r1]]) (simp add: finished_actor_def Let_def)
qed

lemma begin_outcome_awake:
  assumes inv: "coordinator_inv P c" and r: "r < length (co_requests c)" and awake: "all_awake c"
  shows "all_awake (begin_outcome e r now c)"
proof (cases e)
  case (Some x)
  obtain q1 where "co_requests (execute_catch x r c) = (co_requests c)[r := q1]" "answered (co_requests c ! r) q1"
    using execute_catch_normal(1) [OF r, of x] coordinator_inv_parts(2) [OF inv r] by blast
  from finally_awake [OF inv r awake this execute_catch_normal(3) [OF r]] Some
  show ?thesis by (simp add: begin_outcome_def)
qed (simp add: begin_outcome_def awake)

lemma actor_microtask_awake:
  assumes inv: "coordinator_inv P c" and a: "a < length (co_actors c)" and awake: "all_awake c"
  shows "all_awake (actor_microtask P a now c)"
proof (cases "ac_drainScheduled (co_actors c ! a)")
  case False
  with awake show ?thesis by (simp add: actor_microtask_def)
next
  case True
  define c0 where "c0 = upd_actor a (ac_drainScheduled_update (\<lambda>_. False)) c"
  have inv0: "coordinator_inv P c0" unfolding c0_def by (rule set_drainScheduled_inv [OF inv])
  have a0: "a < length (co_actors c0)" using a by (simp add: c0_def)
  have but0: "awake_but a c0" using awake by (auto simp: c0_def awake_but_def all_awake_def nth_list_update)
  have e: "actor_microtask P a now c = actor_drain P a now c0" using True by (simp add: actor_microtask_def c0_def)
  have all: "all_awake c'" if "awake_but a c'" "actor_awake (co_actors c' ! a)" for c' :: "'a coordinator"
    using that by (auto simp: all_awake_def awake_but_def)
  show ?thesis
  proof (cases "ac_active (co_actors c0 ! a)")
    case (Some r)
    then have "actor_drain P a now c0 = c0" by (simp add: actor_drain_def)
    then show ?thesis using all [OF but0] Some by (simp add: e actor_awake_def)
  next
    case None
    let ?c1 = "removeExpiredQueued a now c0"
    note x = removeExpiredQueued_inv [OF inv0 a0, of now]
    have small: "\<forall>r \<in> set (ac_queue (co_actors c0 ! a)). r < length (co_requests c0)"
      using queued_request(1) [OF inv0 a0] by blast
    have but1: "awake_but a ?c1"
      using expire_fold_awake [OF inv0 small but0, of now] by (simp add: removeExpiredQueued_def)
    have a1: "a < length (co_actors ?c1)" using x a0 by simp
    show ?thesis
    proof (cases "select_index P (ac_consecutive (co_actors ?c1 ! a)) now (co_requests ?c1) (ac_queue (co_actors ?c1 ! a))")
      case n: None
      then have "ac_queue (co_actors ?c1 ! a) = []" using select_index_total by blast
      then have "actor_awake (co_actors ?c1 ! a)" by (simp add: actor_awake_def)
      with all [OF but1] n None show ?thesis
        unfolding e actor_drain_unfold [OF inv0 a0] by (simp add: Let_def)
    next
      case (Some r)
      define c2 where "c2 = upd_actor a (\<lambda>x. x\<lparr>ac_queue := remove1 r (ac_queue x),
         ac_consecutive := recordSelection (rq_priority (co_requests ?c1 ! r)) (ac_consecutive x)\<rparr>) ?c1"
      have r: "r < length (co_requests c2)"
        using queued_request(1) [OF x(1) a1 select_index_in [OF Some]] by (simp add: c2_def)
      have act: "co_actors (start_selected P a r now c2) = (co_actors ?c1)[a := ac_active_update (\<lambda>_. Some r)
          ((co_actors ?c1 ! a)\<lparr>ac_queue := remove1 r (ac_queue (co_actors ?c1 ! a)),
            ac_consecutive := recordSelection (rq_priority (co_requests ?c1 ! r)) (ac_consecutive (co_actors ?c1 ! a))\<rparr>)]"
        using start_selected_normal(3) [OF r, of P a now] a1 by (simp add: c2_def)
      have "all_awake (start_selected P a r now c2)"
        by (rule all) (use a1 in \<open>simp_all add: act actor_awake_def awake_but_update [OF but1 act]\<close>)
      moreover have i: "coordinator_inv P (start_selected P a r now c2)"
        unfolding c2_def by (rule start_selected_inv [OF x(1) a1 _ select_index_in [OF Some]]) (use x(4) None in simp)
      ultimately have "all_awake (begin_outcome (start_error P a r now c2) r now (start_selected P a r now c2))"
        using begin_outcome_awake [OF i] r by (simp only: start_selected_request(3) [OF r])
      with Some None show ?thesis
        unfolding e actor_drain_unfold [OF inv0 a0] by (simp add: Let_def c2_def)
    qed
  qed
qed

lemma co_apply_awake:
  assumes inv: "coordinator_inv P c" and en: "co_enabled e c" and awake: "all_awake c"
  shows "all_awake (co_apply P e c)"
proof (cases e)
  case (Enqueue a p d s now)
  then have a: "a < length (co_actors c)" using en by simp
  obtain x' where "co_actors (enqueue P a p d s now c) = (co_actors c)[a := x']"
    "actor_awake (co_actors c ! a) \<longrightarrow> actor_awake x'" using enqueue_entered [OF inv a] unfolding entered_def by blast
  from all_awake_update [OF awake this] Enqueue show ?thesis by simp
next
  case (Caller_abort r reason now)
  then show ?thesis
    using drop_awake(1) [OF inv _ awake] quarantine_awake(1) [OF inv _ awake] en awake
    by (simp add: handleAbort_def Let_def)
next
  case (Deadline_timer r now)
  have "all_awake (upd_request r (rq_deadlineTimer_update (\<lambda>_. True)) c)" using awake by (simp add: all_awake_def)
  then show ?thesis
    using Deadline_timer handleDeadline_awake(1) [OF inv _ awake] en awake
    by (simp add: deadline_tick_def Let_def split: option.split)
next
  case (Actor_turn a now)
  then show ?thesis using actor_microtask_awake [OF inv _ awake] en by simp
next
  case Gate_turn
  then show ?thesis using awake by (simp add: all_awake_def)
next
  case (Admission_settles r now)
  then have r: "r < length (co_requests c)" using en by simp
  have ok: "request_ok (co_requests c ! r)" by (rule coordinator_inv_parts(2) [OF inv r])
  have "all_awake (execute_finally None r now (execute_catch e r c))" for e
    using execute_catch_normal [OF r, of e] ok finally_awake [OF inv r awake] by metis
  moreover have "all_awake (upd_request r f c)" for f using awake by (simp add: all_awake_def)
  ultimately show ?thesis
    using Admission_settles awake by (simp add: resume_admission_def split: option.split sum.split)
next
  case (Callback_settles r v now)
  then have r: "r < length (co_requests c)" using en by simp
  have ok: "request_ok (co_requests c ! r)" by (rule coordinator_inv_parts(2) [OF inv r])
  have "all_awake (execute_finally (lease_of r c) r now (execute_catch e r c))" for e
    using execute_catch_normal [OF r, of e] ok finally_awake [OF inv r awake] by metis
  moreover have "all_awake (execute_finally (lease_of r c) r now (execute_resolve u r c))" for u
    using execute_resolve_normal [of u r c] ok finally_awake [OF inv r awake] by metis
  ultimately show ?thesis
    using Callback_settles awake by (simp add: resume_callback_def Let_def split: option.split sum.split)
qed

end
