(* ===== verification/Actor_History.thy ===== *)
theory Actor_History
  imports Actor_Invariant "HOL-Library.Sublist"
begin

text \<open>What stays true of a request along a run of the coordinator.\<close>

section \<open>Answers are final\<close>

definition co_later :: "'v coordinator \<Rightarrow> 'v coordinator \<Rightarrow> bool" where
  "co_later c c' \<longleftrightarrow> length (co_requests c) \<le> length (co_requests c') \<and>
     (\<forall>r < length (co_requests c).
        prefix (rq_answers (co_requests c ! r)) (rq_answers (co_requests c' ! r)) \<and>
        (rq_settled (co_requests c ! r) \<longrightarrow> rq_settled (co_requests c' ! r)) \<and>
        rq_deadlineAt (co_requests c' ! r) = rq_deadlineAt (co_requests c ! r))"

lemma co_later_refl [simp]: "co_later c c"
  by (simp add: co_later_def)

lemma co_later_parts:
  assumes "co_later c d" "r < length (co_requests c)"
  shows "prefix (rq_answers (co_requests c ! r)) (rq_answers (co_requests d ! r))"
    "rq_settled (co_requests c ! r) \<Longrightarrow> rq_settled (co_requests d ! r)"
    "rq_deadlineAt (co_requests d ! r) = rq_deadlineAt (co_requests c ! r)"
    "r < length (co_requests d)"
  using assms by (simp_all add: co_later_def)

lemma co_later_trans:
  assumes "co_later a b" "co_later b c"
  shows "co_later a c"
  unfolding co_later_def
proof (intro conjI allI impI)
  show "length (co_requests a) \<le> length (co_requests c)" using assms unfolding co_later_def by linarith
  fix r assume r: "r < length (co_requests a)"
  then have rb: "r < length (co_requests b)" using assms(1) unfolding co_later_def by linarith
  show "prefix (rq_answers (co_requests a ! r)) (rq_answers (co_requests c ! r))"
    using assms r rb prefix_order.trans unfolding co_later_def by blast
  show "rq_settled (co_requests c ! r)" if "rq_settled (co_requests a ! r)"
    using assms r rb that unfolding co_later_def by blast
  show "rq_deadlineAt (co_requests c ! r) = rq_deadlineAt (co_requests a ! r)"
    using assms r rb unfolding co_later_def by simp
qed

text \<open>A step on one request only adds to its answers and keeps its settlement.\<close>

definition keeps :: "'v pending \<Rightarrow> 'v pending \<Rightarrow> bool" where
  "keeps q q' \<longleftrightarrow> prefix (rq_answers q) (rq_answers q') \<and>
     (rq_settled q \<longrightarrow> rq_settled q') \<and> rq_deadlineAt q' = rq_deadlineAt q"

lemma co_later_update:
  "co_requests c' = (co_requests c)[r := q'] \<Longrightarrow> keeps (co_requests c ! r) q' \<Longrightarrow> co_later c c'"
  by (cases "r < length (co_requests c)") (auto simp: co_later_def keeps_def nth_list_update list_update_beyond)

lemma co_later_append:
  "co_requests c' = co_requests c @ qs \<Longrightarrow> co_later c c'"
  by (simp add: co_later_def nth_append)

lemma dropped_keeps: "keeps q (dropped mark e now ad q)"
  unfolding keeps_def
  by (auto simp: dropped_fields dropped_def settle_promise_def reject_timing_def)

lemma quarantined_keeps: "keeps q (aborting reason (quarantined mark e q))"
  by (auto simp: keeps_def aborting_def quarantined_def Let_def settle_promise_def)

lemma drop_later:
  assumes "coordinator_inv P c" "r < length (co_requests c)"
  shows "co_later c (drop_queued mark e r now c)"
proof -
  have al: "rq_actor (co_requests c ! r) < length (co_actors c)"
    using coordinator_inv_parts(4) [OF assms] by (simp add: located_def)
  show ?thesis by (rule co_later_update [OF drop_queued_normal(2) [OF assms(2) al] dropped_keeps])
qed

lemma quarantine_later:
  assumes "coordinator_inv P c" "r < length (co_requests c)"
  shows "co_later c (quarantine mark e reason r c)"
proof -
  have al: "rq_actor (co_requests c ! r) < length (co_actors c)"
    using coordinator_inv_parts(4) [OF assms] by (simp add: located_def)
  show ?thesis by (rule co_later_update [OF quarantine_normal(2) [OF assms(2) al] quarantined_keeps])
qed

lemma handleAbort_later:
  "coordinator_inv P c \<Longrightarrow> r < length (co_requests c) \<Longrightarrow> co_later c (handleAbort r reason now c)"
  by (simp add: handleAbort_def Let_def drop_later quarantine_later)

lemma handleDeadline_later:
  "coordinator_inv P c \<Longrightarrow> r < length (co_requests c) \<Longrightarrow> co_later c (handleDeadline r now c)"
  by (simp add: handleDeadline_def Let_def drop_later quarantine_later)

lemma tick_later: "co_later c (upd_request r (rq_deadlineTimer_update (\<lambda>_. b)) c)"
  by (rule co_later_update [where r = r and q' = "rq_deadlineTimer_update (\<lambda>_. b) (co_requests c ! r)"])
    (auto simp: keeps_def)

lemma removeExpiredQueued_later:
  assumes inv: "coordinator_inv P c" and a: "a < length (co_actors c)"
  shows "co_later c (removeExpiredQueued a now c)"
proof -
  have small: "\<forall>r \<in> set (ac_queue (co_actors c ! a)). r < length (co_requests c)"
    using queued_request(1) [OF inv a] by blast
  have "co_later c (fold (\<lambda>r c. if expired now (co_requests c ! r) then handleDeadline r now c else c) rs c)"
    if "coordinator_inv P c" "\<forall>r \<in> set rs. r < length (co_requests c)" for rs and c :: "'a coordinator"
    using that
  proof (induction rs arbitrary: c)
    case (Cons r rs)
    let ?c = "if expired now (co_requests c ! r) then handleDeadline r now c else c"
    have r: "r < length (co_requests c)" using Cons.prems(2) by simp
    have i: "coordinator_inv P ?c" using Cons.prems(1) handleDeadline_inv [OF Cons.prems(1) r] by simp
    have l: "co_later c ?c" using handleDeadline_later [OF Cons.prems(1) r] by simp
    have n: "length (co_requests ?c) = length (co_requests c)" using handleDeadline_frame(1) [OF Cons.prems(1) r] by simp
    have "\<forall>s \<in> set rs. s < length (co_requests ?c)" using Cons.prems(2) n by simp
    from co_later_trans [OF l Cons.IH [OF i this]] show ?case by simp
  qed simp
  from this [OF inv small] show ?thesis by (simp add: removeExpiredQueued_def)
qed

lemma start_selected_later: "r < length (co_requests c) \<Longrightarrow> co_later c (start_selected P a r now c)"
  by (rule co_later_update [OF start_selected_normal(2)]) (simp_all add: keeps_def beginning_fields)

lemma upd_actor_later [simp]: "co_later c (upd_actor a f c')= co_later c c'" "co_later (upd_actor a f c) c' = co_later c c'"
  by (simp_all add: co_later_def)

lemma finally_later:
  assumes "coordinator_inv P c" "r < length (co_requests c)"
    and c1: "co_requests c1 = (co_requests c)[r := q1]" "co_actors c1 = co_actors c" "keeps (co_requests c ! r) q1"
      "rq_actor q1 = rq_actor (co_requests c ! r)"
  shows "co_later c (execute_finally lease r now c1)"
proof -
  have al: "rq_actor (co_requests c ! r) < length (co_actors c)"
    using coordinator_inv_parts(4) [OF assms(1,2)] by (simp add: located_def)
  have r1: "r < length (co_requests c1)" "rq_actor (co_requests c1 ! r) < length (co_actors c1)"
    using assms(2) al c1 by simp_all
  have "co_requests (execute_finally lease r now c1) =
      (co_requests c)[r := finishing now (fst (onSettled (rq_admission q1) (released lease (co_gate c1)))) q1]"
    using execute_finally_normal(2) [OF r1, of lease now] c1(1) assms(2) by simp
  then show ?thesis by (rule co_later_update) (use c1(3) in \<open>simp add: keeps_def finishing_fields finishing_def finish_timing_def Let_def\<close>)
qed

lemma execute_catch_keeps:
  "\<exists>q1. co_requests (execute_catch e r c) = (co_requests c)[r := q1] \<and> keeps (co_requests c ! r) q1 \<and>
     rq_actor q1 = rq_actor (co_requests c ! r)"
  "\<exists>q1. co_requests (execute_resolve v r c) = (co_requests c)[r := q1] \<and> keeps (co_requests c ! r) q1 \<and>
     rq_actor q1 = rq_actor (co_requests c ! r)"
  by (auto simp: execute_catch_def execute_resolve_def Let_def keeps_def settle_promise_def split: option.split intro!: exI)

lemma begin_outcome_later:
  assumes inv: "coordinator_inv P c" and r: "r < length (co_requests c)"
  shows "co_later c (begin_outcome e r now c)"
proof (cases e)
  case (Some x)
  have "co_later c (execute_finally None r now (execute_catch x r c))"
    using execute_catch_keeps(1) [of x r c] finally_later [OF inv r] by (metis execute_catch_normal(3) [OF r])
  then show ?thesis using Some by (simp add: begin_outcome_def)
qed (simp add: begin_outcome_def)

lemma actor_drain_later:
  assumes inv: "coordinator_inv P c" and a: "a < length (co_actors c)"
  shows "co_later c (actor_drain P a now c)"
proof (cases "ac_active (co_actors c ! a)")
  case None
  let ?c1 = "removeExpiredQueued a now c"
  note x = removeExpiredQueued_inv [OF inv a, of now]
  have l: "co_later c ?c1" by (rule removeExpiredQueued_later [OF inv a])
  have a1: "a < length (co_actors ?c1)" using x a by simp
  show ?thesis
  proof (cases "select_index P (ac_consecutive (co_actors ?c1 ! a)) now (co_requests ?c1) (ac_queue (co_actors ?c1 ! a))")
    case n: None
    with None l show ?thesis unfolding actor_drain_unfold [OF inv a] by (simp add: Let_def)
  next
    case (Some r)
    have r: "r < length (co_requests ?c1)" by (rule queued_request(1) [OF x(1) a1 select_index_in [OF Some]])
    let ?c2 = "upd_actor a (\<lambda>x. x\<lparr>ac_queue := remove1 r (ac_queue x),
         ac_consecutive := recordSelection (rq_priority (co_requests ?c1 ! r)) (ac_consecutive x)\<rparr>) ?c1"
    let ?c3 = "start_selected P a r now ?c2"
    have "co_later ?c1 ?c3"
      using start_selected_later [of r ?c2 P a now] r by simp
    moreover have "coordinator_inv P ?c3"
      by (rule start_selected_inv [OF x(1) a1 _ select_index_in [OF Some]]) (use x(4) None in simp)
    ultimately have "co_later ?c1 (begin_outcome (start_error P a r now ?c2) r now ?c3)"
      using co_later_trans begin_outcome_later r start_selected_request(3) [of r ?c2 P a now] by fastforce
    from co_later_trans [OF l this] Some None show ?thesis
      unfolding actor_drain_unfold [OF inv a] by (simp add: Let_def)
  qed
qed (simp add: actor_drain_def)

lemma enqueue_later:
  "coordinator_inv P c \<Longrightarrow> a < length (co_actors c) \<Longrightarrow> co_later c (enqueue P a p d signal now c)"
  using enqueue_entered [of P c a p d signal now] co_later_append unfolding entered_def by blast

lemma co_apply_later:
  assumes inv: "coordinator_inv P c" and en: "co_enabled e c"
  shows "co_later c (co_apply P e c)"
proof (cases e)
  case (Enqueue a p d s now)
  then show ?thesis using enqueue_later [OF inv] en by simp
next
  case (Caller_abort r reason now)
  then show ?thesis using handleAbort_later [OF inv] en by simp
next
  case (Deadline_timer r now)
  then show ?thesis
    using handleDeadline_later [OF inv] tick_later [of c r True] en
    by (simp add: deadline_tick_def Let_def split: option.split)
next
  case (Actor_turn a now)
  then have a: "a < length (co_actors c)" using en by simp
  let ?c0 = "upd_actor a (ac_drainScheduled_update (\<lambda>_. False)) c"
  have "co_later ?c0 (actor_drain P a now ?c0)"
    by (rule actor_drain_later [OF set_drainScheduled_inv [OF inv]]) (use a in simp)
  then show ?thesis using Actor_turn by (simp add: actor_microtask_def)
next
  case Gate_turn
  then show ?thesis by (simp add: co_later_def)
next
  case (Admission_settles r now)
  then have r: "r < length (co_requests c)" using en by simp
  have "co_later c (execute_finally None r now (execute_catch e r c))" for e
    using execute_catch_keeps(1) [of e r c] finally_later [OF inv r] by (metis execute_catch_normal(3) [OF r])
  moreover have "co_later c (upd_request r f c)" if "\<And>q. keeps q (f q)" for f
    by (rule co_later_update [where r = r and q' = "f (co_requests c ! r)"]) (simp_all add: that)
  ultimately show ?thesis
    using Admission_settles by (simp add: resume_admission_def Let_def keeps_def split: option.split sum.split)
next
  case (Callback_settles r v now)
  then have r: "r < length (co_requests c)" using en by simp
  have "co_later c (execute_finally (lease_of r c) r now (execute_catch e r c))" for e
    using execute_catch_keeps(1) [of e r c] finally_later [OF inv r] by (metis execute_catch_normal(3) [OF r])
  moreover have "co_later c (execute_finally (lease_of r c) r now (execute_resolve u r c))" for u
    using execute_catch_keeps(2) [of u r c] finally_later [OF inv r] by (metis execute_resolve_normal(3))
  ultimately show ?thesis
    using Callback_settles by (simp add: resume_callback_def Let_def split: option.split sum.split)
qed

lemma co_run_later:
  "co_run P es c = Some d \<Longrightarrow> coordinator_inv P c \<Longrightarrow> co_later c d"
  by (rule coordinator.run_relation [where r = co_later]) (auto intro: co_later_trans co_apply_later)

lemma new_coordinator_awake: "all_awake (new_coordinator n)"
  by (auto simp: all_awake_def new_coordinator_def actor_awake_def new_actor_def nth_Cons split: nat.split)

text \<open>The awake invariant is the second use of the event-system interface.\<close>

interpretation coordinator_awake: event_system co_enabled "co_apply P" "\<lambda>c. coordinator_inv P c \<and> all_awake c" for P
  by unfold_locales (simp add: co_apply_inv co_apply_awake)

lemma co_run_awake: "co_run P es (new_coordinator n) = Some c \<Longrightarrow> all_awake c"
  using coordinator_awake.run_inv new_coordinator_inv new_coordinator_awake by blast

end
