(* ===== verification/Actor_Properties.thy ===== *)
theory Actor_Properties
  imports Actor_History
begin

text \<open>
  The properties of the resource actors and of the coordinator they form with the gate, over every
  history of calls, signals, timers and microtasks.
\<close>

section \<open>A concrete history\<close>

definition ex_options :: actor_options where
  "ex_options = \<lparr>ao_maxQueueSize = 4, ao_maxConsecutiveReads = 2, ao_maxConsecutiveMutations = 2,
     ao_maxConsecutiveControls = 2, ao_maxWaitMs = 1000,
     ao_gate = \<lparr>gl_maxQueueSize = 8, gl_maxConsecutiveExclusives = 1\<rparr>\<rparr>"

text \<open>Two tabs run callbacks at the same time; a browser acquisition queues and is aborted.\<close>

definition ex_calls :: "nat co_event list" where
  "ex_calls = [Enqueue 1 Read None No_signal 0, Enqueue 2 Mutation (Some 90) No_signal 1, Actor_turn 1 2,
     Actor_turn 2 3, Gate_turn, Admission_settles 0 4, Admission_settles 1 5]"

definition ex_abort :: "nat co_event list" where
  "ex_abort = [Enqueue 0 Control None Live_signal 6, Actor_turn 0 7, Caller_abort 2 None 8]"

definition ex_rest :: "nat co_event list" where
  "ex_rest = [Admission_settles 2 9, Callback_settles 0 (Inr 7) 10,
     Callback_settles 1 (Inl (Callback_error ''tab closed'')) 11, Gate_turn]"

definition ex_busy :: "nat coordinator" where
  "ex_busy = the (co_run ex_options ex_calls (new_coordinator 2))"

definition ex_aborted :: "nat coordinator" where
  "ex_aborted = the (co_run ex_options ex_abort ex_busy)"

definition ex_done :: "nat coordinator" where
  "ex_done = the (co_run ex_options ex_rest ex_aborted)"

lemma ex_busy_run: "co_run ex_options ex_calls (new_coordinator 2) = Some ex_busy"
proof -
  have "co_run ex_options ex_calls (new_coordinator 2) \<noteq> None" by code_simp
  then show ?thesis by (simp add: ex_busy_def)
qed

lemma ex_aborted_run: "co_run ex_options (ex_calls @ ex_abort) (new_coordinator 2) = Some ex_aborted"
proof -
  have "co_run ex_options ex_abort ex_busy \<noteq> None" by code_simp
  then have "co_run ex_options ex_abort ex_busy = Some ex_aborted" by (simp add: ex_aborted_def)
  then show ?thesis using ex_busy_run by (simp add: run_append)
qed

lemma ex_done_run: "co_run ex_options ex_rest ex_aborted = Some ex_done"
proof -
  have "co_run ex_options ex_rest ex_aborted \<noteq> None" by code_simp
  then show ?thesis by (simp add: ex_done_def)
qed

lemma ex_done_all: "co_run ex_options ((ex_calls @ ex_abort) @ ex_rest) (new_coordinator 2) = Some ex_done"
  by (rule run_appendI [OF ex_aborted_run ex_done_run])

section \<open>Callbacks\<close>

text \<open>
  C36. Callbacks exclude each other as promised. In every reachable state, two different requests
  whose callbacks run at the same time belong to different actors and both are tab transactions: one
  resource never runs two callbacks, and a browser acquisition never runs beside any other callback.
\<close>

theorem callbacks_exclude:
  assumes "co_run P es (new_coordinator n) = Some c"
    and "r < length (co_requests c)" "s < length (co_requests c)" "r \<noteq> s"
    and "rq_stage (co_requests c ! r) = In_callback" "rq_stage (co_requests c ! s) = In_callback"
  shows "rq_actor (co_requests c ! r) \<noteq> rq_actor (co_requests c ! s) \<and>
     ac_kind (co_actors c ! rq_actor (co_requests c ! r)) = Shared \<and>
     ac_kind (co_actors c ! rq_actor (co_requests c ! s)) = Shared"
proof -
  have inv: "coordinator_inv P c" by (rule co_run_inv [OF assms(1)])
  note gi = system_inv_parts(1) [OF coordinator_inv_parts(1) [OF inv], simplified]
  have one: "\<exists>w. ad_waiter (rq_admission (co_requests c ! q)) = Some w \<and> gate_waiter (co_gate c) w \<and>
      w_acquired (g_waiter (co_gate c) w) \<and> w_kind (g_waiter (co_gate c) w) = ac_kind (co_actors c ! rq_actor (co_requests c ! q)) \<and>
      ac_active (co_actors c ! rq_actor (co_requests c ! q)) = Some q"
    if q: "q < length (co_requests c)" "rq_stage (co_requests c ! q) = In_callback" for q
  proof -
    obtain w where w: "ad_waiter (rq_admission (co_requests c ! q)) = Some w" "w_acquired (g_waiter (co_gate c) w)"
      using coordinator_inv_parts(3) [OF inv q(1)] q(2) by (auto simp: place_ok_def)
    have "rq_started (co_requests c ! q)" "\<not> rq_settled (co_requests c ! q)"
      using coordinator_inv_parts(2) [OF inv q(1)] q(2) by (auto simp: request_ok_def)
    then show ?thesis
      using w owned_waiter [OF inv q(1) w(1)] coordinator_inv_parts(4) [OF inv q(1)] by (simp add: located_def)
  qed
  obtain v where v: "ad_waiter (rq_admission (co_requests c ! r)) = Some v" "gate_waiter (co_gate c) v"
      "w_acquired (g_waiter (co_gate c) v)" "w_kind (g_waiter (co_gate c) v) = ac_kind (co_actors c ! rq_actor (co_requests c ! r))"
      "ac_active (co_actors c ! rq_actor (co_requests c ! r)) = Some r"
    using one [OF assms(2,5)] by blast
  obtain w where w: "ad_waiter (rq_admission (co_requests c ! s)) = Some w" "gate_waiter (co_gate c) w"
      "w_acquired (g_waiter (co_gate c) w)" "w_kind (g_waiter (co_gate c) w) = ac_kind (co_actors c ! rq_actor (co_requests c ! s))"
      "ac_active (co_actors c ! rq_actor (co_requests c ! s)) = Some s"
    using one [OF assms(3,6)] by blast
  have vw: "v \<noteq> w" using owned_waiter(3) [OF inv assms(2) v(1) assms(3)] w(1) assms(4) by blast
  have "w_kind (g_waiter (co_gate c) v) \<noteq> Exclusive" "w_kind (g_waiter (co_gate c) w) \<noteq> Exclusive"
    using acquired_exclusive_alone(1) [OF gi v(2,3) _ w(2,3)] acquired_exclusive_alone(1) [OF gi w(2,3) _ v(2,3)] vw by auto
  then have "ac_kind (co_actors c ! rq_actor (co_requests c ! r)) = Shared"
    "ac_kind (co_actors c ! rq_actor (co_requests c ! s)) = Shared"
    using v(4) w(4) by (metis waiter_kind.exhaust)+
  moreover have "rq_actor (co_requests c ! r) \<noteq> rq_actor (co_requests c ! s)" using v(5) w(5) assms(4) by auto
  ultimately show ?thesis by blast
qed

theorem callbacks_exclude_witness:
  "rq_stage (co_requests ex_busy ! 0) = In_callback \<and> rq_stage (co_requests ex_busy ! 1) = In_callback \<and>
   rq_actor (co_requests ex_busy ! 0) \<noteq> rq_actor (co_requests ex_busy ! 1)"
proof -
  have h: "0 < length (co_requests ex_busy)" "1 < length (co_requests ex_busy)" "(0 :: nat) \<noteq> 1"
    "rq_stage (co_requests ex_busy ! 0) = In_callback" "rq_stage (co_requests ex_busy ! 1) = In_callback" by code_simp+
  from callbacks_exclude [OF ex_busy_run h] h(4,5) show ?thesis by blast
qed

section \<open>Answers\<close>

text \<open>
  C37. Each caller is answered once. In every reachable state the code has called \<open>resolve\<close> or
  \<open>reject\<close> of a request at most once, exactly once when it is settled, and no later event (a late
  abort, a deadline, the callback's own result) calls either of them again.
\<close>

theorem answered_once:
  assumes "co_run P es (new_coordinator n) = Some c" "co_run P fs c = Some d"
    and "r < length (co_requests c)"
  shows "length (rq_answers (co_requests c ! r)) = (if rq_callerSettled (co_requests c ! r) then 1 else 0) \<and>
     (rq_settled (co_requests c ! r) \<longrightarrow> rq_callerSettled (co_requests c ! r)) \<and>
     (rq_callerSettled (co_requests c ! r) \<longrightarrow> rq_answers (co_requests d ! r) = rq_answers (co_requests c ! r))"
proof -
  have inv: "coordinator_inv P c" by (rule co_run_inv [OF assms(1)])
  have later: "co_later c d" by (rule co_run_later [OF assms(2) inv])
  have "co_run P (es @ fs) (new_coordinator n) = Some d" by (rule run_appendI [OF assms(1,2)])
  then have "coordinator_inv P d" by (rule co_run_inv)
  then have d: "length (rq_answers (co_requests d ! r)) \<le> 1"
    using coordinator_inv_parts(2) [OF _ co_later_parts(4) [OF later assms(3)]] by (simp add: request_ok_def)
  note c = coordinator_inv_parts(2) [OF inv assms(3), unfolded request_ok_def]
  then show ?thesis using co_later_parts(1) [OF later assms(3)] d by (auto simp: prefix_def)
qed

theorem answered_once_witness:
  "rq_answers (co_requests ex_aborted ! 2) = [Inl (Aborted In_flight_phase)] \<and>
   rq_answers (co_requests ex_done ! 2) = [Inl (Aborted In_flight_phase)]"
proof -
  have h: "2 < length (co_requests ex_aborted)" "rq_callerSettled (co_requests ex_aborted ! 2)"
    "rq_answers (co_requests ex_aborted ! 2) = [Inl (Aborted In_flight_phase)]"
    by code_simp+
  from answered_once [OF ex_aborted_run ex_done_run h(1)] h(2,3) show ?thesis by simp
qed

text \<open>
  C38. A settled request leaves nothing behind: in every reachable state each settled request has
  answered its caller and holds neither a waiter nor a reservation at the gate, and each request that
  is not settled is in the queue of its actor or is the one active there.
\<close>

theorem settled_leaves_nothing:
  assumes "co_run P es (new_coordinator n) = Some c" "r < length (co_requests c)"
  shows "if rq_settled (co_requests c ! r)
    then length (rq_answers (co_requests c ! r)) = 1 \<and> ad_waiter (rq_admission (co_requests c ! r)) = None \<and>
      \<not> accepted_shared (rq_admission (co_requests c ! r))
    else r \<in> set (ac_queue (co_actors c ! rq_actor (co_requests c ! r))) \<longleftrightarrow>
      ac_active (co_actors c ! rq_actor (co_requests c ! r)) \<noteq> Some r"
  using coordinator_inv_parts(2,4) [OF co_run_inv [OF assms(1)] assms(2)]
  by (auto simp: request_ok_def located_def)

theorem settled_leaves_nothing_witness:
  "rq_settled (co_requests ex_done ! 2) \<and> ad_waiter (rq_admission (co_requests ex_done ! 2)) = None"
proof -
  have h: "2 < length (co_requests ex_done)" "rq_settled (co_requests ex_done ! 2)" by code_simp+
  from settled_leaves_nothing [OF ex_done_all h(1)] h(2) show ?thesis by simp
qed

section \<open>Accounting\<close>

text \<open>
  C39. When everything is settled the gate is idle: in a reachable state where every request is
  settled, the gate of the browser has no waiter, no lease and no reservation, so it can be dropped.
\<close>

theorem settled_gate_idle:
  assumes "co_run P es (new_coordinator n) = Some c"
    and "\<forall>r < length (co_requests c). rq_settled (co_requests c ! r)"
  shows "gate_isIdle (co_gate c)"
proof -
  have inv: "coordinator_inv P c" by (rule co_run_inv [OF assms(1)])
  note S = coordinator_inv_parts(1) [OF inv]
  note gi = system_inv_parts(1) [OF S, simplified]
  have none: "ad_waiter (rq_admission q) = None \<and> \<not> accepted_shared (rq_admission q)" if q: "q \<in> set (co_requests c)" for q
  proof -
    obtain r where r: "r < length (co_requests c)" "co_requests c ! r = q" using q by (auto simp: in_set_conv_nth)
    from coordinator_inv_parts(2) [OF inv r(1)] assms(2) r show ?thesis by (auto simp: request_ok_def)
  qed
  have settled: "w_settled (g_waiter (co_gate c) w)" if gw: "gate_waiter (co_gate c) w" for w
  proof (rule ccontr)
    assume ns: "\<not> w_settled (g_waiter (co_gate c) w)"
    have "\<exists>a \<in> set (gs_admissions (gate_view c)). ad_waiter a = Some w"
      using system_inv_parts(5) [OF S, unfolded owners_ok_def] gw ns by simp
    then show False using none by auto
  qed
  have "g_queued (co_gate c) = []"
  proof (rule ccontr)
    assume "g_queued (co_gate c) \<noteq> []"
    then obtain w where w: "w \<in> set (g_queued (co_gate c))" by (meson list.set_sel(1))
    then have "gate_waiter (co_gate c) w" using gate_inv_parts(2) [OF gi] by (simp add: queue_ok_def)
    then show False using settled flags_of(1) [OF gate_inv_parts(1) [OF gi]] w by blast
  qed
  moreover have na: "\<not> (gate_waiter (co_gate c) w \<and> w_acquired (g_waiter (co_gate c) w))" for w
  proof
    assume h: "gate_waiter (co_gate c) w \<and> w_acquired (g_waiter (co_gate c) w)"
    then have "\<not> w_settled (g_waiter (co_gate c) w)" using gate_inv_parts(1) [OF gi] by (simp add: flags_ok_def)
    then show False using settled h by blast
  qed
  have "g_activeExclusive (co_gate c) = None" "g_activeShared (co_gate c) = []"
  proof -
    have "set_option (g_activeExclusive (co_gate c)) = {}" "set (g_activeShared (co_gate c)) = {}"
      using gate_inv_parts(4) [OF gi] na unfolding active_ok_def by (metis (no_types, lifting) Collect_empty_eq)+
    then show "g_activeExclusive (co_gate c) = None" "g_activeShared (co_gate c) = []" by simp_all
  qed
  moreover have "filter accepted_shared (gs_admissions (gate_view c)) = []"
    using none by (auto simp: filter_empty_conv)
  then have "g_acceptedSharedReservations (co_gate c) = 0"
    using system_inv_parts(6) [OF S] by (simp add: reservations_ok_def)
  ultimately show ?thesis by (simp add: gate_isIdle_def)
qed

theorem settled_gate_idle_witness: "gate_isIdle (co_gate ex_done) \<and> length (co_requests ex_done) = 3"
proof -
  have "length (co_requests ex_done) = 3" "rq_settled (co_requests ex_done ! 0)"
    "rq_settled (co_requests ex_done ! 1)" "rq_settled (co_requests ex_done ! 2)" by code_simp+
  then have "\<forall>r < length (co_requests ex_done). rq_settled (co_requests ex_done ! r)"
    by (auto simp: less_Suc_eq numeral_3_eq_3 numeral_2_eq_2)
  from settled_gate_idle [OF ex_done_all this] \<open>length (co_requests ex_done) = 3\<close> show ?thesis by blast
qed

text \<open>Every request is counted once: for each actor, the completed and the rejected requests, the
  queued ones and the active one are together exactly the requests it was sent.
\<close>

lemma requests_accounted:
  assumes "co_run P es (new_coordinator n) = Some c" "a < length (co_actors c)"
  shows "ac_completedCount (co_actors c ! a) + ac_rejectedCount (co_actors c ! a) +
      length (ac_queue (co_actors c ! a)) + (if ac_active (co_actors c ! a) = None then 0 else 1) =
    card {r. r < length (co_requests c) \<and> rq_actor (co_requests c ! r) = a}"
proof -
  have inv: "coordinator_inv P c" by (rule co_run_inv [OF assms(1)])
  let ?x = "co_actors c ! a" and ?n = "length (co_requests c)"
  let ?S = "{r. r < ?n \<and> rq_actor (co_requests c ! r) = a \<and> rq_settled (co_requests c ! r)}"
  note R = coordinator_inv_parts(6) [OF inv assms(2), unfolded refs_ok_def]
  have loc: "located (co_actors c) r (co_requests c ! r)" if "r < ?n" for r by (rule coordinator_inv_parts(4) [OF inv that])
  have split: "{r. r < ?n \<and> rq_actor (co_requests c ! r) = a} = ?S \<union> (set (ac_queue ?x) \<union> set_option (ac_active ?x))"
  proof (intro set_eqI iffI)
    fix r assume "r \<in> {r. r < ?n \<and> rq_actor (co_requests c ! r) = a}"
    then show "r \<in> ?S \<union> (set (ac_queue ?x) \<union> set_option (ac_active ?x))"
      using loc [of r] by (auto simp: located_def)
  next
    fix r assume "r \<in> ?S \<union> (set (ac_queue ?x) \<union> set_option (ac_active ?x))"
    then show "r \<in> {r. r < ?n \<and> rq_actor (co_requests c ! r) = a}" using R by (auto simp: elem_set)
  qed
  have started: "\<not> rq_started (co_requests c ! r)" if "r \<in> set (ac_queue ?x)" for r
    by (rule queued_request(3) [OF inv assms(2) that])
  have act: "rq_started (co_requests c ! r) \<and> \<not> rq_settled (co_requests c ! r)" if "ac_active ?x = Some r" for r
    using R loc [of r] that by (simp add: located_def)
  have disj: "set (ac_queue ?x) \<inter> set_option (ac_active ?x) = {}" using started act by (auto simp: elem_set)
  have disj': "?S \<inter> (set (ac_queue ?x) \<union> set_option (ac_active ?x)) = {}"
    using queued_request(4) [OF inv assms(2)] act by (auto simp: elem_set)
  have "card (set (ac_queue ?x)) = length (ac_queue ?x)"
    using coordinator_inv_parts(5) [OF inv assms(2)] by (simp add: actor_ok_def distinct_card)
  moreover have "card (set_option (ac_active ?x)) = (if ac_active ?x = None then 0 else 1)" by (cases "ac_active ?x") simp_all
  moreover have "card ?S = ac_completedCount ?x + ac_rejectedCount ?x"
    using R by (simp add: length_filter_conv_card)
  moreover have "card (?S \<union> (set (ac_queue ?x) \<union> set_option (ac_active ?x))) =
      card ?S + (card (set (ac_queue ?x)) + card (set_option (ac_active ?x)))"
    using disj disj' by (simp add: card_Un_disjoint)
  ultimately show ?thesis unfolding split by simp
qed

section \<open>Turns\<close>

text \<open>
  C40. No actor sleeps on its queue: in every reachable state, an actor with queued requests is busy
  with another one or has a drain scheduled.
\<close>

theorem actor_never_sleeps:
  assumes "co_run P es (new_coordinator n) = Some c" "a < length (co_actors c)"
    and "ac_queue (co_actors c ! a) \<noteq> []"
  shows "ac_active (co_actors c ! a) \<noteq> None \<or> ac_drainScheduled (co_actors c ! a)"
  using co_run_awake [OF assms(1)] assms(2,3) by (auto simp: all_awake_def actor_awake_def)

definition ex_queued :: "nat coordinator" where
  "ex_queued = the (co_run ex_options [Enqueue 1 Read None No_signal 0] (new_coordinator 2))"

theorem actor_never_sleeps_witness:
  "ac_queue (co_actors ex_queued ! 1) = [0] \<and> ac_drainScheduled (co_actors ex_queued ! 1)"
proof -
  have "co_run ex_options [Enqueue 1 Read None No_signal 0] (new_coordinator 2) \<noteq> (None :: nat coordinator option)" by code_simp
  then have r: "co_run ex_options [Enqueue 1 Read None No_signal 0] (new_coordinator 2) = Some ex_queued" by (simp add: ex_queued_def)
  have h: "1 < length (co_actors ex_queued)" "ac_queue (co_actors ex_queued ! 1) = [0]"
    "ac_active (co_actors ex_queued ! 1) = None" by code_simp+
  from actor_never_sleeps [OF r h(1)] h(2,3) show ?thesis by simp
qed

end
