(* ===== verification/Spec2Isabelle.thy ===== *)
theory Spec2Isabelle
  imports Op_Properties Op_Snapshot Journal_Properties Handle_Properties Request_Properties
    Recovery_Properties Turn_Properties Gate_Properties Actor_Properties
begin

text \<open>
  A model of the durable operation layer and of the tab coordinator of the Node SDK
  (\<open>packages/node/src/operations\<close> and \<open>packages/node/src/runtime/tab-coordinator.ts\<close>).

  \<^bold>\<open>The program.\<close> An operation is one request to a browser page that must not be repeated by
  accident: submit a prompt once, observe the answer, keep a receipt. Its history is a log of events.
  The reducer (\<open>state-machine.ts\<close>) folds the events into a state and refuses an event that the state
  does not allow; the journal (\<open>journal.ts\<close>) stores the events in a hash-chained file and later
  compacts them into a terminal record or a tombstone; the recovery rules (\<open>recovery.ts\<close>) say what
  may be done with a state after a crash; the ownership classifier (\<open>turn-ownership.ts\<close>) decides from
  page observations which turn belongs to the operation. The caller holds a handle of the operation
  and identifies a request by a keyed digest (\<open>handle.ts\<close>). Independently, the coordinator
  (\<open>tab-coordinator.ts\<close>) runs callbacks on browser and tab resources: one actor with a queue per
  resource, and one gate per browser with shared (tab) and exclusive (browser) leases.

  \<^bold>\<open>Values and errors.\<close> \<open>Op_Prelude\<close>: exceptions are the left side of a sum, a check is an
  optional error, objects are association lists in insertion order with \<open>obj_get\<close> and
  \<open>obj_set\<close>. Strings are lists of code units below 256. \<open>Op_Types\<close>: the records and unions of
  \<open>types.ts\<close> and \<open>artifact-transfer.ts\<close>; a union of string literals is a datatype with an
  extra constructor for any other string, so that the checks of the code have something to refuse.
  \<open>Canonical_Json\<close>, \<open>Canonical_Total\<close>: \<open>canonicalJson\<close> with its budget, and bounds
  under which it succeeds. \<open>Op_Encode\<close>: the JavaScript value of each record. \<open>Keyed_Digest\<close>:
  \<open>hmacDigest\<close> over a hash parameter and the request identity. \<open>Json_Text\<close>,
  \<open>Json_Values\<close>: \<open>JSON.parse\<close> and \<open>JSON.stringify\<close>, with the round trip through the
  printer. \<open>Op_Decode\<close>, \<open>Op_Plain\<close>, \<open>Op_Faithful\<close>: reading a parsed value as a
  typed one, and that nothing is lost by it.

  \<^bold>\<open>Reducer.\<close> \<open>Op_Patterns\<close>, \<open>Op_Shape\<close>, \<open>Op_Shape_Typed\<close> (lexical and
  closed-shape checks), \<open>Op_Target\<close>, \<open>Op_Actions\<close>, \<open>Op_Ownership\<close>,
  \<open>Op_Transfer\<close>, \<open>Op_Receipt\<close> (one group per kind of event), \<open>Op_Reducer\<close>
  (\<open>applyOperationEvent\<close>, \<open>reduceOperationEvents\<close>), \<open>Op_Snapshot\<close>
  (\<open>assertOperationStateShape\<close>). \<open>Op_Invariants\<close>, \<open>Op_Lifecycle\<close> and \<open>Op_Log\<close> hold
  the step relation, the frame of each event, reachability and the invariants; \<open>Op_Receipt_Objects\<close> an
  action receipt on JavaScript objects, where an action id may name an \<open>Object.prototype\<close> member (the
  typed reducer, and the journal over it, refuse that event: \<open>Untyped_record\<close>); \<open>Op_Properties\<close> the
  properties; \<open>Op_Example\<close> a complete concrete operation for the witnesses.

  \<^bold>\<open>Journal.\<close> \<open>Journal_Log\<close> (envelopes, \<open>readLog\<close>, \<open>appendRecord\<close>),
  \<open>Journal_Io\<close> (files, quota counter), \<open>Journal_Store\<close> (terminal records, tombstones),
  \<open>Journal\<close> (the operations). An operation is a function from a store to the list of durable
  stores it passes through and its result, so a crash is stopping at one of them. The writing of a
  record passes through each of its prefixes. \<open>Journal_Log_Facts\<close>, \<open>Journal_Records\<close>,
  \<open>Journal_Effects\<close>, \<open>Journal_Append\<close>, \<open>Journal_Facts\<close>, \<open>Journal_Chain\<close>,
  \<open>Journal_Compaction\<close>, \<open>Journal_System\<close> and \<open>Journal_Quota\<close> build the facts;
  \<open>Journal_Example\<close>, \<open>Record_Example\<close> and \<open>Terminal_Example\<close> are concrete journals;
  \<open>Journal_Properties\<close> states atomicity, durability, tamper evidence, compaction, expiry and
  accounting.

  \<^bold>\<open>Handles and requests.\<close> The values of the caller are untyped. \<open>Handle_Records\<close> reads plain
  records and arrays of them without running accessors; \<open>Op_Handle\<close> has the handle, its issue from a
  state (\<open>operationHandleFromState\<close>), its shape and \<open>validateOperationHandle\<close>; \<open>Op_Request\<close>
  the validation and the digests of submit and control requests. \<open>Handle_Phases\<close> (the search for a
  phase that can precede another), \<open>Handle_Target\<close> (the digest of a target exists and survives
  rebinding and establishment) and \<open>Handle_Facts\<close> lead to \<open>Handle_Properties\<close>: an issued handle
  stays valid, an accepted one is bound. \<open>Request_Facts\<close> and \<open>Request_Properties\<close>: a digest
  commits to the intent and ignores the local wait budget.

  \<^bold>\<open>Recovery and ownership.\<close> \<open>Op_Recovery\<close> (\<open>decideOperationRecovery\<close>),
  \<open>Turn_Ownership\<close> (evidence and validation), \<open>Turn_Classifier\<close>
  (\<open>classifyTurnOwnership\<close>), \<open>Turn_Facts\<close>; \<open>Turn_Provenance\<close> follows a chain of cursors back to
  the classification that proved its user turn. \<open>Recovery_Properties\<close> and \<open>Turn_Properties\<close> state that
  nothing is repeated and that only a turn proved once is owned.

  \<^bold>\<open>Coordinator.\<close> \<open>Gate_Heap\<close> (the array heap of started exclusive waiters),
  \<open>Browser_Gate\<close> (the gate), \<open>Resource_Actor\<close> (actors over one gate). \<open>Event_System\<close> is
  the interface of a system of guarded events, a locale with reachability and invariants, which
  \<open>Gate_System\<close> and \<open>Actor_System\<close> interpret. An asynchronous function is cut at its await
  points: each event runs one synchronous stretch. A request records every call of its \<open>resolve\<close> and
  \<open>reject\<close>, so that a second call is visible. \<open>Gate_Facts\<close>, \<open>Gate_Drain\<close>,
  \<open>Gate_Invariant\<close>, \<open>Gate_History\<close>, \<open>Actor_Steps\<close>, \<open>Actor_Turns\<close>,
  \<open>Actor_Invariant\<close> and \<open>Actor_History\<close> hold the invariants; \<open>Gate_Properties\<close> and
  \<open>Actor_Properties\<close> the exclusion, order, liveness and accounting properties.

  \<^bold>\<open>Parameters.\<close> The URL parser of the platform (\<open>url_parser\<close>) and the keyed hash
  (\<open>keyed_hash\<close>, bytes to hexadecimal digits). Of the hash only its hexadecimal form is assumed,
  and for tamper evidence and for request digests that it takes distinct values on the messages
  in question.

  \<^bold>\<open>Bounds.\<close> Recursion is structural or has a measure, except for the JSON reader, which carries
  fuel: \<open>json_parse\<close> starts it with one more than the length of the text, and \<open>json_parse_text\<close>
  shows that this is enough for every printed value. Numbers are integers; safe-integer tests are
  written out. Sizes are counted in UTF-8 bytes.

  \<^bold>\<open>Not modelled.\<close> Locks, the in-process queue and fsync of the journal: each operation runs alone,
  and a store that was written stays written. Temporary files, permission and symlink checks, the key
  file. The checksum of the quota counter's own file (it is read as a typed value) and the four
  directory fingerprints (one stamp stands for them). The clock is read once per synchronous step and
  is an integer. Bytes of a log that are not UTF-8 of code points below 256 are refused as corrupt.
  The notifications of an idle gate or actor and the process-wide front end of the coordinator.
  Everything that touches a page or a file beside the journal: the operation service, the browser
  adapters, commands, DOM observation, the backend process, the development orchestrator, scripts,
  generated bundles and the Python package.
\<close>

end
